(* ===== verification/Prelude.thy ===== *)
theory Prelude
  imports Main "HOL-Library.Word" "HOL-Library.More_List"
begin

text \<open>
  Shared vocabulary of the development: the machine integers and byte buffers of the C++ code, the
  errors its functions raise, the byte-order functions of the C library, loads from and stores into
  byte buffers (what \<open>reinterpret_cast\<close> to a packed struct does), and the interface
  \<open>wire_struct\<close> that every packed struct of \<open>include/rtc/rtp.hpp\<close> and of the data channel
  establishment protocol satisfies.

  Conventions.
  \<^item> \<open>uint8_t\<close>, \<open>uint16_t\<close>, \<open>uint32_t\<close>, \<open>uint64_t\<close> are words of that width. A \<open>size_t\<close>
    that counts bytes of an object in memory is a \<open>nat\<close>; where the code lets such a value wrap
    around, the model keeps it a word.
  \<^item> The host is little-endian (x86-64, AArch64): a packed struct is read from memory with its
    fields in host order, and \<open>htons\<close>, \<open>htonl\<close>, \<open>htonll\<close> swap bytes.
  \<^item> An exception is a value \<open>Inl e\<close>; \<open>OutOfBounds\<close> marks an access outside a buffer, which is
    undefined behaviour in C++ and which no check of the source excludes; \<open>UndefinedBehaviour\<close>
    marks the other undefined operations the code can reach (a shift by a negative count). \<open>assert\<close> is compiled out,
    as in the release build.
\<close>

unbundle bit_operations_syntax

named_theorems byte_simps \<open>loads, stores and byte order\<close>
named_theorems struct_defs \<open>definitions of struct accessors\<close>

type_synonym u8 = "8 word"
type_synonym u16 = "16 word"
type_synonym u32 = "32 word"
type_synonym u64 = "64 word"
type_synonym binary = "u8 list"

section \<open>Errors\<close>

datatype error =
    RuntimeError string
  | InvalidArgument string
  | LogicError string
  | OutOfRange
  | OutOfBounds
  | UndefinedBehaviour

type_synonym 'a result = "error + 'a"

definition bind_result :: "'a result \<Rightarrow> ('a \<Rightarrow> 'b result) \<Rightarrow> 'b result" where
  "bind_result r f = (case r of Inl e \<Rightarrow> Inl e | Inr x \<Rightarrow> f x)"

lemma bind_result_simps [simp]:
  "bind_result (Inl e) f = Inl e"
  "bind_result (Inr x) f = f x"
  by (simp_all add: bind_result_def)

lemma bind_result_Inr_iff:
  "bind_result r f = Inr y \<longleftrightarrow> (\<exists>x. r = Inr x \<and> f x = Inr y)"
  by (cases r) auto

lemma map_sum_Inr_iff: "map_sum f g z = Inr y \<longleftrightarrow> (\<exists>x. z = Inr x \<and> g x = y)"
  by (cases z) auto

section \<open>Equality of words, bit by bit\<close>

lemma all_less_8:
  "(\<forall>n<8. P n) \<longleftrightarrow> P 0 \<and> P 1 \<and> P 2 \<and> P 3 \<and> P 4 \<and> P 5 \<and> P 6 \<and> P (7::nat)"
  by (simp add: numeral_eq_Suc less_Suc_eq all_conj_distrib)

lemma all_less_16:
  "(\<forall>n<16. P n) \<longleftrightarrow> P 0 \<and> P 1 \<and> P 2 \<and> P 3 \<and> P 4 \<and> P 5 \<and> P 6 \<and> P 7 \<and>
     P 8 \<and> P 9 \<and> P 10 \<and> P 11 \<and> P 12 \<and> P 13 \<and> P 14 \<and> P (15::nat)"
  by (simp add: numeral_eq_Suc less_Suc_eq all_conj_distrib)

lemma all_less_32:
  "(\<forall>n<32. P n) \<longleftrightarrow> P 0 \<and> P 1 \<and> P 2 \<and> P 3 \<and> P 4 \<and> P 5 \<and> P 6 \<and> P 7 \<and>
     P 8 \<and> P 9 \<and> P 10 \<and> P 11 \<and> P 12 \<and> P 13 \<and> P 14 \<and> P 15 \<and>
     P 16 \<and> P 17 \<and> P 18 \<and> P 19 \<and> P 20 \<and> P 21 \<and> P 22 \<and> P 23 \<and>
     P 24 \<and> P 25 \<and> P 26 \<and> P 27 \<and> P 28 \<and> P 29 \<and> P 30 \<and> P (31::nat)"
  by (simp add: numeral_eq_Suc less_Suc_eq all_conj_distrib)

lemma u8_eq_iff: "(x::u8) = y \<longleftrightarrow> (\<forall>n<8. bit x n \<longleftrightarrow> bit y n)"
  by (auto intro: bit_word_eqI)

lemma u16_eq_iff: "(x::u16) = y \<longleftrightarrow> (\<forall>n<16. bit x n \<longleftrightarrow> bit y n)"
  by (auto intro: bit_word_eqI)

lemma u32_eq_iff: "(x::u32) = y \<longleftrightarrow> (\<forall>n<32. bit x n \<longleftrightarrow> bit y n)"
  by (auto intro: bit_word_eqI)

lemma bit_beyond:
  "8 \<le> n \<Longrightarrow> \<not> bit (x::u8) n" "16 \<le> n \<Longrightarrow> \<not> bit (y::u16) n" "32 \<le> n \<Longrightarrow> \<not> bit (z::u32) n"
  by (auto dest: bit_imp_le_length)

lemmas u8_bits = u8_eq_iff all_less_8 bit_simps bit_beyond
lemmas u16_bits = u16_eq_iff all_less_16 bit_simps bit_beyond
lemmas u32_bits = u32_eq_iff all_less_32 bit_simps bit_beyond

section \<open>Words as numbers\<close>

lemma unat_bound:
  "unat (x::u8) < 256" "unat (y::u16) < 65536" "unat (z::u32) < 4294967296"
  using unsigned_less [of x, where 'a = nat] unsigned_less [of y, where 'a = nat]
    unsigned_less [of z, where 'a = nat] by simp_all

lemma unat_and_mask: "unat (x AND mask n) = unat x mod 2 ^ n"
proof -
  have "unat (take_bit n x) = take_bit n (unat x)" by (rule unsigned_take_bit_eq)
  also have "\<dots> = unat x mod 2 ^ n" by (rule take_bit_eq_mod)
  finally have "unat (take_bit n x) = unat x mod 2 ^ n" .
  then show ?thesis by (simp only: take_bit_eq_mask)
qed

lemma unat_ucast: "unat (ucast (w::'a::len word) :: 'b::len word) = unat w mod 2 ^ LENGTH('b)"
  by (simp add: unsigned_ucast_eq take_bit_eq_mod)

lemma masks:
  "(0x7F :: u8) = mask 7" "(0x0F :: u8) = mask 4" "(0x1F :: u8) = mask 5" "(0x3F :: u8) = mask 6"
  "(0x3FFFF :: u32) = mask 18" "(0xFF :: u32) = mask 8" "(0x3F :: u32) = mask 6"
  by (simp_all add: mask_eq_exp_minus_1)

lemma and_mask_self: "unat x < 2 ^ n \<Longrightarrow> x AND mask n = x"
  by (simp add: word_unat_eq_iff unat_and_mask)

section \<open>Byte order\<close>

text \<open>\<open>htons\<close>, \<open>htonl\<close> of the C library on a little-endian host; \<open>ntohs\<close> and \<open>ntohl\<close>
  are the same functions. \<open>htonll\<close> is the macro of \<open>rtp.cpp\<close> and \<open>wstransport.cpp\<close>.\<close>

definition htons :: "u16 \<Rightarrow> u16" where
  "htons x = push_bit 8 x OR drop_bit 8 x"

definition htonl :: "u32 \<Rightarrow> u32" where
  "htonl x = push_bit 24 x OR push_bit 8 (x AND 0xFF00) OR
     (drop_bit 8 x AND 0xFF00) OR drop_bit 24 x"

definition htonll :: "u64 \<Rightarrow> u64" where
  "htonll x = push_bit 32 (ucast (htonl (ucast x))) OR ucast (htonl (ucast (drop_bit 32 x)))"

abbreviation ntohs :: "u16 \<Rightarrow> u16" where "ntohs \<equiv> htons"
abbreviation ntohl :: "u32 \<Rightarrow> u32" where "ntohl \<equiv> htonl"
abbreviation ntohll :: "u64 \<Rightarrow> u64" where "ntohll \<equiv> htonll"

lemma htons_htons [simp, byte_simps]: "htons (htons x) = x"
  by (simp add: htons_def u16_bits)

lemma htonl_htonl [simp, byte_simps]: "htonl (htonl x) = x"
  by (simp add: htonl_def u32_bits)

lemma hton_0 [simp]: "htons 0 = 0" "htonl 0 = 0"
  by (simp_all add: htons_def htonl_def)

lemma ucast_htonll:
  "ucast (htonll x) = htonl (ucast (drop_bit 32 x))"
  "ucast (drop_bit 32 (htonll x)) = htonl (ucast x)"
  by (rule bit_word_eqI; auto simp: htonll_def bit_simps bit_beyond)+

lemma htonll_htonll [simp, byte_simps]: "htonll (htonll x) = x"
proof -
  have "htonll (htonll x) = push_bit 32 (ucast (ucast (drop_bit 32 x) :: u32)) OR ucast (ucast x :: u32)"
    by (simp add: htonll_def [of "htonll x"] ucast_htonll)
  also have "\<dots> = x"
    by (rule bit_word_eqI) (auto simp: bit_simps)
  finally show ?thesis .
qed

section \<open>Loads and stores\<close>

text \<open>A load past the end of the buffer reads \<open>0\<close> in the model: every operation either guards its
  loads with the bound, as its source does, or reports \<open>OutOfBounds\<close>.\<close>

definition ld8 :: "binary \<Rightarrow> nat \<Rightarrow> u8" where
  "ld8 b i = nth_default 0 b i"

definition ld16 :: "binary \<Rightarrow> nat \<Rightarrow> u16" where
  "ld16 b i = ucast (ld8 b i) OR push_bit 8 (ucast (ld8 b (i + 1)))"

definition ld32 :: "binary \<Rightarrow> nat \<Rightarrow> u32" where
  "ld32 b i = ucast (ld16 b i) OR push_bit 16 (ucast (ld16 b (i + 2)))"

definition ld64 :: "binary \<Rightarrow> nat \<Rightarrow> u64" where
  "ld64 b i = ucast (ld32 b i) OR push_bit 32 (ucast (ld32 b (i + 4)))"

definition bytes16 :: "u16 \<Rightarrow> binary" where
  "bytes16 x = [ucast x, ucast (drop_bit 8 x)]"

definition bytes32 :: "u32 \<Rightarrow> binary" where
  "bytes32 x = bytes16 (ucast x) @ bytes16 (ucast (drop_bit 16 x))"

definition bytes64 :: "u64 \<Rightarrow> binary" where
  "bytes64 x = bytes32 (ucast x) @ bytes32 (ucast (drop_bit 32 x))"

definition poke :: "binary \<Rightarrow> nat \<Rightarrow> binary \<Rightarrow> binary" where
  "poke b off bs = take off b @ bs @ drop (off + length bs) b"

definition slice :: "nat \<Rightarrow> nat \<Rightarrow> 'a list \<Rightarrow> 'a list" where
  "slice i j xs = take (j - i) (drop i xs)"

lemma length_bytes [simp]:
  "length (bytes16 x) = 2" "length (bytes32 y) = 4" "length (bytes64 z) = 8"
  by (simp_all add: bytes16_def bytes32_def bytes64_def)

lemma ld8_Cons [simp, byte_simps]:
  "ld8 (x # xs) 0 = x" "ld8 (x # xs) (Suc i) = ld8 xs i"
  by (simp_all add: ld8_def)

lemma ld8_append:
  "ld8 (xs @ ys) i = (if i < length xs then ld8 xs i else ld8 ys (i - length xs))"
  by (simp add: ld8_def nth_default_append nth_default_nth)

lemma ld8_drop [byte_simps]: "ld8 (drop k b) i = ld8 b (k + i)"
  by (cases "k + i < length b") (auto simp: ld8_def nth_default_def)

lemma ld8_take: "i < n \<Longrightarrow> ld8 (take n b) i = ld8 b i"
  by (simp add: ld8_def nth_default_def)

lemma ld8_nth: "i < length b \<Longrightarrow> ld8 b i = b ! i"
  by (simp add: ld8_def nth_default_def)

lemma ld_drop [byte_simps]:
  "ld16 (drop k b) i = ld16 b (k + i)"
  "ld32 (drop k b) i = ld32 b (k + i)"
  "ld64 (drop k b) i = ld64 b (k + i)"
  unfolding ld16_def ld32_def ld64_def ld8_drop by (simp_all only: add.assoc)

lemma ld16_bytes16 [simp, byte_simps]: "ld16 (bytes16 x @ r) 0 = x"
  by (simp add: ld16_def bytes16_def u16_bits)

lemma ld32_bytes32 [simp, byte_simps]: "ld32 (bytes32 x @ r) 0 = x"
proof -
  have 1: "ld16 (bytes32 x @ r) 0 = ucast x"
    by (simp add: bytes32_def)
  have "ld16 (drop 2 (bytes32 x @ r)) 0 = ucast (drop_bit 16 x)"
    by (simp add: bytes32_def)
  then have 2: "ld16 (bytes32 x @ r) (Suc (Suc 0)) = ucast (drop_bit 16 x)"
    unfolding ld_drop by (simp add: numeral_2_eq_2)
  show ?thesis
    by (simp add: ld32_def 1 2 u32_bits)
qed

lemma ld64_bytes64 [simp, byte_simps]: "ld64 (bytes64 x @ r) 0 = x"
proof -
  have 1: "ld32 (bytes64 x @ r) 0 = ucast x"
    by (simp add: bytes64_def)
  have "ld32 (drop 4 (bytes64 x @ r)) 0 = ucast (drop_bit 32 x)"
    by (simp add: bytes64_def)
  then have 2: "ld32 (bytes64 x @ r) 4 = ucast (drop_bit 32 x)"
    unfolding ld_drop by simp
  show ?thesis
    unfolding ld64_def add_0 1 2 by (rule bit_word_eqI) (auto simp: bit_simps)
qed

text \<open>Rules that move the offset of a load into the buffer, so that the simplifier walks down an
  explicit concatenation of encoded fields.\<close>

lemma ld_numeral:
  "ld8 b (numeral k) = ld8 (drop (numeral k) b) 0"
  "ld8 b 1 = ld8 (drop 1 b) 0"
  "ld16 b (numeral k) = ld16 (drop (numeral k) b) 0"
  "ld32 b (numeral k) = ld32 (drop (numeral k) b) 0"
  "ld64 b (numeral k) = ld64 (drop (numeral k) b) 0"
  by (simp_all add: ld8_drop ld_drop)

lemma ld_bytes_end [simp, byte_simps]:
  "ld16 (bytes16 x) 0 = x" "ld32 (bytes32 y) 0 = y" "ld64 (bytes64 z) 0 = z"
  using ld16_bytes16 [of x "[]"] ld32_bytes32 [of y "[]"] ld64_bytes64 [of z "[]"] by simp_all

lemma bytes16_ld16: "i + 2 \<le> length b \<Longrightarrow> bytes16 (ld16 b i) = take 2 (drop i b)"
proof -
  assume len: "i + 2 \<le> length b"
  have a: "ucast (ld16 b i) = ld8 b i" "ucast (drop_bit 8 (ld16 b i)) = ld8 b (i + 1)"
    by (simp_all add: ld16_def u8_bits)
  have "take 2 (drop i b) = [b ! i, b ! (i + 1)]"
    using len by (simp add: list_eq_iff_nth_eq less_Suc_eq numeral_2_eq_2)
  then show ?thesis
    using len a by (simp add: bytes16_def ld8_nth)
qed

lemma take_add_drop: "take m (drop i b) @ take n (drop (i + m) b) = take (m + n) (drop i b)"
  by (simp add: take_add add.commute)

lemma bytes32_ld32: "i + 4 \<le> length b \<Longrightarrow> bytes32 (ld32 b i) = take 4 (drop i b)"
proof -
  assume len: "i + 4 \<le> length b"
  have "ucast (ld32 b i) = ld16 b i" "ucast (drop_bit 16 (ld32 b i)) = ld16 b (i + 2)"
    by (simp_all add: ld32_def u16_bits)
  then show ?thesis
    using len take_add_drop [of 2 i b 2] by (simp add: bytes32_def bytes16_ld16)
qed

lemma bytes64_ld64: "i + 8 \<le> length b \<Longrightarrow> bytes64 (ld64 b i) = take 8 (drop i b)"
proof -
  assume len: "i + 8 \<le> length b"
  have "ucast (ld64 b i) = ld32 b i" "ucast (drop_bit 32 (ld64 b i)) = ld32 b (i + 4)"
    by (rule bit_word_eqI; auto simp: ld64_def bit_simps bit_beyond)+
  then show ?thesis
    using len take_add_drop [of 4 i b 4] by (simp add: bytes64_def bytes32_ld32)
qed

text \<open>Rules that put the encoded fields of a struct back together.\<close>

lemma bytes_ld_Cons:
  "bytes16 (ld16 (x0 # x1 # r) 0) = [x0, x1]"
  "bytes32 (ld32 (x0 # x1 # x2 # x3 # r) 0) = [x0, x1, x2, x3]"
  "bytes64 (ld64 (x0 # x1 # x2 # x3 # x4 # x5 # x6 # x7 # r) 0) = [x0, x1, x2, x3, x4, x5, x6, x7]"
  by (simp_all add: bytes16_ld16 bytes32_ld32 bytes64_ld64)

lemma Suc_le_length_Cons: "Suc n \<le> length xs \<longleftrightarrow> (\<exists>y ys. xs = y # ys \<and> n \<le> length ys)"
  by (cases xs) auto

lemma numeral_le_length_Cons:
  "numeral k \<le> length xs \<longleftrightarrow> (\<exists>y ys. xs = y # ys \<and> pred_numeral k \<le> length ys)"
  by (simp add: numeral_eq_Suc Suc_le_length_Cons)

lemmas struct_dec_enc = ld_numeral
lemmas struct_enc_dec = ld_numeral bytes_ld_Cons numeral_le_length_Cons Suc_le_length_Cons

text \<open>A field stored with \<open>htons\<close> or \<open>htonl\<close> lies in memory most significant byte first.\<close>

lemma bytes_hton:
  "bytes16 (htons x) = [ucast (drop_bit 8 x), ucast x]"
  "bytes32 (htonl y) = [ucast (drop_bit 24 y), ucast (drop_bit 16 y), ucast (drop_bit 8 y), ucast y]"
  by (simp_all add: bytes16_def bytes32_def htons_def htonl_def u8_bits)

lemma length_poke [simp]: "off + length bs \<le> length b \<Longrightarrow> length (poke b off bs) = length b"
  by (simp add: poke_def)

lemma take_poke: "k \<le> off \<Longrightarrow> off \<le> length b \<Longrightarrow> take k (poke b off bs) = take k b"
  by (simp add: poke_def)

lemma drop_poke:
  "off + length bs \<le> length b \<Longrightarrow> off + length bs \<le> k \<Longrightarrow> drop k (poke b off bs) = drop k b"
  by (simp add: poke_def)

lemma poke_take_drop: "i \<le> length b \<Longrightarrow> poke b i (take n (drop i b)) = b"
proof -
  assume "i \<le> length b"
  then have "drop (i + length (take n (drop i b))) b = drop n (drop i b)"
    by (simp add: min_def add.commute)
  then show ?thesis by (simp only: poke_def append_take_drop_id)
qed

lemma poke_at: "length old = length new \<Longrightarrow> poke (pre @ old @ post) (length pre) new = pre @ new @ post"
  by (simp add: poke_def)

lemma slice_poke: "off + length bs \<le> length b \<Longrightarrow> drop off (poke b off bs) = bs @ drop (off + length bs) b"
  by (simp add: poke_def)

section \<open>Packed structs over byte buffers\<close>

text \<open>\<open>reinterpret_cast<T *>(buf + off)\<close> of a packed struct \<open>T\<close>: reading it decodes the bytes at
  \<open>off\<close>, writing it replaces them. A method that changes fields reads, changes and writes back.\<close>

definition overlay :: "(binary \<Rightarrow> 'r) \<Rightarrow> nat \<Rightarrow> binary \<Rightarrow> 'r" where
  "overlay dec off b = dec (drop off b)"

definition overlay_set :: "('r \<Rightarrow> binary) \<Rightarrow> nat \<Rightarrow> 'r \<Rightarrow> binary \<Rightarrow> binary" where
  "overlay_set enc off r b = poke b off (enc r)"

definition overlay_upd ::
  "('r \<Rightarrow> binary) \<Rightarrow> (binary \<Rightarrow> 'r) \<Rightarrow> nat \<Rightarrow> ('r \<Rightarrow> 'r) \<Rightarrow> binary \<Rightarrow> binary" where
  "overlay_upd enc dec off f b = overlay_set enc off (f (overlay dec off b)) b"

locale wire_struct =
  fixes sz :: nat
    and enc :: "'r \<Rightarrow> binary"
    and dec :: "binary \<Rightarrow> 'r"
  assumes length_enc: "length (enc r) = sz"
    and dec_enc: "dec (enc r @ rest) = r"
    and enc_dec: "sz \<le> length b \<Longrightarrow> enc (dec b) = take sz b"
begin

lemma length_set: "off + sz \<le> length b \<Longrightarrow> length (overlay_set enc off r b) = length b"
  by (simp add: overlay_set_def length_enc)

lemma length_upd: "off + sz \<le> length b \<Longrightarrow> length (overlay_upd enc dec off f b) = length b"
  by (simp add: overlay_upd_def length_set)

lemma get_set: "off + sz \<le> length b \<Longrightarrow> overlay dec off (overlay_set enc off r b) = r"
  by (simp add: overlay_def overlay_set_def slice_poke length_enc dec_enc)

lemma get_upd: "off + sz \<le> length b \<Longrightarrow>
    overlay dec off (overlay_upd enc dec off f b) = f (overlay dec off b)"
  by (simp add: overlay_upd_def get_set)

lemma set_get: "off + sz \<le> length b \<Longrightarrow> overlay_set enc off (overlay dec off b) b = b"
proof -
  assume "off + sz \<le> length b"
  then have "overlay_set enc off (overlay dec off b) b
      = take off b @ take sz (drop off b) @ drop sz (drop off b)"
    by (simp add: overlay_def overlay_set_def enc_dec poke_def add.commute)
  then show ?thesis by (simp only: append_take_drop_id)
qed

lemma upd_outside:
  assumes "off + sz \<le> length b"
  shows "take off (overlay_upd enc dec off f b) = take off b"
    and "drop (off + sz) (overlay_upd enc dec off f b) = drop (off + sz) b"
  using assms by (simp_all add: overlay_upd_def overlay_set_def take_poke drop_poke length_enc)

lemma upd_eq: "off + sz \<le> length b \<Longrightarrow>
    overlay_upd enc dec off f b = take off b @ enc (f (dec (drop off b))) @ drop (off + sz) b"
  by (simp add: overlay_upd_def overlay_set_def overlay_def poke_def length_enc)

lemma dec_append: "sz \<le> length a \<Longrightarrow> dec (a @ b) = dec a"
  using dec_enc [of "dec a"] enc_dec [of a] by (metis append.assoc append_take_drop_id)

lemma upd_prefix: "length a = sz \<Longrightarrow> overlay_upd enc dec 0 f (a @ b) = enc (f (dec a)) @ b"
  by (simp add: upd_eq dec_append)

lemma upd_upd: "off + sz \<le> length b \<Longrightarrow>
    overlay_upd enc dec off g (overlay_upd enc dec off f b) = overlay_upd enc dec off (\<lambda>r. g (f r)) b"
  by (simp add: upd_eq length_upd length_enc dec_enc)

end

end
