(* ===== verification/Rtp.thy ===== *)
theory Rtp
  imports Prelude
begin

text \<open>
  RTP packets: \<open>src/rtp.cpp\<close> and \<open>include/rtc/rtp.hpp\<close>, the part about \<open>RtpHeader\<close>,
  \<open>RtpExtensionHeader\<close>, \<open>RtpRtx\<close> and \<open>IsRtcp\<close>. A struct is a record whose fields hold what the
  struct holds in memory (multi-byte fields in network order, as stored by \<open>htons\<close> and \<open>htonl\<close>);
  the interpretations \<open>rtp\<close> and \<open>ext\<close> show that the records are packed structs over a byte buffer.
  Methods that look behind the struct (the CSRC list, the extension header, the body) take the
  buffer the struct lies in.
\<close>

section \<open>The fixed header\<close>

record RtpHeader =
  rtp_first :: u8
  rtp_payloadType :: u8
  rtp_seqNumber :: u16
  rtp_timestamp :: u32
  rtp_ssrc :: u32

definition RtpHeader_enc :: "RtpHeader \<Rightarrow> binary" where
  "RtpHeader_enc h = [rtp_first h] @ [rtp_payloadType h] @ bytes16 (rtp_seqNumber h) @
     bytes32 (rtp_timestamp h) @ bytes32 (rtp_ssrc h)"

definition RtpHeader_dec :: "binary \<Rightarrow> RtpHeader" where
  "RtpHeader_dec b = \<lparr>rtp_first = ld8 b 0, rtp_payloadType = ld8 b 1, rtp_seqNumber = ld16 b 2,
     rtp_timestamp = ld32 b 4, rtp_ssrc = ld32 b 8\<rparr>"

definition IsRtcp :: "binary \<Rightarrow> bool" where
  "IsRtcp data =
     (if length data < 8 then False
      else let payloadType = ld8 data 1 AND 0x7F in 64 \<le> payloadType \<and> payloadType \<le> 95)"

definition RtpHeader_version :: "RtpHeader \<Rightarrow> u8" where
  [struct_defs]: "RtpHeader_version h = drop_bit 6 (rtp_first h)"

definition RtpHeader_padding :: "RtpHeader \<Rightarrow> bool" where
  [struct_defs]: "RtpHeader_padding h \<longleftrightarrow> drop_bit 5 (rtp_first h) AND 0x01 \<noteq> 0"

definition RtpHeader_extension :: "RtpHeader \<Rightarrow> bool" where
  [struct_defs]: "RtpHeader_extension h \<longleftrightarrow> drop_bit 4 (rtp_first h) AND 0x01 \<noteq> 0"

definition RtpHeader_csrcCount :: "RtpHeader \<Rightarrow> u8" where
  [struct_defs]: "RtpHeader_csrcCount h = rtp_first h AND 0x0F"

definition RtpHeader_marker :: "RtpHeader \<Rightarrow> u8" where
  [struct_defs]: "RtpHeader_marker h = rtp_payloadType h AND 0b10000000"

definition RtpHeader_payloadType :: "RtpHeader \<Rightarrow> u8" where
  [struct_defs]: "RtpHeader_payloadType h = rtp_payloadType h AND 0b01111111"

definition RtpHeader_seqNumber :: "RtpHeader \<Rightarrow> u16" where
  [struct_defs]: "RtpHeader_seqNumber h = ntohs (rtp_seqNumber h)"

definition RtpHeader_timestamp :: "RtpHeader \<Rightarrow> u32" where
  [struct_defs]: "RtpHeader_timestamp h = ntohl (rtp_timestamp h)"

definition RtpHeader_ssrc :: "RtpHeader \<Rightarrow> u32" where
  [struct_defs]: "RtpHeader_ssrc h = ntohl (rtp_ssrc h)"

definition RtpHeader_getSize :: "RtpHeader \<Rightarrow> nat" where
  "RtpHeader_getSize h = 12 + 4 * unat (RtpHeader_csrcCount h)"

definition RtpHeader_preparePacket :: "RtpHeader \<Rightarrow> RtpHeader" where
  [struct_defs]: "RtpHeader_preparePacket h = h\<lparr>rtp_first := rtp_first h OR push_bit 7 1\<rparr>"

definition RtpHeader_setSeqNumber :: "u16 \<Rightarrow> RtpHeader \<Rightarrow> RtpHeader" where
  [struct_defs]: "RtpHeader_setSeqNumber newSeqNo h = h\<lparr>rtp_seqNumber := htons newSeqNo\<rparr>"

definition RtpHeader_setPayloadType :: "u8 \<Rightarrow> RtpHeader \<Rightarrow> RtpHeader" where
  [struct_defs]: "RtpHeader_setPayloadType newPayloadType h =
     h\<lparr>rtp_payloadType := (rtp_payloadType h AND 0b10000000) OR (0b01111111 AND newPayloadType)\<rparr>"

definition RtpHeader_setSsrc :: "u32 \<Rightarrow> RtpHeader \<Rightarrow> RtpHeader" where
  [struct_defs]: "RtpHeader_setSsrc in_ssrc h = h\<lparr>rtp_ssrc := htonl in_ssrc\<rparr>"

definition RtpHeader_setMarker :: "bool \<Rightarrow> RtpHeader \<Rightarrow> RtpHeader" where
  [struct_defs]: "RtpHeader_setMarker marker h =
     h\<lparr>rtp_payloadType := (rtp_payloadType h AND 0x7F) OR push_bit 7 (of_bool marker)\<rparr>"

definition RtpHeader_setTimestamp :: "u32 \<Rightarrow> RtpHeader \<Rightarrow> RtpHeader" where
  [struct_defs]: "RtpHeader_setTimestamp i h = h\<lparr>rtp_timestamp := htonl i\<rparr>"

definition RtpHeader_setExtension :: "bool \<Rightarrow> RtpHeader \<Rightarrow> RtpHeader" where
  [struct_defs]: "RtpHeader_setExtension extension h =
     h\<lparr>rtp_first := (rtp_first h AND NOT 0x10) OR push_bit 4 (of_bool extension)\<rparr>"

section \<open>The extension header\<close>

record RtpExtensionHeader =
  ext_profileSpecificId :: u16
  ext_headerLength :: u16

definition RtpExtensionHeader_enc :: "RtpExtensionHeader \<Rightarrow> binary" where
  "RtpExtensionHeader_enc x = bytes16 (ext_profileSpecificId x) @ bytes16 (ext_headerLength x)"

definition RtpExtensionHeader_dec :: "binary \<Rightarrow> RtpExtensionHeader" where
  "RtpExtensionHeader_dec b = \<lparr>ext_profileSpecificId = ld16 b 0, ext_headerLength = ld16 b 2\<rparr>"

definition RtpExtensionHeader_profileSpecificId :: "RtpExtensionHeader \<Rightarrow> u16" where
  [struct_defs]: "RtpExtensionHeader_profileSpecificId x = ntohs (ext_profileSpecificId x)"

definition RtpExtensionHeader_headerLength :: "RtpExtensionHeader \<Rightarrow> u16" where
  [struct_defs]: "RtpExtensionHeader_headerLength x = ntohs (ext_headerLength x)"

definition RtpExtensionHeader_getSize :: "RtpExtensionHeader \<Rightarrow> nat" where
  "RtpExtensionHeader_getSize x = unat (RtpExtensionHeader_headerLength x) * 4"

definition RtpExtensionHeader_setProfileSpecificId ::
  "u16 \<Rightarrow> RtpExtensionHeader \<Rightarrow> RtpExtensionHeader" where
  [struct_defs]: "RtpExtensionHeader_setProfileSpecificId i x = x\<lparr>ext_profileSpecificId := htons i\<rparr>"

definition RtpExtensionHeader_setHeaderLength ::
  "u16 \<Rightarrow> RtpExtensionHeader \<Rightarrow> RtpExtensionHeader" where
  [struct_defs]: "RtpExtensionHeader_setHeaderLength n x = x\<lparr>ext_headerLength := htons n\<rparr>"

text \<open>\<open>getBody\<close> of the extension header lying at \<open>p\<close> is the address \<open>p + 4\<close>. The writers below get
  the buffer and \<open>p\<close>; a write that leaves the buffer is \<open>OutOfBounds\<close>.\<close>

definition RtpExtensionHeader_clearBody :: "nat \<Rightarrow> binary \<Rightarrow> binary result" where
  "RtpExtensionHeader_clearBody p buf =
     (let n = RtpExtensionHeader_getSize (overlay RtpExtensionHeader_dec p buf)
      in if p + 4 + n \<le> length buf then Inr (poke buf (p + 4) (replicate n 0)) else Inl OutOfBounds)"

definition writeOneByteHeader :: "nat \<Rightarrow> nat \<Rightarrow> u8 \<Rightarrow> binary \<Rightarrow> binary \<Rightarrow> binary result" where
  "writeOneByteHeader p offset i value buf =
     (let size = length value;
          n = RtpExtensionHeader_getSize (overlay RtpExtensionHeader_dec p buf)
      in if i = 0 \<or> i > 14 \<or> size = 0 \<or> size > 16 \<or> offset + 1 + size > n then Inr buf
         else if p + 4 + offset + 1 + size \<le> length buf then
           let b0 = push_bit 4 i;
               b0' = (if size \<noteq> 1 then b0 OR (of_nat size - 1) else b0)
           in Inr (poke buf (p + 4 + offset) (b0' # value))
         else Inl OutOfBounds)"

definition writeCurrentVideoOrientation :: "nat \<Rightarrow> nat \<Rightarrow> u8 \<Rightarrow> u8 \<Rightarrow> binary \<Rightarrow> binary result" where
  "writeCurrentVideoOrientation p offset i value buf = writeOneByteHeader p offset i [value] buf"

text \<open>\<open>getExtensionHeader\<close> is the address behind the CSRC list when the X bit is set. No caller
  checks that the extension header lies in the packet, so reading its length may leave the buffer.\<close>

definition RtpHeader_getExtensionHeader :: "binary \<Rightarrow> nat option" where
  "RtpHeader_getExtensionHeader buf =
     (let h = RtpHeader_dec buf in if RtpHeader_extension h then Some (RtpHeader_getSize h) else None)"

definition RtpHeader_getExtensionHeaderSize :: "binary \<Rightarrow> nat result" where
  "RtpHeader_getExtensionHeaderSize buf =
     (case RtpHeader_getExtensionHeader buf of
        None \<Rightarrow> Inr 0
      | Some p \<Rightarrow>
          if p + 4 \<le> length buf
          then Inr (RtpExtensionHeader_getSize (overlay RtpExtensionHeader_dec p buf) + 4)
          else Inl OutOfBounds)"

definition RtpHeader_getBody :: "binary \<Rightarrow> nat result" where
  "RtpHeader_getBody buf =
     bind_result (RtpHeader_getExtensionHeaderSize buf)
       (\<lambda>n. Inr (RtpHeader_getSize (RtpHeader_dec buf) + n))"

section \<open>Retransmission packets\<close>

definition RtpRtx_getOriginalSeqNo :: "binary \<Rightarrow> u16 result" where
  "RtpRtx_getOriginalSeqNo buf =
     bind_result (RtpHeader_getBody buf)
       (\<lambda>p. if p + 2 \<le> length buf then Inr (ntohs (ld16 buf p)) else Inl OutOfBounds)"

definition RtpRtx_getBody :: "binary \<Rightarrow> nat result" where
  "RtpRtx_getBody buf = bind_result (RtpHeader_getBody buf) (\<lambda>p. Inr (p + 2))"

definition RtpRtx_getSize :: "binary \<Rightarrow> nat" where
  "RtpRtx_getSize buf = RtpHeader_getSize (RtpHeader_dec buf) + 2"

text \<open>\<open>totalSize - (getBody() - this)\<close> and \<open>totalSize - getSize()\<close> are unsigned: below zero they are
  enormous and the copy leaves every buffer.\<close>

definition RtpRtx_getBodySize :: "nat \<Rightarrow> binary \<Rightarrow> nat result" where
  "RtpRtx_getBodySize totalSize buf =
     bind_result (RtpRtx_getBody buf)
       (\<lambda>p. if p \<le> totalSize then Inr (totalSize - p) else Inl OutOfBounds)"

definition RtpRtx_normalizePacket ::
  "nat \<Rightarrow> u32 \<Rightarrow> u8 \<Rightarrow> binary \<Rightarrow> (nat \<times> binary) result" where
  "RtpRtx_normalizePacket totalSize originalSSRC originalPayloadType buf =
     bind_result (RtpRtx_getOriginalSeqNo buf) (\<lambda>osn.
       let buf1 = overlay_upd RtpHeader_enc RtpHeader_dec 0
                    (\<lambda>h. RtpHeader_setPayloadType originalPayloadType
                           (RtpHeader_setSsrc originalSSRC (RtpHeader_setSeqNumber osn h))) buf
       in bind_result (RtpHeader_getBody buf1) (\<lambda>dst.
          bind_result (RtpRtx_getBody buf1) (\<lambda>src.
            if RtpRtx_getSize buf1 \<le> totalSize \<and>
               src + (totalSize - RtpRtx_getSize buf1) \<le> length buf1
            then Inr (totalSize - 2,
                      poke buf1 dst (slice src (src + (totalSize - RtpRtx_getSize buf1)) buf1))
            else Inl OutOfBounds)))"

definition RtpRtx_copyTo :: "binary \<Rightarrow> nat \<Rightarrow> u8 \<Rightarrow> binary \<Rightarrow> (nat \<times> binary) result" where
  "RtpRtx_copyTo dest totalSize originalPayloadType buf =
     (let hs = RtpHeader_getSize (RtpHeader_dec buf)
      in if hs > length dest \<or> hs > length buf then Inl OutOfBounds
         else let dest1 = poke dest 0 (take hs buf)
         in bind_result (RtpRtx_getOriginalSeqNo buf) (\<lambda>osn.
            let dest2 = overlay_upd RtpHeader_enc RtpHeader_dec 0
                          (\<lambda>h. RtpHeader_setPayloadType originalPayloadType
                                 (RtpHeader_setSeqNumber osn h)) dest1
            in bind_result (RtpHeader_getBody dest2) (\<lambda>dp.
               bind_result (RtpRtx_getBody buf) (\<lambda>sp.
               bind_result (RtpRtx_getBodySize totalSize buf) (\<lambda>n.
                 if sp + n \<le> length buf \<and> dp + n \<le> length dest2
                 then Inr (totalSize, poke dest2 dp (slice sp (sp + n) buf))
                 else Inl OutOfBounds)))))"

section \<open>The structs are packed structs\<close>

interpretation rtp: wire_struct 12 RtpHeader_enc RtpHeader_dec
proof
  show "length (RtpHeader_enc r) = 12" for r
    by (simp add: RtpHeader_enc_def)
  show "RtpHeader_dec (RtpHeader_enc r @ rest) = r" for r rest
    by (simp add: RtpHeader_enc_def RtpHeader_dec_def struct_dec_enc)
  show "RtpHeader_enc (RtpHeader_dec b) = take 12 b" if "12 \<le> length b" for b
    using that by (auto simp: RtpHeader_enc_def RtpHeader_dec_def struct_enc_dec)
qed

interpretation ext: wire_struct 4 RtpExtensionHeader_enc RtpExtensionHeader_dec
proof
  show "length (RtpExtensionHeader_enc r) = 4" for r
    by (simp add: RtpExtensionHeader_enc_def)
  show "RtpExtensionHeader_dec (RtpExtensionHeader_enc r @ rest) = r" for r rest
    by (simp add: RtpExtensionHeader_enc_def RtpExtensionHeader_dec_def struct_dec_enc)
  show "RtpExtensionHeader_enc (RtpExtensionHeader_dec b) = take 4 b" if "4 \<le> length b" for b
    using that by (auto simp: RtpExtensionHeader_enc_def RtpExtensionHeader_dec_def struct_enc_dec)
qed

section \<open>Reading back what was set\<close>

lemma RtpHeader_get_set [simp]:
  "RtpHeader_seqNumber (RtpHeader_setSeqNumber n h) = n"
  "RtpHeader_timestamp (RtpHeader_setTimestamp t h) = t"
  "RtpHeader_ssrc (RtpHeader_setSsrc s h) = s"
  "RtpHeader_payloadType (RtpHeader_setPayloadType p h) = p AND 0x7F"
  "RtpHeader_marker (RtpHeader_setPayloadType p h) = RtpHeader_marker h"
  "RtpHeader_payloadType (RtpHeader_setMarker m h) = RtpHeader_payloadType h"
  "RtpHeader_marker (RtpHeader_setMarker m h) = push_bit 7 (of_bool m)"
  "RtpHeader_extension (RtpHeader_setExtension x h) = x"
  "RtpHeader_csrcCount (RtpHeader_setExtension x h) = RtpHeader_csrcCount h"
  "RtpHeader_padding (RtpHeader_setExtension x h) = RtpHeader_padding h"
  "RtpHeader_extension (RtpHeader_preparePacket h) = RtpHeader_extension h"
  "RtpHeader_csrcCount (RtpHeader_preparePacket h) = RtpHeader_csrcCount h"
  "RtpHeader_padding (RtpHeader_preparePacket h) = RtpHeader_padding h"
  by (simp_all add: struct_defs u8_bits)

text \<open>The first byte is changed by \<open>setExtension\<close> and \<open>preparePacket\<close> only.\<close>

lemma rtp_first_frame [simp]:
  "rtp_first (RtpHeader_setSeqNumber n h) = rtp_first h"
  "rtp_first (RtpHeader_setTimestamp t h) = rtp_first h"
  "rtp_first (RtpHeader_setSsrc s h) = rtp_first h"
  "rtp_first (RtpHeader_setPayloadType p h) = rtp_first h"
  "rtp_first (RtpHeader_setMarker m h) = rtp_first h"
  by (simp_all add: struct_defs)

lemma RtpHeader_first_cong:
  assumes "rtp_first h = rtp_first h'"
  shows "RtpHeader_extension h = RtpHeader_extension h'"
    and "RtpHeader_csrcCount h = RtpHeader_csrcCount h'"
    and "RtpHeader_padding h = RtpHeader_padding h'"
    and "RtpHeader_getSize h = RtpHeader_getSize h'"
  using assms by (simp_all add: RtpHeader_extension_def RtpHeader_csrcCount_def
      RtpHeader_padding_def RtpHeader_getSize_def)

lemma csrcCount_le: "unat (RtpHeader_csrcCount h) \<le> 15"
proof -
  have "rtp_first h AND 0x0F \<le> 0x0F" by (rule word_and_le1)
  then show ?thesis by (simp add: RtpHeader_csrcCount_def word_le_nat_alt)
qed

text \<open>A header filled in from zeroed memory by the setters and \<open>preparePacket\<close> lies on the wire
  exactly as RFC 3550 draws it: version 2, no padding, the X bit, no CSRC; the marker bit and the
  payload type; then sequence number, timestamp and SSRC most significant byte first.\<close>

theorem rtp_header_wire_format:
  "RtpHeader_enc (RtpHeader_preparePacket (RtpHeader_setExtension x (RtpHeader_setMarker m
      (RtpHeader_setSsrc ss (RtpHeader_setTimestamp ts (RtpHeader_setSeqNumber sn
        (RtpHeader_setPayloadType pt (RtpHeader_dec (replicate 12 0))))))))) =
    [0x80 OR push_bit 4 (of_bool x), push_bit 7 (of_bool m) OR (pt AND 0x7F),
     ucast (drop_bit 8 sn), ucast sn,
     ucast (drop_bit 24 ts), ucast (drop_bit 16 ts), ucast (drop_bit 8 ts), ucast ts,
     ucast (drop_bit 24 ss), ucast (drop_bit 16 ss), ucast (drop_bit 8 ss), ucast ss]"
proof -
  have z: "RtpHeader_dec (replicate 12 0) = \<lparr>rtp_first = 0, rtp_payloadType = 0,
      rtp_seqNumber = 0, rtp_timestamp = 0, rtp_ssrc = 0\<rparr>"
    by (simp add: RtpHeader_dec_def ld8_def ld16_def ld32_def nth_default_def)
  show ?thesis
    unfolding z by (simp add: RtpHeader_enc_def struct_defs bytes_hton u8_bits)
qed

section \<open>Retransmission\<close>

lemma RtpHeader_dec_append [simp]: "RtpHeader_dec (RtpHeader_enc h @ r) = h"
  by (rule rtp.dec_enc)

lemma getBody_no_extension:
  assumes "\<not> RtpHeader_extension h"
  shows "RtpHeader_getBody (RtpHeader_enc h @ r) = Inr (RtpHeader_getSize h)"
  using assms by (simp add: RtpHeader_getBody_def RtpHeader_getExtensionHeaderSize_def
      RtpHeader_getExtensionHeader_def)

lemma ld16_append_at: "i = length p \<Longrightarrow> ld16 (p @ q) i = ld16 q 0"
  using ld_drop(1) [of "length p" "p @ q" 0] by simp

text \<open>\<open>RtpRtx::normalizePacket\<close> undoes RTX encapsulation (RFC 4588) for a packet without an
  extension header: the original sequence number, SSRC and payload type are restored, the CSRC list
  is kept, the two bytes of the original sequence number are removed from the body, and the
  returned size is two bytes less.\<close>

theorem rtx_normalize_restores:
  fixes payload :: binary and osn :: u16 and csrcs :: binary and h :: RtpHeader
  assumes "\<not> RtpHeader_extension h"
    and "length csrcs = 4 * unat (RtpHeader_csrcCount h)"
  defines "pkt \<equiv> RtpHeader_enc h @ csrcs @ bytes16 (htons osn) @ payload"
  shows "\<exists>buf. RtpRtx_normalizePacket (length pkt) ssrc pt pkt = Inr (length pkt - 2, buf) \<and>
     take (length pkt - 2) buf =
       RtpHeader_enc (RtpHeader_setPayloadType pt (RtpHeader_setSsrc ssrc
         (RtpHeader_setSeqNumber osn h))) @ csrcs @ payload"
proof -
  let ?f = "\<lambda>h. RtpHeader_setPayloadType pt (RtpHeader_setSsrc ssrc (RtpHeader_setSeqNumber osn h))"
  let ?r = "csrcs @ bytes16 (htons osn) @ payload"
  have len: "length pkt = 14 + length csrcs + length payload"
    by (simp add: pkt_def rtp.length_enc)
  have hs: "RtpHeader_getSize h = 12 + length csrcs"
    using assms(2) by (simp add: RtpHeader_getSize_def)
  have same: "RtpHeader_extension (?f h) = RtpHeader_extension h"
    "RtpHeader_getSize (?f h) = RtpHeader_getSize h"
    by (simp_all add: RtpHeader_first_cong [of "?f h" h])
  have "ld16 pkt (12 + length csrcs) = htons osn"
    using ld16_append_at [of "12 + length csrcs" "RtpHeader_enc h @ csrcs"] by (simp add: pkt_def rtp.length_enc)
  then have osn: "RtpRtx_getOriginalSeqNo pkt = Inr osn"
    using assms(1) hs by (simp add: RtpRtx_getOriginalSeqNo_def pkt_def getBody_no_extension
        rtp.length_enc)
  have upd: "overlay_upd RtpHeader_enc RtpHeader_dec 0 ?f pkt = RtpHeader_enc (?f h) @ ?r"
    by (simp add: rtp.upd_eq pkt_def rtp.length_enc)
  have body: "RtpHeader_getBody (RtpHeader_enc (?f h) @ ?r) = Inr (12 + length csrcs)"
    using assms(1) same hs by (simp add: getBody_no_extension)
  have "RtpRtx_normalizePacket (length pkt) ssrc pt pkt = Inr (length pkt - 2,
      poke (RtpHeader_enc (?f h) @ ?r) (12 + length csrcs) payload)"
    using same hs
    by (simp add: RtpRtx_normalizePacket_def osn upd body RtpRtx_getBody_def RtpRtx_getSize_def
        len rtp.length_enc slice_def)
  moreover have "take (length pkt - 2) (poke (RtpHeader_enc (?f h) @ ?r) (12 + length csrcs) payload)
      = RtpHeader_enc (?f h) @ csrcs @ payload"
    by (simp add: poke_def pkt_def rtp.length_enc)
  ultimately show ?thesis by blast
qed

theorem rtx_normalize_restores_witness:
  "\<exists>buf. RtpRtx_normalizePacket 17 7 96
      (RtpHeader_enc (RtpHeader_dec (0x80 # replicate 11 1)) @ [] @ bytes16 (htons 0x1234) @ [1, 2, 3])
      = Inr (15, buf)"
proof -
  have "\<not> RtpHeader_extension (RtpHeader_dec (0x80 # replicate 11 1))"
    by (simp add: RtpHeader_extension_def RtpHeader_dec_def)
  moreover have "length ([] :: binary) =
      4 * unat (RtpHeader_csrcCount (RtpHeader_dec (0x80 # replicate 11 1)))"
    by (simp add: RtpHeader_csrcCount_def RtpHeader_dec_def)
  ultimately show ?thesis
    using rtx_normalize_restores [of "RtpHeader_dec (0x80 # replicate 11 1)" "[]" "0x1234" "[1, 2, 3]" 7 96]
    by (auto simp: rtp.length_enc)
qed

text \<open>With an extension header the same call leaves the packet: \<open>getSize()\<close> does not count the
  extension header, so \<open>memmove\<close> is asked for as many bytes too many as the extension header has.\<close>

theorem rtx_normalize_extension_out_of_bounds:
  assumes "RtpHeader_extension (RtpHeader_dec pkt)" and "12 \<le> length pkt"
    and "RtpRtx_getOriginalSeqNo pkt = Inr osn"
  shows "RtpRtx_normalizePacket (length pkt) ssrc pt pkt = Inl OutOfBounds"
proof -
  let ?f = "\<lambda>h. RtpHeader_setPayloadType pt (RtpHeader_setSsrc ssrc (RtpHeader_setSeqNumber osn h))"
  define buf1 where "buf1 = overlay_upd RtpHeader_enc RtpHeader_dec 0 ?f pkt"
  have len: "length buf1 = length pkt"
    using assms(2) by (simp add: buf1_def rtp.length_upd)
  have "overlay RtpHeader_dec 0 buf1 = ?f (overlay RtpHeader_dec 0 pkt)"
    using assms(2) by (simp add: buf1_def rtp.get_upd)
  then have dec: "RtpHeader_dec buf1 = ?f (RtpHeader_dec pkt)"
    by (simp add: overlay_def)
  have same: "RtpHeader_extension (RtpHeader_dec buf1)"
    using assms(1) RtpHeader_first_cong(1) [of "?f (RtpHeader_dec pkt)" "RtpHeader_dec pkt"]
    by (simp add: dec)
  show ?thesis
    using same unfolding RtpRtx_normalizePacket_def assms(3) bind_result_simps Let_def
      buf1_def [symmetric]
    by (auto simp: RtpHeader_getBody_def RtpRtx_getBody_def RtpHeader_getExtensionHeaderSize_def
        RtpHeader_getExtensionHeader_def RtpRtx_getSize_def bind_result_def len)
qed

theorem rtx_normalize_extension_out_of_bounds_witness:
  "RtpRtx_normalizePacket 20 7 96 (0x90 # replicate 13 0 @ [0, 0] @ [0x12, 0x34, 1, 2]) = Inl OutOfBounds"
proof -
  let ?p = "0x90 # replicate 13 0 @ [0, 0] @ [0x12, 0x34, 1, 2] :: binary"
  have "RtpHeader_extension (RtpHeader_dec ?p)"
    by (simp add: RtpHeader_extension_def RtpHeader_dec_def)
  moreover have "RtpRtx_getOriginalSeqNo ?p = Inr 0x1234"
    by code_simp
  ultimately show ?thesis
    using rtx_normalize_extension_out_of_bounds [of ?p, where ssrc = 7 and pt = 96] by simp
qed

end
