(* ===== verification/Rtcp.thy ===== *)
theory Rtcp
  imports Rtp
begin

text \<open>
  RTCP packets: \<open>src/rtp.cpp\<close> and \<open>include/rtc/rtp.hpp\<close>, the part about \<open>RtcpHeader\<close>,
  \<open>RtcpReportBlock\<close>, \<open>RtcpFbHeader\<close>, \<open>RtcpSr\<close>, \<open>RtcpRr\<close>, \<open>RtcpRemb\<close>, \<open>RtcpPli\<close>, \<open>RtcpFir\<close>
  and \<open>RtcpNack\<close>. The records hold the struct fields as they lie in memory. A trailing array of a
  struct (report blocks, NACK parts, SSRCs) is a list of records behind the fixed part.
\<close>

section \<open>The common header\<close>

record RtcpHeader =
  rtcp_first :: u8
  rtcp_payloadType :: u8
  rtcp_length :: u16

definition RtcpHeader_enc :: "RtcpHeader \<Rightarrow> binary" where
  "RtcpHeader_enc h = [rtcp_first h] @ [rtcp_payloadType h] @ bytes16 (rtcp_length h)"

definition RtcpHeader_dec :: "binary \<Rightarrow> RtcpHeader" where
  "RtcpHeader_dec b = \<lparr>rtcp_first = ld8 b 0, rtcp_payloadType = ld8 b 1, rtcp_length = ld16 b 2\<rparr>"

definition RtcpHeader_version :: "RtcpHeader \<Rightarrow> u8" where
  [struct_defs]: "RtcpHeader_version h = drop_bit 6 (rtcp_first h)"

definition RtcpHeader_padding :: "RtcpHeader \<Rightarrow> bool" where
  [struct_defs]: "RtcpHeader_padding h \<longleftrightarrow> drop_bit 5 (rtcp_first h) AND 0x01 \<noteq> 0"

definition RtcpHeader_reportCount :: "RtcpHeader \<Rightarrow> u8" where
  [struct_defs]: "RtcpHeader_reportCount h = rtcp_first h AND 0x1F"

definition RtcpHeader_payloadType :: "RtcpHeader \<Rightarrow> u8" where
  [struct_defs]: "RtcpHeader_payloadType h = rtcp_payloadType h"

definition RtcpHeader_length :: "RtcpHeader \<Rightarrow> u16" where
  [struct_defs]: "RtcpHeader_length h = ntohs (rtcp_length h)"

definition RtcpHeader_lengthInBytes :: "RtcpHeader \<Rightarrow> nat" where
  "RtcpHeader_lengthInBytes h = (1 + unat (RtcpHeader_length h)) * 4"

definition RtcpHeader_setPayloadType :: "u8 \<Rightarrow> RtcpHeader \<Rightarrow> RtcpHeader" where
  [struct_defs]: "RtcpHeader_setPayloadType type h = h\<lparr>rtcp_payloadType := type\<rparr>"

definition RtcpHeader_setReportCount :: "u8 \<Rightarrow> RtcpHeader \<Rightarrow> RtcpHeader" where
  [struct_defs]: "RtcpHeader_setReportCount count h =
     h\<lparr>rtcp_first := (rtcp_first h AND 0b11100000) OR (count AND 0b00011111)\<rparr>"

definition RtcpHeader_setLength :: "u16 \<Rightarrow> RtcpHeader \<Rightarrow> RtcpHeader" where
  [struct_defs]: "RtcpHeader_setLength len h = h\<lparr>rtcp_length := htons len\<rparr>"

definition RtcpHeader_prepareHeader :: "u8 \<Rightarrow> u8 \<Rightarrow> u16 \<Rightarrow> RtcpHeader \<Rightarrow> RtcpHeader" where
  "RtcpHeader_prepareHeader payloadType reportCount len h =
     RtcpHeader_setLength len (RtcpHeader_setPayloadType payloadType
       (RtcpHeader_setReportCount reportCount (h\<lparr>rtcp_first := 0b10000000\<rparr>)))"

section \<open>Report blocks\<close>

record RtcpReportBlock =
  rb_ssrc :: u32
  rb_fractionLostAndPacketsLost :: u32
  rb_seqNoCycles :: u16
  rb_highestSeqNo :: u16
  rb_jitter :: u32
  rb_lastReport :: u32
  rb_delaySinceLastReport :: u32

definition RtcpReportBlock_enc :: "RtcpReportBlock \<Rightarrow> binary" where
  "RtcpReportBlock_enc r = bytes32 (rb_ssrc r) @ bytes32 (rb_fractionLostAndPacketsLost r) @
     bytes16 (rb_seqNoCycles r) @ bytes16 (rb_highestSeqNo r) @ bytes32 (rb_jitter r) @
     bytes32 (rb_lastReport r) @ bytes32 (rb_delaySinceLastReport r)"

definition RtcpReportBlock_dec :: "binary \<Rightarrow> RtcpReportBlock" where
  "RtcpReportBlock_dec b = \<lparr>rb_ssrc = ld32 b 0, rb_fractionLostAndPacketsLost = ld32 b 4,
     rb_seqNoCycles = ld16 b 8, rb_highestSeqNo = ld16 b 10, rb_jitter = ld32 b 12,
     rb_lastReport = ld32 b 16, rb_delaySinceLastReport = ld32 b 20\<rparr>"

definition RtcpReportBlock_getSSRC :: "RtcpReportBlock \<Rightarrow> u32" where
  [struct_defs]: "RtcpReportBlock_getSSRC r = ntohl (rb_ssrc r)"

definition RtcpReportBlock_setSSRC :: "u32 \<Rightarrow> RtcpReportBlock \<Rightarrow> RtcpReportBlock" where
  [struct_defs]: "RtcpReportBlock_setSSRC in_ssrc r = r\<lparr>rb_ssrc := htonl in_ssrc\<rparr>"

definition RtcpReportBlock_setPacketsLost :: "u8 \<Rightarrow> u32 \<Rightarrow> RtcpReportBlock \<Rightarrow> RtcpReportBlock" where
  [struct_defs]: "RtcpReportBlock_setPacketsLost fractionLost packetsLostCount r =
     r\<lparr>rb_fractionLostAndPacketsLost :=
          htonl (push_bit 24 (ucast fractionLost) OR (packetsLostCount AND 0xFFFFFF))\<rparr>"

definition RtcpReportBlock_getFractionLost :: "RtcpReportBlock \<Rightarrow> u8" where
  [struct_defs]: "RtcpReportBlock_getFractionLost r = ucast (rb_fractionLostAndPacketsLost r AND 0xFF)"

definition RtcpReportBlock_getPacketsLostCount :: "RtcpReportBlock \<Rightarrow> u32" where
  [struct_defs]: "RtcpReportBlock_getPacketsLostCount r =
     ntohl (rb_fractionLostAndPacketsLost r AND 0xFFFFFF00)"

definition RtcpReportBlock_seqNoCycles :: "RtcpReportBlock \<Rightarrow> u16" where
  [struct_defs]: "RtcpReportBlock_seqNoCycles r = ntohs (rb_seqNoCycles r)"

definition RtcpReportBlock_highestSeqNo :: "RtcpReportBlock \<Rightarrow> u16" where
  [struct_defs]: "RtcpReportBlock_highestSeqNo r = ntohs (rb_highestSeqNo r)"

definition RtcpReportBlock_extendedHighestSeqNo :: "RtcpReportBlock \<Rightarrow> u32" where
  [struct_defs]: "RtcpReportBlock_extendedHighestSeqNo r =
     push_bit 16 (ucast (RtcpReportBlock_seqNoCycles r)) OR ucast (RtcpReportBlock_highestSeqNo r)"

definition RtcpReportBlock_jitter :: "RtcpReportBlock \<Rightarrow> u32" where
  [struct_defs]: "RtcpReportBlock_jitter r = ntohl (rb_jitter r)"

definition RtcpReportBlock_delaySinceSR :: "RtcpReportBlock \<Rightarrow> u32" where
  [struct_defs]: "RtcpReportBlock_delaySinceSR r = ntohl (rb_delaySinceLastReport r)"

definition RtcpReportBlock_setSeqNo :: "u16 \<Rightarrow> u16 \<Rightarrow> RtcpReportBlock \<Rightarrow> RtcpReportBlock" where
  [struct_defs]: "RtcpReportBlock_setSeqNo highestSeqNo seqNoCycles r =
     r\<lparr>rb_highestSeqNo := htons highestSeqNo, rb_seqNoCycles := htons seqNoCycles\<rparr>"

definition RtcpReportBlock_setJitter :: "u32 \<Rightarrow> RtcpReportBlock \<Rightarrow> RtcpReportBlock" where
  [struct_defs]: "RtcpReportBlock_setJitter jitter r = r\<lparr>rb_jitter := htonl jitter\<rparr>"

definition RtcpReportBlock_setNTPOfSR :: "u64 \<Rightarrow> RtcpReportBlock \<Rightarrow> RtcpReportBlock" where
  [struct_defs]: "RtcpReportBlock_setNTPOfSR ntp r = r\<lparr>rb_lastReport := htonl (ucast (drop_bit 16 ntp))\<rparr>"

definition RtcpReportBlock_getNTPOfSR :: "RtcpReportBlock \<Rightarrow> u32" where
  [struct_defs]: "RtcpReportBlock_getNTPOfSR r = push_bit 16 (ntohl (rb_lastReport r))"

definition RtcpReportBlock_setDelaySinceSR :: "u32 \<Rightarrow> RtcpReportBlock \<Rightarrow> RtcpReportBlock" where
  [struct_defs]: "RtcpReportBlock_setDelaySinceSR sr r = r\<lparr>rb_delaySinceLastReport := htonl sr\<rparr>"

definition RtcpReportBlock_preparePacket ::
  "u32 \<Rightarrow> u32 \<Rightarrow> u32 \<Rightarrow> u16 \<Rightarrow> u16 \<Rightarrow> u32 \<Rightarrow> u64 \<Rightarrow> u64 \<Rightarrow> RtcpReportBlock \<Rightarrow> RtcpReportBlock" where
  "RtcpReportBlock_preparePacket in_ssrc packetsLost totalPackets highestSeqNo seqNoCycles jitter
     lastSR_NTP lastSR_DELAY r =
     RtcpReportBlock_setDelaySinceSR (ucast lastSR_DELAY) (RtcpReportBlock_setNTPOfSR lastSR_NTP
       (RtcpReportBlock_setSSRC in_ssrc (RtcpReportBlock_setJitter jitter
         (RtcpReportBlock_setSeqNo highestSeqNo seqNoCycles r))))"

section \<open>Sender and receiver reports\<close>

record RtcpSr =
  sr_header :: RtcpHeader
  sr_senderSSRC :: u32
  sr_ntpTimestamp :: u64
  sr_rtpTimestamp :: u32
  sr_packetCount :: u32
  sr_octetCount :: u32

definition RtcpSr_enc :: "RtcpSr \<Rightarrow> binary" where
  "RtcpSr_enc s = RtcpHeader_enc (sr_header s) @ bytes32 (sr_senderSSRC s) @
     bytes64 (sr_ntpTimestamp s) @ bytes32 (sr_rtpTimestamp s) @ bytes32 (sr_packetCount s) @
     bytes32 (sr_octetCount s)"

definition RtcpSr_dec :: "binary \<Rightarrow> RtcpSr" where
  "RtcpSr_dec b = \<lparr>sr_header = RtcpHeader_dec b, sr_senderSSRC = ld32 b 4,
     sr_ntpTimestamp = ld64 b 8, sr_rtpTimestamp = ld32 b 16, sr_packetCount = ld32 b 20,
     sr_octetCount = ld32 b 24\<rparr>"

definition RtcpSr_Size :: "nat \<Rightarrow> nat" where
  "RtcpSr_Size reportCount = 4 + 24 + reportCount * 24"

definition RtcpSr_preparePacket :: "u32 \<Rightarrow> u8 \<Rightarrow> RtcpSr \<Rightarrow> RtcpSr" where
  "RtcpSr_preparePacket senderSSRC reportCount s =
     (let len = (4 + 24 + unat reportCount * 24) div 4 - 1
      in s\<lparr>sr_header := RtcpHeader_prepareHeader 200 reportCount (of_nat len) (sr_header s),
           sr_senderSSRC := htonl senderSSRC\<rparr>)"

definition RtcpSr_getReportBlock :: "nat \<Rightarrow> nat" where
  "RtcpSr_getReportBlock num = 28 + num * 24"

definition RtcpSr_getSize :: "RtcpSr \<Rightarrow> nat" where
  "RtcpSr_getSize s = 4 * (1 + unat (RtcpHeader_length (sr_header s)))"

definition RtcpSr_ntpTimestamp :: "RtcpSr \<Rightarrow> u64" where
  [struct_defs]: "RtcpSr_ntpTimestamp s = ntohll (sr_ntpTimestamp s)"

definition RtcpSr_rtpTimestamp :: "RtcpSr \<Rightarrow> u32" where
  [struct_defs]: "RtcpSr_rtpTimestamp s = ntohl (sr_rtpTimestamp s)"

definition RtcpSr_packetCount :: "RtcpSr \<Rightarrow> u32" where
  [struct_defs]: "RtcpSr_packetCount s = ntohl (sr_packetCount s)"

definition RtcpSr_octetCount :: "RtcpSr \<Rightarrow> u32" where
  [struct_defs]: "RtcpSr_octetCount s = ntohl (sr_octetCount s)"

definition RtcpSr_senderSSRC :: "RtcpSr \<Rightarrow> u32" where
  [struct_defs]: "RtcpSr_senderSSRC s = ntohl (sr_senderSSRC s)"

definition RtcpSr_setNtpTimestamp :: "u64 \<Rightarrow> RtcpSr \<Rightarrow> RtcpSr" where
  [struct_defs]: "RtcpSr_setNtpTimestamp ts s = s\<lparr>sr_ntpTimestamp := htonll ts\<rparr>"

definition RtcpSr_setRtpTimestamp :: "u32 \<Rightarrow> RtcpSr \<Rightarrow> RtcpSr" where
  [struct_defs]: "RtcpSr_setRtpTimestamp ts s = s\<lparr>sr_rtpTimestamp := htonl ts\<rparr>"

definition RtcpSr_setOctetCount :: "u32 \<Rightarrow> RtcpSr \<Rightarrow> RtcpSr" where
  [struct_defs]: "RtcpSr_setOctetCount ts s = s\<lparr>sr_octetCount := htonl ts\<rparr>"

definition RtcpSr_setPacketCount :: "u32 \<Rightarrow> RtcpSr \<Rightarrow> RtcpSr" where
  [struct_defs]: "RtcpSr_setPacketCount ts s = s\<lparr>sr_packetCount := htonl ts\<rparr>"

record RtcpRr =
  rr_header :: RtcpHeader
  rr_senderSSRC :: u32

definition RtcpRr_enc :: "RtcpRr \<Rightarrow> binary" where
  "RtcpRr_enc r = RtcpHeader_enc (rr_header r) @ bytes32 (rr_senderSSRC r)"

definition RtcpRr_dec :: "binary \<Rightarrow> RtcpRr" where
  "RtcpRr_dec b = \<lparr>rr_header = RtcpHeader_dec b, rr_senderSSRC = ld32 b 4\<rparr>"

definition RtcpRr_getReportBlock :: "nat \<Rightarrow> nat" where
  "RtcpRr_getReportBlock num = 8 + num * 24"

definition RtcpRr_SizeWithReportBlocks :: "u8 \<Rightarrow> nat" where
  "RtcpRr_SizeWithReportBlocks reportCount = 4 + 4 + unat reportCount * 24"

definition RtcpRr_SSRC :: "RtcpRr \<Rightarrow> u32" where
  [struct_defs]: "RtcpRr_SSRC r = ntohl (rr_senderSSRC r)"

definition RtcpRr_isSenderReport :: "RtcpRr \<Rightarrow> bool" where
  "RtcpRr_isSenderReport r \<longleftrightarrow> RtcpHeader_payloadType (rr_header r) = 200"

definition RtcpRr_isReceiverReport :: "RtcpRr \<Rightarrow> bool" where
  "RtcpRr_isReceiverReport r \<longleftrightarrow> RtcpHeader_payloadType (rr_header r) = 201"

definition RtcpRr_getSize :: "RtcpRr \<Rightarrow> nat" where
  "RtcpRr_getSize r = 4 * (1 + unat (RtcpHeader_length (rr_header r)))"

definition RtcpRr_preparePacket :: "u32 \<Rightarrow> u8 \<Rightarrow> RtcpRr \<Rightarrow> RtcpRr" where
  "RtcpRr_preparePacket senderSSRC reportCount r =
     (let len = RtcpRr_SizeWithReportBlocks reportCount div 4 - 1
      in r\<lparr>rr_header := RtcpHeader_prepareHeader 201 reportCount (of_nat len) (rr_header r),
           rr_senderSSRC := htonl senderSSRC\<rparr>)"

definition RtcpRr_setSenderSSRC :: "u32 \<Rightarrow> RtcpRr \<Rightarrow> RtcpRr" where
  [struct_defs]: "RtcpRr_setSenderSSRC ssrc r = r\<lparr>rr_senderSSRC := htonl ssrc\<rparr>"

section \<open>Feedback messages: PLI, FIR, REMB\<close>

record RtcpFbHeader =
  fb_header :: RtcpHeader
  fb_packetSender :: u32
  fb_mediaSource :: u32

definition RtcpFbHeader_enc :: "RtcpFbHeader \<Rightarrow> binary" where
  "RtcpFbHeader_enc f = RtcpHeader_enc (fb_header f) @ bytes32 (fb_packetSender f) @
     bytes32 (fb_mediaSource f)"

definition RtcpFbHeader_dec :: "binary \<Rightarrow> RtcpFbHeader" where
  "RtcpFbHeader_dec b = \<lparr>fb_header = RtcpHeader_dec b, fb_packetSender = ld32 b 4,
     fb_mediaSource = ld32 b 8\<rparr>"

definition RtcpFbHeader_packetSenderSSRC :: "RtcpFbHeader \<Rightarrow> u32" where
  [struct_defs]: "RtcpFbHeader_packetSenderSSRC f = ntohl (fb_packetSender f)"

definition RtcpFbHeader_mediaSourceSSRC :: "RtcpFbHeader \<Rightarrow> u32" where
  [struct_defs]: "RtcpFbHeader_mediaSourceSSRC f = ntohl (fb_mediaSource f)"

definition RtcpFbHeader_setPacketSenderSSRC :: "u32 \<Rightarrow> RtcpFbHeader \<Rightarrow> RtcpFbHeader" where
  [struct_defs]: "RtcpFbHeader_setPacketSenderSSRC ssrc f = f\<lparr>fb_packetSender := htonl ssrc\<rparr>"

definition RtcpFbHeader_setMediaSourceSSRC :: "u32 \<Rightarrow> RtcpFbHeader \<Rightarrow> RtcpFbHeader" where
  [struct_defs]: "RtcpFbHeader_setMediaSourceSSRC ssrc f = f\<lparr>fb_mediaSource := htonl ssrc\<rparr>"

definition RtcpPli_Size :: nat where
  "RtcpPli_Size = 12"

definition RtcpPli_preparePacket :: "u32 \<Rightarrow> RtcpFbHeader \<Rightarrow> RtcpFbHeader" where
  "RtcpPli_preparePacket messageSSRC f =
     RtcpFbHeader_setMediaSourceSSRC messageSSRC (RtcpFbHeader_setPacketSenderSSRC messageSSRC
       (f\<lparr>fb_header := RtcpHeader_prepareHeader 206 1 2 (fb_header f)\<rparr>))"

record RtcpFir =
  fir_header :: RtcpFbHeader
  fir_ssrc :: u32
  fir_seqNo :: u8
  fir_dummy1 :: u8
  fir_dummy2 :: u16

definition RtcpFir_enc :: "RtcpFir \<Rightarrow> binary" where
  "RtcpFir_enc f = RtcpFbHeader_enc (fir_header f) @ bytes32 (fir_ssrc f) @ [fir_seqNo f] @
     [fir_dummy1 f] @ bytes16 (fir_dummy2 f)"

definition RtcpFir_dec :: "binary \<Rightarrow> RtcpFir" where
  "RtcpFir_dec b = \<lparr>fir_header = RtcpFbHeader_dec b, fir_ssrc = ld32 b 12, fir_seqNo = ld8 b 16,
     fir_dummy1 = ld8 b 17, fir_dummy2 = ld16 b 18\<rparr>"

definition RtcpFir_Size :: nat where
  "RtcpFir_Size = 12 + 8"

definition RtcpFir_preparePacket :: "u32 \<Rightarrow> u8 \<Rightarrow> RtcpFir \<Rightarrow> RtcpFir" where
  "RtcpFir_preparePacket messageSSRC seqNo f =
     f\<lparr>fir_header := RtcpFbHeader_setMediaSourceSSRC messageSSRC
          (RtcpFbHeader_setPacketSenderSSRC messageSSRC
             ((fir_header f)\<lparr>fb_header :=
                RtcpHeader_prepareHeader 206 4 (2 + 2 * 1) (fb_header (fir_header f))\<rparr>)),
       fir_ssrc := htonl messageSSRC, fir_seqNo := seqNo\<rparr>"

record RtcpRemb =
  remb_header :: RtcpFbHeader
  remb_id0 :: u8
  remb_id1 :: u8
  remb_id2 :: u8
  remb_id3 :: u8
  remb_bitrate :: u32
  remb_ssrc :: u32

definition RtcpRemb_enc :: "RtcpRemb \<Rightarrow> binary" where
  "RtcpRemb_enc r = RtcpFbHeader_enc (remb_header r) @ [remb_id0 r] @ [remb_id1 r] @
     [remb_id2 r] @ [remb_id3 r] @ bytes32 (remb_bitrate r) @
     bytes32 (remb_ssrc r)"

definition RtcpRemb_dec :: "binary \<Rightarrow> RtcpRemb" where
  "RtcpRemb_dec b = \<lparr>remb_header = RtcpFbHeader_dec b,
     remb_id0 = ld8 b 12, remb_id1 = ld8 b 13, remb_id2 = ld8 b 14, remb_id3 = ld8 b 15,
     remb_bitrate = ld32 b 16, remb_ssrc = ld32 b 20\<rparr>"

definition RtcpRemb_SizeWithSSRCs :: "nat \<Rightarrow> nat" where
  "RtcpRemb_SizeWithSSRCs count = 24 + count * 4 - 4"

definition RtcpRemb_getSize :: "RtcpRemb \<Rightarrow> nat" where
  "RtcpRemb_getSize r = 4 * (1 + unat (RtcpHeader_length (fb_header (remb_header r))))"

text \<open>The loop of \<open>setBitrate\<close>: halve until the mantissa fits in 18 bits.\<close>

function remb_normalize :: "u32 \<Rightarrow> u32 \<Rightarrow> u32 \<times> u32" where
  "remb_normalize e in_bitrate =
     (if in_bitrate > 0x3FFFF then remb_normalize (e + 1) (in_bitrate div 2) else (e, in_bitrate))"
  by pat_completeness auto
termination
  by (relation "measure (\<lambda>(e, in_bitrate). unat in_bitrate)") (auto simp: unat_div word_less_nat_alt)

declare remb_normalize.simps [simp del]

definition RtcpRemb_setBitrate :: "u32 \<Rightarrow> u32 \<Rightarrow> RtcpRemb \<Rightarrow> RtcpRemb" where
  "RtcpRemb_setBitrate numSSRC in_bitrate r =
     (case remb_normalize 0 in_bitrate of (e, m) \<Rightarrow>
        r\<lparr>remb_header := (remb_header r)\<lparr>fb_header :=
             RtcpHeader_setLength (ucast (20 div 4 - 1 + numSSRC)) (fb_header (remb_header r))\<rparr>,
          remb_bitrate := htonl (push_bit (32 - 8) numSSRC OR push_bit (32 - 8 - 6) e OR m)\<rparr>)"

definition RtcpRemb_preparePacket :: "u32 \<Rightarrow> u32 \<Rightarrow> u32 \<Rightarrow> RtcpRemb \<Rightarrow> RtcpRemb" where
  "RtcpRemb_preparePacket senderSSRC numSSRC in_bitrate r =
     RtcpRemb_setBitrate numSSRC in_bitrate
       (r\<lparr>remb_header := RtcpFbHeader_setPacketSenderSSRC senderSSRC
            (RtcpFbHeader_setMediaSourceSSRC 0
               ((remb_header r)\<lparr>fb_header :=
                  RtcpHeader_prepareHeader 206 15 0 (fb_header (remb_header r))\<rparr>)),
          remb_id0 := 0x52, remb_id1 := 0x45, remb_id2 := 0x4D, remb_id3 := 0x42\<rparr>)"

definition RtcpRemb_setSsrc :: "u32 \<Rightarrow> RtcpRemb \<Rightarrow> RtcpRemb" where
  "RtcpRemb_setSsrc newSsrc r = r\<lparr>remb_ssrc := htonl newSsrc\<rparr>"

definition RtcpRemb_getNumSSRC :: "RtcpRemb \<Rightarrow> u32" where
  "RtcpRemb_getNumSSRC r = drop_bit 24 (ntohl (remb_bitrate r))"

text \<open>\<open>pow(exp, 2)\<close> is the square of the exponent.\<close>

definition RtcpRemb_getBitrate :: "RtcpRemb \<Rightarrow> u32" where
  "RtcpRemb_getBitrate r =
     (let br = ntohl (remb_bitrate r);
          e = ucast (drop_bit 26 (push_bit 8 br)) :: u8
      in (br AND 0x3FFFF) * of_nat ((unat e) ^ 2))"

section \<open>Generic NACK\<close>

record RtcpNackPart =
  nack_pid :: u16
  nack_blp :: u16

definition RtcpNackPart_enc :: "RtcpNackPart \<Rightarrow> binary" where
  "RtcpNackPart_enc p = bytes16 (nack_pid p) @ bytes16 (nack_blp p)"

definition RtcpNackPart_dec :: "binary \<Rightarrow> RtcpNackPart" where
  "RtcpNackPart_dec b = \<lparr>nack_pid = ld16 b 0, nack_blp = ld16 b 2\<rparr>"

definition RtcpNackPart_pid :: "RtcpNackPart \<Rightarrow> u16" where
  [struct_defs]: "RtcpNackPart_pid p = ntohs (nack_pid p)"

definition RtcpNackPart_blp :: "RtcpNackPart \<Rightarrow> u16" where
  [struct_defs]: "RtcpNackPart_blp p = ntohs (nack_blp p)"

definition RtcpNackPart_setPid :: "u16 \<Rightarrow> RtcpNackPart \<Rightarrow> RtcpNackPart" where
  [struct_defs]: "RtcpNackPart_setPid pid p = p\<lparr>nack_pid := htons pid\<rparr>"

definition RtcpNackPart_setBlp :: "u16 \<Rightarrow> RtcpNackPart \<Rightarrow> RtcpNackPart" where
  [struct_defs]: "RtcpNackPart_setBlp blp p = p\<lparr>nack_blp := htons blp\<rparr>"

function nack_bits :: "u16 \<Rightarrow> u16 \<Rightarrow> u16 list" where
  "nack_bits bitmask i =
     (if bitmask > 0
      then (if bitmask AND 0x1 \<noteq> 0 then [i] else []) @ nack_bits (drop_bit 1 bitmask) (i + 1)
      else [])"
  by pat_completeness auto
termination
proof (relation "measure (\<lambda>(bitmask, i). unat bitmask)")
  fix bitmask i :: u16
  assume "bitmask > 0"
  then have "unat bitmask > 0" by (simp add: word_less_nat_alt)
  then have "unat bitmask div 2 < unat bitmask" by simp
  then have "unat (bitmask div 2) < unat bitmask" by (simp add: unat_div)
  then show "((drop_bit 1 bitmask, i + 1), (bitmask, i)) \<in> measure (\<lambda>(bitmask, i). unat bitmask)"
    by (simp add: drop_bit_eq_div)
qed simp

declare nack_bits.simps [simp del]

definition RtcpNackPart_getSequenceNumbers :: "RtcpNackPart \<Rightarrow> u16 list" where
  "RtcpNackPart_getSequenceNumbers p =
     RtcpNackPart_pid p # nack_bits (RtcpNackPart_blp p) (RtcpNackPart_pid p + 1)"

definition RtcpNack_Size :: "nat \<Rightarrow> nat" where
  "RtcpNack_Size discreteSeqNoCount = 12 + 4 * discreteSeqNoCount"

text \<open>\<open>header.header.length() - 2\<close>, returned as \<open>unsigned int\<close>: it wraps around below 2.\<close>

definition RtcpNack_getSeqNoCount :: "RtcpFbHeader \<Rightarrow> u32" where
  "RtcpNack_getSeqNoCount f = ucast (RtcpHeader_length (fb_header f)) - 2"

definition RtcpNack_preparePacket :: "u32 \<Rightarrow> u32 \<Rightarrow> RtcpFbHeader \<Rightarrow> RtcpFbHeader" where
  "RtcpNack_preparePacket ssrc discreteSeqNoCount f =
     RtcpFbHeader_setPacketSenderSSRC ssrc (RtcpFbHeader_setMediaSourceSSRC ssrc
       (f\<lparr>fb_header := RtcpHeader_prepareHeader 205 1 (2 + ucast discreteSeqNoCount) (fb_header f)\<rparr>))"

text \<open>\<open>addMissingPacket\<close> on the parts that fit behind the header, the number of parts in use and the
  sequence number of the part being filled: the result is whether the packet has grown, and the new
  values. A shift by \<open>missingPacket - (1 + fciPID)\<close> with both equal has a negative count.\<close>

definition RtcpNack_addMissingPacket ::
  "nat \<Rightarrow> u16 \<Rightarrow> u16 \<Rightarrow> RtcpNackPart list \<Rightarrow> (bool \<times> nat \<times> u16 \<times> RtcpNackPart list) result" where
  "RtcpNack_addMissingPacket fciCount fciPID missingPacket parts =
     (if fciCount = 0 \<or> missingPacket < fciPID \<or> unat missingPacket > unat fciPID + 16 then
        if fciCount < length parts
        then Inr (True, fciCount + 1, missingPacket,
               parts[fciCount := RtcpNackPart_setBlp 0 (RtcpNackPart_setPid missingPacket (parts ! fciCount))])
        else Inl OutOfBounds
      else if fciCount - 1 < length parts then
        if missingPacket = fciPID then Inl UndefinedBehaviour
        else let blp = RtcpNackPart_blp (parts ! (fciCount - 1));
                 newBit = push_bit (unat missingPacket - (1 + unat fciPID)) 1
             in Inr (False, fciCount, fciPID,
                  parts[fciCount - 1 := RtcpNackPart_setBlp (blp OR newBit) (parts ! (fciCount - 1))])
      else Inl OutOfBounds)"

text \<open>A caller adds the missing packets one after the other.\<close>

fun nack_add_all ::
  "u16 list \<Rightarrow> nat \<Rightarrow> u16 \<Rightarrow> RtcpNackPart list \<Rightarrow> (nat \<times> u16 \<times> RtcpNackPart list) result" where
  "nack_add_all [] n pid parts = Inr (n, pid, parts)"
| "nack_add_all (m # ms) n pid parts =
     (case RtcpNack_addMissingPacket n pid m parts of
        Inl e \<Rightarrow> Inl e
      | Inr (_, n', pid', parts') \<Rightarrow> nack_add_all ms n' pid' parts')"

section \<open>The structs are packed structs\<close>

lemmas struct_nested = RtcpHeader_enc_def RtcpHeader_dec_def RtcpFbHeader_enc_def RtcpFbHeader_dec_def

interpretation rtcp: wire_struct 4 RtcpHeader_enc RtcpHeader_dec
  by unfold_locales (auto simp: struct_nested struct_enc_dec)

interpretation rb: wire_struct 24 RtcpReportBlock_enc RtcpReportBlock_dec
  by unfold_locales (auto simp: RtcpReportBlock_enc_def RtcpReportBlock_dec_def struct_enc_dec)

interpretation fb: wire_struct 12 RtcpFbHeader_enc RtcpFbHeader_dec
  by unfold_locales (auto simp: struct_nested struct_enc_dec)

interpretation sr: wire_struct 28 RtcpSr_enc RtcpSr_dec
  by unfold_locales (auto simp: RtcpSr_enc_def RtcpSr_dec_def struct_nested struct_enc_dec)

interpretation rr: wire_struct 8 RtcpRr_enc RtcpRr_dec
  by unfold_locales (auto simp: RtcpRr_enc_def RtcpRr_dec_def struct_nested struct_enc_dec)

interpretation remb: wire_struct 24 RtcpRemb_enc RtcpRemb_dec
  by unfold_locales (auto simp: RtcpRemb_enc_def RtcpRemb_dec_def struct_nested struct_enc_dec)

interpretation fir: wire_struct 20 RtcpFir_enc RtcpFir_dec
  by unfold_locales (auto simp: RtcpFir_enc_def RtcpFir_dec_def struct_nested struct_enc_dec)

interpretation nackpart: wire_struct 4 RtcpNackPart_enc RtcpNackPart_dec
  by unfold_locales (auto simp: RtcpNackPart_enc_def RtcpNackPart_dec_def struct_enc_dec)

section \<open>Headers and lengths\<close>

lemma prepareHeader_fields [simp]:
  "RtcpHeader_version (RtcpHeader_prepareHeader pt rc len h) = 2"
  "\<not> RtcpHeader_padding (RtcpHeader_prepareHeader pt rc len h)"
  "RtcpHeader_reportCount (RtcpHeader_prepareHeader pt rc len h) = rc AND 0x1F"
  "RtcpHeader_payloadType (RtcpHeader_prepareHeader pt rc len h) = pt"
  "RtcpHeader_length (RtcpHeader_prepareHeader pt rc len h) = len"
  by (simp_all add: RtcpHeader_prepareHeader_def struct_defs u8_bits)

lemma RtcpHeader_length_setLength [simp]: "RtcpHeader_length (RtcpHeader_setLength len h) = len"
  by (simp add: struct_defs)

text \<open>The length field every RTCP packet is prepared with agrees with the size the packet is
  allocated with: sender and receiver reports for every report count, PLI, FIR, REMB and NACK for
  every number of SSRCs and parts whose packet fits the 16-bit length field.\<close>

theorem rtcp_length_matches_size:
  assumes "unat n \<le> 65000" and "unat k \<le> 65533"
  shows "RtcpHeader_lengthInBytes (sr_header (RtcpSr_preparePacket ssrc rc s)) = RtcpSr_Size (unat rc) \<and>
    RtcpHeader_lengthInBytes (rr_header (RtcpRr_preparePacket ssrc rc r)) =
      RtcpRr_SizeWithReportBlocks rc \<and>
    RtcpHeader_lengthInBytes (fb_header (RtcpPli_preparePacket ssrc f)) = RtcpPli_Size \<and>
    RtcpHeader_lengthInBytes (fb_header (fir_header (RtcpFir_preparePacket ssrc q fi))) = RtcpFir_Size \<and>
    RtcpHeader_lengthInBytes (fb_header (remb_header (RtcpRemb_preparePacket ssrc n b re))) =
      RtcpRemb_SizeWithSSRCs (unat n) \<and>
    RtcpHeader_lengthInBytes (fb_header (RtcpNack_preparePacket ssrc k f)) = RtcpNack_Size (unat k)"
proof (intro conjI)
  have rc: "unat rc < 256" by (rule unat_bound)
  show "RtcpHeader_lengthInBytes (sr_header (RtcpSr_preparePacket ssrc rc s)) = RtcpSr_Size (unat rc)"
    using rc by (simp add: RtcpSr_preparePacket_def RtcpHeader_lengthInBytes_def RtcpSr_Size_def
        Let_def unat_word_ariths unat_ucast)
  show "RtcpHeader_lengthInBytes (rr_header (RtcpRr_preparePacket ssrc rc r)) =
      RtcpRr_SizeWithReportBlocks rc"
    using rc by (simp add: RtcpRr_preparePacket_def RtcpHeader_lengthInBytes_def
        RtcpRr_SizeWithReportBlocks_def Let_def unat_word_ariths unat_ucast)
  show "RtcpHeader_lengthInBytes (fb_header (RtcpPli_preparePacket ssrc f)) = RtcpPli_Size"
    by (simp add: RtcpPli_preparePacket_def RtcpHeader_lengthInBytes_def RtcpPli_Size_def
        RtcpFbHeader_setMediaSourceSSRC_def RtcpFbHeader_setPacketSenderSSRC_def)
  show "RtcpHeader_lengthInBytes (fb_header (fir_header (RtcpFir_preparePacket ssrc q fi))) = RtcpFir_Size"
    by (simp add: RtcpFir_preparePacket_def RtcpHeader_lengthInBytes_def RtcpFir_Size_def
        RtcpFbHeader_setMediaSourceSSRC_def RtcpFbHeader_setPacketSenderSSRC_def)
  have "unat (ucast (4 + n) :: u16) = 4 + unat n"
    using assms(1) by (simp add: unat_ucast unat_word_ariths)
  then show "RtcpHeader_lengthInBytes (fb_header (remb_header (RtcpRemb_preparePacket ssrc n b re))) =
      RtcpRemb_SizeWithSSRCs (unat n)"
    by (simp add: RtcpRemb_preparePacket_def RtcpRemb_setBitrate_def RtcpHeader_lengthInBytes_def
        RtcpRemb_SizeWithSSRCs_def split: prod.split)
  have "unat (2 + ucast k :: u16) = 2 + unat k"
    using assms(2) by (simp add: unat_ucast unat_word_ariths)
  then show "RtcpHeader_lengthInBytes (fb_header (RtcpNack_preparePacket ssrc k f)) = RtcpNack_Size (unat k)"
    by (simp add: RtcpNack_preparePacket_def RtcpHeader_lengthInBytes_def RtcpNack_Size_def
        RtcpFbHeader_setMediaSourceSSRC_def RtcpFbHeader_setPacketSenderSSRC_def)
qed

theorem rtcp_length_matches_size_witness:
  "RtcpHeader_lengthInBytes (fb_header (RtcpNack_preparePacket 9 3 (RtcpFbHeader_dec []))) = 24"
  using rtcp_length_matches_size [of 0 3 9 0 "RtcpSr_dec []" "RtcpRr_dec []" "RtcpFbHeader_dec []"]
  by (simp add: RtcpNack_Size_def)

text \<open>Demultiplexing (RFC 5761): a packet whose header was prepared as RTCP with a type in
  192..223 is taken for RTCP whatever follows, and a packet whose RTP payload type is outside
  64..95 is not.\<close>

theorem demultiplexing:
  assumes "4 \<le> length rest" and "192 \<le> pt" and "pt \<le> 223"
    and "RtpHeader_payloadType g < 64 \<or> RtpHeader_payloadType g > 95"
  shows "IsRtcp (RtcpHeader_enc (RtcpHeader_prepareHeader pt rc len h) @ rest) \<and>
    \<not> IsRtcp (RtpHeader_enc g @ rest')"
proof
  have "unat pt mod 128 = unat pt - 128"
    using assms(2,3) by (simp add: word_le_nat_alt mod_if)
  then have "64 \<le> pt AND mask 7" "pt AND mask 7 \<le> 95"
    using assms(2,3) by (simp_all add: word_le_nat_alt unat_and_mask)
  then show "IsRtcp (RtcpHeader_enc (RtcpHeader_prepareHeader pt rc len h) @ rest)"
    using assms(1) by (simp add: IsRtcp_def RtcpHeader_enc_def masks RtcpHeader_prepareHeader_def struct_defs)
  show "\<not> IsRtcp (RtpHeader_enc g @ rest')"
    using assms(4) by (auto simp: IsRtcp_def RtpHeader_enc_def RtpHeader_payloadType_def Let_def)
qed

theorem demultiplexing_witness:
  "IsRtcp (RtcpHeader_enc (RtcpHeader_prepareHeader 200 0 6 (RtcpHeader_dec [])) @ [0, 0, 0, 1]) \<and>
   \<not> IsRtcp (RtpHeader_enc (RtpHeader_setPayloadType 96 (RtpHeader_dec [])) @ [1])"
  using demultiplexing [of "[0, 0, 0, 1]" 200 "RtpHeader_setPayloadType 96 (RtpHeader_dec [])" 0 6
      "RtcpHeader_dec []" "[1]"] by simp

section \<open>Report blocks\<close>

text \<open>The fraction and the cumulative number of lost packets share one 32-bit word; both are read
  back as they were set, the count modulo 24 bits, on a little-endian host.\<close>

theorem packets_lost_roundtrip:
  "RtcpReportBlock_getFractionLost (RtcpReportBlock_setPacketsLost f c r) = f \<and>
   RtcpReportBlock_getPacketsLostCount (RtcpReportBlock_setPacketsLost f c r) = c AND 0xFFFFFF"
proof
  show "RtcpReportBlock_getFractionLost (RtcpReportBlock_setPacketsLost f c r) = f"
    by (simp add: struct_defs htonl_def u8_bits)
  show "RtcpReportBlock_getPacketsLostCount (RtcpReportBlock_setPacketsLost f c r) = c AND 0xFFFFFF"
    by (simp add: struct_defs htonl_def u32_bits)
qed

text \<open>The NTP timestamp of the last sender report is stored as its middle 32 bits, as RFC 3550
  asks, but \<open>getNTPOfSR\<close> shifts them out of its 32-bit result: only 16 of the bits come back.\<close>

theorem ntp_of_sr_truncated:
  "ntohl (rb_lastReport (RtcpReportBlock_setNTPOfSR ntp r)) = ucast (drop_bit 16 ntp) \<and>
   RtcpReportBlock_getNTPOfSR (RtcpReportBlock_setNTPOfSR ntp r) = ucast ntp AND 0xFFFF0000"
  by (simp add: struct_defs u32_bits)

section \<open>REMB\<close>

lemma remb_normalize_spec:
  assumes "remb_normalize e b = (e', m)"
  shows "\<exists>k. e' = e + of_nat k \<and> unat m = unat b div 2 ^ k \<and> unat m < 2 ^ 18 \<and>
    (k = 0 \<or> 2 ^ 17 \<le> unat m)"
  using assms
proof (induction e b rule: remb_normalize.induct)
  case (1 e b)
  show ?case
  proof (cases "b > 0x3FFFF")
    case True
    with "1.prems" have "remb_normalize (e + 1) (b div 2) = (e', m)"
      by (simp add: remb_normalize.simps [of e b])
    with "1.IH" True obtain k where k: "e' = e + 1 + of_nat k" "unat m = unat (b div 2) div 2 ^ k"
        "unat m < 2 ^ 18" "k = 0 \<or> 2 ^ 17 \<le> unat m"
      by blast
    have half: "unat (b div 2) = unat b div 2" by (simp add: unat_div)
    have "unat b \<ge> 2 ^ 18" using True by (simp add: word_less_nat_alt)
    with k(2,4) half have "2 ^ 17 \<le> unat m" by (cases "k = 0") auto
    moreover have "unat m = unat b div 2 ^ Suc k"
      by (simp add: k(2) half div_mult2_eq)
    ultimately show ?thesis
      using k by (intro exI [of _ "Suc k"]) simp
  next
    case False
    with "1.prems" show ?thesis
      by (intro exI [of _ 0]) (auto simp: remb_normalize.simps [of e b] word_less_nat_alt not_less)
  qed
qed

lemma remb_exponent_bound:
  assumes "remb_normalize 0 b = (e, m)"
  shows "unat m = unat b div 2 ^ unat e \<and> unat m < 2 ^ 18 \<and> unat e \<le> 14"
proof -
  obtain k where k: "e = 0 + of_nat k" "unat m = unat b div 2 ^ k" "unat m < 2 ^ 18"
      "k = 0 \<or> 2 ^ 17 \<le> unat m"
    using remb_normalize_spec [OF assms] by blast
  have "k \<le> 14"
  proof (rule ccontr)
    assume "\<not> k \<le> 14"
    then have "(2::nat) ^ 15 \<le> 2 ^ k" by (intro power_increasing) auto
    then have "unat b div 2 ^ k \<le> unat b div 2 ^ 15" by (intro div_le_mono2) auto
    moreover have "unat b div 2 ^ 15 < 2 ^ 17" using unat_bound(3) [of b] by simp
    ultimately show False using k(2,4) \<open>\<not> k \<le> 14\<close> by auto
  qed
  then show ?thesis using k by (simp add: unat_of_nat)
qed

lemma remb_fields:
  fixes n e m :: u32
  assumes "unat n < 256" "unat e < 64" "unat m < 2 ^ 18"
  defines "x \<equiv> push_bit 24 n OR push_bit 18 e OR m"
  shows "drop_bit 24 x = n" and "drop_bit 26 (push_bit 8 x) = e" and "x AND 0x3FFFF = m"
proof -
  have "n = n AND 0xFF" "e = e AND 0x3F" "m = m AND 0x3FFFF"
    using assms(1-3) and_mask_self [of n 8] and_mask_self [of e 6] and_mask_self [of m 18]
    by (simp_all add: masks)
  then obtain n' e' m' where "n = n' AND 0xFF" "e = e' AND 0x3F" "m = m' AND 0x3FFFF" by metis
  then show "drop_bit 24 x = n" "drop_bit 26 (push_bit 8 x) = e" "x AND 0x3FFFF = m"
    unfolding x_def by (simp_all add: u32_bits)
qed

text \<open>\<open>RtcpRemb::setBitrate\<close> writes the bitrate in the 6-bit exponent, 18-bit mantissa form of the
  REMB draft: the loop ends with a mantissa below \<open>2 ^ 18\<close>, which is the bitrate divided by two to
  the exponent, the exponent is at most 14, and the three fields do not overlap.\<close>

theorem remb_bitrate_encoding:
  fixes n b :: u32 and r :: RtcpRemb
  assumes "unat n < 256"
  defines "w \<equiv> ntohl (remb_bitrate (RtcpRemb_setBitrate n b r))"
  shows "RtcpRemb_getNumSSRC (RtcpRemb_setBitrate n b r) = n \<and>
    (\<exists>e. e \<le> 14 \<and> unat (drop_bit 26 (push_bit 8 w)) = e \<and>
         unat (w AND 0x3FFFF) = unat b div 2 ^ e \<and> unat b div 2 ^ e < 2 ^ 18)"
proof -
  obtain e m where em: "remb_normalize 0 b = (e, m)" by force
  have w: "w = push_bit 24 n OR push_bit 18 e OR m"
    by (simp add: w_def RtcpRemb_setBitrate_def em)
  have b: "unat m = unat b div 2 ^ unat e" "unat m < 2 ^ 18" "unat e \<le> 14"
    using remb_exponent_bound [OF em] by auto
  have "drop_bit 24 w = n" "drop_bit 26 (push_bit 8 w) = e" "w AND 0x3FFFF = m"
    unfolding w using remb_fields [of n e m] assms(1) b by auto
  then show ?thesis
    using b by (auto simp: RtcpRemb_getNumSSRC_def w_def)
qed

theorem remb_bitrate_encoding_witness:
  "RtcpRemb_getNumSSRC (RtcpRemb_setBitrate 1 1000000 (RtcpRemb_dec [])) = 1"
  using remb_bitrate_encoding [of 1 1000000 "RtcpRemb_dec []"] by simp

text \<open>\<open>RtcpRemb::getBitrate\<close> does not read that form: it multiplies the mantissa by the square of
  the exponent. Every bitrate that needs no exponent is read back as 0.\<close>

theorem remb_getBitrate_loses_small_bitrates:
  assumes "unat n < 256" and "b \<le> 0x3FFFF"
  shows "RtcpRemb_getBitrate (RtcpRemb_setBitrate n b r) = 0"
proof -
  have "\<not> b > 0x3FFFF" using assms(2) by (simp add: not_less)
  then have nb: "remb_normalize 0 b = (0, b)" by (simp add: remb_normalize.simps [of 0 b])
  have "unat b < 2 ^ 18" using assms(2) by (simp add: word_le_nat_alt)
  then have "drop_bit 26 (push_bit 8 (push_bit 24 n OR push_bit 18 0 OR b)) = 0"
    using remb_fields(2) [of n 0 b] assms(1) by simp
  then show ?thesis
    by (simp add: RtcpRemb_getBitrate_def RtcpRemb_setBitrate_def nb Let_def)
qed

theorem remb_getBitrate_loses_small_bitrates_witness:
  "RtcpRemb_getBitrate (RtcpRemb_setBitrate 1 100000 (RtcpRemb_dec [])) = 0"
  using remb_getBitrate_loses_small_bitrates [of 1 100000 "RtcpRemb_dec []"] by simp

section \<open>NACK\<close>

lemma set_nack_bits: "set (nack_bits bm i) = {i + of_nat k | k. bit bm k}"
proof (induction bm i rule: nack_bits.induct)
  case (1 bm i)
  show ?case
  proof (cases "bm > 0")
    case True
    have step: "bit (drop_bit (Suc 0) bm) k = bit bm (Suc k)" for k
      by (simp only: bit_drop_bit_eq comp_apply) simp
    have "set (nack_bits bm i) =
        (if bit bm 0 then {i} else {}) \<union> {i + 1 + of_nat k | k. bit bm (Suc k)}"
      using True "1.IH" by (simp add: nack_bits.simps [of bm i] step bit_0 odd_iff_mod_2_eq_one and_one_eq)
    also have "\<dots> = {i + of_nat k | k. bit bm k}" (is "?l = ?r")
    proof (intro equalityI subsetI)
      fix x assume "x \<in> ?l"
      then consider "x = i" "bit bm 0" | k where "x = i + 1 + of_nat k" "bit bm (Suc k)"
        by (auto split: if_splits)
      then show "x \<in> ?r"
        by cases (force intro: exI [of _ 0], force intro: exI [of _ "Suc _"])
    next
      fix x assume "x \<in> ?r"
      then obtain k where "x = i + of_nat k" "bit bm k" by auto
      then show "x \<in> ?l" by (cases k) auto
    qed
    finally show ?thesis .
  next
    case False
    then have "bm = 0" by (simp add: word_less_nat_alt unat_eq_0)
    then show ?thesis by (simp add: nack_bits.simps [of 0 i])
  qed
qed

lemma set_getSequenceNumbers:
  "set (RtcpNackPart_getSequenceNumbers p) =
     insert (RtcpNackPart_pid p) {RtcpNackPart_pid p + 1 + of_nat k | k. bit (RtcpNackPart_blp p) k}"
  by (simp add: RtcpNackPart_getSequenceNumbers_def set_nack_bits)

lemma getSequenceNumbers_start:
  "set (RtcpNackPart_getSequenceNumbers (RtcpNackPart_setBlp 0 (RtcpNackPart_setPid m p))) = {m}"
  by (simp add: set_getSequenceNumbers struct_defs)

lemma getSequenceNumbers_setBit:
  assumes "unat (RtcpNackPart_pid p) < unat m" and "unat m \<le> unat (RtcpNackPart_pid p) + 16"
  shows "set (RtcpNackPart_getSequenceNumbers (RtcpNackPart_setBlp (RtcpNackPart_blp p OR
      push_bit (unat m - (1 + unat (RtcpNackPart_pid p))) 1) p)) =
    insert m (set (RtcpNackPart_getSequenceNumbers p))" (is "set (RtcpNackPart_getSequenceNumbers ?p') = _")
proof -
  define j where "j = unat m - (1 + unat (RtcpNackPart_pid p))"
  have j: "j < 16" "unat m = unat (RtcpNackPart_pid p) + 1 + j" using assms by (auto simp: j_def)
  have "m = of_nat (unat m)" by simp
  then have m: "m = RtcpNackPart_pid p + 1 + of_nat j" unfolding j(2) by simp
  have "RtcpNackPart_pid ?p' = RtcpNackPart_pid p"
    "\<And>k. bit (RtcpNackPart_blp ?p') k \<longleftrightarrow> bit (RtcpNackPart_blp p) k \<or> k = j"
    using j(1) by (auto simp: struct_defs bit_simps j_def)
  then show ?thesis
    by (auto simp: set_getSequenceNumbers m)
qed

text \<open>What the caller of \<open>addMissingPacket\<close> keeps true: the counter is within the parts and the
  remembered sequence number is that of the last part in use.\<close>

definition nack_ok :: "nat \<Rightarrow> u16 \<Rightarrow> RtcpNackPart list \<Rightarrow> bool" where
  "nack_ok n pid parts \<longleftrightarrow> n \<le> length parts \<and> (n > 0 \<longrightarrow> RtcpNackPart_pid (parts ! (n - 1)) = pid)"

definition nack_covers :: "nat \<Rightarrow> RtcpNackPart list \<Rightarrow> u16 set" where
  "nack_covers n parts = set (concat (map RtcpNackPart_getSequenceNumbers (take n parts)))"

lemma nack_covers_alt: "n \<le> length parts \<Longrightarrow>
    nack_covers n parts = (\<Union>k \<in> {..<n}. set (RtcpNackPart_getSequenceNumbers (parts ! k)))"
  by (force simp: nack_covers_def in_set_conv_nth)

lemma nack_covers_update:
  assumes "i < n" "n \<le> length parts"
    and q: "set (RtcpNackPart_getSequenceNumbers q) = insert m (set (RtcpNackPart_getSequenceNumbers (parts ! i)))"
  shows "nack_covers n (parts[i := q]) = insert m (nack_covers n parts)"
proof -
  let ?S = "\<lambda>p. set (RtcpNackPart_getSequenceNumbers p)"
  have "?S (parts[i := q] ! k) = (if k = i then insert m (?S (parts ! k)) else ?S (parts ! k))"
    if "k < n" for k
    using assms that by (simp add: nth_list_update)
  then have "nack_covers n (parts[i := q]) =
      (\<Union>k<n. if k = i then insert m (?S (parts ! k)) else ?S (parts ! k))"
    using assms(2) by (simp add: nack_covers_alt)
  also have "\<dots> = insert m (\<Union>k<n. ?S (parts ! k))"
    using assms(1) by (auto split: if_splits)
  finally show ?thesis using assms(2) by (simp add: nack_covers_alt)
qed

lemma addMissingPacket_step:
  assumes ok: "nack_ok n pid parts" and new: "m \<notin> nack_covers n parts" and room: "n < length parts"
  shows "\<exists>g n' pid' parts'. RtcpNack_addMissingPacket n pid m parts = Inr (g, n', pid', parts') \<and>
    nack_ok n' pid' parts' \<and> nack_covers n' parts' = insert m (nack_covers n parts) \<and>
    length parts' = length parts \<and> n' \<le> Suc n"
proof (cases "n = 0 \<or> m < pid \<or> unat m > unat pid + 16")
  case True
  let ?q = "RtcpNackPart_setBlp 0 (RtcpNackPart_setPid m (parts ! n))"
  have pid: "RtcpNackPart_pid ?q = m" by (simp add: struct_defs)
  have "nack_covers (n + 1) (parts[n := ?q]) = insert m (nack_covers n parts)"
    using room by (simp add: nack_covers_def take_Suc_conv_app_nth getSequenceNumbers_start)
  then show ?thesis
    using True room pid by (auto simp: RtcpNack_addMissingPacket_def nack_ok_def)
next
  case False
  then have n: "n > 0" "pid \<le> m" "unat m \<le> unat pid + 16" by auto
  let ?p = "parts ! (n - 1)"
  have pid: "RtcpNackPart_pid ?p = pid" using ok n(1) by (simp add: nack_ok_def)
  have "pid \<in> nack_covers n parts"
    using n(1) room pid by (auto simp: nack_covers_alt set_getSequenceNumbers intro!: bexI [of _ "n - 1"])
  with new have "pid \<noteq> m" by blast
  with n(2) have lt: "unat pid < unat m" by (simp add: word_le_nat_alt order_less_le word_unat_eq_iff)
  let ?q = "RtcpNackPart_setBlp (RtcpNackPart_blp ?p OR push_bit (unat m - (1 + unat pid)) 1) ?p"
  have q: "set (RtcpNackPart_getSequenceNumbers ?q) = insert m (set (RtcpNackPart_getSequenceNumbers ?p))"
    using getSequenceNumbers_setBit [of ?p m, unfolded pid] lt n(3) by simp
  have "nack_covers n (parts[n - 1 := ?q]) = insert m (nack_covers n parts)"
    using n(1) room q by (intro nack_covers_update) auto
  moreover have "RtcpNackPart_pid ?q = pid" using pid by (simp add: struct_defs)
  ultimately show ?thesis
    using False n(1) room \<open>pid \<noteq> m\<close>
    by (auto simp: RtcpNack_addMissingPacket_def nack_ok_def Let_def)
qed

lemma nack_add_all_covers:
  assumes "nack_ok n pid parts" "distinct ms" "set ms \<inter> nack_covers n parts = {}"
    "n + length ms \<le> length parts"
  shows "\<exists>n' pid' parts'. nack_add_all ms n pid parts = Inr (n', pid', parts') \<and>
    n' \<le> n + length ms \<and> nack_covers n' parts' = set ms \<union> nack_covers n parts"
  using assms
proof (induction ms arbitrary: n pid parts)
  case Nil
  then show ?case by simp
next
  case (Cons m ms)
  then obtain g n1 pid1 parts1 where
    1: "RtcpNack_addMissingPacket n pid m parts = Inr (g, n1, pid1, parts1)"
      "nack_ok n1 pid1 parts1" "nack_covers n1 parts1 = insert m (nack_covers n parts)"
      "length parts1 = length parts" "n1 \<le> Suc n"
    using addMissingPacket_step [of n pid parts m] by auto
  moreover have "set ms \<inter> nack_covers n1 parts1 = {}" "n1 + length ms \<le> length parts1"
    using Cons.prems 1 by auto
  ultimately obtain n' pid' parts' where "nack_add_all ms n1 pid1 parts1 = Inr (n', pid', parts')"
      "n' \<le> n1 + length ms" "nack_covers n' parts' = set ms \<union> nack_covers n1 parts1"
    using Cons.IH [of n1 pid1 parts1] Cons.prems(2) by auto
  then show ?case using 1 by auto
qed

text \<open>C30. Adding distinct missing sequence numbers one by one with \<open>addMissingPacket\<close>, in any order and
  across the wrap-around of 16-bit sequence numbers, never leaves the packet (it needs at most one
  part per number), never shifts out of range, and the parts written report exactly the numbers
  added: what \<open>getSequenceNumbers\<close> reads from them is the set that was added.\<close>

theorem nack_reports_exactly_the_missing:
  assumes "distinct ms" and "length ms \<le> length parts"
  shows "\<exists>n pid' parts'. nack_add_all ms 0 pid parts = Inr (n, pid', parts') \<and> n \<le> length ms \<and>
    set (concat (map RtcpNackPart_getSequenceNumbers (take n parts'))) = set ms"
  using nack_add_all_covers [of 0 pid parts ms] assms by (simp add: nack_ok_def nack_covers_def)

theorem nack_reports_exactly_the_missing_witness:
  "\<exists>n pid' parts'. nack_add_all [65535, 65534, 0, 3, 20] 0 0 (replicate 5 (RtcpNackPart_dec [])) =
      Inr (n, pid', parts') \<and> n \<le> length [65535, 65534, 0, 3, 20 :: u16] \<and>
    set (concat (map RtcpNackPart_getSequenceNumbers (take n parts'))) = {65535, 65534, 0, 3, 20}"
  using nack_reports_exactly_the_missing [of "[65535, 65534, 0, 3, 20]" "replicate 5 (RtcpNackPart_dec [])" 0]
  by (simp del: nack_add_all.simps)

end
