(* ===== verification/Messages.thy ===== *)
theory Messages
  imports Prelude
begin

text \<open>
  Messages and the queue they wait in: \<open>include/rtc/message.hpp\<close>, \<open>src/message.cpp\<close>,
  \<open>include/rtc/frameinfo.hpp\<close>, \<open>include/rtc/reliability.hpp\<close>, \<open>src/impl/queue.hpp\<close>. The queue
  is used under its mutex, so each operation is one step on its state; a \<open>push\<close> that waits on the
  condition variable has no next state (\<open>None\<close>). The interface \<open>fifo\<close> is what the channels rely
  on; the queue provides it.
\<close>

section \<open>Messages\<close>

datatype MessageType = Binary | String | Control | Reset

record FrameInfo =
  fi_payloadType :: u8
  fi_timestamp :: u32

datatype ReliabilityType = Reliable | Rexmit | Timed

datatype rexmit = RexmitCount int | RexmitMillis int

record Reliability =
  rel_unordered :: bool
  rel_maxPacketLifeTime :: "int option"
  rel_maxRetransmits :: "u32 option"
  rel_typeDeprecated :: ReliabilityType
  rel_rexmit :: rexmit

definition Reliability_default :: Reliability where
  "Reliability_default = \<lparr>rel_unordered = False, rel_maxPacketLifeTime = None, rel_maxRetransmits = None,
     rel_typeDeprecated = Reliable, rel_rexmit = RexmitCount 0\<rparr>"

record Message =
  msg_data :: binary
  msg_type :: MessageType
  msg_stream :: u32
  msg_dscp :: u32
  msg_reliability :: "Reliability option"
  msg_frameInfo :: "FrameInfo option"

datatype message_variant = VBinary binary | VString string

definition Message_init :: "binary \<Rightarrow> MessageType \<Rightarrow> Message" where
  "Message_init data type = \<lparr>msg_data = data, msg_type = type, msg_stream = 0, msg_dscp = 0,
     msg_reliability = None, msg_frameInfo = None\<rparr>"

definition make_message_size ::
  "nat \<Rightarrow> MessageType \<Rightarrow> u32 \<Rightarrow> Reliability option \<Rightarrow> Message" where
  "make_message_size n type stream reliability =
     (Message_init (replicate n 0) type)\<lparr>msg_stream := stream, msg_reliability := reliability\<rparr>"

definition make_message ::
  "binary \<Rightarrow> MessageType \<Rightarrow> u32 \<Rightarrow> Reliability option \<Rightarrow> FrameInfo option \<Rightarrow> Message" where
  "make_message data type stream reliability frameInfo =
     (Message_init data type)\<lparr>msg_stream := stream, msg_reliability := reliability,
        msg_frameInfo := frameInfo\<rparr>"

text \<open>\<open>make_message(size, orig)\<close>: a null \<open>orig\<close> gives a null message; the copy does not take over
  the DSCP mark.\<close>

definition make_message_resized :: "nat \<Rightarrow> Message option \<Rightarrow> Message option" where
  "make_message_resized n orig =
     (case orig of
        None \<Rightarrow> None
      | Some orig \<Rightarrow>
          let k = min n (length (msg_data orig));
              data = poke (replicate n 0) 0 (take k (msg_data orig))
          in Some ((Message_init data (msg_type orig))\<lparr>msg_stream := msg_stream orig,
                     msg_reliability := msg_reliability orig, msg_frameInfo := msg_frameInfo orig\<rparr>))"

definition string_bytes :: "string \<Rightarrow> binary" where
  "string_bytes s = map of_char s"

definition bytes_string :: "binary \<Rightarrow> string" where
  "bytes_string b = map (\<lambda>x. char_of (unat x)) b"

definition make_message_variant :: "message_variant \<Rightarrow> Message" where
  "make_message_variant data =
     (case data of
        VBinary b \<Rightarrow> make_message b Binary 0 None None
      | VString s \<Rightarrow> make_message (string_bytes s) String 0 None None)"

definition to_variant :: "Message \<Rightarrow> message_variant" where
  "to_variant message =
     (case msg_type message of
        String \<Rightarrow> VString (bytes_string (msg_data message))
      | _ \<Rightarrow> VBinary (msg_data message))"

definition message_size_func :: "Message \<Rightarrow> u64" where
  "message_size_func m =
     (if msg_type m = Binary \<or> msg_type m = String then of_nat (length (msg_data m)) else 0)"

lemma unat_of_char: "unat (of_char c :: u8) = of_char c"
proof -
  have "(of_char c :: nat) < 256" by (cases c) (simp add: of_char_def)
  moreover have "(of_char c :: u8) = of_nat (of_char c)" by (cases c) simp
  ultimately show ?thesis by (simp add: unat_of_nat)
qed

lemma bytes_string_string_bytes [simp]: "bytes_string (string_bytes s) = s"
  by (simp add: bytes_string_def string_bytes_def o_def unat_of_char)

lemma of_char_char_of_u8: "of_char (char_of (unat b)) = (b :: u8)"
proof -
  have "unat (of_char (char_of (unat b)) :: u8) = unat b"
    using unat_bound(1) [of b] by (simp add: unat_of_char)
  then show ?thesis by (simp add: word_unat_eq_iff)
qed

lemma string_bytes_bytes_string [simp]: "string_bytes (bytes_string b) = b"
  by (simp add: bytes_string_def string_bytes_def o_def of_char_char_of_u8)

lemma length_bytes_string [simp]:
  "length (bytes_string b) = length b" "length (string_bytes s) = length s"
  by (simp_all add: bytes_string_def string_bytes_def)

lemma make_message_data [simp]: "msg_data (make_message d t s r f) = d" "msg_type (make_message d t s r f) = t"
  "msg_stream (make_message d t s r f) = s" "msg_frameInfo (make_message d t s r f) = f"
  by (simp_all add: make_message_def Message_init_def)

lemma to_variant_make_message: "to_variant (make_message_variant v) = v"
  by (cases v) (simp_all add: to_variant_def make_message_variant_def)

text \<open>Shrinking keeps a prefix, growing appends zeros.\<close>

lemma make_message_resized_data:
  "make_message_resized n (Some m) = Some m' \<Longrightarrow>
     msg_data m' = take n (msg_data m) @ replicate (n - length (msg_data m)) 0 \<and> msg_type m' = msg_type m"
  by (auto simp: make_message_resized_def Message_init_def poke_def min_def Let_def)

section \<open>The queue\<close>

record 'a Queue =
  mLimit :: nat
  mAmount :: u64
  mQueue :: "'a list"
  mAmountFunction :: "'a \<Rightarrow> u64"
  mStopping :: bool

definition Queue_init :: "nat \<Rightarrow> ('a \<Rightarrow> u64) option \<Rightarrow> 'a Queue" where
  "Queue_init limit func = \<lparr>mLimit = limit, mAmount = 0, mQueue = [],
     mAmountFunction = (case func of Some f \<Rightarrow> f | None \<Rightarrow> (\<lambda>_. 1)), mStopping = False\<rparr>"

definition Queue_stop :: "'a Queue \<Rightarrow> 'a Queue" where
  "Queue_stop q = q\<lparr>mStopping := True\<rparr>"

definition Queue_running :: "'a Queue \<Rightarrow> bool" where
  "Queue_running q \<longleftrightarrow> mQueue q \<noteq> [] \<or> \<not> mStopping q"

definition Queue_empty :: "'a Queue \<Rightarrow> bool" where
  "Queue_empty q \<longleftrightarrow> mQueue q = []"

definition Queue_full :: "'a Queue \<Rightarrow> bool" where
  "Queue_full q \<longleftrightarrow> mLimit q > 0 \<and> length (mQueue q) \<ge> mLimit q"

definition Queue_size :: "'a Queue \<Rightarrow> nat" where
  "Queue_size q = length (mQueue q)"

definition Queue_amount :: "'a Queue \<Rightarrow> u64" where
  "Queue_amount q = mAmount q"

definition Queue_push :: "'a \<Rightarrow> 'a Queue \<Rightarrow> 'a Queue option" where
  "Queue_push element q =
     (if \<not> (mLimit q = 0 \<or> length (mQueue q) < mLimit q \<or> mStopping q) then None
      else if mStopping q then Some q
      else Some (q\<lparr>mAmount := mAmount q + mAmountFunction q element, mQueue := mQueue q @ [element]\<rparr>))"

definition Queue_pop :: "'a Queue \<Rightarrow> 'a option \<times> 'a Queue" where
  "Queue_pop q =
     (case mQueue q of
        [] \<Rightarrow> (None, q)
      | x # xs \<Rightarrow> (Some x, q\<lparr>mAmount := mAmount q - mAmountFunction q x, mQueue := xs\<rparr>))"

definition Queue_peek :: "'a Queue \<Rightarrow> 'a option" where
  "Queue_peek q = (case mQueue q of [] \<Rightarrow> None | x # _ \<Rightarrow> Some x)"

definition Queue_exchange :: "'a \<Rightarrow> 'a Queue \<Rightarrow> 'a option \<times> 'a Queue" where
  "Queue_exchange element q =
     (case mQueue q of
        [] \<Rightarrow> (None, q)
      | x # xs \<Rightarrow> (Some x, q\<lparr>mQueue := element # xs\<rparr>))"

section \<open>The interface of a queue\<close>

datatype 'a queue_op = Put 'a | Get

fun puts :: "'a queue_op list \<Rightarrow> 'a list" where
  "puts [] = []"
| "puts (Put x # ops) = x # puts ops"
| "puts (Get # ops) = puts ops"

text \<open>\<open>run\<close> executes a history of calls; it stops with \<open>None\<close> where a call would block.\<close>

fun run_queue ::
  "('a \<Rightarrow> 'q \<Rightarrow> 'q option) \<Rightarrow> ('q \<Rightarrow> 'a option \<times> 'q) \<Rightarrow> 'a queue_op list \<Rightarrow> 'q \<Rightarrow> ('a list \<times> 'q) option" where
  "run_queue put get [] q = Some ([], q)"
| "run_queue put get (Put x # ops) q =
     (case put x q of None \<Rightarrow> None | Some q' \<Rightarrow> run_queue put get ops q')"
| "run_queue put get (Get # ops) q =
     (case get q of (r, q') \<Rightarrow>
        map_option (\<lambda>(out, q''). (case r of None \<Rightarrow> out | Some x \<Rightarrow> x # out, q'')) (run_queue put get ops q'))"

locale fifo =
  fixes contents :: "'q \<Rightarrow> 'a list"
    and accepting :: "'q \<Rightarrow> bool"
    and inv :: "'q \<Rightarrow> bool"
    and put :: "'a \<Rightarrow> 'q \<Rightarrow> 'q option"
    and get :: "'q \<Rightarrow> 'a option \<times> 'q"
  assumes put_accepting: "inv q \<Longrightarrow> accepting q \<Longrightarrow> put x q = Some q' \<Longrightarrow>
      contents q' = contents q @ [x] \<and> accepting q' \<and> inv q'"
    and put_stopped: "inv q \<Longrightarrow> \<not> accepting q \<Longrightarrow> put x q = Some q' \<Longrightarrow> q' = q"
    and get_empty: "inv q \<Longrightarrow> contents q = [] \<Longrightarrow> get q = (None, q)"
    and get_Cons: "inv q \<Longrightarrow> contents q = x # xs \<Longrightarrow>
      \<exists>q'. get q = (Some x, q') \<and> contents q' = xs \<and> accepting q' = accepting q \<and> inv q'"
begin

text \<open>Whatever the interleaving of calls, what came out followed by what is still inside is what was
  inside followed by what was put: nothing is lost, duplicated or reordered.\<close>

lemma delivery:
  "inv q \<Longrightarrow> run_queue put get ops q = Some (out, q') \<Longrightarrow>
     inv q' \<and> out @ contents q' = contents q @ (if accepting q then puts ops else [])"
proof (induction ops arbitrary: q out)
  case Nil
  then show ?case by simp
next
  case (Cons op ops)
  show ?case
  proof (cases op)
    case (Put x)
    then obtain q1 where "put x q = Some q1" "run_queue put get ops q1 = Some (out, q')"
      using Cons.prems by (auto split: option.splits)
    then show ?thesis
      using Put Cons.IH Cons.prems put_accepting [of q x q1] put_stopped [of q x q1] by (cases "accepting q") auto
  next
    case Get
    show ?thesis
    proof (cases "contents q")
      case Nil
      then show ?thesis using Get Cons by (auto simp: get_empty)
    next
      fix x xs assume c: "contents q = x # xs"
      then obtain q1 where "get q = (Some x, q1)" "contents q1 = xs" "accepting q1 = accepting q" "inv q1"
        using get_Cons Cons.prems by blast
      then show ?thesis using Get Cons c by fastforce
    qed
  qed
qed

lemma in_order:
  assumes "inv q" and "accepting q" and "run_queue put get ops q = Some (out, q')"
  shows "out @ contents q' = contents q @ puts ops" and "inv q'"
  using delivery [OF assms(1,3)] assms(2) by simp_all

lemma stopped_drops:
  "inv q \<Longrightarrow> \<not> accepting q \<Longrightarrow> run_queue put get ops q = Some (out, q') \<Longrightarrow> out @ contents q' = contents q"
  using delivery by force

end

section \<open>The amount of the queue\<close>

definition Queue_inv :: "'a Queue \<Rightarrow> bool" where
  "Queue_inv q \<longleftrightarrow> mAmount q = sum_list (map (mAmountFunction q) (mQueue q)) \<and>
     (mLimit q = 0 \<or> length (mQueue q) \<le> mLimit q)"

lemma Queue_inv_init: "Queue_inv (Queue_init limit func)"
  by (simp add: Queue_inv_def Queue_init_def)

lemma Queue_inv_stop: "Queue_inv q \<Longrightarrow> Queue_inv (Queue_stop q)"
  by (simp add: Queue_inv_def Queue_stop_def)

lemma Queue_inv_push: "Queue_inv q \<Longrightarrow> Queue_push x q = Some q' \<Longrightarrow> Queue_inv q'"
  by (auto simp: Queue_inv_def Queue_push_def split: if_splits)

lemma Queue_inv_pop: "Queue_inv q \<Longrightarrow> Queue_inv (snd (Queue_pop q))"
  by (auto simp: Queue_inv_def Queue_pop_def split: list.splits)

lemma Queue_inv_exchange:
  assumes "Queue_inv q" and "mQueue q = x # xs"
  shows "Queue_inv (snd (Queue_exchange e q)) \<longleftrightarrow> mAmountFunction q e = mAmountFunction q x"
  using assms by (auto simp: Queue_inv_def Queue_exchange_def)

interpretation queue: fifo mQueue "\<lambda>q. \<not> mStopping q" Queue_inv Queue_push Queue_pop
proof
  fix q q' :: "'a Queue" and x xs
  show "Queue_inv q \<Longrightarrow> \<not> mStopping q \<Longrightarrow> Queue_push x q = Some q' \<Longrightarrow>
      mQueue q' = mQueue q @ [x] \<and> \<not> mStopping q' \<and> Queue_inv q'"
    using Queue_inv_push [of q x q'] by (auto simp: Queue_push_def split: if_splits)
  show "mQueue q = x # xs \<Longrightarrow> Queue_inv q \<Longrightarrow>
      \<exists>q'. Queue_pop q = (Some x, q') \<and> mQueue q' = xs \<and> (\<not> mStopping q') = (\<not> mStopping q) \<and> Queue_inv q'"
    using Queue_inv_pop [of q] by (auto simp: Queue_pop_def)
qed (auto simp: Queue_push_def Queue_pop_def split: if_splits)



end
