(* ===== verification/NackResponder.thy ===== *)
theory NackResponder
  imports Rtcp Messages
begin

text \<open>
  Retransmission on request: \<open>include/rtc/rtcpnackresponder.hpp\<close>, \<open>src/rtcpnackresponder.cpp\<close>. The
  storage keeps a linked list of elements, from \<open>oldest\<close> to \<open>newest\<close>, and a hash map from sequence numbers to
  elements. The linked list is a list here (its head is \<open>oldest\<close>, its last element \<open>newest\<close>), the hash map an
  association list without an order of its own: \<open>emplace\<close> does nothing when the key is present. The
  assertions of the code are compiled out. Messages given to the send callback are the returned list.

  The interface \<open>packet_store\<close> is what a retransmission handler relies on: what can be looked up after packets have
  been stored. The storage provides it for streams that do not repeat a sequence number too early.
\<close>

section \<open>Storage\<close>

record Element =
  el_packet :: binary
  el_sequenceNumber :: u16

record Storage =
  st_list :: "Element list"
  st_storage :: "(u16 \<times> Element) list"
  st_maxSize :: nat

definition DefaultMaxSize :: nat where "DefaultMaxSize = 512"

definition Storage_init :: "nat \<Rightarrow> Storage" where
  "Storage_init maxSize = \<lparr>st_list = [], st_storage = [], st_maxSize = maxSize\<rparr>"

definition Storage_size :: "Storage \<Rightarrow> nat" where
  "Storage_size s = length (st_storage s)"

definition Storage_get :: "u16 \<Rightarrow> Storage \<Rightarrow> binary option" where
  "Storage_get sequenceNumber s = map_option el_packet (map_of (st_storage s) sequenceNumber)"

definition emplace :: "u16 \<Rightarrow> Element \<Rightarrow> (u16 \<times> Element) list \<Rightarrow> (u16 \<times> Element) list" where
  "emplace k e m = (if map_of m k = None then (k, e) # m else m)"

definition Storage_evict :: "Storage \<Rightarrow> Storage" where
  "Storage_evict s =
     (if Storage_size s > st_maxSize s then
        case st_list s of
          [] \<Rightarrow> s
        | e # es \<Rightarrow> s\<lparr>st_storage := filter (\<lambda>(k, _). k \<noteq> el_sequenceNumber e) (st_storage s), st_list := es\<rparr>
      else s)"

definition Storage_store :: "binary \<Rightarrow> Storage \<Rightarrow> Storage" where
  "Storage_store packet s =
     (if length packet < 12 then s
      else let sequenceNumber = RtpHeader_seqNumber (RtpHeader_dec packet);
               current = \<lparr>el_packet = packet, el_sequenceNumber = sequenceNumber\<rparr>;
               s = s\<lparr>st_list := (if Storage_size s = 0 then [current] else st_list s @ [current])\<rparr>;
               s = s\<lparr>st_storage := emplace sequenceNumber current (st_storage s)\<rparr>
           in Storage_evict s)"

section \<open>The handler\<close>

text \<open>The sequence numbers of the parts of a NACK whose parts begin at \<open>off\<close>. The counter and the number of parts are
  32-bit words, as in the code.\<close>

function nack_fields :: "binary \<Rightarrow> nat \<Rightarrow> u32 \<Rightarrow> u32 \<Rightarrow> u16 list result" where
  "nack_fields buf off i fieldsCount =
     (if i < fieldsCount then
        if off + 4 \<le> length buf then
          bind_result (nack_fields buf (off + 4) (i + 1) fieldsCount) (\<lambda>seqs.
            Inr (RtcpNackPart_getSequenceNumbers (RtcpNackPart_dec (drop off buf)) @ seqs))
        else Inl OutOfBounds
      else Inr [])"
  by auto
termination
proof (relation "measure (\<lambda>(buf, off, i, n). unat n - unat i)", goal_cases)
  case (2 buf off i n)
  have "unat i < unat n" using 2(1) by (simp add: word_less_nat_alt)
  moreover have "unat (i + 1) = unat i + 1"
    using calculation unsigned_less [of n, where 'a = nat] by (simp add: unat_word_ariths)
  ultimately show ?case by simp
qed simp

declare nack_fields.simps [simp del]

function nack_loop :: "binary \<Rightarrow> Storage \<Rightarrow> nat \<Rightarrow> Message list result" where
  "nack_loop buf s p =
     (if p + 16 \<le> length buf then
        let nack = RtcpFbHeader_dec (drop p buf);
            p' = p + RtcpHeader_lengthInBytes (fb_header nack)
        in if p' > length buf then Inr []
           else if RtcpHeader_payloadType (fb_header nack) \<noteq> 205 \<or> RtcpHeader_reportCount (fb_header nack) \<noteq> 1
           then nack_loop buf s p'
           else bind_result (nack_fields buf (p + 12) 0 (RtcpNack_getSeqNoCount nack)) (\<lambda>missing.
                bind_result (nack_loop buf s p') (\<lambda>rest.
                  Inr (map (\<lambda>b. make_message_variant (VBinary b)) (List.map_filter (\<lambda>n. Storage_get n s) missing) @ rest)))
      else Inr [])"
  by auto
termination
  by (relation "measure (\<lambda>(buf, s, p). length buf - p)") (auto simp: RtcpHeader_lengthInBytes_def)

declare nack_loop.simps [simp del]

fun RtcpNackResponder_incoming :: "Message list \<Rightarrow> Storage \<Rightarrow> Message list result" where
  "RtcpNackResponder_incoming [] s = Inr []"
| "RtcpNackResponder_incoming (message # messages) s =
     (if msg_type message \<noteq> Control then RtcpNackResponder_incoming messages s
      else bind_result (nack_loop (msg_data message) s 0) (\<lambda>sent.
           bind_result (RtcpNackResponder_incoming messages s) (\<lambda>rest. Inr (sent @ rest))))"

definition RtcpNackResponder_outgoing :: "Message list \<Rightarrow> Storage \<Rightarrow> Storage" where
  "RtcpNackResponder_outgoing messages s =
     fold (\<lambda>message s. if msg_type message \<noteq> Control then Storage_store (msg_data message) s else s) messages s"

section \<open>The storage keeps the last packets\<close>

locale packet_store =
  fixes empty_store :: 's and store :: "'p \<Rightarrow> 's \<Rightarrow> 's" and get :: "'k \<Rightarrow> 's \<Rightarrow> 'p option"
    and holds :: "'s \<Rightarrow> 'p list \<Rightarrow> bool" and key :: "'p \<Rightarrow> 'k" and valid :: "'p \<Rightarrow> bool" and limit :: nat
  assumes holds_empty: "holds empty_store []"
    and holds_store: "holds s w \<Longrightarrow> valid p \<Longrightarrow> key p \<notin> key ` set w \<Longrightarrow>
      holds (store p s) (drop (Suc (length w) - limit) (w @ [p]))"
    and get_holds: "holds s w \<Longrightarrow> get k s = map_of (map (\<lambda>p. (key p, p)) w) k"
begin

definition spaced :: "'p list \<Rightarrow> bool" where
  "spaced ps \<longleftrightarrow> (\<forall>i j. i < j \<and> j < length ps \<and> j - i \<le> limit \<longrightarrow> key (ps ! i) \<noteq> key (ps ! j))"

lemma spaced_snoc:
  assumes "spaced (ps @ [p])"
  shows "spaced ps" and "key p \<notin> key ` set (drop (length ps - limit) ps)"
proof -
  show "spaced ps" unfolding spaced_def
  proof (intro allI impI)
    fix i j assume "i < j \<and> j < length ps \<and> j - i \<le> limit"
    then show "key (ps ! i) \<noteq> key (ps ! j)"
      using assms [unfolded spaced_def, rule_format, of i j] by (simp add: nth_append)
  qed
  show "key p \<notin> key ` set (drop (length ps - limit) ps)"
  proof
    assume "key p \<in> key ` set (drop (length ps - limit) ps)"
    then obtain q where "q \<in> set (drop (length ps - limit) ps)" "key q = key p"
      by force
    then obtain j where "j < length ps - (length ps - limit)" "key (ps ! (length ps - limit + j)) = key p"
      by (auto simp: in_set_conv_nth)
    moreover from this have "length ps - limit + j < length ps" "length ps - (length ps - limit + j) \<le> limit"
      by arith+
    ultimately show False
      using assms [unfolded spaced_def, rule_format, of "length ps - limit + j" "length ps"] by (simp add: nth_append)
  qed
qed

lemma holds_last:
  assumes "spaced ps" and "\<forall>p \<in> set ps. valid p"
  shows "holds (fold store ps empty_store) (drop (length ps - limit) ps)"
  using assms
proof (induction ps rule: rev_induct)
  case Nil
  then show ?case by (simp add: holds_empty)
next
  case (snoc p ps)
  let ?w = "drop (length ps - limit) ps"
  have "holds (store p (fold store ps empty_store)) (drop (Suc (length ?w) - limit) (?w @ [p]))"
    using snoc spaced_snoc [of ps p] by (intro holds_store) simp_all
  moreover have "drop (Suc (length ?w) - limit) (?w @ [p]) = drop (length (ps @ [p]) - limit) (ps @ [p])"
    by (cases "length ps < limit") (simp_all add: Suc_diff_le)
  ultimately show ?case by simp
qed

lemma get_last:
  assumes "spaced ps" and "\<forall>p \<in> set ps. valid p"
  shows "get k (fold store ps empty_store) = map_of (map (\<lambda>p. (key p, p)) (drop (length ps - limit) ps)) k"
  by (rule get_holds [OF holds_last [OF assms]])

end

definition packet_seq :: "binary \<Rightarrow> u16" where
  "packet_seq p = RtpHeader_seqNumber (RtpHeader_dec p)"

definition packet_element :: "binary \<Rightarrow> Element" where
  "packet_element p = \<lparr>el_packet = p, el_sequenceNumber = packet_seq p\<rparr>"

lemma el_packet_element [simp]: "el_packet (packet_element p) = p" "el_sequenceNumber (packet_element p) = packet_seq p"
  by (simp_all add: packet_element_def)

definition Storage_holds :: "nat \<Rightarrow> Storage \<Rightarrow> binary list \<Rightarrow> bool" where
  "Storage_holds n s w \<longleftrightarrow> st_maxSize s = n \<and> length w \<le> n \<and> distinct (map packet_seq w) \<and>
     st_list s = map packet_element w \<and> st_storage s = rev (map (\<lambda>p. (packet_seq p, packet_element p)) w)"

lemma map_of_rev_packets:
  "distinct (map packet_seq w) \<Longrightarrow>
    map_of (rev (map (\<lambda>p. (packet_seq p, packet_element p)) w)) k = map_option packet_element (map_of (map (\<lambda>p. (packet_seq p, p)) w) k)"
  by (induction w) (auto simp: map_add_def split: option.splits dest!: map_of_SomeD)

interpretation storage: packet_store "Storage_init n" Storage_store Storage_get "Storage_holds n" packet_seq
  "\<lambda>p. 12 \<le> length p" n for n
proof
  show "Storage_holds n (Storage_init n) []"
    by (simp add: Storage_holds_def Storage_init_def)
next
  fix s w p
  assume h: "Storage_holds n s w" and p: "12 \<le> length p" "packet_seq p \<notin> packet_seq ` set w"
  show "Storage_holds n (Storage_store p s) (drop (Suc (length w) - n) (w @ [p]))"
  proof (cases "length w < n")
    case True
    with h p show ?thesis
      by (auto simp: Storage_holds_def Storage_store_def Storage_evict_def Storage_size_def emplace_def Let_def
          map_of_rev_packets map_of_eq_None_iff packet_element_def packet_seq_def)
  next
    case False
    with h have n: "length w = n" by (simp add: Storage_holds_def)
    show ?thesis
    proof (cases w)
      case Nil
      with h p n show ?thesis
        by (simp add: Storage_holds_def Storage_store_def Storage_evict_def Storage_size_def emplace_def Let_def)
    next
      case (Cons a w')
      have keep: "filter (\<lambda>(k, _). k \<noteq> packet_seq a) (rev (map (\<lambda>p. (packet_seq p, packet_element p)) w')) =
          rev (map (\<lambda>p. (packet_seq p, packet_element p)) w')"
        using h Cons by (intro filter_True) (fastforce simp: Storage_holds_def)
      have new: "map_of (rev (map (\<lambda>p. (packet_seq p, packet_element p)) w)) (packet_seq p) = None"
        using p(2) by (auto simp: map_of_eq_None_iff)
      have "packet_seq p \<noteq> packet_seq a" using p(2) Cons by auto
      then show ?thesis
        using h p n Cons keep new
        by (simp add: Storage_holds_def Storage_store_def Storage_evict_def Storage_size_def emplace_def Let_def
            packet_element_def flip: packet_seq_def)
    qed
  qed
next
  fix s w k
  assume "Storage_holds n s w"
  then show "Storage_get k s = map_of (map (\<lambda>p. (packet_seq p, p)) w) k"
    by (simp add: Storage_holds_def Storage_get_def map_of_rev_packets option.map_comp comp_def option.map_ident)
qed

section \<open>Retransmission\<close>

lemma nack_fields_parts:
  assumes "length pre = off" and "unat i + length parts = unat n"
  shows "nack_fields (pre @ concat (map RtcpNackPart_enc parts) @ post) off i n =
    Inr (concat (map RtcpNackPart_getSequenceNumbers parts))"
  using assms
proof (induction parts arbitrary: pre off i)
  case Nil
  then have "i = n" by (simp add: word_unat_eq_iff)
  then show ?case by (simp add: nack_fields.simps)
next
  case (Cons p parts)
  have less: "i < n" using Cons.prems(2) by (simp add: word_less_nat_alt)
  have "unat (i + 1) = unat i + 1"
    using Cons.prems(2) unsigned_less [of n, where 'a = nat] by (simp add: unat_word_ariths)
  then have "nack_fields ((pre @ RtcpNackPart_enc p) @ concat (map RtcpNackPart_enc parts) @ post) (off + 4) (i + 1) n =
      Inr (concat (map RtcpNackPart_getSequenceNumbers parts))"
    using Cons.prems by (intro Cons.IH) (simp_all add: nackpart.length_enc)
  then show ?case
    using less Cons.prems(1) by (subst nack_fields.simps) (simp add: nackpart.length_enc nackpart.dec_enc)
qed

lemma nack_loop_end: "length buf < p + 16 \<Longrightarrow> nack_loop buf s p = Inr []"
  by (simp add: nack_loop.simps)

lemma nack_loop_packet:
  fixes parts :: "RtcpNackPart list" and f :: RtcpFbHeader and ssrc :: u32
  assumes "parts \<noteq> []" and "length parts \<le> 65533"
  defines "hdr \<equiv> RtcpNack_preparePacket ssrc (of_nat (length parts)) f"
  shows "nack_loop (RtcpFbHeader_enc hdr @ concat (map RtcpNackPart_enc parts)) s 0 =
    Inr (map (\<lambda>b. make_message_variant (VBinary b))
      (List.map_filter (\<lambda>n. Storage_get n s) (concat (map RtcpNackPart_getSequenceNumbers parts))))"
proof -
  let ?buf = "RtcpFbHeader_enc hdr @ concat (map RtcpNackPart_enc parts)"
  have u: "unat (of_nat (length parts) :: u32) = length parts"
    using assms(2) by (simp add: unat_of_nat)
  have len: "length ?buf = 12 + 4 * length parts"
    by (simp add: fb.length_enc nackpart.length_enc length_concat comp_def sum_list_triv)
  have hdr: "fb_header hdr = RtcpHeader_prepareHeader 205 1 (2 + ucast (of_nat (length parts) :: u32)) (fb_header f)"
    by (simp add: hdr_def RtcpNack_preparePacket_def RtcpFbHeader_setPacketSenderSSRC_def RtcpFbHeader_setMediaSourceSSRC_def)
  have l: "unat (RtcpHeader_length (fb_header hdr)) = 2 + length parts"
    using u assms(2) by (simp add: hdr unat_word_ariths unat_ucast)
  then have "unat (ucast (RtcpHeader_length (fb_header hdr)) :: u32) = 2 + length parts"
    using assms(2) by (simp add: unat_ucast)
  then have cnt: "unat (RtcpNack_getSeqNoCount hdr) = length parts"
    unfolding RtcpNack_getSeqNoCount_def by (subst unat_sub) (simp_all add: word_le_nat_alt)
  have bytes: "RtcpHeader_lengthInBytes (fb_header hdr) = length ?buf"
    using l len by (simp add: RtcpHeader_lengthInBytes_def)
  have "nack_fields ?buf 12 0 (RtcpNack_getSeqNoCount hdr) = Inr (concat (map RtcpNackPart_getSequenceNumbers parts))"
    using nack_fields_parts [of "RtcpFbHeader_enc hdr" 12 0 parts "RtcpNack_getSeqNoCount hdr" "[]"] cnt
    by (simp add: fb.length_enc)
  moreover have "RtcpHeader_payloadType (fb_header hdr) = 205" "RtcpHeader_reportCount (fb_header hdr) = 1"
    by (simp_all add: hdr)
  moreover have "4 \<le> 4 * length parts" using assms(1) by (cases parts) auto
  ultimately show ?thesis
    using len by (subst nack_loop.simps) (simp add: fb.dec_enc bytes nack_loop_end Let_def)
qed

lemma RtcpNackResponder_outgoing_store:
  "\<forall>m \<in> set ms. msg_type m \<noteq> Control \<Longrightarrow>
    RtcpNackResponder_outgoing ms s = fold Storage_store (map msg_data ms) s"
  unfolding RtcpNackResponder_outgoing_def by (induction ms arbitrary: s) simp_all

lemma responder_answers:
  fixes parts :: "RtcpNackPart list" and f :: RtcpFbHeader and ssrc :: u32 and ms :: "Message list" and maxSize :: nat
  assumes "\<forall>m \<in> set ms. msg_type m \<noteq> Control \<and> 12 \<le> length (msg_data m)"
    and "\<forall>i j. i < j \<and> j < length ms \<and> j - i \<le> maxSize \<longrightarrow> packet_seq (msg_data (ms ! i)) \<noteq> packet_seq (msg_data (ms ! j))"
    and "parts \<noteq> []" and "length parts \<le> 65533"
  defines "nack \<equiv> make_message (RtcpFbHeader_enc (RtcpNack_preparePacket ssrc (of_nat (length parts)) f) @
      concat (map RtcpNackPart_enc parts)) Control 0 None None"
  shows "RtcpNackResponder_incoming [nack] (RtcpNackResponder_outgoing ms (Storage_init maxSize)) =
    Inr (map (\<lambda>b. make_message b Binary 0 None None)
      (List.map_filter (map_of (map (\<lambda>m. (packet_seq (msg_data m), msg_data m)) (drop (length ms - maxSize) ms)))
        (concat (map RtcpNackPart_getSequenceNumbers parts))))"
proof -
  let ?s = "fold Storage_store (map msg_data ms) (Storage_init maxSize)"
  have "storage.spaced maxSize (map msg_data ms)"
    using assms(2) by (simp add: storage.spaced_def)
  then have get: "Storage_get k ?s = map_of (map (\<lambda>m. (packet_seq (msg_data m), msg_data m)) (drop (length ms - maxSize) ms)) k" for k
    using storage.get_last [of maxSize "map msg_data ms" k] assms(1) by (simp add: drop_map comp_def)
  have "RtcpNackResponder_outgoing ms (Storage_init maxSize) = ?s"
    using assms(1) by (intro RtcpNackResponder_outgoing_store) blast
  then show ?thesis
    using nack_loop_packet [OF assms(3,4), of ssrc f ?s]
    by (simp add: nack_def make_message_variant_def get make_message_def Message_init_def)
qed

text \<open>C29. Retransmission end to end. After any number of RTP packets went out through the responder, none of whose sequence
  numbers was used within the last \<open>maxSize\<close> packets before it, a NACK prepared for any parts is answered with
  exactly the requested packets that are among the last \<open>maxSize\<close> ones, byte for byte and in the order of the
  request; older and unknown sequence numbers are skipped.\<close>

theorem nack_responder_retransmits:
  fixes parts :: "RtcpNackPart list" and f :: RtcpFbHeader and ssrc :: u32 and ms :: "Message list" and maxSize :: nat
  assumes "\<forall>m \<in> set ms. msg_type m \<noteq> Control \<and> 12 \<le> length (msg_data m)"
    and "\<forall>i j. i < j \<and> j < length ms \<and> j - i \<le> maxSize \<longrightarrow> packet_seq (msg_data (ms ! i)) \<noteq> packet_seq (msg_data (ms ! j))"
    and "parts \<noteq> []" and "length parts \<le> 65533"
  defines "nack \<equiv> make_message (RtcpFbHeader_enc (RtcpNack_preparePacket ssrc (of_nat (length parts)) f) @
      concat (map RtcpNackPart_enc parts)) Control 0 None None"
  shows "RtcpNackResponder_incoming [nack] (RtcpNackResponder_outgoing ms (Storage_init maxSize)) =
    Inr (map (\<lambda>b. make_message b Binary 0 None None)
      (List.map_filter (map_of (map (\<lambda>m. (packet_seq (msg_data m), msg_data m)) (drop (length ms - maxSize) ms)))
        (concat (map RtcpNackPart_getSequenceNumbers parts))))"
  unfolding nack_def by (rule responder_answers [OF assms(1-4)])

theorem nack_responder_retransmits_witness:
  defines "pkt \<equiv> \<lambda>n. [0x80, 96, 0, n, 0, 0, 0, 0, 0, 0, 0, 0, n] :: binary"
  defines "ms \<equiv> map (\<lambda>n. make_message (pkt n) Binary 0 None None) [7, 8, 9]"
  defines "part \<equiv> \<lparr>nack_pid = htons 7, nack_blp = htons 3\<rparr>"
    and "f \<equiv> RtcpFbHeader_dec (replicate 12 0)"
  shows "RtcpNackResponder_incoming [make_message (RtcpFbHeader_enc (RtcpNack_preparePacket 5 1 f) @ RtcpNackPart_enc part) Control 0 None None]
      (RtcpNackResponder_outgoing ms (Storage_init 2)) =
    Inr [make_message (pkt 8) Binary 0 None None, make_message (pkt 9) Binary 0 None None]"
proof -
  have seq: "packet_seq (pkt 7) = 7" "packet_seq (pkt 8) = 8" "packet_seq (pkt 9) = 9"
    unfolding pkt_def by code_simp+
  have parts: "RtcpNackPart_getSequenceNumbers part = [7, 8, 9]"
    unfolding part_def by code_simp
  have "\<forall>i j. i < j \<and> j < length ms \<and> j - i \<le> 2 \<longrightarrow> packet_seq (msg_data (ms ! i)) \<noteq> packet_seq (msg_data (ms ! j))"
    by (auto simp: ms_def make_message_def Message_init_def less_Suc_eq numeral_3_eq_3 numeral_2_eq_2 seq)
  moreover have "\<forall>m \<in> set ms. msg_type m \<noteq> Control \<and> 12 \<le> length (msg_data m)"
    by (simp add: ms_def make_message_def Message_init_def pkt_def)
  ultimately show ?thesis
    using nack_responder_retransmits [of ms 2 "[part]" 5 f] parts seq
    by (simp add: ms_def make_message_def Message_init_def List.map_filter_def)
qed

lemma nack_fields_overrun:
  assumes "i < n" and "length buf < off + 4 * (unat n - unat i)"
  shows "nack_fields buf off i n = Inl OutOfBounds"
  using assms
proof (induction buf off i n rule: nack_fields.induct)
  case (1 buf off i n)
  have less: "unat i < unat n" using 1(2) by (simp add: word_less_nat_alt)
  have suc: "unat (i + 1) = unat i + 1"
    using less unsigned_less [of n, where 'a = nat] by (simp add: unat_word_ariths)
  show ?case
  proof (cases "off + 4 \<le> length buf")
    case True
    then have "i + 1 < n" "length buf < (off + 4) + 4 * (unat n - unat (i + 1))"
      using 1(3) less suc by (simp_all add: word_less_nat_alt)
    then show ?thesis using 1 True by (simp add: nack_fields.simps [of buf off i n])
  next
    case False
    then show ?thesis using 1(2) by (simp add: nack_fields.simps [of buf off i n])
  qed
qed

text \<open>C37. A NACK shorter than its own header crashes the responder: for a length field of 0 or 1 the number of parts is
  computed as a negative 32-bit number, and the loop reads parts until it leaves the message, whatever was stored.\<close>

theorem nack_length_underflow:
  assumes "16 \<le> length buf" and "length buf < 2 ^ 32" and "RtcpHeader_payloadType (RtcpHeader_dec buf) = 205"
    and "RtcpHeader_reportCount (RtcpHeader_dec buf) = 1" and "RtcpHeader_length (RtcpHeader_dec buf) < 2"
  shows "RtcpNackResponder_incoming (make_message buf Control 0 None None # messages) s = Inl OutOfBounds"
proof -
  let ?h = "RtcpHeader_dec buf" and ?n = "RtcpNack_getSeqNoCount (RtcpFbHeader_dec buf)"
  have h: "fb_header (RtcpFbHeader_dec buf) = ?h" by (simp add: RtcpFbHeader_dec_def)
  have "RtcpHeader_length ?h = 0 \<or> RtcpHeader_length ?h = 1"
    using assms(5) by (auto simp: word_less_nat_alt word_unat_eq_iff)
  then have n: "2 ^ 32 - 2 \<le> unat ?n"
    by (auto simp: RtcpNack_getSeqNoCount_def h unsigned_minus_1_eq_mask mask_eq_exp_minus_1)
  have "nack_fields buf 12 0 ?n = Inl OutOfBounds"
    by (rule nack_fields_overrun) (use n assms(2) in \<open>simp_all add: word_less_nat_alt\<close>)
  moreover have "RtcpHeader_lengthInBytes ?h \<le> 8"
    using assms(5) by (simp add: RtcpHeader_lengthInBytes_def word_less_nat_alt)
  ultimately have "nack_loop buf s 0 = Inl OutOfBounds"
    using assms by (subst nack_loop.simps) (simp add: h)
  then show ?thesis by (simp add: make_message_def Message_init_def)
qed

theorem nack_length_underflow_witness:
  defines "buf \<equiv> [0x81, 205, 0, 1, 0, 0, 0, 0, 0, 0, 0, 0, 0, 0, 0, 0] :: binary"
  shows "RtcpNackResponder_incoming [make_message buf Control 0 None None] (Storage_init DefaultMaxSize) = Inl OutOfBounds"
proof -
  have "RtcpHeader_payloadType (RtcpHeader_dec buf) = 205" "RtcpHeader_reportCount (RtcpHeader_dec buf) = 1"
    "RtcpHeader_length (RtcpHeader_dec buf) < 2"
    unfolding buf_def by code_simp+
  then show ?thesis
    using nack_length_underflow [of buf "[]" "Storage_init DefaultMaxSize"] by (simp add: buf_def)
qed

end
