(* ===== verification/Sdes.thy ===== *)
theory Sdes
  imports Rtcp
begin

text \<open>
  RTCP source descriptions: \<open>RtcpSdesItem\<close>, \<open>RtcpSdesChunk\<close> and \<open>RtcpSdes\<close> of \<open>src/rtp.cpp\<close>. These
  structs have no fixed size, so their methods work on the buffer and the address of the struct in
  it; pointers are offsets. A read past the end of the buffer is \<open>OutOfBounds\<close>.
\<close>

section \<open>Items and chunks\<close>

definition RtcpSdesItem_Size :: "nat \<Rightarrow> nat" where
  "RtcpSdesItem_Size textLength = textLength + 2"

definition RtcpSdesItem_text :: "nat \<Rightarrow> binary \<Rightarrow> binary" where
  "RtcpSdesItem_text item buf = take (unat (ld8 buf (item + 1))) (drop (item + 2) buf)"

definition RtcpSdesItem_setText :: "nat \<Rightarrow> binary \<Rightarrow> binary \<Rightarrow> binary result" where
  "RtcpSdesItem_setText item text buf =
     (if length text > 0xFF then Inl (InvalidArgument ''text is too long'')
      else if item + 2 + length text \<le> length buf
      then Inr (poke buf (item + 1) (of_nat (length text) # text))
      else Inl OutOfBounds)"

text \<open>The number of words is converted to \<open>uint8_t\<close>; the model truncates it as the usual
  conversion sequence does.\<close>

definition RtcpSdesChunk_Size :: "nat list \<Rightarrow> nat" where
  "RtcpSdesChunk_Size textLengths =
     (let itemsSize = sum_list (map RtcpSdesItem_Size textLengths);
          nullTerminatedItemsSize = itemsSize + 1;
          words = ((nullTerminatedItemsSize + 3) div 4) mod 256 + 1
      in words * 4)"

definition RtcpSdesChunk_ssrc :: "nat \<Rightarrow> binary \<Rightarrow> u32" where
  "RtcpSdesChunk_ssrc c buf = ntohl (ld32 buf c)"

definition RtcpSdesChunk_setSSRC :: "nat \<Rightarrow> u32 \<Rightarrow> binary \<Rightarrow> binary" where
  "RtcpSdesChunk_setSSRC c ssrc buf = poke buf c (bytes32 (htonl ssrc))"

text \<open>\<open>getItem\<close> walks from the first item; \<open>base\<close> is the address of the first item.\<close>

fun RtcpSdesChunk_getItem :: "binary \<Rightarrow> nat \<Rightarrow> nat \<Rightarrow> nat result" where
  "RtcpSdesChunk_getItem buf base 0 = Inr base"
| "RtcpSdesChunk_getItem buf base (Suc num) =
     (if base + 1 < length buf
      then RtcpSdesChunk_getItem buf (base + RtcpSdesItem_Size (unat (ld8 buf (base + 1)))) num
      else Inl OutOfBounds)"

text \<open>The loop of \<open>getSize\<close>: the text lengths of the items from address \<open>item\<close> up to the null type.
  The next item, \<open>getItem(++i)\<close>, lies \<open>Size(length)\<close> bytes behind the current one.\<close>

function RtcpSdesChunk_textLengths :: "binary \<Rightarrow> nat \<Rightarrow> nat list result" where
  "RtcpSdesChunk_textLengths buf item =
     (if item < length buf then
        if ld8 buf item = 0 then Inr []
        else if item + 1 < length buf then
          let len = unat (ld8 buf (item + 1))
          in (case RtcpSdesChunk_textLengths buf (item + RtcpSdesItem_Size len) of
                Inl e \<Rightarrow> Inl e
              | Inr ls \<Rightarrow> Inr (len # ls))
        else Inl OutOfBounds
      else Inl OutOfBounds)"
  by pat_completeness auto
termination
  by (relation "measure (\<lambda>(buf, item). length buf - item)") (auto simp: RtcpSdesItem_Size_def)

declare RtcpSdesChunk_textLengths.simps [simp del]

definition RtcpSdesChunk_getSize :: "binary \<Rightarrow> nat \<Rightarrow> nat result" where
  "RtcpSdesChunk_getSize buf c =
     bind_result (RtcpSdesChunk_textLengths buf (c + 4)) (\<lambda>ls. Inr (RtcpSdesChunk_Size ls))"

text \<open>The loop of \<open>safelyCountChunkSize\<close>. The variable \<open>size\<close> keeps its first value, the four bytes
  of the SSRC, in every round; \<open>None\<close> stands for the result \<open>-1\<close>.\<close>

function sdes_safeLengths :: "binary \<Rightarrow> nat \<Rightarrow> nat \<Rightarrow> nat list option result" where
  "sdes_safeLengths buf item maxChunkSize =
     (if item < length buf then
        if ld8 buf item = 0 then Inr (Some [])
        else if 4 + RtcpSdesItem_Size 0 > maxChunkSize then Inr None
        else if item + 1 < length buf then
          let itemLength = unat (ld8 buf (item + 1))
          in if 4 + RtcpSdesItem_Size itemLength \<ge> maxChunkSize then Inr None
             else (case sdes_safeLengths buf (item + RtcpSdesItem_Size itemLength) maxChunkSize of
                     Inl e \<Rightarrow> Inl e
                   | Inr None \<Rightarrow> Inr None
                   | Inr (Some ls) \<Rightarrow> Inr (Some (itemLength # ls)))
        else Inl OutOfBounds
      else Inl OutOfBounds)"
  by pat_completeness auto
termination
  by (relation "measure (\<lambda>(buf, item, m). length buf - item)") (auto simp: RtcpSdesItem_Size_def)

declare sdes_safeLengths.simps [simp del]

definition safelyCountChunkSize :: "binary \<Rightarrow> nat \<Rightarrow> nat \<Rightarrow> nat option result" where
  "safelyCountChunkSize buf c maxChunkSize =
     (if maxChunkSize < RtcpSdesChunk_Size [] then Inr None
      else bind_result (sdes_safeLengths buf (c + 4) maxChunkSize) (\<lambda>r.
        case r of
          None \<Rightarrow> Inr None
        | Some textsLength \<Rightarrow>
            let realSize = RtcpSdesChunk_Size textsLength
            in if realSize > maxChunkSize then Inr None else Inr (Some realSize)))"

section \<open>The packet\<close>

definition RtcpSdes_Size :: "nat list list \<Rightarrow> nat" where
  "RtcpSdes_Size lengths = 4 + sum_list (map RtcpSdesChunk_Size lengths)"

fun RtcpSdes_getChunk :: "binary \<Rightarrow> nat \<Rightarrow> nat \<Rightarrow> nat result" where
  "RtcpSdes_getChunk buf base 0 = Inr base"
| "RtcpSdes_getChunk buf base (Suc num) =
     (case RtcpSdesChunk_getSize buf base of
        Inl e \<Rightarrow> Inl e
      | Inr n \<Rightarrow> RtcpSdes_getChunk buf (base + n) num)"

lemma RtcpSdesChunk_Size_pos: "4 \<le> RtcpSdesChunk_Size ls"
  by (simp add: RtcpSdesChunk_Size_def Let_def)

lemma safelyCountChunkSize_pos:
  "safelyCountChunkSize buf c m = Inr (Some n) \<Longrightarrow> 4 \<le> n \<and> n \<le> m"
  by (auto simp: safelyCountChunkSize_def bind_result_Inr_iff Let_def RtcpSdesChunk_Size_pos
      split: if_splits option.splits)

lemma RtcpSdesChunk_getSize_pos: "RtcpSdesChunk_getSize buf c = Inr n \<Longrightarrow> 4 \<le> n"
  by (auto simp: RtcpSdesChunk_getSize_def bind_result_Inr_iff RtcpSdesChunk_Size_pos)

function sdes_validLoop :: "binary \<Rightarrow> nat \<Rightarrow> nat \<Rightarrow> nat \<Rightarrow> nat \<Rightarrow> bool result" where
  "sdes_validLoop buf p chunksSize i sz =
     (if sz < chunksSize then
        if chunksSize < sz + RtcpSdesChunk_Size [] then Inr False
        else (case RtcpSdes_getChunk buf (p + 4) i of
                Inl e \<Rightarrow> Inl e
              | Inr chunk \<Rightarrow>
                  (case safelyCountChunkSize buf chunk (chunksSize - sz) of
                     Inl e \<Rightarrow> Inl e
                   | Inr None \<Rightarrow> Inr False
                   | Inr (Some chunkSize) \<Rightarrow> sdes_validLoop buf p chunksSize (i + 1) (sz + chunkSize)))
      else Inr (sz = chunksSize))"
  by pat_completeness auto
termination
  by (relation "measure (\<lambda>(buf, p, chunksSize, i, sz). chunksSize - sz)")
     (auto dest: safelyCountChunkSize_pos)

declare sdes_validLoop.simps [simp del]

definition RtcpSdes_isValid :: "binary \<Rightarrow> nat \<Rightarrow> bool result" where
  "RtcpSdes_isValid buf p =
     (let chunksSize = RtcpHeader_lengthInBytes (overlay RtcpHeader_dec p buf) - 4
      in if chunksSize = 0 then Inr True else sdes_validLoop buf p chunksSize 0 0)"

function sdes_countLoop :: "binary \<Rightarrow> nat \<Rightarrow> nat \<Rightarrow> nat \<Rightarrow> nat \<Rightarrow> nat result" where
  "sdes_countLoop buf p chunksSize i sz =
     (if sz < chunksSize then
        (case RtcpSdes_getChunk buf (p + 4) i of
           Inl e \<Rightarrow> Inl e
         | Inr chunk \<Rightarrow>
             (case RtcpSdesChunk_getSize buf chunk of
                Inl e \<Rightarrow> Inl e
              | Inr n \<Rightarrow> sdes_countLoop buf p chunksSize (i + 1) (sz + n)))
      else Inr i)"
  by pat_completeness auto
termination
  by (relation "measure (\<lambda>(buf, p, chunksSize, i, sz). chunksSize - sz)")
     (auto dest: RtcpSdesChunk_getSize_pos)

declare sdes_countLoop.simps [simp del]

text \<open>\<open>chunksCount\<close> keeps the size of the chunks in a \<open>uint16_t\<close>.\<close>

definition RtcpSdes_chunksCount :: "binary \<Rightarrow> nat \<Rightarrow> nat result" where
  "RtcpSdes_chunksCount buf p =
     bind_result (RtcpSdes_isValid buf p) (\<lambda>valid.
       if \<not> valid then Inr 0
       else let chunksSize = (4 * (unat (RtcpHeader_length (overlay RtcpHeader_dec p buf)) + 1) - 4)
                               mod 65536
            in sdes_countLoop buf p chunksSize 0 0)"

fun sdes_sumChunks :: "binary \<Rightarrow> nat \<Rightarrow> nat \<Rightarrow> nat \<Rightarrow> nat result" where
  "sdes_sumChunks buf p i 0 = Inr 0"
| "sdes_sumChunks buf p i (Suc n) =
     bind_result (RtcpSdes_getChunk buf (p + 4) i) (\<lambda>c.
     bind_result (RtcpSdesChunk_getSize buf c) (\<lambda>s.
     bind_result (sdes_sumChunks buf p (i + 1) n) (\<lambda>t. Inr (s + t))))"

definition RtcpSdes_preparePacket :: "binary \<Rightarrow> nat \<Rightarrow> u8 \<Rightarrow> binary result" where
  "RtcpSdes_preparePacket buf p chunkCount =
     bind_result (sdes_sumChunks buf p 0 (unat chunkCount)) (\<lambda>chunkSize.
       let len = of_nat ((4 + chunkSize) div 4 - 1)
       in Inr (overlay_upd RtcpHeader_enc RtcpHeader_dec p
                 (RtcpHeader_prepareHeader 202 chunkCount len) buf))"

section \<open>Well-formed chunks\<close>

text \<open>The chunk RFC 3550 prescribes: SSRC, items of a non-null type, one to four null bytes up to the
  next word boundary.\<close>

definition sdes_item :: "u8 \<times> binary \<Rightarrow> binary" where
  "sdes_item it = fst it # of_nat (length (snd it)) # snd it"

definition sdes_item_ok :: "u8 \<times> binary \<Rightarrow> bool" where
  "sdes_item_ok it \<longleftrightarrow> fst it \<noteq> 0 \<and> length (snd it) \<le> 255"

definition sdes_items :: "(u8 \<times> binary) list \<Rightarrow> binary" where
  "sdes_items its = concat (map sdes_item its)"

definition sdes_chunk :: "u32 \<Rightarrow> (u8 \<times> binary) list \<Rightarrow> binary" where
  "sdes_chunk ssrc its = bytes32 (htonl ssrc) @ sdes_items its @
     replicate (4 - length (sdes_items its) mod 4) 0"

abbreviation item_lengths :: "(u8 \<times> binary) list \<Rightarrow> nat list" where
  "item_lengths its \<equiv> map (\<lambda>it. length (snd it)) its"

definition sdes_chunk_ok :: "(u8 \<times> binary) list \<Rightarrow> bool" where
  "sdes_chunk_ok its \<longleftrightarrow> (\<forall>it \<in> set its. sdes_item_ok it) \<and> length (sdes_items its) < 1020"

lemma length_sdes_items: "length (sdes_items its) = sum_list (map RtcpSdesItem_Size (item_lengths its))"
  by (induction its) (simp_all add: sdes_items_def sdes_item_def RtcpSdesItem_Size_def)

lemma length_sdes_chunk:
  assumes "sdes_chunk_ok its"
  shows "length (sdes_chunk ssrc its) = RtcpSdesChunk_Size (item_lengths its)"
proof -
  let ?n = "length (sdes_items its)"
  have "?n < 1020" using assms by (simp add: sdes_chunk_ok_def)
  then have "(?n + 4) div 4 < 256" by simp
  moreover have "4 + ?n + (4 - ?n mod 4) = ((?n + 4) div 4 + 1) * 4" by presburger
  moreover have "RtcpSdesChunk_Size (item_lengths its) = ((?n + 4) div 4 mod 256 + 1) * 4"
    by (simp only: RtcpSdesChunk_Size_def Let_def length_sdes_items [symmetric]) (simp add: add.commute)
  ultimately show ?thesis
    by (simp add: sdes_chunk_def)
qed

lemma length_sdes_chunk_ge: "8 \<le> length (sdes_chunk ssrc its)"
proof -
  have "4 \<le> n + (4 - n mod 4)" for n :: nat by presburger
  then show ?thesis by (simp add: sdes_chunk_def add.assoc)
qed

lemma ld8_append_at: "i = length p \<Longrightarrow> ld8 (p @ q) i = ld8 q 0"
  using ld8_drop [of "length p" "p @ q" 0] by simp

lemma ld8_append_at1: "i = Suc (length p) \<Longrightarrow> ld8 (p @ q) i = ld8 q 1"
  using ld8_drop [of "length p" "p @ q" 1] by simp

text \<open>Reading back a well-formed item list, with anything before and after it.\<close>

lemma textLengths_items:
  assumes "\<forall>it \<in> set its. sdes_item_ok it" and "item = length pre"
  shows "RtcpSdesChunk_textLengths (pre @ sdes_items its @ 0 # post) item = Inr (item_lengths its)"
  using assms
proof (induction its arbitrary: pre item)
  case Nil
  then show ?case
    by (simp add: RtcpSdesChunk_textLengths.simps [of _ "length pre"] sdes_items_def ld8_append_at)
next
  case (Cons it its)
  let ?b = "pre @ sdes_items (it # its) @ 0 # post"
  have ok: "fst it \<noteq> 0" "length (snd it) \<le> 255"
    using Cons.prems by (auto simp: sdes_item_ok_def)
  have b: "?b = (pre @ sdes_item it) @ sdes_items its @ 0 # post"
    by (simp add: sdes_items_def)
  have "RtcpSdesChunk_textLengths ?b (length (pre @ sdes_item it)) = Inr (item_lengths its)"
    unfolding b using Cons.prems by (intro Cons.IH) auto
  moreover have "ld8 ?b item = fst it" "ld8 ?b (Suc item) = of_nat (length (snd it))"
    using Cons.prems(2) by (simp_all add: sdes_items_def sdes_item_def ld8_append_at ld8_append_at1)
  moreover have "item + 1 < length ?b"
    using Cons.prems(2) by (simp add: sdes_items_def sdes_item_def)
  ultimately show ?case
    using ok Cons.prems(2) RtcpSdesChunk_textLengths.simps [of ?b item]
    by (simp add: sdes_item_def RtcpSdesItem_Size_def unat_of_nat)
qed

lemma safeLengths_items:
  assumes "\<forall>it \<in> set its. sdes_item_ok it" and "item = length pre"
    and "4 + length (sdes_items its) < m"
  shows "sdes_safeLengths (pre @ sdes_items its @ 0 # post) item m = Inr (Some (item_lengths its))"
  using assms
proof (induction its arbitrary: pre item)
  case Nil
  then show ?case
    by (simp add: sdes_safeLengths.simps [of _ "length pre"] sdes_items_def ld8_append_at)
next
  case (Cons it its)
  let ?b = "pre @ sdes_items (it # its) @ 0 # post"
  have ok: "fst it \<noteq> 0" "length (snd it) \<le> 255"
    using Cons.prems by (auto simp: sdes_item_ok_def)
  have b: "?b = (pre @ sdes_item it) @ sdes_items its @ 0 # post"
    by (simp add: sdes_items_def)
  have "sdes_safeLengths ?b (length (pre @ sdes_item it)) m = Inr (Some (item_lengths its))"
    unfolding b using Cons.prems by (intro Cons.IH) (auto simp: sdes_items_def)
  moreover have "ld8 ?b item = fst it" "ld8 ?b (Suc item) = of_nat (length (snd it))"
    using Cons.prems(2) by (simp_all add: sdes_items_def sdes_item_def ld8_append_at ld8_append_at1)
  moreover have "item + 1 < length ?b" "4 + length (snd it) + 2 < m"
    using Cons.prems(2,3) by (simp_all add: sdes_items_def sdes_item_def)
  ultimately show ?case
    using ok Cons.prems(2) sdes_safeLengths.simps [of ?b item m]
    by (simp add: sdes_item_def RtcpSdesItem_Size_def unat_of_nat)
qed

lemma sdes_chunk_split:
  "pre @ sdes_chunk ssrc its @ post =
     (pre @ bytes32 (htonl ssrc)) @ sdes_items its @ 0 # (replicate (3 - length (sdes_items its) mod 4) 0 @ post)"
proof -
  have "4 - length (sdes_items its) mod 4 = Suc (3 - length (sdes_items its) mod 4)"
    using mod_less_divisor [of 4 "length (sdes_items its)"] by simp
  then show ?thesis by (simp add: sdes_chunk_def)
qed

lemma getSize_chunk:
  assumes "sdes_chunk_ok its" and "c = length pre"
  shows "RtcpSdesChunk_getSize (pre @ sdes_chunk ssrc its @ post) c = Inr (length (sdes_chunk ssrc its))"
proof -
  have "RtcpSdesChunk_textLengths (pre @ sdes_chunk ssrc its @ post) (c + 4) = Inr (item_lengths its)"
    unfolding sdes_chunk_split using assms
    by (intro textLengths_items) (auto simp: sdes_chunk_ok_def)
  then show ?thesis
    using assms(1) by (simp add: RtcpSdesChunk_getSize_def length_sdes_chunk)
qed

lemma safelyCount_chunk:
  assumes "sdes_chunk_ok its" and "c = length pre" and "length (sdes_chunk ssrc its) \<le> m"
  shows "safelyCountChunkSize (pre @ sdes_chunk ssrc its @ post) c m =
    Inr (Some (length (sdes_chunk ssrc its)))"
proof -
  have lt: "4 + length (sdes_items its) < length (sdes_chunk ssrc its)"
    by (simp add: sdes_chunk_def)
  have "sdes_safeLengths (pre @ sdes_chunk ssrc its @ post) (c + 4) m = Inr (Some (item_lengths its))"
    unfolding sdes_chunk_split using assms lt
    by (intro safeLengths_items) (auto simp: sdes_chunk_ok_def)
  moreover have "RtcpSdesChunk_Size [] \<le> m"
    using assms(3) length_sdes_chunk_ge [of ssrc its] by (simp add: RtcpSdesChunk_Size_def)
  ultimately show ?thesis
    using assms(1,3) by (simp add: safelyCountChunkSize_def length_sdes_chunk)
qed

section \<open>Well-formed packets\<close>

definition sdes_chunks :: "(u32 \<times> (u8 \<times> binary) list) list \<Rightarrow> binary" where
  "sdes_chunks cs = concat (map (\<lambda>c. sdes_chunk (fst c) (snd c)) cs)"

lemma sdes_chunks_Cons: "sdes_chunks (c # cs) = sdes_chunk (fst c) (snd c) @ sdes_chunks cs"
  by (simp add: sdes_chunks_def)

lemma sdes_chunks_split:
  "i < length cs \<Longrightarrow> sdes_chunks cs =
     sdes_chunks (take i cs) @ sdes_chunk (fst (cs ! i)) (snd (cs ! i)) @ sdes_chunks (drop (Suc i) cs)"
  by (subst id_take_nth_drop [of i cs]) (simp_all add: sdes_chunks_def)

lemma getChunk_nth:
  assumes "\<forall>c \<in> set cs. sdes_chunk_ok (snd c)" and "i \<le> length cs" and "base = length pre"
  shows "RtcpSdes_getChunk (pre @ sdes_chunks cs @ post) base i =
    Inr (base + length (sdes_chunks (take i cs)))"
  using assms
proof (induction i arbitrary: cs pre base)
  case 0
  then show ?case by (simp add: sdes_chunks_def)
next
  case (Suc i)
  then obtain c cs' where cs: "cs = c # cs'" by (cases cs) auto
  let ?c = "sdes_chunk (fst c) (snd c)"
  have "RtcpSdesChunk_getSize (pre @ sdes_chunks cs @ post) base = Inr (length ?c)"
    using Suc.prems getSize_chunk [of "snd c" base pre "fst c"] by (simp add: cs sdes_chunks_Cons)
  moreover have "RtcpSdes_getChunk ((pre @ ?c) @ sdes_chunks cs' @ post) (base + length ?c) i =
      Inr (base + length ?c + length (sdes_chunks (take i cs')))"
    using Suc.prems by (intro Suc.IH) (auto simp: cs)
  ultimately show ?case by (simp add: cs sdes_chunks_Cons)
qed

lemma sdes_loops:
  fixes pre post :: binary and cs :: "(u32 \<times> (u8 \<times> binary) list) list"
  assumes ok: "\<forall>c \<in> set cs. sdes_chunk_ok (snd c)" and "i \<le> length cs" and "p + 4 = length pre"
  defines "tot \<equiv> length (sdes_chunks cs)" and "buf \<equiv> pre @ sdes_chunks cs @ post"
  shows "sdes_validLoop buf p tot i (length (sdes_chunks (take i cs))) = Inr True \<and>
    sdes_countLoop buf p tot i (length (sdes_chunks (take i cs))) = Inr (length cs)"
  using assms(2)
proof (induction "length cs - i" arbitrary: i)
  case 0
  then have "i = length cs" by simp
  then show ?case
    by (simp add: tot_def sdes_validLoop.simps [of buf p _ "length cs"]
        sdes_countLoop.simps [of buf p _ "length cs"])
next
  case (Suc k)
  then have i: "i < length cs" by simp
  let ?c = "sdes_chunk (fst (cs ! i)) (snd (cs ! i))" and ?sz = "length (sdes_chunks (take i cs))"
  have oki: "sdes_chunk_ok (snd (cs ! i))" using ok i by simp
  have len: "tot = ?sz + length ?c + length (sdes_chunks (drop (Suc i) cs))"
    unfolding tot_def by (subst sdes_chunks_split [OF i]) simp
  have next_sz: "length (sdes_chunks (take (Suc i) cs)) = ?sz + length ?c"
    using i by (simp add: sdes_chunks_def take_Suc_conv_app_nth)
  have b: "buf = (pre @ sdes_chunks (take i cs)) @ ?c @ (sdes_chunks (drop (Suc i) cs) @ post)"
    unfolding buf_def by (subst sdes_chunks_split [OF i]) simp
  have c: "RtcpSdes_getChunk buf (p + 4) i = Inr (p + 4 + ?sz)"
    unfolding buf_def using getChunk_nth [of cs i "p + 4" pre post] ok i assms(3) by simp
  have g: "RtcpSdesChunk_getSize buf (p + 4 + ?sz) = Inr (length ?c)"
    unfolding b using oki assms(3) by (intro getSize_chunk) auto
  have s: "safelyCountChunkSize buf (p + 4 + ?sz) (tot - ?sz) = Inr (Some (length ?c))"
    unfolding b using oki assms(3) len by (intro safelyCount_chunk) auto
  have "8 \<le> length ?c" by (rule length_sdes_chunk_ge)
  then have pos: "?sz < tot" "\<not> tot < ?sz + RtcpSdesChunk_Size []"
    using len by (auto simp: RtcpSdesChunk_Size_def Let_def)
  have "k = length cs - Suc i" "Suc i \<le> length cs" using Suc.hyps(2) i by auto
  from Suc.hyps(1) [OF this] show ?case
    using pos by (simp add: sdes_validLoop.simps [of buf p _ i] sdes_countLoop.simps [of buf p _ i]
        c g s next_sz)
qed

lemma sdes_sumChunks_eq:
  assumes ok: "\<forall>c \<in> set cs. sdes_chunk_ok (snd c)" and "p + 4 = length pre" and "i + n = length cs"
  shows "sdes_sumChunks (pre @ sdes_chunks cs @ post) p i n = Inr (length (sdes_chunks (drop i cs)))"
  using assms(3)
proof (induction n arbitrary: i)
  case 0
  then show ?case by (simp add: sdes_chunks_def)
next
  case (Suc n)
  then have i: "i < length cs" by simp
  let ?c = "sdes_chunk (fst (cs ! i)) (snd (cs ! i))" and ?buf = "pre @ sdes_chunks cs @ post"
  have c: "RtcpSdes_getChunk ?buf (p + 4) i = Inr (p + 4 + length (sdes_chunks (take i cs)))"
    using getChunk_nth [of cs i "p + 4" pre post] ok i assms(2) by simp
  have b: "?buf = (pre @ sdes_chunks (take i cs)) @ ?c @ (sdes_chunks (drop (Suc i) cs) @ post)"
    by (subst sdes_chunks_split [OF i]) simp
  have g: "RtcpSdesChunk_getSize ?buf (p + 4 + length (sdes_chunks (take i cs))) = Inr (length ?c)"
    unfolding b using ok i assms(2) by (intro getSize_chunk) auto
  have "sdes_sumChunks ?buf p (i + 1) n = Inr (length (sdes_chunks (drop (i + 1) cs)))"
    using Suc.prems by (intro Suc.IH) simp
  then show ?case
    using i by (simp add: c g flip: Cons_nth_drop_Suc) (simp add: sdes_chunks_Cons)
qed

lemma sdes_prepared:
  fixes cs :: "(u32 \<times> (u8 \<times> binary) list) list" and pre hdr post :: binary and n :: u8
  assumes "\<forall>c \<in> set cs. sdes_chunk_ok (snd c)" and "length (sdes_chunks cs) < 65536"
    and "unat n = length cs" and "length hdr = 4"
  defines "buf \<equiv> pre @ hdr @ sdes_chunks cs @ post"
    and "h \<equiv> RtcpHeader_prepareHeader 202 n (of_nat ((4 + length (sdes_chunks cs)) div 4 - 1)) (RtcpHeader_dec hdr)"
  defines "buf' \<equiv> pre @ RtcpHeader_enc h @ sdes_chunks cs @ post"
  shows "RtcpSdes_preparePacket buf (length pre) n = Inr buf'"
    and "RtcpHeader_lengthInBytes (overlay RtcpHeader_dec (length pre) buf') = 4 + length (sdes_chunks cs)"
    and "RtcpSdes_isValid buf' (length pre) = Inr True"
    and "RtcpSdes_chunksCount buf' (length pre) = Inr (length cs)"
proof -
  let ?T = "length (sdes_chunks cs)" and ?p = "length pre"
  have "4 dvd ?T"
  proof -
    have "4 dvd length (sdes_chunk (fst c) (snd c))" if "c \<in> set cs" for c
      using assms(1) that by (simp add: length_sdes_chunk RtcpSdesChunk_Size_def Let_def)
    then show ?thesis
      by (induction cs) (auto simp: sdes_chunks_def)
  qed
  then have four: "?T div 4 * 4 = ?T" by simp
  let ?pre = "pre @ RtcpHeader_enc h"
  have buf': "buf' = ?pre @ sdes_chunks cs @ post" by (simp add: buf'_def)
  have len: "length ?pre = ?p + 4" by (simp add: rtcp.length_enc)
  have "sdes_sumChunks ((pre @ hdr) @ sdes_chunks cs @ post) ?p 0 (unat n) = Inr ?T"
    using sdes_sumChunks_eq [of cs ?p "pre @ hdr" 0 "length cs" post] assms by simp
  moreover have "overlay_upd RtcpHeader_enc RtcpHeader_dec ?p f buf =
      pre @ RtcpHeader_enc (f (RtcpHeader_dec (hdr @ sdes_chunks cs @ post))) @ sdes_chunks cs @ post" for f
    using assms(4) by (simp add: buf_def rtcp.upd_eq)
  moreover have "RtcpHeader_dec (hdr @ sdes_chunks cs @ post) = RtcpHeader_dec hdr"
    using assms(4) rtcp.enc_dec [of hdr] rtcp.dec_enc by (metis order_refl take_all)
  ultimately have prep: "RtcpSdes_preparePacket buf ?p n = Inr (?pre @ sdes_chunks cs @ post)"
    by (simp add: RtcpSdes_preparePacket_def buf_def h_def)
  have h: "overlay RtcpHeader_dec ?p (?pre @ sdes_chunks cs @ post) = h"
    by (simp add: overlay_def rtcp.dec_enc)
  have "(4 + ?T) div 4 - 1 = ?T div 4" by simp
  then have T: "unat (of_nat ((4 + ?T) div 4 - 1) :: u16) = ?T div 4"
    using assms(2) by (simp only: unat_of_nat) simp
  have bytes: "RtcpHeader_lengthInBytes h = 4 + ?T"
    using T four by (simp add: RtcpHeader_lengthInBytes_def h_def)
  have loops: "sdes_validLoop (?pre @ sdes_chunks cs @ post) ?p ?T 0 0 = Inr True"
    "sdes_countLoop (?pre @ sdes_chunks cs @ post) ?p ?T 0 0 = Inr (length cs)"
    using sdes_loops [of cs 0 ?p ?pre post] assms(1) len by (simp_all add: sdes_chunks_def)
  have valid: "RtcpSdes_isValid (?pre @ sdes_chunks cs @ post) ?p = Inr True"
    using loops(1) by (simp only: RtcpSdes_isValid_def h bytes Let_def) simp
  have "(4 * (unat (RtcpHeader_length h) + 1) - 4) mod 65536 = ?T"
    using T four assms(2) by (simp add: h_def)
  then have count: "RtcpSdes_chunksCount (?pre @ sdes_chunks cs @ post) ?p = Inr (length cs)"
    using loops(2) by (simp only: RtcpSdes_chunksCount_def valid h Let_def bind_result_simps) simp
  show "RtcpSdes_preparePacket buf ?p n = Inr buf'"
    "RtcpHeader_lengthInBytes (overlay RtcpHeader_dec ?p buf') = 4 + ?T"
    "RtcpSdes_isValid buf' ?p = Inr True" "RtcpSdes_chunksCount buf' ?p = Inr (length cs)"
    using prep h bytes valid count unfolding buf' by simp_all
qed

text \<open>\<open>RtcpSdes::preparePacket\<close> over well-formed chunks gives a packet that the parser agrees with:
  its length field covers exactly the chunks, \<open>isValid\<close> accepts it and \<open>chunksCount\<close> counts the
  chunks, whatever lies before and after the packet in the buffer.\<close>

theorem sdes_prepare_valid:
  fixes cs :: "(u32 \<times> (u8 \<times> binary) list) list" and pre hdr post :: binary and n :: u8
  assumes "\<forall>c \<in> set cs. sdes_chunk_ok (snd c)" and "length (sdes_chunks cs) < 65536"
    and "unat n = length cs" and "length hdr = 4"
  defines "buf \<equiv> pre @ hdr @ sdes_chunks cs @ post"
  shows "\<exists>buf'. RtcpSdes_preparePacket buf (length pre) n = Inr buf' \<and>
    RtcpHeader_lengthInBytes (overlay RtcpHeader_dec (length pre) buf') = 4 + length (sdes_chunks cs) \<and>
    RtcpSdes_isValid buf' (length pre) = Inr True \<and>
    RtcpSdes_chunksCount buf' (length pre) = Inr (length cs)"
  using sdes_prepared [OF assms(1-4), of pre post] unfolding buf_def by blast

theorem sdes_prepare_valid_witness:
  "\<exists>buf'. RtcpSdes_preparePacket ([9] @ [0, 0, 0, 0] @ sdes_chunks [(7, [(1, [104, 105])])] @ []) 1 1 = Inr buf' \<and>
     RtcpSdes_isValid buf' 1 = Inr True \<and> RtcpSdes_chunksCount buf' 1 = Inr 1"
  using sdes_prepare_valid [of "[(7, [(1, [104, 105])])]" 1 "[0, 0, 0, 0]" "[9]" "[]"]
  by (auto simp: sdes_chunk_ok_def sdes_item_ok_def sdes_items_def sdes_item_def sdes_chunks_def
      sdes_chunk_def)

text \<open>\<open>safelyCountChunkSize\<close> is not safe: it compares every item with the bytes behind the SSRC as
  if it were the first, so a chunk of 8 bytes that starts with two one-byte items makes it read past
  the chunk, which here is the end of the buffer.\<close>

theorem safelyCountChunkSize_overruns:
  "length [0, 0, 0, 0, 1, 0, 1, 0 :: u8] = 8 \<and>
   safelyCountChunkSize [0, 0, 0, 0, 1, 0, 1, 0] 0 8 = Inl OutOfBounds"
  by code_simp

end
