(* ===== verification/NalUnit.thy ===== *)
theory NalUnit
  imports Prelude
begin

text \<open>
  NAL units of H.264 and H.265: \<open>include/rtc/nalunit.hpp\<close>, \<open>src/nalunit.cpp\<close>,
  \<open>include/rtc/h265nalunit.hpp\<close>, \<open>src/h265nalunit.cpp\<close>. A NAL unit is a byte vector; the one-byte
  header structs are bytes, the two-byte header of H.265 is a record. The loop that cuts a unit into
  fragments is written once for both codecs, with the constructor of a fragment as its parameter:
  the two source functions have the same text. It may run forever (a fragment size of zero), so it
  is a partial function.
\<close>

section \<open>Headers\<close>

definition NalUnitHeader_forbiddenBit :: "u8 \<Rightarrow> bool" where
  [struct_defs]: "NalUnitHeader_forbiddenBit b \<longleftrightarrow> drop_bit 7 b \<noteq> 0"

definition NalUnitHeader_nri :: "u8 \<Rightarrow> u8" where
  [struct_defs]: "NalUnitHeader_nri b = drop_bit 5 b AND 0x03"

definition NalUnitHeader_idc :: "u8 \<Rightarrow> u8" where
  [struct_defs]: "NalUnitHeader_idc b = b AND 0x60"

definition NalUnitHeader_unitType :: "u8 \<Rightarrow> u8" where
  [struct_defs]: "NalUnitHeader_unitType b = b AND 0x1F"

definition NalUnitHeader_setForbiddenBit :: "bool \<Rightarrow> u8 \<Rightarrow> u8" where
  [struct_defs]: "NalUnitHeader_setForbiddenBit isSet b = (b AND 0x7F) OR push_bit 7 (of_bool isSet)"

definition NalUnitHeader_setNRI :: "u8 \<Rightarrow> u8 \<Rightarrow> u8" where
  [struct_defs]: "NalUnitHeader_setNRI nri b = (b AND 0x9F) OR push_bit 5 (nri AND 0x03)"

definition NalUnitHeader_setUnitType :: "u8 \<Rightarrow> u8 \<Rightarrow> u8" where
  [struct_defs]: "NalUnitHeader_setUnitType type b = (b AND 0xE0) OR (type AND 0x1F)"

definition FragmentHeader_isStart :: "u8 \<Rightarrow> bool" where
  [struct_defs]: "FragmentHeader_isStart b \<longleftrightarrow> drop_bit 7 b \<noteq> 0"

definition FragmentHeader_reservedBit6 :: "u8 \<Rightarrow> bool" where
  [struct_defs]: "FragmentHeader_reservedBit6 b \<longleftrightarrow> drop_bit 5 b AND 0x01 \<noteq> 0"

definition FragmentHeader_isEnd :: "u8 \<Rightarrow> bool" where
  [struct_defs]: "FragmentHeader_isEnd b \<longleftrightarrow> drop_bit 6 b AND 0x01 \<noteq> 0"

definition FragmentHeader_unitType :: "u8 \<Rightarrow> u8" where
  [struct_defs]: "FragmentHeader_unitType b = b AND 0x1F"

definition FragmentHeader_setStart :: "bool \<Rightarrow> u8 \<Rightarrow> u8" where
  [struct_defs]: "FragmentHeader_setStart isSet b = (b AND 0x7F) OR push_bit 7 (of_bool isSet)"

definition FragmentHeader_setEnd :: "bool \<Rightarrow> u8 \<Rightarrow> u8" where
  [struct_defs]: "FragmentHeader_setEnd isSet b = (b AND 0xBF) OR push_bit 6 (of_bool isSet)"

definition FragmentHeader_setReservedBit6 :: "bool \<Rightarrow> u8 \<Rightarrow> u8" where
  [struct_defs]: "FragmentHeader_setReservedBit6 isSet b = (b AND 0xDF) OR push_bit 5 (of_bool isSet)"

definition FragmentHeader_setUnitType :: "u8 \<Rightarrow> u8 \<Rightarrow> u8" where
  [struct_defs]: "FragmentHeader_setUnitType type b = (b AND 0xE0) OR (type AND 0x1F)"

record H265NalUnitHeader =
  h265_first :: u8
  h265_second :: u8

definition H265NalUnitHeader_forbiddenBit :: "H265NalUnitHeader \<Rightarrow> bool" where
  [struct_defs]: "H265NalUnitHeader_forbiddenBit h \<longleftrightarrow> drop_bit 7 (h265_first h) \<noteq> 0"

definition H265NalUnitHeader_unitType :: "H265NalUnitHeader \<Rightarrow> u8" where
  [struct_defs]: "H265NalUnitHeader_unitType h = drop_bit 1 (h265_first h AND 0b01111110)"

definition H265NalUnitHeader_nuhLayerId :: "H265NalUnitHeader \<Rightarrow> u8" where
  [struct_defs]: "H265NalUnitHeader_nuhLayerId h =
     push_bit 5 (h265_first h AND 0x1) OR drop_bit 3 (h265_second h AND 0b11111000)"

definition H265NalUnitHeader_nuhTempIdPlus1 :: "H265NalUnitHeader \<Rightarrow> u8" where
  [struct_defs]: "H265NalUnitHeader_nuhTempIdPlus1 h = h265_second h AND 0b111"

definition H265NalUnitHeader_setForbiddenBit :: "bool \<Rightarrow> H265NalUnitHeader \<Rightarrow> H265NalUnitHeader" where
  [struct_defs]: "H265NalUnitHeader_setForbiddenBit isSet h =
     h\<lparr>h265_first := (h265_first h AND 0x7F) OR push_bit 7 (of_bool isSet)\<rparr>"

definition H265NalUnitHeader_setUnitType :: "u8 \<Rightarrow> H265NalUnitHeader \<Rightarrow> H265NalUnitHeader" where
  [struct_defs]: "H265NalUnitHeader_setUnitType type h =
     h\<lparr>h265_first := (h265_first h AND 0b10000001) OR push_bit 1 (type AND 0b111111)\<rparr>"

definition H265NalUnitHeader_setNuhLayerId :: "u8 \<Rightarrow> H265NalUnitHeader \<Rightarrow> H265NalUnitHeader" where
  [struct_defs]: "H265NalUnitHeader_setNuhLayerId nuhLayerId h =
     h\<lparr>h265_first := (h265_first h AND 0b11111110) OR drop_bit 5 (nuhLayerId AND 0b100000),
       h265_second := (h265_second h AND 0b00000111) OR push_bit 3 (nuhLayerId AND 0b011111)\<rparr>"

definition H265NalUnitHeader_setNuhTempIdPlus1 :: "u8 \<Rightarrow> H265NalUnitHeader \<Rightarrow> H265NalUnitHeader" where
  [struct_defs]: "H265NalUnitHeader_setNuhTempIdPlus1 nuhTempIdPlus1 h =
     h\<lparr>h265_second := (h265_second h AND 0b11111000) OR (nuhTempIdPlus1 AND 0b111)\<rparr>"

definition H265FragmentHeader_unitType :: "u8 \<Rightarrow> u8" where
  [struct_defs]: "H265FragmentHeader_unitType b = b AND 0b111111"

definition H265FragmentHeader_setUnitType :: "u8 \<Rightarrow> u8 \<Rightarrow> u8" where
  [struct_defs]: "H265FragmentHeader_setUnitType type b = (b AND 0b11000000) OR (type AND 0b111111)"

section \<open>Start sequences\<close>

datatype Separator = Length | LongStartSequence | ShortStartSequence | StartSequence

datatype NalUnitStartSequenceMatch =
  NUSM_noMatch | NUSM_firstZero | NUSM_secondZero | NUSM_thirdZero | NUSM_shortMatch | NUSM_longMatch

definition detectShort :: "Separator \<Rightarrow> bool" where
  "detectShort s \<longleftrightarrow> s = ShortStartSequence \<or> s = StartSequence"

definition detectLong :: "Separator \<Rightarrow> bool" where
  "detectLong s \<longleftrightarrow> s = LongStartSequence \<or> s = StartSequence"

fun StartSequenceMatchSucc ::
  "NalUnitStartSequenceMatch \<Rightarrow> u8 \<Rightarrow> Separator \<Rightarrow> NalUnitStartSequenceMatch" where
  "StartSequenceMatchSucc NUSM_noMatch b s = (if b = 0x00 then NUSM_firstZero else NUSM_noMatch)"
| "StartSequenceMatchSucc NUSM_firstZero b s = (if b = 0x00 then NUSM_secondZero else NUSM_noMatch)"
| "StartSequenceMatchSucc NUSM_secondZero b s =
     (if b = 0x00 \<and> detectLong s then NUSM_thirdZero
      else if b = 0x00 \<and> detectShort s then NUSM_secondZero
      else if b = 0x01 \<and> detectShort s then NUSM_shortMatch
      else NUSM_noMatch)"
| "StartSequenceMatchSucc NUSM_thirdZero b s =
     (if b = 0x00 \<and> detectLong s then NUSM_thirdZero
      else if b = 0x01 \<and> detectLong s then NUSM_longMatch
      else NUSM_noMatch)"
| "StartSequenceMatchSucc NUSM_shortMatch b s = NUSM_shortMatch"
| "StartSequenceMatchSucc NUSM_longMatch b s = NUSM_longMatch"

section \<open>Fragments\<close>

datatype FragmentType = Start | Middle | End

text \<open>\<open>setFragmentType\<close> of H.264 clears the reserved bit first; that of H.265 has no such bit.\<close>

definition setFragmentType :: "FragmentType \<Rightarrow> u8 \<Rightarrow> u8" where
  "setFragmentType type b =
     (let b = FragmentHeader_setReservedBit6 False b
      in case type of
           Start \<Rightarrow> FragmentHeader_setEnd False (FragmentHeader_setStart True b)
         | End \<Rightarrow> FragmentHeader_setEnd True (FragmentHeader_setStart False b)
         | Middle \<Rightarrow> FragmentHeader_setEnd False (FragmentHeader_setStart False b))"

definition H265_setFragmentType :: "FragmentType \<Rightarrow> u8 \<Rightarrow> u8" where
  "H265_setFragmentType type b =
     (case type of
        Start \<Rightarrow> FragmentHeader_setEnd False (FragmentHeader_setStart True b)
      | End \<Rightarrow> FragmentHeader_setEnd True (FragmentHeader_setStart False b)
      | Middle \<Rightarrow> FragmentHeader_setEnd False (FragmentHeader_setStart False b))"

text \<open>The type a fragment reports: \<open>NalUnitFragmentA::type\<close> of the fragment header byte.\<close>

definition FragmentHeader_type :: "u8 \<Rightarrow> FragmentType" where
  "FragmentHeader_type b =
     (if FragmentHeader_isStart b then Start else if FragmentHeader_isEnd b then End else Middle)"

definition nal_type_fu_A :: u8 where "nal_type_fu_A = 28"
definition nal_type_fu :: u8 where "nal_type_fu = 49"

definition NalUnitFragmentA :: "FragmentType \<Rightarrow> bool \<Rightarrow> u8 \<Rightarrow> u8 \<Rightarrow> binary \<Rightarrow> binary" where
  "NalUnitFragmentA type forbiddenBit nri unitType data =
     (let indicator = NalUnitHeader_setUnitType nal_type_fu_A
                        (NalUnitHeader_setNRI nri (NalUnitHeader_setForbiddenBit forbiddenBit 0));
          fu = FragmentHeader_setUnitType unitType (setFragmentType type 0)
      in indicator # fu # data)"

definition H265NalUnitFragment ::
  "FragmentType \<Rightarrow> bool \<Rightarrow> u8 \<Rightarrow> u8 \<Rightarrow> u8 \<Rightarrow> binary \<Rightarrow> binary" where
  "H265NalUnitFragment type forbiddenBit nuhLayerId nuhTempIdPlus1 unitType data =
     (let h = H265NalUnitHeader_setUnitType nal_type_fu
                (H265NalUnitHeader_setNuhTempIdPlus1 nuhTempIdPlus1
                  (H265NalUnitHeader_setNuhLayerId nuhLayerId
                    (H265NalUnitHeader_setForbiddenBit forbiddenBit \<lparr>h265_first = 0, h265_second = 0\<rparr>)));
          fu = H265FragmentHeader_setUnitType unitType (H265_setFragmentType type 0)
      in h265_first h # h265_second h # fu # data)"

text \<open>\<open>ceil\<close> of a quotient of sizes. The code computes it in \<open>double\<close>, exactly for sizes below
  \<open>2 ^ 36\<close>. A division by a zero fragment size gives infinity, and the size divided by that is 0.\<close>

definition ceil_div :: "nat \<Rightarrow> nat \<Rightarrow> nat" where
  "ceil_div a b = (a + (b - 1)) div b"

definition fragment_size :: "nat \<Rightarrow> u16 \<Rightarrow> u16 \<Rightarrow> u16" where
  "fragment_size n maxFragmentSize overhead =
     (if maxFragmentSize = 0 then 0
      else of_nat (ceil_div n (ceil_div n (unat maxFragmentSize)))) - overhead"

partial_function (option) fragments_loop ::
  "(FragmentType \<Rightarrow> binary \<Rightarrow> binary) \<Rightarrow> binary \<Rightarrow> nat \<Rightarrow> nat \<Rightarrow> binary list result option" where
  "fragments_loop mk payload offset maxFragmentSize =
     (if offset < length payload then
        let (fragmentType, m) =
              (if offset = 0 then (Start, maxFragmentSize)
               else if offset + maxFragmentSize < length payload then (Middle, maxFragmentSize)
               else (End, if offset + maxFragmentSize > length payload
                          then length payload - offset else maxFragmentSize))
        in if offset + m > length payload then Some (Inl OutOfBounds)
           else Option.bind (fragments_loop mk payload (offset + m) m)
                  (\<lambda>r. Some (map_sum id (Cons (mk fragmentType (take m (drop offset payload)))) r))
      else Some (Inr []))"

definition NalUnitFragmentA_fragmentsFrom :: "binary \<Rightarrow> u16 \<Rightarrow> binary list result option" where
  "NalUnitFragmentA_fragmentsFrom nalu maxFragmentSize =
     (if length nalu < 1 then Some (Inl OutOfBounds)
      else let m = fragment_size (length nalu) maxFragmentSize 2;
          f = NalUnitHeader_forbiddenBit (ld8 nalu 0);
          nri = NalUnitHeader_nri (ld8 nalu 0) AND 0x03;
          naluType = NalUnitHeader_unitType (ld8 nalu 0) AND 0x1F
      in fragments_loop (\<lambda>t data. NalUnitFragmentA t f nri naluType data) (drop 1 nalu) 0 (unat m))"

definition H265_header :: "binary \<Rightarrow> H265NalUnitHeader" where
  "H265_header nalu = \<lparr>h265_first = ld8 nalu 0, h265_second = ld8 nalu 1\<rparr>"

definition H265NalUnitFragment_fragmentsFrom :: "binary \<Rightarrow> u16 \<Rightarrow> binary list result option" where
  "H265NalUnitFragment_fragmentsFrom nalu maxFragmentSize =
     (if length nalu < 2 then Some (Inl OutOfBounds)
      else let m = fragment_size (length nalu) maxFragmentSize 3;
          h = H265_header nalu;
          f = H265NalUnitHeader_forbiddenBit h;
          nuhLayerId = H265NalUnitHeader_nuhLayerId h AND 0x3F;
          nuhTempIdPlus1 = H265NalUnitHeader_nuhTempIdPlus1 h AND 0x7;
          naluType = H265NalUnitHeader_unitType h AND 0x3F
      in fragments_loop (\<lambda>t data. H265NalUnitFragment t f nuhLayerId nuhTempIdPlus1 naluType data)
           (drop 2 nalu) 0 (unat m))"

text \<open>\<open>NalUnits::generateFragments\<close> and \<open>H265NalUnits::generateFragments\<close>: units that fit go through
  unchanged.\<close>

fun generateFragments ::
  "(binary \<Rightarrow> u16 \<Rightarrow> binary list result option) \<Rightarrow> u16 \<Rightarrow> binary list \<Rightarrow> binary list result option" where
  "generateFragments fragmentsFrom maxFragmentSize [] = Some (Inr [])"
| "generateFragments fragmentsFrom maxFragmentSize (nalu # nalus) =
     (let front = (if length nalu > unat maxFragmentSize then fragmentsFrom nalu maxFragmentSize
                   else Some (Inr [nalu]))
      in case front of
           None \<Rightarrow> None
         | Some (Inl e) \<Rightarrow> Some (Inl e)
         | Some (Inr fs) \<Rightarrow>
             (case generateFragments fragmentsFrom maxFragmentSize nalus of
                None \<Rightarrow> None
              | Some (Inl e) \<Rightarrow> Some (Inl e)
              | Some (Inr gs) \<Rightarrow> Some (Inr (fs @ gs))))"

section \<open>The fragment loop\<close>

text \<open>What the loop promises from the second fragment on: the pieces \<open>ds\<close> are non-empty, at most
  \<open>m\<close> long, concatenate to the rest of the payload, and are typed middle until the last, the end.\<close>

definition cuts :: "nat \<Rightarrow> binary \<Rightarrow> (FragmentType \<times> binary) list \<Rightarrow> bool" where
  "cuts m rest ds \<longleftrightarrow> concat (map snd ds) = rest \<and> (\<forall>(t, d) \<in> set ds. d \<noteq> [] \<and> length d \<le> m) \<and>
     (rest \<noteq> [] \<longrightarrow> map fst ds = replicate (length ds - 1) Middle @ [End])"

lemma cuts_Nil: "cuts m [] []"
  by (simp add: cuts_def)

lemma cuts_End: "rest \<noteq> [] \<Longrightarrow> length rest \<le> m \<Longrightarrow> cuts m rest [(End, rest)]"
  by (simp add: cuts_def)

lemma cuts_Middle:
  assumes "cuts m (drop m rest) ds" and "0 < m" and "m < length rest"
  shows "cuts m rest ((Middle, take m rest) # ds)"
proof -
  have "drop m rest \<noteq> []" using assms by simp
  with assms have "ds \<noteq> []" and types: "map fst ds = replicate (length ds - 1) Middle @ [End]"
    and "concat (map snd ds) = drop m rest" by (auto simp: cuts_def)
  then have "map fst ((Middle, take m rest) # ds) = replicate (length ds) Middle @ [End]"
    by (cases ds) (simp_all add: replicate_app_Cons_same)
  with assms \<open>concat (map snd ds) = drop m rest\<close> show ?thesis
    by (auto simp: cuts_def)
qed

lemma fragments_loop_done:
  "length payload \<le> offset \<Longrightarrow> fragments_loop mk payload offset m = Some (Inr [])"
  by (simp add: fragments_loop.simps)

lemma fragments_loop_cuts:
  assumes "0 < m" and "0 < offset" and "offset \<le> length payload"
  shows "\<exists>ds. fragments_loop mk payload offset m = Some (Inr (map (\<lambda>(t, d). mk t d) ds)) \<and>
           cuts m (drop offset payload) ds"
  using assms
proof (induction "length payload - offset" arbitrary: offset rule: less_induct)
  case less
  consider "offset = length payload" | "offset < length payload" "length payload \<le> offset + m"
    | "offset + m < length payload"
    using less.prems by linarith
  then show ?case
  proof cases
    case 1
    then show ?thesis
      using cuts_Nil by (intro exI [of _ "[]"]) (simp add: fragments_loop_done)
  next
    case 2
    let ?m = "if offset + m > length payload then length payload - offset else m"
    have "offset + ?m = length payload" using 2 by auto
    then show ?thesis
      using 2 less.prems cuts_End [of "drop offset payload" m]
      by (intro exI [of _ "[(End, drop offset payload)]"])
        (simp add: fragments_loop.simps [of _ _ offset] fragments_loop_done)
  next
    case 3
    then obtain ds where "fragments_loop mk payload (offset + m) m = Some (Inr (map (\<lambda>(t, d). mk t d) ds))"
      and "cuts m (drop (offset + m) payload) ds"
      using less.hyps [of "offset + m"] less.prems diff_less_mono2 [of offset "offset + m" "length payload"]
      by auto
    then show ?thesis
      using 3 less.prems cuts_Middle [of m "drop offset payload" ds]
      by (intro exI [of _ "(Middle, take m (drop offset payload)) # ds"])
        (simp add: fragments_loop.simps [of _ _ offset] add.commute)
  qed
qed

text \<open>From the start, with a fragment size that is positive and below the payload's.\<close>

lemma fragments_loop_start:
  assumes "0 < m" and "m < length payload"
  shows "\<exists>ds. fragments_loop mk payload 0 m = Some (Inr (mk Start (take m payload) # map (\<lambda>(t, d). mk t d) ds)) \<and>
           cuts m (drop m payload) ds \<and> ds \<noteq> []"
proof -
  obtain ds where ds: "fragments_loop mk payload m m = Some (Inr (map (\<lambda>(t, d). mk t d) ds))"
    "cuts m (drop m payload) ds"
    using fragments_loop_cuts [of m m payload mk] assms by auto
  moreover have "ds \<noteq> []" using ds assms by (auto simp: cuts_def)
  ultimately show ?thesis
    using assms by (intro exI [of _ ds]) (auto simp: fragments_loop.simps [of _ _ 0])
qed

text \<open>With a fragment size of zero the loop never ends; with one above the payload's size it reads
  past the payload.\<close>

lemma fragments_loop_overrun:
  "payload \<noteq> [] \<Longrightarrow> length payload < m \<Longrightarrow> fragments_loop mk payload 0 m = Some (Inl OutOfBounds)"
  by (simp add: fragments_loop.simps)

section \<open>The fragment size\<close>

lemma ceil_div_le: "0 < b \<Longrightarrow> a \<le> c * b \<Longrightarrow> ceil_div a b \<le> c"
proof -
  assume "0 < b" "a \<le> c * b"
  then have "a + (b - 1) < (c + 1) * b" by (simp add: algebra_simps)
  then have "(a + (b - 1)) div b < c + 1" using \<open>0 < b\<close> by (simp add: div_less_iff_less_mult)
  then show ?thesis by (simp add: ceil_div_def)
qed

lemma ceil_div_gt: "0 < b \<Longrightarrow> c * b < a \<Longrightarrow> c < ceil_div a b"
proof -
  assume "0 < b" "c * b < a"
  then have "(c + 1) * b \<le> a + (b - 1)" by (simp add: algebra_simps)
  then have "c + 1 \<le> (a + (b - 1)) div b" using \<open>0 < b\<close> by (simp add: less_eq_div_iff_mult_less_eq)
  then show ?thesis by (simp add: ceil_div_def)
qed

lemma ceil_div_mult: "0 < b \<Longrightarrow> a \<le> ceil_div a b * b"
  using ceil_div_gt [of b "ceil_div a b" a] by fastforce

lemma ceil_div_less: "0 < b \<Longrightarrow> 0 < a \<Longrightarrow> (ceil_div a b - 1) * b < a"
  using ceil_div_le [of b a "ceil_div a b - 1"] ceil_div_gt [of b 0 a] by fastforce

text \<open>The equalised size is at most the limit, and at least half of it.\<close>

lemma equalised_size:
  fixes n M :: nat
  assumes "0 < M" and "M < n"
  shows "ceil_div n (ceil_div n M) \<le> M" and "2 * k \<le> M \<Longrightarrow> k < ceil_div n (ceil_div n M)"
proof -
  define c where "c = ceil_div n M"
  have c: "1 < c" "n \<le> c * M" "(c - 1) * M < n"
    using assms ceil_div_gt [of M 1 n] ceil_div_mult [of M n] ceil_div_less [of M n]
    by (simp_all add: c_def)
  show "ceil_div n (ceil_div n M) \<le> M"
    using c ceil_div_le [of c n M] by (simp add: c_def [symmetric] mult.commute)
  assume k: "2 * k \<le> M"
  have "k * c \<le> k * (2 * (c - 1))" using c by (intro mult_left_mono) auto
  also have "\<dots> = (c - 1) * (2 * k)" by simp
  also have "\<dots> \<le> (c - 1) * M" using k by (intro mult_left_mono) auto
  finally have "k * c < n" using c by linarith
  then show "k < ceil_div n (ceil_div n M)"
    using c ceil_div_gt [of c k n] by (simp add: c_def [symmetric])
qed

lemma fragment_size_bounds:
  assumes "2 * k \<le> unat M" and "unat M < n" and "0 < k" and "k < 65536"
  shows "1 \<le> unat (fragment_size n M (of_nat k))"
    and "unat (fragment_size n M (of_nat k)) + k \<le> unat M"
proof -
  let ?c = "ceil_div n (ceil_div n (unat M))"
  have c: "k < ?c" "?c \<le> unat M" "?c < 65536"
    using equalised_size(1) [of "unat M" n] equalised_size(2) [of "unat M" n k] assms unat_bound(2) [of M]
    by linarith+
  have "unat (of_nat ?c - of_nat k :: u16) = ?c - k"
    using c assms by (simp add: unat_sub_if' unat_of_nat word_le_nat_alt)
  then have "unat (fragment_size n M (of_nat k)) = ?c - k"
    using assms by (auto simp: fragment_size_def)
  with c show "1 \<le> unat (fragment_size n M (of_nat k))"
    and "unat (fragment_size n M (of_nat k)) + k \<le> unat M" by simp_all
qed

section \<open>Fragmentation of a unit\<close>

lemma setFragmentType_type:
  "FragmentHeader_type (FragmentHeader_setUnitType u (setFragmentType t 0)) = t"
  "FragmentHeader_type (H265FragmentHeader_setUnitType u (H265_setFragmentType t 0)) = t"
  by (cases t; simp add: setFragmentType_def H265_setFragmentType_def FragmentHeader_type_def
      struct_defs u8_bits)+

lemma setFragmentType_unitType:
  "FragmentHeader_unitType (FragmentHeader_setUnitType u (setFragmentType t 0)) = u AND 0x1F"
  "H265FragmentHeader_unitType (H265FragmentHeader_setUnitType u (H265_setFragmentType t 0)) = u AND 0b111111"
  by (cases t; simp add: setFragmentType_def H265_setFragmentType_def struct_defs u8_bits)+

lemma fragment_indicator:
  "NalUnitHeader_setUnitType u (NalUnitHeader_setNRI (NalUnitHeader_nri b AND 3)
     (NalUnitHeader_setForbiddenBit (NalUnitHeader_forbiddenBit b) 0)) = (b AND 0xE0) OR (u AND 0x1F)"
  by (cases "bit b 7") (simp_all add: struct_defs u8_bits)

lemma h265_fragment_header:
  "H265NalUnitHeader_setUnitType u (H265NalUnitHeader_setNuhTempIdPlus1 (H265NalUnitHeader_nuhTempIdPlus1 h AND 7)
     (H265NalUnitHeader_setNuhLayerId (H265NalUnitHeader_nuhLayerId h AND 0x3F)
       (H265NalUnitHeader_setForbiddenBit (H265NalUnitHeader_forbiddenBit h) \<lparr>h265_first = 0, h265_second = 0\<rparr>))) =
   \<lparr>h265_first = (h265_first h AND 0x81) OR push_bit 1 (u AND 0x3F), h265_second = h265_second h\<rparr>"
  by (cases "bit (h265_first h) 7") (simp_all add: struct_defs u8_bits)

text \<open>The fragments of a unit as the two codecs build them: a first piece typed start and, after it,
  pieces cut as \<open>cuts\<close> says.\<close>

lemma fragments_of_size:
  assumes "2 * unat k \<le> unat M" and "unat M < n" and "0 < k"
    and payload: "length payload = n - j" and "0 < j" "j < unat k + 1"
  shows "\<exists>m ds. fragments_loop mk payload 0 (unat (fragment_size n M k)) =
      Some (Inr (mk Start (take m payload) # map (\<lambda>(t, d). mk t d) ds)) \<and>
      cuts m (drop m payload) ds \<and> ds \<noteq> [] \<and> 0 < m \<and> m < length payload \<and> m + unat k \<le> unat M"
proof -
  let ?m = "unat (fragment_size n M k)"
  have "0 < unat k" using assms by (simp add: word_less_nat_alt)
  then have m: "1 \<le> ?m" "?m + unat k \<le> unat M"
    using fragment_size_bounds [of "unat k" M n] assms unat_bound(2) [of k] by simp_all
  then have "?m < length payload" using assms by simp
  then show ?thesis
    using fragments_loop_start [of ?m payload mk] m by fastforce
qed

lemma NalUnitFragmentA_eq:
  "NalUnitFragmentA t (NalUnitHeader_forbiddenBit b) (NalUnitHeader_nri b AND 3) u d =
     ((b AND 0xE0) OR 28) # FragmentHeader_setUnitType u (setFragmentType t 0) # d"
  unfolding NalUnitFragmentA_def Let_def fragment_indicator by (simp add: nal_type_fu_A_def)

lemma H265NalUnitFragment_eq:
  "H265NalUnitFragment t (H265NalUnitHeader_forbiddenBit h) (H265NalUnitHeader_nuhLayerId h AND 0x3F)
     (H265NalUnitHeader_nuhTempIdPlus1 h AND 7) u d =
   ((h265_first h AND 0x81) OR 98) # h265_second h # H265FragmentHeader_setUnitType u (H265_setFragmentType t 0) # d"
  unfolding H265NalUnitFragment_def Let_def h265_fragment_header by (simp add: nal_type_fu_def)

text \<open>A fragment list in the shape both codecs produce it, and its bytes.\<close>

lemma cuts_fragments:
  assumes "cuts m (drop m payload) ds" and "ds \<noteq> []" and "0 < m" and "m < length payload"
    and mk: "\<And>t d. mk t d = hdr t @ d" and hdr: "\<And>t. length (hdr t) = k"
  defines "frs \<equiv> mk Start (take m payload) # map (\<lambda>(t, d). mk t d) ds"
  shows "concat (map (drop k) frs) = payload"
    and "map f frs = f (mk Start (take m payload)) # map (\<lambda>(t, d). f (mk t d)) ds"
    and "\<forall>g \<in> set frs. \<exists>t d. g = mk t d \<and> d \<noteq> [] \<and> length d \<le> m"
    and "map fst ds = replicate (length frs - 2) Middle @ [End]"
    and "2 \<le> length frs"
proof -
  have *: "drop k (mk t d) = d" for t d using mk hdr by simp
  have "concat (map (drop k) frs) = take m payload @ concat (map (\<lambda>x. drop k (case x of (t, d) \<Rightarrow> mk t d)) ds)"
    by (simp add: frs_def * o_def)
  also have "(\<lambda>x. drop k (case x of (t, d) \<Rightarrow> mk t d)) = snd" by (auto simp: fun_eq_iff *)
  finally show "concat (map (drop k) frs) = payload" using assms by (simp add: cuts_def)
  show "map f frs = f (mk Start (take m payload)) # map (\<lambda>(t, d). f (mk t d)) ds"
    by (auto simp: frs_def)
  have "take m payload \<noteq> []" using assms by auto
  then show "\<forall>g \<in> set frs. \<exists>t d. g = mk t d \<and> d \<noteq> [] \<and> length d \<le> m"
    using assms by (fastforce simp: frs_def cuts_def)
  show "map fst ds = replicate (length frs - 2) Middle @ [End]"
    using assms by (simp add: cuts_def frs_def)
  show "2 \<le> length frs" using \<open>ds \<noteq> []\<close> by (cases ds) (simp_all add: frs_def)
qed

lemma map_case_fst: "(\<And>t d. f t d = t) \<Longrightarrow> map (\<lambda>(t, d). f t d) ds = map fst ds"
  by (induction ds) auto

lemma h264_fragments:
  assumes "4 \<le> unat maxFragmentSize" and "unat maxFragmentSize < length nalu"
  shows "\<exists>frs. NalUnitFragmentA_fragmentsFrom nalu maxFragmentSize = Some (Inr frs) \<and> 2 \<le> length frs \<and>
    (\<forall>f \<in> set frs. 2 < length f \<and> length f \<le> unat maxFragmentSize \<and>
       ld8 f 0 = (ld8 nalu 0 AND 0xE0) OR nal_type_fu_A \<and>
       FragmentHeader_unitType (ld8 f 1) = NalUnitHeader_unitType (ld8 nalu 0)) \<and>
    map (\<lambda>f. FragmentHeader_type (ld8 f 1)) frs = Start # replicate (length frs - 2) Middle @ [End] \<and>
    ld8 nalu 0 # concat (map (drop 2) frs) = nalu"
proof -
  define b where "b = ld8 nalu 0"
  define mk where "mk = (\<lambda>t d. NalUnitFragmentA t (NalUnitHeader_forbiddenBit b) (NalUnitHeader_nri b AND 0x03)
      (NalUnitHeader_unitType b AND 0x1F) d)"
  define hdr where "hdr t = [(b AND 0xE0) OR 28,
      FragmentHeader_setUnitType (NalUnitHeader_unitType b AND 0x1F) (setFragmentType t 0)]" for t
  have mk: "mk t d = hdr t @ d" for t d
    by (simp add: mk_def hdr_def NalUnitFragmentA_eq)
  have len: "length (drop 1 nalu) = length nalu - 1" by simp
  obtain m ds where loop: "fragments_loop mk (drop 1 nalu) 0 (unat (fragment_size (length nalu) maxFragmentSize 2)) =
      Some (Inr (mk Start (take m (drop 1 nalu)) # map (\<lambda>(t, d). mk t d) ds))"
    and ds: "cuts m (drop m (drop 1 nalu)) ds" "ds \<noteq> []" "0 < m" "m < length (drop 1 nalu)"
    and m: "m + 2 \<le> unat maxFragmentSize"
    using fragments_of_size [of 2 maxFragmentSize "length nalu" "drop 1 nalu" 1 mk] assms len by auto
  define frs where "frs = mk Start (take m (drop 1 nalu)) # map (\<lambda>(t, d). mk t d) ds"
  have hl: "length (hdr t) = 2" for t by (simp add: hdr_def)
  note shape = cuts_fragments [where mk = mk and hdr = hdr and k = 2, OF ds mk hl, folded frs_def]
  have "NalUnitFragmentA_fragmentsFrom nalu maxFragmentSize = Some (Inr frs)"
    using loop assms
    by (auto simp: NalUnitFragmentA_fragmentsFrom_def Let_def frs_def mk_def b_def)
  moreover have "\<forall>f \<in> set frs. 2 < length f \<and> length f \<le> unat maxFragmentSize \<and>
       ld8 f 0 = (b AND 0xE0) OR nal_type_fu_A \<and> FragmentHeader_unitType (ld8 f 1) = NalUnitHeader_unitType b"
    using shape(3) m
    by (fastforce simp: mk hdr_def nal_type_fu_A_def setFragmentType_unitType NalUnitHeader_unitType_def hdr_def)
  moreover have "map (\<lambda>f. FragmentHeader_type (ld8 f 1)) frs = Start # replicate (length frs - 2) Middle @ [End]"
    using shape(4) by (simp add: shape(2) mk hdr_def setFragmentType_type map_case_fst)
  moreover have "nalu = b # drop 1 nalu"
    using assms by (cases nalu) (simp_all add: b_def)
  ultimately show ?thesis
    using shape(1,5) by (intro exI [of _ frs]) (auto simp: hdr_def b_def [symmetric])
qed

text \<open>
  H.264 fragmentation: when the limit is at least 4 bytes and the unit is larger than the limit,
  the loop of \<open>fragmentsFrom\<close> ends and gives at least two fragments; none exceeds the limit or is
  empty; each repeats the forbidden bit and NRI of the unit in its FU indicator and the unit's type
  in its FU header; they are typed start, middle, end in this order; and the unit's header byte
  followed by their payloads is the unit.
\<close>

theorem h264_fragmentation:
  assumes "4 \<le> unat maxFragmentSize" and "unat maxFragmentSize < length nalu"
  shows "\<exists>frs. NalUnitFragmentA_fragmentsFrom nalu maxFragmentSize = Some (Inr frs) \<and> 2 \<le> length frs \<and>
    (\<forall>f \<in> set frs. 2 < length f \<and> length f \<le> unat maxFragmentSize \<and>
       ld8 f 0 = (ld8 nalu 0 AND 0xE0) OR nal_type_fu_A \<and>
       FragmentHeader_unitType (ld8 f 1) = NalUnitHeader_unitType (ld8 nalu 0)) \<and>
    map (\<lambda>f. FragmentHeader_type (ld8 f 1)) frs = Start # replicate (length frs - 2) Middle @ [End] \<and>
    ld8 nalu 0 # concat (map (drop 2) frs) = nalu"
  using assms by (rule h264_fragments)

theorem h264_fragmentation_witness:
  "\<exists>frs. NalUnitFragmentA_fragmentsFrom [0x65, 1, 2, 3, 4, 5] 4 = Some (Inr frs) \<and> 2 \<le> length frs"
  using h264_fragmentation [of 4 "[0x65, 1, 2, 3, 4, 5]"] by auto

lemma h265_fragments:
  assumes "6 \<le> unat maxFragmentSize" and "unat maxFragmentSize < length nalu"
  shows "\<exists>frs. H265NalUnitFragment_fragmentsFrom nalu maxFragmentSize = Some (Inr frs) \<and> 2 \<le> length frs \<and>
    (\<forall>f \<in> set frs. 3 < length f \<and> length f \<le> unat maxFragmentSize \<and>
       ld8 f 0 = (ld8 nalu 0 AND 0x81) OR 98 \<and> ld8 f 1 = ld8 nalu 1 \<and>
       H265FragmentHeader_unitType (ld8 f 2) = H265NalUnitHeader_unitType (H265_header nalu)) \<and>
    map (\<lambda>f. FragmentHeader_type (ld8 f 2)) frs = Start # replicate (length frs - 2) Middle @ [End] \<and>
    take 2 nalu @ concat (map (drop 3) frs) = nalu"
proof -
  define h where "h = H265_header nalu"
  define mk where "mk = (\<lambda>t d. H265NalUnitFragment t (H265NalUnitHeader_forbiddenBit h)
      (H265NalUnitHeader_nuhLayerId h AND 0x3F) (H265NalUnitHeader_nuhTempIdPlus1 h AND 0x7)
      (H265NalUnitHeader_unitType h AND 0x3F) d)"
  define hdr where "hdr t = [(h265_first h AND 0x81) OR 98, h265_second h,
      H265FragmentHeader_setUnitType (H265NalUnitHeader_unitType h AND 0x3F) (H265_setFragmentType t 0)]" for t
  have mk: "mk t d = hdr t @ d" for t d
    by (simp add: mk_def hdr_def H265NalUnitFragment_eq)
  have len: "length (drop 2 nalu) = length nalu - 2" by simp
  obtain m ds where loop: "fragments_loop mk (drop 2 nalu) 0 (unat (fragment_size (length nalu) maxFragmentSize 3)) =
      Some (Inr (mk Start (take m (drop 2 nalu)) # map (\<lambda>(t, d). mk t d) ds))"
    and ds: "cuts m (drop m (drop 2 nalu)) ds" "ds \<noteq> []" "0 < m" "m < length (drop 2 nalu)"
    and m: "m + 3 \<le> unat maxFragmentSize"
    using fragments_of_size [of 3 maxFragmentSize "length nalu" "drop 2 nalu" 2 mk] assms len by auto
  define frs where "frs = mk Start (take m (drop 2 nalu)) # map (\<lambda>(t, d). mk t d) ds"
  have hl: "length (hdr t) = 3" for t by (simp add: hdr_def)
  note shape = cuts_fragments [where mk = mk and hdr = hdr and k = 3, OF ds mk hl, folded frs_def]
  have "H265NalUnitFragment_fragmentsFrom nalu maxFragmentSize = Some (Inr frs)"
    using loop assms by (simp add: H265NalUnitFragment_fragmentsFrom_def Let_def frs_def mk_def h_def)
  moreover have hdr': "ld8 (hdr t @ d) 0 = (ld8 nalu 0 AND 0x81) OR 98"
    "ld8 (hdr t @ d) 1 = ld8 nalu 1"
    "H265FragmentHeader_unitType (ld8 (hdr t @ d) 2) = H265NalUnitHeader_unitType h" for t d
    by (simp_all add: hdr_def H265_header_def h_def nal_type_fu_def struct_defs u8_bits numeral_2_eq_2
        setFragmentType_unitType [unfolded struct_defs])
  moreover have "\<forall>f \<in> set frs. 3 < length f \<and> length f \<le> unat maxFragmentSize"
    using shape(3) m by (fastforce simp: mk hdr_def)
  moreover have "map (\<lambda>f. FragmentHeader_type (ld8 f 2)) frs = Start # replicate (length frs - 2) Middle @ [End]"
    using shape(4) by (simp add: shape(2) mk hdr_def setFragmentType_type map_case_fst numeral_2_eq_2)
  ultimately show ?thesis
    using shape(1,3,5) unfolding h_def [symmetric] mk
    by (intro exI [of _ frs]) (fastforce simp: hdr_def)
qed

text \<open>
  H.265 fragmentation, the same with the two-byte header: a limit of at least 6 bytes makes the
  loop end; every fragment repeats the unit's header (forbidden bit, layer, temporal identifier) with the
  type of a fragmentation unit and carries the unit's type in its FU header.
\<close>

theorem h265_fragmentation:
  assumes "6 \<le> unat maxFragmentSize" and "unat maxFragmentSize < length nalu"
  shows "\<exists>frs. H265NalUnitFragment_fragmentsFrom nalu maxFragmentSize = Some (Inr frs) \<and> 2 \<le> length frs \<and>
    (\<forall>f \<in> set frs. 3 < length f \<and> length f \<le> unat maxFragmentSize \<and>
       ld8 f 0 = (ld8 nalu 0 AND 0x81) OR 98 \<and> ld8 f 1 = ld8 nalu 1 \<and>
       H265FragmentHeader_unitType (ld8 f 2) = H265NalUnitHeader_unitType (H265_header nalu)) \<and>
    map (\<lambda>f. FragmentHeader_type (ld8 f 2)) frs = Start # replicate (length frs - 2) Middle @ [End] \<and>
    take 2 nalu @ concat (map (drop 3) frs) = nalu"
  using assms by (rule h265_fragments)

theorem h265_fragmentation_witness:
  "\<exists>frs. H265NalUnitFragment_fragmentsFrom [0x26, 1, 2, 3, 4, 5, 6, 7] 6 = Some (Inr frs) \<and> 2 \<le> length frs"
  using h265_fragmentation [of 6 "[0x26, 1, 2, 3, 4, 5, 6, 7]"] by auto

end
