(* ===== verification/Packetizer.thy ===== *)
theory Packetizer
  imports Rtp NalUnit Messages
begin

text \<open>
  From encoded media to RTP packets: \<open>include/rtc/rtppacketizationconfig.hpp\<close>,
  \<open>src/rtppacketizer.cpp\<close>, \<open>src/h264rtppacketizer.cpp\<close>, \<open>src/h265rtppacketizer.cpp\<close>. The
  configuration object is the state: \<open>packetize\<close> increments its sequence number. The H.264 and
  H.265 packetizers have the same text up to the type of a NAL unit, so \<open>splitMessage\<close> is one
  definition and \<open>outgoing\<close> has the fragmentation function as its parameter.
\<close>

section \<open>The configuration\<close>

record RtpPacketizationConfig =
  cfg_ssrc :: u32
  cfg_cname :: string
  cfg_payloadType :: u8
  cfg_clockRate :: u32
  cfg_videoOrientationId :: u8
  cfg_sequenceNumber :: u16
  cfg_timestamp :: u32
  cfg_startTimestamp :: u32
  cfg_videoOrientation :: u8
  cfg_midId :: u8
  cfg_mid :: "string option"
  cfg_ridId :: u8
  cfg_rid :: "string option"
  cfg_playoutDelayId :: u8
  cfg_playoutDelayMin :: u16
  cfg_playoutDelayMax :: u16

text \<open>The constructor; \<open>uniform\<close> gives the two random draws.\<close>

definition RtpPacketizationConfig_init ::
  "u32 \<Rightarrow> u32 \<Rightarrow> u32 \<Rightarrow> string \<Rightarrow> u8 \<Rightarrow> u32 \<Rightarrow> u8 \<Rightarrow> RtpPacketizationConfig" where
  "RtpPacketizationConfig_init uniform1 uniform2 ssrc cname payloadType clockRate videoOrientationId =
     \<lparr>cfg_ssrc = ssrc, cfg_cname = cname, cfg_payloadType = payloadType, cfg_clockRate = clockRate,
      cfg_videoOrientationId = videoOrientationId, cfg_sequenceNumber = ucast uniform1,
      cfg_timestamp = uniform2, cfg_startTimestamp = uniform2, cfg_videoOrientation = 0,
      cfg_midId = 0, cfg_mid = None, cfg_ridId = 0, cfg_rid = None, cfg_playoutDelayId = 0,
      cfg_playoutDelayMin = 0, cfg_playoutDelayMax = 0\<rparr>"

section \<open>One packet\<close>

definition setVideoRotation :: "RtpPacketizationConfig \<Rightarrow> bool \<Rightarrow> bool" where
  "setVideoRotation c mark \<longleftrightarrow> cfg_videoOrientationId c \<noteq> 0 \<and> cfg_videoOrientationId c < 15 \<and> mark \<and>
     cfg_videoOrientation c \<noteq> 0"

definition setPlayoutDelay :: "RtpPacketizationConfig \<Rightarrow> bool" where
  "setPlayoutDelay c \<longleftrightarrow> cfg_playoutDelayId c > 0 \<and> cfg_playoutDelayId c < 15"

definition rtpExtHeaderSize :: "RtpPacketizationConfig \<Rightarrow> bool \<Rightarrow> nat" where
  "rtpExtHeaderSize c mark =
     (let n = 0;
          n = (if setVideoRotation c mark then n + 2 else n);
          n = (if setPlayoutDelay c then n + 4 else n);
          n = (case cfg_mid c of Some s \<Rightarrow> n + (1 + length s) | None \<Rightarrow> n);
          n = (case cfg_rid c of Some s \<Rightarrow> n + (1 + length s) | None \<Rightarrow> n);
          n = (if n \<noteq> 0 then n + 4 else n)
      in (n + 3) div 4 * 4)"

definition playoutDelayData :: "u16 \<Rightarrow> u16 \<Rightarrow> binary" where
  "playoutDelayData delayMin delayMax =
     (let mn = delayMin AND 0xFFF; mx = delayMax AND 0xFFF
      in [ucast (drop_bit 4 mn AND 0xFF), ucast (push_bit 4 (mn AND 0xF) OR (drop_bit 8 mx AND 0xF)),
          ucast (mx AND 0xFF)])"

text \<open>The elements of the extension, written one after the other into the body of the extension
  header at \<open>p\<close>. The offset advances after the orientation and after the MID, and after the RID it
  does not.\<close>

definition writeExtensions :: "RtpPacketizationConfig \<Rightarrow> bool \<Rightarrow> nat \<Rightarrow> binary \<Rightarrow> binary result" where
  "writeExtensions c mark p buf =
     bind_result (RtpExtensionHeader_clearBody p buf) (\<lambda>buf.
     bind_result
       (if setVideoRotation c mark
        then bind_result (writeCurrentVideoOrientation p 0 (cfg_videoOrientationId c) (cfg_videoOrientation c) buf)
               (\<lambda>buf. Inr (2, buf))
        else Inr (0, buf)) (\<lambda>(offset, buf).
     bind_result
       (case cfg_mid c of
          Some s \<Rightarrow> bind_result (writeOneByteHeader p offset (cfg_midId c) (string_bytes s) buf)
                      (\<lambda>buf. Inr (offset + (1 + length s), buf))
        | None \<Rightarrow> Inr (offset, buf)) (\<lambda>(offset, buf).
     bind_result
       (case cfg_rid c of
          Some s \<Rightarrow> writeOneByteHeader p offset (cfg_ridId c) (string_bytes s) buf
        | None \<Rightarrow> Inr buf) (\<lambda>buf.
     if setPlayoutDelay c
     then writeOneByteHeader p offset (cfg_playoutDelayId c)
            (playoutDelayData (cfg_playoutDelayMin c) (cfg_playoutDelayMax c)) buf
     else Inr buf))))"

definition RtpPacketizer_packetize ::
  "binary \<Rightarrow> bool \<Rightarrow> RtpPacketizationConfig \<Rightarrow> (Message \<times> RtpPacketizationConfig) result" where
  "RtpPacketizer_packetize payload mark c =
     (let n = rtpExtHeaderSize c mark;
          buf = msg_data (make_message_size (12 + n + length payload) Binary 0 None);
          upd = overlay_upd RtpHeader_enc RtpHeader_dec 0;
          buf = upd (RtpHeader_setPayloadType (cfg_payloadType c)) buf;
          buf = upd (RtpHeader_setSeqNumber (cfg_sequenceNumber c)) buf;
          c' = c\<lparr>cfg_sequenceNumber := cfg_sequenceNumber c + 1\<rparr>;
          buf = upd (RtpHeader_setTimestamp (cfg_timestamp c)) buf;
          buf = upd (RtpHeader_setSsrc (cfg_ssrc c)) buf;
          buf = (if mark then upd (RtpHeader_setMarker True) buf else buf)
      in bind_result
           (if n \<noteq> 0 then
              let buf = upd (RtpHeader_setExtension True) buf;
                  headerLength = of_nat (n div 4) - 1
              in case RtpHeader_getExtensionHeader buf of
                   None \<Rightarrow> Inl UndefinedBehaviour
                 | Some p \<Rightarrow>
                     let eupd = overlay_upd RtpExtensionHeader_enc RtpExtensionHeader_dec p
                     in writeExtensions c mark p
                          (eupd (RtpExtensionHeader_setHeaderLength headerLength)
                            (eupd (RtpExtensionHeader_setProfileSpecificId 0xbede) buf))
            else Inr buf)
           (\<lambda>buf. let buf = upd RtpHeader_preparePacket buf
                  in Inr (make_message (poke buf (12 + n) payload) Binary 0 None None, c')))"

text \<open>\<open>RtpPacketizer::outgoing\<close>: every message becomes one packet without a marker.\<close>

fun RtpPacketizer_outgoing ::
  "Message list \<Rightarrow> RtpPacketizationConfig \<Rightarrow> (Message list \<times> RtpPacketizationConfig) result" where
  "RtpPacketizer_outgoing [] c = Inr ([], c)"
| "RtpPacketizer_outgoing (message # messages) c =
     bind_result (RtpPacketizer_packetize (msg_data message) False c) (\<lambda>(m, c).
     bind_result (RtpPacketizer_outgoing messages c) (\<lambda>(ms, c). Inr (m # ms, c)))"

section \<open>Splitting an access unit\<close>

function splitMessage_length :: "binary \<Rightarrow> nat \<Rightarrow> binary list" where
  "splitMessage_length message index =
     (if index < length message then
        if index + 4 \<ge> length message then []
        else let n = unat (ntohl (ld32 message index));
                 naluStartIndex = index + 4;
                 naluEndIndex = naluStartIndex + n
             in if naluEndIndex > length message then []
                else slice naluStartIndex naluEndIndex message # splitMessage_length message naluEndIndex
      else [])"
  by auto
termination
  by (relation "measure (\<lambda>(message, index). length message - index)") auto

declare splitMessage_length.simps [simp del]

fun is_match :: "NalUnitStartSequenceMatch \<Rightarrow> bool" where
  "is_match NUSM_longMatch = True"
| "is_match NUSM_shortMatch = True"
| "is_match _ = False"

text \<open>The first loop of the start sequence mode: the index behind the first start sequence, or the
  end of the message, and the state of the matcher then.\<close>

function skip_first ::
  "Separator \<Rightarrow> binary \<Rightarrow> nat \<Rightarrow> NalUnitStartSequenceMatch \<Rightarrow> nat \<times> NalUnitStartSequenceMatch" where
  "skip_first sep message index match =
     (if index < length message then
        let match = StartSequenceMatchSucc match (message ! index) sep
        in if is_match match then (index + 1, NUSM_noMatch)
           else skip_first sep message (index + 1) match
      else (index, match))"
  by auto
termination
  by (relation "measure (\<lambda>(sep, message, index, match). length message - index)") auto

declare skip_first.simps [simp del]

text \<open>The second loop. The end index is unsigned, so is the difference that gives it.\<close>

function split_rest ::
  "Separator \<Rightarrow> binary \<Rightarrow> nat \<Rightarrow> nat \<Rightarrow> NalUnitStartSequenceMatch \<Rightarrow> binary list" where
  "split_rest sep message naluStartIndex index match =
     (if index < length message then
        let match = StartSequenceMatchSucc match (message ! index) sep
        in if is_match match then
             let sequenceLength = (if match = NUSM_longMatch then 4 else 3)
             in slice naluStartIndex (index + 1 - sequenceLength) message #
                split_rest sep message (index + 1) (index + 1) NUSM_noMatch
           else split_rest sep message naluStartIndex (index + 1) match
      else [drop naluStartIndex message])"
  by auto
termination
  by (relation "measure (\<lambda>(sep, message, naluStartIndex, index, match). length message - index)") auto

declare split_rest.simps [simp del]

definition splitMessage :: "Separator \<Rightarrow> binary \<Rightarrow> binary list" where
  "splitMessage sep message =
     (if sep = Length then splitMessage_length message 0
      else let (index, match) = skip_first sep message 0 NUSM_noMatch
           in split_rest sep message index index match)"

section \<open>The packetizers\<close>

fun packetize_fragments ::
  "binary list \<Rightarrow> RtpPacketizationConfig \<Rightarrow> (Message list \<times> RtpPacketizationConfig) result" where
  "packetize_fragments [] c = Inr ([], c)"
| "packetize_fragments (f # fs) c =
     bind_result (RtpPacketizer_packetize f (fs = []) c) (\<lambda>(m, c).
     bind_result (packetize_fragments fs c) (\<lambda>(ms, c). Inr (m # ms, c)))"

fun NalRtpPacketizer_outgoing ::
  "(binary \<Rightarrow> u16 \<Rightarrow> binary list result option) \<Rightarrow> Separator \<Rightarrow> u16 \<Rightarrow> Message list \<Rightarrow> RtpPacketizationConfig \<Rightarrow>
   (Message list \<times> RtpPacketizationConfig) result option" where
  "NalRtpPacketizer_outgoing fragmentsFrom sep maxFragmentSize [] c = Some (Inr ([], c))"
| "NalRtpPacketizer_outgoing fragmentsFrom sep maxFragmentSize (message # messages) c =
     (case generateFragments fragmentsFrom maxFragmentSize (splitMessage sep (msg_data message)) of
        None \<Rightarrow> None
      | Some (Inl e) \<Rightarrow> Some (Inl e)
      | Some (Inr fragments) \<Rightarrow>
          (case packetize_fragments fragments c of
             Inl e \<Rightarrow> Some (Inl e)
           | Inr (ms, c) \<Rightarrow>
               map_option (map_sum id (map_prod (\<lambda>rest. ms @ rest) id))
                 (NalRtpPacketizer_outgoing fragmentsFrom sep maxFragmentSize messages c)))"

definition H264RtpPacketizer_outgoing where
  "H264RtpPacketizer_outgoing = NalRtpPacketizer_outgoing NalUnitFragmentA_fragmentsFrom"

definition H265RtpPacketizer_outgoing where
  "H265RtpPacketizer_outgoing = NalRtpPacketizer_outgoing H265NalUnitFragment_fragmentsFrom"

section \<open>The extension elements, on the body alone\<close>

text \<open>What the writers do, as a function of the body of the extension header: \<open>ext_packet\<close> is a buffer
  made of a fixed header, an extension header whose length field agrees with the body, the body, and
  the rest.\<close>

definition element :: "u8 \<Rightarrow> binary \<Rightarrow> binary" where
  "element i value = (push_bit 4 i OR (if length value \<noteq> 1 then of_nat (length value) - 1 else 0)) # value"

definition element_ok :: "u8 \<Rightarrow> binary \<Rightarrow> bool" where
  "element_ok i value \<longleftrightarrow> i \<noteq> 0 \<and> i \<le> 14 \<and> value \<noteq> [] \<and> length value \<le> 16"

definition put_element :: "nat \<Rightarrow> u8 \<Rightarrow> binary \<Rightarrow> binary \<Rightarrow> binary" where
  "put_element offset i value body =
     (if element_ok i value \<and> offset + 1 + length value \<le> length body
      then poke body offset (element i value) else body)"

definition ext_packet :: "binary \<Rightarrow> RtpExtensionHeader \<Rightarrow> binary \<Rightarrow> binary \<Rightarrow> binary" where
  "ext_packet hdr x body rest = hdr @ RtpExtensionHeader_enc x @ body @ rest"

definition ext_ok :: "binary \<Rightarrow> RtpExtensionHeader \<Rightarrow> binary \<Rightarrow> bool" where
  "ext_ok hdr x body \<longleftrightarrow> length hdr = 12 \<and> RtpExtensionHeader_getSize x = length body"

lemma length_element [simp]: "length (element i value) = 1 + length value"
  by (simp add: element_def)

lemma length_put_element [simp]: "length (put_element offset i value body) = length body"
  by (simp add: put_element_def)

lemma ext_ok_put_element [simp]: "ext_ok hdr x (put_element offset i value body) = ext_ok hdr x body"
  by (simp add: ext_ok_def)

lemma overlay_ext_packet:
  "ext_ok hdr x body \<Longrightarrow> overlay RtpExtensionHeader_dec 12 (ext_packet hdr x body rest) = x"
  by (simp add: overlay_def ext_packet_def ext_ok_def ext.dec_enc)

lemma poke_ext_packet:
  "ext_ok hdr x body \<Longrightarrow> off + length bs \<le> length body \<Longrightarrow>
     poke (ext_packet hdr x body rest) (16 + off) bs = ext_packet hdr x (poke body off bs) rest"
  by (simp add: poke_def ext_packet_def ext_ok_def ext.length_enc)

lemma length_ext_packet:
  "ext_ok hdr x body \<Longrightarrow> length (ext_packet hdr x body rest) = 16 + length body + length rest"
  by (simp add: ext_packet_def ext_ok_def ext.length_enc)

lemma writeOneByteHeader_body:
  assumes "ext_ok hdr x body"
  shows "writeOneByteHeader 12 offset i value (ext_packet hdr x body rest) =
     Inr (ext_packet hdr x (put_element offset i value body) rest)"
  using assms
  by (auto simp: writeOneByteHeader_def Let_def overlay_ext_packet ext_ok_def [of hdr x body]
      put_element_def element_ok_def length_ext_packet not_less not_le
      poke_ext_packet [symmetric] element_def add.assoc)

lemma clearBody_body:
  assumes "ext_ok hdr x body"
  shows "RtpExtensionHeader_clearBody 12 (ext_packet hdr x body rest) =
     Inr (ext_packet hdr x (replicate (length body) 0) rest)"
  using assms poke_ext_packet [OF assms, of 0 "replicate (length body) 0" rest]
  by (simp add: RtpExtensionHeader_clearBody_def overlay_ext_packet ext_ok_def [of hdr x body]
      length_ext_packet poke_def [of body])

definition extension_body :: "RtpPacketizationConfig \<Rightarrow> bool \<Rightarrow> nat \<Rightarrow> binary" where
  "extension_body c mark n =
     (let body = replicate n 0;
          (offset, body) =
            (if setVideoRotation c mark
             then (2, put_element 0 (cfg_videoOrientationId c) [cfg_videoOrientation c] body) else (0, body));
          (offset, body) =
            (case cfg_mid c of
               Some s \<Rightarrow> (offset + (1 + length s), put_element offset (cfg_midId c) (string_bytes s) body)
             | None \<Rightarrow> (offset, body));
          body = (case cfg_rid c of
               Some s \<Rightarrow> put_element offset (cfg_ridId c) (string_bytes s) body | None \<Rightarrow> body)
      in if setPlayoutDelay c
         then put_element offset (cfg_playoutDelayId c)
                (playoutDelayData (cfg_playoutDelayMin c) (cfg_playoutDelayMax c)) body
         else body)"

lemma length_extension_body [simp]: "length (extension_body c mark n) = n"
  by (auto simp: extension_body_def Let_def split: prod.splits option.splits)

lemma writeExtensions_body:
  assumes "ext_ok hdr x body"
  shows "writeExtensions c mark 12 (ext_packet hdr x body rest) =
     Inr (ext_packet hdr x (extension_body c mark (length body)) rest)"
proof -
  have "ext_ok hdr x (replicate (length body) 0)" using assms by (simp add: ext_ok_def)
  then show ?thesis
    using assms
    by (simp add: writeExtensions_def clearBody_body writeCurrentVideoOrientation_def
        writeOneByteHeader_body extension_body_def Let_def split: option.splits)
qed

section \<open>The packet as a concatenation of its parts\<close>

definition packet_header0 :: "RtpPacketizationConfig \<Rightarrow> bool \<Rightarrow> RtpHeader" where
  "packet_header0 c mark =
     (let h = RtpHeader_setSsrc (cfg_ssrc c) (RtpHeader_setTimestamp (cfg_timestamp c)
                (RtpHeader_setSeqNumber (cfg_sequenceNumber c)
                  (RtpHeader_setPayloadType (cfg_payloadType c) (RtpHeader_dec (replicate 12 0)))))
      in if mark then RtpHeader_setMarker True h else h)"

definition packet_header :: "RtpPacketizationConfig \<Rightarrow> bool \<Rightarrow> RtpHeader" where
  "packet_header c mark =
     RtpHeader_preparePacket
       (if rtpExtHeaderSize c mark \<noteq> 0 then RtpHeader_setExtension True (packet_header0 c mark)
        else packet_header0 c mark)"

definition packet_extension :: "RtpPacketizationConfig \<Rightarrow> bool \<Rightarrow> binary" where
  "packet_extension c mark =
     (let n = rtpExtHeaderSize c mark
      in if n = 0 then []
         else RtpExtensionHeader_enc \<lparr>ext_profileSpecificId = htons 0xbede,
                ext_headerLength = htons (of_nat (n div 4) - 1)\<rparr> @ extension_body c mark (n - 4))"

lemma rtpExtHeaderSize_mod: "rtpExtHeaderSize c mark mod 4 = 0"
  by (simp add: rtpExtHeaderSize_def Let_def)

lemma length_packet_extension: "length (packet_extension c mark) = rtpExtHeaderSize c mark"
proof -
  have "rtpExtHeaderSize c mark = 0 \<or> 4 \<le> rtpExtHeaderSize c mark"
    using rtpExtHeaderSize_mod [of c mark] by presburger
  then show ?thesis by (auto simp: packet_extension_def Let_def ext.length_enc)
qed

lemma zero_header: "RtpHeader_dec (replicate 12 0) = \<lparr>rtp_first = 0, rtp_payloadType = 0,
    rtp_seqNumber = 0, rtp_timestamp = 0, rtp_ssrc = 0\<rparr>"
  by (simp add: RtpHeader_dec_def ld8_def ld16_def ld32_def nth_default_def)

lemma packet_header0_first [simp]: "rtp_first (packet_header0 c mark) = 0"
  by (simp add: packet_header0_def zero_header Let_def)

lemma packet_header0_csrc [simp]: "RtpHeader_csrcCount (packet_header0 c mark) = 0"
  by (simp add: RtpHeader_csrcCount_def)

lemma upd_header: "overlay_upd RtpHeader_enc RtpHeader_dec 0 f (RtpHeader_enc h @ r) = RtpHeader_enc (f h) @ r"
  by (simp add: rtp.upd_eq rtp.length_enc)

lemma upd_ext: "length hdr = 12 \<Longrightarrow>
    overlay_upd RtpExtensionHeader_enc RtpExtensionHeader_dec 12 f (hdr @ RtpExtensionHeader_enc x @ r) =
    hdr @ RtpExtensionHeader_enc (f x) @ r"
  by (simp add: ext.upd_eq ext.length_enc ext.dec_enc)

lemma zero_buffer:
  "replicate (12 + n) 0 = RtpHeader_enc (RtpHeader_dec (replicate 12 0)) @ replicate n (0 :: u8)"
proof -
  have "RtpHeader_enc (RtpHeader_dec (replicate 12 0)) = take 12 (replicate 12 0)"
    by (rule rtp.enc_dec) simp
  then show ?thesis by (simp only: replicate_add take_replicate min.idem)
qed

lemma extension_offset:
  "RtpHeader_getExtensionHeader (RtpHeader_enc (RtpHeader_setExtension True (packet_header0 c mark)) @ r) = Some 12"
  by (simp add: RtpHeader_getExtensionHeader_def Let_def RtpHeader_getSize_def)

lemma extension_written:
  assumes "n = rtpExtHeaderSize c mark" and "n \<noteq> 0" and "n \<le> 4 * 65536" and "length hdr = 12"
  defines "eupd \<equiv> overlay_upd RtpExtensionHeader_enc RtpExtensionHeader_dec 12"
  shows "writeExtensions c mark 12 (eupd (RtpExtensionHeader_setHeaderLength (of_nat (n div 4) - 1))
      (eupd (RtpExtensionHeader_setProfileSpecificId 0xbede) (hdr @ replicate n 0 @ r))) =
    Inr (hdr @ packet_extension c mark @ r)"
proof -
  have "4 \<le> n" "n mod 4 = 0" using assms rtpExtHeaderSize_mod [of c mark] by (simp_all, presburger)
  define x where "x = \<lparr>ext_profileSpecificId = htons 0xbede, ext_headerLength = htons (of_nat (n div 4) - 1)\<rparr>"
  have "replicate n 0 = replicate 4 0 @ replicate (n - 4) (0 :: u8)"
    using \<open>4 \<le> n\<close> by (simp flip: replicate_add)
  also have "replicate 4 (0 :: u8) = RtpExtensionHeader_enc (RtpExtensionHeader_dec (replicate 4 0))"
    using ext.enc_dec [of "replicate 4 0"] by simp
  finally have z: "replicate n 0 = RtpExtensionHeader_enc (RtpExtensionHeader_dec (replicate 4 0)) @ replicate (n - 4) 0" .
  have "eupd (RtpExtensionHeader_setHeaderLength (of_nat (n div 4) - 1))
      (eupd (RtpExtensionHeader_setProfileSpecificId 0xbede) (hdr @ replicate n 0 @ r)) =
      ext_packet hdr x (replicate (n - 4) 0) r"
    unfolding eupd_def z append_assoc upd_ext [OF assms(4)]
    by (simp add: ext_packet_def x_def RtpExtensionHeader_setHeaderLength_def
        RtpExtensionHeader_setProfileSpecificId_def RtpExtensionHeader_dec_def)
  moreover have "ext_ok hdr x (replicate (n - 4) 0)"
  proof -
    have k: "n div 4 \<noteq> 0" "n div 4 \<le> 65536" "(n div 4 - 1) * 4 = n - 4"
      using \<open>4 \<le> n\<close> \<open>n mod 4 = 0\<close> assms by presburger+
    then have "unat (of_nat (n div 4) - 1 :: u16) = n div 4 - 1"
      by (cases "n div 4") (simp_all add: unat_of_nat)
    then show ?thesis
      using k assms by (simp add: ext_ok_def x_def RtpExtensionHeader_getSize_def RtpExtensionHeader_headerLength_def)
  qed
  moreover have "packet_extension c mark = RtpExtensionHeader_enc x @ extension_body c mark (n - 4)"
    using assms(1,2) by (simp add: packet_extension_def Let_def x_def)
  ultimately show ?thesis
    using writeExtensions_body [of hdr x "replicate (n - 4) 0" c mark r] by (simp add: ext_packet_def)
qed

lemma packetize_eq:
  assumes "rtpExtHeaderSize c mark \<le> 4 * 65536"
  shows "RtpPacketizer_packetize payload mark c =
    Inr (make_message (RtpHeader_enc (packet_header c mark) @ packet_extension c mark @ payload) Binary 0 None None,
         c\<lparr>cfg_sequenceNumber := cfg_sequenceNumber c + 1\<rparr>)"
proof -
  define n where "n = rtpExtHeaderSize c mark"
  have buf: "msg_data (make_message_size (12 + n + length payload) Binary 0 None) =
      RtpHeader_enc (RtpHeader_dec (replicate 12 0)) @ replicate n 0 @ replicate (length payload) 0"
    unfolding make_message_size_def Message_init_def
    by (simp add: add.assoc zero_buffer [of "n + length payload", unfolded replicate_add [of n]])
  let ?upd = "overlay_upd RtpHeader_enc RtpHeader_dec 0"
  let ?X = "?upd (RtpHeader_setSsrc (cfg_ssrc c)) (?upd (RtpHeader_setTimestamp (cfg_timestamp c))
      (?upd (RtpHeader_setSeqNumber (cfg_sequenceNumber c)) (?upd (RtpHeader_setPayloadType (cfg_payloadType c))
        (msg_data (make_message_size (12 + n + length payload) Binary 0 None)))))"
  have hdr: "(if mark then ?upd (RtpHeader_setMarker True) ?X else ?X) =
      RtpHeader_enc (packet_header0 c mark) @ replicate n 0 @ replicate (length payload) 0"
    unfolding buf upd_header packet_header0_def by (simp add: Let_def)
  show ?thesis
  proof (cases "n = 0")
    case True
    then show ?thesis
      unfolding RtpPacketizer_packetize_def Let_def n_def [symmetric] hdr
      using True n_def by (simp add: upd_header packet_header_def packet_extension_def poke_def rtp.length_enc)
  next
    case False
    let ?h = "RtpHeader_setExtension True (packet_header0 c mark)"
    have "n \<le> 4 * 65536" using assms n_def by simp
    note ext = extension_written [OF n_def False this, of "RtpHeader_enc ?h" "replicate (length payload) 0"]
    show ?thesis
      unfolding RtpPacketizer_packetize_def Let_def n_def [symmetric] hdr upd_header extension_offset
      using False ext n_def length_packet_extension [of c mark]
      by (simp add: rtp.length_enc upd_header packet_header_def poke_def)
  qed
qed

lemma packet_header_fields:
  "RtpHeader_version (packet_header c mark) = 2"
  "\<not> RtpHeader_padding (packet_header c mark)"
  "RtpHeader_csrcCount (packet_header c mark) = 0"
  "RtpHeader_extension (packet_header c mark) \<longleftrightarrow> rtpExtHeaderSize c mark \<noteq> 0"
  "RtpHeader_marker (packet_header c mark) = (if mark then 0x80 else 0)"
  "RtpHeader_payloadType (packet_header c mark) = cfg_payloadType c AND 0x7F"
  "RtpHeader_seqNumber (packet_header c mark) = cfg_sequenceNumber c"
  "RtpHeader_timestamp (packet_header c mark) = cfg_timestamp c"
  "RtpHeader_ssrc (packet_header c mark) = cfg_ssrc c"
  by (simp_all add: packet_header_def packet_header0_def zero_header Let_def struct_defs u8_bits)

lemma packet_getSize: "RtpHeader_getSize (packet_header c mark) = 12"
  by (simp add: RtpHeader_getSize_def packet_header_fields)

lemma packet_getExtensionHeaderSize:
  assumes "rtpExtHeaderSize c mark \<le> 4 * 65536"
  shows "RtpHeader_getExtensionHeaderSize (RtpHeader_enc (packet_header c mark) @ packet_extension c mark @ r) =
    Inr (rtpExtHeaderSize c mark)"
proof (cases "rtpExtHeaderSize c mark = 0")
  case True
  then show ?thesis
    by (simp add: RtpHeader_getExtensionHeaderSize_def RtpHeader_getExtensionHeader_def Let_def packet_header_fields)
next
  case False
  let ?n = "rtpExtHeaderSize c mark"
  have k: "?n div 4 \<noteq> 0" "?n div 4 \<le> 65536" "(?n div 4 - 1) * 4 + 4 = ?n"
    using assms False rtpExtHeaderSize_mod [of c mark] by presburger+
  then have "unat (of_nat (?n div 4) - 1 :: u16) = ?n div 4 - 1"
    by (cases "?n div 4") (simp_all add: unat_of_nat)
  then show ?thesis
    using False k
    by (simp add: RtpHeader_getExtensionHeaderSize_def RtpHeader_getExtensionHeader_def Let_def
        packet_header_fields packet_getSize packet_extension_def rtp.length_enc ext.length_enc overlay_def
        ext.dec_enc RtpExtensionHeader_getSize_def RtpExtensionHeader_headerLength_def)
qed

text \<open>
  A packet made by \<open>packetize\<close> reads back: it has version 2, no padding, no CSRC, the configured
  payload type, sequence number, timestamp and SSRC, the marker when asked for; it has an extension
  header exactly when the configuration asks for an element; the body found by \<open>getBody\<close> is the
  payload; and the sequence number of the configuration advances by one modulo \<open>2 ^ 16\<close>.
\<close>

theorem packetize_reads_back:
  assumes "rtpExtHeaderSize c mark \<le> 4 * 65536"
  shows "\<exists>m. RtpPacketizer_packetize payload mark c =
      Inr (m, c\<lparr>cfg_sequenceNumber := cfg_sequenceNumber c + 1\<rparr>) \<and>
    (let h = RtpHeader_dec (msg_data m) in
       RtpHeader_version h = 2 \<and> \<not> RtpHeader_padding h \<and> RtpHeader_csrcCount h = 0 \<and>
       RtpHeader_extension h = (rtpExtHeaderSize c mark \<noteq> 0) \<and>
       RtpHeader_marker h = (if mark then 0x80 else 0) \<and>
       RtpHeader_payloadType h = cfg_payloadType c AND 0x7F \<and>
       RtpHeader_seqNumber h = cfg_sequenceNumber c \<and>
       RtpHeader_timestamp h = cfg_timestamp c \<and> RtpHeader_ssrc h = cfg_ssrc c) \<and>
    RtpHeader_getBody (msg_data m) = Inr (12 + rtpExtHeaderSize c mark) \<and>
    drop (12 + rtpExtHeaderSize c mark) (msg_data m) = payload"
proof -
  let ?m = "make_message (RtpHeader_enc (packet_header c mark) @ packet_extension c mark @ payload) Binary 0 None None"
  have "RtpHeader_getBody (msg_data ?m) = Inr (12 + rtpExtHeaderSize c mark)"
    using packet_getExtensionHeaderSize [OF assms] by (simp add: RtpHeader_getBody_def packet_getSize)
  moreover have "drop (12 + rtpExtHeaderSize c mark) (msg_data ?m) = payload"
    by (simp add: rtp.length_enc length_packet_extension)
  ultimately show ?thesis
    by (intro exI [of _ ?m]) (simp add: packetize_eq [OF assms] packet_header_fields Let_def)
qed

definition example_config :: RtpPacketizationConfig where
  "example_config = (RtpPacketizationConfig_init 65535 1000 42 ''cname'' 96 90000 0)\<lparr>cfg_midId := 3,
     cfg_mid := Some ''v''\<rparr>"

theorem packetize_reads_back_witness:
  "\<exists>m. RtpPacketizer_packetize [1, 2, 3] True example_config =
      Inr (m, example_config\<lparr>cfg_sequenceNumber := 0\<rparr>) \<and>
    RtpHeader_getBody (msg_data m) = Inr 20 \<and> drop 20 (msg_data m) = [1, 2, 3]"
proof -
  have "rtpExtHeaderSize example_config True = 8"
    by (simp add: rtpExtHeaderSize_def setVideoRotation_def setPlayoutDelay_def example_config_def
        RtpPacketizationConfig_init_def)
  moreover have "cfg_sequenceNumber example_config + 1 = 0"
    by (simp add: example_config_def RtpPacketizationConfig_init_def)
  ultimately show ?thesis
    using packetize_reads_back [of example_config True "[1, 2, 3]"] by auto
qed

section \<open>The layout of the extension elements\<close>

lemma poke_end:
  "length e \<le> k \<Longrightarrow> poke (a @ replicate k 0) (length a) e = a @ e @ replicate (k - length e) 0"
  by (simp add: poke_def)

lemma put_element_end:
  assumes "element_ok i v" and "1 + length v \<le> k" and "off = length a"
  shows "put_element off i v (a @ replicate k 0) = a @ element i v @ replicate (k - (1 + length v)) 0"
  using assms poke_end [of "element i v" k a] by (simp add: put_element_def)

definition elements :: "RtpPacketizationConfig \<Rightarrow> bool \<Rightarrow> binary" where
  "elements c mark =
     (if setVideoRotation c mark then element (cfg_videoOrientationId c) [cfg_videoOrientation c] else []) @
     (case cfg_mid c of Some s \<Rightarrow> element (cfg_midId c) (string_bytes s) | None \<Rightarrow> [])"

definition elements_ok :: "RtpPacketizationConfig \<Rightarrow> bool" where
  "elements_ok c \<longleftrightarrow> (\<forall>s. cfg_mid c = Some s \<longrightarrow> element_ok (cfg_midId c) (string_bytes s)) \<and>
     (\<forall>s. cfg_rid c = Some s \<longrightarrow> element_ok (cfg_ridId c) (string_bytes s))"

lemma u8_le_14: "i < 15 \<longleftrightarrow> i \<le> (14 :: u8)"
  by (auto simp: word_less_nat_alt word_le_nat_alt)

lemma extension_body_prefix:
  assumes "elements_ok c" and "length (elements c mark) \<le> n"
  shows "extension_body c mark n =
    (let a = elements c mark;
         body = (case cfg_rid c of
               Some s \<Rightarrow> put_element (length a) (cfg_ridId c) (string_bytes s) (a @ replicate (n - length a) 0)
             | None \<Rightarrow> a @ replicate (n - length a) 0)
     in if setPlayoutDelay c
        then put_element (length a) (cfg_playoutDelayId c)
               (playoutDelayData (cfg_playoutDelayMin c) (cfg_playoutDelayMax c)) body
        else body)"
proof -
  let ?cvo = "element (cfg_videoOrientationId c) [cfg_videoOrientation c]"
  have cvo: "put_element 0 (cfg_videoOrientationId c) [cfg_videoOrientation c] (replicate n 0) =
      ?cvo @ replicate (n - 2) 0" if "setVideoRotation c mark"
    using that put_element_end [of "cfg_videoOrientationId c" "[cfg_videoOrientation c]" n 0 "[]"] assms(2)
    by (auto simp: element_ok_def setVideoRotation_def elements_def u8_le_14)
  show ?thesis
  proof (cases "cfg_mid c")
    case None
    then show ?thesis using cvo assms
      by (cases "cfg_rid c") (simp_all add: extension_body_def elements_def Let_def numeral_2_eq_2)
  next
    case (Some s)
    have ok: "element_ok (cfg_midId c) (string_bytes s)"
      using assms Some by (simp add: elements_ok_def)
    show ?thesis
      using Some cvo assms(2) put_element_end [OF ok, of n 0 "[]"] put_element_end [OF ok, of "n - 2" 2 ?cvo]
      by (cases "cfg_rid c"; cases "setVideoRotation c mark") (simp_all add: extension_body_def elements_def Let_def numeral_2_eq_2)
  qed
qed

text \<open>The size computed beforehand has room for every element, and fewer than 4 bytes more.\<close>

definition rid_size :: "RtpPacketizationConfig \<Rightarrow> nat" where
  "rid_size c = (case cfg_rid c of Some s \<Rightarrow> 1 + length s | None \<Rightarrow> 0)"

lemma rtpExtHeaderSize_room:
  assumes "rtpExtHeaderSize c mark \<noteq> 0"
  shows "length (elements c mark) + rid_size c + (if setPlayoutDelay c then 4 else 0) + 4 \<le> rtpExtHeaderSize c mark"
    and "rtpExtHeaderSize c mark < length (elements c mark) + rid_size c + (if setPlayoutDelay c then 4 else 0) + 8"
proof -
  define k where "k = length (elements c mark) + rid_size c + (if setPlayoutDelay c then 4 else 0)"
  have "rtpExtHeaderSize c mark = ((if k \<noteq> 0 then k + 4 else 0) + 3) div 4 * 4"
    unfolding k_def rid_size_def elements_def rtpExtHeaderSize_def Let_def
    by (cases "cfg_mid c"; cases "cfg_rid c"; cases "setVideoRotation c mark"; cases "setPlayoutDelay c")
      (simp_all add: ac_simps)
  with assms have "rtpExtHeaderSize c mark = (k + 7) div 4 * 4"
    by (auto split: if_splits)
  then have "k + 4 \<le> rtpExtHeaderSize c mark \<and> rtpExtHeaderSize c mark < k + 8" by presburger
  then show "length (elements c mark) + rid_size c + (if setPlayoutDelay c then 4 else 0) + 4 \<le> rtpExtHeaderSize c mark"
    and "rtpExtHeaderSize c mark < length (elements c mark) + rid_size c + (if setPlayoutDelay c then 4 else 0) + 8"
    unfolding k_def by simp_all
qed

lemma length_playoutDelayData [simp]: "length (playoutDelayData a b) = 3"
  by (simp add: playoutDelayData_def Let_def)

lemma playout_element_ok: "setPlayoutDelay c \<Longrightarrow> element_ok (cfg_playoutDelayId c) (playoutDelayData a b)"
  by (auto simp: element_ok_def setPlayoutDelay_def u8_le_14 playoutDelayData_def Let_def)

abbreviation delay_element :: "RtpPacketizationConfig \<Rightarrow> binary" where
  "delay_element c \<equiv> element (cfg_playoutDelayId c) (playoutDelayData (cfg_playoutDelayMin c) (cfg_playoutDelayMax c))"

lemma packetize_extension_at_16:
  assumes "rtpExtHeaderSize c mark \<le> 4 * 65536" and "rtpExtHeaderSize c mark \<noteq> 0"
    and "RtpPacketizer_packetize payload mark c = Inr (m, c')"
  shows "drop 16 (msg_data m) = extension_body c mark (rtpExtHeaderSize c mark - 4) @ payload"
proof -
  have "4 \<le> rtpExtHeaderSize c mark" using rtpExtHeaderSize_room(1) [OF assms(2)] by simp
  then show ?thesis
    using assms packetize_eq [OF assms(1), of payload]
    by (auto simp: packet_extension_def Let_def rtp.length_enc ext.length_enc)
qed

text \<open>
  When the MID and RID elements can be encoded (identifier 1 to 14, 1 to 16 bytes) and RID and
  playout delay are not both configured, the extension of a packet holds exactly the configured
  elements, one behind the other in the order orientation, MID, RID, playout delay, each a byte with
  its identifier and length minus one followed by its value; behind them at most 3 zero bytes of
  padding, and then the payload.
\<close>

theorem packetize_extension_elements:
  assumes "rtpExtHeaderSize c mark \<le> 4 * 65536" and "rtpExtHeaderSize c mark \<noteq> 0" and "elements_ok c"
    and "cfg_rid c = None \<or> \<not> setPlayoutDelay c"
    and "RtpPacketizer_packetize payload mark c = Inr (m, c')"
  shows "\<exists>pad < 4. drop 16 (msg_data m) =
    elements c mark @ (case cfg_rid c of Some s \<Rightarrow> element (cfg_ridId c) (string_bytes s) | None \<Rightarrow> []) @
    (if setPlayoutDelay c then delay_element c else []) @ replicate pad 0 @ payload"
proof -
  let ?a = "elements c mark" and ?n = "rtpExtHeaderSize c mark - 4"
  note room = rtpExtHeaderSize_room [OF assms(2)]
  have "extension_body c mark ?n =
      ?a @ (case cfg_rid c of Some s \<Rightarrow> element (cfg_ridId c) (string_bytes s) | None \<Rightarrow> []) @
      (if setPlayoutDelay c then delay_element c else []) @
      replicate (?n - length ?a - rid_size c - (if setPlayoutDelay c then 4 else 0)) 0"
  proof (cases "cfg_rid c")
    case None
    then show ?thesis
      using room playout_element_ok [of c] assms(3)
      by (cases "setPlayoutDelay c") (simp_all add: extension_body_prefix Let_def put_element_end rid_size_def)
  next
    case (Some s)
    then have "\<not> setPlayoutDelay c" "element_ok (cfg_ridId c) (string_bytes s)"
      using assms by (simp_all add: elements_ok_def)
    then show ?thesis
      using room Some assms(3)
      by (simp add: extension_body_prefix Let_def put_element_end rid_size_def)
  qed
  then show ?thesis
    using room packetize_extension_at_16 [OF assms(1,2,5)]
    by (intro exI [of _ "?n - length ?a - rid_size c - (if setPlayoutDelay c then 4 else 0)"]) auto
qed

theorem packetize_extension_elements_witness:
  "\<exists>m pad. RtpPacketizer_packetize [7] True example_config = Inr (m, example_config\<lparr>cfg_sequenceNumber := 0\<rparr>) \<and>
     drop 16 (msg_data m) = [0x30, 0x76] @ replicate pad 0 @ [7]"
proof -
  have n: "rtpExtHeaderSize example_config True = 8" "\<not> setPlayoutDelay example_config"
    "\<not> setVideoRotation example_config True" "elements_ok example_config"
    "cfg_sequenceNumber example_config + 1 = 0"
    by (simp_all add: rtpExtHeaderSize_def setVideoRotation_def setPlayoutDelay_def example_config_def
        RtpPacketizationConfig_init_def elements_ok_def element_ok_def string_bytes_def)
  obtain m where m: "RtpPacketizer_packetize [7] True example_config = Inr (m, example_config\<lparr>cfg_sequenceNumber := 0\<rparr>)"
    using packetize_eq [of example_config True "[7]"] n by simp
  show ?thesis
    using packetize_extension_elements [OF _ _ _ _ m] n m
    by (auto simp: elements_def element_def example_config_def RtpPacketizationConfig_init_def string_bytes_def)
qed

text \<open>
  With both RID and playout delay configured, the playout delay element is written over the
  beginning of the RID element, because the offset is not advanced after the RID: the byte that
  should open the RID element opens the playout delay element.
\<close>

theorem playout_delay_overwrites_rid:
  assumes "rtpExtHeaderSize c mark \<le> 4 * 65536" and "elements_ok c"
    and "cfg_rid c = Some rid" and "setPlayoutDelay c"
    and "RtpPacketizer_packetize payload mark c = Inr (m, c')"
  shows "take (length (elements c mark) + 4) (drop 16 (msg_data m)) = elements c mark @ delay_element c"
proof -
  let ?a = "elements c mark" and ?n = "rtpExtHeaderSize c mark - 4"
  have nz: "rtpExtHeaderSize c mark \<noteq> 0"
    using assms(4) by (auto simp: rtpExtHeaderSize_def Let_def split: option.splits)
  note room = rtpExtHeaderSize_room [OF nz]
  have ok: "element_ok (cfg_ridId c) (string_bytes rid)" using assms by (simp add: elements_ok_def)
  define tail where "tail = element (cfg_ridId c) (string_bytes rid) @ replicate (?n - length ?a - (1 + length rid)) 0"
  have "length tail \<ge> 4" using room assms by (simp add: tail_def rid_size_def)
  have "extension_body c mark ?n = put_element (length ?a) (cfg_playoutDelayId c)
      (playoutDelayData (cfg_playoutDelayMin c) (cfg_playoutDelayMax c)) (?a @ tail)"
    using room ok assms(2-4) by (simp add: extension_body_prefix Let_def put_element_end rid_size_def tail_def)
  also have "\<dots> = ?a @ delay_element c @ drop 4 tail"
    using playout_element_ok [OF assms(4)] \<open>length tail \<ge> 4\<close> by (simp add: put_element_def poke_def)
  finally show ?thesis
    using packetize_extension_at_16 [OF assms(1) nz assms(5)] by simp
qed

theorem playout_delay_overwrites_rid_witness:
  "\<exists>m c'. RtpPacketizer_packetize [] False
      (example_config\<lparr>cfg_mid := None, cfg_ridId := 4, cfg_rid := Some ''hi'', cfg_playoutDelayId := 5\<rparr>) = Inr (m, c') \<and>
    take 4 (drop 16 (msg_data m)) = [0x52, 0, 0, 0]"
proof -
  let ?c = "example_config\<lparr>cfg_mid := None, cfg_ridId := 4, cfg_rid := Some ''hi'', cfg_playoutDelayId := 5\<rparr>"
  have n: "rtpExtHeaderSize ?c False = 12" "setPlayoutDelay ?c" "elements_ok ?c" "elements ?c False = []"
    "delay_element ?c = [0x52, 0, 0, 0]"
    by (simp_all add: rtpExtHeaderSize_def setVideoRotation_def setPlayoutDelay_def example_config_def elements_def
        RtpPacketizationConfig_init_def elements_ok_def element_ok_def string_bytes_def element_def playoutDelayData_def)
  obtain m c' where m: "RtpPacketizer_packetize [] False ?c = Inr (m, c')"
    using packetize_eq [of ?c False "[]"] n by simp
  show ?thesis
    using playout_delay_overwrites_rid [OF _ _ _ _ m] n m by auto
qed

section \<open>Splitting what was joined\<close>

definition with_length :: "binary \<Rightarrow> binary" where
  "with_length u = bytes32 (htonl (of_nat (length u))) @ u"

lemma splitMessage_length_run:
  assumes "\<forall>u \<in> set us. length u < 2 ^ 32" and "us = [] \<or> last us \<noteq> []"
  shows "splitMessage_length (pre @ concat (map with_length us)) (length pre) = us"
  using assms
proof (induction us arbitrary: pre)
  case Nil
  then show ?case by (simp add: splitMessage_length.simps)
next
  case (Cons u us)
  let ?rest = "concat (map with_length us)" and ?m = "pre @ concat (map with_length (u # us))"
  have "u \<noteq> [] \<or> ?rest \<noteq> []"
    using Cons.prems by (cases us) (auto simp: with_length_def split: if_splits dest: arg_cong [where f = length])
  then have more: "length pre + 4 < length ?m" by (auto simp: with_length_def)
  have "ld32 ?m (length pre) = htonl (of_nat (length u))"
    using ld_drop(2) [of "length pre" ?m 0] by (simp add: with_length_def)
  then have n: "unat (ntohl (ld32 ?m (length pre))) = length u"
    using Cons.prems by (simp add: unat_of_nat)
  have m: "?m = (pre @ with_length u) @ ?rest" by simp
  have "us = [] \<or> last us \<noteq> []" using Cons.prems(2) by (auto split: if_splits)
  then have "splitMessage_length ?m (length (pre @ with_length u)) = us"
    using Cons.IH [of "pre @ with_length u"] Cons.prems(1) by simp
  then have "splitMessage_length ?m (length pre + 4 + length u) = us"
    by (simp add: with_length_def add.assoc del: concat.simps list.map)
  then show ?case
    using more n unfolding splitMessage_length.simps [of ?m "length pre"]
    by (simp add: Let_def slice_def) (simp add: with_length_def)
qed

text \<open>
  Length-prefixed access units: \<open>splitMessage\<close> of the concatenation of NAL units, each preceded
  by its 32-bit big-endian length, gives the NAL units back, provided the last is not empty (a final
  prefix with nothing behind it is taken for an incomplete one).
\<close>

theorem splitMessage_length_roundtrip:
  assumes "\<forall>u \<in> set us. length u < 2 ^ 32" and "us = [] \<or> last us \<noteq> []"
  shows "splitMessage Length (concat (map with_length us)) = us"
  using splitMessage_length_run [OF assms, of "[]"] by (simp add: splitMessage_def)

theorem splitMessage_length_roundtrip_witness:
  "splitMessage Length ([0, 0, 0, 2, 0x67, 1] @ [0, 0, 0, 0] @ [0, 0, 0, 1, 0x65]) = [[0x67, 1], [], [0x65]]"
proof -
  have "concat (map with_length [[0x67, 1], [], [0x65]]) =
      [0, 0, 0, 2, 0x67, 1] @ [0, 0, 0, 0] @ [0, 0, 0, 1, 0x65]"
    by (simp add: with_length_def bytes_hton bytes32_def [of 0] bytes16_def)
  then show ?thesis
    using splitMessage_length_roundtrip [of "[[0x67, 1], [], [0x65]]"] by simp
qed

text \<open>Start sequences. A NAL unit carries emulation prevention: two zero bytes are never followed by
  a byte 0 or 1, and the last byte is not zero (annex B of H.264 and H.265).\<close>

fun no_start_code :: "binary \<Rightarrow> bool" where
  "no_start_code (x # y # z # r) \<longleftrightarrow> \<not> (x = 0 \<and> y = 0 \<and> (z = 0 \<or> z = 1)) \<and> no_start_code (y # z # r)"
| "no_start_code _ \<longleftrightarrow> True"

definition byte_stream_unit :: "binary \<Rightarrow> bool" where
  "byte_stream_unit u \<longleftrightarrow> no_start_code u \<and> (u \<noteq> [] \<longrightarrow> last u \<noteq> 0)"

definition start_code :: "Separator \<Rightarrow> binary" where
  "start_code sep = (if sep = ShortStartSequence then [0, 0, 1] else [0, 0, 0, 1])"

fun zeros_seen :: "NalUnitStartSequenceMatch \<Rightarrow> binary" where
  "zeros_seen NUSM_firstZero = [0]"
| "zeros_seen NUSM_secondZero = [0, 0]"
| "zeros_seen _ = []"

fun scanning :: "NalUnitStartSequenceMatch \<Rightarrow> bool" where
  "scanning NUSM_noMatch = True"
| "scanning NUSM_firstZero = True"
| "scanning NUSM_secondZero = True"
| "scanning _ = False"

lemma succ_scanning:
  assumes "scanning st" and "no_start_code (zeros_seen st @ b # u)"
  shows "scanning (StartSequenceMatchSucc st b sep)"
    and "no_start_code (zeros_seen (StartSequenceMatchSucc st b sep) @ u)"
    and "\<not> is_match (StartSequenceMatchSucc st b sep)"
    and "b \<noteq> 0 \<Longrightarrow> StartSequenceMatchSucc st b sep = NUSM_noMatch"
proof -
  have tl: "no_start_code (x # r) \<Longrightarrow> no_start_code r" for x r
    by (cases r rule: no_start_code.cases) auto
  show "scanning (StartSequenceMatchSucc st b sep)" "\<not> is_match (StartSequenceMatchSucc st b sep)"
    "b \<noteq> 0 \<Longrightarrow> StartSequenceMatchSucc st b sep = NUSM_noMatch"
    using assms by (cases st; auto)+
  show "no_start_code (zeros_seen (StartSequenceMatchSucc st b sep) @ u)"
    using assms by (cases st) (auto dest: tl)
qed

lemma split_rest_scan:
  assumes "scanning st" and "no_start_code (zeros_seen st @ u)" and "u \<noteq> [] \<Longrightarrow> last u \<noteq> 0"
    and "u = [] \<Longrightarrow> st = NUSM_noMatch"
  shows "split_rest sep (pre @ u @ rest) start (length pre) st =
    split_rest sep (pre @ u @ rest) start (length pre + length u) NUSM_noMatch"
  using assms
proof (induction u arbitrary: pre st)
  case Nil
  then show ?case by simp
next
  case (Cons b u)
  note succ = succ_scanning [OF Cons.prems(1,2), of sep]
  have "split_rest sep (pre @ (b # u) @ rest) start (length pre) st =
      split_rest sep ((pre @ [b]) @ u @ rest) start (length (pre @ [b])) (StartSequenceMatchSucc st b sep)"
    using succ(3) unfolding split_rest.simps [of _ _ _ "length pre"] by (simp add: Let_def)
  also have "\<dots> = split_rest sep ((pre @ [b]) @ u @ rest) start (length (pre @ [b]) + length u) NUSM_noMatch"
    using Cons.prems(3) succ by (intro Cons.IH) (auto split: if_splits)
  finally show ?case by simp
qed

lemma split_rest_start_code:
  assumes "sep \<noteq> Length"
  shows "split_rest sep (pre @ start_code sep @ rest) start (length pre) NUSM_noMatch =
    slice start (length pre) (pre @ start_code sep @ rest) #
    split_rest sep (pre @ start_code sep @ rest) (length pre + length (start_code sep))
      (length pre + length (start_code sep)) NUSM_noMatch"
proof -
  let ?k = "length pre"
  have step: "split_rest s m start k st = split_rest s m start (Suc k) (StartSequenceMatchSucc st (m ! k) s)"
    if "k < length m" "\<not> is_match (StartSequenceMatchSucc st (m ! k) s)" for s m k st
    using that by (simp add: split_rest.simps [of _ _ _ k] Let_def)
  have hit: "split_rest s m start k st =
      slice start (k + 1 - (if StartSequenceMatchSucc st (m ! k) s = NUSM_longMatch then 4 else 3)) m #
      split_rest s m (Suc k) (Suc k) NUSM_noMatch"
    if "k < length m" "is_match (StartSequenceMatchSucc st (m ! k) s)" for s m k st
    using that by (simp add: split_rest.simps [of _ _ _ k] Let_def)
  show ?thesis
    using assms
    by (cases sep)
      (simp_all add: start_code_def step hit nth_append detectShort_def detectLong_def numeral_eq_Suc)
qed

lemma split_rest_units:
  assumes "sep \<noteq> Length" and "byte_stream_unit u" and "\<forall>v \<in> set us. byte_stream_unit v"
  shows "split_rest sep (pre @ u @ concat (map ((@) (start_code sep)) us)) (length pre) (length pre) NUSM_noMatch = u # us"
  using assms(2,3)
proof (induction us arbitrary: pre u)
  case Nil
  then show ?case
    using split_rest_scan [of NUSM_noMatch u sep pre "[]" "length pre"]
    by (simp add: byte_stream_unit_def split_rest.simps [of _ _ _ "length pre + length u"])
next
  case (Cons v us)
  let ?m = "(pre @ u) @ start_code sep @ v @ concat (map ((@) (start_code sep)) us)"
  have "split_rest sep ?m (length pre) (length pre) NUSM_noMatch =
      split_rest sep ?m (length pre) (length (pre @ u)) NUSM_noMatch"
    using split_rest_scan [of NUSM_noMatch u sep pre "start_code sep @ v @ concat (map ((@) (start_code sep)) us)"]
      Cons.prems(1) by (simp add: byte_stream_unit_def)
  also have "\<dots> = slice (length pre) (length (pre @ u)) ?m # split_rest sep ?m
      (length ((pre @ u) @ start_code sep)) (length ((pre @ u) @ start_code sep)) NUSM_noMatch"
    using split_rest_start_code [OF assms(1), of "pre @ u"] by (simp add: add.assoc)
  also have "\<dots> = u # v # us"
    using Cons.IH [of v "(pre @ u) @ start_code sep"] Cons.prems by (simp add: slice_def)
  finally show ?case by simp
qed

lemma skip_first_start_code:
  assumes "sep \<noteq> Length"
  shows "skip_first sep (start_code sep @ rest) 0 NUSM_noMatch = (length (start_code sep), NUSM_noMatch)"
  using assms by (cases sep)
    (simp_all add: start_code_def skip_first.simps detectShort_def detectLong_def numeral_eq_Suc)

lemma splitMessage_byte_stream:
  assumes "sep \<noteq> Length" and "us \<noteq> []" and "\<forall>u \<in> set us. byte_stream_unit u"
  shows "splitMessage sep (concat (map ((@) (start_code sep)) us)) = us"
proof -
  obtain u vs where us: "us = u # vs" using assms(2) by (cases us) auto
  then show ?thesis
    using assms skip_first_start_code [OF assms(1)] split_rest_units [OF assms(1), of u vs "start_code sep"]
    by (simp add: splitMessage_def)
qed

text \<open>
  Byte streams: for every separator mode with start sequences, \<open>splitMessage\<close> of NAL units each
  preceded by the start sequence of the mode gives the NAL units back, provided they carry emulation
  prevention.
\<close>

theorem splitMessage_start_sequence_roundtrip:
  assumes "sep \<noteq> Length" and "us \<noteq> []" and "\<forall>u \<in> set us. byte_stream_unit u"
  shows "splitMessage sep (concat (map ((@) (start_code sep)) us)) = us"
  using assms by (rule splitMessage_byte_stream)

theorem splitMessage_start_sequence_roundtrip_witness:
  "splitMessage StartSequence [0, 0, 0, 1, 0x67, 0, 0, 3, 0, 0, 0, 1, 0x65, 9] = [[0x67, 0, 0, 3], [0x65, 9]]"
  using splitMessage_start_sequence_roundtrip [of StartSequence "[[0x67, 0, 0, 3], [0x65, 9]]"]
  by (simp add: start_code_def byte_stream_unit_def)

end
