(* ===== verification/Depacketizer.thy ===== *)
theory Depacketizer
  imports Packetizer
begin

text \<open>
  From RTP packets back to media: \<open>src/rtpdepacketizer.cpp\<close>, \<open>src/h264rtpdepacketizer.cpp\<close>,
  \<open>src/h265rtpdepacketizer.cpp\<close>. The depacketizers of H.264 and H.265 buffer packets and build a
  frame once a packet with another timestamp has arrived; their \<open>incoming\<close> functions have the same
  text, so the definition has \<open>buildFrames\<close> as its parameter. A vector access with \<open>at\<close> raises
  \<open>OutOfRange\<close>. When \<open>buildFrames\<close> raises, \<open>incoming\<close> does, and the buffer is left as it was.
\<close>

section \<open>The generic depacketizer\<close>

fun RtpDepacketizer_incoming :: "Message list \<Rightarrow> Message list result" where
  "RtpDepacketizer_incoming [] = Inr []"
| "RtpDepacketizer_incoming (message # messages) =
     (if msg_type message = Control then
        bind_result (RtpDepacketizer_incoming messages) (\<lambda>r. Inr (message # r))
      else if length (msg_data message) < 12 then RtpDepacketizer_incoming messages
      else
        let pkt = RtpHeader_dec (msg_data message)
        in bind_result (RtpHeader_getExtensionHeaderSize (msg_data message)) (\<lambda>extSize.
           let headerSize = 12 + unat (RtpHeader_csrcCount pkt) + extSize
           in if headerSize > length (msg_data message) then Inl OutOfBounds
              else bind_result (RtpDepacketizer_incoming messages) (\<lambda>r.
                Inr (make_message (drop headerSize (msg_data message)) Binary 0 None
                       (Some \<lparr>fi_payloadType = RtpHeader_payloadType pkt,
                              fi_timestamp = RtpHeader_timestamp pkt\<rparr>) # r))))"

section \<open>Building a frame\<close>

definition naluLongStartCode :: binary where "naluLongStartCode = [0, 0, 0, 1]"
definition naluShortStartCode :: binary where "naluShortStartCode = [0, 0, 1]"
definition naluTypeSTAPA :: u8 where "naluTypeSTAPA = 24"
definition naluTypeFUA :: u8 where "naluTypeFUA = 28"
definition naluTypeAP :: u8 where "naluTypeAP = 48"
definition naluTypeFU :: u8 where "naluTypeFU = 49"

definition at :: "binary \<Rightarrow> nat \<Rightarrow> u8 result" where
  "at b i = (if i < length b then Inr (b ! i) else Inl OutOfRange)"

definition addSeparator :: "Separator \<Rightarrow> binary \<Rightarrow> binary result" where
  "addSeparator sep accessUnit =
     (if sep = StartSequence \<or> sep = LongStartSequence then Inr (accessUnit @ naluLongStartCode)
      else if sep = ShortStartSequence then Inr (accessUnit @ naluShortStartCode)
      else Inl (InvalidArgument ''Invalid separator''))"

text \<open>The constructors of both classes: any separator but \<open>Length\<close>.\<close>

definition NalRtpDepacketizer_valid :: "Separator \<Rightarrow> bool result" where
  "NalRtpDepacketizer_valid sep =
     (if sep \<noteq> StartSequence \<and> sep \<noteq> LongStartSequence \<and> sep \<noteq> ShortStartSequence
      then Inl (InvalidArgument ''Invalid separator'') else Inr True)"

definition rtpHeaderSize :: "binary \<Rightarrow> nat result" where
  "rtpHeaderSize pkt = bind_result (RtpHeader_getExtensionHeaderSize pkt)
     (\<lambda>n. Inr (RtpHeader_getSize (RtpHeader_dec pkt) + n))"

definition rtpPaddingSize :: "binary \<Rightarrow> nat result" where
  "rtpPaddingSize pkt =
     (if RtpHeader_padding (RtpHeader_dec pkt)
      then bind_result (at pkt (length pkt - 1)) (\<lambda>b. Inr (unat b)) else Inr 0)"

text \<open>The loop over an aggregation packet, STAP-A of H.264 and AP of H.265.\<close>

function aggregated :: "string \<Rightarrow> Separator \<Rightarrow> binary \<Rightarrow> nat \<Rightarrow> binary \<Rightarrow> binary result" where
  "aggregated what sep pkt currOffset accessUnit =
     (if currOffset + 2 < length pkt then
        let naluSize = 256 * unat (pkt ! currOffset) + unat (pkt ! (currOffset + 1));
            off = currOffset + 2
        in if length pkt < off + naluSize then Inl (RuntimeError what)
           else case addSeparator sep accessUnit of
                  Inl e \<Rightarrow> Inl e
                | Inr au \<Rightarrow> aggregated what sep pkt (off + naluSize) (au @ slice off (off + naluSize) pkt)
      else Inr accessUnit)"
  by auto
termination
  by (relation "measure (\<lambda>(what, sep, pkt, off, au). length pkt - off)") auto

declare aggregated.simps [simp del]

definition H264_packet :: "Separator \<Rightarrow> binary \<Rightarrow> binary \<Rightarrow> binary result" where
  "H264_packet sep pkt accessUnit =
     bind_result (rtpHeaderSize pkt) (\<lambda>hs.
     bind_result (rtpPaddingSize pkt) (\<lambda>ps.
     if length pkt = hs + ps then Inr accessUnit
     else bind_result (at pkt hs) (\<lambda>nalUnitHeader.
       let unitType = NalUnitHeader_unitType nalUnitHeader
       in if unitType = naluTypeFUA then
            bind_result (at pkt (hs + 1)) (\<lambda>fragmentHeader.
            bind_result
              (if FragmentHeader_isStart fragmentHeader \<or> accessUnit = [] then
                 bind_result (addSeparator sep accessUnit) (\<lambda>au.
                   Inr (au @ [NalUnitHeader_idc nalUnitHeader OR FragmentHeader_unitType fragmentHeader]))
               else Inr accessUnit)
              (\<lambda>au. Inr (au @ drop (hs + 2) pkt)))
          else if unitType > 0 \<and> unitType < 24 then
            bind_result (addSeparator sep accessUnit) (\<lambda>au. Inr (au @ drop hs pkt))
          else if unitType = naluTypeSTAPA then
            aggregated ''H264 STAP-A declared size is larger than buffer'' sep pkt (hs + 1) accessUnit
          else Inl (RuntimeError ''Unknown H264 RTP Packetization''))))"

definition H265_packet :: "Separator \<Rightarrow> binary \<Rightarrow> binary \<Rightarrow> binary result" where
  "H265_packet sep pkt accessUnit =
     bind_result (rtpHeaderSize pkt) (\<lambda>hs.
     bind_result (rtpPaddingSize pkt) (\<lambda>ps.
     if length pkt = hs + ps then Inr accessUnit
     else bind_result (at pkt hs) (\<lambda>b0. bind_result (at pkt (hs + 1)) (\<lambda>b1.
       let nalUnitHeader = \<lparr>h265_first = b0, h265_second = b1\<rparr>;
           unitType = H265NalUnitHeader_unitType nalUnitHeader
       in if unitType = naluTypeFU then
            bind_result (at pkt (hs + 2)) (\<lambda>fragmentHeader.
            bind_result
              (if FragmentHeader_isStart fragmentHeader \<or> accessUnit = [] then
                 bind_result (addSeparator sep accessUnit) (\<lambda>au.
                   let h = H265NalUnitHeader_setUnitType (H265FragmentHeader_unitType fragmentHeader) nalUnitHeader
                   in Inr (au @ [h265_first h, h265_second h]))
               else Inr accessUnit)
              (\<lambda>au. Inr (au @ drop (hs + 3) pkt)))
          else if unitType = naluTypeAP then
            aggregated ''H265 AP declared size is larger than buffer'' sep pkt (hs + 2) accessUnit
          else if unitType < naluTypeAP then
            bind_result (addSeparator sep accessUnit) (\<lambda>au. Inr (au @ drop hs pkt))
          else Inr accessUnit))))"

fun access_unit :: "(binary \<Rightarrow> binary \<Rightarrow> binary result) \<Rightarrow> Message list \<Rightarrow> binary \<Rightarrow> binary result" where
  "access_unit packet [] accessUnit = Inr accessUnit"
| "access_unit packet (m # ms) accessUnit =
     bind_result (packet (msg_data m) accessUnit) (\<lambda>au. access_unit packet ms au)"

definition buildFrames ::
  "(binary \<Rightarrow> binary \<Rightarrow> binary result) \<Rightarrow> Message list \<Rightarrow> u8 \<Rightarrow> u32 \<Rightarrow> Message list result" where
  "buildFrames packet pkts payloadType timestamp =
     bind_result (access_unit packet pkts []) (\<lambda>accessUnit.
       Inr (if accessUnit \<noteq> []
            then [make_message accessUnit Binary 0 None
                    (Some \<lparr>fi_payloadType = payloadType, fi_timestamp = timestamp\<rparr>)]
            else []))"

definition H264_buildFrames :: "Separator \<Rightarrow> Message list \<Rightarrow> u8 \<Rightarrow> u32 \<Rightarrow> Message list result" where
  "H264_buildFrames sep = buildFrames (H264_packet sep)"

definition H265_buildFrames :: "Separator \<Rightarrow> Message list \<Rightarrow> u8 \<Rightarrow> u32 \<Rightarrow> Message list result" where
  "H265_buildFrames sep = buildFrames (H265_packet sep)"

section \<open>The packet buffer\<close>

fun packets_in_timestamp :: "Message list \<Rightarrow> u8 \<Rightarrow> u32 \<Rightarrow> nat \<Rightarrow> u8 \<times> u32 \<times> nat" where
  "packets_in_timestamp [] payload_type current_timestamp n = (payload_type, current_timestamp, n)"
| "packets_in_timestamp (pkt # pkts) payload_type current_timestamp n =
     (let p = RtpHeader_dec (msg_data pkt)
      in if current_timestamp = 0
         then packets_in_timestamp pkts (RtpHeader_payloadType p) (RtpHeader_timestamp p) (n + 1)
         else if current_timestamp \<noteq> RtpHeader_timestamp p then (payload_type, current_timestamp, n)
         else packets_in_timestamp pkts payload_type current_timestamp (n + 1))"

lemma packets_in_timestamp_ge: "packets_in_timestamp pkts pt ts n = (pt', ts', k) \<Longrightarrow> n \<le> k"
  by (induction pkts arbitrary: pt ts n) (auto simp: Let_def split: if_splits dest!: Suc_leD)

lemma packets_in_timestamp_pos:
  "pkts \<noteq> [] \<Longrightarrow> packets_in_timestamp pkts 0 0 0 = (pt', ts', k) \<Longrightarrow> 0 < k"
  by (cases pkts) (auto simp: Let_def dest!: packets_in_timestamp_ge)

lemma packets_in_timestamp_less:
  "pkts \<noteq> [] \<Longrightarrow> (pt', ts', k) = packets_in_timestamp pkts 0 0 0 \<Longrightarrow> length pkts - k < length pkts"
  using packets_in_timestamp_pos [of pkts pt' ts' k] by simp

function drain ::
  "(Message list \<Rightarrow> u8 \<Rightarrow> u32 \<Rightarrow> Message list result) \<Rightarrow> Message list \<Rightarrow> Message list \<Rightarrow>
   Message list result \<times> Message list" where
  "drain build mRtpBuffer messages =
     (if mRtpBuffer = [] then (Inr messages, mRtpBuffer)
      else case packets_in_timestamp mRtpBuffer 0 0 0 of (payload_type, current_timestamp, n) \<Rightarrow>
        if n = length mRtpBuffer then (Inr messages, mRtpBuffer)
        else case build (take n mRtpBuffer) payload_type current_timestamp of
               Inl e \<Rightarrow> (Inl e, mRtpBuffer)
             | Inr frames \<Rightarrow> drain build (drop n mRtpBuffer) (messages @ frames))"
  by auto
termination
  by (relation "measure (\<lambda>(build, buf, ms). length buf)") (auto intro: packets_in_timestamp_less)

declare drain.simps [simp del]

definition NalRtpDepacketizer_incoming ::
  "(Message list \<Rightarrow> u8 \<Rightarrow> u32 \<Rightarrow> Message list result) \<Rightarrow> Message list \<Rightarrow> Message list \<Rightarrow>
   Message list result \<times> Message list" where
  "NalRtpDepacketizer_incoming build messages mRtpBuffer =
     drain build
       (mRtpBuffer @ filter (\<lambda>m. msg_type m \<noteq> Control \<and> \<not> length (msg_data m) < 12) messages)
       (filter (\<lambda>m. msg_type m = Control) messages)"

definition H264RtpDepacketizer_incoming where
  "H264RtpDepacketizer_incoming sep = NalRtpDepacketizer_incoming (H264_buildFrames sep)"

definition H265RtpDepacketizer_incoming where
  "H265RtpDepacketizer_incoming sep = NalRtpDepacketizer_incoming (H265_buildFrames sep)"

section \<open>A packet made by the packetizer\<close>

definition packet_bytes :: "RtpPacketizationConfig \<Rightarrow> bool \<Rightarrow> binary \<Rightarrow> binary" where
  "packet_bytes c mark body = RtpHeader_enc (packet_header c mark) @ packet_extension c mark @ body"

definition small_extension :: "RtpPacketizationConfig \<Rightarrow> bool" where
  "small_extension c \<longleftrightarrow> (\<forall>mark. rtpExtHeaderSize c mark \<le> 4 * 65536)"

definition packet_prefix :: "RtpPacketizationConfig \<Rightarrow> bool \<Rightarrow> nat" where
  "packet_prefix c mark = 12 + rtpExtHeaderSize c mark"

lemma rtpHeaderSize_packet:
  "small_extension c \<Longrightarrow> rtpHeaderSize (packet_bytes c mark body) = Inr (packet_prefix c mark)"
proof -
  assume "small_extension c"
  then have "rtpExtHeaderSize c mark \<le> 4 * 65536" unfolding small_extension_def by blast
  then show ?thesis
    using packet_getExtensionHeaderSize [of c mark body]
    by (simp add: rtpHeaderSize_def packet_bytes_def packet_prefix_def packet_getSize)
qed

lemma rtpPaddingSize_packet: "rtpPaddingSize (packet_bytes c mark body) = Inr 0"
  by (simp add: rtpPaddingSize_def packet_bytes_def packet_header_fields)

lemma length_packet_bytes: "length (packet_bytes c mark body) = packet_prefix c mark + length body"
  by (simp add: packet_bytes_def packet_prefix_def rtp.length_enc length_packet_extension)

lemma drop_packet_bytes: "drop (packet_prefix c mark + k) (packet_bytes c mark body) = drop k body"
  by (simp add: packet_bytes_def packet_prefix_def rtp.length_enc length_packet_extension)

lemma at_packet_bytes: "at (packet_bytes c mark body) (packet_prefix c mark + k) = at body k"
proof -
  have "packet_bytes c mark body ! (packet_prefix c mark + k) = body ! k" if "k < length body"
    using that drop_packet_bytes [of c mark 0 body] nth_drop [of "packet_prefix c mark" "packet_bytes c mark body" k]
    by (simp add: length_packet_bytes)
  then show ?thesis by (simp add: at_def length_packet_bytes)
qed

lemmas packet_bytes_simps = rtpHeaderSize_packet rtpPaddingSize_packet length_packet_bytes
  at_packet_bytes [where k = 0, simplified] at_packet_bytes [where k = 1, simplified] at_packet_bytes
  drop_packet_bytes [where k = 0, simplified] drop_packet_bytes [where k = 2, simplified] drop_packet_bytes

text \<open>What the H.264 depacketizer does with a single NAL unit and with a fragment.\<close>

lemma addSeparator_start_code: "sep \<noteq> Length \<Longrightarrow> addSeparator sep au = Inr (au @ start_code sep)"
  by (cases sep) (simp_all add: addSeparator_def start_code_def naluLongStartCode_def naluShortStartCode_def)

definition h264_single :: "binary \<Rightarrow> bool" where
  "h264_single u \<longleftrightarrow> u \<noteq> [] \<and> 0 < NalUnitHeader_unitType (hd u) \<and> NalUnitHeader_unitType (hd u) < 24"

lemma H264_packet_single:
  assumes "small_extension c" and "sep \<noteq> Length" and "h264_single u"
  shows "H264_packet sep (packet_bytes c mark u) au = Inr (au @ start_code sep @ u)"
proof -
  have "NalUnitHeader_unitType (hd u) \<noteq> naluTypeFUA"
    using assms(3) by (auto simp: h264_single_def naluTypeFUA_def)
  moreover have "at u 0 = Inr (hd u)" "u \<noteq> []"
    using assms(3) by (auto simp: at_def h264_single_def hd_conv_nth)
  ultimately show ?thesis
    using assms by (simp add: H264_packet_def packet_bytes_simps h264_single_def addSeparator_start_code)
qed

lemma H264_packet_fragment:
  assumes "small_extension c" and "sep \<noteq> Length" and "2 < length f"
    and "NalUnitHeader_unitType (ld8 f 0) = nal_type_fu_A"
  shows "H264_packet sep (packet_bytes c mark f) au =
    Inr (if FragmentHeader_isStart (ld8 f 1) \<or> au = []
         then au @ start_code sep @ [NalUnitHeader_idc (ld8 f 0) OR FragmentHeader_unitType (ld8 f 1)] @ drop 2 f
         else au @ drop 2 f)"
proof -
  have "at f 0 = Inr (ld8 f 0)" "at f (Suc 0) = Inr (ld8 f (Suc 0))"
    using assms(3) by (auto simp: at_def ld8_nth)
  moreover have "nal_type_fu_A = naluTypeFUA" by (simp add: nal_type_fu_A_def naluTypeFUA_def)
  ultimately show ?thesis
    using assms by (auto simp: H264_packet_def packet_bytes_simps addSeparator_start_code)
qed

text \<open>Packets that carry given bodies.\<close>

definition carries :: "Message \<Rightarrow> binary \<Rightarrow> bool" where
  "carries m body \<longleftrightarrow> (\<exists>c mark. small_extension c \<and> msg_data m = packet_bytes c mark body)"

lemma small_extension_seq [simp]: "small_extension (c\<lparr>cfg_sequenceNumber := n\<rparr>) = small_extension c"
  by (simp add: small_extension_def rtpExtHeaderSize_def setVideoRotation_def setPlayoutDelay_def)

lemma packetize_fragments_carries:
  "small_extension c \<Longrightarrow>
     \<exists>ms. packetize_fragments fs c = Inr (ms, c\<lparr>cfg_sequenceNumber := cfg_sequenceNumber c + of_nat (length fs)\<rparr>) \<and>
       list_all2 carries ms fs"
proof (induction fs arbitrary: c)
  case Nil
  then show ?case by simp
next
  case (Cons f fs)
  let ?c = "c\<lparr>cfg_sequenceNumber := cfg_sequenceNumber c + 1\<rparr>"
  obtain ms where ms: "packetize_fragments fs ?c = Inr (ms, ?c\<lparr>cfg_sequenceNumber := cfg_sequenceNumber ?c + of_nat (length fs)\<rparr>)"
    "list_all2 carries ms fs"
    using Cons.IH [of ?c] Cons.prems by auto
  have "rtpExtHeaderSize c (fs = []) \<le> 4 * 65536" using Cons.prems unfolding small_extension_def by blast
  note p = packetize_eq [OF this, of f]
  let ?m = "make_message (packet_bytes c (fs = []) f) Binary 0 None None"
  have "carries ?m f" using Cons.prems by (auto simp: carries_def)
  moreover have "packetize_fragments (f # fs) c =
      Inr (?m # ms, c\<lparr>cfg_sequenceNumber := cfg_sequenceNumber c + of_nat (length (f # fs))\<rparr>)"
    using ms(1) by (simp add: p packet_bytes_def add.assoc)
  ultimately show ?case
    using ms(2) by (intro exI [of _ "?m # ms"]) simp
qed

section \<open>Fragments and units come back together\<close>

lemma access_unit_append:
  "access_unit packet (ms @ ms') au = bind_result (access_unit packet ms au) (access_unit packet ms')"
  by (induction ms arbitrary: au) (auto simp: bind_result_def split: sum.splits)

text \<open>The contract of a fragmentation: the packets that carry the fragments of a unit, in order,
  extend the access unit by a start sequence and the unit.\<close>

definition reassembles :: "(binary \<Rightarrow> binary \<Rightarrow> binary result) \<Rightarrow> Separator \<Rightarrow> binary list \<Rightarrow> binary \<Rightarrow> bool" where
  "reassembles packet sep fs u \<longleftrightarrow>
     (\<forall>ms au. list_all2 carries ms fs \<longrightarrow> access_unit packet ms au = Inr (au @ start_code sep @ u))"

locale fragmentation =
  fixes packet :: "binary \<Rightarrow> binary \<Rightarrow> binary result"
    and sep :: Separator
    and fragmentsFrom :: "binary \<Rightarrow> u16 \<Rightarrow> binary list result option"
    and limit :: u16
    and unit_ok :: "binary \<Rightarrow> bool"
  assumes separator: "unit_ok u \<Longrightarrow> sep \<noteq> Length"
    and single: "unit_ok u \<Longrightarrow> small_extension c \<Longrightarrow>
      packet (packet_bytes c mark u) au = Inr (au @ start_code sep @ u)"
    and fragmented: "unit_ok u \<Longrightarrow> unat limit < length u \<Longrightarrow>
      \<exists>fs. fragmentsFrom u limit = Some (Inr fs) \<and> fs \<noteq> [] \<and> reassembles packet sep fs u"
begin

lemma single_reassembles: "unit_ok u \<Longrightarrow> reassembles packet sep [u] u"
  using single by (auto simp: reassembles_def carries_def list_all2_Cons2)

lemma units_reassemble:
  "\<forall>u \<in> set us. unit_ok u \<Longrightarrow>
     \<exists>fs. generateFragments fragmentsFrom limit us = Some (Inr fs) \<and> (us \<noteq> [] \<longrightarrow> fs \<noteq> []) \<and>
       (\<forall>ms au. list_all2 carries ms fs \<longrightarrow>
          access_unit packet ms au = Inr (au @ concat (map ((@) (start_code sep)) us)))"
proof (induction us)
  case Nil
  then show ?case by simp
next
  case (Cons u us)
  obtain gs where gs: "generateFragments fragmentsFrom limit us = Some (Inr gs)"
    "\<forall>ms au. list_all2 carries ms gs \<longrightarrow>
       access_unit packet ms au = Inr (au @ concat (map ((@) (start_code sep)) us))"
    using Cons by auto
  obtain fs where fs: "(if length u > unat limit then fragmentsFrom u limit else Some (Inr [u])) = Some (Inr fs)"
    "fs \<noteq> []" "reassembles packet sep fs u"
    using fragmented [of u] single_reassembles [of u] Cons.prems by (cases "length u > unat limit") auto
  have "access_unit packet ms au = Inr (au @ concat (map ((@) (start_code sep)) (u # us)))"
    if "list_all2 carries ms (fs @ gs)" for ms au
    using that fs(3) gs(2) by (auto simp: list_all2_append2 access_unit_append reassembles_def)
  then show ?case using fs gs by (auto simp: Let_def)
qed

lemma roundtrip:
  assumes "us \<noteq> []" and "\<forall>u \<in> set us. unit_ok u \<and> byte_stream_unit u" and "small_extension c"
    and m: "msg_data m = concat (map ((@) (start_code sep)) us)"
  shows "\<exists>pkts. NalRtpPacketizer_outgoing fragmentsFrom sep limit [m] c =
      Some (Inr (pkts, c\<lparr>cfg_sequenceNumber := cfg_sequenceNumber c + of_nat (length pkts)\<rparr>)) \<and>
    buildFrames packet pkts pt ts =
      Inr [make_message (msg_data m) Binary 0 None (Some \<lparr>fi_payloadType = pt, fi_timestamp = ts\<rparr>)]"
proof -
  have split: "splitMessage sep (msg_data m) = us"
    using splitMessage_byte_stream [OF _ assms(1)] separator assms(1,2) m by (cases us) auto
  obtain fs where fs: "generateFragments fragmentsFrom limit us = Some (Inr fs)"
    "\<forall>ms au. list_all2 carries ms fs \<longrightarrow> access_unit packet ms au = Inr (au @ msg_data m)"
    using units_reassemble [of us] assms(2) unfolding m by auto
  obtain ms where ms: "packetize_fragments fs c = Inr (ms, c\<lparr>cfg_sequenceNumber := cfg_sequenceNumber c + of_nat (length fs)\<rparr>)"
    "list_all2 carries ms fs"
    using packetize_fragments_carries [OF assms(3)] by blast
  have "msg_data m \<noteq> []" using assms(1) m by (cases us) (auto simp: start_code_def)
  then have "buildFrames packet ms pt ts =
      Inr [make_message (msg_data m) Binary 0 None (Some \<lparr>fi_payloadType = pt, fi_timestamp = ts\<rparr>)]"
    using fs(2) ms(2) by (simp add: buildFrames_def)
  then show ?thesis
    using fs ms split by (auto simp: list_all2_lengthD)
qed

end

section \<open>H.264 and H.265 provide the contract\<close>

text \<open>Fragments reassemble when the first adds a start sequence, the header and its data, and every
  other one its data.\<close>

lemma reassemblesI:
  assumes first: "\<And>c mark au. small_extension c \<Longrightarrow>
      packet (packet_bytes c mark f) au = Inr (au @ start_code sep @ h @ drop k f)"
    and other: "\<And>g c mark au. g \<in> set fs \<Longrightarrow> small_extension c \<Longrightarrow> au \<noteq> [] \<Longrightarrow>
      packet (packet_bytes c mark g) au = Inr (au @ drop k g)"
    and u: "h @ concat (map (drop k) (f # fs)) = u"
  shows "reassembles packet sep (f # fs) u"
proof -
  have continue: "access_unit packet ms au = Inr (au @ concat (map (drop k) gs))"
    if "list_all2 carries ms gs" "set gs \<subseteq> set fs" "au \<noteq> []" for ms gs au
    using that
  proof (induction arbitrary: au rule: list_all2_induct)
    case (Cons m ms g gs)
    then show ?case using other [of g] by (auto simp: carries_def)
  qed simp
  show ?thesis
    unfolding reassembles_def
  proof (intro allI impI)
    fix ms au assume "list_all2 carries ms (f # fs)"
    then obtain m ms' where m: "ms = m # ms'" "carries m f" "list_all2 carries ms' fs"
      by (auto simp: list_all2_Cons2)
    then show "access_unit packet ms au = Inr (au @ start_code sep @ u)"
      using first continue [of ms' fs "au @ start_code sep @ h @ drop k f"] u
      by (auto simp: carries_def start_code_def)
  qed
qed

lemma Start_iff: "FragmentHeader_type b = Start \<longleftrightarrow> FragmentHeader_isStart b"
  by (simp add: FragmentHeader_type_def)

lemma fragment_types_split:
  assumes "map T frs = Start # replicate n Middle @ [End]"
  obtains f fs where "frs = f # fs" and "T f = Start" and "\<forall>g \<in> set fs. T g \<noteq> Start"
proof -
  obtain f fs where *: "frs = f # fs" "T f = Start" "map T fs = replicate n Middle @ [End]"
    using assms by (cases frs) auto
  moreover have "T g \<noteq> Start" if "g \<in> set fs" for g
  proof -
    have "T g \<in> set (map T fs)" using that by simp
    then show ?thesis using *(3) by auto
  qed
  ultimately show ?thesis using that by blast
qed

definition h264_unit :: "binary \<Rightarrow> bool" where
  "h264_unit u \<longleftrightarrow> h264_single u \<and> \<not> NalUnitHeader_forbiddenBit (hd u)"

lemma h264_fragmented:
  assumes "h264_unit u" and "unat M < length u" and "4 \<le> unat M" and "sep \<noteq> Length"
  shows "\<exists>fs. NalUnitFragmentA_fragmentsFrom u M = Some (Inr fs) \<and> fs \<noteq> [] \<and> reassembles (H264_packet sep) sep fs u"
proof -
  obtain frs where frs: "NalUnitFragmentA_fragmentsFrom u M = Some (Inr frs)" "2 \<le> length frs"
    and each: "\<forall>f \<in> set frs. 2 < length f \<and> length f \<le> unat M \<and> ld8 f 0 = (ld8 u 0 AND 0xE0) OR nal_type_fu_A \<and>
       FragmentHeader_unitType (ld8 f 1) = NalUnitHeader_unitType (ld8 u 0)"
    and types: "map (\<lambda>f. FragmentHeader_type (ld8 f 1)) frs = Start # replicate (length frs - 2) Middle @ [End]"
    and bytes: "ld8 u 0 # concat (map (drop 2) frs) = u"
    using h264_fragments [OF assms(3,2)] by (elim exE conjE) (rule that)
  obtain f fs where f: "frs = f # fs" "FragmentHeader_isStart (ld8 f 1)"
    "\<forall>g \<in> set fs. \<not> FragmentHeader_isStart (ld8 g 1)"
    by (rule fragment_types_split [OF types]) (auto simp: Start_iff)
  have fu: "\<forall>g \<in> set frs. NalUnitHeader_unitType (ld8 g 0) = nal_type_fu_A"
    using each by (simp add: NalUnitHeader_unitType_def nal_type_fu_A_def u8_bits)
  have "\<not> bit (ld8 u 0) 7"
    using assms(1) by (cases u) (auto simp: h264_unit_def h264_single_def NalUnitHeader_forbiddenBit_def u8_bits)
  then have hd: "NalUnitHeader_idc (ld8 f 0) OR FragmentHeader_unitType (ld8 f 1) = ld8 u 0"
    using each f(1) by (simp add: NalUnitHeader_idc_def NalUnitHeader_unitType_def nal_type_fu_A_def u8_bits)
  have "reassembles (H264_packet sep) sep (f # fs) u"
  proof (rule reassemblesI [where h = "[ld8 u 0]" and k = 2])
    show "H264_packet sep (packet_bytes c mark f) au = Inr (au @ start_code sep @ [ld8 u 0] @ drop 2 f)"
      if "small_extension c" for c mark au
      using that each fu f(1,2) hd assms(4) by (simp add: H264_packet_fragment)
    show "H264_packet sep (packet_bytes c mark g) au = Inr (au @ drop 2 g)"
      if "g \<in> set fs" "small_extension c" "au \<noteq> []" for g c mark au
      using that each fu f(1,3) assms(4) by (simp add: H264_packet_fragment)
    show "[ld8 u 0] @ concat (map (drop 2) (f # fs)) = u" using bytes f(1) by simp
  qed
  then show ?thesis using frs f(1) by auto
qed

interpretation h264: fragmentation "H264_packet sep" sep NalUnitFragmentA_fragmentsFrom limit
  "\<lambda>u. sep \<noteq> Length \<and> 4 \<le> unat limit \<and> h264_unit u" for sep limit
  using H264_packet_single h264_fragmented by unfold_locales (auto simp: h264_unit_def)

definition h265_unit :: "binary \<Rightarrow> bool" where
  "h265_unit u \<longleftrightarrow> 2 \<le> length u \<and> H265NalUnitHeader_unitType (H265_header u) < naluTypeAP"

lemma h265_fu_header:
  "H265NalUnitHeader_unitType \<lparr>h265_first = (x AND 0x81) OR 98, h265_second = y\<rparr> = nal_type_fu"
  "h265_first (H265NalUnitHeader_setUnitType (H265NalUnitHeader_unitType \<lparr>h265_first = x, h265_second = z\<rparr>)
     \<lparr>h265_first = (x AND 0x81) OR 98, h265_second = y\<rparr>) = x"
   apply (simp add: H265NalUnitHeader_unitType_def nal_type_fu_def u8_bits del: push_bit_Suc)
  apply (simp add: H265NalUnitHeader_setUnitType_def H265NalUnitHeader_unitType_def u8_bits del: push_bit_Suc)
  apply (simp add: numeral_eq_Suc)
  done

lemma H265_packet_single:
  assumes "small_extension c" and "sep \<noteq> Length" and "h265_unit u"
  shows "H265_packet sep (packet_bytes c mark u) au = Inr (au @ start_code sep @ u)"
proof -
  have "H265NalUnitHeader_unitType (H265_header u) \<noteq> naluTypeFU"
    "H265NalUnitHeader_unitType (H265_header u) \<noteq> naluTypeAP"
    using assms(3) by (auto simp: h265_unit_def naluTypeFU_def naluTypeAP_def)
  moreover have "at u 0 = Inr (ld8 u 0)" "at u (Suc 0) = Inr (ld8 u (Suc 0))" "u \<noteq> []"
    using assms(3) by (auto simp: at_def ld8_nth h265_unit_def)
  ultimately show ?thesis
    using assms by (simp add: H265_packet_def packet_bytes_simps h265_unit_def addSeparator_start_code H265_header_def)
qed

lemma H265_packet_fragment:
  assumes "small_extension c" and "sep \<noteq> Length" and "3 < length f"
    and "H265NalUnitHeader_unitType (H265_header f) = nal_type_fu"
  shows "H265_packet sep (packet_bytes c mark f) au =
    Inr (if FragmentHeader_isStart (ld8 f 2) \<or> au = []
         then au @ start_code sep @
           [h265_first (H265NalUnitHeader_setUnitType (H265FragmentHeader_unitType (ld8 f 2)) (H265_header f)), ld8 f 1] @ drop 3 f
         else au @ drop 3 f)"
proof -
  have "at f 0 = Inr (ld8 f 0)" "at f (Suc 0) = Inr (ld8 f (Suc 0))" "at f 2 = Inr (ld8 f 2)" "f \<noteq> []"
    using assms(3) by (auto simp: at_def ld8_nth)
  moreover have "nal_type_fu = naluTypeFU" by (simp add: nal_type_fu_def naluTypeFU_def)
  ultimately show ?thesis
    using assms by (simp add: H265_packet_def packet_bytes_simps addSeparator_start_code H265_header_def
        H265NalUnitHeader_setUnitType_def at_packet_bytes [where k = 2, simplified])
qed

lemma h265_fragmented:
  assumes "h265_unit u" and "unat M < length u" and "6 \<le> unat M" and "sep \<noteq> Length"
  shows "\<exists>fs. H265NalUnitFragment_fragmentsFrom u M = Some (Inr fs) \<and> fs \<noteq> [] \<and> reassembles (H265_packet sep) sep fs u"
proof -
  obtain frs where frs: "H265NalUnitFragment_fragmentsFrom u M = Some (Inr frs)" "2 \<le> length frs"
    and each: "\<forall>f \<in> set frs. 3 < length f \<and> length f \<le> unat M \<and>
       ld8 f 0 = (ld8 u 0 AND 0x81) OR 98 \<and> ld8 f 1 = ld8 u 1 \<and>
       H265FragmentHeader_unitType (ld8 f 2) = H265NalUnitHeader_unitType (H265_header u)"
    and types: "map (\<lambda>f. FragmentHeader_type (ld8 f 2)) frs = Start # replicate (length frs - 2) Middle @ [End]"
    and bytes: "take 2 u @ concat (map (drop 3) frs) = u"
    using h265_fragments [OF assms(3,2)] by (elim exE conjE) (rule that)
  obtain f fs where f: "frs = f # fs" "FragmentHeader_isStart (ld8 f 2)"
    "\<forall>g \<in> set fs. \<not> FragmentHeader_isStart (ld8 g 2)"
    by (rule fragment_types_split [OF types]) (auto simp: Start_iff)
  have fu: "\<forall>g \<in> set frs. H265NalUnitHeader_unitType (H265_header g) = nal_type_fu"
    using each by (simp add: H265_header_def h265_fu_header)
  have hd: "h265_first (H265NalUnitHeader_setUnitType (H265FragmentHeader_unitType (ld8 f 2)) (H265_header f)) = ld8 u 0"
    using each f(1) by (simp add: H265_header_def h265_fu_header)
  have two: "take 2 u = [ld8 u 0, ld8 u 1]"
    using assms(1) by (auto simp: h265_unit_def numeral_2_eq_2 Suc_le_length_Cons)
  have "reassembles (H265_packet sep) sep (f # fs) u"
  proof (rule reassemblesI [where h = "take 2 u" and k = 3])
    show "H265_packet sep (packet_bytes c mark f) au = Inr (au @ start_code sep @ take 2 u @ drop 3 f)"
      if "small_extension c" for c mark au
      using that each fu f(1,2) hd assms(4) two by (simp add: H265_packet_fragment)
    show "H265_packet sep (packet_bytes c mark g) au = Inr (au @ drop 3 g)"
      if "g \<in> set fs" "small_extension c" "au \<noteq> []" for g c mark au
      using that each fu f(1,3) assms(4) by (simp add: H265_packet_fragment)
    show "take 2 u @ concat (map (drop 3) (f # fs)) = u" using bytes f(1) by simp
  qed
  then show ?thesis using frs f(1) by auto
qed

interpretation h265: fragmentation "H265_packet sep" sep H265NalUnitFragment_fragmentsFrom limit
  "\<lambda>u. sep \<noteq> Length \<and> 6 \<le> unat limit \<and> h265_unit u" for sep limit
  using H265_packet_single h265_fragmented by unfold_locales (auto simp: h265_unit_def)

text \<open>
  C3. H.264 end to end. An access unit in byte stream format, whose NAL units carry emulation
  prevention, have a type from 1 to 23 and a clear forbidden bit, is split, fragmented and packetized
  without error for every fragment size limit of at least 4 bytes; the sequence number advances by
  the number of packets; and the depacketizer builds from these packets one frame with exactly the
  bytes of the access unit.
\<close>

theorem h264_roundtrip:
  assumes "sep \<noteq> Length" and "4 \<le> unat maxFragmentSize" and "us \<noteq> []"
    and "\<forall>u \<in> set us. h264_unit u \<and> byte_stream_unit u" and "small_extension c"
    and "msg_data m = concat (map ((@) (start_code sep)) us)"
  shows "\<exists>pkts. H264RtpPacketizer_outgoing sep maxFragmentSize [m] c =
      Some (Inr (pkts, c\<lparr>cfg_sequenceNumber := cfg_sequenceNumber c + of_nat (length pkts)\<rparr>)) \<and>
    H264_buildFrames sep pkts pt ts =
      Inr [make_message (msg_data m) Binary 0 None (Some \<lparr>fi_payloadType = pt, fi_timestamp = ts\<rparr>)]"
  using h264.roundtrip [OF assms(3) _ assms(5,6), of maxFragmentSize pt ts] assms
  by (auto simp: H264RtpPacketizer_outgoing_def H264_buildFrames_def)

theorem h264_roundtrip_witness:
  "\<exists>pkts c'. H264RtpPacketizer_outgoing StartSequence 4
      [make_message [0, 0, 0, 1, 0x67, 5, 0, 0, 0, 1, 0x65, 1, 2, 3, 4, 5] Binary 0 None None] example_config = Some (Inr (pkts, c')) \<and>
    H264_buildFrames StartSequence pkts 96 1000 =
      Inr [make_message [0, 0, 0, 1, 0x67, 5, 0, 0, 0, 1, 0x65, 1, 2, 3, 4, 5] Binary 0 None
             (Some \<lparr>fi_payloadType = 96, fi_timestamp = 1000\<rparr>)]"
proof -
  have "small_extension example_config"
    by (simp add: small_extension_def rtpExtHeaderSize_def setVideoRotation_def setPlayoutDelay_def example_config_def
        RtpPacketizationConfig_init_def)
  then show ?thesis
    using h264_roundtrip [of StartSequence 4 "[[0x67, 5], [0x65, 1, 2, 3, 4, 5]]" example_config
        "make_message [0, 0, 0, 1, 0x67, 5, 0, 0, 0, 1, 0x65, 1, 2, 3, 4, 5] Binary 0 None None" 96 1000]
    by (auto simp: h264_unit_def h264_single_def byte_stream_unit_def NalUnitHeader_unitType_def
        NalUnitHeader_forbiddenBit_def start_code_def)
qed

text \<open>
  C14. H.265 end to end, the same for NAL units of at least 2 bytes with a type below 48 and a limit
  of at least 6 bytes; the forbidden bit survives here.
\<close>

theorem h265_roundtrip:
  assumes "sep \<noteq> Length" and "6 \<le> unat maxFragmentSize" and "us \<noteq> []"
    and "\<forall>u \<in> set us. h265_unit u \<and> byte_stream_unit u" and "small_extension c"
    and "msg_data m = concat (map ((@) (start_code sep)) us)"
  shows "\<exists>pkts. H265RtpPacketizer_outgoing sep maxFragmentSize [m] c =
      Some (Inr (pkts, c\<lparr>cfg_sequenceNumber := cfg_sequenceNumber c + of_nat (length pkts)\<rparr>)) \<and>
    H265_buildFrames sep pkts pt ts =
      Inr [make_message (msg_data m) Binary 0 None (Some \<lparr>fi_payloadType = pt, fi_timestamp = ts\<rparr>)]"
  using h265.roundtrip [OF assms(3) _ assms(5,6), of maxFragmentSize pt ts] assms
  by (auto simp: H265RtpPacketizer_outgoing_def H265_buildFrames_def)

theorem h265_roundtrip_witness:
  "\<exists>pkts c'. H265RtpPacketizer_outgoing ShortStartSequence 6
      [make_message [0, 0, 1, 0x26, 1, 2, 3, 4, 5, 6, 7] Binary 0 None None] example_config = Some (Inr (pkts, c')) \<and>
    H265_buildFrames ShortStartSequence pkts 96 1000 =
      Inr [make_message [0, 0, 1, 0x26, 1, 2, 3, 4, 5, 6, 7] Binary 0 None
             (Some \<lparr>fi_payloadType = 96, fi_timestamp = 1000\<rparr>)]"
proof -
  have "small_extension example_config"
    by (simp add: small_extension_def rtpExtHeaderSize_def setVideoRotation_def setPlayoutDelay_def example_config_def
        RtpPacketizationConfig_init_def)
  then show ?thesis
    using h265_roundtrip [of ShortStartSequence 6 "[[0x26, 1, 2, 3, 4, 5, 6, 7]]" example_config
        "make_message [0, 0, 1, 0x26, 1, 2, 3, 4, 5, 6, 7] Binary 0 None None" 96 1000]
    by (auto simp: h265_unit_def byte_stream_unit_def H265NalUnitHeader_unitType_def H265_header_def
        naluTypeAP_def start_code_def)
qed

section \<open>The buffer\<close>

abbreviation pkt_timestamp :: "Message \<Rightarrow> u32" where
  "pkt_timestamp m \<equiv> RtpHeader_timestamp (RtpHeader_dec (msg_data m))"

abbreviation pkt_payloadType :: "Message \<Rightarrow> u8" where
  "pkt_payloadType m \<equiv> RtpHeader_payloadType (RtpHeader_dec (msg_data m))"

lemma packets_in_timestamp_run:
  assumes "t \<noteq> 0" and "\<forall>m \<in> set g. pkt_timestamp m = t" and "rest = [] \<or> pkt_timestamp (hd rest) \<noteq> t"
  shows "packets_in_timestamp (g @ rest) pt t n = (pt, t, n + length g)"
  using assms(2)
proof (induction g arbitrary: n)
  case Nil
  then show ?case using assms(1,3) by (cases rest) auto
qed (use assms(1) in auto)

lemma packets_in_timestamp_group:
  assumes "g \<noteq> []" and "t \<noteq> 0" and "\<forall>m \<in> set g. pkt_timestamp m = t"
    and "rest = [] \<or> pkt_timestamp (hd rest) \<noteq> t"
  shows "packets_in_timestamp (g @ rest) 0 0 0 = (pkt_payloadType (hd g), t, length g)"
  using assms packets_in_timestamp_run [of t "tl g" rest] by (cases g) simp_all

fun separated :: "Message list list \<Rightarrow> bool" where
  "separated [] \<longleftrightarrow> True"
| "separated (g # gs) \<longleftrightarrow> g \<noteq> [] \<and> pkt_timestamp (hd g) \<noteq> 0 \<and>
     list_all (\<lambda>m. pkt_timestamp m = pkt_timestamp (hd g)) g \<and> (gs \<noteq> [] \<longrightarrow> pkt_timestamp (hd (hd gs)) \<noteq> pkt_timestamp (hd g)) \<and> separated gs"

lemma separated_ne: "separated gs \<Longrightarrow> g \<in> set gs \<Longrightarrow> g \<noteq> []"
  by (induction gs) (simp (no_asm_use), metis separated.simps(2) set_ConsD)

lemma drain_group:
  assumes "g \<noteq> []" and "t \<noteq> 0" and "\<forall>m \<in> set g. pkt_timestamp m = t"
    and "rest \<noteq> []" and "pkt_timestamp (hd rest) \<noteq> t"
  shows "drain build (g @ rest) acc =
    (case build g (pkt_payloadType (hd g)) t of
       Inl e \<Rightarrow> (Inl e, g @ rest)
     | Inr frames \<Rightarrow> drain build rest (acc @ frames))"
  using assms packets_in_timestamp_group [of g t rest]
  unfolding drain.simps [of build "g @ rest"] by (simp split: sum.split)

lemma drain_groups:
  assumes "separated (gs @ [rest])"
    and "\<forall>g \<in> set gs. build g (pkt_payloadType (hd g)) (pkt_timestamp (hd g)) = Inr (frames g)"
  shows "drain build (concat gs @ rest) acc = (Inr (acc @ concat (map frames gs)), rest)"
  using assms
proof (induction gs arbitrary: acc)
  case Nil
  define t where "t = pkt_timestamp (hd rest)"
  have "rest \<noteq> []" "t \<noteq> 0" "\<forall>m \<in> set rest. pkt_timestamp m = t"
    using Nil.prems(1) unfolding append_Nil separated.simps list_all_iff t_def by blast+
  then have "packets_in_timestamp (rest @ []) 0 0 0 = (pkt_payloadType (hd rest), t, length rest)"
    by (intro packets_in_timestamp_group) simp_all
  then show ?case by (simp add: drain.simps [of build rest])
next
  case (Cons g gs)
  define t where "t = pkt_timestamp (hd g)"
  have g: "g \<noteq> []" "t \<noteq> 0" "\<forall>m \<in> set g. pkt_timestamp m = t" "pkt_timestamp (hd (hd (gs @ [rest]))) \<noteq> t"
    and gs: "separated (gs @ [rest])"
    using Cons.prems(1) unfolding append_Cons separated.simps list_all_iff t_def by blast+
  have "\<forall>g \<in> set (gs @ [rest]). g \<noteq> []" using separated_ne [OF gs] by blast
  then have next_group: "concat gs @ rest \<noteq> []" "hd (concat gs @ rest) = hd (hd (gs @ [rest]))"
    by (cases gs; simp)+
  have built: "build g (pkt_payloadType (hd g)) t = Inr (frames g)" using Cons.prems(2) by (simp add: t_def)
  have "drain build (g @ concat gs @ rest) acc = drain build (concat gs @ rest) (acc @ frames g)"
    using g next_group built drain_group [of g t "concat gs @ rest" build acc] by simp
  then show ?case using Cons.IH [OF gs] Cons.prems(2) by simp
qed

text \<open>
  Grouping by timestamp. When the buffered packets followed by the media packets of the call form
  groups of equal, non-zero timestamps, neighbouring groups differing, then \<open>incoming\<close> passes the
  control messages through, builds a frame from every group but the last, in order, with the payload
  type and timestamp of the group, and keeps exactly the last group buffered.
\<close>

theorem depacketizer_groups_by_timestamp:
  assumes "buffer @ filter (\<lambda>m. msg_type m \<noteq> Control \<and> \<not> length (msg_data m) < 12) messages = concat gs @ rest"
    and "separated (gs @ [rest])"
    and "\<forall>g \<in> set gs. build g (pkt_payloadType (hd g)) (pkt_timestamp (hd g)) = Inr (frames g)"
  shows "NalRtpDepacketizer_incoming build messages buffer =
    (Inr (filter (\<lambda>m. msg_type m = Control) messages @ concat (map frames gs)), rest)"
  unfolding NalRtpDepacketizer_incoming_def assms(1)
  by (rule drain_groups [where build = build and frames = frames, OF assms(2,3)])

definition example_packet :: "u32 \<Rightarrow> binary \<Rightarrow> Message" where
  "example_packet t body = make_message ([0x80, 96, 0, 1] @ bytes32 (htonl t) @ [0, 0, 0, 7] @ body) Binary 0 None None"

theorem depacketizer_groups_by_timestamp_witness:
  "NalRtpDepacketizer_incoming (H264_buildFrames LongStartSequence)
      [make_message [] Control 0 None None, example_packet 6 [0x65, 2]] [example_packet 5 [0x67, 1]] =
    (Inr [make_message [] Control 0 None None,
          make_message [0, 0, 0, 1, 0x67, 1] Binary 0 None (Some \<lparr>fi_payloadType = 96, fi_timestamp = 5\<rparr>)],
     [example_packet 6 [0x65, 2]])"
proof -
  let ?g = "[example_packet 5 [0x67, 1]]"
  let ?f = "[make_message [0, 0, 0, 1, 0x67, 1] Binary 0 None (Some \<lparr>fi_payloadType = 96, fi_timestamp = 5\<rparr>)]"
  have "H264_buildFrames LongStartSequence ?g 96 5 = Inr ?f" by code_simp
  moreover have "pkt_timestamp (example_packet 5 [0x67, 1]) = 5" "pkt_payloadType (example_packet 5 [0x67, 1]) = 96"
    "pkt_timestamp (example_packet 6 [0x65, 2]) = 6" by code_simp+
  ultimately show ?thesis
    using depacketizer_groups_by_timestamp [of ?g "[make_message [] Control 0 None None, example_packet 6 [0x65, 2]]"
        "[?g]" "[example_packet 6 [0x65, 2]]" "H264_buildFrames LongStartSequence" "\<lambda>_. ?f"]
    by (simp add: example_packet_def)
qed

text \<open>A group that is followed by another packet stays the same group when more packets arrive.\<close>

lemma packets_in_timestamp_append:
  "packets_in_timestamp pkts pt ts n = (pt', ts', k) \<Longrightarrow> k < n + length pkts \<Longrightarrow>
     packets_in_timestamp (pkts @ new) pt ts n = (pt', ts', k)"
  by (induction pkts arbitrary: pt ts n) (auto simp: Let_def split: if_splits)

lemma packets_in_timestamp_le: "packets_in_timestamp pkts pt ts n = (pt', ts', k) \<Longrightarrow> k \<le> n + length pkts"
  by (induction pkts arbitrary: pt ts n) (fastforce simp: Let_def split: if_splits)+

lemma drain_error:
  "drain build buf acc = (Inl e, buf') \<Longrightarrow> drain build (buf' @ new) acc' = (Inl e, buf' @ new)"
proof (induction build buf acc rule: drain.induct)
  case (1 build buf acc)
  obtain pt ts n where p: "packets_in_timestamp buf 0 0 0 = (pt, ts, n)" by (cases "packets_in_timestamp buf 0 0 0")
  have ne: "buf \<noteq> []" "n \<noteq> length buf"
    using "1.prems" p by (auto simp: drain.simps [of build buf] split: if_splits)
  show ?case
  proof (cases "build (take n buf) pt ts")
    case (Inl e')
    then have "e' = e" "buf' = buf" using "1.prems" p ne by (auto simp: drain.simps [of build buf])
    moreover have "n < length buf" using packets_in_timestamp_le [OF p] ne by simp
    ultimately show ?thesis
      using Inl ne packets_in_timestamp_append [OF p, of new] by (simp add: drain.simps [of build "buf @ new"])
  next
    case (Inr frames)
    then show ?thesis
      using "1.IH" [OF ne(1) p [symmetric] refl ne(2) Inr] "1.prems" p ne
      by (simp add: drain.simps [of build buf])
  qed
qed

text \<open>
  A packet that cannot be parsed is never removed: once \<open>incoming\<close> has raised an error, every
  later call raises the same error, delivers nothing, and the buffer keeps growing by every packet
  that arrives. (\<open>buildFrames\<close> raises before the packets of its group are erased.)
\<close>

theorem depacketizer_error_is_permanent:
  assumes "NalRtpDepacketizer_incoming build messages buffer = (Inl e, buffer')"
  shows "NalRtpDepacketizer_incoming build later buffer' =
    (Inl e, buffer' @ filter (\<lambda>m. msg_type m \<noteq> Control \<and> \<not> length (msg_data m) < 12) later)"
  using assms drain_error unfolding NalRtpDepacketizer_incoming_def by blast

theorem depacketizer_error_is_permanent_witness:
  "NalRtpDepacketizer_incoming (H264_buildFrames LongStartSequence) [example_packet 7 [0x65]]
      [example_packet 5 [31], example_packet 6 [0x65, 2]] =
    (Inl (RuntimeError ''Unknown H264 RTP Packetization''),
     [example_packet 5 [31], example_packet 6 [0x65, 2], example_packet 7 [0x65]])"
proof -
  have "NalRtpDepacketizer_incoming (H264_buildFrames LongStartSequence)
      [example_packet 5 [31], example_packet 6 [0x65, 2]] [] =
    (Inl (RuntimeError ''Unknown H264 RTP Packetization''), [example_packet 5 [31], example_packet 6 [0x65, 2]])"
    by code_simp
  from depacketizer_error_is_permanent [OF this, of "[example_packet 7 [0x65]]"]
  show ?thesis by (simp add: example_packet_def)
qed

text \<open>
  The timestamp 0 is taken for "no timestamp yet": packets with timestamp 0 do not form a frame of
  their own but are put into the frame of the packets that follow them, under those packets' timestamp.
\<close>

theorem timestamp_zero_joins_next_frame:
  assumes "g0 \<noteq> []" and "\<forall>m \<in> set g0. pkt_timestamp m = 0"
    and "g \<noteq> []" and "t \<noteq> 0" and "\<forall>m \<in> set g. pkt_timestamp m = t"
    and "rest \<noteq> []" and "pkt_timestamp (hd rest) \<noteq> t"
    and "build (g0 @ g) (pkt_payloadType (hd g)) t = Inr frames"
  shows "drain build (g0 @ g @ rest) acc = drain build rest (acc @ frames)"
proof -
  have zeros: "packets_in_timestamp (g0 @ r) pt 0 n = packets_in_timestamp r
      (if g0 = [] then pt else pkt_payloadType (last g0)) 0 (n + length g0)"
    if "\<forall>m \<in> set g0. pkt_timestamp m = 0" for g0 r pt n
    using that by (induction g0 arbitrary: pt n) auto
  have "packets_in_timestamp ((g0 @ g) @ rest) 0 0 0 = (pkt_payloadType (hd g), t, length (g0 @ g))"
    using assms zeros [OF assms(2), of "g @ rest" 0 0] packets_in_timestamp_run [of t "tl g" rest]
    by (cases g) simp_all
  then show ?thesis
    using assms unfolding drain.simps [of build "g0 @ g @ rest"] by simp
qed

theorem timestamp_zero_joins_next_frame_witness:
  "drain (H264_buildFrames LongStartSequence) [example_packet 0 [0x67, 1], example_packet 5 [0x65, 2], example_packet 6 [0x65]] [] =
     drain (H264_buildFrames LongStartSequence) [example_packet 6 [0x65]]
       [make_message [0, 0, 0, 1, 0x67, 1, 0, 0, 0, 1, 0x65, 2] Binary 0 None (Some \<lparr>fi_payloadType = 96, fi_timestamp = 5\<rparr>)]"
proof -
  let ?f = "[make_message [0, 0, 0, 1, 0x67, 1, 0, 0, 0, 1, 0x65, 2] Binary 0 None (Some \<lparr>fi_payloadType = 96, fi_timestamp = 5\<rparr>)]"
  have "H264_buildFrames LongStartSequence ([example_packet 0 [0x67, 1]] @ [example_packet 5 [0x65, 2]])
      (pkt_payloadType (hd [example_packet 5 [0x65, 2]])) 5 = Inr ?f" by code_simp
  moreover have "pkt_timestamp (example_packet 0 [0x67, 1]) = 0" "pkt_timestamp (example_packet 5 [0x65, 2]) = 5"
    "pkt_timestamp (example_packet 6 [0x65]) = 6" by code_simp+
  ultimately show ?thesis
    using timestamp_zero_joins_next_frame [of "[example_packet 0 [0x67, 1]]" "[example_packet 5 [0x65, 2]]" 5
        "[example_packet 6 [0x65]]" "H264_buildFrames LongStartSequence" ?f "[]"] by simp
qed

section \<open>The generic depacketizer\<close>

text \<open>
  A packet with a CSRC list and without an extension: the generic depacketizer skips one byte for
  each CSRC instead of four, so the delivered payload begins with the last three quarters of the CSRC
  list. Without CSRCs the payload is delivered exactly.
\<close>

theorem depacketizer_leaves_csrcs_in_payload:
  assumes "\<not> RtpHeader_extension h" and "length csrcs = 4 * unat (RtpHeader_csrcCount h)"
    and "msg_type m \<noteq> Control" and "msg_data m = RtpHeader_enc h @ csrcs @ payload"
  shows "RtpDepacketizer_incoming [m] =
    Inr [make_message (drop (unat (RtpHeader_csrcCount h)) csrcs @ payload) Binary 0 None
           (Some \<lparr>fi_payloadType = RtpHeader_payloadType h, fi_timestamp = RtpHeader_timestamp h\<rparr>)]"
  using assms by (simp add: RtpHeader_getExtensionHeaderSize_def RtpHeader_getExtensionHeader_def Let_def rtp.length_enc)

theorem depacketizer_leaves_csrcs_in_payload_witness:
  "RtpDepacketizer_incoming [make_message (RtpHeader_enc (RtpHeader_dec (0x81 # replicate 11 0)) @ [1, 2, 3, 4] @ [9]) Binary 0 None None] =
    Inr [make_message [2, 3, 4, 9] Binary 0 None (Some \<lparr>fi_payloadType = 0, fi_timestamp = 0\<rparr>)]"
proof -
  let ?h = "RtpHeader_dec (0x81 # replicate 11 0)"
  have "\<not> RtpHeader_extension ?h" "RtpHeader_csrcCount ?h = 1" "RtpHeader_payloadType ?h = 0" "RtpHeader_timestamp ?h = 0"
    by code_simp+
  then show ?thesis
    using depacketizer_leaves_csrcs_in_payload [of ?h "[1, 2, 3, 4]"
        "make_message (RtpHeader_enc ?h @ [1, 2, 3, 4] @ [9]) Binary 0 None None" "[9]"] by simp
qed

end
