(* ===== verification/MediaHandlers.thy ===== *)
theory MediaHandlers
  imports NackResponder Sdes Depacketizer Complex_Main
begin

text \<open>
  The media handlers of a track and their chain: \<open>src/mediahandler.cpp\<close>, \<open>src/rtcpreceivingsession.cpp\<close>,
  \<open>src/rtcpsrreporter.cpp\<close>, \<open>src/pacinghandler.cpp\<close>, \<open>src/plihandler.cpp\<close>, \<open>src/rembhandler.cpp\<close>.

  A handler transforms the vector of messages and may send messages of its own through the callback \<open>send\<close>: these are
  returned as a second list. The current time is an argument. Floating point numbers of the pacing handler are
  exact rationals here. Logging is left out. The virtual functions are dispatched on the datatype \<open>MediaHandler\<close>, which
  has a constructor for every class that overrides them; a chain linked by \<open>mNext\<close> is a list.
\<close>

section \<open>PLI handler\<close>

function pli_loop :: "binary \<Rightarrow> nat \<Rightarrow> bool" where
  "pli_loop buf offset =
     (if 4 + offset \<le> length buf then
        let header = RtcpHeader_dec (drop offset buf)
        in if RtcpHeader_payloadType header = 196 then True
           else if RtcpHeader_payloadType header = 206 \<and> RtcpHeader_reportCount header = 1 then True
           else pli_loop buf (offset + RtcpHeader_lengthInBytes header)
      else False)"
  by auto
termination
  by (relation "measure (\<lambda>(buf, offset). length buf - offset)") (auto simp: RtcpHeader_lengthInBytes_def)

declare pli_loop.simps [simp del]

text \<open>The number of calls of \<open>mOnPli\<close>.\<close>

definition PliHandler_incoming :: "Message list \<Rightarrow> nat" where
  "PliHandler_incoming messages = length (filter (\<lambda>m. pli_loop (msg_data m) 0) messages)"

section \<open>REMB handler\<close>

function remb_loop :: "binary \<Rightarrow> nat \<Rightarrow> u32 option result" where
  "remb_loop buf offset =
     (if 4 + offset \<le> length buf then
        let header = RtcpHeader_dec (drop offset buf);
            offset' = offset + RtcpHeader_lengthInBytes header
        in if RtcpHeader_payloadType header = 206 \<and> RtcpHeader_reportCount header = 15 \<and> RtcpHeader_lengthInBytes header = 24
           then if offset + 24 \<le> length buf then
                  let remb = RtcpRemb_dec (drop offset buf)
                  in if remb_id0 remb = 0x52 \<and> remb_id1 remb = 0x45 \<and> remb_id2 remb = 0x4D \<and> remb_id3 remb = 0x42
                     then Inr (Some (RtcpRemb_getBitrate remb))
                     else remb_loop buf offset'
                else Inl OutOfBounds
           else remb_loop buf offset'
      else Inr None)"
  by auto
termination
  by (relation "measure (\<lambda>(buf, offset). length buf - offset)") (auto simp: RtcpHeader_lengthInBytes_def)

declare remb_loop.simps [simp del]

text \<open>The arguments of the calls of \<open>mOnRemb\<close>.\<close>

fun RembHandler_incoming :: "Message list \<Rightarrow> u32 list result" where
  "RembHandler_incoming [] = Inr []"
| "RembHandler_incoming (message # messages) =
     bind_result (remb_loop (msg_data message) 0) (\<lambda>bitrate.
     bind_result (RembHandler_incoming messages) (\<lambda>rest.
       Inr (case bitrate of None \<Rightarrow> rest | Some b \<Rightarrow> b # rest)))"

section \<open>Receiving session\<close>

record RtcpReceivingSession =
  rs_ssrc :: u32
  rs_greatestSeqNo :: u32
  rs_syncRTPTS :: u64
  rs_syncNTPTS :: u64
  rs_requestedBitrate :: u32

text \<open>The two synchronisation timestamps have no initialiser.\<close>

definition RtcpReceivingSession_init :: "u64 \<Rightarrow> u64 \<Rightarrow> RtcpReceivingSession" where
  "RtcpReceivingSession_init rtpts ntpts =
     \<lparr>rs_ssrc = 0, rs_greatestSeqNo = 0, rs_syncRTPTS = rtpts, rs_syncNTPTS = ntpts, rs_requestedBitrate = 0\<rparr>"

definition pushREMB :: "u32 \<Rightarrow> RtcpReceivingSession \<Rightarrow> Message" where
  "pushREMB bitrate rs =
     (let message = make_message_size (RtcpRemb_SizeWithSSRCs 1) Control 0 None
      in message\<lparr>msg_data := overlay_upd RtcpRemb_enc RtcpRemb_dec 0
           (\<lambda>remb. RtcpRemb_setSsrc (rs_ssrc rs) (RtcpRemb_preparePacket (rs_ssrc rs) 1 bitrate remb)) (msg_data message)\<rparr>)"

definition pushRR :: "u32 \<Rightarrow> RtcpReceivingSession \<Rightarrow> Message" where
  "pushRR lastSrDelay rs =
     (let message = make_message_size (RtcpRr_SizeWithReportBlocks 1) Control 0 None;
          data = overlay_upd RtcpRr_enc RtcpRr_dec 0 (RtcpRr_preparePacket (rs_ssrc rs) 1) (msg_data message)
      in message\<lparr>msg_data := overlay_upd RtcpReportBlock_enc RtcpReportBlock_dec (RtcpRr_getReportBlock 0)
           (RtcpReportBlock_preparePacket (rs_ssrc rs) 0 0 (ucast (rs_greatestSeqNo rs)) 0 0 (rs_syncNTPTS rs) (ucast lastSrDelay))
           data\<rparr>)"

definition pushPLI :: "RtcpReceivingSession \<Rightarrow> Message" where
  "pushPLI rs =
     (let message = make_message_size RtcpPli_Size Control 0 None
      in message\<lparr>msg_data := overlay_upd RtcpFbHeader_enc RtcpFbHeader_dec 0 (RtcpPli_preparePacket (rs_ssrc rs)) (msg_data message)\<rparr>)"

definition session_control :: "binary \<Rightarrow> RtcpReceivingSession \<Rightarrow> (Message list \<times> RtcpReceivingSession) result" where
  "session_control data rs =
     (if length data < 2 then Inl OutOfBounds
      else let rr = RtcpRr_dec data; type = RtcpHeader_payloadType (rr_header rr)
      in if type = 201 then
           if length data < 8 then Inl OutOfBounds else Inr ([], rs\<lparr>rs_ssrc := RtcpRr_SSRC rr\<rparr>)
         else if type = 200 then
           if length data < 28 then Inl OutOfBounds
           else let sr = RtcpSr_dec data;
                    rs = rs\<lparr>rs_ssrc := RtcpRr_SSRC rr, rs_syncRTPTS := ucast (RtcpSr_rtpTimestamp sr),
                          rs_syncNTPTS := RtcpSr_ntpTimestamp sr\<rparr>
                in Inr (pushRR 0 rs # (if rs_requestedBitrate rs > 0 then [pushREMB (rs_requestedBitrate rs) rs] else []), rs)
         else Inr ([], rs))"

fun RtcpReceivingSession_incoming ::
  "Message list \<Rightarrow> RtcpReceivingSession \<Rightarrow> (Message list \<times> Message list \<times> RtcpReceivingSession) result" where
  "RtcpReceivingSession_incoming [] rs = Inr ([], [], rs)"
| "RtcpReceivingSession_incoming (message # messages) rs =
     (case msg_type message of
        Binary \<Rightarrow>
          let rtp = RtpHeader_dec (msg_data message)
          in if length (msg_data message) < 12 \<or> RtpHeader_version rtp \<noteq> 2 \<or>
                RtpHeader_payloadType rtp = 201 \<or> RtpHeader_payloadType rtp = 200
             then RtcpReceivingSession_incoming messages rs
             else bind_result (RtcpReceivingSession_incoming messages (rs\<lparr>rs_ssrc := RtpHeader_ssrc rtp\<rparr>)) (\<lambda>(result, sent, rs).
                    Inr (message # result, sent, rs))
      | Control \<Rightarrow>
          bind_result (session_control (msg_data message) rs) (\<lambda>(sent, rs).
          bind_result (RtcpReceivingSession_incoming messages rs) (\<lambda>(result, sent', rs). Inr (result, sent @ sent', rs)))
      | _ \<Rightarrow> RtcpReceivingSession_incoming messages rs)"

definition RtcpReceivingSession_requestBitrate ::
  "u32 \<Rightarrow> RtcpReceivingSession \<Rightarrow> bool \<times> Message list \<times> RtcpReceivingSession" where
  "RtcpReceivingSession_requestBitrate bitrate rs =
     (let rs = rs\<lparr>rs_requestedBitrate := bitrate\<rparr> in (True, [pushREMB bitrate rs], rs))"

definition RtcpReceivingSession_requestKeyframe :: "RtcpReceivingSession \<Rightarrow> bool \<times> Message list" where
  "RtcpReceivingSession_requestKeyframe rs = (True, [pushPLI rs])"

section \<open>Sender reports\<close>

record RtcpSrReporter =
  sp_config :: RtpPacketizationConfig
  sp_packetCount :: u32
  sp_payloadOctets :: u32
  sp_lastReportedTimestamp :: u32
  sp_needsToReport :: bool

definition RtcpSrReporter_init :: "RtpPacketizationConfig \<Rightarrow> RtcpSrReporter" where
  "RtcpSrReporter_init c =
     \<lparr>sp_config = c, sp_packetCount = 0, sp_payloadOctets = 0, sp_lastReportedTimestamp = cfg_timestamp c,
      sp_needsToReport = False\<rparr>"

definition setNeedsToReport :: "RtcpSrReporter \<Rightarrow> RtcpSrReporter" where
  "setNeedsToReport r = r\<lparr>sp_needsToReport := True\<rparr>"

definition lastReportedTimestamp :: "RtcpSrReporter \<Rightarrow> u32" where
  "lastReportedTimestamp r = sp_lastReportedTimestamp r"

definition addToReport :: "RtpHeader \<Rightarrow> u32 \<Rightarrow> RtcpSrReporter \<Rightarrow> RtcpSrReporter" where
  "addToReport rtp rtpSize r =
     r\<lparr>sp_packetCount := sp_packetCount r + 1,
       sp_payloadOctets := sp_payloadOctets r + (rtpSize - of_nat (RtpHeader_getSize rtp))\<rparr>"

definition getSenderReport :: "u64 \<Rightarrow> u32 \<Rightarrow> RtcpSrReporter \<Rightarrow> (Message \<times> RtcpSrReporter) result" where
  "getSenderReport ntp_time timestamp r =
     (let c = sp_config r; cname = string_bytes (cfg_cname c);
          srSize = RtcpSr_Size 0;
          msg = make_message_size (srSize + RtcpSdes_Size [[unat (of_nat (length cname) :: u8)]]) Control 0 None;
          data = overlay_upd RtcpSr_enc RtcpSr_dec 0
            (\<lambda>sr. RtcpSr_preparePacket (cfg_ssrc c) 0 (RtcpSr_setOctetCount (sp_payloadOctets r)
               (RtcpSr_setPacketCount (sp_packetCount r) (RtcpSr_setRtpTimestamp timestamp (RtcpSr_setNtpTimestamp ntp_time sr)))))
            (msg_data msg)
      in bind_result (RtcpSdes_getChunk data (srSize + 4) 0) (\<lambda>chunk.
           let data = RtcpSdesChunk_setSSRC chunk (cfg_ssrc c) data
           in bind_result (RtcpSdesChunk_getItem data (chunk + 4) 0) (\<lambda>item.
             let data = poke data item [1]
             in bind_result (RtcpSdesItem_setText item cname data) (\<lambda>data.
                bind_result (RtcpSdes_preparePacket data srSize 1) (\<lambda>data.
                  Inr (msg\<lparr>msg_data := data\<rparr>, r\<lparr>sp_lastReportedTimestamp := timestamp\<rparr>))))))"

definition report_packets :: "Message list \<Rightarrow> RtcpSrReporter \<Rightarrow> RtcpSrReporter" where
  "report_packets messages r =
     fold (\<lambda>m r. if msg_type m = Control \<or> length (msg_data m) < 12 then r
                 else addToReport (RtpHeader_dec (msg_data m)) (of_nat (length (msg_data m))) r) messages r"

definition RtcpSrReporter_outgoing :: "u64 \<Rightarrow> Message list \<Rightarrow> RtcpSrReporter \<Rightarrow> Message list result \<times> RtcpSrReporter" where
  "RtcpSrReporter_outgoing ntp_time messages r =
     (let r = report_packets messages r; needs = sp_needsToReport r; r = r\<lparr>sp_needsToReport := False\<rparr>
      in if needs
         then case getSenderReport ntp_time (cfg_timestamp (sp_config r)) r of
                Inl e \<Rightarrow> (Inl e, r)
              | Inr (sr, r) \<Rightarrow> (Inr [sr], r)
         else (Inr [], r))"

section \<open>Pacing\<close>

record PacingHandler =
  pc_haveScheduled :: bool
  pc_bytesPerSecond :: rat
  pc_budget :: rat
  pc_sendInterval :: rat
  pc_lastRun :: rat
  pc_rtpBuffer :: "Message list"
  pc_scheduled :: nat

text \<open>\<open>pc_scheduled\<close> counts the tasks of this handler that wait in the thread pool. Times are in seconds; \<open>mLastRun\<close> is
  the epoch of the clock at first.\<close>

definition PacingHandler_init :: "rat \<Rightarrow> rat \<Rightarrow> PacingHandler" where
  "PacingHandler_init bitsPerSecond sendInterval =
     \<lparr>pc_haveScheduled = False, pc_bytesPerSecond = bitsPerSecond / 8, pc_budget = 0, pc_sendInterval = sendInterval,
      pc_lastRun = 0, pc_rtpBuffer = [], pc_scheduled = 0\<rparr>"

definition pacing_schedule :: "PacingHandler \<Rightarrow> PacingHandler" where
  "pacing_schedule p =
     (let was = pc_haveScheduled p; p = p\<lparr>pc_haveScheduled := True\<rparr>
      in if \<not> was then p else p\<lparr>pc_scheduled := pc_scheduled p + 1\<rparr>)"

fun pacing_send :: "Message list \<Rightarrow> rat \<Rightarrow> Message list \<times> Message list \<times> rat" where
  "pacing_send [] budget = ([], [], budget)"
| "pacing_send (m # ms) budget =
     (if budget > 0 then
        case pacing_send ms (budget - of_nat (length (msg_data m))) of (sent, rest, b) \<Rightarrow> (m # sent, rest, b)
      else ([], m # ms, budget))"

definition pacing_task :: "rat \<Rightarrow> PacingHandler \<Rightarrow> Message list \<times> PacingHandler" where
  "pacing_task now p =
     (let p = p\<lparr>pc_haveScheduled := False, pc_scheduled := pc_scheduled p - 1\<rparr>;
          newBudget = (now - pc_lastRun p) * pc_bytesPerSecond p;
          maxBudget = pc_sendInterval p * pc_bytesPerSecond p
      in case pacing_send (pc_rtpBuffer p) (min (pc_budget p + newBudget) maxBudget) of (sent, rest, budget) \<Rightarrow>
           let p = p\<lparr>pc_budget := budget, pc_lastRun := now, pc_rtpBuffer := rest\<rparr>
           in (sent, if rest \<noteq> [] then pacing_schedule p else p))"

definition PacingHandler_outgoing :: "Message list \<Rightarrow> PacingHandler \<Rightarrow> Message list \<times> PacingHandler" where
  "PacingHandler_outgoing messages p =
     ([], pacing_schedule (p\<lparr>pc_rtpBuffer := pc_rtpBuffer p @ messages\<rparr>))"

section \<open>Handlers and their chain\<close>

text \<open>The packetizers and the reporter share one configuration object. Here each has its copy: only \<open>packetize\<close> changes
  it (the sequence number), which the reporter does not read.\<close>

datatype MediaHandler =
    NackResponder Storage
  | ReceivingSession RtcpReceivingSession
  | SrReporter RtcpSrReporter
  | Pacing PacingHandler
  | Pli nat
  | Remb "u32 list"
  | Packetizer RtpPacketizationConfig
  | H264Packetizer Separator u16 RtpPacketizationConfig
  | H265Packetizer Separator u16 RtpPacketizationConfig
  | Depacketizer
  | H264Depacketizer Separator "Message list"
  | H265Depacketizer Separator "Message list"

type_synonym handled = "(Message list \<times> Message list) result"

definition handler_incoming :: "Message list \<Rightarrow> MediaHandler \<Rightarrow> handled \<times> MediaHandler" where
  "handler_incoming messages h =
     (case h of
        NackResponder s \<Rightarrow> (bind_result (RtcpNackResponder_incoming messages s) (\<lambda>sent. Inr (messages, sent)), h)
      | ReceivingSession rs \<Rightarrow>
          (case RtcpReceivingSession_incoming messages rs of
             Inl e \<Rightarrow> (Inl e, h)
           | Inr (result, sent, rs) \<Rightarrow> (Inr (result, sent), ReceivingSession rs))
      | Pli n \<Rightarrow> (Inr (messages, []), Pli (n + PliHandler_incoming messages))
      | Remb bs \<Rightarrow>
          (case RembHandler_incoming messages of
             Inl e \<Rightarrow> (Inl e, h)
           | Inr bs' \<Rightarrow> (Inr (messages, []), Remb (bs @ bs')))
      | Depacketizer \<Rightarrow> (bind_result (RtpDepacketizer_incoming messages) (\<lambda>ms. Inr (ms, [])), h)
      | H264Depacketizer sep buffer \<Rightarrow>
          (case H264RtpDepacketizer_incoming sep messages buffer of
             (r, buffer) \<Rightarrow> (bind_result r (\<lambda>ms. Inr (ms, [])), H264Depacketizer sep buffer))
      | H265Depacketizer sep buffer \<Rightarrow>
          (case H265RtpDepacketizer_incoming sep messages buffer of
             (r, buffer) \<Rightarrow> (bind_result r (\<lambda>ms. Inr (ms, [])), H265Depacketizer sep buffer))
      | _ \<Rightarrow> (Inr (messages, []), h))"

text \<open>\<open>None\<close>: fragmentation does not end.\<close>

definition handler_outgoing :: "u64 \<Rightarrow> Message list \<Rightarrow> MediaHandler \<Rightarrow> (handled \<times> MediaHandler) option" where
  "handler_outgoing ntp_time messages h =
     (case h of
        NackResponder s \<Rightarrow> Some (Inr (messages, []), NackResponder (RtcpNackResponder_outgoing messages s))
      | SrReporter r \<Rightarrow>
          (case RtcpSrReporter_outgoing ntp_time messages r of
             (sent, r) \<Rightarrow> Some (bind_result sent (\<lambda>sent. Inr (messages, sent)), SrReporter r))
      | Pacing p \<Rightarrow> (case PacingHandler_outgoing messages p of (ms, p) \<Rightarrow> Some (Inr (ms, []), Pacing p))
      | Packetizer c \<Rightarrow>
          Some (case RtpPacketizer_outgoing messages c of
                  Inl e \<Rightarrow> (Inl e, h)
                | Inr (ms, c) \<Rightarrow> (Inr (ms, []), Packetizer c))
      | H264Packetizer sep n c \<Rightarrow>
          map_option (\<lambda>r. case r of Inl e \<Rightarrow> (Inl e, h) | Inr (ms, c) \<Rightarrow> (Inr (ms, []), H264Packetizer sep n c))
            (H264RtpPacketizer_outgoing sep n messages c)
      | H265Packetizer sep n c \<Rightarrow>
          map_option (\<lambda>r. case r of Inl e \<Rightarrow> (Inl e, h) | Inr (ms, c) \<Rightarrow> (Inr (ms, []), H265Packetizer sep n c))
            (H265RtpPacketizer_outgoing sep n messages c)
      | _ \<Rightarrow> Some (Inr (messages, []), h))"

fun incomingChain :: "MediaHandler list \<Rightarrow> Message list \<Rightarrow> handled \<times> MediaHandler list" where
  "incomingChain [] messages = (Inr (messages, []), [])"
| "incomingChain (h # hs) messages =
     (case incomingChain hs messages of
        (Inl e, hs) \<Rightarrow> (Inl e, h # hs)
      | (Inr (messages, sent), hs) \<Rightarrow>
          (case handler_incoming messages h of
             (r, h) \<Rightarrow> (bind_result r (\<lambda>(messages, sent'). Inr (messages, sent @ sent')), h # hs)))"

fun outgoingChain :: "u64 \<Rightarrow> MediaHandler list \<Rightarrow> Message list \<Rightarrow> (handled \<times> MediaHandler list) option" where
  "outgoingChain ntp_time [] messages = Some (Inr (messages, []), [])"
| "outgoingChain ntp_time (h # hs) messages =
     (case handler_outgoing ntp_time messages h of
        None \<Rightarrow> None
      | Some (Inl e, h) \<Rightarrow> Some (Inl e, h # hs)
      | Some (Inr (messages, sent), h) \<Rightarrow>
          map_option (\<lambda>(r, hs). (bind_result r (\<lambda>(messages, sent'). Inr (messages, sent @ sent')), h # hs))
            (outgoingChain ntp_time hs messages))"

definition addToChain :: "MediaHandler \<Rightarrow> MediaHandler list \<Rightarrow> MediaHandler list" where
  "addToChain handler hs = hs @ [handler]"

fun requestKeyframe :: "MediaHandler list \<Rightarrow> bool \<times> Message list" where
  "requestKeyframe [] = (False, [])"
| "requestKeyframe (h # hs) =
     (case h of ReceivingSession rs \<Rightarrow> RtcpReceivingSession_requestKeyframe rs | _ \<Rightarrow> requestKeyframe hs)"

fun requestBitrate :: "u32 \<Rightarrow> MediaHandler list \<Rightarrow> bool \<times> Message list \<times> MediaHandler list" where
  "requestBitrate bitrate [] = (False, [], [])"
| "requestBitrate bitrate (h # hs) =
     (case h of
        ReceivingSession rs \<Rightarrow>
          (case RtcpReceivingSession_requestBitrate bitrate rs of (b, sent, rs) \<Rightarrow> (b, sent, ReceivingSession rs # hs))
      | _ \<Rightarrow> (case requestBitrate bitrate hs of (b, sent, hs) \<Rightarrow> (b, sent, h # hs)))"

section \<open>Sender reports are valid\<close>

lemma sdes_cname_chunk:
  assumes "length t \<le> 255"
  shows "sdes_chunk_ok [(1, t)]" and "length t + 6 \<le> RtcpSdesChunk_Size [length t]"
    and "sdes_chunk ssrc [(1, t)] = bytes32 (htonl ssrc) @ [1, of_nat (length t)] @ t @
      replicate (RtcpSdesChunk_Size [length t] - 6 - length t) 0"
proof -
  show ok: "sdes_chunk_ok [(1, t)]"
    using assms by (simp add: sdes_chunk_ok_def sdes_item_ok_def sdes_items_def sdes_item_def)
  have len: "length (sdes_chunk ssrc [(1, t)]) = RtcpSdesChunk_Size [length t]"
    using length_sdes_chunk [OF ok] by simp
  then show "length t + 6 \<le> RtcpSdesChunk_Size [length t]"
    by (simp add: sdes_chunk_def sdes_items_def sdes_item_def)
  from len show "sdes_chunk ssrc [(1, t)] = bytes32 (htonl ssrc) @ [1, of_nat (length t)] @ t @
      replicate (RtcpSdesChunk_Size [length t] - 6 - length t) 0"
    by (simp add: sdes_chunk_def sdes_items_def sdes_item_def)
qed

lemma getSenderReport_eq:
  fixes r :: RtcpSrReporter and ntp :: u64 and ts :: u32
  assumes "length (cfg_cname (sp_config r)) \<le> 255"
  defines "c \<equiv> sp_config r" and "sr \<equiv> RtcpSr_preparePacket (cfg_ssrc (sp_config r)) 0 (RtcpSr_setOctetCount (sp_payloadOctets r)
     (RtcpSr_setPacketCount (sp_packetCount r) (RtcpSr_setRtpTimestamp ts (RtcpSr_setNtpTimestamp ntp (RtcpSr_dec (replicate 28 0))))))"
  shows "getSenderReport ntp ts r = bind_result (RtcpSdes_preparePacket (RtcpSr_enc sr @ replicate 4 0 @
      sdes_chunks [(cfg_ssrc c, [(1, string_bytes (cfg_cname c))])] @ []) 28 1)
    (\<lambda>data. Inr (make_message data Control 0 None None, r\<lparr>sp_lastReportedTimestamp := ts\<rparr>))"
proof -
  let ?t = "string_bytes (cfg_cname c)"
  let ?z = "RtcpSdesChunk_Size [length ?t] - 6 - length ?t"
  have len: "length ?t \<le> 255" using assms(1) by (simp add: c_def string_bytes_def)
  then have u: "unat (of_nat (length ?t) :: u8) = length ?t" by (simp add: unat_of_nat)
  have size: "RtcpSdes_Size [[length ?t]] = 4 + 4 + 1 + (1 + length ?t) + ?z"
    using sdes_cname_chunk(2) [OF len] by (simp add: RtcpSdes_Size_def)
  have z: "replicate (28 + RtcpSdes_Size [[length ?t]]) (0::u8) =
      replicate 28 0 @ replicate 4 0 @ replicate 4 0 @ [0] @ replicate (1 + length ?t) 0 @ replicate ?z 0"
    by (simp only: size replicate_add [symmetric] replicate_Suc [symmetric] append_Cons append_Nil) (simp add: replicate_add add.assoc)
  let ?rest = "replicate 4 0 @ replicate 4 0 @ [0] @ replicate (1 + length ?t) 0 @ replicate ?z (0::u8)"
  have s1: "overlay_upd RtcpSr_enc RtcpSr_dec 0 f (replicate 28 0 @ ?rest) = RtcpSr_enc (f (RtcpSr_dec (replicate 28 0))) @ ?rest" for f
    using sr.upd_prefix [of "replicate 28 0" f ?rest] by simp
  have s2: "poke (RtcpSr_enc sr @ ?rest) 32 (bytes32 x) =
      RtcpSr_enc sr @ replicate 4 0 @ bytes32 x @ [0] @ replicate (1 + length ?t) 0 @ replicate ?z 0" for x
    using poke_at [of "replicate 4 0" "bytes32 x" "RtcpSr_enc sr @ replicate 4 0"] by (simp add: sr.length_enc)
  have s3: "poke (RtcpSr_enc sr @ replicate 4 0 @ bytes32 x @ [0] @ replicate (1 + length ?t) 0 @ replicate ?z 0) 36 [1] =
      RtcpSr_enc sr @ replicate 4 0 @ bytes32 x @ [1] @ replicate (1 + length ?t) 0 @ replicate ?z 0" for x
    using poke_at [of "[0]" "[1]" "RtcpSr_enc sr @ replicate 4 0 @ bytes32 x"] by (simp add: sr.length_enc)
  have s4: "poke (RtcpSr_enc sr @ replicate 4 0 @ bytes32 x @ [1] @ replicate (1 + length ?t) 0 @ replicate ?z 0) 37 (of_nat (length ?t) # ?t) =
      RtcpSr_enc sr @ replicate 4 0 @ bytes32 x @ [1] @ (of_nat (length ?t) # ?t) @ replicate ?z 0" for x
    using poke_at [of "replicate (1 + length ?t) 0" "of_nat (length ?t) # ?t" "RtcpSr_enc sr @ replicate 4 0 @ bytes32 x @ [1]"]
    by (simp add: sr.length_enc)
  have chunk: "RtcpSr_enc sr @ replicate 4 0 @ bytes32 (htonl (cfg_ssrc c)) @ [1] @ (of_nat (length ?t) # ?t) @ replicate ?z 0 =
      RtcpSr_enc sr @ replicate 4 0 @ sdes_chunks [(cfg_ssrc c, [(1, ?t)])] @ []"
    using sdes_cname_chunk(3) [OF len] by (simp add: sdes_chunks_def)
  let ?data = "RtcpSr_enc sr @ ?rest"
  have "RtcpSdesItem_setText 36 ?t (poke (RtcpSdesChunk_setSSRC 32 (cfg_ssrc c) ?data) 36 [1]) =
      Inr (RtcpSr_enc sr @ replicate 4 0 @ sdes_chunks [(cfg_ssrc c, [(1, ?t)])] @ [])"
    unfolding RtcpSdesItem_setText_def RtcpSdesChunk_setSSRC_def s2 s3
    using len s4 [of "htonl (cfg_ssrc c)"] chunk by (simp add: sr.length_enc)
  moreover have "overlay_upd RtcpSr_enc RtcpSr_dec 0 (\<lambda>sr. RtcpSr_preparePacket (cfg_ssrc c) 0 (RtcpSr_setOctetCount (sp_payloadOctets r)
        (RtcpSr_setPacketCount (sp_packetCount r) (RtcpSr_setRtpTimestamp ts (RtcpSr_setNtpTimestamp ntp sr)))))
      (replicate (28 + RtcpSdes_Size [[unat (of_nat (length ?t) :: u8)]]) 0) = ?data"
    unfolding u z s1 by (simp only: sr_def c_def)
  ultimately show ?thesis
    by (simp add: getSenderReport_def Let_def make_message_size_def make_message_def Message_init_def RtcpSr_Size_def
        flip: c_def)
qed

lemma sdes_chunk_size_bound: "RtcpSdesChunk_Size ls \<le> 1024"
  using mod_less_divisor [of 256 "(sum_list (map RtcpSdesItem_Size ls) + 4) div 4"]
  by (simp add: RtcpSdesChunk_Size_def Let_def)

lemma getSenderReport_valid:
  fixes r :: RtcpSrReporter and ntp :: u64 and ts :: u32
  assumes "length (cfg_cname (sp_config r)) \<le> 255"
  defines "c \<equiv> sp_config r"
  shows "\<exists>m. getSenderReport ntp ts r = Inr (m, r\<lparr>sp_lastReportedTimestamp := ts\<rparr>) \<and> msg_type m = Control \<and>
    (let sr = RtcpSr_dec (msg_data m) in
       RtcpHeader_payloadType (sr_header sr) = 200 \<and> RtcpSr_senderSSRC sr = cfg_ssrc c \<and>
       RtcpSr_ntpTimestamp sr = ntp \<and> RtcpSr_rtpTimestamp sr = ts \<and>
       RtcpSr_packetCount sr = sp_packetCount r \<and> RtcpSr_octetCount sr = sp_payloadOctets r \<and>
       RtcpHeader_lengthInBytes (sr_header sr) = 28) \<and>
    RtcpSdes_isValid (msg_data m) 28 = Inr True \<and> RtcpSdes_chunksCount (msg_data m) 28 = Inr 1 \<and>
    drop 32 (msg_data m) = sdes_chunk (cfg_ssrc c) [(1, string_bytes (cfg_cname c))] \<and>
    length (msg_data m) = 28 + RtcpHeader_lengthInBytes (overlay RtcpHeader_dec 28 (msg_data m))"
proof -
  let ?t = "string_bytes (cfg_cname c)"
  let ?cs = "[(cfg_ssrc c, [(1 :: u8, ?t)])]"
  define sr where "sr = RtcpSr_preparePacket (cfg_ssrc c) 0 (RtcpSr_setOctetCount (sp_payloadOctets r)
     (RtcpSr_setPacketCount (sp_packetCount r) (RtcpSr_setRtpTimestamp ts (RtcpSr_setNtpTimestamp ntp (RtcpSr_dec (replicate 28 0))))))"
  have len: "length ?t \<le> 255" using assms(1) by (simp add: c_def)
  have ok: "\<forall>c \<in> set ?cs. sdes_chunk_ok (snd c)" using sdes_cname_chunk(1) [OF len] by simp
  have small: "length (sdes_chunks ?cs) < 65536"
    using length_sdes_chunk [of "[(1, ?t)]" "cfg_ssrc c"] ok sdes_chunk_size_bound [of "[length ?t]"] by (simp add: sdes_chunks_def)
  let ?pre = "RtcpSr_enc sr"
  have p: "length ?pre = 28" by (simp add: sr.length_enc)
  obtain data h where data: "RtcpSdes_preparePacket (?pre @ replicate 4 0 @ sdes_chunks ?cs @ []) 28 1 = Inr data"
      "RtcpSdes_isValid data 28 = Inr True" "RtcpSdes_chunksCount data 28 = Inr 1"
      "RtcpHeader_lengthInBytes (overlay RtcpHeader_dec 28 data) = 4 + length (sdes_chunks ?cs)"
      "data = ?pre @ RtcpHeader_enc h @ sdes_chunks ?cs"
    using sdes_prepared [OF ok small, of 1 "replicate 4 0" ?pre "[]", unfolded p] by auto
  have "getSenderReport ntp ts r = Inr (make_message data Control 0 None None, r\<lparr>sp_lastReportedTimestamp := ts\<rparr>)"
    using getSenderReport_eq [OF assms(1), of ntp ts] data(1) by (simp flip: sr_def c_def)
  moreover have "RtcpSr_dec data = sr" by (simp add: data(5) sr.dec_enc)
  moreover have "RtcpHeader_payloadType (sr_header sr) = 200 \<and> RtcpSr_senderSSRC sr = cfg_ssrc c \<and>
       RtcpSr_ntpTimestamp sr = ntp \<and> RtcpSr_rtpTimestamp sr = ts \<and>
       RtcpSr_packetCount sr = sp_packetCount r \<and> RtcpSr_octetCount sr = sp_payloadOctets r \<and>
       RtcpHeader_lengthInBytes (sr_header sr) = 28"
    by (simp add: sr_def RtcpSr_preparePacket_def Let_def struct_defs RtcpHeader_lengthInBytes_def RtcpHeader_prepareHeader_def)
  moreover have "drop 32 data = sdes_chunk (cfg_ssrc c) [(1, ?t)]" "length data = 32 + length (sdes_chunks ?cs)"
    by (simp_all add: data(5) p rtcp.length_enc sdes_chunks_def)
  ultimately show ?thesis
    using data(2-4) by (simp add: make_message_def Message_init_def)
qed

definition rtp_packets :: "Message list \<Rightarrow> Message list" where
  "rtp_packets ms = filter (\<lambda>m. msg_type m \<noteq> Control \<and> 12 \<le> length (msg_data m)) ms"

lemma report_packets_needs [simp]: "sp_needsToReport (report_packets ms r) = sp_needsToReport r"
  unfolding report_packets_def by (induction ms arbitrary: r) (simp_all add: addToReport_def)

lemma report_packets_eq:
  assumes "\<forall>m \<in> set (rtp_packets ms). RtpHeader_getSize (RtpHeader_dec (msg_data m)) \<le> length (msg_data m)"
  shows "report_packets ms r = r\<lparr>sp_packetCount := sp_packetCount r + of_nat (length (rtp_packets ms)),
    sp_payloadOctets := sp_payloadOctets r +
      of_nat (\<Sum>m \<leftarrow> rtp_packets ms. length (msg_data m) - RtpHeader_getSize (RtpHeader_dec (msg_data m)))\<rparr>"
  using assms
proof (induction ms arbitrary: r)
  case Nil
  then show ?case by (simp add: report_packets_def rtp_packets_def)
next
  case (Cons m ms)
  let ?r = "if msg_type m = Control \<or> length (msg_data m) < 12 then r
      else addToReport (RtpHeader_dec (msg_data m)) (of_nat (length (msg_data m))) r"
  have "report_packets (m # ms) r = report_packets ms ?r" by (simp add: report_packets_def)
  then show ?case
    using Cons.IH [of ?r] Cons.prems by (auto simp: rtp_packets_def addToReport_def of_nat_diff not_less)
qed

text \<open>Sender reports. When a report is due, \<open>outgoing\<close> sends one compound packet and clears the flag: a sender report
  whose fields read back as the configured SSRC, the given times, and the numbers of RTP packets and payload bytes
  seen so far (modulo \<open>2 ^ 32\<close>; control messages and runts are not counted), followed by a valid source description
  with exactly one chunk, the CNAME; the two length fields cover the whole message.\<close>

theorem sender_report_is_valid_compound:
  fixes ms :: "Message list" and r :: RtcpSrReporter and ntp :: u64
  assumes "sp_needsToReport r" and "length (cfg_cname (sp_config r)) \<le> 255"
    and "\<forall>m \<in> set (rtp_packets ms). RtpHeader_getSize (RtpHeader_dec (msg_data m)) \<le> length (msg_data m)"
  shows "\<exists>m r'. RtcpSrReporter_outgoing ntp ms r = (Inr [m], r') \<and> \<not> sp_needsToReport r' \<and> msg_type m = Control \<and>
    lastReportedTimestamp r' = cfg_timestamp (sp_config r) \<and>
    (let sr = RtcpSr_dec (msg_data m) in
       RtcpHeader_payloadType (sr_header sr) = 200 \<and> RtcpSr_senderSSRC sr = cfg_ssrc (sp_config r) \<and>
       RtcpSr_ntpTimestamp sr = ntp \<and> RtcpSr_rtpTimestamp sr = cfg_timestamp (sp_config r) \<and>
       RtcpSr_packetCount sr = sp_packetCount r + of_nat (length (rtp_packets ms)) \<and>
       RtcpSr_octetCount sr = sp_payloadOctets r +
         of_nat (\<Sum>m \<leftarrow> rtp_packets ms. length (msg_data m) - RtpHeader_getSize (RtpHeader_dec (msg_data m))) \<and>
       RtcpHeader_lengthInBytes (sr_header sr) = 28) \<and>
    RtcpSdes_isValid (msg_data m) 28 = Inr True \<and> RtcpSdes_chunksCount (msg_data m) 28 = Inr 1 \<and>
    drop 32 (msg_data m) = sdes_chunk (cfg_ssrc (sp_config r)) [(1, string_bytes (cfg_cname (sp_config r)))] \<and>
    length (msg_data m) = 28 + RtcpHeader_lengthInBytes (overlay RtcpHeader_dec 28 (msg_data m))"
proof -
  define r1 where "r1 = (report_packets ms r)\<lparr>sp_needsToReport := False\<rparr>"
  note rp = report_packets_eq [OF assms(3), of r]
  have r1: "sp_config r1 = sp_config r" "\<not> sp_needsToReport r1"
      "sp_packetCount r1 = sp_packetCount r + of_nat (length (rtp_packets ms))"
      "sp_payloadOctets r1 = sp_payloadOctets r +
        of_nat (\<Sum>m \<leftarrow> rtp_packets ms. length (msg_data m) - RtpHeader_getSize (RtpHeader_dec (msg_data m)))"
      "sp_needsToReport (report_packets ms r)"
    using assms(1) by (simp_all add: r1_def rp)
  have "length (cfg_cname (sp_config r1)) \<le> 255" using assms(2) r1(1) by simp
  from getSenderReport_valid [OF this, of ntp "cfg_timestamp (sp_config r)"] obtain m where
    "getSenderReport ntp (cfg_timestamp (sp_config r)) r1 = Inr (m, r1\<lparr>sp_lastReportedTimestamp := cfg_timestamp (sp_config r)\<rparr>)"
    and m: "msg_type m = Control \<and> (let sr = RtcpSr_dec (msg_data m) in
       RtcpHeader_payloadType (sr_header sr) = 200 \<and> RtcpSr_senderSSRC sr = cfg_ssrc (sp_config r1) \<and>
       RtcpSr_ntpTimestamp sr = ntp \<and> RtcpSr_rtpTimestamp sr = cfg_timestamp (sp_config r) \<and>
       RtcpSr_packetCount sr = sp_packetCount r1 \<and> RtcpSr_octetCount sr = sp_payloadOctets r1 \<and>
       RtcpHeader_lengthInBytes (sr_header sr) = 28) \<and>
    RtcpSdes_isValid (msg_data m) 28 = Inr True \<and> RtcpSdes_chunksCount (msg_data m) 28 = Inr 1 \<and>
    drop 32 (msg_data m) = sdes_chunk (cfg_ssrc (sp_config r1)) [(1, string_bytes (cfg_cname (sp_config r1)))] \<and>
    length (msg_data m) = 28 + RtcpHeader_lengthInBytes (overlay RtcpHeader_dec 28 (msg_data m))"
    by blast
  then have "RtcpSrReporter_outgoing ntp ms r = (Inr [m], r1\<lparr>sp_lastReportedTimestamp := cfg_timestamp (sp_config r)\<rparr>)"
    using r1 by (simp add: RtcpSrReporter_outgoing_def Let_def flip: r1_def)
  with m show ?thesis
    using r1 by (simp add: lastReportedTimestamp_def)
qed

theorem sender_report_is_valid_compound_witness:
  defines "m0 \<equiv> make_message [0x80, 96, 0, 1, 0, 0, 0, 2, 0, 0, 0, 7, 5, 5] Binary 0 None None"
    and "r \<equiv> setNeedsToReport (RtcpSrReporter_init example_config)"
  shows "\<exists>m r'. RtcpSrReporter_outgoing 99 [m0] r = (Inr [m], r') \<and>
    RtcpSr_packetCount (RtcpSr_dec (msg_data m)) = 1 \<and> RtcpSr_octetCount (RtcpSr_dec (msg_data m)) = 2 \<and>
    RtcpSdes_isValid (msg_data m) 28 = Inr True"
proof -
  have rtp: "rtp_packets [m0] = [m0]" "length (msg_data m0) = 14"
    by (simp_all add: rtp_packets_def m0_def make_message_def Message_init_def)
  moreover have "RtpHeader_getSize (RtpHeader_dec (msg_data m0)) = 12"
    unfolding m0_def by code_simp
  moreover have "sp_needsToReport r" "sp_config r = example_config" "sp_packetCount r = 0" "sp_payloadOctets r = 0"
    by (simp_all add: r_def setNeedsToReport_def RtcpSrReporter_init_def)
  moreover have "length (cfg_cname example_config) \<le> 255"
    by (simp add: example_config_def RtpPacketizationConfig_init_def)
  ultimately show ?thesis
    using sender_report_is_valid_compound [of r "[m0]" 99] by (simp add: Let_def) blast
qed

section \<open>Receiver reports\<close>

lemma pushRR_fields:
  fixes rs :: RtcpReceivingSession and d :: u32
  defines "data \<equiv> msg_data (pushRR d rs)"
  shows "msg_type (pushRR d rs) = Control" and "length data = 32"
    and "RtcpHeader_payloadType (rr_header (RtcpRr_dec data)) = 201"
    and "RtcpHeader_lengthInBytes (rr_header (RtcpRr_dec data)) = 32"
    and "RtcpRr_SSRC (RtcpRr_dec data) = rs_ssrc rs"
    and "overlay RtcpReportBlock_dec 8 data =
      RtcpReportBlock_preparePacket (rs_ssrc rs) 0 0 (ucast (rs_greatestSeqNo rs)) 0 0 (rs_syncNTPTS rs) (ucast d)
        (RtcpReportBlock_dec (replicate 24 0))"
proof -
  let ?rr = "RtcpRr_preparePacket (rs_ssrc rs) 1 (RtcpRr_dec (replicate 32 0))"
  have d1: "overlay_upd RtcpRr_enc RtcpRr_dec 0 f (replicate 32 0) = RtcpRr_enc (f (RtcpRr_dec (replicate 32 0))) @ replicate 24 0" for f
    by (simp add: rr.upd_eq)
  have data: "data = RtcpRr_enc ?rr @ RtcpReportBlock_enc (RtcpReportBlock_preparePacket (rs_ssrc rs) 0 0 (ucast (rs_greatestSeqNo rs))
      0 0 (rs_syncNTPTS rs) (ucast d) (RtcpReportBlock_dec (replicate 24 0)))"
    by (simp add: data_def pushRR_def Let_def make_message_size_def Message_init_def RtcpRr_SizeWithReportBlocks_def
        RtcpRr_getReportBlock_def d1 rb.upd_eq rr.length_enc)
  show "msg_type (pushRR d rs) = Control"
    by (simp add: pushRR_def make_message_size_def Message_init_def Let_def)
  show "length data = 32" by (simp add: data rr.length_enc rb.length_enc)
  show "RtcpHeader_payloadType (rr_header (RtcpRr_dec data)) = 201" "RtcpHeader_lengthInBytes (rr_header (RtcpRr_dec data)) = 32"
    "RtcpRr_SSRC (RtcpRr_dec data) = rs_ssrc rs"
    by (simp_all add: data rr.dec_enc RtcpRr_preparePacket_def RtcpRr_SSRC_def RtcpHeader_lengthInBytes_def
        RtcpRr_SizeWithReportBlocks_def)
  show "overlay RtcpReportBlock_dec 8 data =
      RtcpReportBlock_preparePacket (rs_ssrc rs) 0 0 (ucast (rs_greatestSeqNo rs)) 0 0 (rs_syncNTPTS rs) (ucast d)
        (RtcpReportBlock_dec (replicate 24 0))"
    using rb.dec_enc [of _ "[]"] by (simp add: overlay_def data rr.length_enc)
qed

lemma dec_rr_of_sr: "rr_header (RtcpRr_dec b) = sr_header (RtcpSr_dec b)" "RtcpRr_SSRC (RtcpRr_dec b) = RtcpSr_senderSSRC (RtcpSr_dec b)"
  by (simp_all add: RtcpRr_dec_def RtcpSr_dec_def RtcpRr_SSRC_def RtcpSr_senderSSRC_def)

text \<open>The report exchange. A receiving session that gets the sender report of a reporter adopts its SSRC and its two
  timestamps, delivers nothing to the application, and answers at once with a receiver report of 32 bytes about that
  SSRC whose last-report field holds the middle 32 bits of the NTP time sent; a bitrate requested before is repeated
  in a REMB behind it.\<close>

theorem report_exchange:
  assumes "length (cfg_cname (sp_config r)) \<le> 255" and "getSenderReport ntp ts r = Inr (m, r')"
  shows "\<exists>rr rs'. RtcpReceivingSession_incoming [m] rs =
      Inr ([], rr # (if rs_requestedBitrate rs > 0 then [pushREMB (rs_requestedBitrate rs) rs'] else []), rs') \<and>
    rs' = rs\<lparr>rs_ssrc := cfg_ssrc (sp_config r), rs_syncRTPTS := ucast ts, rs_syncNTPTS := ntp\<rparr> \<and>
    msg_type rr = Control \<and> length (msg_data rr) = 32 \<and>
    RtcpHeader_payloadType (rr_header (RtcpRr_dec (msg_data rr))) = 201 \<and>
    RtcpHeader_lengthInBytes (rr_header (RtcpRr_dec (msg_data rr))) = 32 \<and>
    RtcpRr_SSRC (RtcpRr_dec (msg_data rr)) = cfg_ssrc (sp_config r) \<and>
    (let b = overlay RtcpReportBlock_dec 8 (msg_data rr)
     in RtcpReportBlock_getSSRC b = cfg_ssrc (sp_config r) \<and> ntohl (rb_lastReport b) = ucast (drop_bit 16 ntp))"
proof -
  let ?rs = "rs\<lparr>rs_ssrc := cfg_ssrc (sp_config r), rs_syncRTPTS := ucast ts, rs_syncNTPTS := ntp\<rparr>"
  let ?sr = "RtcpSr_dec (msg_data m)"
  have m: "msg_type m = Control" "28 \<le> length (msg_data m)" "RtcpHeader_payloadType (sr_header ?sr) = 200"
      "RtcpSr_senderSSRC ?sr = cfg_ssrc (sp_config r)" "RtcpSr_ntpTimestamp ?sr = ntp" "RtcpSr_rtpTimestamp ?sr = ts"
    using getSenderReport_valid [OF assms(1), of ntp ts] assms(2) by (auto simp: Let_def)
  have "session_control (msg_data m) rs =
      Inr (pushRR 0 ?rs # (if rs_requestedBitrate rs > 0 then [pushREMB (rs_requestedBitrate rs) ?rs] else []), ?rs)"
    using m by (simp add: session_control_def dec_rr_of_sr Let_def)
  then have "RtcpReceivingSession_incoming [m] rs =
      Inr ([], pushRR 0 ?rs # (if rs_requestedBitrate rs > 0 then [pushREMB (rs_requestedBitrate rs) ?rs] else []), ?rs)"
    using m(1) by simp
  then show ?thesis
    using pushRR_fields [of 0 ?rs]
    by (intro exI [of _ "pushRR 0 ?rs"] exI [of _ ?rs])
      (simp add: RtcpReportBlock_preparePacket_def struct_defs)
qed

theorem report_exchange_witness:
  defines "r \<equiv> RtcpSrReporter_init example_config" and "rs \<equiv> RtcpReceivingSession_init 0 0"
  shows "\<exists>m r' rr rs'. getSenderReport 99 5 r = Inr (m, r') \<and> RtcpReceivingSession_incoming [m] rs = Inr ([], [rr], rs') \<and>
    rs_ssrc rs' = 42 \<and> RtcpRr_SSRC (RtcpRr_dec (msg_data rr)) = 42"
proof -
  have c: "sp_config r = example_config" "length (cfg_cname example_config) \<le> 255" "cfg_ssrc example_config = 42"
    "rs_requestedBitrate rs = 0"
    by (simp_all add: r_def rs_def RtcpSrReporter_init_def example_config_def RtpPacketizationConfig_init_def RtcpReceivingSession_init_def)
  then obtain m r' where m: "getSenderReport 99 5 r = Inr (m, r')"
    using getSenderReport_valid [of r 99 5] by auto
  then show ?thesis
    using report_exchange [of r 99 5 m r' rs] c by auto
qed

section \<open>Feedback reaches its handler\<close>

lemma pushPLI_data:
  "msg_data (pushPLI rs) = RtcpFbHeader_enc (RtcpPli_preparePacket (rs_ssrc rs) (RtcpFbHeader_dec (replicate 12 0)))"
  by (simp add: pushPLI_def Let_def make_message_size_def Message_init_def RtcpPli_Size_def fb.upd_eq)

lemma pushREMB_data:
  "msg_data (pushREMB b rs) = RtcpRemb_enc (RtcpRemb_setSsrc (rs_ssrc rs)
     (RtcpRemb_preparePacket (rs_ssrc rs) 1 b (RtcpRemb_dec (replicate 24 0))))"
  by (simp add: pushREMB_def Let_def make_message_size_def Message_init_def RtcpRemb_SizeWithSSRCs_def remb.upd_eq)

lemma dec_header_fb: "RtcpHeader_dec (RtcpFbHeader_enc f @ r) = fb_header f"
  by (metis RtcpFbHeader.select_convs(1) RtcpFbHeader_dec_def fb.dec_enc)

lemma dec_header_remb: "RtcpHeader_dec (RtcpRemb_enc x @ r) = fb_header (remb_header x)"
  by (metis RtcpFbHeader.select_convs(1) RtcpFbHeader_dec_def RtcpRemb.select_convs(1) RtcpRemb_dec_def remb.dec_enc)

text \<open>An RTCP packet that fills its bytes and is no request for a keyframe.\<close>

definition other_rtcp :: "binary \<Rightarrow> bool" where
  "other_rtcp pkt \<longleftrightarrow> (let h = RtcpHeader_dec pkt in 4 \<le> length pkt \<and> RtcpHeader_lengthInBytes h = length pkt \<and>
     RtcpHeader_payloadType h \<noteq> 196 \<and> \<not> (RtcpHeader_payloadType h = 206 \<and> RtcpHeader_reportCount h = 1))"

lemma pli_loop_skip: "\<forall>pkt \<in> set pkts. other_rtcp pkt \<Longrightarrow>
    pli_loop (pre @ concat pkts @ rest) (length pre) = pli_loop (pre @ concat pkts @ rest) (length pre + length (concat pkts))"
proof (induction pkts arbitrary: pre)
  case (Cons pkt pkts)
  have "pli_loop (pre @ concat (pkt # pkts) @ rest) (length pre) = pli_loop ((pre @ pkt) @ concat pkts @ rest) (length (pre @ pkt))"
    using Cons.prems
    by (subst pli_loop.simps) (auto simp: other_rtcp_def Let_def rtcp.dec_append)
  also have "\<dots> = pli_loop ((pre @ pkt) @ concat pkts @ rest) (length (pre @ pkt) + length (concat pkts))"
    using Cons.prems by (intro Cons.IH) simp
  finally show ?case by (simp add: add.assoc)
qed simp

text \<open>A keyframe request of a receiver reaches the sender: the first receiving session of a chain answers
  \<open>requestKeyframe\<close> with a PLI, and a PLI handler that gets it, behind any number of other well-formed RTCP
  packets in a compound message, calls its callback exactly once.\<close>

theorem keyframe_request_reaches_sender:
  assumes "\<forall>h \<in> set hs. \<forall>rs. h \<noteq> ReceivingSession rs" and "\<forall>pkt \<in> set pkts. other_rtcp pkt"
  shows "requestKeyframe (hs @ ReceivingSession rs # hs') = (True, [pushPLI rs]) \<and>
    PliHandler_incoming [make_message (concat pkts @ msg_data (pushPLI rs)) Control 0 None None] = 1"
proof
  show "requestKeyframe (hs @ ReceivingSession rs # hs') = (True, [pushPLI rs])"
    using assms(1) by (induction hs) (auto simp: RtcpReceivingSession_requestKeyframe_def split: MediaHandler.split)
  have "fb_header (RtcpPli_preparePacket (rs_ssrc rs) f) = RtcpHeader_prepareHeader 206 1 2 (fb_header f)" for f
    by (simp add: RtcpPli_preparePacket_def struct_defs)
  then have "pli_loop (concat pkts @ msg_data (pushPLI rs)) (length (concat pkts))"
    using dec_header_fb [of _ "[]"] by (simp add: pushPLI_data pli_loop.simps fb.length_enc)
  then have "pli_loop (concat pkts @ msg_data (pushPLI rs)) 0"
    using pli_loop_skip [OF assms(2), of "[]" "msg_data (pushPLI rs)"] by simp
  then show "PliHandler_incoming [make_message (concat pkts @ msg_data (pushPLI rs)) Control 0 None None] = 1"
    by (simp add: PliHandler_incoming_def make_message_def Message_init_def)
qed

theorem keyframe_request_reaches_sender_witness:
  "requestKeyframe [Pli 0, ReceivingSession (RtcpReceivingSession_init 0 0)] = (True, [pushPLI (RtcpReceivingSession_init 0 0)]) \<and>
   PliHandler_incoming [make_message ([0x80, 201, 0, 1, 0, 0, 0, 5] @ msg_data (pushPLI (RtcpReceivingSession_init 0 0))) Control 0 None None] = 1"
proof -
  have "other_rtcp [0x80, 201, 0, 1, 0, 0, 0, 5]" by code_simp
  then show ?thesis
    using keyframe_request_reaches_sender [of "[Pli 0]" "[[0x80, 201, 0, 1, 0, 0, 0, 5]]" "RtcpReceivingSession_init 0 0" "[]"] by simp
qed

lemma remb_handler_reads_request:
  "RembHandler_incoming [pushREMB b rs] = Inr [RtcpRemb_getBitrate (RtcpRemb_setBitrate 1 b (RtcpRemb_dec (replicate 24 0)))]"
proof -
  obtain e m where em: "remb_normalize 0 b = (e, m)" by force
  let ?r = "RtcpRemb_setSsrc (rs_ssrc rs) (RtcpRemb_preparePacket (rs_ssrc rs) 1 b (RtcpRemb_dec (replicate 24 0)))"
  have "RtcpHeader_payloadType (fb_header (remb_header ?r)) = 206" "RtcpHeader_reportCount (fb_header (remb_header ?r)) = 15"
    "RtcpHeader_lengthInBytes (fb_header (remb_header ?r)) = 24"
    "remb_id0 ?r = 0x52" "remb_id1 ?r = 0x45" "remb_id2 ?r = 0x4D" "remb_id3 ?r = 0x42"
    "RtcpRemb_getBitrate ?r = RtcpRemb_getBitrate (RtcpRemb_setBitrate 1 b (RtcpRemb_dec (replicate 24 0)))"
    by (simp_all add: RtcpRemb_setSsrc_def RtcpRemb_preparePacket_def RtcpRemb_setBitrate_def em RtcpRemb_getBitrate_def
        RtcpHeader_lengthInBytes_def RtcpHeader_prepareHeader_def struct_defs Let_def)
  then show ?thesis
    using dec_header_remb [of ?r "[]"] remb.dec_enc [of ?r "[]"]
    by (simp add: pushREMB_data remb_loop.simps remb.length_enc)
qed

text \<open>The REMB handler trusts the length field: a message of 4 to 23 bytes that announces a REMB of 24 bytes makes
  it read behind the message.\<close>

theorem remb_handler_overreads:
  assumes "4 \<le> length data" and "length data < 24" and "RtcpHeader_payloadType (RtcpHeader_dec data) = 206"
    and "RtcpHeader_reportCount (RtcpHeader_dec data) = 15" and "RtcpHeader_length (RtcpHeader_dec data) = 5"
  shows "RembHandler_incoming (make_message data Control 0 None None # messages) = Inl OutOfBounds"
  using assms by (simp add: make_message_def Message_init_def remb_loop.simps [of data 0] RtcpHeader_lengthInBytes_def)

theorem remb_handler_overreads_witness:
  "RembHandler_incoming [make_message [0x8F, 206, 0, 5] Control 0 None None] = Inl OutOfBounds"
proof -
  have "RtcpHeader_payloadType (RtcpHeader_dec [0x8F, 206, 0, 5]) = 206" "RtcpHeader_reportCount (RtcpHeader_dec [0x8F, 206, 0, 5]) = 15"
    "RtcpHeader_length (RtcpHeader_dec [0x8F, 206, 0, 5]) = 5"
    by code_simp+
  then show ?thesis using remb_handler_overreads [of "[0x8F, 206, 0, 5]" "[]"] by simp
qed

section \<open>Pacing keeps the order and a budget, and stalls\<close>

datatype pacing_op = PushPackets "Message list" | RunTask rat

text \<open>A task runs only when one is scheduled.\<close>

fun pacing_exec :: "pacing_op \<Rightarrow> Message list \<times> PacingHandler \<Rightarrow> Message list \<times> PacingHandler" where
  "pacing_exec (PushPackets ms) (out, p) = (case PacingHandler_outgoing ms p of (ms', p) \<Rightarrow> (out @ ms', p))"
| "pacing_exec (RunTask now) (out, p) =
     (if pc_scheduled p = 0 then (out, p) else case pacing_task now p of (sent, p) \<Rightarrow> (out @ sent, p))"

fun pushed :: "pacing_op list \<Rightarrow> Message list" where
  "pushed [] = []"
| "pushed (PushPackets ms # ops) = ms @ pushed ops"
| "pushed (RunTask _ # ops) = pushed ops"

lemma pacing_schedule_buffer [simp]: "pc_rtpBuffer (pacing_schedule p) = pc_rtpBuffer p"
  by (simp add: pacing_schedule_def Let_def)

lemma pacing_send_split: "pacing_send ms b = (sent, rest, b') \<Longrightarrow> sent @ rest = ms"
  by (induction ms b arbitrary: sent rest b' rule: pacing_send.induct) (auto split: if_splits prod.splits)

lemma pacing_send_budget:
  "pacing_send ms b = (sent, rest, b') \<Longrightarrow> sent \<noteq> [] \<Longrightarrow>
    of_nat (\<Sum>m \<leftarrow> butlast sent. length (msg_data m)) < b"
proof (induction ms b arbitrary: sent rest b' rule: pacing_send.induct)
  case (2 m ms b)
  obtain sent' where s: "0 < b" "sent = m # sent'" "pacing_send ms (b - of_nat (length (msg_data m))) = (sent', rest, b')"
    using 2(2,3) by (auto split: if_splits prod.splits)
  show ?case
  proof (cases "sent' = []")
    case False
    then show ?thesis using 2(1) [OF s(1,3) False] s(2) by simp
  qed (use s in simp)
qed simp

lemma pacing_exec_order:
  "pacing_exec op (out, p) = (out', p') \<Longrightarrow> out' @ pc_rtpBuffer p' = out @ pc_rtpBuffer p @ pushed [op]"
  by (cases op) (auto simp: PacingHandler_outgoing_def pacing_task_def Let_def split: if_splits prod.splits dest: pacing_send_split)

lemma pacing_fold_order:
  "fold pacing_exec ops (out, p) = (out', p') \<Longrightarrow> out' @ pc_rtpBuffer p' = out @ pc_rtpBuffer p @ pushed ops"
proof (induction ops arbitrary: out p)
  case (Cons op ops)
  obtain out1 p1 where e: "pacing_exec op (out, p) = (out1, p1)" by (metis surj_pair)
  have "pushed (op # ops) = pushed [op] @ pushed ops" by (cases op) auto
  then show ?case
    using Cons.IH [of out1 p1] Cons.prems pacing_exec_order [OF e] e by simp
qed simp

lemma pacing_exec_rate:
  "pacing_exec op (out, p) = (out', p') \<Longrightarrow> pc_sendInterval p' * pc_bytesPerSecond p' = pc_sendInterval p * pc_bytesPerSecond p"
  by (cases op) (auto simp: PacingHandler_outgoing_def pacing_task_def pacing_schedule_def Let_def split: if_splits prod.splits)

lemma pacing_fold_rate:
  "fold pacing_exec ops (out, p) = (out', p') \<Longrightarrow> pc_sendInterval p' * pc_bytesPerSecond p' = pc_sendInterval p * pc_bytesPerSecond p"
proof (induction ops arbitrary: out p)
  case (Cons op ops)
  obtain out1 p1 where e: "pacing_exec op (out, p) = (out1, p1)" by (metis surj_pair)
  then show ?case using Cons.IH [of out1 p1] Cons.prems pacing_exec_rate [OF e] by simp
qed simp



text \<open>The guard of \<open>schedule\<close> is inverted: the call that finds nothing scheduled returns without scheduling. The
  packets of the first \<open>outgoing\<close> call wait until the application sends something else, however much time passes;
  and whenever the only scheduled task leaves packets in the buffer, no task is scheduled to send them.\<close>

theorem pacing_stalls:
  "(case fold pacing_exec (PushPackets ms # map RunTask ticks) ([], PacingHandler_init bitsPerSecond interval) of
      (out, p) \<Rightarrow> out = [] \<and> pc_rtpBuffer p = ms \<and> pc_scheduled p = 0) \<and>
   (pc_scheduled p = 1 \<and> pacing_task now p = (sent, p') \<and> pc_rtpBuffer p' \<noteq> [] \<longrightarrow> pc_scheduled p' = 0)"
proof
  let ?p = "(PacingHandler_init bitsPerSecond interval)\<lparr>pc_rtpBuffer := ms, pc_haveScheduled := True\<rparr>"
  have "pacing_exec (PushPackets ms) ([], PacingHandler_init bitsPerSecond interval) = ([], ?p)"
    by (simp add: PacingHandler_outgoing_def pacing_schedule_def PacingHandler_init_def Let_def)
  moreover have "fold pacing_exec (map RunTask ticks) ([], ?p) = ([], ?p)"
    by (induction ticks) (simp_all add: PacingHandler_init_def)
  ultimately show "case fold pacing_exec (PushPackets ms # map RunTask ticks) ([], PacingHandler_init bitsPerSecond interval) of
      (out, p) \<Rightarrow> out = [] \<and> pc_rtpBuffer p = ms \<and> pc_scheduled p = 0"
    by (simp add: PacingHandler_init_def)
  show "pc_scheduled p = 1 \<and> pacing_task now p = (sent, p') \<and> pc_rtpBuffer p' \<noteq> [] \<longrightarrow> pc_scheduled p' = 0"
    by (auto simp: pacing_task_def pacing_schedule_def Let_def split: prod.splits if_splits)
qed

theorem pacing_stalls_witness:
  defines "m \<equiv> make_message [1, 2] Binary 0 None None"
  defines "p \<equiv> (PacingHandler_init 8 1)\<lparr>pc_rtpBuffer := [m, m], pc_scheduled := 1\<rparr>"
  shows "pc_rtpBuffer (snd (pacing_task 1 p)) = [m] \<and> pc_scheduled (snd (pacing_task 1 p)) = 0"
proof -
  have "pc_rtpBuffer (snd (pacing_task 1 p)) = [m]"
    by (simp add: p_def m_def pacing_task_def PacingHandler_init_def make_message_def Message_init_def Let_def)
  moreover have "pc_scheduled p = 1" by (simp add: p_def)
  ultimately show ?thesis
    using pacing_stalls [of "[]" "[]" 0 0 p 1 "fst (pacing_task 1 p)" "snd (pacing_task 1 p)"] by simp
qed

section \<open>A lost packet is retransmitted\<close>

fun numbered :: "u16 \<Rightarrow> Message list \<Rightarrow> bool" where
  "numbered s [] = True"
| "numbered s (m # ms) \<longleftrightarrow> msg_type m = Binary \<and> 12 \<le> length (msg_data m) \<and> packet_seq (msg_data m) = s \<and> numbered (s + 1) ms"

lemma numbered_append: "numbered s (ms @ ns) \<longleftrightarrow> numbered s ms \<and> numbered (s + of_nat (length ms)) ns"
  by (induction ms arbitrary: s) (auto simp: add.assoc)

lemma numbered_nth: "numbered s ms \<Longrightarrow> i < length ms \<Longrightarrow> packet_seq (msg_data (ms ! i)) = s + of_nat i"
  by (induction ms arbitrary: s i) (auto simp: nth_Cons add.assoc split: nat.splits)

lemma numbered_all: "numbered s ms \<Longrightarrow> \<forall>m \<in> set ms. msg_type m = Binary \<and> 12 \<le> length (msg_data m)"
  by (induction ms arbitrary: s) auto

lemma numbered_spaced:
  assumes "numbered s ms" and "k < 65536" and "i < j" "j < length ms" "j - i \<le> k"
  shows "packet_seq (msg_data (ms ! i)) \<noteq> packet_seq (msg_data (ms ! j))"
proof
  assume "packet_seq (msg_data (ms ! i)) = packet_seq (msg_data (ms ! j))"
  then have "(of_nat i :: u16) = of_nat j"
    using numbered_nth [OF assms(1)] assms(3,4) by simp
  then have "(of_nat (j - i) :: u16) = 0"
    using assms(3) by (simp add: of_nat_diff)
  then have "unat (of_nat (j - i) :: u16) = 0" by simp
  then have "(j - i) mod 65536 = 0" unfolding unat_of_nat by simp
  then show False using assms by simp
qed

lemma packetize_numbered:
  assumes "small_extension c" and "RtpPacketizer_packetize payload mark c = Inr (m, c')"
  shows "msg_type m = Binary \<and> 12 \<le> length (msg_data m) \<and> packet_seq (msg_data m) = cfg_sequenceNumber c \<and>
    c' = c\<lparr>cfg_sequenceNumber := cfg_sequenceNumber c + 1\<rparr>"
  using assms packetize_eq [of c mark payload]
  by (auto simp: small_extension_def make_message_def Message_init_def rtp.length_enc rtp.dec_enc packet_seq_def packet_header_fields)

lemma packetize_fragments_numbered:
  "small_extension c \<Longrightarrow> packetize_fragments fs c = Inr (ms, c') \<Longrightarrow>
    numbered (cfg_sequenceNumber c) ms \<and> c' = c\<lparr>cfg_sequenceNumber := cfg_sequenceNumber c + of_nat (length ms)\<rparr>"
proof (induction fs arbitrary: c ms)
  case (Cons f fs)
  obtain m c1 ms1 where s: "RtpPacketizer_packetize f (fs = []) c = Inr (m, c1)" "packetize_fragments fs c1 = Inr (ms1, c')" "ms = m # ms1"
    using Cons.prems(2) by (auto simp: bind_result_Inr_iff)
  then show ?case
    using packetize_numbered [OF Cons.prems(1) s(1)] Cons.IH [OF _ s(2)] Cons.prems(1) by (auto simp: add.assoc)
qed auto

lemma NalRtpPacketizer_numbered:
  "small_extension c \<Longrightarrow> NalRtpPacketizer_outgoing frag sep n messages c = Some (Inr (ms, c')) \<Longrightarrow>
    numbered (cfg_sequenceNumber c) ms"
proof (induction messages arbitrary: c ms)
  case (Cons message messages)
  obtain fs ms1 c1 ms2 where s: "packetize_fragments fs c = Inr (ms1, c1)"
      "NalRtpPacketizer_outgoing frag sep n messages c1 = Some (Inr (ms2, c'))" "ms = ms1 @ ms2"
    using Cons.prems(2) by (auto split: option.splits sum.splits prod.splits simp: map_sum_Inr_iff map_prod_def)
  then show ?case
    using packetize_fragments_numbered [OF Cons.prems(1) s(1)] Cons.IH [OF _ s(2)] Cons.prems(1) by (auto simp: numbered_append)
qed auto


end
