(* ===== verification/Processors.thy ===== *)
theory Processors
  imports Messages
begin

text \<open>
  The processor that runs the tasks of one object in order (\<open>src/impl/processor.hpp\<close>,
  \<open>src/impl/processor.cpp\<close>) and the base class of the transports (\<open>src/impl/transport.hpp\<close>,
  \<open>src/impl/transport.cpp\<close>). The thread pool is represented by the tasks this processor has handed to it and
  that have not finished: \<open>pr_pool\<close>. A task that finishes calls \<open>schedule\<close> through its scope guard.
\<close>

section \<open>Processor\<close>

record 't Processor =
  pr_pool :: "'t list"
  pr_tasks :: "'t Queue"
  pr_pending :: bool

definition Processor_init :: "nat \<Rightarrow> 't Processor" where
  "Processor_init limit = \<lparr>pr_pool = [], pr_tasks = Queue_init limit None, pr_pending = False\<rparr>"

definition Processor_enqueue :: "'t \<Rightarrow> 't Processor \<Rightarrow> 't Processor option" where
  "Processor_enqueue task p =
     (if \<not> pr_pending p then Some (p\<lparr>pr_pool := pr_pool p @ [task], pr_pending := True\<rparr>)
      else map_option (\<lambda>q. p\<lparr>pr_tasks := q\<rparr>) (Queue_push task (pr_tasks p)))"

definition Processor_schedule :: "'t Processor \<Rightarrow> 't Processor" where
  "Processor_schedule p =
     (case Queue_pop (pr_tasks p) of
        (Some next, q) \<Rightarrow> p\<lparr>pr_tasks := q, pr_pool := pr_pool p @ [next]\<rparr>
      | (None, q) \<Rightarrow> p\<lparr>pr_tasks := q, pr_pending := False\<rparr>)"

text \<open>The pool finishes a task it holds: the task is taken out and \<open>schedule\<close> runs.\<close>

definition Processor_finish :: "'t Processor \<Rightarrow> ('t \<times> 't Processor) option" where
  "Processor_finish p =
     (case pr_pool p of
        [] \<Rightarrow> None
      | t # ts \<Rightarrow> Some (t, Processor_schedule (p\<lparr>pr_pool := ts\<rparr>)))"

text \<open>\<open>join\<close> waits for this condition.\<close>

definition Processor_idle :: "'t Processor \<Rightarrow> bool" where
  "Processor_idle p \<longleftrightarrow> \<not> pr_pending p \<and> Queue_empty (pr_tasks p)"

definition Processor_inv :: "'t Processor \<Rightarrow> bool" where
  "Processor_inv p \<longleftrightarrow> \<not> mStopping (pr_tasks p) \<and>
     (if pr_pending p then length (pr_pool p) = 1 else pr_pool p = [] \<and> mQueue (pr_tasks p) = [])"

text \<open>The tasks a processor still has to run, in the order it will run them.\<close>

definition Processor_work :: "'t Processor \<Rightarrow> 't list" where
  "Processor_work p = pr_pool p @ mQueue (pr_tasks p)"

lemma Processor_inv_init [simp]: "Processor_inv (Processor_init limit)" "Processor_work (Processor_init limit) = []"
  by (simp_all add: Processor_inv_def Processor_init_def Queue_init_def Processor_work_def)

lemma Processor_enqueue_inv:
  assumes "Processor_inv p" and "Processor_enqueue t p = Some p'"
  shows "Processor_inv p' \<and> Processor_work p' = Processor_work p @ [t]"
  using assms
  by (auto simp: Processor_inv_def Processor_enqueue_def Processor_work_def Queue_push_def split: if_splits)

lemma Processor_finish_inv:
  assumes "Processor_inv p" and "Processor_finish p = Some (t, p')"
  shows "Processor_inv p' \<and> Processor_work p = t # Processor_work p'"
  using assms
  by (auto simp: Processor_inv_def Processor_finish_def Processor_schedule_def Processor_work_def Queue_pop_def length_Suc_conv
      split: list.splits if_splits)

lemma Processor_finish_None: "Processor_inv p \<Longrightarrow> Processor_finish p = None \<longleftrightarrow> Processor_work p = []"
  by (auto simp: Processor_inv_def Processor_finish_def Processor_work_def split: list.splits if_splits)

lemma Processor_idle_work: "Processor_inv p \<Longrightarrow> Processor_idle p \<longleftrightarrow> Processor_work p = []"
  by (auto simp: Processor_inv_def Processor_idle_def Processor_work_def Queue_empty_def split: if_splits)

text \<open>The processor is itself a queue of tasks.\<close>

definition Processor_get :: "'t Processor \<Rightarrow> 't option \<times> 't Processor" where
  "Processor_get p = (case Processor_finish p of None \<Rightarrow> (None, p) | Some (t, p') \<Rightarrow> (Some t, p'))"

interpretation processor: fifo Processor_work "\<lambda>_. True" Processor_inv Processor_enqueue Processor_get
proof
  fix p p' :: "'t Processor" and t ts
  show "Processor_inv p \<Longrightarrow> True \<Longrightarrow> Processor_enqueue t p = Some p' \<Longrightarrow>
      Processor_work p' = Processor_work p @ [t] \<and> True \<and> Processor_inv p'"
    using Processor_enqueue_inv [of p t p'] by simp
  show "Processor_inv p \<Longrightarrow> Processor_work p = t # ts \<Longrightarrow>
      \<exists>p'. Processor_get p = (Some t, p') \<and> Processor_work p' = ts \<and> True = True \<and> Processor_inv p'"
  proof -
    assume inv: "Processor_inv p" and work: "Processor_work p = t # ts"
    then obtain t' p' where f: "Processor_finish p = Some (t', p')"
      using Processor_finish_None [OF inv] by (cases "Processor_finish p") auto
    then have "t' = t" "Processor_work p' = ts" "Processor_inv p'"
      using Processor_finish_inv [OF inv f] work by simp_all
    then show ?thesis using f by (simp add: Processor_get_def)
  qed
  show "Processor_inv p \<Longrightarrow> Processor_work p = [] \<Longrightarrow> Processor_get p = (None, p)"
    using Processor_finish_None [of p] by (simp add: Processor_get_def)
qed simp

text \<open>
  The tasks given to a processor run one at a time and in the order they were enqueued: under any
  history of \<open>enqueue\<close> calls and of tasks finishing, the finished tasks followed by those still to run are the
  enqueued ones, in order; at most one task is in the thread pool; and what \<open>join\<close> waits for holds exactly
  when every task has finished.
\<close>

theorem processor_runs_in_order:
  assumes "run_queue Processor_enqueue Processor_get ops (Processor_init limit) = Some (finished, p)"
  shows "finished @ Processor_work p = puts ops \<and> length (pr_pool p) \<le> 1 \<and>
    (Processor_idle p \<longleftrightarrow> finished = puts ops)"
proof -
  have p: "finished @ Processor_work p = puts ops" "Processor_inv p"
    using processor.in_order [OF _ _ assms] by simp_all
  then have "length (pr_pool p) \<le> 1" by (auto simp: Processor_inv_def split: if_splits)
  moreover have "Processor_idle p \<longleftrightarrow> finished = puts ops"
    using p Processor_idle_work by (metis append_self_conv)
  ultimately show ?thesis using p by blast
qed

theorem processor_runs_in_order_witness:
  "\<exists>p. run_queue Processor_enqueue Processor_get [Put (1::nat), Put 2, Get, Put 3, Get] (Processor_init 0) = Some ([1, 2], p) \<and>
     Processor_work p = [3]"
proof -
  obtain p where p: "run_queue Processor_enqueue Processor_get [Put (1::nat), Put 2, Get, Put 3, Get] (Processor_init 0) = Some ([1, 2], p)"
    by (simp add: Processor_init_def Processor_enqueue_def Processor_get_def Processor_finish_def Processor_schedule_def
        Queue_init_def Queue_push_def Queue_pop_def)
  from processor_runs_in_order [OF p] p show ?thesis by simp
qed

section \<open>Transports\<close>

datatype State = Disconnected | Connecting | Connected | Completed | Failed

text \<open>\<open>changeState\<close>: the callback is called with the new state when it differs from the old one. The
  pair is the state and the trace of the callback.\<close>

definition changeState :: "State \<Rightarrow> State \<times> State list \<Rightarrow> State \<times> State list" where
  "changeState state st = (if fst st \<noteq> state then (state, snd st @ [state]) else st)"

lemma changeState_fst [simp]: "fst (changeState s st) = s"
  by (simp add: changeState_def)

text \<open>The trace of the callback never repeats a state, and its last entry is the current state.\<close>

definition state_trace :: "State \<Rightarrow> State \<times> State list \<Rightarrow> bool" where
  "state_trace initial st \<longleftrightarrow> successively (\<noteq>) (initial # snd st) \<and> fst st = last (initial # snd st)"

lemma changeState_trace: "state_trace i st \<Longrightarrow> state_trace i (changeState s st)"
  by (auto simp: state_trace_def changeState_def successively_append_iff simp flip: append_Cons)

end
