(* ===== verification/Quic.thy ===== *)
theory Quic
  imports Processors
begin

text \<open>
  The QUIC transport: \<open>src/impl/quicktransport.hpp\<close>, \<open>src/impl/quicktransport.cpp\<close>. The lsquic library is
  not part of the sources: its connections and streams are opaque pointers (numbers), the calls into it are
  appended to the trace \<open>qt_calls\<close>, what it returns is an argument of the operation, and a stream
  pointer is valid from \<open>on_new_stream\<close> to \<open>on_stream_close\<close> (the life of its stream context). The
  member \<open>mConn\<close> is assigned nowhere but in \<open>stop\<close> and \<open>shutdown\<close>; before, reading it is undefined.
  The processor runs the tasks \<open>doRecv\<close> and \<open>doFlush\<close>.
\<close>

section \<open>State\<close>

datatype pointer = Uninit | Null | Ptr nat

datatype lsquic_call =
    ConnClose nat
  | StreamClose nat
  | MakeStream nat
  | PacketIn binary

datatype quic_event =
    QuicRecv Message
  | QuicLower Message
  | QuicAmount u16 u64

datatype task = TaskRecv | TaskFlush

datatype StreamType = STREAM_CONTROL | STREAM_STRING | STREAM_BINARY_PARTIAL | STREAM_BINARY
  | STREAM_STRING_PARTIAL | STREAM_STRING_EMPTY | STREAM_BINARY_EMPTY

record QuicSettings =
  qs_maxStreamsIn :: u32
  qs_maxStreamsOut :: u32
  qs_handshakeTimeout :: u32
  qs_idleTimeout :: u32
  qs_pingPeriod :: u32
  qs_supportTcid0 :: bool
  qs_supportNstp :: bool
  qs_delayedAcks :: bool

definition QuicSettings_default :: QuicSettings where
  "QuicSettings_default = \<lparr>qs_maxStreamsIn = 100, qs_maxStreamsOut = 100, qs_handshakeTimeout = 60000000,
     qs_idleTimeout = 120000000, qs_pingPeriod = 30000000, qs_supportTcid0 = True, qs_supportNstp = True,
     qs_delayedAcks = True\<rparr>"

record QuicConnCtx =
  cc_conn :: "nat option"
  cc_streams :: "nat \<rightharpoonup> u16"
  cc_streamIds :: "u16 \<rightharpoonup> nat"
  cc_nextStreamId :: u16

record QuicStreamCtx =
  sc_streamId :: u16
  sc_buffer :: binary
  sc_isOpen :: bool
  sc_isClosed :: bool

record QuicTransport =
  qt_state :: "State \<times> State list"
  qt_lower :: bool
  qt_maxMessageSize :: nat
  qt_settings :: QuicSettings
  qt_conn :: pointer
  qt_connCtx :: QuicConnCtx
  qt_streamCtx :: "nat \<rightharpoonup> QuicStreamCtx"
  qt_processor :: "task Processor"
  qt_pendingRecvCount :: int
  qt_pendingFlushCount :: int
  qt_sendQueue :: "Message Queue"
  qt_sendShutdown :: bool
  qt_bufferedAmount :: "u16 \<rightharpoonup> u64"
  qt_bufferedAmountCallback :: bool
  qt_bytesSent :: u64
  qt_bytesReceived :: u64
  qt_calls :: "lsquic_call list"
  qt_events :: "quic_event list"

text \<open>The library is initialised once per process: the flag \<open>gQuicInitialized\<close>; \<open>ok\<close> is whether
  \<open>lsquic_global_init\<close> returned 0.\<close>

definition QuicTransport_Init :: "bool \<Rightarrow> bool \<Rightarrow> unit result \<times> bool" where
  "QuicTransport_Init ok gQuicInitialized =
     (if gQuicInitialized then (Inr (), gQuicInitialized)
      else if \<not> ok then (Inl (RuntimeError ''Failed to initialize lsquic library''), gQuicInitialized)
      else (Inr (), True))"

definition QuicTransport_Cleanup :: "bool \<Rightarrow> bool" where
  "QuicTransport_Cleanup gQuicInitialized = (if \<not> gQuicInitialized then gQuicInitialized else False)"

text \<open>The constructor; \<open>engine\<close> is whether \<open>lsquic_engine_new\<close> returned an engine.\<close>

definition QuicTransport_init ::
  "bool \<Rightarrow> bool \<Rightarrow> nat option \<Rightarrow> QuicSettings \<Rightarrow> bool \<Rightarrow> QuicTransport result" where
  "QuicTransport_init engine lower maxMessageSize settings amountCallback =
     (if \<not> engine then Inl (RuntimeError ''Failed to create lsquic engine'')
      else Inr \<lparr>qt_state = (Disconnected, []), qt_lower = lower,
                qt_maxMessageSize = (case maxMessageSize of Some n \<Rightarrow> n | None \<Rightarrow> 65536),
                qt_settings = settings, qt_conn = Uninit,
                qt_connCtx = \<lparr>cc_conn = None, cc_streams = Map.empty, cc_streamIds = Map.empty, cc_nextStreamId = 0\<rparr>,
                qt_streamCtx = Map.empty, qt_processor = Processor_init 0, qt_pendingRecvCount = 0,
                qt_pendingFlushCount = 0, qt_sendQueue = Queue_init 0 None, qt_sendShutdown = False,
                qt_bufferedAmount = Map.empty, qt_bufferedAmountCallback = amountCallback,
                qt_bytesSent = 0, qt_bytesReceived = 0, qt_calls = [], qt_events = []\<rparr>)"

definition set_state :: "State \<Rightarrow> QuicTransport \<Rightarrow> QuicTransport" where
  "set_state s t = t\<lparr>qt_state := changeState s (qt_state t)\<rparr>"

definition call :: "lsquic_call \<Rightarrow> QuicTransport \<Rightarrow> QuicTransport" where
  "call c t = t\<lparr>qt_calls := qt_calls t @ [c]\<rparr>"

definition emit_quic :: "quic_event \<Rightarrow> QuicTransport \<Rightarrow> QuicTransport" where
  "emit_quic e t = t\<lparr>qt_events := qt_events t @ [e]\<rparr>"

section \<open>Connection\<close>

definition QuicTransport_connect :: "QuicTransport \<Rightarrow> QuicTransport" where
  "QuicTransport_connect t = set_state Connected t"

definition QuicTransport_start :: "QuicTransport \<Rightarrow> QuicTransport" where
  "QuicTransport_start t =
     (if fst (qt_state t) = Disconnected then QuicTransport_connect (set_state Connecting t) else t)"

definition close_conn :: "QuicTransport \<Rightarrow> QuicTransport result" where
  "close_conn t =
     (case qt_conn t of
        Uninit \<Rightarrow> Inl UndefinedBehaviour
      | Null \<Rightarrow> Inr t
      | Ptr c \<Rightarrow> Inr (call (ConnClose c) t))"

definition QuicTransport_shutdown :: "QuicTransport \<Rightarrow> QuicTransport result" where
  "QuicTransport_shutdown t = bind_result (close_conn t) (\<lambda>t. Inr (t\<lparr>qt_conn := Null\<rparr>))"

definition QuicTransport_stop :: "QuicTransport \<Rightarrow> QuicTransport result" where
  "QuicTransport_stop t = bind_result (close_conn t) (\<lambda>t. Inr (set_state Disconnected (t\<lparr>qt_conn := Null\<rparr>)))"

definition QuicTransport_close :: "QuicTransport \<Rightarrow> QuicTransport result" where
  "QuicTransport_close t = bind_result (close_conn t) (\<lambda>t. Inr (set_state Disconnected t))"

definition QuicTransport_rtt :: "(nat \<Rightarrow> nat option) \<Rightarrow> QuicTransport \<Rightarrow> nat option result" where
  "QuicTransport_rtt get_info t =
     (case qt_conn t of
        Uninit \<Rightarrow> Inl UndefinedBehaviour
      | Null \<Rightarrow> Inr None
      | Ptr c \<Rightarrow> Inr (map_option (\<lambda>lci_rtt. lci_rtt div 1000) (get_info c)))"

definition on_new_conn :: "nat \<Rightarrow> QuicTransport \<Rightarrow> QuicTransport" where
  "on_new_conn conn t = set_state Connected (t\<lparr>qt_connCtx := (qt_connCtx t)\<lparr>cc_conn := Some conn\<rparr>\<rparr>)"

definition on_conn_closed :: "QuicTransport \<Rightarrow> QuicTransport" where
  "on_conn_closed t = set_state Disconnected t"

definition on_hsk_done :: "bool \<Rightarrow> QuicTransport \<Rightarrow> QuicTransport" where
  "on_hsk_done ok t = (if ok then set_state Connected t else set_state Failed t)"

section \<open>Sending\<close>

definition trySendMessage :: "Message \<Rightarrow> QuicTransport \<Rightarrow> bool \<times> QuicTransport" where
  "trySendMessage message t =
     (case cc_conn (qt_connCtx t) of
        Some conn \<Rightarrow>
          (True, (call (MakeStream conn) t)\<lparr>qt_bytesSent := qt_bytesSent t + of_nat (length (msg_data message))\<rparr>)
      | None \<Rightarrow> (False, t))"

text \<open>The loop of \<open>trySendQueue\<close>, on the messages in the queue.\<close>

function trySendLoop :: "QuicTransport \<Rightarrow> QuicTransport" where
  "trySendLoop t =
     (if \<not> Queue_empty (qt_sendQueue t) \<and> \<not> qt_sendShutdown t then
        (case Queue_peek (qt_sendQueue t) of
           None \<Rightarrow> t
         | Some message \<Rightarrow>
             (case trySendMessage message t of
                (True, t) \<Rightarrow> trySendLoop (t\<lparr>qt_sendQueue := snd (Queue_pop (qt_sendQueue t))\<rparr>)
              | (False, t) \<Rightarrow> t))
      else t)"
  by pat_completeness auto
termination
  by (relation "measure (\<lambda>t. length (mQueue (qt_sendQueue t)))")
    (auto simp: trySendMessage_def call_def Queue_peek_def Queue_pop_def split: option.splits list.splits)

declare trySendLoop.simps [simp del]

definition trySendQueue :: "QuicTransport \<Rightarrow> bool \<times> QuicTransport" where
  "trySendQueue t = (let t = trySendLoop t in (Queue_empty (qt_sendQueue t), t))"

definition QuicTransport_flush :: "QuicTransport \<Rightarrow> bool \<times> QuicTransport" where
  "QuicTransport_flush t = trySendQueue t"

definition doFlush :: "QuicTransport \<Rightarrow> QuicTransport" where
  "doFlush t = snd (trySendQueue t)"

definition doRecv :: "QuicTransport \<Rightarrow> QuicTransport" where
  "doRecv t = t"

text \<open>\<open>mProcessor\<close> has no limit, so \<open>enqueue\<close> does not block.\<close>

definition enqueue_task :: "task \<Rightarrow> QuicTransport \<Rightarrow> QuicTransport" where
  "enqueue_task k t =
     (case Processor_enqueue k (qt_processor t) of Some p \<Rightarrow> t\<lparr>qt_processor := p\<rparr> | None \<Rightarrow> t)"

definition enqueueRecv :: "QuicTransport \<Rightarrow> QuicTransport" where
  "enqueueRecv t =
     (let t = t\<lparr>qt_pendingRecvCount := qt_pendingRecvCount t + 1\<rparr>
      in if qt_pendingRecvCount t = 1 then enqueue_task TaskRecv t else t)"

definition enqueueFlush :: "QuicTransport \<Rightarrow> QuicTransport" where
  "enqueueFlush t =
     (let t = t\<lparr>qt_pendingFlushCount := qt_pendingFlushCount t + 1\<rparr>
      in if qt_pendingFlushCount t = 1 then enqueue_task TaskFlush t else t)"

text \<open>The body of the two tasks, and the processor running its next task.\<close>

fun run_task :: "task \<Rightarrow> QuicTransport \<Rightarrow> QuicTransport" where
  "run_task TaskRecv t = (let t = doRecv t in t\<lparr>qt_pendingRecvCount := qt_pendingRecvCount t - 1\<rparr>)"
| "run_task TaskFlush t = (let t = doFlush t in t\<lparr>qt_pendingFlushCount := qt_pendingFlushCount t - 1\<rparr>)"

definition process :: "QuicTransport \<Rightarrow> QuicTransport" where
  "process t =
     (case Processor_finish (qt_processor t) of
        None \<Rightarrow> t
      | Some (k, p) \<Rightarrow> (run_task k t)\<lparr>qt_processor := p\<rparr>)"

definition QuicTransport_send :: "Message \<Rightarrow> QuicTransport \<Rightarrow> bool \<times> QuicTransport" where
  "QuicTransport_send message t =
     (if fst (qt_state t) \<noteq> Connected then (False, t)
      else case Queue_push message (qt_sendQueue t) of
             None \<Rightarrow> (False, t)
           | Some q \<Rightarrow> (True, enqueueFlush (t\<lparr>qt_sendQueue := q\<rparr>)))"

section \<open>Streams\<close>

definition on_new_stream :: "nat \<Rightarrow> QuicTransport \<Rightarrow> QuicTransport" where
  "on_new_stream stream t =
     (let ctx = qt_connCtx t;
          i = cc_nextStreamId ctx;
          streamCtx = \<lparr>sc_streamId = i, sc_buffer = [], sc_isOpen = False, sc_isClosed = False\<rparr>
      in t\<lparr>qt_connCtx := ctx\<lparr>cc_nextStreamId := i + 1, cc_streams := (cc_streams ctx)(stream \<mapsto> i),
                              cc_streamIds := (cc_streamIds ctx)(i \<mapsto> stream)\<rparr>,
           qt_streamCtx := (qt_streamCtx t)(stream \<mapsto> streamCtx)\<rparr>)"

definition on_stream_close :: "nat \<Rightarrow> QuicTransport \<Rightarrow> QuicTransport" where
  "on_stream_close stream t = t\<lparr>qt_streamCtx := (qt_streamCtx t)(stream := None)\<rparr>"

text \<open>\<open>lsquic_stream_close\<close> of a pointer to a destroyed stream is undefined.\<close>

definition lsquic_stream_close :: "nat \<Rightarrow> QuicTransport \<Rightarrow> QuicTransport result" where
  "lsquic_stream_close stream t =
     (if qt_streamCtx t stream = None then Inl UndefinedBehaviour else Inr (call (StreamClose stream) t))"

text \<open>The key type of the map is \<open>uint16_t\<close>: the stream number is truncated.\<close>

definition closeStream :: "u32 \<Rightarrow> QuicTransport \<Rightarrow> QuicTransport result" where
  "closeStream stream t =
     (case cc_streamIds (qt_connCtx t) (ucast stream) of
        None \<Rightarrow> Inr t
      | Some s \<Rightarrow>
          bind_result (lsquic_stream_close s t) (\<lambda>t.
            let ctx = qt_connCtx t
            in Inr (t\<lparr>qt_connCtx := ctx\<lparr>cc_streams := (cc_streams ctx)(s := None),
                                       cc_streamIds := (cc_streamIds ctx)(ucast stream := None)\<rparr>\<rparr>)))"

definition sendReset :: "u16 \<Rightarrow> QuicTransport \<Rightarrow> QuicTransport result" where
  "sendReset streamId t =
     (case cc_streamIds (qt_connCtx t) streamId of None \<Rightarrow> Inr t | Some s \<Rightarrow> lsquic_stream_close s t)"

section \<open>Receiving\<close>

definition processData :: "binary \<Rightarrow> u16 \<Rightarrow> StreamType \<Rightarrow> QuicTransport \<Rightarrow> QuicTransport" where
  "processData data streamId type t =
     (let dataSize = length data;
          t = emit_quic (QuicRecv (make_message data Binary 0 None None)) t
      in t\<lparr>qt_bytesReceived := qt_bytesReceived t + of_nat dataSize\<rparr>)"

text \<open>\<open>nread\<close> is what \<open>lsquic_stream_read\<close> returned with the bytes it wrote into the 4096-byte
  buffer: \<open>None\<close> stands for an error or the end of the stream.\<close>

definition on_stream_read :: "nat \<Rightarrow> binary option \<Rightarrow> QuicTransport \<Rightarrow> QuicTransport result" where
  "on_stream_read stream nread t =
     (case qt_streamCtx t stream of
        None \<Rightarrow> Inl UndefinedBehaviour
      | Some streamCtx \<Rightarrow>
          (case nread of
             Some data \<Rightarrow> if data \<noteq> [] then Inr (processData (take 4096 data) (sc_streamId streamCtx) STREAM_BINARY t) else Inr t
           | None \<Rightarrow> Inr t))"

definition on_stream_write :: "nat \<Rightarrow> QuicTransport \<Rightarrow> QuicTransport" where
  "on_stream_write stream t = t"

definition QuicTransport_incoming :: "Message \<Rightarrow> QuicTransport \<Rightarrow> QuicTransport" where
  "QuicTransport_incoming message t =
     (if msg_data message \<noteq> [] then call (PacketIn (msg_data message)) t else t)"

definition QuicTransport_outgoing :: "Message \<Rightarrow> QuicTransport \<Rightarrow> QuicTransport" where
  "QuicTransport_outgoing message t = (if qt_lower t then emit_quic (QuicLower message) t else t)"

text \<open>A packet specification is the list of its I/O vectors.\<close>

fun send_packets_out :: "binary list list \<Rightarrow> QuicTransport \<Rightarrow> int \<times> QuicTransport" where
  "send_packets_out [] t = (0, t)"
| "send_packets_out (spec # specs) t =
     send_packets_out specs (QuicTransport_outgoing (make_message (concat spec) Binary 0 None None) t)"

section \<open>Statistics\<close>

definition triggerBufferedAmount_quic :: "u16 \<Rightarrow> u64 \<Rightarrow> QuicTransport \<Rightarrow> QuicTransport" where
  "triggerBufferedAmount_quic streamId amount t =
     (if qt_bufferedAmountCallback t then emit_quic (QuicAmount streamId amount) t else t)"

definition updateBufferedAmount :: "u16 \<Rightarrow> u64 \<Rightarrow> QuicTransport \<Rightarrow> QuicTransport" where
  "updateBufferedAmount streamId delta t =
     (let old = (case qt_bufferedAmount t streamId of Some n \<Rightarrow> n | None \<Rightarrow> 0);
          t = t\<lparr>qt_bufferedAmount := (qt_bufferedAmount t)(streamId \<mapsto> old + delta)\<rparr>
      in triggerBufferedAmount_quic streamId (old + delta) t)"

definition QuicTransport_maxStream :: "QuicTransport \<Rightarrow> u32" where
  "QuicTransport_maxStream t = qs_maxStreamsOut (qt_settings t)"

definition clearStats :: "QuicTransport \<Rightarrow> QuicTransport" where
  "clearStats t = t\<lparr>qt_bytesSent := 0, qt_bytesReceived := 0\<rparr>"

definition bytesSent :: "QuicTransport \<Rightarrow> u64" where "bytesSent t = qt_bytesSent t"
definition bytesReceived :: "QuicTransport \<Rightarrow> u64" where "bytesReceived t = qt_bytesReceived t"

section \<open>Flushing\<close>

definition total_size :: "Message list \<Rightarrow> u64" where
  "total_size ms = sum_list (map (\<lambda>m. of_nat (length (msg_data m))) ms)"

lemma trySendLoop_all:
  assumes "cc_conn (qt_connCtx t) = Some conn" and "\<not> qt_sendShutdown t"
  shows "\<exists>q. trySendLoop t = t\<lparr>qt_sendQueue := q,
      qt_bytesSent := qt_bytesSent t + total_size (mQueue (qt_sendQueue t)),
      qt_calls := qt_calls t @ replicate (length (mQueue (qt_sendQueue t))) (MakeStream conn)\<rparr> \<and>
    mQueue q = [] \<and> mStopping q = mStopping (qt_sendQueue t) \<and> mLimit q = mLimit (qt_sendQueue t)"
  using assms
proof (induction "mQueue (qt_sendQueue t)" arbitrary: t)
  case Nil
  then show ?case
    by (intro exI [of _ "qt_sendQueue t"]) (simp add: trySendLoop.simps [of t] Queue_empty_def total_size_def)
next
  case (Cons m ms)
  define q1 where "q1 = snd (Queue_pop (qt_sendQueue t))"
  have q1: "mQueue q1 = ms" "mStopping q1 = mStopping (qt_sendQueue t)" "mLimit q1 = mLimit (qt_sendQueue t)"
    using Cons.hyps(2) [symmetric] by (simp_all add: q1_def Queue_pop_def)
  define t1 where "t1 = t\<lparr>qt_calls := qt_calls t @ [MakeStream conn],
      qt_bytesSent := qt_bytesSent t + of_nat (length (msg_data m)), qt_sendQueue := q1\<rparr>"
  have "trySendLoop t = trySendLoop t1"
    using Cons.hyps(2) [symmetric] Cons.prems
    by (simp add: trySendLoop.simps [of t] Queue_empty_def Queue_peek_def trySendMessage_def call_def t1_def q1_def)
  moreover obtain q where "trySendLoop t1 = t1\<lparr>qt_sendQueue := q, qt_bytesSent := qt_bytesSent t1 + total_size ms,
      qt_calls := qt_calls t1 @ replicate (length ms) (MakeStream conn)\<rparr>"
    "mQueue q = []" "mStopping q = mStopping q1" "mLimit q = mLimit q1"
    using Cons.hyps(1) [of t1] Cons.prems q1 by (auto simp: t1_def)
  ultimately show ?case
    using q1 Cons.hyps(2) [symmetric] by (intro exI [of _ q]) (cases t, simp add: t1_def total_size_def add.assoc)
qed

lemma trySendLoop_unconnected: "cc_conn (qt_connCtx t) = None \<Longrightarrow> trySendLoop t = t"
  by (simp add: trySendLoop.simps [of t] trySendMessage_def split: option.splits)

text \<open>
  C33. \<open>flush\<close> with a connection: the loop ends, the queue is empty, \<open>flush\<close> returns true, and \<open>bytesSent\<close> has
  grown by the sizes of all queued messages; but the only calls into lsquic are one \<open>lsquic_conn_make_stream\<close> per
  message, so no byte of a message is ever given to QUIC. Without a connection nothing changes.
\<close>

theorem quic_flush:
  "(cc_conn (qt_connCtx t) = None \<longrightarrow> QuicTransport_flush t = (Queue_empty (qt_sendQueue t), t)) \<and>
   (\<forall>conn. cc_conn (qt_connCtx t) = Some conn \<and> \<not> qt_sendShutdown t \<longrightarrow>
      (\<exists>t'. QuicTransport_flush t = (True, t') \<and> mQueue (qt_sendQueue t') = [] \<and>
         bytesSent t' = bytesSent t + total_size (mQueue (qt_sendQueue t)) \<and>
         qt_calls t' = qt_calls t @ replicate (length (mQueue (qt_sendQueue t))) (MakeStream conn)))"
proof (intro conjI allI impI)
  show "QuicTransport_flush t = (Queue_empty (qt_sendQueue t), t)" if "cc_conn (qt_connCtx t) = None"
    using trySendLoop_unconnected [OF that] by (simp add: QuicTransport_flush_def trySendQueue_def Let_def)
next
  fix conn assume "cc_conn (qt_connCtx t) = Some conn \<and> \<not> qt_sendShutdown t"
  then obtain q where "trySendLoop t = t\<lparr>qt_sendQueue := q,
      qt_bytesSent := qt_bytesSent t + total_size (mQueue (qt_sendQueue t)),
      qt_calls := qt_calls t @ replicate (length (mQueue (qt_sendQueue t))) (MakeStream conn)\<rparr>" "mQueue q = []"
    using trySendLoop_all [of t conn] by blast
  then show "\<exists>t'. QuicTransport_flush t = (True, t') \<and> mQueue (qt_sendQueue t') = [] \<and>
         bytesSent t' = bytesSent t + total_size (mQueue (qt_sendQueue t)) \<and>
         qt_calls t' = qt_calls t @ replicate (length (mQueue (qt_sendQueue t))) (MakeStream conn)"
    by (simp add: QuicTransport_flush_def trySendQueue_def Queue_empty_def bytesSent_def)
qed

definition example_transport :: QuicTransport where
  "example_transport = \<lparr>qt_state = (Connected, [Connecting, Connected]), qt_lower = True, qt_maxMessageSize = 65536,
     qt_settings = QuicSettings_default, qt_conn = Uninit,
     qt_connCtx = \<lparr>cc_conn = Some 1, cc_streams = Map.empty, cc_streamIds = Map.empty, cc_nextStreamId = 0\<rparr>,
     qt_streamCtx = Map.empty, qt_processor = Processor_init 0, qt_pendingRecvCount = 0,
     qt_pendingFlushCount = 0, qt_sendQueue = Queue_init 0 None, qt_sendShutdown = False,
     qt_bufferedAmount = Map.empty, qt_bufferedAmountCallback = True,
     qt_bytesSent = 0, qt_bytesReceived = 0, qt_calls = [], qt_events = []\<rparr>"

theorem quic_flush_witness:
  "\<exists>t'. QuicTransport_flush (example_transport\<lparr>qt_sendQueue := (Queue_init 0 None)\<lparr>mQueue := [make_message [1, 2, 3] Binary 0 None None]\<rparr>\<rparr>) = (True, t') \<and>
     bytesSent t' = 3 \<and> qt_calls t' = [MakeStream 1]"
  using quic_flush [of "example_transport\<lparr>qt_sendQueue := (Queue_init 0 None)\<lparr>mQueue := [make_message [1, 2, 3] Binary 0 None None]\<rparr>\<rparr>"]
  by (auto simp: example_transport_def bytesSent_def total_size_def)

section \<open>The flush counter\<close>

datatype quic_op = Send Message | Process

fun exec :: "quic_op \<Rightarrow> QuicTransport \<Rightarrow> QuicTransport" where
  "exec (Send m) t = snd (QuicTransport_send m t)"
| "exec Process t = process t"

fun sends :: "quic_op list \<Rightarrow> Message list" where
  "sends [] = []"
| "sends (Send m # ops) = m # sends ops"
| "sends (Process # ops) = sends ops"

definition ready :: "QuicTransport \<Rightarrow> bool" where
  "ready t \<longleftrightarrow> fst (qt_state t) = Connected \<and> Processor_inv (qt_processor t) \<and> mLimit (pr_tasks (qt_processor t)) = 0 \<and>
     mLimit (qt_sendQueue t) = 0 \<and> \<not> mStopping (qt_sendQueue t)"

definition stalled :: "QuicTransport \<Rightarrow> bool" where
  "stalled t \<longleftrightarrow> ready t \<and> 1 \<le> qt_pendingFlushCount t \<and> Processor_work (qt_processor t) = []"

lemma stalled_exec:
  assumes "stalled t"
  shows "stalled (exec op t) \<and> qt_calls (exec op t) = qt_calls t \<and> qt_bytesSent (exec op t) = qt_bytesSent t \<and>
    mQueue (qt_sendQueue (exec op t)) = mQueue (qt_sendQueue t) @ sends [op]"
proof (cases op)
  case (Send m)
  then show ?thesis
    using assms by (auto simp: stalled_def ready_def QuicTransport_send_def Queue_push_def enqueueFlush_def Let_def)
next
  case Process
  have "Processor_finish (qt_processor t) = None"
    using assms Processor_finish_None by (auto simp: stalled_def ready_def)
  then show ?thesis using assms Process by (simp add: process_def)
qed

lemma stalled_forever:
  assumes "stalled t"
  shows "stalled (fold exec ops t) \<and> qt_calls (fold exec ops t) = qt_calls t \<and>
    qt_bytesSent (fold exec ops t) = qt_bytesSent t \<and>
    mQueue (qt_sendQueue (fold exec ops t)) = mQueue (qt_sendQueue t) @ sends ops"
  using assms
proof (induction ops arbitrary: t)
  case (Cons op ops)
  then show ?case using stalled_exec [OF Cons.prems, of op] Cons.IH [of "exec op t"] by (cases op) auto
qed simp

lemma two_sends_stall:
  assumes "ready t" and "Processor_work (qt_processor t) = []" and "qt_pendingFlushCount t = 0"
    and "cc_conn (qt_connCtx t) = Some conn" and "\<not> qt_sendShutdown t"
  shows "stalled (fold exec [Send m1, Send m2, Process] t)"
proof -
  define q where "q = (qt_sendQueue t)\<lparr>mAmount := mAmount (qt_sendQueue t) + mAmountFunction (qt_sendQueue t) m1 + mAmountFunction (qt_sendQueue t) m2,
      mQueue := mQueue (qt_sendQueue t) @ [m1, m2]\<rparr>"
  define p where "p = (qt_processor t)\<lparr>pr_pool := [TaskFlush], pr_pending := True\<rparr>"
  define t2 where "t2 = t\<lparr>qt_sendQueue := q, qt_pendingFlushCount := 2, qt_processor := p\<rparr>"
  have idle: "\<not> pr_pending (qt_processor t)" "pr_pool (qt_processor t) = []" "mQueue (pr_tasks (qt_processor t)) = []"
    using assms(1,2) by (auto simp: ready_def Processor_inv_def Processor_work_def split: if_splits)
  have t2: "fold exec [Send m1, Send m2] t = t2"
    using assms idle by (simp add: ready_def QuicTransport_send_def Queue_push_def enqueueFlush_def Let_def
        enqueue_task_def Processor_enqueue_def t2_def q_def p_def)
  obtain q' where q': "trySendLoop t2 = t2\<lparr>qt_sendQueue := q',
      qt_bytesSent := qt_bytesSent t2 + total_size (mQueue (qt_sendQueue t2)),
      qt_calls := qt_calls t2 @ replicate (length (mQueue (qt_sendQueue t2))) (MakeStream conn)\<rparr>"
    "mStopping q' = mStopping q" "mLimit q' = mLimit q"
    using trySendLoop_all [of t2 conn] assms(4,5) by (auto simp: t2_def)
  show ?thesis
    using assms(1) q' idle unfolding fold_simps comp_apply id_apply
    by (simp add: t2 [simplified] process_def p_def t2_def Processor_finish_def Processor_schedule_def Queue_pop_def
        doFlush_def trySendQueue_def Let_def stalled_def ready_def Processor_work_def Processor_inv_def q_def)
qed

text \<open>
  The flush counter leaks: when two messages are sent before the processor has run the flush task of the first,
  the counter is incremented twice and decremented once, so it never returns to zero and no flush task is ever
  enqueued again. From then on every message is accepted (\<open>send\<close> returns true) and stays in the queue, however many
  sends follow and however often the processor runs.
\<close>

theorem quic_send_stalls:
  fixes m1 m2 :: Message and t :: QuicTransport
  assumes "ready t" and "Processor_work (qt_processor t) = []" and "qt_pendingFlushCount t = 0"
    and "cc_conn (qt_connCtx t) = Some conn" and "\<not> qt_sendShutdown t"
  defines "t' \<equiv> fold exec [Send m1, Send m2, Process] t"
  shows "mQueue (qt_sendQueue (fold exec ops t')) = mQueue (qt_sendQueue t') @ sends ops \<and>
    qt_calls (fold exec ops t') = qt_calls t' \<and> bytesSent (fold exec ops t') = bytesSent t' \<and>
    fst (QuicTransport_send m (fold exec ops t'))"
proof -
  have "stalled t'" unfolding t'_def by (rule two_sends_stall [OF assms(1-5)])
  note s = stalled_forever [OF this, of ops]
  then have "fst (QuicTransport_send m (fold exec ops t'))"
    by (auto simp: stalled_def ready_def QuicTransport_send_def Queue_push_def)
  then show ?thesis using s by (simp add: bytesSent_def)
qed

theorem quic_send_stalls_witness:
  "qt_calls (fold exec [Send (make_message [3] Binary 0 None None), Process, Process]
      (fold exec [Send (make_message [1] Binary 0 None None), Send (make_message [2] Binary 0 None None), Process] example_transport)) =
    qt_calls (fold exec [Send (make_message [1] Binary 0 None None), Send (make_message [2] Binary 0 None None), Process] example_transport)"
proof -
  have "ready example_transport" "Processor_work (qt_processor example_transport) = []"
    "qt_pendingFlushCount example_transport = 0" "cc_conn (qt_connCtx example_transport) = Some 1"
    "\<not> qt_sendShutdown example_transport"
    by (simp_all add: ready_def example_transport_def Processor_init_def Queue_init_def Processor_inv_def)
      (simp add: Processor_work_def)
  from quic_send_stalls [OF this] show ?thesis by blast
qed

section \<open>Reachable states\<close>

text \<open>Every call of the owner, every callback of lsquic and every run of the processor, in any order.\<close>

inductive quic_reachable :: "QuicTransport \<Rightarrow> bool" where
  created: "QuicTransport_init engine lower n settings cb = Inr t \<Longrightarrow> quic_reachable t"
| started: "quic_reachable t \<Longrightarrow> quic_reachable (QuicTransport_start t)"
| stopped: "quic_reachable t \<Longrightarrow> QuicTransport_stop t = Inr t' \<Longrightarrow> quic_reachable t'"
| closed: "quic_reachable t \<Longrightarrow> QuicTransport_close t = Inr t' \<Longrightarrow> quic_reachable t'"
| shut_down: "quic_reachable t \<Longrightarrow> QuicTransport_shutdown t = Inr t' \<Longrightarrow> quic_reachable t'"
| executed: "quic_reachable t \<Longrightarrow> quic_reachable (exec op t)"
| flushed: "quic_reachable t \<Longrightarrow> quic_reachable (snd (QuicTransport_flush t))"
| new_conn: "quic_reachable t \<Longrightarrow> quic_reachable (on_new_conn conn t)"
| conn_closed: "quic_reachable t \<Longrightarrow> quic_reachable (on_conn_closed t)"
| hsk_done: "quic_reachable t \<Longrightarrow> quic_reachable (on_hsk_done ok t)"
| new_stream: "quic_reachable t \<Longrightarrow> quic_reachable (on_new_stream s t)"
| stream_closed: "quic_reachable t \<Longrightarrow> quic_reachable (on_stream_close s t)"
| close_stream: "quic_reachable t \<Longrightarrow> closeStream i t = Inr t' \<Longrightarrow> quic_reachable t'"
| reset_sent: "quic_reachable t \<Longrightarrow> sendReset i16 t = Inr t' \<Longrightarrow> quic_reachable t'"
| stream_read: "quic_reachable t \<Longrightarrow> on_stream_read s data t = Inr t' \<Longrightarrow> quic_reachable t'"
| packet_in: "quic_reachable t \<Longrightarrow> quic_reachable (QuicTransport_incoming m t)"
| packets_out: "quic_reachable t \<Longrightarrow> quic_reachable (snd (send_packets_out specs t))"
| amount: "quic_reachable t \<Longrightarrow> quic_reachable (updateBufferedAmount i16 d t)"
| stats_cleared: "quic_reachable t \<Longrightarrow> quic_reachable (clearStats t)"

definition quic_inv :: "QuicTransport \<Rightarrow> bool" where
  "quic_inv t \<longleftrightarrow> qt_conn t = Uninit \<and> state_trace Disconnected (qt_state t) \<and> Processor_inv (qt_processor t)"

lemma trySendLoop_frame:
  "qt_conn (trySendLoop t) = qt_conn t \<and> qt_state (trySendLoop t) = qt_state t \<and> qt_processor (trySendLoop t) = qt_processor t"
proof (induction t rule: trySendLoop.induct)
  case (1 t)
  then show ?case
    by (auto simp: trySendLoop.simps [of t] trySendMessage_def call_def split: option.splits)
qed

lemma send_packets_out_frame:
  "qt_conn (snd (send_packets_out specs t)) = qt_conn t \<and> qt_state (snd (send_packets_out specs t)) = qt_state t \<and>
   qt_processor (snd (send_packets_out specs t)) = qt_processor t"
  by (induction specs arbitrary: t) (auto simp: QuicTransport_outgoing_def emit_quic_def)

lemma set_state_inv [simp]: "quic_inv t \<Longrightarrow> quic_inv (set_state s t)"
  by (auto simp: quic_inv_def set_state_def intro: changeState_trace)

lemma enqueue_task_inv: "quic_inv t \<Longrightarrow> quic_inv (enqueue_task k t)"
  by (auto simp: quic_inv_def enqueue_task_def split: option.splits dest: Processor_enqueue_inv)

lemma exec_inv: "quic_inv t \<Longrightarrow> quic_inv (exec op t)"
proof (cases op)
  case (Send m)
  assume "quic_inv t"
  then have "quic_inv (enqueueFlush (t\<lparr>qt_sendQueue := q\<rparr>))" for q
    by (auto simp: enqueueFlush_def Let_def quic_inv_def intro!: enqueue_task_inv [unfolded quic_inv_def])
  then show ?thesis using Send \<open>quic_inv t\<close> by (simp add: QuicTransport_send_def split: option.splits)
next
  case Process
  assume inv: "quic_inv t"
  have "qt_conn (run_task k t) = qt_conn t \<and> qt_state (run_task k t) = qt_state t" for k
    using trySendLoop_frame [of t] by (cases k) (simp_all add: doRecv_def doFlush_def trySendQueue_def Let_def)
  then show ?thesis
    using inv Process by (auto simp: process_def quic_inv_def split: option.splits dest: Processor_finish_inv)
qed

lemma quic_reachable_inv: "quic_reachable t \<Longrightarrow> quic_inv t"
proof (induction rule: quic_reachable.induct)
  case (created engine lower n settings cb t)
  then show ?case
    by (auto simp: QuicTransport_init_def quic_inv_def state_trace_def split: if_splits)
next
  case (flushed t)
  then show ?case
    using trySendLoop_frame [of t] by (simp add: quic_inv_def QuicTransport_flush_def trySendQueue_def Let_def)
next
  case (executed t op)
  show ?case using executed.IH by (rule exec_inv)
next
  case (packets_out t specs)
  then show ?case using send_packets_out_frame [of specs t] by (simp add: quic_inv_def)
next
  case (close_stream t i t')
  then show ?case
    by (auto simp: closeStream_def lsquic_stream_close_def quic_inv_def call_def Let_def split: option.splits if_splits)
next
  case (reset_sent t i t')
  then show ?case
    by (auto simp: sendReset_def lsquic_stream_close_def quic_inv_def call_def split: option.splits if_splits)
next
  case (stream_read t s data t')
  then show ?case
    by (auto simp: on_stream_read_def processData_def emit_quic_def quic_inv_def Let_def split: option.splits if_splits)
qed (simp_all add: QuicTransport_start_def QuicTransport_connect_def QuicTransport_stop_def QuicTransport_close_def
    QuicTransport_shutdown_def close_conn_def quic_inv_def on_new_conn_def on_conn_closed_def on_hsk_done_def on_new_stream_def
    on_stream_close_def QuicTransport_incoming_def call_def updateBufferedAmount_def triggerBufferedAmount_quic_def
    emit_quic_def clearStats_def Let_def set_state_def changeState_trace)

text \<open>
  \<open>mConn\<close> is never initialised: the constructor does not set it, no callback does (\<open>on_new_conn\<close> stores the
  connection in \<open>mConnCtx->conn\<close>), so in every state that can be reached \<open>stop\<close>, \<open>close\<close> and \<open>rtt\<close> read an
  indeterminate pointer. The same invariant shows that the state callback is called exactly on changes: its trace never
  repeats a state and ends with the current one.
\<close>

theorem quic_stop_reads_uninitialised_pointer:
  assumes "quic_reachable t"
  shows "QuicTransport_stop t = Inl UndefinedBehaviour \<and> QuicTransport_close t = Inl UndefinedBehaviour \<and>
    QuicTransport_rtt get_info t = Inl UndefinedBehaviour \<and> state_trace Disconnected (qt_state t)"
  using quic_reachable_inv [OF assms]
  by (simp add: quic_inv_def QuicTransport_stop_def QuicTransport_close_def QuicTransport_rtt_def close_conn_def)

theorem quic_stop_reads_uninitialised_pointer_witness:
  "\<exists>t. QuicTransport_init True True None QuicSettings_default True = Inr t \<and>
     QuicTransport_stop (QuicTransport_start t) = Inl UndefinedBehaviour"
proof -
  obtain t where t: "QuicTransport_init True True None QuicSettings_default True = Inr t"
    by (simp add: QuicTransport_init_def)
  then have "quic_reachable (QuicTransport_start t)" by (blast intro: quic_reachable.intros)
  from quic_stop_reads_uninitialised_pointer [OF this] t show ?thesis by blast
qed

section \<open>Stream identifiers\<close>

text \<open>The two maps of a connection are inverse to each other, and every stream they know is alive.\<close>

definition streams_inv :: "QuicTransport \<Rightarrow> bool" where
  "streams_inv t \<longleftrightarrow>
     (\<forall>s i. cc_streams (qt_connCtx t) s = Some i \<longleftrightarrow> cc_streamIds (qt_connCtx t) i = Some s) \<and>
     (\<forall>s i. cc_streams (qt_connCtx t) s = Some i \<longrightarrow> unat i < unat (cc_nextStreamId (qt_connCtx t)) \<and> qt_streamCtx t s \<noteq> None)"

lemma on_new_stream_inv:
  assumes "streams_inv t" and "cc_streams (qt_connCtx t) s = None" and "unat (cc_nextStreamId (qt_connCtx t)) < 65535"
  shows "streams_inv (on_new_stream s t)"
proof -
  let ?n = "cc_nextStreamId (qt_connCtx t)"
  have next_id: "unat (?n + 1) = unat ?n + 1" using assms(3) by (simp add: unat_word_ariths)
  have fresh: "cc_streams (qt_connCtx t) s' \<noteq> Some ?n" "cc_streamIds (qt_connCtx t) ?n = None" for s'
    using assms(1) unfolding streams_inv_def by (metis less_irrefl, metis less_irrefl not_Some_eq)
  have unknown: "cc_streamIds (qt_connCtx t) i \<noteq> Some s" for i
    using assms(1,2) unfolding streams_inv_def by (metis option.distinct(1))
  show ?thesis
    unfolding streams_inv_def
  proof (intro conjI allI impI)
    show "cc_streams (qt_connCtx (on_new_stream s t)) s' = Some i \<longleftrightarrow> cc_streamIds (qt_connCtx (on_new_stream s t)) i = Some s'" for s' i
      using assms(1) fresh unknown by (auto simp: on_new_stream_def Let_def streams_inv_def)
    show "unat i < unat (cc_nextStreamId (qt_connCtx (on_new_stream s t)))" "qt_streamCtx (on_new_stream s t) s' \<noteq> None"
      if "cc_streams (qt_connCtx (on_new_stream s t)) s' = Some i" for s' i
      using that assms(1) next_id
      by (auto simp: on_new_stream_def Let_def streams_inv_def less_Suc_eq split: if_splits)
  qed
qed

lemma closeStream_inv:
  assumes "streams_inv t"
  shows "\<exists>t'. closeStream i t = Inr t' \<and> streams_inv t' \<and> cc_streamIds (qt_connCtx t') (ucast i) = None"
proof (cases "cc_streamIds (qt_connCtx t) (ucast i)")
  case None
  then show ?thesis using assms by (simp add: closeStream_def)
next
  case (Some s)
  then have s: "cc_streams (qt_connCtx t) s = Some (ucast i)" using assms by (simp add: streams_inv_def)
  then have alive: "qt_streamCtx t s \<noteq> None" using assms by (auto simp: streams_inv_def)
  let ?ctx = "qt_connCtx t"
  let ?t' = "(call (StreamClose s) t)\<lparr>qt_connCtx := ?ctx\<lparr>cc_streams := (cc_streams ?ctx)(s := None),
      cc_streamIds := (cc_streamIds ?ctx)(ucast i := None)\<rparr>\<rparr>"
  have "closeStream i t = Inr ?t'"
    using Some alive by (simp add: closeStream_def lsquic_stream_close_def call_def Let_def)
  moreover have "cc_streams (qt_connCtx ?t') s' = Some j \<longleftrightarrow> cc_streamIds (qt_connCtx ?t') j = Some s'" for s' j
  proof -
    have "cc_streams ?ctx s' = Some j \<longleftrightarrow> cc_streamIds ?ctx j = Some s'" "cc_streams ?ctx s = Some j \<longleftrightarrow> cc_streamIds ?ctx j = Some s"
      using assms unfolding streams_inv_def by blast+
    then show ?thesis using s Some by (cases "s' = s"; cases "j = ucast i") auto
  qed
  moreover have "unat j < unat (cc_nextStreamId (qt_connCtx ?t')) \<and> qt_streamCtx ?t' s' \<noteq> None"
    if "cc_streams (qt_connCtx ?t') s' = Some j" for s' j
  proof -
    have "cc_streams ?ctx s' = Some j" using that by (simp split: if_splits)
    then show ?thesis using assms unfolding streams_inv_def by (simp add: call_def)
  qed
  ultimately show ?thesis
    unfolding streams_inv_def by (intro exI [of _ ?t']) simp
qed

datatype stream_op = NewStream nat | CloseStream u32

fun exec_stream :: "stream_op \<Rightarrow> QuicTransport \<Rightarrow> QuicTransport result" where
  "exec_stream (NewStream s) t = Inr (on_new_stream s t)"
| "exec_stream (CloseStream i) t = closeStream i t"

fun exec_streams :: "stream_op list \<Rightarrow> QuicTransport \<Rightarrow> QuicTransport result" where
  "exec_streams [] t = Inr t"
| "exec_streams (op # ops) t = bind_result (exec_stream op t) (exec_streams ops)"

fun new_streams :: "stream_op list \<Rightarrow> nat list" where
  "new_streams [] = []"
| "new_streams (NewStream s # ops) = s # new_streams ops"
| "new_streams (CloseStream i # ops) = new_streams ops"

lemma closeStream_frame:
  "closeStream i t = Inr t' \<Longrightarrow> cc_nextStreamId (qt_connCtx t') = cc_nextStreamId (qt_connCtx t) \<and>
     (cc_streams (qt_connCtx t) s = None \<longrightarrow> cc_streams (qt_connCtx t') s = None)"
  by (auto simp: closeStream_def lsquic_stream_close_def call_def Let_def split: option.splits if_splits)

lemma exec_streams_inv:
  assumes "streams_inv t" and "distinct (new_streams ops)"
    and "\<forall>s \<in> set (new_streams ops). cc_streams (qt_connCtx t) s = None"
    and "unat (cc_nextStreamId (qt_connCtx t)) + length (new_streams ops) \<le> 65535"
  shows "\<exists>t'. exec_streams ops t = Inr t' \<and> streams_inv t'"
  using assms
proof (induction ops arbitrary: t)
  case (Cons op ops)
  show ?case
  proof (cases op)
    case (NewStream s)
    let ?t = "on_new_stream s t"
    have "unat (cc_nextStreamId (qt_connCtx t)) < 65535" using Cons.prems(4) NewStream by simp
    then have "streams_inv ?t" "unat (cc_nextStreamId (qt_connCtx ?t)) = unat (cc_nextStreamId (qt_connCtx t)) + 1"
      using Cons.prems(1,3) NewStream on_new_stream_inv [of t s]
      by (simp_all add: on_new_stream_def Let_def unat_word_ariths)
    moreover have "\<forall>s' \<in> set (new_streams ops). cc_streams (qt_connCtx ?t) s' = None"
      using Cons.prems(2,3) NewStream by (auto simp: on_new_stream_def Let_def)
    ultimately show ?thesis using Cons.IH [of ?t] Cons.prems NewStream by simp
  next
    case (CloseStream i)
    obtain t' where t': "closeStream i t = Inr t'" "streams_inv t'" using closeStream_inv [OF Cons.prems(1), of i] by blast
    then show ?thesis
      using Cons.IH [of t'] Cons.prems CloseStream closeStream_frame [OF t'(1)] by simp
  qed
qed simp

text \<open>
  Streams as long as lsquic closes none of them by itself: after any number of new streams below \<open>2 ^ 16\<close> with
  distinct pointers and any calls of \<open>closeStream\<close>, the two stream maps stay inverse to each other and point to live
  streams only, \<open>closeStream\<close> never touches a destroyed stream, and afterwards its identifier is free.
\<close>

theorem quic_streams_stay_inverse:
  assumes "QuicTransport_init engine lower n settings cb = Inr t" and "distinct (new_streams ops)"
    and "length (new_streams ops) \<le> 65535"
  shows "\<exists>t'. exec_streams ops t = Inr t' \<and>
    (\<forall>s i. cc_streams (qt_connCtx t') s = Some i \<longleftrightarrow> cc_streamIds (qt_connCtx t') i = Some s) \<and>
    (\<exists>t''. closeStream k t' = Inr t'' \<and> cc_streamIds (qt_connCtx t'') (ucast k) = None)"
proof -
  have "streams_inv t" "cc_nextStreamId (qt_connCtx t) = 0" "\<forall>s. cc_streams (qt_connCtx t) s = None"
    using assms(1) by (auto simp: QuicTransport_init_def streams_inv_def split: if_splits)
  then obtain t' where "exec_streams ops t = Inr t'" "streams_inv t'"
    using exec_streams_inv [of t ops] assms(2,3) by auto
  then show ?thesis using closeStream_inv [of t' k] unfolding streams_inv_def by blast
qed

theorem quic_streams_stay_inverse_witness:
  "\<exists>t t'. QuicTransport_init True True None QuicSettings_default True = Inr t \<and>
     exec_streams [NewStream 70, NewStream 80, CloseStream 0] t = Inr t' \<and>
     cc_streamIds (qt_connCtx t') 1 = Some 80"
proof -
  obtain t where t: "QuicTransport_init True True None QuicSettings_default True = Inr t"
    by (simp add: QuicTransport_init_def)
  then obtain t' where "exec_streams [NewStream 70, NewStream 80, CloseStream 0] t = Inr t'"
    using quic_streams_stay_inverse [OF t, of "[NewStream 70, NewStream 80, CloseStream 0]" 0]
    by (simp del: exec_streams.simps exec_stream.simps) blast
  moreover from this have "cc_streamIds (qt_connCtx t') 1 = Some 80"
    using t by (auto simp: QuicTransport_init_def on_new_stream_def closeStream_def lsquic_stream_close_def call_def Let_def)
  ultimately show ?thesis using t by blast
qed

text \<open>
  A stream closed by lsquic (\<open>on_stream_close\<close>) stays in both maps. \<open>closeStream\<close> of its identifier then passes the
  pointer of a destroyed stream to lsquic; and when lsquic has reused the pointer for a new stream, \<open>closeStream\<close> of the
  old identifier closes the new stream instead.
\<close>

theorem quic_closed_stream_stays_mapped:
  assumes "cc_streamIds (qt_connCtx t) (ucast i) = Some s" and "qt_streamCtx t s \<noteq> None"
    and "ucast i \<noteq> cc_nextStreamId (qt_connCtx t)"
  shows "closeStream i (on_stream_close s t) = Inl UndefinedBehaviour \<and>
    (\<exists>t'. closeStream i (on_new_stream s (on_stream_close s t)) = Inr t' \<and>
       qt_calls t' = qt_calls t @ [StreamClose s] \<and> cc_streams (qt_connCtx t') s = None \<and>
       cc_streamIds (qt_connCtx t') (cc_nextStreamId (qt_connCtx t)) = Some s)"
  using assms by (auto simp: closeStream_def lsquic_stream_close_def on_stream_close_def on_new_stream_def call_def Let_def)

theorem quic_closed_stream_stays_mapped_witness:
  "closeStream 0 (on_stream_close 70 (on_new_stream 70 example_transport)) = Inl UndefinedBehaviour"
  using quic_closed_stream_stays_mapped [of "on_new_stream 70 example_transport" 0 70]
  by (simp add: on_new_stream_def example_transport_def)

end
