(* ===== verification/DataChannels.thy ===== *)
theory DataChannels
  imports Messages
begin

text \<open>
  Data channels: \<open>src/impl/channel.cpp\<close>, \<open>src/impl/datachannel.cpp\<close>, \<open>src/impl/datachannel.hpp\<close>,
  the conversions of \<open>src/impl/utils.hpp\<close>, and the calls of \<open>src/channel.cpp\<close> and
  \<open>src/datachannel.cpp\<close> that forward to them.

  The state of a channel is one record. The three classes (\<open>DataChannel\<close> for a channel negotiated by
  the user, \<open>OutgoingDataChannel\<close>, \<open>IncomingDataChannel\<close>) differ in their virtual functions; the field
  \<open>dc_kind\<close> selects them. Callbacks into the application and calls into the SCTP transport are appended
  to the trace \<open>dc_events\<close>; a callback that is not installed is stored and replayed by
  \<open>synchronized_stored_callback\<close>, so the trace records it when it is triggered. Whether the weak
  pointer to the transport can be locked is the field \<open>dc_transport\<close>; what \<open>send\<close> of the
  transport returns is the parameter \<open>send\<close>. Each operation is one step: the code guards the state
  with a mutex and atomic exchanges.
\<close>

section \<open>The channel\<close>

datatype event =
    EvOpen
  | EvClosed
  | EvError string
  | EvAvailable
  | EvBufferedAmountLow
  | EvMessage message_variant
  | EvReceived message_variant
  | EvQueued Message
  | EvSend Message
  | EvCloseStream u16

datatype ChannelKind = Negotiated | Outgoing | Incoming

record DataChannel =
  dc_kind :: ChannelKind
  dc_transport :: bool
  dc_remoteMaxMessageSize :: "nat option"
  dc_stream :: "u16 option"
  dc_label :: string
  dc_protocol :: string
  dc_reliability :: Reliability
  dc_isOpen :: bool
  dc_isClosed :: bool
  dc_recvQueue :: "Message Queue"
  ch_openTriggered :: bool
  ch_messageCallback :: bool
  ch_bufferedAmount :: nat
  ch_bufferedAmountLowThreshold :: nat
  dc_events :: "event list"

definition emit :: "event \<Rightarrow> DataChannel \<Rightarrow> DataChannel" where
  "emit e dc = dc\<lparr>dc_events := dc_events dc @ [e]\<rparr>"

definition RECV_QUEUE_LIMIT :: nat where "RECV_QUEUE_LIMIT = 1024"
definition DEFAULT_REMOTE_MAX_MESSAGE_SIZE :: nat where "DEFAULT_REMOTE_MAX_MESSAGE_SIZE = 65536"

definition DataChannel_init ::
  "ChannelKind \<Rightarrow> nat option \<Rightarrow> string \<Rightarrow> string \<Rightarrow> Reliability \<Rightarrow> DataChannel result" where
  "DataChannel_init kind pc label protocol reliability =
     (if rel_maxPacketLifeTime reliability \<noteq> None \<and> rel_maxRetransmits reliability \<noteq> None
      then Inl (InvalidArgument ''Both maxPacketLifeTime and maxRetransmits are set'')
      else Inr \<lparr>dc_kind = kind, dc_transport = False, dc_remoteMaxMessageSize = pc, dc_stream = None,
                dc_label = label, dc_protocol = protocol, dc_reliability = reliability,
                dc_isOpen = False, dc_isClosed = False,
                dc_recvQueue = Queue_init RECV_QUEUE_LIMIT (Some message_size_func),
                ch_openTriggered = False, ch_messageCallback = False, ch_bufferedAmount = 0,
                ch_bufferedAmountLowThreshold = 0, dc_events = []\<rparr>)"

definition DataChannel_receive :: "DataChannel \<Rightarrow> message_variant option \<times> DataChannel" where
  "DataChannel_receive dc =
     (case Queue_pop (dc_recvQueue dc) of
        (next, q) \<Rightarrow> (map_option to_variant next, dc\<lparr>dc_recvQueue := q\<rparr>))"

definition DataChannel_peek :: "DataChannel \<Rightarrow> message_variant option" where
  "DataChannel_peek dc = map_option to_variant (Queue_peek (dc_recvQueue dc))"

definition DataChannel_availableAmount :: "DataChannel \<Rightarrow> u64" where
  "DataChannel_availableAmount dc = Queue_amount (dc_recvQueue dc)"

lemma receive_length:
  "DataChannel_receive dc = (Some v, dc') \<Longrightarrow>
     length (mQueue (dc_recvQueue dc')) < length (mQueue (dc_recvQueue dc))"
  by (auto simp: DataChannel_receive_def Queue_pop_def split: list.splits)

function flush_loop :: "DataChannel \<Rightarrow> DataChannel" where
  "flush_loop dc =
     (if ch_messageCallback dc then
        case DataChannel_receive dc of
          (None, dc) \<Rightarrow> dc
        | (Some v, dc) \<Rightarrow> flush_loop (emit (EvMessage v) dc)
      else dc)"
  by pat_completeness auto
termination
proof (relation "measure (\<lambda>dc. length (mQueue (dc_recvQueue dc)))")
  fix dc x dc' v
  assume "(x, dc') = DataChannel_receive dc" "x = Some v"
  then show "(emit (EvMessage v) dc', dc) \<in> measure (\<lambda>dc. length (mQueue (dc_recvQueue dc)))"
    using receive_length [of dc v dc'] by (simp add: emit_def)
qed simp

declare flush_loop.simps [simp del]

definition flushPendingMessages :: "DataChannel \<Rightarrow> DataChannel" where
  "flushPendingMessages dc = (if \<not> ch_openTriggered dc then dc else flush_loop dc)"

definition triggerOpen :: "DataChannel \<Rightarrow> DataChannel" where
  "triggerOpen dc = flushPendingMessages (emit EvOpen (dc\<lparr>ch_openTriggered := True\<rparr>))"

definition triggerClosed :: "DataChannel \<Rightarrow> DataChannel" where
  "triggerClosed dc = emit EvClosed dc"

definition triggerError :: "string \<Rightarrow> DataChannel \<Rightarrow> DataChannel" where
  "triggerError err dc = emit (EvError err) dc"

definition triggerAvailable :: "nat \<Rightarrow> DataChannel \<Rightarrow> DataChannel" where
  "triggerAvailable count dc = flushPendingMessages (if count = 1 then emit EvAvailable dc else dc)"

definition triggerBufferedAmount :: "nat \<Rightarrow> DataChannel \<Rightarrow> DataChannel" where
  "triggerBufferedAmount amount dc =
     (let previous = ch_bufferedAmount dc;
          dc = dc\<lparr>ch_bufferedAmount := amount\<rparr>;
          threshold = ch_bufferedAmountLowThreshold dc
      in if previous > threshold \<and> amount \<le> threshold then emit EvBufferedAmountLow dc else dc)"

definition setBufferedAmountLowThreshold :: "nat \<Rightarrow> DataChannel \<Rightarrow> DataChannel" where
  "setBufferedAmountLowThreshold amount dc = dc\<lparr>ch_bufferedAmountLowThreshold := amount\<rparr>"

definition resetOpenCallback :: "DataChannel \<Rightarrow> DataChannel" where
  "resetOpenCallback dc = dc\<lparr>ch_openTriggered := False\<rparr>"

definition resetCallbacks :: "DataChannel \<Rightarrow> DataChannel" where
  "resetCallbacks dc = dc\<lparr>ch_openTriggered := False, ch_messageCallback := False\<rparr>"

definition onMessage :: "bool \<Rightarrow> DataChannel \<Rightarrow> DataChannel" where
  "onMessage callback dc = flushPendingMessages (dc\<lparr>ch_messageCallback := callback\<rparr>)"

section \<open>Establishment messages\<close>

definition MESSAGE_ACK :: u8 where "MESSAGE_ACK = 2"
definition MESSAGE_OPEN :: u8 where "MESSAGE_OPEN = 3"
definition CHANNEL_RELIABLE :: u8 where "CHANNEL_RELIABLE = 0"
definition CHANNEL_PARTIAL_RELIABLE_REXMIT :: u8 where "CHANNEL_PARTIAL_RELIABLE_REXMIT = 1"
definition CHANNEL_PARTIAL_RELIABLE_TIMED :: u8 where "CHANNEL_PARTIAL_RELIABLE_TIMED = 2"

lemmas dcep_constants = MESSAGE_ACK_def MESSAGE_OPEN_def CHANNEL_RELIABLE_def
  CHANNEL_PARTIAL_RELIABLE_REXMIT_def CHANNEL_PARTIAL_RELIABLE_TIMED_def

record OpenMessage =
  open_type :: u8
  open_channelType :: u8
  open_priority :: u16
  open_reliabilityParameter :: u32
  open_labelLength :: u16
  open_protocolLength :: u16

definition OpenMessage_enc :: "OpenMessage \<Rightarrow> binary" where
  "OpenMessage_enc o' = [open_type o'] @ [open_channelType o'] @ bytes16 (open_priority o') @
     bytes32 (open_reliabilityParameter o') @ bytes16 (open_labelLength o') @ bytes16 (open_protocolLength o')"

definition OpenMessage_dec :: "binary \<Rightarrow> OpenMessage" where
  "OpenMessage_dec b = \<lparr>open_type = ld8 b 0, open_channelType = ld8 b 1, open_priority = ld16 b 2,
     open_reliabilityParameter = ld32 b 4, open_labelLength = ld16 b 8, open_protocolLength = ld16 b 10\<rparr>"

interpretation open_msg: wire_struct 12 OpenMessage_enc OpenMessage_dec
proof
  show "length (OpenMessage_enc r) = 12" for r
    by (simp add: OpenMessage_enc_def)
  show "OpenMessage_dec (OpenMessage_enc r @ rest) = r" for r rest
    by (simp add: OpenMessage_enc_def OpenMessage_dec_def struct_dec_enc)
  show "OpenMessage_enc (OpenMessage_dec b) = take 12 b" if "12 \<le> length b" for b
    using that by (auto simp: OpenMessage_enc_def OpenMessage_dec_def struct_enc_dec)
qed

definition to_uint16 :: "int \<Rightarrow> u16 result" where
  "to_uint16 i = (if i \<ge> 0 \<and> i \<le> 65535 then Inr (of_int i) else Inl (InvalidArgument ''Integer out of range''))"

definition to_uint32 :: "int \<Rightarrow> u32 result" where
  "to_uint32 i = (if i \<ge> 0 \<and> i \<le> 4294967295 then Inr (of_int i) else Inl (InvalidArgument ''Integer out of range''))"

definition IsOpenMessage :: "Message \<Rightarrow> bool" where
  "IsOpenMessage message \<longleftrightarrow> msg_type message = Control \<and> msg_data message \<noteq> [] \<and>
     ld8 (msg_data message) 0 = MESSAGE_OPEN"

text \<open>The channel type and reliability parameter of an open message. \<open>std::get\<close> of the wrong
  alternative raises.\<close>

definition reliability_parameters :: "Reliability \<Rightarrow> (u8 \<times> u32) result" where
  "reliability_parameters r =
     bind_result
       (case rel_maxPacketLifeTime r of
          Some t \<Rightarrow> bind_result (to_uint32 t) (\<lambda>p. Inr (CHANNEL_PARTIAL_RELIABLE_TIMED, p))
        | None \<Rightarrow>
            (case rel_maxRetransmits r of
               Some n \<Rightarrow> bind_result (to_uint32 (uint n)) (\<lambda>p. Inr (CHANNEL_PARTIAL_RELIABLE_REXMIT, p))
             | None \<Rightarrow>
                 (case rel_typeDeprecated r of
                    Rexmit \<Rightarrow>
                      (case rel_rexmit r of
                         RexmitCount n \<Rightarrow>
                           bind_result (to_uint32 (max n 0)) (\<lambda>p. Inr (CHANNEL_PARTIAL_RELIABLE_REXMIT, p))
                       | RexmitMillis _ \<Rightarrow> Inl (RuntimeError ''bad_variant_access''))
                  | Timed \<Rightarrow>
                      (case rel_rexmit r of
                         RexmitMillis t \<Rightarrow>
                           bind_result (to_uint32 t) (\<lambda>p. Inr (CHANNEL_PARTIAL_RELIABLE_TIMED, p))
                       | RexmitCount _ \<Rightarrow> Inl (RuntimeError ''bad_variant_access''))
                  | Reliable \<Rightarrow> Inr (CHANNEL_RELIABLE, 0))))
       (\<lambda>(channelType, p). Inr (if rel_unordered r then channelType OR 0x80 else channelType, p))"

definition open_message_bytes :: "Reliability \<Rightarrow> string \<Rightarrow> string \<Rightarrow> binary result" where
  "open_message_bytes r label protocol =
     bind_result (reliability_parameters r) (\<lambda>(channelType, p).
     bind_result (to_uint16 (int (length label))) (\<lambda>labelLength.
     bind_result (to_uint16 (int (length protocol))) (\<lambda>protocolLength.
       let buffer = replicate (12 + length label + length protocol) 0;
           buffer = overlay_set OpenMessage_enc 0
             \<lparr>open_type = MESSAGE_OPEN, open_channelType = channelType, open_priority = htons 0,
              open_reliabilityParameter = htonl p, open_labelLength = htons labelLength,
              open_protocolLength = htons protocolLength\<rparr> buffer;
           buffer = poke buffer 12 (string_bytes label);
           buffer = poke buffer (12 + length label) (string_bytes protocol)
       in Inr buffer)))"

section \<open>Operations\<close>

definition DataChannel_isOpen :: "DataChannel \<Rightarrow> bool" where
  "DataChannel_isOpen dc \<longleftrightarrow> \<not> dc_isClosed dc \<and> dc_isOpen dc"

definition maxMessageSize :: "DataChannel \<Rightarrow> nat" where
  "maxMessageSize dc =
     (case dc_remoteMaxMessageSize dc of Some n \<Rightarrow> n | None \<Rightarrow> DEFAULT_REMOTE_MAX_MESSAGE_SIZE)"

definition DataChannel_close :: "DataChannel \<Rightarrow> DataChannel" where
  "DataChannel_close dc =
     (let wasClosed = dc_isClosed dc;
          dc = dc\<lparr>dc_isClosed := True\<rparr>;
          dc = (if \<not> wasClosed then
                  triggerClosed
                    (case dc_stream dc of
                       Some s \<Rightarrow> if dc_transport dc then emit (EvCloseStream s) dc else dc
                     | None \<Rightarrow> dc)
                else dc)
      in resetCallbacks dc)"

definition remoteClose :: "DataChannel \<Rightarrow> DataChannel" where
  "remoteClose dc = DataChannel_close dc"

definition assignStream :: "u16 \<Rightarrow> DataChannel \<Rightarrow> unit result \<times> DataChannel" where
  "assignStream stream dc =
     (if dc_stream dc \<noteq> None then (Inl (LogicError ''DataChannel already has a stream assigned''), dc)
      else (Inr (), dc\<lparr>dc_stream := Some stream\<rparr>))"

text \<open>\<open>if (!mIsOpen.exchange(true)) triggerOpen();\<close>\<close>

definition openOnce :: "DataChannel \<Rightarrow> DataChannel" where
  "openOnce dc = (let wasOpen = dc_isOpen dc; dc = dc\<lparr>dc_isOpen := True\<rparr>
                  in if \<not> wasOpen then triggerOpen dc else dc)"

definition DataChannel_open :: "DataChannel \<Rightarrow> unit result \<times> DataChannel" where
  "DataChannel_open dc =
     (let dc = dc\<lparr>dc_transport := True\<rparr>
      in (Inr (), if \<not> dc_isClosed dc then openOnce dc else dc))"

definition OutgoingDataChannel_open :: "DataChannel \<Rightarrow> unit result \<times> DataChannel" where
  "OutgoingDataChannel_open dc =
     (let dc = dc\<lparr>dc_transport := True\<rparr>
      in case dc_stream dc of
           None \<Rightarrow> (Inl (RuntimeError ''DataChannel has no stream assigned''), dc)
         | Some s \<Rightarrow>
             (case open_message_bytes (dc_reliability dc) (dc_label dc) (dc_protocol dc) of
                Inl e \<Rightarrow> (Inl e, dc)
              | Inr buffer \<Rightarrow> (Inr (), emit (EvSend (make_message buffer Control (ucast s) None None)) dc)))"

definition IncomingDataChannel_open :: "DataChannel \<Rightarrow> unit result \<times> DataChannel" where
  "IncomingDataChannel_open dc = (Inr (), dc)"

definition channel_open :: "DataChannel \<Rightarrow> unit result \<times> DataChannel" where
  "channel_open dc =
     (case dc_kind dc of
        Negotiated \<Rightarrow> DataChannel_open dc
      | Outgoing \<Rightarrow> OutgoingDataChannel_open dc
      | Incoming \<Rightarrow> IncomingDataChannel_open dc)"

text \<open>\<open>int(reliabilityParameter)\<close> keeps the bits: the value is signed.\<close>

definition reliability_of_open :: "u8 \<Rightarrow> u32 \<Rightarrow> Reliability \<Rightarrow> Reliability" where
  "reliability_of_open channelType p r =
     (let r = r\<lparr>rel_unordered := (channelType AND 0x80 \<noteq> 0), rel_maxPacketLifeTime := None, rel_maxRetransmits := None\<rparr>;
          t = channelType AND 0x7F
      in if t = CHANNEL_PARTIAL_RELIABLE_REXMIT
         then r\<lparr>rel_maxRetransmits := Some p, rel_typeDeprecated := Rexmit, rel_rexmit := RexmitCount (sint p)\<rparr>
         else if t = CHANNEL_PARTIAL_RELIABLE_TIMED
         then r\<lparr>rel_maxPacketLifeTime := Some (uint p), rel_typeDeprecated := Timed, rel_rexmit := RexmitMillis (uint p)\<rparr>
         else r\<lparr>rel_typeDeprecated := Reliable, rel_rexmit := RexmitCount 0\<rparr>)"

definition IncomingDataChannel_processOpenMessage :: "Message \<Rightarrow> DataChannel \<Rightarrow> unit result \<times> DataChannel" where
  "IncomingDataChannel_processOpenMessage message dc =
     (if \<not> dc_transport dc then (Inl (LogicError ''DataChannel has no transport''), dc)
      else case dc_stream dc of
        None \<Rightarrow> (Inl (LogicError ''DataChannel has no stream assigned''), dc)
      | Some s \<Rightarrow>
        let data = msg_data message
        in if length data < 12 then (Inl (InvalidArgument ''DataChannel open message too small''), dc)
        else
          let o' = OpenMessage_dec data;
              p = ntohl (open_reliabilityParameter o');
              labelLength = unat (ntohs (open_labelLength o'));
              protocolLength = unat (ntohs (open_protocolLength o'))
          in if length data < 12 + (labelLength + protocolLength)
             then (Inl (InvalidArgument ''DataChannel open message truncated''), dc)
             else
               let dc = dc\<lparr>dc_label := bytes_string (slice 12 (12 + labelLength) data),
                          dc_protocol := bytes_string (slice (12 + labelLength) (12 + labelLength + protocolLength) data),
                          dc_reliability := reliability_of_open (open_channelType o') p (dc_reliability dc)\<rparr>;
                   ack = overlay_set (\<lambda>t. [t]) 0 MESSAGE_ACK (replicate 1 0);
                   dc = emit (EvSend (make_message ack Control (ucast s) None None)) dc
               in (Inr (), openOnce dc))"

definition processOpenMessage :: "Message \<Rightarrow> DataChannel \<Rightarrow> unit result \<times> DataChannel" where
  "processOpenMessage message dc =
     (case dc_kind dc of
        Incoming \<Rightarrow> IncomingDataChannel_processOpenMessage message dc
      | _ \<Rightarrow> (Inr (), dc))"

definition DataChannel_outgoing :: "(Message \<Rightarrow> bool) \<Rightarrow> Message \<Rightarrow> DataChannel \<Rightarrow> bool result \<times> DataChannel" where
  "DataChannel_outgoing send message dc =
     (if dc_isClosed dc then (Inl (RuntimeError ''DataChannel is closed''), dc)
      else if \<not> dc_transport dc then (Inl (RuntimeError ''DataChannel not open''), dc)
      else case dc_stream dc of
        None \<Rightarrow> (Inl (LogicError ''DataChannel has no stream assigned''), dc)
      | Some s \<Rightarrow>
        if length (msg_data message) > maxMessageSize dc
        then (Inl (InvalidArgument ''Message size exceeds limit''), dc)
        else let message = message\<lparr>msg_reliability := if dc_isOpen dc then Some (dc_reliability dc) else None,
                                   msg_stream := ucast s\<rparr>
             in (Inr (send message), emit (EvSend message) dc))"

definition DataChannel_incoming :: "Message option \<Rightarrow> DataChannel \<Rightarrow> (unit result \<times> DataChannel) option" where
  "DataChannel_incoming message dc =
     (case message of
        None \<Rightarrow> Some (Inr (), dc)
      | Some message \<Rightarrow>
          if dc_isClosed dc then Some (Inr (), dc)
          else (case msg_type message of
            Control \<Rightarrow>
              if msg_data message = [] then Some (Inr (), dc)
              else let raw = ld8 (msg_data message) 0
                   in if raw = MESSAGE_OPEN then Some (processOpenMessage message dc)
                      else if raw = MESSAGE_ACK then Some (Inr (), openOnce dc)
                      else Some (Inr (), dc)
          | Reset \<Rightarrow> Some (Inr (), remoteClose dc)
          | _ \<Rightarrow>
              (case Queue_push message (dc_recvQueue dc) of
                 None \<Rightarrow> None
               | Some q \<Rightarrow>
                   let dc = emit (EvQueued message) (dc\<lparr>dc_recvQueue := q\<rparr>)
                   in Some (Inr (), triggerAvailable (Queue_size q) dc))))"

section \<open>The establishment protocol round trip\<close>

lemma to_uint16_Inr: "to_uint16 (int n) = Inr w \<longleftrightarrow> n \<le> 65535 \<and> w = of_nat n"
  by (auto simp: to_uint16_def)

lemma to_uint32_Inr: "to_uint32 i = Inr w \<longleftrightarrow> 0 \<le> i \<and> i \<le> 4294967295 \<and> w = of_int i"
  by (auto simp: to_uint32_def)

lemma open_message_bytes_eq:
  assumes "reliability_parameters r = Inr (ct, p)" and "length label \<le> 65535" and "length protocol \<le> 65535"
  shows "open_message_bytes r label protocol =
    Inr (OpenMessage_enc \<lparr>open_type = MESSAGE_OPEN, open_channelType = ct, open_priority = htons 0,
           open_reliabilityParameter = htonl p, open_labelLength = htons (of_nat (length label)),
           open_protocolLength = htons (of_nat (length protocol))\<rparr> @ string_bytes label @ string_bytes protocol)"
proof -
  have "to_uint16 (int (length label)) = Inr (of_nat (length label))"
    "to_uint16 (int (length protocol)) = Inr (of_nat (length protocol))"
    using assms by (simp_all add: to_uint16_Inr)
  then show ?thesis
    using assms(1) by (simp add: open_message_bytes_def overlay_set_def poke_def open_msg.length_enc)
qed

lemma open_message_bytes_Inr:
  assumes "open_message_bytes r label protocol = Inr b"
  obtains ct p where "reliability_parameters r = Inr (ct, p)" and "length label \<le> 65535" and "length protocol \<le> 65535"
  using assms that by (auto simp: open_message_bytes_def bind_result_Inr_iff to_uint16_Inr)

lemma process_open_message_bytes:
  assumes "length label \<le> 65535" and "length protocol \<le> 65535" and "dc_transport dc" and "dc_stream dc = Some s"
    and "msg_data m = OpenMessage_enc \<lparr>open_type = MESSAGE_OPEN, open_channelType = ct, open_priority = htons 0,
           open_reliabilityParameter = htonl p, open_labelLength = htons (of_nat (length label)),
           open_protocolLength = htons (of_nat (length protocol))\<rparr> @ string_bytes label @ string_bytes protocol"
  shows "IncomingDataChannel_processOpenMessage m dc =
    (Inr (), openOnce (emit (EvSend (make_message [MESSAGE_ACK] Control (ucast s) None None))
       (dc\<lparr>dc_label := label, dc_protocol := protocol,
          dc_reliability := reliability_of_open ct p (dc_reliability dc)\<rparr>)))"
proof -
  let ?o = "OpenMessage_dec (msg_data m)"
  have o': "open_channelType ?o = ct" "open_reliabilityParameter ?o = htonl p"
    "open_labelLength ?o = htons (of_nat (length label))" "open_protocolLength ?o = htons (of_nat (length protocol))"
    using assms(5) by (simp_all add: open_msg.dec_enc)
  have len: "unat (of_nat (length label) :: u16) = length label" "unat (of_nat (length protocol) :: u16) = length protocol"
    using assms by (simp_all add: unat_of_nat)
  have "length (msg_data m) = 12 + length label + length protocol"
    using assms(5) by (simp add: open_msg.length_enc)
  moreover have "slice 12 (12 + length label) (msg_data m) = string_bytes label"
    "slice (12 + length label) (12 + length label + length protocol) (msg_data m) = string_bytes protocol"
    using assms(5) by (simp_all add: slice_def open_msg.length_enc)
  ultimately show ?thesis
    using assms(3,4) o' len
    by (simp add: IncomingDataChannel_processOpenMessage_def Let_def overlay_set_def poke_def)
qed

text \<open>The partial reliability a channel ends up with, the deprecated setting included.\<close>

definition effective :: "Reliability \<Rightarrow> bool \<times> int option \<times> u32 option" where
  "effective r = (rel_unordered r,
     (case rel_maxPacketLifeTime r of Some t \<Rightarrow> Some t
      | None \<Rightarrow> (case (rel_maxRetransmits r, rel_typeDeprecated r, rel_rexmit r) of
                   (None, Timed, RexmitMillis t) \<Rightarrow> Some t | _ \<Rightarrow> None)),
     (case (rel_maxPacketLifeTime r, rel_maxRetransmits r, rel_typeDeprecated r, rel_rexmit r) of
        (None, Some n, _, _) \<Rightarrow> Some n
      | (None, None, Rexmit, RexmitCount n) \<Rightarrow> Some (of_int (max n 0))
      | _ \<Rightarrow> None))"

lemma channelType_bits:
  "(CHANNEL_PARTIAL_RELIABLE_TIMED OR 0x80) AND 0x7F = CHANNEL_PARTIAL_RELIABLE_TIMED"
  "(CHANNEL_PARTIAL_RELIABLE_REXMIT OR 0x80) AND 0x7F = CHANNEL_PARTIAL_RELIABLE_REXMIT"
  "(CHANNEL_RELIABLE OR 0x80) AND 0x7F = CHANNEL_RELIABLE"
  by (simp_all add: dcep_constants)

lemma reliability_roundtrip:
  assumes "reliability_parameters r = Inr (ct, p)" and "rel_maxPacketLifeTime r = None \<or> rel_maxRetransmits r = None"
  shows "effective (reliability_of_open ct p r0) = effective r"
proof (cases "rel_maxPacketLifeTime r")
  case (Some t)
  then show ?thesis
    using assms by (cases "rel_unordered r") (auto simp: reliability_parameters_def bind_result_Inr_iff to_uint32_Inr
        reliability_of_open_def effective_def dcep_constants Let_def uint_word_of_int)
next
  case None
  show ?thesis
  proof (cases "rel_maxRetransmits r")
    case (Some n)
    then show ?thesis
      using None assms by (cases "rel_unordered r") (auto simp: reliability_parameters_def bind_result_Inr_iff to_uint32_Inr reliability_of_open_def
          effective_def dcep_constants Let_def)
  next
    case None': None
    then show ?thesis
      using None assms
      by (cases "rel_typeDeprecated r"; cases "rel_rexmit r"; cases "rel_unordered r")
        (auto simp: reliability_parameters_def bind_result_Inr_iff to_uint32_Inr reliability_of_open_def
          effective_def dcep_constants Let_def uint_word_of_int)
  qed
qed

text \<open>
  Channel establishment (RFC 8832). Whatever open message an outgoing channel builds from its label,
  protocol and reliability, an incoming channel that has a transport and a stream accepts it, takes over
  label and protocol exactly, ends up with the same ordering and partial reliability (given in the
  deprecated form or not), sends exactly one acknowledgement on its stream, and is open.
\<close>

theorem dcep_roundtrip:
  assumes "open_message_bytes r label protocol = Inr b"
    and "rel_maxPacketLifeTime r = None \<or> rel_maxRetransmits r = None"
    and "dc_transport dc" and "dc_stream dc = Some s" and "\<not> dc_isOpen dc" and "\<not> ch_messageCallback dc"
  shows "\<exists>dc'. IncomingDataChannel_processOpenMessage (make_message b Control 0 None None) dc = (Inr (), dc') \<and>
    dc_label dc' = label \<and> dc_protocol dc' = protocol \<and> effective (dc_reliability dc') = effective r \<and>
    dc_isOpen dc' \<and>
    dc_events dc' = dc_events dc @ [EvSend (make_message [MESSAGE_ACK] Control (ucast s) None None), EvOpen]"
proof -
  obtain ct p where p: "reliability_parameters r = Inr (ct, p)" "length label \<le> 65535" "length protocol \<le> 65535"
    using open_message_bytes_Inr [OF assms(1)] by blast
  note b = open_message_bytes_eq [OF p, unfolded assms(1)]
  have "IncomingDataChannel_processOpenMessage (make_message b Control 0 None None) dc =
    (Inr (), openOnce (emit (EvSend (make_message [MESSAGE_ACK] Control (ucast s) None None))
       (dc\<lparr>dc_label := label, dc_protocol := protocol,
          dc_reliability := reliability_of_open ct p (dc_reliability dc)\<rparr>)))"
    using b by (intro process_open_message_bytes [OF p(2,3) assms(3,4)]) simp
  then show ?thesis
    using assms(5,6) reliability_roundtrip [OF p(1) assms(2)]
    by (simp add: openOnce_def triggerOpen_def flushPendingMessages_def flush_loop.simps emit_def)
qed

definition example_channel :: DataChannel where
  "example_channel = \<lparr>dc_kind = Incoming, dc_transport = True, dc_remoteMaxMessageSize = None, dc_stream = Some 5,
     dc_label = [], dc_protocol = [], dc_reliability = Reliability_default, dc_isOpen = False, dc_isClosed = False,
     dc_recvQueue = Queue_init RECV_QUEUE_LIMIT (Some message_size_func), ch_openTriggered = False,
     ch_messageCallback = False, ch_bufferedAmount = 0, ch_bufferedAmountLowThreshold = 0, dc_events = []\<rparr>"

theorem dcep_roundtrip_witness:
  "\<exists>b dc'. open_message_bytes (Reliability_default\<lparr>rel_unordered := True, rel_maxRetransmits := Some 3\<rparr>) ''chat'' ''p'' = Inr b \<and>
    IncomingDataChannel_processOpenMessage (make_message b Control 0 None None) example_channel = (Inr (), dc') \<and>
    dc_label dc' = ''chat'' \<and> dc_isOpen dc'"
proof -
  let ?r = "Reliability_default\<lparr>rel_unordered := True, rel_maxRetransmits := Some 3\<rparr>"
  have "reliability_parameters ?r = Inr (CHANNEL_PARTIAL_RELIABLE_REXMIT OR 0x80, 3)"
    by (simp add: reliability_parameters_def Reliability_default_def to_uint32_def)
  then obtain b where b: "open_message_bytes ?r ''chat'' ''p'' = Inr b"
    using open_message_bytes_eq by fastforce
  then show ?thesis
    using dcep_roundtrip [OF b, of example_channel 5] by (auto simp: example_channel_def Reliability_default_def)
qed

section \<open>The life of a channel\<close>

text \<open>Everything that can happen to a channel: the calls of the peer connection, of the transport and
  of the application, in any order. The transport may go away at any time.\<close>

inductive reachable :: "DataChannel \<Rightarrow> bool" where
  created: "DataChannel_init kind pc label protocol r = Inr dc \<Longrightarrow> reachable dc"
| created_incoming: "DataChannel_init Incoming pc [] [] Reliability_default = Inr dc \<Longrightarrow> reachable (dc\<lparr>dc_transport := True\<rparr>)"
| opened: "reachable dc \<Longrightarrow> channel_open dc = (res, dc') \<Longrightarrow> reachable dc'"
| stream_assigned: "reachable dc \<Longrightarrow> assignStream s dc = (res, dc') \<Longrightarrow> reachable dc'"
| message_in: "reachable dc \<Longrightarrow> DataChannel_incoming m dc = Some (res, dc') \<Longrightarrow> reachable dc'"
| message_out: "reachable dc \<Longrightarrow> DataChannel_outgoing send m dc = (ok, dc') \<Longrightarrow> reachable dc'"
| received: "reachable dc \<Longrightarrow> DataChannel_receive dc = (Some v, dc') \<Longrightarrow> reachable (emit (EvReceived v) dc')"
| closing: "reachable dc \<Longrightarrow> reachable (DataChannel_close dc)"
| callback_set: "reachable dc \<Longrightarrow> reachable (onMessage b dc)"
| callbacks_reset: "reachable dc \<Longrightarrow> reachable (resetCallbacks dc)"
| open_callback_reset: "reachable dc \<Longrightarrow> reachable (resetOpenCallback dc)"
| buffered: "reachable dc \<Longrightarrow> reachable (triggerBufferedAmount n dc)"
| threshold_set: "reachable dc \<Longrightarrow> reachable (setBufferedAmountLowThreshold n dc)"
| transport_gone: "reachable dc \<Longrightarrow> reachable (dc\<lparr>dc_transport := False\<rparr>)"

fun delivered :: "event list \<Rightarrow> message_variant list" where
  "delivered [] = []"
| "delivered (EvMessage v # es) = v # delivered es"
| "delivered (EvReceived v # es) = v # delivered es"
| "delivered (e # es) = delivered es"

fun queued :: "event list \<Rightarrow> Message list" where
  "queued [] = []"
| "queued (EvQueued m # es) = m # queued es"
| "queued (e # es) = queued es"

fun messages_after_open :: "bool \<Rightarrow> event list \<Rightarrow> bool" where
  "messages_after_open b [] \<longleftrightarrow> True"
| "messages_after_open b (EvOpen # es) \<longleftrightarrow> messages_after_open True es"
| "messages_after_open b (EvMessage v # es) \<longleftrightarrow> b \<and> messages_after_open b es"
| "messages_after_open b (e # es) \<longleftrightarrow> messages_after_open b es"

lemma delivered_append [simp]: "delivered (xs @ ys) = delivered xs @ delivered ys"
  by (induction xs rule: delivered.induct) auto

lemma queued_append [simp]: "queued (xs @ ys) = queued xs @ queued ys"
  by (induction xs rule: queued.induct) auto

lemma messages_after_open_append [simp]:
  "messages_after_open b (xs @ ys) \<longleftrightarrow> messages_after_open b xs \<and> messages_after_open (b \<or> EvOpen \<in> set xs) ys"
  by (induction b xs rule: messages_after_open.induct) auto

definition dc_inv :: "DataChannel \<Rightarrow> bool" where
  "dc_inv dc \<longleftrightarrow>
     count_list (dc_events dc) EvOpen = of_bool (dc_isOpen dc) \<and>
     count_list (dc_events dc) EvClosed = of_bool (dc_isClosed dc) \<and>
     (ch_openTriggered dc \<longrightarrow> dc_isOpen dc) \<and>
     messages_after_open False (dc_events dc) \<and>
     delivered (dc_events dc) @ map to_variant (mQueue (dc_recvQueue dc)) = map to_variant (queued (dc_events dc)) \<and>
     \<not> mStopping (dc_recvQueue dc) \<and> Queue_inv (dc_recvQueue dc) \<and> mLimit (dc_recvQueue dc) = RECV_QUEUE_LIMIT"

lemma open_in_events: "dc_inv dc \<Longrightarrow> EvOpen \<in> set (dc_events dc) \<longleftrightarrow> dc_isOpen dc"
  using count_notin [of EvOpen "dc_events dc"] count_list_0_iff [of "dc_events dc" EvOpen] by (auto simp: dc_inv_def)

lemma dc_inv_init: "DataChannel_init kind pc label protocol r = Inr dc \<Longrightarrow> dc_inv dc"
  by (auto simp: DataChannel_init_def dc_inv_def Queue_init_def Queue_inv_def split: if_splits)

text \<open>Fields the invariant does not mention.\<close>

lemma dc_inv_frame [simp]:
  "dc_inv (dc\<lparr>dc_transport := t\<rparr>) = dc_inv dc"
  "dc_inv (dc\<lparr>dc_stream := st\<rparr>) = dc_inv dc"
  "dc_inv (dc\<lparr>dc_label := l\<rparr>) = dc_inv dc"
  "dc_inv (dc\<lparr>dc_protocol := pr\<rparr>) = dc_inv dc"
  "dc_inv (dc\<lparr>dc_reliability := r\<rparr>) = dc_inv dc"
  "dc_inv (dc\<lparr>ch_messageCallback := cb\<rparr>) = dc_inv dc"
  "dc_inv (dc\<lparr>ch_bufferedAmount := n\<rparr>) = dc_inv dc"
  "dc_inv (dc\<lparr>ch_bufferedAmountLowThreshold := n\<rparr>) = dc_inv dc"
  by (simp_all add: dc_inv_def)

fun silent :: "event \<Rightarrow> bool" where
  "silent EvOpen = False"
| "silent EvClosed = False"
| "silent (EvMessage v) = False"
| "silent (EvReceived v) = False"
| "silent (EvQueued m) = False"
| "silent _ = True"

lemma dc_inv_emit_silent [simp]: "silent e \<Longrightarrow> dc_inv (emit e dc) = dc_inv dc"
  by (cases e) (auto simp: dc_inv_def emit_def)

lemma dc_inv_receive:
  assumes "dc_inv dc" and "DataChannel_receive dc = (Some v, dc')"
  shows "dc_inv (emit (EvReceived v) dc')" and "dc_isOpen dc \<Longrightarrow> dc_inv (emit (EvMessage v) dc')"
    and "dc_isOpen dc' = dc_isOpen dc"
  using assms open_in_events [OF assms(1)]
  by (auto simp: dc_inv_def DataChannel_receive_def Queue_pop_def emit_def Queue_inv_def split: list.splits)

lemma flush_loop_inv: "dc_inv dc \<Longrightarrow> dc_isOpen dc \<Longrightarrow> dc_inv (flush_loop dc)"
proof (induction dc rule: flush_loop.induct)
  case (1 dc)
  obtain v dc' where r: "DataChannel_receive dc = (v, dc')" by (cases "DataChannel_receive dc")
  show ?case
  proof (cases v)
    case None
    then have "dc' = dc" using r by (auto simp: DataChannel_receive_def Queue_pop_def split: list.splits)
    then show ?thesis using 1 None r by (simp add: flush_loop.simps [of dc])
  next
    case (Some x)
    then have "dc_inv (emit (EvMessage x) dc')" "dc_isOpen (emit (EvMessage x) dc')"
      using dc_inv_receive [OF "1.prems"(1), of x dc'] r "1.prems" by (simp_all add: emit_def)
    then show ?thesis using 1 Some r by (simp add: flush_loop.simps [of dc])
  qed
qed

lemma flushPendingMessages_inv: "dc_inv dc \<Longrightarrow> dc_inv (flushPendingMessages dc)"
  by (auto simp: flushPendingMessages_def dc_inv_def [of dc] intro!: flush_loop_inv)

lemma openOnce_inv: "dc_inv dc \<Longrightarrow> dc_inv (openOnce dc)"
proof -
  assume inv: "dc_inv dc"
  show ?thesis
  proof (cases "dc_isOpen dc")
    case True
    then show ?thesis using inv by (simp add: openOnce_def dc_inv_def)
  next
    case False
    then have "dc_inv (emit EvOpen (dc\<lparr>dc_isOpen := True, ch_openTriggered := True\<rparr>))"
      using inv by (auto simp: dc_inv_def emit_def)
    then show ?thesis using False flushPendingMessages_inv by (simp add: openOnce_def triggerOpen_def)
  qed
qed

lemma close_inv: "dc_inv dc \<Longrightarrow> dc_inv (DataChannel_close dc)"
  by (auto simp: DataChannel_close_def dc_inv_def resetCallbacks_def triggerClosed_def emit_def Let_def
      split: option.splits)

lemma processOpenMessage_inv: "dc_inv dc \<Longrightarrow> processOpenMessage m dc = (res, dc') \<Longrightarrow> dc_inv dc'"
  by (auto simp: processOpenMessage_def IncomingDataChannel_processOpenMessage_def Let_def
      split: ChannelKind.splits option.splits if_splits intro!: openOnce_inv)

lemma push_inv:
  assumes "dc_inv dc" and "Queue_push m (dc_recvQueue dc) = Some q"
  shows "dc_inv (emit (EvQueued m) (dc\<lparr>dc_recvQueue := q\<rparr>))"
proof -
  have "mQueue q = mQueue (dc_recvQueue dc) @ [m] \<and> \<not> mStopping q"
    using assms queue.put_accepting [of "dc_recvQueue dc" m q] unfolding dc_inv_def by blast
  moreover have "Queue_inv q" using assms Queue_inv_push by (auto simp: dc_inv_def)
  moreover have "mLimit q = mLimit (dc_recvQueue dc)" using assms(2) by (auto simp: Queue_push_def split: if_splits)
  ultimately show ?thesis using assms by (auto simp: dc_inv_def emit_def simp flip: append_assoc)
qed

lemma incoming_inv:
  assumes "dc_inv dc" and "DataChannel_incoming m dc = Some (res, dc')"
  shows "dc_inv dc'"
  using assms
  by (auto simp: DataChannel_incoming_def Let_def remoteClose_def triggerAvailable_def
      split: option.splits if_splits MessageType.splits
      intro!: flushPendingMessages_inv openOnce_inv close_inv push_inv dest: processOpenMessage_inv)

lemma reachable_inv: "reachable dc \<Longrightarrow> dc_inv dc"
proof (induction rule: reachable.induct)
  case (opened dc res dc')
  then show ?case
    by (auto simp: channel_open_def DataChannel_open_def OutgoingDataChannel_open_def IncomingDataChannel_open_def Let_def
        split: ChannelKind.splits option.splits sum.splits if_splits intro!: openOnce_inv)
next
  case (message_out dc send m ok dc')
  then show ?case by (auto simp: DataChannel_outgoing_def Let_def split: if_splits option.splits)
next
  case (buffered dc n)
  then show ?case by (simp add: triggerBufferedAmount_def Let_def)
qed (auto simp: assignStream_def onMessage_def resetCallbacks_def resetOpenCallback_def setBufferedAmountLowThreshold_def
    dest: dc_inv_init incoming_inv dc_inv_receive(1) intro: close_inv flushPendingMessages_inv
    split: if_splits; simp add: dc_inv_def)+



end
