(* ===== verification/QuicChannels.thy ===== *)
theory QuicChannels
  imports Quic DataChannels
begin

text \<open>
  Data channels over QUIC: \<open>src/impl/quicdatachannel.hpp\<close>, \<open>src/impl/quicdatachannel.cpp\<close>. The class
  derives from \<open>DataChannel\<close> and declares members with the names of members it inherits (\<open>mStream\<close>,
  \<open>mLabel\<close>, \<open>mProtocol\<close>, \<open>mReliability\<close>, \<open>mIsOpen\<close>, \<open>mIsClosed\<close>, \<open>mRecvQueue\<close>). Both exist in
  an object: the record has the inherited part as the field \<open>qdc_base\<close> and the new members beside it, and
  every operation uses the members its own class sees. The transport is passed along where an operation
  calls it; \<open>qdc_transport\<close> tells whether \<open>mQuicTransport\<close> can be locked.
\<close>

section \<open>The channel\<close>

record QuicDataChannel =
  qdc_kind :: ChannelKind
  qdc_base :: DataChannel
  qdc_transport :: bool
  qdc_stream :: "u16 option"
  qdc_label :: string
  qdc_protocol :: string
  qdc_reliability :: "Reliability option"
  qdc_isOpen :: bool
  qdc_isClosed :: bool
  qdc_recvQueue :: "Message Queue"

definition QuicDataChannel_init ::
  "ChannelKind \<Rightarrow> nat option \<Rightarrow> string \<Rightarrow> string \<Rightarrow> Reliability \<Rightarrow> QuicDataChannel result" where
  "QuicDataChannel_init kind pc label protocol reliability =
     bind_result (DataChannel_init kind pc label protocol reliability) (\<lambda>base.
       Inr \<lparr>qdc_kind = kind, qdc_base = base, qdc_transport = False, qdc_stream = None, qdc_label = [],
            qdc_protocol = [], qdc_reliability = None, qdc_isOpen = False, qdc_isClosed = False,
            qdc_recvQueue = Queue_init 0 None\<rparr>)"

definition IncomingQuicDataChannel_init :: "nat option \<Rightarrow> QuicDataChannel result" where
  "IncomingQuicDataChannel_init pc =
     bind_result (QuicDataChannel_init Incoming pc [] [] Reliability_default) (\<lambda>c. Inr (c\<lparr>qdc_transport := True\<rparr>))"

definition QuicDataChannel_IsOpenMessage :: "Message option \<Rightarrow> bool" where
  "QuicDataChannel_IsOpenMessage message = (case message of None \<Rightarrow> False | Some m \<Rightarrow> length (msg_data m) > 0)"

definition QuicDataChannel_close ::
  "QuicDataChannel \<Rightarrow> QuicTransport \<Rightarrow> (QuicDataChannel \<times> QuicTransport) result" where
  "QuicDataChannel_close c t =
     (if \<not> qdc_isClosed c then
        let c = c\<lparr>qdc_isClosed := True, qdc_isOpen := False\<rparr>
        in (case qdc_stream c of
              Some s \<Rightarrow> if qdc_transport c then bind_result (closeStream (ucast s) t) (\<lambda>t. Inr (c, t)) else Inr (c, t)
            | None \<Rightarrow> Inr (c, t))
      else Inr (c, t))"

definition QuicDataChannel_remoteClose :: "QuicDataChannel \<Rightarrow> QuicDataChannel" where
  "QuicDataChannel_remoteClose c =
     (if \<not> qdc_isClosed c then c\<lparr>qdc_isClosed := True, qdc_isOpen := False\<rparr> else c)"

definition QuicDataChannel_outgoing ::
  "Message \<Rightarrow> QuicDataChannel \<Rightarrow> QuicTransport \<Rightarrow> bool \<times> QuicTransport" where
  "QuicDataChannel_outgoing message c t =
     (if \<not> qdc_isOpen c \<or> qdc_isClosed c then (False, t)
      else if qdc_transport c then QuicTransport_send message t else (False, t))"

definition QuicDataChannel_incoming :: "Message option \<Rightarrow> QuicDataChannel \<Rightarrow> QuicDataChannel option" where
  "QuicDataChannel_incoming message c =
     (case message of
        None \<Rightarrow> Some c
      | Some m \<Rightarrow>
          if \<not> qdc_isClosed c
          then map_option (\<lambda>q. c\<lparr>qdc_recvQueue := q\<rparr>) (Queue_push m (qdc_recvQueue c)) else Some c)"

definition quic_variant :: "Message \<Rightarrow> message_variant" where
  "quic_variant m = (if msg_type m = String then VString (bytes_string (msg_data m)) else VBinary (msg_data m))"

definition QuicDataChannel_receive :: "QuicDataChannel \<Rightarrow> message_variant option \<times> QuicDataChannel" where
  "QuicDataChannel_receive c =
     (case Queue_pop (qdc_recvQueue c) of (m, q) \<Rightarrow> (map_option quic_variant m, c\<lparr>qdc_recvQueue := q\<rparr>))"

definition QuicDataChannel_peek :: "QuicDataChannel \<Rightarrow> message_variant option" where
  "QuicDataChannel_peek c = map_option quic_variant (Queue_peek (qdc_recvQueue c))"

definition QuicDataChannel_availableAmount :: "QuicDataChannel \<Rightarrow> nat" where
  "QuicDataChannel_availableAmount c = Queue_size (qdc_recvQueue c)"

text \<open>The accessors call those of the base class, which see the inherited members.\<close>

definition QuicDataChannel_stream :: "QuicDataChannel \<Rightarrow> u16 option" where
  "QuicDataChannel_stream c = dc_stream (qdc_base c)"

definition QuicDataChannel_label :: "QuicDataChannel \<Rightarrow> string" where
  "QuicDataChannel_label c = dc_label (qdc_base c)"

definition QuicDataChannel_protocol :: "QuicDataChannel \<Rightarrow> string" where
  "QuicDataChannel_protocol c = dc_protocol (qdc_base c)"

definition QuicDataChannel_isOpen :: "QuicDataChannel \<Rightarrow> bool" where
  "QuicDataChannel_isOpen c = DataChannel_isOpen (qdc_base c)"

definition QuicDataChannel_isClosed :: "QuicDataChannel \<Rightarrow> bool" where
  "QuicDataChannel_isClosed c = dc_isClosed (qdc_base c)"

definition QuicDataChannel_assignStream :: "u16 \<Rightarrow> QuicDataChannel \<Rightarrow> QuicDataChannel" where
  "QuicDataChannel_assignStream stream c = c\<lparr>qdc_stream := Some stream\<rparr>"

section \<open>Opening\<close>

text \<open>The argument of \<open>open\<close> is a pointer: \<open>None\<close> when null.\<close>

definition QuicDataChannel_open :: "QuicTransport option \<Rightarrow> QuicDataChannel \<Rightarrow> QuicDataChannel" where
  "QuicDataChannel_open transport c =
     c\<lparr>qdc_transport := transport \<noteq> None, qdc_isOpen := True, qdc_isClosed := False\<rparr>"

definition open_prefix :: string where
  "open_prefix = ''QUIC_DATA_CHANNEL_OPEN:''"

definition OutgoingQuicDataChannel_open ::
  "QuicTransport option \<Rightarrow> QuicDataChannel \<Rightarrow> QuicDataChannel \<times> QuicTransport option" where
  "OutgoingQuicDataChannel_open transport c =
     (let c = QuicDataChannel_open transport c
      in (c, map_option
               (\<lambda>t. let openMsg = open_prefix @ qdc_label c @ '':'' @ qdc_protocol c
                    in snd (QuicTransport_send (make_message (string_bytes openMsg) String 0 None None) t))
               transport))"

fun find_sub :: "string \<Rightarrow> string \<Rightarrow> nat option" where
  "find_sub pat [] = (if pat = [] then Some 0 else None)"
| "find_sub pat (c # s) = (if take (length pat) (c # s) = pat then Some 0 else map_option Suc (find_sub pat s))"

definition IncomingQuicDataChannel_processOpenMessage ::
  "Message option \<Rightarrow> QuicTransport \<Rightarrow> QuicDataChannel \<Rightarrow> QuicDataChannel" where
  "IncomingQuicDataChannel_processOpenMessage message t c =
     (if QuicDataChannel_IsOpenMessage message then
        let data = bytes_string (msg_data (the message));
            c = (case find_sub open_prefix data of
                   None \<Rightarrow> c
                 | Some pos \<Rightarrow>
                     let remaining = drop (pos + 23) data
                     in (case find_sub '':'' remaining of
                           None \<Rightarrow> c
                         | Some colonPos \<Rightarrow>
                             c\<lparr>qdc_label := take colonPos remaining, qdc_protocol := drop (colonPos + 1) remaining\<rparr>))
        in if qdc_transport c then QuicDataChannel_open (Some t) c else c
      else c)"

definition QuicDataChannel_processOpenMessage ::
  "Message option \<Rightarrow> QuicTransport \<Rightarrow> QuicDataChannel \<Rightarrow> QuicDataChannel" where
  "QuicDataChannel_processOpenMessage message t c =
     (if QuicDataChannel_IsOpenMessage message
      then QuicDataChannel_open (if qdc_transport c then Some t else None) c else c)"

definition channel_processOpenMessage ::
  "Message option \<Rightarrow> QuicTransport \<Rightarrow> QuicDataChannel \<Rightarrow> QuicDataChannel" where
  "channel_processOpenMessage message t c =
     (case qdc_kind c of
        Incoming \<Rightarrow> IncomingQuicDataChannel_processOpenMessage message t c
      | Outgoing \<Rightarrow> c
      | Negotiated \<Rightarrow> QuicDataChannel_processOpenMessage message t c)"

section \<open>Parsing the open message\<close>

lemma find_sub_prefix: "find_sub pat (pat @ s) = Some 0"
proof (cases "pat @ s")
  case (Cons c r)
  then have "take (length pat) (c # r) = pat" by (metis append_eq_conv_conj)
  then show ?thesis using Cons by simp
qed simp

lemma find_sub_char: "c \<notin> set s \<Longrightarrow> find_sub [c] (s @ c # r) = Some (length s)"
  by (induction s) auto

text \<open>
  An incoming QUIC channel with a transport that gets an open message "QUIC_DATA_CHANNEL_OPEN:label:protocol"
  extracts exactly label and protocol, for every label without a colon, and opens its own state. The accessors
  \<open>label()\<close>, \<open>protocol()\<close> and \<open>isOpen()\<close> do not see any of this: they read the inherited members of the same name,
  which stay empty and closed.
\<close>

theorem quic_channel_parses_open_message:
  fixes t :: QuicTransport
  assumes "CHR '':'' \<notin> set label" and "qdc_transport c"
    and "msg_data m = string_bytes (open_prefix @ label @ '':'' @ protocol)"
  defines "c' \<equiv> IncomingQuicDataChannel_processOpenMessage (Some m) t c"
  shows "qdc_label c' = label \<and> qdc_protocol c' = protocol \<and> qdc_isOpen c' \<and> qdc_base c' = qdc_base c \<and>
    QuicDataChannel_label c' = QuicDataChannel_label c \<and> QuicDataChannel_isOpen c' = QuicDataChannel_isOpen c"
proof -
  let ?data = "open_prefix @ label @ CHR '':'' # protocol"
  have "length open_prefix = 23" by (simp add: open_prefix_def)
  then have rest: "drop (0 + 23) ?data = label @ CHR '':'' # protocol" by simp
  have data: "bytes_string (msg_data m) = ?data" using assms(3) by simp
  have "QuicDataChannel_IsOpenMessage (Some m)"
    using assms(3) by (simp add: QuicDataChannel_IsOpenMessage_def)
  then show ?thesis
    using find_sub_prefix [of open_prefix "label @ CHR '':'' # protocol"] find_sub_char [OF assms(1), of protocol] assms(2)
    unfolding c'_def IncomingQuicDataChannel_processOpenMessage_def option.sel data
    by (simp add: rest [simplified] Let_def QuicDataChannel_open_def QuicDataChannel_label_def QuicDataChannel_isOpen_def)
qed

definition example_quic_channel :: QuicDataChannel where
  "example_quic_channel = \<lparr>qdc_kind = Incoming, qdc_base = example_channel, qdc_transport = True, qdc_stream = None,
     qdc_label = [], qdc_protocol = [], qdc_reliability = None, qdc_isOpen = False, qdc_isClosed = False,
     qdc_recvQueue = Queue_init 0 None\<rparr>"

theorem quic_channel_parses_open_message_witness:
  "qdc_label (IncomingQuicDataChannel_processOpenMessage
      (Some (make_message (string_bytes ''QUIC_DATA_CHANNEL_OPEN:chat:p'') String 0 None None)) example_transport example_quic_channel) = ''chat''"
  using quic_channel_parses_open_message [of "''chat''" example_quic_channel
      "make_message (string_bytes ''QUIC_DATA_CHANNEL_OPEN:chat:p'') String 0 None None" "''p''" example_transport]
  by (simp add: example_quic_channel_def open_prefix_def)

text \<open>
  An outgoing QUIC channel never announces its label and protocol: whatever it was created with, the message its
  \<open>open\<close> puts into the send queue of a connected transport is "QUIC_DATA_CHANNEL_OPEN::", because \<open>open\<close> reads the
  members of the derived class, which the constructor leaves empty; and although the channel then accepts messages,
  \<open>isOpen()\<close> is still false.
\<close>

theorem quic_channel_open_message_is_empty:
  assumes "QuicDataChannel_init Outgoing pc label protocol r = Inr c"
    and "fst (qt_state t) = Connected" and "Queue_push m (qt_sendQueue t) = Some q"
    and "m = make_message (string_bytes ''QUIC_DATA_CHANNEL_OPEN::'') String 0 None None"
    and "OutgoingQuicDataChannel_open (Some t) c = (c', t')"
  shows "t' = Some (enqueueFlush (t\<lparr>qt_sendQueue := q\<rparr>)) \<and> QuicDataChannel_label c' = label \<and>
    \<not> QuicDataChannel_isOpen c' \<and> qdc_isOpen c'"
proof -
  have c: "qdc_label c = []" "qdc_protocol c = []" "dc_label (qdc_base c) = label" "\<not> dc_isOpen (qdc_base c)"
    using assms(1) by (auto simp: QuicDataChannel_init_def bind_result_Inr_iff DataChannel_init_def split: if_splits)
  show ?thesis
    using assms(2-5) c
    unfolding OutgoingQuicDataChannel_open_def Let_def
    by (auto simp: open_prefix_def QuicTransport_send_def QuicDataChannel_open_def QuicDataChannel_label_def
        QuicDataChannel_isOpen_def DataChannel_isOpen_def)
qed

theorem quic_channel_open_message_is_empty_witness:
  "\<exists>c c' t'. QuicDataChannel_init Outgoing None ''chat'' ''p'' Reliability_default = Inr c \<and>
     OutgoingQuicDataChannel_open (Some example_transport) c = (c', t') \<and> \<not> QuicDataChannel_isOpen c'"
proof -
  let ?m = "make_message (string_bytes ''QUIC_DATA_CHANNEL_OPEN::'') String 0 None None"
  obtain c where c: "QuicDataChannel_init Outgoing None ''chat'' ''p'' Reliability_default = Inr c"
    by (simp add: QuicDataChannel_init_def DataChannel_init_def Reliability_default_def)
  obtain q where q: "Queue_push ?m (qt_sendQueue example_transport) = Some q"
    by (simp add: Queue_push_def example_transport_def Queue_init_def)
  obtain c' t' where o': "OutgoingQuicDataChannel_open (Some example_transport) c = (c', t')"
    by (cases "OutgoingQuicDataChannel_open (Some example_transport) c")
  show ?thesis
    using quic_channel_open_message_is_empty [OF c _ q refl o'] c o' by (auto simp: example_transport_def)
qed

end
