(* ===== verification/Utils.thy ===== *)
theory Utils
  imports Messages
begin

text \<open>
  String utilities and the HTTP parser: \<open>src/impl/utils.cpp\<close>, \<open>src/impl/http.cpp\<close>. Strings are lists of
  characters. The functions of the standard library that the code uses are written out: \<open>std::getline\<close> with a
  delimiter inside \<open>explode\<close>, extraction of words and numbers from a stream, \<open>std::tolower\<close> in the C locale.
\<close>

section \<open>Characters and numbers\<close>

abbreviation (input) CR :: char where "CR \<equiv> CHR 0x0D"
abbreviation (input) LF :: char where "LF \<equiv> CHR 0x0A"

definition tolower :: "char \<Rightarrow> char" where
  "tolower c = (let n = of_char c :: nat in if 65 \<le> n \<and> n \<le> 90 then char_of (n + 32) else c)"

definition isspace :: "char \<Rightarrow> bool" where
  "isspace c \<longleftrightarrow> (let n = of_char c :: nat in n = 32 \<or> (9 \<le> n \<and> n \<le> 13))"

definition isdigit :: "char \<Rightarrow> bool" where
  "isdigit c \<longleftrightarrow> (let n = of_char c :: nat in 48 \<le> n \<and> n \<le> 57)"

fun nat_string :: "nat \<Rightarrow> string" where
  "nat_string n = (if n < 10 then [char_of (48 + n)] else nat_string (n div 10) @ [char_of (48 + n mod 10)])"

declare nat_string.simps [simp del]

definition to_string :: "int \<Rightarrow> string" where
  "to_string i = (if i < 0 then CHR ''-'' # nat_string (nat (- i)) else nat_string (nat i))"

text \<open>\<open>stream >> word\<close>: skip white space, then take what is not white space; empty at the end of the stream.\<close>

definition extract_word :: "string \<Rightarrow> string \<times> string" where
  "extract_word s = (let s = dropWhile isspace s in (takeWhile (\<lambda>c. \<not> isspace c) s, dropWhile (\<lambda>c. \<not> isspace c) s))"

definition digits_value :: "string \<Rightarrow> nat" where
  "digits_value s = foldl (\<lambda>n c. n * 10 + (of_char c - 48)) 0 s"

text \<open>\<open>stream >> number\<close> for an unsigned int: 0 without digits, the largest value on overflow, negation modulo
  \<open>2 ^ 32\<close> behind a minus sign.\<close>

definition extract_uint :: "string \<Rightarrow> u32" where
  "extract_uint s =
     (let s = dropWhile isspace s;
          negative = (s \<noteq> [] \<and> hd s = CHR ''-'');
          s = (if s \<noteq> [] \<and> (hd s = CHR ''-'' \<or> hd s = CHR ''+'') then tl s else s);
          ds = takeWhile isdigit s; n = digits_value ds
      in if ds = [] then 0 else if n > 4294967295 then 4294967295
         else if negative then - of_nat n else of_nat n)"

section \<open>Lists of tokens\<close>

function explode :: "string \<Rightarrow> char \<Rightarrow> string list" where
  "explode str delim =
     (if str = [] then []
      else takeWhile (\<lambda>c. c \<noteq> delim) str # explode (drop 1 (dropWhile (\<lambda>c. c \<noteq> delim) str)) delim)"
  by auto
termination
proof (relation "measure (\<lambda>(str, delim). length str)", goal_cases)
  case (2 str delim)
  then show ?case using length_dropWhile_le [of "\<lambda>c. c \<noteq> delim" str] by (cases str) auto
qed simp

declare explode.simps [simp del]

definition implode :: "string list \<Rightarrow> char \<Rightarrow> string" where
  "implode tokens delim = (let result = concat (map (\<lambda>t. t @ [delim]) tokens) in butlast result)"

section \<open>URL decoding\<close>

definition isxdigit :: "char \<Rightarrow> bool" where
  "isxdigit c \<longleftrightarrow> isdigit c \<or> (let n = of_char c :: nat in (65 \<le> n \<and> n \<le> 70) \<or> (97 \<le> n \<and> n \<le> 102))"

definition hex_value :: "char \<Rightarrow> nat" where
  "hex_value c = (let n = of_char c in if n \<le> 57 then n - 48 else if n \<le> 70 then n - 55 else n - 87)"

fun url_decode :: "string \<Rightarrow> string" where
  "url_decode [] = []"
| "url_decode (c # str) =
     (if c = CHR ''%'' then
        case str of
          h # l # rest \<Rightarrow>
            if isxdigit h \<and> isxdigit l then char_of (16 * hex_value h + hex_value l) # url_decode rest
            else c # url_decode str
        | _ \<Rightarrow> c # url_decode str
      else c # url_decode str)"

section \<open>Base64\<close>

definition base64_tab :: string where
  "base64_tab = ''ABCDEFGHIJKLMNOPQRSTUVWXYZabcdefghijklmnopqrstuvwxyz0123456789+/''"

fun base64_encode :: "binary \<Rightarrow> string" where
  "base64_encode (d0 # d1 # d2 # data) =
     base64_tab ! unat (drop_bit 2 d0) #
     base64_tab ! unat (push_bit 4 (d0 AND 3) OR drop_bit 4 d1) #
     base64_tab ! unat (push_bit 2 (d1 AND 0x0F) OR drop_bit 6 d2) #
     base64_tab ! unat (d2 AND 0x3F) # base64_encode data"
| "base64_encode [d0] =
     [base64_tab ! unat (drop_bit 2 d0), base64_tab ! unat (push_bit 4 (d0 AND 3)), CHR ''='', CHR ''='']"
| "base64_encode [d0, d1] =
     [base64_tab ! unat (drop_bit 2 d0), base64_tab ! unat (push_bit 4 (d0 AND 3) OR drop_bit 4 d1),
      base64_tab ! unat (push_bit 2 (d1 AND 0x0F)), CHR ''='']"
| "base64_encode [] = []"

section \<open>HTTP\<close>

text \<open>A \<open>char\<close> is signed: bytes from 128 on are below \<open>'A'\<close>.\<close>

fun httpMethod_loop :: "nat \<Rightarrow> string \<Rightarrow> bool" where
  "httpMethod_loop i [] = True"
| "httpMethod_loop i (c # s) =
     (if i > 0 \<and> c = CHR '' '' then True
      else if i \<ge> 8 \<or> \<not> (65 \<le> (of_char c :: nat) \<and> (of_char c :: nat) \<le> 90) then False
      else httpMethod_loop (i + 1) s)"

definition isHttpRequest :: "string \<Rightarrow> bool" where
  "isHttpRequest buffer = httpMethod_loop 0 buffer"

text \<open>\<open>None\<close> stands for the length 0: no empty line yet.\<close>

function parseHttpLines :: "string \<Rightarrow> (nat \<times> string list) option" where
  "parseHttpLines buffer =
     (let raw = takeWhile (\<lambda>c. c \<noteq> LF) buffer
      in if length raw = length buffer then None
         else let line = (if raw \<noteq> [] \<and> last raw = CR then butlast raw else raw)
              in if line = [] then Some (Suc (length raw), [])
                 else case parseHttpLines (drop (Suc (length raw)) buffer) of
                        None \<Rightarrow> None
                      | Some (n, lines) \<Rightarrow> Some (Suc (length raw) + n, line # lines))"
  by auto
termination
proof (relation "measure length", goal_cases)
  case (2 buffer raw line)
  then show ?case by (cases buffer) auto
qed simp

declare parseHttpLines.simps [simp del]

definition parseHttpHeader :: "string \<Rightarrow> string \<times> string" where
  "parseHttpHeader line =
     (if CHR '':'' \<in> set line
      then (map tolower (takeWhile (\<lambda>c. c \<noteq> CHR '':'') line),
            dropWhile (\<lambda>c. c = CHR '' '') (drop 1 (dropWhile (\<lambda>c. c \<noteq> CHR '':'') line)))
      else (line, ''''))"

text \<open>The multimap in the order of insertion; \<open>find\<close> gives the first entry of a key.\<close>

definition parseHttpHeaders :: "string list \<Rightarrow> (string \<times> string) list" where
  "parseHttpHeaders lines = map parseHttpHeader lines"

section \<open>Base64 is reversible\<close>

text \<open>A decoder, written from the format and not from the encoder: the position of a character in the table
  gives its six bits.\<close>

fun index_of :: "'a \<Rightarrow> 'a list \<Rightarrow> nat" where
  "index_of x [] = 0"
| "index_of x (y # ys) = (if x = y then 0 else Suc (index_of x ys))"

definition base64_value :: "char \<Rightarrow> u8" where
  "base64_value c = of_nat (index_of c base64_tab)"

fun base64_decode :: "string \<Rightarrow> binary" where
  "base64_decode (a # b # c # d # s) =
     (let v = base64_value
      in if c = CHR ''='' then [push_bit 2 (v a) OR drop_bit 4 (v b)]
         else if d = CHR ''='' then [push_bit 2 (v a) OR drop_bit 4 (v b), push_bit 4 (v b) OR drop_bit 2 (v c)]
         else (push_bit 2 (v a) OR drop_bit 4 (v b)) # (push_bit 4 (v b) OR drop_bit 2 (v c)) #
              (push_bit 6 (v c) OR v d) # base64_decode s)"
| "base64_decode _ = []"

lemma distinct_base64_tab: "distinct base64_tab" "length base64_tab = 64" "CHR ''='' \<notin> set base64_tab"
  by code_simp+

lemma index_of_nth: "distinct xs \<Longrightarrow> i < length xs \<Longrightarrow> index_of (xs ! i) xs = i"
  by (induction xs arbitrary: i) (auto simp: nth_Cons split: nat.splits)

lemma base64_char:
  assumes "w < (64 :: u8)"
  shows "base64_value (base64_tab ! unat w) = w" and "base64_tab ! unat w \<noteq> CHR ''=''" and "base64_tab ! unat w \<in> set base64_tab"
proof -
  have u: "unat w < length base64_tab" using assms by (simp add: distinct_base64_tab word_less_nat_alt)
  then show "base64_value (base64_tab ! unat w) = w"
    by (simp add: base64_value_def index_of_nth distinct_base64_tab)
  show m: "base64_tab ! unat w \<in> set base64_tab" using u by simp
  show "base64_tab ! unat w \<noteq> CHR ''=''"
    using m distinct_base64_tab(3) by metis
qed

lemma less_64I: "w AND 63 = w \<Longrightarrow> w < (64 :: u8)"
  using and_mask_less_size [of 6 w] by (simp add: mask_eq_exp_minus_1 word_size)

lemma base64_indices:
  "drop_bit 2 (d :: u8) < 64" "push_bit 4 (d AND 3) OR drop_bit 4 e < (64 :: u8)"
  "push_bit 2 (d AND 0x0F) OR drop_bit 6 e < (64 :: u8)" "d AND 0x3F < (64 :: u8)"
  "push_bit 4 (d AND 3) < (64 :: u8)" "push_bit 2 (d AND 0x0F) < (64 :: u8)"
  by (rule less_64I, simp add: u8_bits)+

lemmas base64_chars = base64_char [OF base64_indices(1)] base64_char [OF base64_indices(2)] base64_char [OF base64_indices(3)]
  base64_char [OF base64_indices(4)] base64_char [OF base64_indices(5)] base64_char [OF base64_indices(6)]

lemma base64_bytes:
  fixes d0 d1 d2 :: u8
  shows "push_bit 2 (drop_bit 2 d0) OR drop_bit 4 (push_bit 4 (d0 AND 3) OR drop_bit 4 d1) = d0"
    "push_bit 2 (drop_bit 2 d0) OR drop_bit 4 (push_bit 4 (d0 AND 3)) = d0"
    "push_bit 4 (push_bit 4 (d0 AND 3) OR drop_bit 4 d1) OR drop_bit 2 (push_bit 2 (d1 AND 0x0F) OR drop_bit 6 d2) = d1"
    "push_bit 4 (push_bit 4 (d0 AND 3) OR drop_bit 4 d1) OR drop_bit 2 (push_bit 2 (d1 AND 0x0F)) = d1"
    "push_bit 6 (push_bit 2 (d1 AND 0x0F) OR drop_bit 6 d2) OR (d2 AND 0x3F) = d2"
  by (simp_all add: u8_bits) (simp_all add: numeral_2_eq_2 numeral_3_eq_3)

lemma base64_set: "set (base64_encode data) \<subseteq> set base64_tab \<union> {CHR ''=''}"
  by (induction data rule: base64_encode.induct)
    (simp_all only: base64_encode.simps list.set base64_chars insert_subset empty_subsetI Un_iff singletonI simp_thms)

text \<open>\<open>base64_encode\<close> loses nothing: decoding its result with the reference decoder gives the bytes back,
  for every input and hence for every padding. The result has four characters for every three bytes begun and
  consists of the 64 characters of the table and the padding character only.\<close>

theorem base64_roundtrip:
  "base64_decode (base64_encode data) = data \<and> length (base64_encode data) = (length data + 2) div 3 * 4 \<and>
   set (base64_encode data) \<subseteq> set base64_tab \<union> {CHR ''=''}"
proof (intro conjI)
  show "base64_decode (base64_encode data) = data"
    by (induction data rule: base64_encode.induct)
      (simp_all only: base64_encode.simps base64_decode.simps base64_chars base64_bytes Let_def if_False if_True simp_thms)
  show "length (base64_encode data) = (length data + 2) div 3 * 4"
    by (induction data rule: base64_encode.induct) (simp_all, presburger)
qed (rule base64_set)

section \<open>Tokens\<close>

lemma span_until:
  "\<forall>c \<in> set p. P c \<Longrightarrow> \<not> P d \<Longrightarrow> takeWhile P (p @ d # s) = p"
  "\<forall>c \<in> set p. P c \<Longrightarrow> \<not> P d \<Longrightarrow> dropWhile P (p @ d # s) = d # s"
  by (induction p) auto

lemma span_delim:
  "d \<notin> set t \<Longrightarrow> takeWhile (\<lambda>c. c \<noteq> d) (t @ d # s) = t"
  "d \<notin> set t \<Longrightarrow> dropWhile (\<lambda>c. c \<noteq> d) (t @ d # s) = d # s"
  by (auto intro!: span_until)

lemma explode_token:
  "t \<noteq> [] \<Longrightarrow> d \<notin> set t \<Longrightarrow> explode t d = [t]"
  "d \<notin> set t \<Longrightarrow> explode (t @ d # s) d = t # explode s d"
proof -
  show "explode t d = [t]" if "t \<noteq> []" and "d \<notin> set t"
  proof -
    have "takeWhile (\<lambda>c. c \<noteq> d) t = t" and "dropWhile (\<lambda>c. c \<noteq> d) t = []"
      using that by (auto simp: takeWhile_eq_all_conv dropWhile_eq_Nil_conv)
    then show ?thesis using that(1) by (subst explode.simps) (simp add: explode.simps [of "[]"] del: takeWhile_eq_all_conv dropWhile_eq_Nil_conv)
  qed
  show "d \<notin> set t \<Longrightarrow> explode (t @ d # s) d = t # explode s d"
    by (subst explode.simps) (simp add: span_delim)
qed

lemma implode_Cons: "ts \<noteq> [] \<Longrightarrow> implode (t # ts) d = t @ d # implode ts d"
  by (cases ts) (simp_all add: implode_def butlast_append)

lemma explode_implode:
  "\<forall>t \<in> set ts. d \<notin> set t \<Longrightarrow> ts = [] \<or> last ts \<noteq> [] \<Longrightarrow> explode (implode ts d) d = ts"
proof (induction ts)
  case Nil
  then show ?case by (simp add: implode_def explode.simps)
next
  case (Cons t ts)
  show ?case
  proof (cases "ts = []")
    case True
    then show ?thesis using Cons.prems by (simp add: implode_def explode_token)
  next
    case False
    then show ?thesis using Cons by (simp add: implode_Cons explode_token)
  qed
qed

section \<open>Percent encoding\<close>

definition hex_digit :: "nat \<Rightarrow> char" where
  "hex_digit n = (if n < 10 then char_of (48 + n) else char_of (55 + n))"

definition percent_encode :: "string \<Rightarrow> string" where
  "percent_encode s = concat (map (\<lambda>c. [CHR ''%'', hex_digit (of_char c div 16), hex_digit (of_char c mod 16)]) s)"

lemma hex_digit:
  assumes "n < 16"
  shows "isxdigit (hex_digit n)" and "hex_value (hex_digit n) = n"
  using assms by (auto simp: hex_digit_def isxdigit_def isdigit_def hex_value_def Let_def)

lemma url_decode_percent_encode: "url_decode (percent_encode s @ r) = s @ url_decode r"
proof (induction s)
  case (Cons c s)
  have "of_char c div 16 < (16 :: nat)" by (rule less_mult_imp_div_less) simp
  then show ?case using Cons by (simp add: percent_encode_def hex_digit mult.commute)
qed (simp add: percent_encode_def)

lemma url_decode_plain: "CHR ''%'' \<notin> set s \<Longrightarrow> url_decode (s @ r) = s @ url_decode r"
  by (induction s) auto

section \<open>Lines of a HTTP message\<close>

definition line_ok :: "string \<Rightarrow> bool" where
  "line_ok l \<longleftrightarrow> l \<noteq> [] \<and> LF \<notin> set l \<and> CR \<notin> set l"

definition http_text :: "string list \<Rightarrow> string" where
  "http_text ls = concat (map (\<lambda>l. l @ [CR, LF]) ls) @ [CR, LF]"

lemma parseHttpLines_line:
  assumes "line_ok l"
  shows "parseHttpLines (l @ CR # LF # rest) = map_option (\<lambda>(n, ls). (length l + 2 + n, l # ls)) (parseHttpLines rest)"
proof -
  have "takeWhile (\<lambda>c. c \<noteq> LF) (l @ CR # LF # rest) = l @ [CR]"
    using assms by (subst takeWhile_append2) (auto simp: line_ok_def)
  then show ?thesis
    using assms by (subst parseHttpLines.simps) (simp add: line_ok_def Let_def split: option.split)
qed

lemma parseHttpLines_text: "\<forall>l \<in> set ls. line_ok l \<Longrightarrow> parseHttpLines (http_text ls @ rest) = Some (length (http_text ls), ls)"
proof (induction ls)
  case Nil
  then show ?case by (subst parseHttpLines.simps) (simp add: http_text_def)
next
  case (Cons l ls)
  have "http_text (l # ls) = l @ CR # LF # http_text ls" by (simp add: http_text_def)
  then show ?case using Cons by (simp add: parseHttpLines_line)
qed

lemma parseHttpLines_no_LF: "LF \<notin> set s \<Longrightarrow> parseHttpLines s = None"
proof -
  assume "LF \<notin> set s"
  then have "takeWhile (\<lambda>c. c \<noteq> LF) s = s" by (auto simp: takeWhile_eq_all_conv)
  then show ?thesis by (subst parseHttpLines.simps) (simp add: Let_def del: takeWhile_eq_all_conv)
qed

lemma parseHttpLines_prefix:
  "\<forall>l \<in> set ls. line_ok l \<Longrightarrow> b @ z = http_text ls \<Longrightarrow> z \<noteq> [] \<Longrightarrow> parseHttpLines b = None"
proof (induction ls arbitrary: b)
  case Nil
  then have "b = [] \<or> b = [CR]" by (auto simp: http_text_def append_eq_Cons_conv)
  then show ?case by (auto intro: parseHttpLines_no_LF)
next
  case (Cons l ls)
  have t: "http_text (l # ls) = (l @ [CR, LF]) @ http_text ls" by (simp add: http_text_def)
  show ?case
  proof (cases "length b < length (l @ [CR, LF])")
    case True
    then have "b = take (length b) ((l @ [CR]) @ LF # http_text ls)"
      using arg_cong [OF Cons.prems(2), of "take (length b)"] by (simp add: t)
    then have "b = take (length b) (l @ [CR])"
      using True by (subst (asm) take_append) simp
    then have "set b \<subseteq> set (l @ [CR])" by (metis set_take_subset)
    then show ?thesis using Cons.prems(1) by (intro parseHttpLines_no_LF) (auto simp: line_ok_def)
  next
    case False
    then have "take (length (l @ [CR, LF])) b = l @ [CR, LF]"
      using arg_cong [OF Cons.prems(2), of "take (length (l @ [CR, LF]))"] by (simp add: t)
    then obtain b' where b: "b = l @ CR # LF # b'"
      by (metis append.assoc append_Cons append_Nil append_take_drop_id)
    then have "b' @ z = http_text ls" using Cons.prems(2) t by simp
    then show ?thesis using Cons b by (simp add: parseHttpLines_line)
  qed
qed

lemma httpMethod_loop_prefix: "httpMethod_loop i (a @ b) \<Longrightarrow> httpMethod_loop i a"
  by (induction a arbitrary: i) (auto split: if_splits)

lemma parseHttpHeader_field:
  assumes "CHR '':'' \<notin> set k" and "v = [] \<or> hd v \<noteq> CHR '' ''"
  shows "parseHttpHeader (k @ '': '' @ v) = (map tolower k, v)"
  using assms by (cases v) (simp_all add: parseHttpHeader_def span_delim)

end
