(* ===== verification/WebSockets.thy ===== *)
theory WebSockets
  imports Processors
begin

text \<open>
  The WebSocket transport: \<open>src/impl/wstransport.hpp\<close>, \<open>src/impl/wstransport.cpp\<close>. Lengths of frames are
  64-bit words, as in the code. A frame owns its payload bytes here; in the code the payload points into
  the receive buffer, where it is unmasked in place. The random masking keys are drawn from the stream
  \<open>ws_random\<close>. Messages for the lower transport and for the receive callback are appended to the trace
  \<open>ws_events\<close>; the lower transport raises when it is not open. The opening handshake is the argument \<open>hs\<close>:
  what the methods of \<open>WsHandshake\<close> return, as functions of the buffer; \<open>ws_handshake\<close> of the theory
  Handshakes is the library's own.
\<close>

section \<open>Frames\<close>

definition CONTINUATION :: u8 where "CONTINUATION = 0"
definition TEXT_FRAME :: u8 where "TEXT_FRAME = 1"
definition BINARY_FRAME :: u8 where "BINARY_FRAME = 2"
definition CLOSE :: u8 where "CLOSE = 8"
definition PING :: u8 where "PING = 9"
definition PONG :: u8 where "PONG = 10"

lemmas opcodes = CONTINUATION_def TEXT_FRAME_def BINARY_FRAME_def CLOSE_def PING_def PONG_def

record Frame =
  fr_opcode :: u8
  fr_payload :: binary
  fr_length :: u64
  fr_fin :: bool
  fr_mask :: bool

definition xor_mask :: "binary \<Rightarrow> binary \<Rightarrow> binary" where
  "xor_mask key payload = map (\<lambda>i. payload ! i XOR ld8 key (i mod 4)) [0..<length payload]"

text \<open>The payload length in the header and where it ends: seven bits, or the 16 or 64 bits that follow them.\<close>

definition parseLength :: "binary \<Rightarrow> (u64 \<times> nat) option" where
  "parseLength buffer =
     (let len7 = ld8 buffer 1 AND 0x7F
      in if len7 = 0x7E then (if length buffer < 4 then None else Some (ucast (ntohs (ld16 buffer 2)), 4))
         else if len7 = 0x7F then (if length buffer < 10 then None else Some (ntohll (ld64 buffer 2), 10))
         else Some (ucast len7, 2))"

text \<open>\<open>parseFrame\<close> returns the length of the frame, which may exceed the buffer, the frame and the buffer with the
  payload unmasked; length 0 when the buffer does not hold enough of the frame. The returned length is a sum of
  64-bit words.\<close>

definition parseFrame :: "nat \<Rightarrow> binary \<Rightarrow> u64 \<times> Frame \<times> binary" where
  "parseFrame maxMessageSize buffer =
     (let incomplete = (0, \<lparr>fr_opcode = BINARY_FRAME, fr_payload = [], fr_length = 0, fr_fin = True, fr_mask = True\<rparr>, buffer)
      in if length buffer < 2 then incomplete
      else let fin = (ld8 buffer 0 AND 0x80 \<noteq> 0);
               masked = (ld8 buffer 1 AND 0x80 \<noteq> 0);
               opcode = ld8 buffer 0 AND 0x0F
      in case parseLength buffer of
           None \<Rightarrow> incomplete
         | Some (len, cur) \<Rightarrow>
             if masked \<and> length buffer < cur + 4 then incomplete
             else let key = slice cur (cur + 4) buffer;
                      cur = (if masked then cur + 4 else cur);
                      maxFrameLength = max 125 maxMessageSize;
                      n = min (unat len) maxFrameLength
             in if length buffer - cur < n then incomplete
                else let payload = take n (drop cur buffer);
                         payload = (if masked then xor_mask key payload else payload)
                     in (of_nat cur + len,
                         \<lparr>fr_opcode = opcode, fr_payload = payload, fr_length = of_nat n, fr_fin = fin, fr_mask = masked\<rparr>,
                         poke buffer cur payload))"

definition frame_header :: "Frame \<Rightarrow> binary" where
  "frame_header frame =
     [(fr_opcode frame AND 0x0F) OR (if fr_fin frame then 0x80 else 0)] @
     (let m = (if fr_mask frame then 0x80 else 0)
      in if fr_length frame < 0x7E then [(ucast (fr_length frame) AND 0x7F) OR m]
         else if fr_length frame \<le> 0xFFFF then [0x7E OR m] @ bytes16 (htons (ucast (fr_length frame)))
         else [0x7F OR m] @ bytes64 (htonll (fr_length frame)))"

definition frame_bytes :: "binary \<Rightarrow> Frame \<Rightarrow> binary" where
  "frame_bytes key frame =
     (if fr_mask frame then frame_header frame @ key @ xor_mask key (fr_payload frame)
      else frame_header frame @ fr_payload frame)"

section \<open>The transport\<close>

datatype ws_event = WsRecv "Message option" | WsOut binary | WsCloseTimer

datatype ws_error = RequestError int | HandshakeError string | OtherError error

record handshake =
  hs_parseHttpResponse :: "binary \<Rightarrow> ws_error + nat"
  hs_parseHttpRequest :: "binary \<Rightarrow> ws_error + nat"
  hs_request :: binary
  hs_response :: "binary \<Rightarrow> binary"
  hs_httpError :: "int \<Rightarrow> binary"

record WsTransport =
  ws_state :: "State \<times> State list"
  ws_isClient :: bool
  ws_maxMessageSize :: nat
  ws_maxOutstandingPings :: int
  ws_buffer :: binary
  ws_partial :: binary
  ws_partialOpcode :: u8
  ws_ignoreLength :: u64
  ws_outstandingPings :: int
  ws_closeSent :: bool
  ws_lowerOpen :: bool
  ws_random :: "nat \<Rightarrow> u8"
  ws_drawn :: nat
  ws_events :: "ws_event list"

definition DEFAULT_WS_MAX_MESSAGE_SIZE :: nat where "DEFAULT_WS_MAX_MESSAGE_SIZE = 262144"

text \<open>\<open>mPartialOpcode\<close> has no initialiser in the class: its first value is the argument \<open>uninitialised\<close>.\<close>

definition WsTransport_init :: "bool \<Rightarrow> nat option \<Rightarrow> int option \<Rightarrow> u8 \<Rightarrow> (nat \<Rightarrow> u8) \<Rightarrow> WsTransport" where
  "WsTransport_init isClient maxMessageSize maxOutstandingPings uninitialised random =
     \<lparr>ws_state = (Disconnected, []), ws_isClient = isClient,
      ws_maxMessageSize = (case maxMessageSize of Some n \<Rightarrow> n | None \<Rightarrow> DEFAULT_WS_MAX_MESSAGE_SIZE),
      ws_maxOutstandingPings = (case maxOutstandingPings of Some n \<Rightarrow> n | None \<Rightarrow> 0),
      ws_buffer = [], ws_partial = [], ws_partialOpcode = uninitialised, ws_ignoreLength = 0, ws_outstandingPings = 0,
      ws_closeSent = False, ws_lowerOpen = True, ws_random = random, ws_drawn = 0, ws_events = []\<rparr>"

definition ws_set_state :: "State \<Rightarrow> WsTransport \<Rightarrow> WsTransport" where
  "ws_set_state s t = t\<lparr>ws_state := changeState s (ws_state t)\<rparr>"

definition ws_emit :: "ws_event \<Rightarrow> WsTransport \<Rightarrow> WsTransport" where
  "ws_emit e t = t\<lparr>ws_events := ws_events t @ [e]\<rparr>"

definition ws_outgoing :: "binary \<Rightarrow> WsTransport \<Rightarrow> unit result \<times> WsTransport" where
  "ws_outgoing data t =
     (if ws_lowerOpen t then (Inr (), ws_emit (WsOut data) t)
      else (Inl (RuntimeError ''Connection is not open''), t))"

definition sendFrame :: "Frame \<Rightarrow> WsTransport \<Rightarrow> unit result \<times> WsTransport" where
  "sendFrame frame t =
     (let key = map (ws_random t) [ws_drawn t..<ws_drawn t + 4];
          t = (if fr_mask frame then t\<lparr>ws_drawn := ws_drawn t + 4\<rparr> else t)
      in ws_outgoing (frame_bytes key frame) t)"

definition mk_frame :: "u8 \<Rightarrow> binary \<Rightarrow> bool \<Rightarrow> Frame" where
  "mk_frame opcode payload mask' =
     \<lparr>fr_opcode = opcode, fr_payload = payload, fr_length = of_nat (length payload), fr_fin = True, fr_mask = mask'\<rparr>"

definition WsTransport_send :: "Message option \<Rightarrow> WsTransport \<Rightarrow> unit result \<times> WsTransport" where
  "WsTransport_send message t =
     (if fst (ws_state t) \<noteq> Connected then (Inl (RuntimeError ''WebSocket is not open''), t)
      else case message of
             None \<Rightarrow> (Inr (), t)
           | Some m \<Rightarrow> sendFrame (mk_frame (if msg_type m = String then TEXT_FRAME else BINARY_FRAME) (msg_data m) (ws_isClient t)) t)"

definition WsTransport_close :: "WsTransport \<Rightarrow> WsTransport" where
  "WsTransport_close t =
     (if fst (ws_state t) \<noteq> Connected then t
      else if ws_closeSent t then t
      else let t = t\<lparr>ws_closeSent := True\<rparr>
           in case sendFrame (mk_frame CLOSE [] (ws_isClient t)) t of
                (Inl e, t) \<Rightarrow> ws_set_state Disconnected t
              | (Inr _, t) \<Rightarrow> ws_emit WsCloseTimer t)"

text \<open>The task scheduled by \<open>close\<close>, ten seconds later.\<close>

definition close_timeout :: "WsTransport \<Rightarrow> WsTransport" where
  "close_timeout t = ws_set_state Disconnected t"

definition WsTransport_start :: "handshake \<Rightarrow> WsTransport \<Rightarrow> unit result \<times> WsTransport" where
  "WsTransport_start hs t =
     (let t = ws_set_state Connecting t
      in if ws_isClient t then ws_outgoing (hs_request hs) t else (Inr (), t))"

definition message_type :: "u8 \<Rightarrow> MessageType" where
  "message_type opcode = (if opcode = TEXT_FRAME then String else Binary)"

definition ws_recv :: "binary \<Rightarrow> MessageType \<Rightarrow> WsTransport \<Rightarrow> WsTransport" where
  "ws_recv data type t = ws_emit (WsRecv (Some (make_message data type 0 None None))) t"

definition recvFrame :: "Frame \<Rightarrow> WsTransport \<Rightarrow> unit result \<times> WsTransport" where
  "recvFrame frame t =
     (let opcode = fr_opcode frame
      in if opcode = TEXT_FRAME \<or> opcode = BINARY_FRAME then
           let data = take (ws_maxMessageSize t) (fr_payload frame);
               t = (if ws_partial t \<noteq> []
                    then (ws_recv (ws_partial t) (message_type (ws_partialOpcode t)) t)\<lparr>ws_partial := []\<rparr> else t);
               t = t\<lparr>ws_partialOpcode := opcode\<rparr>
           in (Inr (), if fr_fin frame then ws_recv data (message_type opcode) t
                       else t\<lparr>ws_partial := ws_partial t @ data\<rparr>)
         else if opcode = CONTINUATION then
           let t = t\<lparr>ws_partial := take (ws_maxMessageSize t) (ws_partial t @ fr_payload frame)\<rparr>
           in (Inr (), if fr_fin frame
                       then (ws_recv (ws_partial t) (message_type (ws_partialOpcode t)) t)\<lparr>ws_partial := []\<rparr> else t)
         else if opcode = PING then sendFrame (mk_frame PONG (fr_payload frame) (ws_isClient t)) t
         else if opcode = PONG then (Inr (), t\<lparr>ws_outstandingPings := 0\<rparr>)
         else if opcode = CLOSE then (Inr (), ws_set_state Disconnected (WsTransport_close t))
         else (Inr (), WsTransport_close t))"

definition addOutstandingPing :: "WsTransport \<Rightarrow> WsTransport" where
  "addOutstandingPing t =
     (let t = t\<lparr>ws_outstandingPings := ws_outstandingPings t + 1\<rparr>
      in if ws_maxOutstandingPings t > 0 \<and> ws_outstandingPings t > ws_maxOutstandingPings t
         then ws_set_state Failed t else t)"

lemma recvFrame_buffer [simp]: "ws_buffer (snd (recvFrame frame t)) = ws_buffer t"
  by (simp add: recvFrame_def sendFrame_def ws_outgoing_def WsTransport_close_def ws_recv_def ws_emit_def ws_set_state_def Let_def
      split: prod.splits sum.splits)

lemma length_xor_mask [simp]: "length (xor_mask key payload) = length payload"
  by (simp add: xor_mask_def)

lemma parseFrame_buffer_length:
  "parseFrame n b = (len, frame, b') \<Longrightarrow> length b' = length b"
  by (auto simp: parseFrame_def parseLength_def Let_def min_def split: if_splits)

function recv_loop :: "WsTransport \<Rightarrow> unit result \<times> WsTransport" where
  "recv_loop t =
     (case parseFrame (ws_maxMessageSize t) (ws_buffer t) of (len, frame, buffer) \<Rightarrow>
        let t = t\<lparr>ws_buffer := buffer\<rparr>
        in if len = 0 then (Inr (), t)
           else case recvFrame frame t of
                  (Inl e, t) \<Rightarrow> (Inl e, t)
                | (Inr _, t) \<Rightarrow>
                    if unat len > length (ws_buffer t)
                    then (Inr (), t\<lparr>ws_ignoreLength := len - of_nat (length (ws_buffer t)), ws_buffer := []\<rparr>)
                    else recv_loop (t\<lparr>ws_buffer := drop (unat len) (ws_buffer t)\<rparr>))"
  by pat_completeness auto

lemma recv_loop_decreases:
  assumes "parseFrame n (ws_buffer t) = (len, frame, buffer)" and "len \<noteq> 0"
    and "recvFrame frame (t\<lparr>ws_buffer := buffer\<rparr>) = (r, t')" and "unat len \<le> length (ws_buffer t')"
  shows "length (drop (unat len) (ws_buffer t')) < length (ws_buffer t)"
proof -
  have "ws_buffer t' = buffer"
    using recvFrame_buffer [of frame "t\<lparr>ws_buffer := buffer\<rparr>"] assms(3) by simp
  moreover have "0 < unat len"
    using assms(2) by (simp add: unat_gt_0)
  ultimately show ?thesis
    using parseFrame_buffer_length [OF assms(1)] assms(4) by simp
qed

termination recv_loop
proof (relation "measure (\<lambda>t. length (ws_buffer t))", goal_cases)
  case 1
  then show ?case by simp
next
  case (2 t len rest frame buffer t' r t'' u)
  show ?case
    using 2(1,2,5) [symmetric] 2(3-) recv_loop_decreases [of "ws_maxMessageSize t" t len frame buffer r t'']
    by (simp add: not_less)
qed

declare recv_loop.simps [simp del]

definition ws_open :: "handshake \<Rightarrow> WsTransport \<Rightarrow> (ws_error + unit) \<times> WsTransport" where
  "ws_open hs t =
     (if ws_isClient t then
        case hs_parseHttpResponse hs (ws_buffer t) of
          Inl e \<Rightarrow> (Inl e, t)
        | Inr len \<Rightarrow>
            (Inr (), if len = 0 then t else (ws_set_state Connected t)\<lparr>ws_buffer := drop len (ws_buffer t)\<rparr>)
      else
        case hs_parseHttpRequest hs (ws_buffer t) of
          Inl e \<Rightarrow> (Inl e, t)
        | Inr len \<Rightarrow>
            if len = 0 then (Inr (), t)
            else case ws_outgoing (hs_response hs (ws_buffer t)) t of
                   (Inl e, t) \<Rightarrow> (Inl (OtherError e), t)
                 | (Inr _, t) \<Rightarrow> (Inr (), (ws_set_state Connected t)\<lparr>ws_buffer := drop len (ws_buffer t)\<rparr>))"

definition other_error :: "unit result \<times> WsTransport \<Rightarrow> (ws_error + unit) \<times> WsTransport" where
  "other_error r = (case r of (Inl e, t) \<Rightarrow> (Inl (OtherError e), t) | (Inr u, t) \<Rightarrow> (Inr u, t))"

definition skip_ignored :: "WsTransport \<Rightarrow> WsTransport" where
  "skip_ignored t =
     (let len = min (unat (ws_ignoreLength t)) (length (ws_buffer t))
      in t\<lparr>ws_buffer := drop len (ws_buffer t), ws_ignoreLength := ws_ignoreLength t - of_nat len\<rparr>)"

text \<open>The body of the \<open>try\<close> block of \<open>incoming\<close>; an exception is an \<open>Inl\<close> with the state it leaves behind.\<close>

definition incoming_try :: "handshake \<Rightarrow> binary \<Rightarrow> WsTransport \<Rightarrow> (ws_error + unit) \<times> WsTransport" where
  "incoming_try hs data t =
     (let t = t\<lparr>ws_buffer := ws_buffer t @ data\<rparr>
      in case (if fst (ws_state t) = Connecting then ws_open hs t else (Inr (), t)) of
           (Inl e, t) \<Rightarrow> (Inl e, t)
         | (Inr _, t) \<Rightarrow>
             if fst (ws_state t) \<noteq> Connected then (Inr (), t)
             else if data = [] then
               case sendFrame (mk_frame PING [0, 0, 0, 0] (ws_isClient t)) t of
                 (Inl e, t) \<Rightarrow> (Inl (OtherError e), t)
               | (Inr _, t) \<Rightarrow> (Inr (), addOutstandingPing t)
             else let t = skip_ignored t
                  in if ws_ignoreLength t = 0 then other_error (recv_loop t) else (Inr (), t))"

text \<open>What follows the \<open>try\<close> block: the lower transport is gone, or the peer misbehaved.\<close>

definition incoming_lost :: "WsTransport \<Rightarrow> WsTransport" where
  "incoming_lost t =
     (if fst (ws_state t) = Connected then ws_emit (WsRecv None) (ws_set_state Disconnected t)
      else ws_set_state Failed t)"

definition WsTransport_incoming :: "handshake \<Rightarrow> binary option \<Rightarrow> WsTransport \<Rightarrow> WsTransport" where
  "WsTransport_incoming hs message t =
     (if fst (ws_state t) \<noteq> Connecting \<and> fst (ws_state t) \<noteq> Connected then t
      else case message of
             None \<Rightarrow> incoming_lost t
           | Some data \<Rightarrow>
               (case incoming_try hs data t of
                  (Inr _, t) \<Rightarrow> t
                | (Inl (RequestError code), t) \<Rightarrow> incoming_lost (snd (ws_outgoing (hs_httpError hs code) t))
                | (Inl _, t) \<Rightarrow> incoming_lost t))"

section \<open>Frames survive the wire\<close>

lemma frame_header_flags:
  "ld8 (frame_header f @ r) 0 AND 0x80 \<noteq> 0 \<longleftrightarrow> fr_fin f"
  "ld8 (frame_header f @ r) 0 AND 0x0F = fr_opcode f AND 0x0F"
  "ld8 (frame_header f @ r) 1 AND 0x80 \<noteq> 0 \<longleftrightarrow> fr_mask f"
  by (simp_all add: frame_header_def Let_def ld_numeral u8_bits)

lemma length_frame_header:
  "length (frame_header f) = (if fr_length f < 0x7E then 2 else if fr_length f \<le> 0xFFFF then 4 else 10)"
  by (simp add: frame_header_def)

lemma ucast_ucast_small:
  fixes x :: u64
  shows "unat x < 2 ^ LENGTH('a::len) \<Longrightarrow> LENGTH('a) \<le> 64 \<Longrightarrow> ucast (ucast x :: 'a word) = x"
  using unsigned_less [of x, where 'a = nat] by (simp add: word_unat_eq_iff unat_ucast)

lemma len7_small:
  assumes "(l::u64) < 0x7E"
  shows "(((ucast l AND 0x7F) OR (if m then 0x80 else 0)) AND 0x7F :: u8) = ucast l"
    and "(ucast l :: u8) \<noteq> 0x7E" and "(ucast l :: u8) \<noteq> 0x7F" and "ucast (ucast l :: u8) = l"
proof -
  have l: "unat l < 0x7E" using assms by (simp add: word_less_nat_alt)
  then have u: "unat (ucast l :: u8) = unat l" by (simp add: unat_ucast)
  show "ucast (ucast l :: u8) = l" by (rule ucast_ucast_small) (use l in simp_all)
  show "(ucast l :: u8) \<noteq> 0x7E" "(ucast l :: u8) \<noteq> 0x7F" using l u by auto
  have "(ucast l :: u8) AND mask 7 = ucast l" by (rule and_mask_self) (use l u in simp)
  moreover have "((x AND 0x7F) OR (if m then 0x80 else 0)) AND 0x7F = x AND mask 7" for x :: u8
    by (simp add: u8_bits)
  ultimately show "(((ucast l AND 0x7F) OR (if m then 0x80 else 0)) AND 0x7F :: u8) = ucast l" by metis
qed

lemma parseLength_frame_header:
  "parseLength (frame_header f @ r) = Some (fr_length f, length (frame_header f))"
proof -
  consider "fr_length f < 0x7E" | "\<not> fr_length f < 0x7E" "fr_length f \<le> 0xFFFF" | "\<not> fr_length f < 0x7E" "\<not> fr_length f \<le> 0xFFFF"
    by blast
  then show ?thesis
  proof cases
    case 1
    then show ?thesis
      by (simp add: length_frame_header frame_header_def parseLength_def Let_def ld_numeral len7_small del: if_split)
  next
    case 2
    then have "unat (fr_length f) < 65536" by (simp add: word_le_nat_alt)
    then have "ucast (ucast (fr_length f) :: u16) = fr_length f"
      using ucast_ucast_small [of "fr_length f", where 'a = 16] by simp
    with 2 show ?thesis
      by (simp add: length_frame_header frame_header_def parseLength_def Let_def ld_numeral)
  next
    case 3
    then show ?thesis
      by (simp add: length_frame_header frame_header_def parseLength_def Let_def ld_numeral)
  qed
qed

lemma xor_mask_twice [simp]: "xor_mask key (xor_mask key p) = p"
  by (rule nth_equalityI) (simp_all add: xor_mask_def xor.assoc)

definition frame_key :: "binary \<Rightarrow> Frame \<Rightarrow> binary" where
  "frame_key key f = (if fr_mask f then key else [])"

lemma frame_bytes_eq:
  "frame_bytes key f = frame_header f @ frame_key key f @ (if fr_mask f then xor_mask key (fr_payload f) else fr_payload f)"
  by (simp add: frame_bytes_def frame_key_def)

lemma frame_bytes_nonempty [simp]: "frame_bytes key f \<noteq> []"
  by (simp add: frame_bytes_def frame_header_def)

lemma frame_header_ge_2: "2 \<le> length (frame_header f)" "length (frame_header f) \<le> 10"
  by (simp_all add: length_frame_header)

lemma parseFrame_frame_bytes:
  assumes "length key = 4" and "fr_opcode f < 16" and "unat (fr_length f) = length (fr_payload f)"
    and "length (fr_payload f) \<le> max 125 n"
  shows "parseFrame n (frame_bytes key f @ rest) =
     (of_nat (length (frame_bytes key f)), f, frame_header f @ frame_key key f @ fr_payload f @ rest)"
proof -
  have op: "fr_opcode f AND 0xF = fr_opcode f"
    using and_mask_self [of "fr_opcode f" 4] assms(2) by (simp add: word_less_nat_alt masks)
  have len: "of_nat (length (fr_payload f)) = fr_length f"
    by (simp flip: assms(3))
  let ?h = "length (frame_header f)"
  show ?thesis
  proof (cases "fr_mask f")
    case True
    then have e: "frame_bytes key f @ rest = frame_header f @ key @ xor_mask key (fr_payload f) @ rest"
      by (simp add: frame_bytes_def)
    show ?thesis
      unfolding parseFrame_def e parseLength_frame_header frame_header_flags op
      using frame_header_ge_2 [of f] True assms len
      by (cases f) (simp add: Let_def slice_def poke_def min_def frame_key_def frame_bytes_def)
  next
    case False
    then have e: "frame_bytes key f @ rest = frame_header f @ fr_payload f @ rest"
      by (simp add: frame_bytes_def)
    show ?thesis
      unfolding parseFrame_def e parseLength_frame_header frame_header_flags op
      using frame_header_ge_2 [of f] False assms len
      by (cases f) (simp add: Let_def slice_def poke_def min_def frame_key_def frame_bytes_def)
  qed
qed

lemma parseLength_prefix:
  assumes "b @ z = frame_header f" and "2 \<le> length b" and "z \<noteq> []"
  shows "parseLength b = None"
proof -
  have b: "b = take (length b) (frame_header f)" and less: "length b < length (frame_header f)"
    using assms(1,3) by (auto dest: sym)
  have l: "ld8 b (Suc 0) = ld8 (frame_header f) (Suc 0)"
    using assms(2) by (subst b) (simp add: ld8_take)
  show ?thesis
    using less assms(2)
    by (auto simp: parseLength_def Let_def l length_frame_header frame_header_def ld_numeral split: if_splits)
qed

lemma parseFrame_prefix:
  assumes "length key = 4" and "unat (fr_length f) = length (fr_payload f)"
    and "length (fr_payload f) \<le> max 125 n" and "b @ z = frame_bytes key f" and "z \<noteq> []"
  shows "\<exists>fr. parseFrame n b = (0, fr, b)"
proof (cases "length b < length (frame_header f)")
  case True
  have "take (length (frame_header f)) (b @ z) = frame_header f"
    by (simp add: assms(4) frame_bytes_def)
  then have "b @ take (length (frame_header f) - length b) z = frame_header f"
    using True by simp
  then have "2 \<le> length b \<Longrightarrow> parseLength b = None"
    by (rule parseLength_prefix) (use True assms(5) in simp_all)
  then show ?thesis
    by (cases "length b < 2") (simp_all add: parseFrame_def Let_def)
next
  case False
  then have "take (length (frame_header f)) b = frame_header f"
    using arg_cong [OF assms(4), of "take (length (frame_header f))"] by (simp add: frame_bytes_def split: if_splits)
  then obtain r where b: "b = frame_header f @ r"
    by (metis append_take_drop_id)
  have "length b < length (frame_bytes key f)"
    using assms(5) by (simp flip: assms(4))
  then have r: "length r < length (frame_key key f) + length (fr_payload f)"
    by (simp add: b frame_bytes_eq split: if_splits)
  show ?thesis
    unfolding b parseFrame_def parseLength_frame_header frame_header_flags
    using frame_header_ge_2 [of f] assms(1-3) r
    by (simp add: Let_def frame_key_def split: if_splits) auto
qed

section \<open>Messages survive any segmentation of the stream\<close>

definition message_frame :: "bool \<Rightarrow> Message \<Rightarrow> Frame" where
  "message_frame client m = mk_frame (if msg_type m = String then TEXT_FRAME else BINARY_FRAME) (msg_data m) client"

definition ws_delivered :: "Message \<Rightarrow> ws_event" where
  "ws_delivered m = WsRecv (Some (make_message (msg_data m) (if msg_type m = String then String else Binary) 0 None None))"

definition wire :: "bool \<Rightarrow> (binary \<times> Message) list \<Rightarrow> binary" where
  "wire client kms = concat (map (\<lambda>(key, m). frame_bytes key (message_frame client m)) kms)"

definition wire_bytes :: "ws_event list \<Rightarrow> binary" where
  "wire_bytes es = concat (map (\<lambda>e. case e of WsOut d \<Rightarrow> d | _ \<Rightarrow> []) es)"

lemma wire_simps [simp]:
  "wire c [] = []" "wire c ((key, m) # kms) = frame_bytes key (message_frame c m) @ wire c kms"
  by (simp_all add: wire_def)

lemma message_frame_simps [simp]:
  "fr_payload (message_frame c m) = msg_data m" "fr_mask (message_frame c m) = c" "fr_fin (message_frame c m)"
  "fr_length (message_frame c m) = of_nat (length (msg_data m))"
  "fr_opcode (message_frame c m) = (if msg_type m = String then TEXT_FRAME else BINARY_FRAME)"
  by (simp_all add: message_frame_def mk_frame_def)

lemma recvFrame_message:
  assumes "ws_partial t = []" and "length (msg_data m) \<le> ws_maxMessageSize t"
  shows "recvFrame (message_frame c m) t =
    (Inr (), (ws_emit (ws_delivered m) t)\<lparr>ws_partialOpcode := (if msg_type m = String then TEXT_FRAME else BINARY_FRAME)\<rparr>)"
  using assms by (simp add: recvFrame_def ws_delivered_def ws_recv_def ws_emit_def message_type_def Let_def opcodes)

lemma parseFrame_message:
  assumes "length key = 4" and "length (msg_data m) \<le> n" and "n < 2 ^ 63"
  shows "parseFrame n (frame_bytes key (message_frame c m) @ rest) =
      (of_nat (length (frame_bytes key (message_frame c m))), message_frame c m,
       frame_header (message_frame c m) @ frame_key key (message_frame c m) @ msg_data m @ rest)"
    and "b @ z = frame_bytes key (message_frame c m) \<Longrightarrow> z \<noteq> [] \<Longrightarrow> \<exists>fr. parseFrame n b = (0, fr, b)"
    and "unat (of_nat (length (frame_bytes key (message_frame c m))) :: u64) = length (frame_bytes key (message_frame c m))"
proof -
  have u: "unat (of_nat (length (msg_data m)) :: u64) = length (msg_data m)"
    using assms by (simp add: unat_of_nat)
  show "parseFrame n (frame_bytes key (message_frame c m) @ rest) =
      (of_nat (length (frame_bytes key (message_frame c m))), message_frame c m,
       frame_header (message_frame c m) @ frame_key key (message_frame c m) @ msg_data m @ rest)"
    using parseFrame_frame_bytes [of key "message_frame c m" n rest] assms u
    by (simp add: opcodes)
  show "b @ z = frame_bytes key (message_frame c m) \<Longrightarrow> z \<noteq> [] \<Longrightarrow> \<exists>fr. parseFrame n b = (0, fr, b)"
    using parseFrame_prefix [of key "message_frame c m" n b z] assms u by simp
  have l: "length (frame_bytes key (message_frame c m)) \<le> 14 + length (msg_data m)"
    using frame_header_ge_2 [of "message_frame c m"] assms(1) by (cases c) (simp_all add: frame_bytes_def)
  then show "unat (of_nat (length (frame_bytes key (message_frame c m))) :: u64) = length (frame_bytes key (message_frame c m))"
    using assms by (simp add: unat_of_nat)
qed

text \<open>A transport that waits for data frames: no message under reassembly, nothing to skip.\<close>

definition ws_ready :: "WsTransport \<Rightarrow> bool" where
  "ws_ready t \<longleftrightarrow> fst (ws_state t) = Connected \<and> ws_partial t = [] \<and> ws_ignoreLength t = 0 \<and> ws_maxMessageSize t < 2 ^ 63"

lemma recv_loop_messages:
  assumes "\<forall>(key, m) \<in> set kms. length key = 4 \<and> length (msg_data m) \<le> ws_maxMessageSize t"
    and "ws_ready t" and "ws_buffer t @ z = wire c kms"
  shows "\<exists>k t'. recv_loop t = (Inr (), t') \<and> ws_ready t' \<and> ws_maxMessageSize t' = ws_maxMessageSize t \<and>
    ws_events t' = ws_events t @ map (\<lambda>(key, m). ws_delivered m) (take k kms) \<and> ws_buffer t' @ z = wire c (drop k kms) \<and>
    (z = [] \<longrightarrow> length kms \<le> k)"
  using assms
proof (induction kms arbitrary: t)
  case Nil
  then have "parseFrame (ws_maxMessageSize t) (ws_buffer t) = (0, snd (parseFrame (ws_maxMessageSize t) [])) \<and>
      snd (snd (parseFrame (ws_maxMessageSize t) [])) = []"
    by (simp add: parseFrame_def)
  with Nil show ?case
    by (simp add: recv_loop.simps [of t] ws_ready_def parseFrame_def)
next
  case (Cons km kms)
  obtain key m where km: "km = (key, m)" by (cases km)
  let ?f = "frame_bytes key (message_frame c m)"
  have ok: "length key = 4" "length (msg_data m) \<le> ws_maxMessageSize t" "ws_maxMessageSize t < 2 ^ 63"
    using Cons.prems km by (auto simp: ws_ready_def)
  note pf = parseFrame_message [OF ok, where c = c]
  show ?case
  proof (cases "length (ws_buffer t) < length ?f")
    case True
    then have "ws_buffer t @ take (length ?f - length (ws_buffer t)) z = ?f"
      using arg_cong [OF Cons.prems(3), of "take (length ?f)"] km by simp
    moreover have "take (length ?f - length (ws_buffer t)) z \<noteq> []"
      using calculation True by (auto dest: arg_cong [of _ _ length])
    ultimately obtain fr where "parseFrame (ws_maxMessageSize t) (ws_buffer t) = (0, fr, ws_buffer t)"
      using pf(2) by blast
    moreover have "z \<noteq> []" using \<open>take _ z \<noteq> []\<close> by auto
    ultimately show ?thesis
      using Cons.prems by (intro exI [of _ 0] exI [of _ t]) (simp add: recv_loop.simps [of t])
  next
    case False
    then have "take (length ?f) (ws_buffer t) = ?f"
      using arg_cong [OF Cons.prems(3), of "take (length ?f)"] km by simp
    then obtain b where b: "ws_buffer t = ?f @ b"
      by (metis append_take_drop_id)
    then have bz: "b @ z = wire c kms"
      using Cons.prems(3) km by simp
    define t1 where "t1 = (ws_emit (ws_delivered m) t)\<lparr>ws_buffer := b,
      ws_partialOpcode := (if msg_type m = String then TEXT_FRAME else BINARY_FRAME)\<rparr>"
    have nz: "(of_nat (length ?f) :: u64) \<noteq> 0"
      using pf(3) by (metis frame_bytes_nonempty length_0_conv unsigned_0)
    have l: "length ?f = length (frame_header (message_frame c m)) + length (frame_key key (message_frame c m)) + length (msg_data m)"
      by (cases c) (simp_all add: frame_bytes_eq)
    let ?b = "frame_header (message_frame c m) @ frame_key key (message_frame c m) @ msg_data m @ b"
    let ?t = "(ws_emit (ws_delivered m) (t\<lparr>ws_buffer := ?b\<rparr>))\<lparr>ws_partialOpcode := (if msg_type m = String then TEXT_FRAME else BINARY_FRAME)\<rparr>"
    have "parseFrame (ws_maxMessageSize t) (ws_buffer t) = (of_nat (length ?f), message_frame c m, ?b)"
      unfolding b by (rule pf(1))
    moreover have "recvFrame (message_frame c m) (t\<lparr>ws_buffer := ?b\<rparr>) = (Inr (), ?t)"
      by (rule recvFrame_message) (use Cons.prems(2) ok in \<open>simp_all add: ws_ready_def\<close>)
    moreover have "?t\<lparr>ws_buffer := drop (length ?f) ?b\<rparr> = t1"
      by (cases t) (simp add: t1_def ws_emit_def l)
    moreover have "ws_buffer ?t = ?b" and "\<not> length ?b < length ?f"
      by (simp_all add: ws_emit_def l)
    ultimately have "recv_loop t = recv_loop t1"
      using nz by (subst recv_loop.simps) (simp only: pf(3) prod.case sum.case Let_def if_False)
    moreover have "ws_ready t1" "ws_maxMessageSize t1 = ws_maxMessageSize t" "ws_buffer t1 = b"
       "ws_events t1 = ws_events t @ [ws_delivered m]"
      using Cons.prems(2) by (simp_all add: t1_def ws_ready_def ws_emit_def)
    moreover obtain k t' where "recv_loop t1 = (Inr (), t') \<and> ws_ready t' \<and> ws_maxMessageSize t' = ws_maxMessageSize t1 \<and>
        ws_events t' = ws_events t1 @ map (\<lambda>(key, m). ws_delivered m) (take k kms) \<and> ws_buffer t' @ z = wire c (drop k kms) \<and>
        (z = [] \<longrightarrow> length kms \<le> k)"
      using Cons.IH [of t1] calculation Cons.prems(1) bz by auto
    ultimately show ?thesis
      using km by (intro exI [of _ "Suc k"] exI [of _ t']) simp
  qed
qed

lemma incoming_messages:
  assumes "\<forall>(key, m) \<in> set kms. length key = 4 \<and> length (msg_data m) \<le> ws_maxMessageSize t"
    and "ws_ready t" and "ws_buffer t @ concat chunks = wire c kms" and "\<forall>d \<in> set chunks. d \<noteq> []"
    and "chunks = [] \<longrightarrow> kms = []"
  shows "ws_events (fold (\<lambda>d. WsTransport_incoming hs (Some d)) chunks t) = ws_events t @ map (\<lambda>(key, m). ws_delivered m) kms \<and>
    ws_buffer (fold (\<lambda>d. WsTransport_incoming hs (Some d)) chunks t) = [] \<and>
    ws_ready (fold (\<lambda>d. WsTransport_incoming hs (Some d)) chunks t)"
  using assms
proof (induction chunks arbitrary: t kms)
  case Nil
  then show ?case by simp
next
  case (Cons d chunks)
  let ?t = "t\<lparr>ws_buffer := ws_buffer t @ d\<rparr>"
  have ready: "ws_ready ?t" using Cons.prems(2) by (simp add: ws_ready_def)
  obtain k t' where l: "recv_loop ?t = (Inr (), t')" "ws_ready t'" "ws_maxMessageSize t' = ws_maxMessageSize t"
      "ws_events t' = ws_events t @ map (\<lambda>(key, m). ws_delivered m) (take k kms)"
      "ws_buffer t' @ concat chunks = wire c (drop k kms)" "concat chunks = [] \<longrightarrow> length kms \<le> k"
    using recv_loop_messages [of kms ?t "concat chunks" c] Cons.prems ready by auto
  have "skip_ignored ?t = ?t"
    using Cons.prems(2) by (cases t) (simp add: skip_ignored_def ws_ready_def)
  then have i: "WsTransport_incoming hs (Some d) t = t'"
    using Cons.prems(2,4) l(1)
    by (simp add: WsTransport_incoming_def incoming_try_def ws_ready_def other_error_def)
  have "\<forall>(key, m) \<in> set (drop k kms). length key = 4 \<and> length (msg_data m) \<le> ws_maxMessageSize t'"
    using Cons.prems(1) l(3) by (auto dest: in_set_dropD)
  then show ?case
    using Cons.IH [of "drop k kms" t'] l Cons.prems(4)
    by (simp add: i flip: map_append)
qed

lemma send_messages:
  assumes "fst (ws_state s) = Connected" and "ws_lowerOpen s"
  shows "\<exists>keys. length keys = length ms \<and> (\<forall>key \<in> set keys. length key = 4) \<and>
    wire_bytes (ws_events (fold (\<lambda>m s. snd (WsTransport_send (Some m) s)) ms s)) =
      wire_bytes (ws_events s) @ wire (ws_isClient s) (zip keys ms)"
  using assms
proof (induction ms arbitrary: s)
  case Nil
  then show ?case by simp
next
  case (Cons m ms)
  let ?s = "snd (WsTransport_send (Some m) s)"
  let ?key = "map (ws_random s) [ws_drawn s..<ws_drawn s + 4]"
  have "wire_bytes (ws_events ?s) = wire_bytes (ws_events s) @ frame_bytes ?key (message_frame (ws_isClient s) m)"
    and "fst (ws_state ?s) = Connected" "ws_lowerOpen ?s" "ws_isClient ?s = ws_isClient s"
    using Cons.prems
    by (simp_all add: WsTransport_send_def sendFrame_def ws_outgoing_def ws_emit_def wire_bytes_def message_frame_def Let_def)
  moreover obtain keys where "length keys = length ms" "\<forall>key \<in> set keys. length key = 4"
      "wire_bytes (ws_events (fold (\<lambda>m s. snd (WsTransport_send (Some m) s)) ms ?s)) =
       wire_bytes (ws_events ?s) @ wire (ws_isClient ?s) (zip keys ms)"
    using Cons.IH [of ?s] calculation by auto
  ultimately show ?case
    by (intro exI [of _ "?key # keys"]) simp
qed

text \<open>what one end of a connection sends, the other end delivers: for every list of messages that a connected
  transport sends (text or binary, masked or not, with any masking keys and any of the three length encodings) and for
  every way in which the lower transport cuts the resulting byte stream into non-empty reads, a connected peer whose
  message size limit they respect delivers exactly these messages, in order, and ends with an empty buffer.\<close>

theorem ws_stream_delivers_messages:
  assumes "fst (ws_state s) = Connected" and "ws_lowerOpen s" and "ws_events s = []"
    and "ws_ready r" and "ws_buffer r = []" and "\<forall>m \<in> set ms. length (msg_data m) \<le> ws_maxMessageSize r"
    and "concat chunks = wire_bytes (ws_events (fold (\<lambda>m s. snd (WsTransport_send (Some m) s)) ms s))"
    and "\<forall>d \<in> set chunks. d \<noteq> []"
  shows "ws_events (fold (\<lambda>d. WsTransport_incoming hs (Some d)) chunks r) = ws_events r @ map ws_delivered ms \<and>
    ws_buffer (fold (\<lambda>d. WsTransport_incoming hs (Some d)) chunks r) = [] \<and>
    ws_ready (fold (\<lambda>d. WsTransport_incoming hs (Some d)) chunks r)"
proof -
  obtain keys where keys: "length keys = length ms" "\<forall>key \<in> set keys. length key = 4"
      "concat chunks = wire (ws_isClient s) (zip keys ms)"
    using send_messages [OF assms(1,2), of ms] assms(3,7) by (auto simp: wire_bytes_def)
  have "\<forall>(key, m) \<in> set (zip keys ms). length key = 4 \<and> length (msg_data m) \<le> ws_maxMessageSize r"
    using keys(2) assms(6) by (auto dest: set_zip_leftD set_zip_rightD)
  moreover have "chunks = [] \<longrightarrow> zip keys ms = []"
    using keys(3) by (cases "zip keys ms") auto
  moreover have "map (\<lambda>(key, m). ws_delivered m) (zip keys ms) = map ws_delivered ms"
    using keys(1) by (simp add: case_prod_unfold flip: map_map [of ws_delivered snd, unfolded comp_def])
  ultimately show ?thesis
    using incoming_messages [of "zip keys ms" r chunks "ws_isClient s" hs] keys(3) assms(4,5,8) by simp
qed

theorem ws_stream_delivers_messages_witness:
  defines "s \<equiv> (WsTransport_init True (Some 10) None 0 (\<lambda>_. 7))\<lparr>ws_state := (Connected, [])\<rparr>"
    and "r \<equiv> (WsTransport_init False (Some 10) None 0 (\<lambda>_. 0))\<lparr>ws_state := (Connected, [])\<rparr>"
    and "ms \<equiv> [make_message [1, 2, 3] String 0 None None, make_message [] Binary 0 None None]"
    and "chunks \<equiv> [[0x81], [0x83, 7, 7], [7, 7, 6, 5, 4, 0x82], [0x80, 7, 7, 7, 7]]"
    and "hs \<equiv> \<lparr>hs_parseHttpResponse = \<lambda>_. Inr 0, hs_parseHttpRequest = \<lambda>_. Inr 0, hs_request = [],
      hs_response = \<lambda>_. [], hs_httpError = \<lambda>_. []\<rparr>"
  shows "concat chunks = wire_bytes (ws_events (fold (\<lambda>m s. snd (WsTransport_send (Some m) s)) ms s)) \<and>
    ws_events (fold (\<lambda>d. WsTransport_incoming hs (Some d)) chunks r) = map ws_delivered ms"
proof -
  have c: "concat chunks = wire_bytes (ws_events (fold (\<lambda>m s. snd (WsTransport_send (Some m) s)) ms s))"
    unfolding chunks_def s_def ms_def by code_simp
  have "ws_ready r" "ws_buffer r = []" "ws_events r = []" "ws_maxMessageSize r = 10"
    by (simp_all add: ws_ready_def r_def WsTransport_init_def)
  moreover have "\<forall>m \<in> set ms. length (msg_data m) \<le> 10" "\<forall>d \<in> set chunks. d \<noteq> []"
    by (simp_all add: ms_def chunks_def make_message_def Message_init_def)
  moreover have "fst (ws_state s) = Connected" "ws_lowerOpen s" "ws_events s = []"
    by (simp_all add: s_def WsTransport_init_def)
  ultimately show ?thesis
    using ws_stream_delivers_messages [of s r ms chunks hs] c by simp
qed

section \<open>The message size limit\<close>

definition ws_limit :: "nat \<Rightarrow> WsTransport \<Rightarrow> bool" where
  "ws_limit n t \<longleftrightarrow> ws_maxMessageSize t = n \<and> length (ws_partial t) \<le> n \<and>
     (\<forall>m. WsRecv (Some m) \<in> set (ws_events t) \<longrightarrow> length (msg_data m) \<le> n)"

lemma ws_limit_updates [simp]:
  "ws_limit n (ws_set_state st t) \<longleftrightarrow> ws_limit n t"
  "ws_limit n (t\<lparr>ws_buffer := b\<rparr>) \<longleftrightarrow> ws_limit n t"
  "ws_limit n (t\<lparr>ws_ignoreLength := i\<rparr>) \<longleftrightarrow> ws_limit n t"
  "ws_limit n (t\<lparr>ws_outstandingPings := p\<rparr>) \<longleftrightarrow> ws_limit n t"
  "ws_limit n (t\<lparr>ws_drawn := d\<rparr>) \<longleftrightarrow> ws_limit n t"
  "ws_limit n (t\<lparr>ws_closeSent := c\<rparr>) \<longleftrightarrow> ws_limit n t"
  "ws_limit n (t\<lparr>ws_partialOpcode := oc\<rparr>) \<longleftrightarrow> ws_limit n t"
  "ws_limit n (ws_emit (WsOut data) t) \<longleftrightarrow> ws_limit n t"
  "ws_limit n (ws_emit WsCloseTimer t) \<longleftrightarrow> ws_limit n t"
  "ws_limit n (ws_emit (WsRecv None) t) \<longleftrightarrow> ws_limit n t"
  by (auto simp: ws_limit_def ws_set_state_def ws_emit_def)

lemma ws_limit_recv [simp]: "length data \<le> n \<Longrightarrow> ws_limit n t \<Longrightarrow> ws_limit n (ws_recv data ty t)"
  by (auto simp: ws_limit_def ws_recv_def ws_emit_def make_message_def Message_init_def)

lemma ws_limit_partial: "length b \<le> n \<Longrightarrow> ws_limit n t \<Longrightarrow> ws_limit n (t\<lparr>ws_partial := b\<rparr>)"
  by (simp add: ws_limit_def)

lemma ws_limit_send [simp]:
  assumes "ws_limit n t"
  shows "ws_limit n (snd (ws_outgoing data t))" and "ws_limit n (snd (sendFrame f t))"
    and "ws_limit n (snd (WsTransport_send msg t))" and "ws_limit n (WsTransport_close t)"
  using assms
  by (auto simp: sendFrame_def ws_outgoing_def WsTransport_send_def WsTransport_close_def Let_def split: option.splits)

lemma ws_limit_recvFrame [simp]:
  assumes "ws_limit n t"
  shows "ws_limit n (snd (recvFrame f t))"
proof -
  have n: "ws_maxMessageSize t = n" and p: "length (ws_partial t) \<le> n"
    using assms by (simp_all add: ws_limit_def)
  have r: "ws_maxMessageSize (ws_recv d ty t) = ws_maxMessageSize t" "ws_partial (ws_recv d ty t) = ws_partial t" for d ty t
    by (simp_all add: ws_recv_def ws_emit_def)
  show ?thesis
    using assms by (simp add: recvFrame_def Let_def ws_limit_partial n p r del: take_append)
qed

lemma ws_limit_recv_loop [simp]: "ws_limit n t \<Longrightarrow> ws_limit n (snd (recv_loop t))"
proof (induction t rule: recv_loop.induct)
  case (1 t)
  obtain len frame buffer where p: "parseFrame (ws_maxMessageSize t) (ws_buffer t) = (len, frame, buffer)"
    by (metis prod_cases3)
  obtain e t' where r: "recvFrame frame (t\<lparr>ws_buffer := buffer\<rparr>) = (e, t')"
    by (metis surj_pair)
  have "ws_limit n t'"
    using ws_limit_recvFrame [of n "t\<lparr>ws_buffer := buffer\<rparr>" frame] 1(2) r by simp
  then show ?case
    using 1 by (subst recv_loop.simps) (simp add: p r Let_def split: sum.splits)
qed

lemma ws_limit_open: "ws_limit n t \<Longrightarrow> ws_limit n (snd (ws_open hs t))"
  by (simp add: ws_open_def ws_outgoing_def split: sum.split)

lemma ws_limit_incoming_try:
  assumes "ws_limit n t"
  shows "ws_limit n (snd (incoming_try hs data t))"
proof -
  define o' where "o' = (if fst (ws_state t) = Connecting then ws_open hs (t\<lparr>ws_buffer := ws_buffer t @ data\<rparr>)
    else (Inr (), t\<lparr>ws_buffer := ws_buffer t @ data\<rparr>))"
  obtain r t1 where o: "o' = (r, t1)" by (cases o')
  have t1: "ws_limit n t1"
    using assms ws_limit_open [of n "t\<lparr>ws_buffer := ws_buffer t @ data\<rparr>" hs] o by (auto simp: o'_def split: if_splits)
  obtain r2 t2 where s: "sendFrame (mk_frame PING [0, 0, 0, 0] (ws_isClient t1)) t1 = (r2, t2)"
    by (metis surj_pair)
  then have t2: "ws_limit n t2"
    using ws_limit_send(2) [OF t1] by (metis snd_conv)
  obtain r3 t3 where l: "recv_loop (skip_ignored t1) = (r3, t3)"
    by (metis surj_pair)
  have sk: "ws_limit n (skip_ignored t1)"
    using t1 by (simp add: skip_ignored_def Let_def)
  then have t3: "ws_limit n t3"
    using ws_limit_recv_loop [of n "skip_ignored t1"] l by simp
  show ?thesis
    using t1 t2 t3 sk o
    by (simp add: incoming_try_def flip: o'_def)
      (simp add: s l other_error_def addOutstandingPing_def Let_def split: sum.splits)
qed

lemma ws_limit_incoming [simp]:
  assumes "ws_limit n t"
  shows "ws_limit n (WsTransport_incoming hs msg t)"
proof (cases msg)
  case None
  with assms show ?thesis by (simp add: WsTransport_incoming_def incoming_lost_def)
next
  case (Some data)
  obtain r t' where i: "incoming_try hs data t = (r, t')" by (metis surj_pair)
  have "ws_limit n t'"
    using ws_limit_incoming_try [OF assms, of hs data] i by simp
  with assms show ?thesis
    by (simp add: Some WsTransport_incoming_def i incoming_lost_def split: sum.split ws_error.split)
qed

datatype ws_call = WsStart | WsSend "Message option" | WsClose | WsIncoming "binary option" | WsCloseTimeout

definition ws_call_exec :: "handshake \<Rightarrow> ws_call \<Rightarrow> WsTransport \<Rightarrow> WsTransport" where
  "ws_call_exec hs call t =
     (case call of
        WsStart \<Rightarrow> snd (WsTransport_start hs t)
      | WsSend m \<Rightarrow> snd (WsTransport_send m t)
      | WsClose \<Rightarrow> WsTransport_close t
      | WsIncoming m \<Rightarrow> WsTransport_incoming hs m t
      | WsCloseTimeout \<Rightarrow> close_timeout t)"

lemma ws_limit_call: "ws_limit n t \<Longrightarrow> ws_limit n (ws_call_exec hs call t)"
  by (cases call) (simp_all add: ws_call_exec_def WsTransport_start_def close_timeout_def Let_def)

lemma ws_limit_calls: "ws_limit n t \<Longrightarrow> ws_limit n (fold (ws_call_exec hs) calls t)"
  by (induction calls arbitrary: t) (simp_all add: ws_limit_call)



section \<open>The 64-bit payload length\<close>

text \<open>The ten header bytes of an unmasked final frame whose payload length is \<open>2 ^ 64 - 10\<close>.\<close>

definition wrapping_header :: "u8 \<Rightarrow> binary" where
  "wrapping_header b1 = [b1, 0x7F, 0xFF, 0xFF, 0xFF, 0xFF, 0xFF, 0xFF, 0xFF, 0xF6]"

lemma parseFrame_wrapping:
  "\<exists>fr. parseFrame n (wrapping_header b1 @ d) = (0, fr, wrapping_header b1 @ d)"
proof -
  have l: "ntohll (ld64 (wrapping_header b1 @ d) 2) = - 10"
    by (simp add: ld64_def ld32_def ld16_def wrapping_header_def ld_numeral) code_simp
  then have p: "parseLength (wrapping_header b1 @ d) = Some (- 10, 10)"
    by (simp add: parseLength_def wrapping_header_def ld_numeral)
  have m: "ld8 (wrapping_header b1 @ d) (Suc 0) AND 128 = 0" and ten: "length (wrapping_header b1) = 10"
    by (simp_all add: wrapping_header_def)
  have s: "poke (wrapping_header b1 @ d) 10 (take k d) = wrapping_header b1 @ d" for k
    using poke_take_drop [of 10 "wrapping_header b1 @ d" k] ten by simp
  show ?thesis
    unfolding parseFrame_def p by (simp add: Let_def m ten s)
qed

lemma incoming_wrapping:
  assumes "ws_ready r" and "ws_buffer r @ data = wrapping_header b1 @ d" and "data \<noteq> []"
  shows "WsTransport_incoming hs (Some data) r = r\<lparr>ws_buffer := ws_buffer r @ data\<rparr>"
proof -
  let ?t = "r\<lparr>ws_buffer := ws_buffer r @ data\<rparr>"
  have "skip_ignored ?t = ?t"
    using assms(1) by (cases r) (simp add: skip_ignored_def ws_ready_def)
  moreover obtain fr where "parseFrame (ws_maxMessageSize r) (ws_buffer r @ data) = (0, fr, ws_buffer r @ data)"
    using parseFrame_wrapping [of _ b1 d] assms(2) by metis
  then have "recv_loop ?t = (Inr (), ?t)"
    by (simp add: recv_loop.simps [of ?t])
  ultimately show ?thesis
    using assms by (simp add: WsTransport_incoming_def incoming_try_def ws_ready_def other_error_def)
qed

lemma incoming_wrapping_all:
  assumes "ws_ready r" and "ws_buffer r = wrapping_header b1 @ d" and "\<forall>c \<in> set chunks. c \<noteq> []"
  shows "fold (\<lambda>c. WsTransport_incoming hs (Some c)) chunks r = r\<lparr>ws_buffer := ws_buffer r @ concat chunks\<rparr>"
  using assms
proof (induction chunks arbitrary: r d)
  case Nil
  then show ?case by simp
next
  case (Cons c chunks)
  let ?r = "r\<lparr>ws_buffer := ws_buffer r @ c\<rparr>"
  have "WsTransport_incoming hs (Some c) r = ?r"
    using incoming_wrapping [of r c b1 "d @ c" hs] Cons.prems by simp
  moreover have "fold (\<lambda>c. WsTransport_incoming hs (Some c)) chunks ?r = ?r\<lparr>ws_buffer := ws_buffer ?r @ concat chunks\<rparr>"
    using Cons.IH [of ?r "d @ c"] Cons.prems by (simp add: ws_ready_def)
  ultimately show ?case by simp
qed

text \<open>the payload length of a frame is trusted as a 64-bit number, and the frame length that \<open>parseFrame\<close> returns is
  computed modulo \<open>2 ^ 64\<close>: an unmasked frame of declared length \<open>2 ^ 64 - 10\<close> has total length 0, which the caller
  reads as \<open>incomplete\<close>. A connected transport that has read these ten bytes delivers nothing more, answers nothing
  more and stays connected, whatever follows; every byte it reads is kept in the buffer, without bound.\<close>

theorem ws_wrapping_length_wedges:
  assumes "ws_ready r" and "ws_buffer r = []" and "\<forall>c \<in> set chunks. c \<noteq> []"
  shows "fold (\<lambda>c. WsTransport_incoming hs (Some c)) ((wrapping_header b1 @ d) # chunks) r =
    r\<lparr>ws_buffer := wrapping_header b1 @ d @ concat chunks\<rparr>"
proof -
  let ?r = "r\<lparr>ws_buffer := wrapping_header b1 @ d\<rparr>"
  have "wrapping_header b1 @ d \<noteq> []"
    by (simp add: wrapping_header_def)
  then have "WsTransport_incoming hs (Some (wrapping_header b1 @ d)) r = ?r"
    using incoming_wrapping [of r "wrapping_header b1 @ d" b1 d hs] assms by simp
  moreover have "fold (\<lambda>c. WsTransport_incoming hs (Some c)) chunks ?r = ?r\<lparr>ws_buffer := ws_buffer ?r @ concat chunks\<rparr>"
    using assms(1,3) by (intro incoming_wrapping_all) (simp_all add: ws_ready_def)
  ultimately show ?thesis by simp
qed

theorem ws_wrapping_length_wedges_witness:
  defines "r \<equiv> (WsTransport_init False (Some 10) None 0 (\<lambda>_. 0))\<lparr>ws_state := (Connected, [])\<rparr>"
    and "hs \<equiv> \<lparr>hs_parseHttpResponse = \<lambda>_. Inr 0, hs_parseHttpRequest = \<lambda>_. Inr 0, hs_request = [],
      hs_response = \<lambda>_. [], hs_httpError = \<lambda>_. []\<rparr>"
  shows "ws_ready r \<and> ws_buffer r = [] \<and>
    ws_events (fold (\<lambda>c. WsTransport_incoming hs (Some c)) [wrapping_header 0x82, [0x82, 1, 9]] r) = []"
proof -
  have "ws_ready r" "ws_buffer r = []" "ws_events r = []"
    by (simp_all add: ws_ready_def r_def WsTransport_init_def)
  then show ?thesis
    using ws_wrapping_length_wedges [of r "[[0x82, 1, 9]]" hs "0x82" "[]"] by simp
qed

end
