(* ===== verification/Handshakes.thy ===== *)
theory Handshakes
  imports Utils WebSockets
begin

text \<open>
  The opening handshake of a WebSocket: \<open>src/impl/wshandshake.hpp\<close>, \<open>src/impl/wshandshake.cpp\<close>. The SHA-1 function
  of the TLS library is the parameter \<open>sha1\<close>; nothing is assumed of it. The random bytes of the key are an
  argument. A method that raises returns the state it leaves behind. \<open>ws_handshake\<close> packs the methods into the
  interface through which the transport uses them.
\<close>

record WsHandshake =
  wh_host :: string
  wh_path :: string
  wh_protocols :: "string list"
  wh_key :: string

definition WsHandshake_server :: WsHandshake where
  "WsHandshake_server = \<lparr>wh_host = [], wh_path = [], wh_protocols = [], wh_key = []\<rparr>"

definition WsHandshake_client :: "string \<Rightarrow> string \<Rightarrow> string list \<Rightarrow> WsHandshake result" where
  "WsHandshake_client host path protocols =
     (if host = [] then Inl (InvalidArgument ''WebSocket HTTP host cannot be empty'')
      else if path = [] then Inl (InvalidArgument ''WebSocket HTTP path cannot be empty'')
      else Inr \<lparr>wh_host = host, wh_path = path, wh_protocols = protocols, wh_key = []\<rparr>)"

definition CRLF :: string where "CRLF = [CR, LF]"

definition generateKey :: "binary \<Rightarrow> string" where
  "generateKey random = base64_encode (take 16 random)"

definition computeAcceptKey :: "(string \<Rightarrow> binary) \<Rightarrow> string \<Rightarrow> string" where
  "computeAcceptKey sha1 key = base64_encode (sha1 (key @ ''258EAFA5-E914-47DA-95CA-C5AB0DC85B11''))"

definition generateHttpRequest :: "binary \<Rightarrow> WsHandshake \<Rightarrow> string \<times> WsHandshake" where
  "generateHttpRequest random w =
     (let w = w\<lparr>wh_key := generateKey random\<rparr>
      in (''GET '' @ wh_path w @ '' HTTP/1.1'' @ CRLF @
          ''Host: '' @ wh_host w @ CRLF @
          ''Connection: Upgrade'' @ CRLF @
          ''Upgrade: websocket'' @ CRLF @
          ''Sec-WebSocket-Version: 13'' @ CRLF @
          ''Sec-WebSocket-Key: '' @ wh_key w @ CRLF @
          (if wh_protocols w \<noteq> [] then ''Sec-WebSocket-Protocol: '' @ implode (wh_protocols w) (CHR '','') @ CRLF else []) @
          CRLF, w))"

definition generateHttpResponse :: "(string \<Rightarrow> binary) \<Rightarrow> WsHandshake \<Rightarrow> string" where
  "generateHttpResponse sha1 w =
     ''HTTP/1.1 101 Switching Protocols'' @ CRLF @
     ''Server: libdatachannel'' @ CRLF @
     ''Connection: Upgrade'' @ CRLF @
     ''Upgrade: websocket'' @ CRLF @
     ''Sec-WebSocket-Accept: '' @ computeAcceptKey sha1 (wh_key w) @ CRLF @
     (if wh_protocols w \<noteq> [] then ''Sec-WebSocket-Protocol: '' @ implode (wh_protocols w) (CHR '','') @ CRLF else []) @
     CRLF"

definition GetHttpErrorName :: "int \<Rightarrow> string" where
  "GetHttpErrorName responseCode =
     (if responseCode = 400 then ''Bad Request'' else if responseCode = 404 then ''Not Found''
      else if responseCode = 405 then ''Method Not Allowed'' else if responseCode = 426 then ''Upgrade Required''
      else if responseCode = 500 then ''Internal Server Error'' else ''Error'')"

definition generateHttpError :: "int \<Rightarrow> string" where
  "generateHttpError responseCode =
     (let err = to_string responseCode @ '' '' @ GetHttpErrorName responseCode
      in ''HTTP/1.1 '' @ err @ CRLF @ ''Server: libdatachannel'' @ CRLF @ ''Content-Type: text/plain'' @ CRLF @
         ''Content-Length: '' @ to_string (int (length err)) @ CRLF @ ''Access-Control-Allow-Origin: *'' @ CRLF @ CRLF @ err)"

definition request_headers :: "(string \<times> string) list \<Rightarrow> WsHandshake \<Rightarrow> (ws_error + unit) \<times> WsHandshake" where
  "request_headers headers w =
     (case map_of headers ''host'' of
        None \<Rightarrow> (Inl (RequestError 400), w)
      | Some host \<Rightarrow>
          let w = w\<lparr>wh_host := host\<rparr>
          in case map_of headers ''upgrade'' of
               None \<Rightarrow> (Inl (RequestError 426), w)
             | Some upgrade \<Rightarrow>
                 if map tolower upgrade \<noteq> ''websocket'' then (Inl (RequestError 426), w)
                 else case map_of headers ''sec-websocket-key'' of
                        None \<Rightarrow> (Inl (RequestError 400), w)
                      | Some key \<Rightarrow>
                          let w = w\<lparr>wh_key := key\<rparr>
                          in (Inr (), case map_of headers ''sec-websocket-protocol'' of
                                        None \<Rightarrow> w
                                      | Some ps \<Rightarrow> w\<lparr>wh_protocols := explode ps (CHR '','')\<rparr>))"

definition parseHttpRequest :: "string \<Rightarrow> WsHandshake \<Rightarrow> (ws_error + nat) \<times> WsHandshake" where
  "parseHttpRequest buffer w =
     (if \<not> isHttpRequest buffer then (Inl (RequestError 400), w)
      else case parseHttpLines buffer of
             None \<Rightarrow> (Inr 0, w)
           | Some (len, []) \<Rightarrow> (Inl (RequestError 400), w)
           | Some (len, requestLine # lines) \<Rightarrow>
               (case extract_word requestLine of (httpMethod, rest) \<Rightarrow>
                  if httpMethod \<noteq> ''GET'' then (Inl (RequestError 405), w)
                  else case request_headers (parseHttpHeaders lines) (w\<lparr>wh_path := fst (extract_word rest)\<rparr>) of
                         (Inl e, w) \<Rightarrow> (Inl e, w)
                       | (Inr _, w) \<Rightarrow> (Inr len, w)))"

definition response_headers :: "(string \<Rightarrow> binary) \<Rightarrow> (string \<times> string) list \<Rightarrow> WsHandshake \<Rightarrow> ws_error + unit" where
  "response_headers sha1 headers w =
     (case map_of headers ''upgrade'' of
        None \<Rightarrow> Inl (HandshakeError ''WebSocket update header missing'')
      | Some upgrade \<Rightarrow>
          if map tolower upgrade \<noteq> ''websocket'' then Inl (HandshakeError ''WebSocket update header mismatching'')
          else case map_of headers ''sec-websocket-accept'' of
                 None \<Rightarrow> Inl (HandshakeError ''WebSocket accept header missing'')
               | Some accept \<Rightarrow>
                   if accept \<noteq> computeAcceptKey sha1 (wh_key w) then Inl (HandshakeError ''WebSocket accept header is invalid'')
                   else Inr ())"

definition parseHttpResponse :: "(string \<Rightarrow> binary) \<Rightarrow> string \<Rightarrow> WsHandshake \<Rightarrow> ws_error + nat" where
  "parseHttpResponse sha1 buffer w =
     (case parseHttpLines buffer of
        None \<Rightarrow> Inr 0
      | Some (len, []) \<Rightarrow> Inl (HandshakeError ''Invalid HTTP response for WebSocket'')
      | Some (len, status # lines) \<Rightarrow>
          let code = extract_uint (snd (extract_word status))
          in if code \<noteq> 101
             then Inl (OtherError (RuntimeError (''Unexpected response code '' @ to_string (uint code) @ '' for WebSocket'')))
             else case response_headers sha1 (parseHttpHeaders lines) w of
                    Inl e \<Rightarrow> Inl e
                  | Inr _ \<Rightarrow> Inr len)"

text \<open>The methods as the transport calls them, on byte buffers. The response is generated from the state that the
  successful \<open>parseHttpRequest\<close> of the same buffer left behind.\<close>

definition ws_handshake :: "(string \<Rightarrow> binary) \<Rightarrow> binary \<Rightarrow> WsHandshake \<Rightarrow> handshake" where
  "ws_handshake sha1 random w =
     (case generateHttpRequest random w of (request, w') \<Rightarrow>
        \<lparr>hs_parseHttpResponse = \<lambda>b. parseHttpResponse sha1 (bytes_string b) w',
         hs_parseHttpRequest = \<lambda>b. fst (parseHttpRequest (bytes_string b) w),
         hs_request = string_bytes request,
         hs_response = \<lambda>b. string_bytes (generateHttpResponse sha1 (snd (parseHttpRequest (bytes_string b) w))),
         hs_httpError = \<lambda>code. string_bytes (generateHttpError code)\<rparr>)"

section \<open>The two ends of a handshake agree\<close>

definition protocol_lines :: "string list \<Rightarrow> string list" where
  "protocol_lines ps = (if ps \<noteq> [] then [''Sec-WebSocket-Protocol: '' @ implode ps (CHR '','')] else [])"

definition request_lines :: "WsHandshake \<Rightarrow> string list" where
  "request_lines w =
     [''GET '' @ wh_path w @ '' HTTP/1.1'', ''Host: '' @ wh_host w, ''Connection: Upgrade'', ''Upgrade: websocket'',
      ''Sec-WebSocket-Version: 13'', ''Sec-WebSocket-Key: '' @ wh_key w] @ protocol_lines (wh_protocols w)"

definition response_lines :: "(string \<Rightarrow> binary) \<Rightarrow> WsHandshake \<Rightarrow> string list" where
  "response_lines sha1 w =
     [''HTTP/1.1 101 Switching Protocols'', ''Server: libdatachannel'', ''Connection: Upgrade'', ''Upgrade: websocket'',
      ''Sec-WebSocket-Accept: '' @ computeAcceptKey sha1 (wh_key w)] @ protocol_lines (wh_protocols w)"

text \<open>What the strings of a client must satisfy to fit into the lines of a request.\<close>

definition token_ok :: "string \<Rightarrow> bool" where
  "token_ok s \<longleftrightarrow> CR \<notin> set s \<and> LF \<notin> set s \<and> (s = [] \<or> hd s \<noteq> CHR '' '')"

definition handshake_ok :: "WsHandshake \<Rightarrow> bool" where
  "handshake_ok w \<longleftrightarrow>
     token_ok (wh_host w) \<and> wh_path w \<noteq> [] \<and> (\<forall>c \<in> set (wh_path w). \<not> isspace c) \<and>
     (\<forall>p \<in> set (wh_protocols w). token_ok p \<and> CHR '','' \<notin> set p) \<and>
     (wh_protocols w = [] \<or> last (wh_protocols w) \<noteq> [])"

lemma generateHttpRequest_text:
  "generateHttpRequest random w =
     (http_text (request_lines (w\<lparr>wh_key := generateKey random\<rparr>)), w\<lparr>wh_key := generateKey random\<rparr>)"
  by (simp add: generateHttpRequest_def request_lines_def protocol_lines_def http_text_def CRLF_def)

lemma generateHttpResponse_text: "generateHttpResponse sha1 w = http_text (response_lines sha1 w)"
  by (simp add: generateHttpResponse_def response_lines_def protocol_lines_def http_text_def CRLF_def)

lemma set_implode: "set (implode ts d) \<subseteq> insert d (\<Union> (set ` set ts))"
  by (auto simp: implode_def Let_def dest!: in_set_butlastD split: if_splits)

lemma token_ok_implode:
  assumes "\<forall>p \<in> set ps. token_ok p \<and> CHR '','' \<notin> set p"
  shows "token_ok (implode ps (CHR '',''))"
proof -
  have "hd (implode ps (CHR '','')) \<noteq> CHR '' ''" if "implode ps (CHR '','') \<noteq> []"
  proof (cases ps)
    case (Cons p ps')
    show ?thesis
    proof (cases "ps' = []")
      case True
      then show ?thesis using assms that Cons by (simp add: implode_def token_ok_def)
    next
      case False
      then show ?thesis using assms Cons by (cases p) (simp_all add: implode_Cons token_ok_def)
    qed
  qed (use that in \<open>simp add: implode_def\<close>)
  then show ?thesis using assms set_implode [of ps "CHR '',''"] by (fastforce simp: token_ok_def)
qed

lemma token_ok_base64: "token_ok (base64_encode data)"
proof -
  have "CR \<notin> set (base64_encode data)" "LF \<notin> set (base64_encode data)" "CHR '' '' \<notin> set (base64_encode data)"
    using base64_set [of data] by (auto simp: base64_tab_def subset_iff)
  then show ?thesis unfolding token_ok_def using hd_in_set by metis
qed

lemma handshake_ok_key [simp]: "handshake_ok (w\<lparr>wh_key := k\<rparr>) = handshake_ok w"
  by (simp add: handshake_ok_def)

lemma protocol_lines_ok: "\<forall>p \<in> set ps. token_ok p \<and> CHR '','' \<notin> set p \<Longrightarrow> \<forall>l \<in> set (protocol_lines ps). line_ok l"
  using token_ok_implode [of ps] by (auto simp: protocol_lines_def line_ok_def token_ok_def)

lemma request_lines_ok:
  assumes "handshake_ok w" and "token_ok (wh_key w)"
  shows "\<forall>l \<in> set (request_lines w). line_ok l"
proof -
  have "CR \<notin> set (wh_path w)" "LF \<notin> set (wh_path w)"
    using assms(1) by (auto simp: handshake_ok_def isspace_def)
  then show ?thesis
    using assms protocol_lines_ok [of "wh_protocols w"]
    by (simp add: request_lines_def handshake_ok_def ball_Un) (simp add: line_ok_def token_ok_def)
qed

lemma response_lines_ok:
  assumes "handshake_ok w"
  shows "\<forall>l \<in> set (response_lines sha1 w). line_ok l"
  using assms protocol_lines_ok [of "wh_protocols w"] token_ok_base64
  by (simp add: response_lines_def handshake_ok_def ball_Un) (simp add: line_ok_def token_ok_def computeAcceptKey_def)

lemma header_names:
  "map tolower ''Host'' = ''host''" "map tolower ''Connection'' = ''connection''" "map tolower ''Upgrade'' = ''upgrade''"
  "map tolower ''Sec-WebSocket-Version'' = ''sec-websocket-version''" "map tolower ''Sec-WebSocket-Key'' = ''sec-websocket-key''"
  "map tolower ''Sec-WebSocket-Protocol'' = ''sec-websocket-protocol''" "map tolower ''Server'' = ''server''"
  "map tolower ''Sec-WebSocket-Accept'' = ''sec-websocket-accept''"
  by code_simp+

lemmas header_fields =
  parseHttpHeader_field [of "''Host''", unfolded header_names, simplified]
  parseHttpHeader_field [of "''Connection''", unfolded header_names, simplified]
  parseHttpHeader_field [of "''Upgrade''", unfolded header_names, simplified]
  parseHttpHeader_field [of "''Sec-WebSocket-Version''", unfolded header_names, simplified]
  parseHttpHeader_field [of "''Sec-WebSocket-Key''", unfolded header_names, simplified]
  parseHttpHeader_field [of "''Sec-WebSocket-Protocol''", unfolded header_names, simplified]
  parseHttpHeader_field [of "''Server''", unfolded header_names, simplified]
  parseHttpHeader_field [of "''Sec-WebSocket-Accept''", unfolded header_names, simplified]

lemma parseHttpHeaders_request:
  assumes "handshake_ok w" and "token_ok (wh_key w)"
  shows "parseHttpHeaders (tl (request_lines w)) =
    [(''host'', wh_host w), (''connection'', ''Upgrade''), (''upgrade'', ''websocket''), (''sec-websocket-version'', ''13''),
     (''sec-websocket-key'', wh_key w)] @
    (if wh_protocols w \<noteq> [] then [(''sec-websocket-protocol'', implode (wh_protocols w) (CHR '',''))] else [])"
proof -
  have "token_ok (implode (wh_protocols w) (CHR '',''))"
    using assms(1) by (intro token_ok_implode) (simp add: handshake_ok_def)
  then show ?thesis
    using assms
    by (simp add: parseHttpHeaders_def request_lines_def protocol_lines_def token_ok_def handshake_ok_def header_fields)
qed

lemma parseHttpHeaders_response:
  assumes "handshake_ok w"
  shows "parseHttpHeaders (tl (response_lines sha1 w)) =
    [(''server'', ''libdatachannel''), (''connection'', ''Upgrade''), (''upgrade'', ''websocket''),
     (''sec-websocket-accept'', computeAcceptKey sha1 (wh_key w))] @
    (if wh_protocols w \<noteq> [] then [(''sec-websocket-protocol'', implode (wh_protocols w) (CHR '',''))] else [])"
proof -
  have "token_ok (implode (wh_protocols w) (CHR '',''))"
    using assms(1) by (intro token_ok_implode) (simp add: handshake_ok_def)
  then show ?thesis
    using token_ok_base64
    by (simp add: parseHttpHeaders_def response_lines_def protocol_lines_def token_ok_def computeAcceptKey_def header_fields)
qed

lemma isspace_chars [simp]:
  "isspace (CHR '' '')" "\<not> isspace (CHR ''G'')" "\<not> isspace (CHR ''E'')" "\<not> isspace (CHR ''T'')" "\<not> isspace (CHR ''H'')"
  "\<not> isspace (CHR ''P'')" "\<not> isspace (CHR ''/'')" "\<not> isspace (CHR ''1'')" "\<not> isspace (CHR ''0'')" "\<not> isspace (CHR ''.'')"
  by (simp_all add: isspace_def)

lemma extract_word_word:
  assumes "\<forall>c \<in> set p. \<not> isspace c" and "p \<noteq> []" and "isspace d"
  shows "extract_word (p @ d # s) = (p, d # s)" and "extract_word (CHR '' '' # p @ d # s) = (p, d # s)"
proof -
  have "takeWhile (\<lambda>c. \<not> isspace c) (p @ d # s) = p" "dropWhile (\<lambda>c. \<not> isspace c) (p @ d # s) = d # s"
    using assms by (simp_all add: span_until)
  moreover have "dropWhile isspace (p @ d # s) = p @ d # s"
    using assms by (cases p) auto
  ultimately show "extract_word (p @ d # s) = (p, d # s)" "extract_word (CHR '' '' # p @ d # s) = (p, d # s)"
    by (simp_all add: extract_word_def)
qed

lemma isHttpRequest_prefix:
  assumes "b @ z = ''GET '' @ s"
  shows "isHttpRequest b"
proof -
  have "httpMethod_loop 0 (b @ z)" by (simp add: assms)
  then show ?thesis unfolding isHttpRequest_def by (rule httpMethod_loop_prefix)
qed

lemma request_headers_ok:
  assumes "handshake_ok w"
  shows "request_headers
      ([(''host'', wh_host w), (''connection'', ''Upgrade''), (''upgrade'', ''websocket''), (''sec-websocket-version'', ''13''),
        (''sec-websocket-key'', wh_key w)] @
       (if wh_protocols w \<noteq> [] then [(''sec-websocket-protocol'', implode (wh_protocols w) (CHR '',''))] else []))
      (WsHandshake_server\<lparr>wh_path := wh_path w\<rparr>) = (Inr (), w)"
proof -
  have "explode (implode (wh_protocols w) (CHR '','')) (CHR '','') = wh_protocols w"
    using assms by (intro explode_implode) (auto simp: handshake_ok_def)
  then show ?thesis
    by (cases w) (simp add: request_headers_def WsHandshake_server_def tolower_def)
qed

lemma parseHttpRequest_request:
  assumes "handshake_ok w" and "token_ok (wh_key w)"
  shows "parseHttpRequest (http_text (request_lines w) @ rest) WsHandshake_server = (Inr (length (http_text (request_lines w))), w)"
proof -
  let ?r = "''GET '' @ wh_path w @ '' HTTP/1.1''"
  have r: "isHttpRequest (http_text (request_lines w) @ rest)"
    by (rule isHttpRequest_prefix [where z = "[]" and s = "drop 4 (http_text (request_lines w) @ rest)"])
      (simp add: http_text_def request_lines_def)
  obtain ls where ls: "request_lines w = ?r # ls" and headers: "request_headers (parseHttpHeaders ls) (WsHandshake_server\<lparr>wh_path := wh_path w\<rparr>) = (Inr (), w)"
    using parseHttpHeaders_request [OF assms] request_headers_ok [OF assms(1)] by (simp add: request_lines_def)
  have "parseHttpLines (http_text (request_lines w) @ rest) = Some (length (http_text (request_lines w)), ?r # ls)"
    using parseHttpLines_text [OF request_lines_ok [OF assms]] ls by metis
  moreover have "extract_word ?r = (''GET'', CHR '' '' # wh_path w @ '' HTTP/1.1'')"
    and "fst (extract_word (CHR '' '' # wh_path w @ '' HTTP/1.1'')) = wh_path w"
    using assms(1) extract_word_word [of "''GET''" "CHR '' ''" "wh_path w @ '' HTTP/1.1''"]
      extract_word_word(2) [of "wh_path w" "CHR '' ''" "''HTTP/1.1''"] by (simp_all add: handshake_ok_def)
  ultimately show ?thesis
    using r headers by (simp add: parseHttpRequest_def)
qed

lemma parseHttpRequest_prefix:
  assumes "handshake_ok w" and "token_ok (wh_key w)" and "b @ z = http_text (request_lines w)" and "z \<noteq> []"
  shows "parseHttpRequest b s = (Inr 0, s)"
proof -
  have "isHttpRequest b"
    using assms(3) by (intro isHttpRequest_prefix [where z = z]) (simp add: http_text_def request_lines_def)
  then show ?thesis
    using parseHttpLines_prefix [OF request_lines_ok assms(3,4)] assms(1,2) by (simp add: parseHttpRequest_def)
qed

lemma response_headers_ok:
  assumes "wh_key c = wh_key w"
  shows "response_headers sha1
      ([(''server'', ''libdatachannel''), (''connection'', ''Upgrade''), (''upgrade'', ''websocket''),
        (''sec-websocket-accept'', computeAcceptKey sha1 (wh_key w))] @ ps) c = Inr ()"
  using assms by (simp add: response_headers_def tolower_def)

lemma response_code: "extract_uint (snd (extract_word ''HTTP/1.1 101 Switching Protocols'')) = 101"
  by (simp add: extract_uint_def extract_word_def isspace_def isdigit_def digits_value_def)

lemma parseHttpResponse_response:
  assumes "handshake_ok w" and "wh_key c = wh_key w"
  shows "parseHttpResponse sha1 (http_text (response_lines sha1 w) @ rest) c = Inr (length (http_text (response_lines sha1 w)))"
proof -
  obtain ls where ls: "response_lines sha1 w = ''HTTP/1.1 101 Switching Protocols'' # ls"
    and "response_headers sha1 (parseHttpHeaders ls) c = Inr ()"
    using parseHttpHeaders_response [OF assms(1)] response_headers_ok [OF assms(2)] by (simp add: response_lines_def)
  moreover have "parseHttpLines (http_text (response_lines sha1 w) @ rest) =
      Some (length (http_text (response_lines sha1 w)), ''HTTP/1.1 101 Switching Protocols'' # ls)"
    using parseHttpLines_text [OF response_lines_ok [OF assms(1)]] ls by metis
  ultimately show ?thesis
    by (simp add: parseHttpResponse_def response_code)
qed

lemma parseHttpResponse_prefix:
  assumes "handshake_ok w" and "b @ z = http_text (response_lines sha1 w)" and "z \<noteq> []"
  shows "parseHttpResponse sha1 b c = Inr 0"
  using parseHttpLines_prefix [OF response_lines_ok assms(2,3)] assms(1) by (simp add: parseHttpResponse_def)

text \<open>the two ends of a handshake understand each other. For a client whose host, path and protocols fit into header lines,
  the server that reads the client's request, with any bytes behind it, consumes exactly the request and ends with the
  client's path, host, protocols and key; the client that reads the response the server generates from them, with any bytes
  behind it, accepts it and consumes exactly the response. Neither end reacts to a proper prefix.\<close>

theorem handshake_agrees:
  assumes "handshake_ok w" and "generateHttpRequest random w = (request, w')"
  shows "parseHttpRequest (request @ rest) WsHandshake_server = (Inr (length request), w') \<and>
    wh_host w' = wh_host w \<and> wh_path w' = wh_path w \<and> wh_protocols w' = wh_protocols w \<and>
    parseHttpResponse sha1 (generateHttpResponse sha1 w' @ rest') w' = Inr (length (generateHttpResponse sha1 w')) \<and>
    (\<forall>b z. b @ z = request \<and> z \<noteq> [] \<longrightarrow> parseHttpRequest b WsHandshake_server = (Inr 0, WsHandshake_server)) \<and>
    (\<forall>b z. b @ z = generateHttpResponse sha1 w' \<and> z \<noteq> [] \<longrightarrow> parseHttpResponse sha1 b w' = Inr 0)"
proof -
  have w: "w' = w\<lparr>wh_key := generateKey random\<rparr>" "request = http_text (request_lines w')" "token_ok (wh_key w')"
    using assms(2) token_ok_base64 by (auto simp: generateHttpRequest_text generateKey_def)
  then have "handshake_ok w'" using assms(1) by simp
  then show ?thesis
    using w parseHttpRequest_request [of w'] parseHttpRequest_prefix [of w'] parseHttpResponse_response [of w' w']
      parseHttpResponse_prefix [of w'] by (intro conjI allI impI) (auto simp: generateHttpResponse_text)
qed

theorem handshake_agrees_witness:
  defines "w \<equiv> \<lparr>wh_host = ''example.org:8000'', wh_path = ''/chat'', wh_protocols = [''a'', ''b''], wh_key = []\<rparr>"
  shows "parseHttpRequest (fst (generateHttpRequest [1, 2, 3] w) @ ''tail'') WsHandshake_server =
      (Inr (length (fst (generateHttpRequest [1, 2, 3] w))), w\<lparr>wh_key := ''AQID''\<rparr>)"
proof -
  have "handshake_ok w" unfolding w_def by code_simp
  moreover have "generateKey [1, 2, 3] = ''AQID''" by code_simp
  ultimately show ?thesis
    using handshake_agrees [of w "[1, 2, 3]" "fst (generateHttpRequest [1, 2, 3] w)" "w\<lparr>wh_key := ''AQID''\<rparr>" "''tail''" "\<lambda>s. string_bytes s" "[]"]
    by (simp add: generateHttpRequest_text)
qed

section \<open>From the handshake to the messages\<close>

lemma skip_nothing [simp]: "ws_ignoreLength t = 0 \<Longrightarrow> skip_ignored t = t"
  by (cases t) (simp add: skip_ignored_def)

lemma incoming_open:
  assumes "fst (ws_state t) = Connecting" and "d \<noteq> []" and "ws_open hs (t\<lparr>ws_buffer := ws_buffer t @ d\<rparr>) = (Inr (), t')"
  shows "fst (ws_state t') = Connecting \<Longrightarrow> WsTransport_incoming hs (Some d) t = t'"
    and "ws_ready t' \<Longrightarrow> recv_loop t' = (Inr (), t'') \<Longrightarrow> WsTransport_incoming hs (Some d) t = t''"
  using assms by (simp_all add: WsTransport_incoming_def incoming_try_def ws_ready_def other_error_def)

text \<open>A transport that opens on the text \<open>H\<close> and on no proper prefix of it, reading any chunks of \<open>H\<close> and what follows:
  it enters the loop over the frames with the rest of the chunk that completes \<open>H\<close>.\<close>

definition opens_on :: "handshake \<Rightarrow> binary \<Rightarrow> WsTransport \<Rightarrow> WsTransport \<Rightarrow> bool" where
  "opens_on hs H t t' \<longleftrightarrow>
     (\<forall>b z. b @ z = H \<and> z \<noteq> [] \<longrightarrow> ws_open hs (t\<lparr>ws_buffer := b\<rparr>) = (Inr (), t\<lparr>ws_buffer := b\<rparr>)) \<and>
     (\<forall>rest. ws_open hs (t\<lparr>ws_buffer := H @ rest\<rparr>) = (Inr (), t'\<lparr>ws_buffer := rest\<rparr>)) \<and>
     fst (ws_state t) = Connecting \<and> ws_ready t'"

lemma open_chunks:
  assumes "opens_on hs H t t'" and "b @ concat chunks = H @ R" and "length b < length H" and "\<forall>d \<in> set chunks. d \<noteq> []"
  shows "\<exists>rest chunks'. rest @ concat chunks' = R \<and> set chunks' \<subseteq> set chunks \<and>
    (\<forall>u. recv_loop (t'\<lparr>ws_buffer := rest\<rparr>) = (Inr (), u) \<longrightarrow>
      fold (\<lambda>d. WsTransport_incoming hs (Some d)) chunks (t\<lparr>ws_buffer := b\<rparr>) =
      fold (\<lambda>d. WsTransport_incoming hs (Some d)) chunks' u)"
  using assms(2-4)
proof (induction chunks arbitrary: b)
  case Nil
  then have "length b = length (H @ R)" by simp
  then show ?case using Nil.prems(2) by simp
next
  case (Cons d chunks)
  let ?t = "t\<lparr>ws_buffer := b\<rparr>"
  have t: "fst (ws_state t) = Connecting" "d \<noteq> []" using assms(1) Cons.prems(3) by (simp_all add: opens_on_def)
  show ?case
  proof (cases "length (b @ d) < length H")
    case True
    then have "take (length (b @ d)) H = b @ d"
      using arg_cong [OF Cons.prems(1), of "take (length (b @ d))"] by simp
    then have "ws_open hs (t\<lparr>ws_buffer := b @ d\<rparr>) = (Inr (), t\<lparr>ws_buffer := b @ d\<rparr>)"
      using assms(1) True append_take_drop_id [of "length (b @ d)" H] unfolding opens_on_def by (metis drop_eq_Nil not_less)
    then have "WsTransport_incoming hs (Some d) ?t = t\<lparr>ws_buffer := b @ d\<rparr>"
      using t by (intro incoming_open(1)) simp_all
    then show ?thesis using Cons.IH [of "b @ d"] Cons.prems True by auto
  next
    case False
    then have "take (length H) (b @ d) = H"
      using arg_cong [OF Cons.prems(1), of "take (length H)"] by simp
    then obtain rest where bd: "b @ d = H @ rest" by (metis append_take_drop_id)
    have "rest @ concat chunks = R"
      using Cons.prems(1) bd by (metis append.assoc concat.simps(2) same_append_eq)
    moreover have "WsTransport_incoming hs (Some d) ?t = u" if "recv_loop (t'\<lparr>ws_buffer := rest\<rparr>) = (Inr (), u)" for u
      using assms(1) t bd that by (intro incoming_open(2) [where t' = "t'\<lparr>ws_buffer := rest\<rparr>"]) (simp_all add: opens_on_def ws_ready_def)
    ultimately show ?thesis by (intro exI [of _ rest] exI [of _ chunks]) auto
  qed
qed

lemma open_exactly:
  assumes "opens_on hs H t t'" and "ws_buffer t = []" and "concat chunks = H" and "H \<noteq> []" and "\<forall>d \<in> set chunks. d \<noteq> []"
  shows "fold (\<lambda>d. WsTransport_incoming hs (Some d)) chunks t = t'\<lparr>ws_buffer := []\<rparr>"
proof -
  have "recv_loop (t'\<lparr>ws_buffer := []\<rparr>) = (Inr (), t'\<lparr>ws_buffer := []\<rparr>)"
    by (subst recv_loop.simps) (simp add: parseFrame_def)
  moreover have "t\<lparr>ws_buffer := []\<rparr> = t" using assms(2) by (cases t) simp
  ultimately obtain chunks' where c: "concat chunks' = []" "set chunks' \<subseteq> set chunks"
      "fold (\<lambda>d. WsTransport_incoming hs (Some d)) chunks t = fold (\<lambda>d. WsTransport_incoming hs (Some d)) chunks' (t'\<lparr>ws_buffer := []\<rparr>)"
    using open_chunks [OF assms(1), of "[]" chunks "[]"] assms(3-5) by auto
  moreover have "chunks' = []" using c(1,2) assms(5) by (cases chunks') auto
  ultimately show ?thesis by simp
qed

lemma open_then_messages:
  assumes "opens_on hs H t t'" and "ws_buffer t = []" and "concat chunks = H @ wire c kms" and "H \<noteq> []"
    and "\<forall>d \<in> set chunks. d \<noteq> []"
    and "\<forall>(key, m) \<in> set kms. length key = 4 \<and> length (msg_data m) \<le> ws_maxMessageSize t'"
  defines "r \<equiv> fold (\<lambda>d. WsTransport_incoming hs (Some d)) chunks t"
  shows "ws_events r = ws_events t' @ map (\<lambda>(key, m). ws_delivered m) kms \<and> ws_buffer r = [] \<and> ws_ready r"
proof -
  have t: "t\<lparr>ws_buffer := []\<rparr> = t" using assms(2) by (cases t) simp
  obtain rest chunks' where c: "rest @ concat chunks' = wire c kms" "\<forall>d \<in> set chunks'. d \<noteq> []"
      "\<forall>u. recv_loop (t'\<lparr>ws_buffer := rest\<rparr>) = (Inr (), u) \<longrightarrow> r = fold (\<lambda>d. WsTransport_incoming hs (Some d)) chunks' u"
    using open_chunks [OF assms(1), of "[]" chunks "wire c kms"] assms(3-5) t unfolding r_def by auto
  have "ws_ready (t'\<lparr>ws_buffer := rest\<rparr>)" using assms(1) by (simp add: ws_ready_def opens_on_def)
  then obtain k u where u: "recv_loop (t'\<lparr>ws_buffer := rest\<rparr>) = (Inr (), u)" "ws_ready u" "ws_maxMessageSize u = ws_maxMessageSize t'"
      "ws_events u = ws_events t' @ map (\<lambda>(key, m). ws_delivered m) (take k kms)"
      "ws_buffer u @ concat chunks' = wire c (drop k kms)" "concat chunks' = [] \<longrightarrow> length kms \<le> k"
    using recv_loop_messages [of kms "t'\<lparr>ws_buffer := rest\<rparr>" "concat chunks'" c] assms(6) c(1) by auto
  have "\<forall>(key, m) \<in> set (drop k kms). length key = 4 \<and> length (msg_data m) \<le> ws_maxMessageSize u"
    using assms(6) u(3) by (auto dest: in_set_dropD)
  then show ?thesis
    using incoming_messages [of "drop k kms" u chunks' c hs] u c(2,3) by (simp flip: map_append)
qed

lemma bytes_string_append [simp]: "bytes_string (a @ b) = bytes_string a @ bytes_string b"
  by (simp add: bytes_string_def)

lemma bytes_string_Nil [simp]: "bytes_string b = [] \<longleftrightarrow> b = []"
  by (simp add: bytes_string_def)

lemma string_bytes_Nil [simp]: "string_bytes s = [] \<longleftrightarrow> s = []"
  by (simp add: string_bytes_def)

lemma string_bytes_split:
  assumes "b @ z = string_bytes s" and "z \<noteq> []"
  shows "bytes_string b @ bytes_string z = s" and "bytes_string z \<noteq> []"
  using arg_cong [OF assms(1), of bytes_string] assms(2) by simp_all

lemma http_text_nonempty [simp]: "http_text ls \<noteq> []"
  by (simp add: http_text_def)

lemma client_opens:
  assumes "handshake_ok w" and "ws_isClient t" and "fst (ws_state t) = Connecting" and "ws_ready (ws_set_state Connected t)"
  shows "opens_on (ws_handshake sha1 random w) (string_bytes (generateHttpResponse sha1 (w\<lparr>wh_key := generateKey random\<rparr>))) t
    (ws_set_state Connected t)"
proof -
  let ?w = "w\<lparr>wh_key := generateKey random\<rparr>"
  have w: "handshake_ok ?w" using assms(1) by simp
  have "hs_parseHttpResponse (ws_handshake sha1 random w) = (\<lambda>b. parseHttpResponse sha1 (bytes_string b) ?w)"
    by (simp add: ws_handshake_def generateHttpRequest_text)
  then show ?thesis
    using parseHttpResponse_prefix [OF w string_bytes_split] parseHttpResponse_response [OF w refl] assms(2-)
    by (auto simp: opens_on_def ws_open_def generateHttpResponse_text ws_set_state_def)
qed

lemma server_opens:
  assumes "handshake_ok w" and "token_ok (wh_key w)" and "\<not> ws_isClient t" and "ws_lowerOpen t" and "fst (ws_state t) = Connecting"
    and "t' = ws_set_state Connected (ws_emit (WsOut (string_bytes (generateHttpResponse sha1 w))) t)" and "ws_ready t'"
  shows "opens_on (ws_handshake sha1 random WsHandshake_server) (string_bytes (http_text (request_lines w))) t t'"
proof -
  have "hs_parseHttpRequest (ws_handshake sha1 random WsHandshake_server) = (\<lambda>b. fst (parseHttpRequest (bytes_string b) WsHandshake_server))"
    "hs_response (ws_handshake sha1 random WsHandshake_server) =
      (\<lambda>b. string_bytes (generateHttpResponse sha1 (snd (parseHttpRequest (bytes_string b) WsHandshake_server))))"
    by (simp_all add: ws_handshake_def generateHttpRequest_text)
  then show ?thesis
    using parseHttpRequest_prefix [OF assms(1,2) string_bytes_split] parseHttpRequest_request [OF assms(1,2)] assms(3-)
    by (auto simp: opens_on_def ws_open_def ws_set_state_def ws_outgoing_def ws_emit_def)
qed

text \<open>C22. a WebSocket connection from its first byte to its last. A client transport starts with a well-formed host, path and
  protocol list, and a server transport of the same library reads the request in any non-empty chunks: it answers with one
  response and is connected, with nothing left in its buffer. The server then sends any messages. Whatever non-empty chunks
  the client reads of all the server has written, also chunks that hold the end of the response and the first frames
  together, it ends connected, having delivered exactly these messages in order, with an empty buffer.\<close>

theorem ws_session:
  assumes "handshake_ok w"
    and "client = ws_handshake sha1 random w" and "server = ws_handshake sha1 random' WsHandshake_server"
    and "c = snd (WsTransport_start client (WsTransport_init True n pings u rnd))"
    and "s = snd (WsTransport_start server (WsTransport_init False n' pings' u' rnd'))"
    and "ws_maxMessageSize c < 2 ^ 63" and "ws_maxMessageSize s < 2 ^ 63"
    and "concat chunks = wire_bytes (ws_events c)" and "\<forall>d \<in> set chunks. d \<noteq> []"
    and "s' = fold (\<lambda>d. WsTransport_incoming server (Some d)) chunks s"
    and "\<forall>m \<in> set ms. length (msg_data m) \<le> ws_maxMessageSize c"
    and "concat chunks' = wire_bytes (ws_events (fold (\<lambda>m s. snd (WsTransport_send (Some m) s)) ms s'))"
    and "\<forall>d \<in> set chunks'. d \<noteq> []"
    and "c' = fold (\<lambda>d. WsTransport_incoming client (Some d)) chunks' c"
  shows "fst (ws_state s') = Connected \<and> ws_buffer s' = [] \<and>
    ws_events s' = [WsOut (string_bytes (generateHttpResponse sha1 (snd (generateHttpRequest random w))))] \<and>
    fst (ws_state c') = Connected \<and> ws_buffer c' = [] \<and> ws_events c' = ws_events c @ map ws_delivered ms"
proof -
  let ?w = "w\<lparr>wh_key := generateKey random\<rparr>"
  let ?req = "string_bytes (http_text (request_lines ?w))" and ?resp = "string_bytes (generateHttpResponse sha1 ?w)"
  have w: "handshake_ok ?w" "token_ok (wh_key ?w)" using assms(1) token_ok_base64 by (simp_all add: generateKey_def)
  have c: "fst (ws_state c) = Connecting" "ws_isClient c" "ws_events c = [WsOut ?req]" "ws_buffer c = []" "ws_partial c = []" "ws_ignoreLength c = 0"
    unfolding assms(2,4)
    by (simp_all add: WsTransport_start_def WsTransport_init_def ws_set_state_def ws_outgoing_def ws_emit_def ws_handshake_def generateHttpRequest_text)
  have s: "fst (ws_state s) = Connecting" "\<not> ws_isClient s" "ws_events s = []" "ws_buffer s = []" "ws_partial s = []" "ws_ignoreLength s = 0" "ws_lowerOpen s"
    unfolding assms(5) by (simp_all add: WsTransport_start_def WsTransport_init_def ws_set_state_def)
  define s1 where "s1 = ws_set_state Connected (ws_emit (WsOut ?resp) s)"
  define c1 where "c1 = ws_set_state Connected c"
  have s1: "ws_ready s1" "ws_buffer s1 = []" "fst (ws_state s1) = Connected" "ws_lowerOpen s1" "ws_events s1 = [WsOut ?resp]"
    using s assms(7) by (simp_all add: s1_def ws_ready_def ws_set_state_def ws_emit_def)
  have c1: "ws_ready c1" "ws_events c1 = ws_events c" "ws_maxMessageSize c1 = ws_maxMessageSize c"
    using c assms(6) by (simp_all add: c1_def ws_ready_def ws_set_state_def)
  have "concat chunks = ?req" using assms(8) c(3) by (simp add: wire_bytes_def)
  then have "s' = s1\<lparr>ws_buffer := []\<rparr>"
    using open_exactly [OF server_opens [OF w s(2,7,1) s1_def s1(1)] s(4)] assms(3,9,10) by simp
  then have s': "s' = s1" using s1(2) by simp
  obtain keys where keys: "length keys = length ms" "\<forall>key \<in> set keys. length key = 4"
      "concat chunks' = ?resp @ wire (ws_isClient s1) (zip keys ms)"
    using send_messages [OF s1(3,4), of ms] assms(12) s1(5) s' by (auto simp: wire_bytes_def)
  have "\<forall>(key, m) \<in> set (zip keys ms). length key = 4 \<and> length (msg_data m) \<le> ws_maxMessageSize c1"
    using keys(2) assms(11) c1(3) by (auto dest: set_zip_leftD set_zip_rightD)
  then have "ws_events c' = ws_events c @ map (\<lambda>(key, m). ws_delivered m) (zip keys ms) \<and> ws_buffer c' = [] \<and> ws_ready c'"
    using open_then_messages [OF client_opens [OF assms(1) c(2,1), folded c1_def, OF c1(1)] c(4) keys(3)] assms(2,13,14) c1(2)
    by (simp add: generateHttpResponse_text)
  moreover have "map (\<lambda>(key, m). ws_delivered m) (zip keys ms) = map ws_delivered ms"
    using keys(1) by (simp add: case_prod_unfold flip: map_map [of ws_delivered snd, unfolded comp_def])
  ultimately show ?thesis
    using s1 s' by (simp add: generateHttpRequest_text ws_ready_def)
qed

theorem ws_session_witness:
  defines "w \<equiv> \<lparr>wh_host = ''example.org'', wh_path = ''/chat'', wh_protocols = [''a''], wh_key = []\<rparr>"
    and "sha1 \<equiv> (\<lambda>s. take 20 (string_bytes s))" and "m \<equiv> make_message [1, 2] Binary 0 None None"
  defines "client \<equiv> ws_handshake sha1 [1, 2, 3] w" and "server \<equiv> ws_handshake sha1 [] WsHandshake_server"
  defines "c \<equiv> snd (WsTransport_start client (WsTransport_init True (Some 10) None 0 (\<lambda>_. 7)))"
    and "s \<equiv> snd (WsTransport_start server (WsTransport_init False (Some 10) None 0 (\<lambda>_. 0)))"
  defines "chunks \<equiv> map (\<lambda>x. [x]) (wire_bytes (ws_events c))"
  defines "s' \<equiv> fold (\<lambda>d. WsTransport_incoming server (Some d)) chunks s"
  defines "chunks' \<equiv> map (\<lambda>x. [x]) (wire_bytes (ws_events (fold (\<lambda>m s. snd (WsTransport_send (Some m) s)) [m] s')))"
  shows "fst (ws_state s') = Connected \<and>
    ws_events (fold (\<lambda>d. WsTransport_incoming client (Some d)) chunks' c) = ws_events c @ [ws_delivered m]"
proof -
  have "handshake_ok w" unfolding w_def by code_simp
  moreover have "ws_maxMessageSize c = 10" "ws_maxMessageSize s = 10"
    by (simp_all add: c_def s_def WsTransport_start_def WsTransport_init_def ws_set_state_def ws_outgoing_def ws_emit_def)
  moreover have "length (msg_data m) \<le> 10" by (simp add: m_def make_message_def Message_init_def)
  moreover have "concat (map (\<lambda>x. [x]) b) = b" for b :: binary by (induction b) simp_all
  ultimately show ?thesis
    using ws_session [of w client sha1 "[1, 2, 3]" server "[]" c "Some 10" None 0 "\<lambda>_. 7" s "Some 10" None 0 "\<lambda>_. 0" chunks s'
        "[m]" chunks' "fold (\<lambda>d. WsTransport_incoming client (Some d)) chunks' c"]
    by (simp add: client_def [symmetric] server_def [symmetric] c_def [symmetric] s_def [symmetric] chunks_def chunks'_def s'_def)
qed

end
