(* ===== verification/Av1.thy ===== *)
theory Av1
  imports Depacketizer
begin

text \<open>
  The AV1 packetizer: \<open>src/av1rtppacketizer.cpp\<close>, \<open>include/rtc/av1rtppacketizer.hpp\<close>. A loop that never ends is
  \<open>None\<close>. An index outside a vector raises \<open>OutOfRange\<close> (the code uses \<open>at\<close>); a copy outside a buffer is
  \<open>OutOfBounds\<close>; a shift that the language leaves undefined is \<open>UndefinedBehaviour\<close>. The receiver at the end is
  written from the AV1 payload format, which the source has no depacketizer for.
\<close>

section \<open>Splitting a temporal unit\<close>

datatype Packetization = Obu | TemporalUnit

record AV1RtpPacketizer =
  av1_config :: RtpPacketizationConfig
  av1_maxFragmentSize :: u16
  av1_packetization :: Packetization
  av1_sequenceHeader :: "binary option"

definition AV1RtpPacketizer_init :: "Packetization \<Rightarrow> RtpPacketizationConfig \<Rightarrow> u16 \<Rightarrow> AV1RtpPacketizer" where
  "AV1RtpPacketizer_init packetization rtpConfig maxFragmentSize =
     \<lparr>av1_config = rtpConfig, av1_maxFragmentSize = maxFragmentSize, av1_packetization = packetization, av1_sequenceHeader = None\<rparr>"

text \<open>The loop that reads the length field. The test before \<open>at\<close> lets the index one behind the end through. From the
  sixth byte on the shift is by 35 bits or more.\<close>

function leb128_loop :: "binary \<Rightarrow> nat \<Rightarrow> u32 \<Rightarrow> nat \<Rightarrow> (u32 \<times> nat) result" where
  "leb128_loop message messageIndex obuLength leb128Size =
     (if leb128Size < 8 then
        let leb128Index = messageIndex + leb128Size + 1
        in if length message < leb128Index then Inr (obuLength, leb128Size)
           else if length message = leb128Index then Inl OutOfRange
           else let b = ld8 message leb128Index
                in if leb128Size \<ge> 5 \<or> leb128Size = 4 \<and> b AND 0x7F > 15 then Inl UndefinedBehaviour
                   else let obuLength = obuLength OR push_bit (leb128Size * 7) (ucast (b AND 0x7F))
                        in if b AND 0x80 = 0 then Inr (obuLength, leb128Size + 1)
                           else leb128_loop message messageIndex obuLength (leb128Size + 1)
      else Inr (obuLength, leb128Size))"
  by pat_completeness auto
termination by (relation "measure (\<lambda>(m, i, l, s). 8 - s)") auto

declare leb128_loop.simps [simp del]

text \<open>The index behind the unit is the sum of 32-bit numbers in the code; it does not wrap as long as the unit lies inside a
  message of less than 4 GiB, and a unit that does not lie inside is \<open>OutOfBounds\<close>.\<close>

function obus_loop :: "binary \<Rightarrow> nat \<Rightarrow> binary list result" where
  "obus_loop message messageIndex =
     (if messageIndex < length message then
        if ld8 message messageIndex AND 0x02 = 0 then Inr []
        else let start = (if ld8 message messageIndex AND 0x04 \<noteq> 0 then messageIndex + 1 else messageIndex)
             in case leb128_loop message start 0 0 of
                  Inl e \<Rightarrow> Inl e
                | Inr (obuLength, leb128Size) \<Rightarrow>
                    let next = start + 1 + leb128Size + unat obuLength
                    in if next > length message then Inl OutOfBounds
                       else map_sum id (Cons (slice start next message)) (obus_loop message next)
      else Inr [])"
  by pat_completeness auto
termination by (relation "measure (\<lambda>(m, i). length m - i)") (auto simp: Let_def split: if_splits)

declare obus_loop.simps [simp del]

definition extractTemporalUnitObus :: "binary \<Rightarrow> binary list result" where
  "extractTemporalUnitObus message =
     (if length message \<le> 2 \<or> ld8 message 0 \<noteq> 0x12 \<or> ld8 message 1 \<noteq> 0 then Inr []
      else obus_loop message 2)"

section \<open>Packetizing\<close>

text \<open>The loop of \<open>packetizeObu\<close>; \<open>continued\<close> is whether a payload was made before.\<close>

partial_function (option) obu_loop ::
  "binary \<Rightarrow> nat \<Rightarrow> binary option \<Rightarrow> nat \<Rightarrow> bool \<Rightarrow> binary list result option" where
  "obu_loop message maxFragmentSize sequenceHeader messageIndex continued =
     (if messageIndex < length message then
        let metadata = (case sequenceHeader of None \<Rightarrow> [] | Some h \<Rightarrow> (of_nat (length h) AND 0x7F) # h);
            obuCount = (if sequenceHeader = None then 1 else 2) :: u8;
            payloadSize = min maxFragmentSize (length message - messageIndex + 1 + length metadata)
        in if payloadSize < 1 \<or> sequenceHeader \<noteq> None \<and> payloadSize < 2 then Some (Inl OutOfRange)
           else if payloadSize < 1 + length metadata then Some (Inl OutOfBounds)
           else let payloadRemaining = payloadSize - 1 - length metadata;
                    next = messageIndex + payloadRemaining;
                    flags = push_bit 4 obuCount XOR (if sequenceHeader \<noteq> None then 0x08 else 0) XOR
                      (if continued then 0x80 else 0) XOR (if next < length message then 0x40 else 0);
                    payload = flags # metadata @ take payloadRemaining (drop messageIndex message)
                in Option.bind (obu_loop message maxFragmentSize None next True) (\<lambda>r. Some (map_sum id (Cons payload) r))
      else Some (Inr []))"

definition packetizeObu :: "binary \<Rightarrow> u16 \<Rightarrow> binary option \<Rightarrow> (binary list \<times> binary option) result option" where
  "packetizeObu message maxFragmentSize sequenceHeader =
     (if length message < 1 then Some (Inr ([], sequenceHeader))
      else if drop_bit 3 (ld8 message 0 AND 0x78) = 1 then Some (Inr ([], Some message))
      else map_option (map_sum id (\<lambda>payloads. (payloads, None)))
             (obu_loop message (unat maxFragmentSize) sequenceHeader 0 False))"

fun packetizeObus :: "binary list \<Rightarrow> u16 \<Rightarrow> binary option \<Rightarrow> (binary list \<times> binary option) result option" where
  "packetizeObus [] maxFragmentSize h = Some (Inr ([], h))"
| "packetizeObus (obu # obus) maxFragmentSize h =
     (case packetizeObu obu maxFragmentSize h of
        None \<Rightarrow> None
      | Some (Inl e) \<Rightarrow> Some (Inl e)
      | Some (Inr (p, h)) \<Rightarrow> map_option (map_sum id (map_prod (append p) id)) (packetizeObus obus maxFragmentSize h))"

fun AV1RtpPacketizer_outgoing :: "Message list \<Rightarrow> AV1RtpPacketizer \<Rightarrow> (Message list \<times> AV1RtpPacketizer) result option" where
  "AV1RtpPacketizer_outgoing [] p = Some (Inr ([], p))"
| "AV1RtpPacketizer_outgoing (message # messages) p =
     (case (if av1_packetization p = TemporalUnit then extractTemporalUnitObus (msg_data message) else Inr [msg_data message]) of
        Inl e \<Rightarrow> Some (Inl e)
      | Inr obus \<Rightarrow>
          (case packetizeObus obus (av1_maxFragmentSize p) (av1_sequenceHeader p) of
             None \<Rightarrow> None
           | Some (Inl e) \<Rightarrow> Some (Inl e)
           | Some (Inr (fragments, h)) \<Rightarrow>
               (case packetize_fragments fragments (av1_config p) of
                  Inl e \<Rightarrow> Some (Inl e)
                | Inr (ms, c) \<Rightarrow>
                    map_option (map_sum id (map_prod (append ms) id))
                      (AV1RtpPacketizer_outgoing messages (p\<lparr>av1_sequenceHeader := h, av1_config := c\<rparr>)))))"

section \<open>Temporal units are split into their OBUs\<close>

fun leb128 :: "nat \<Rightarrow> binary" where
  "leb128 n = (if n < 128 then [of_nat n] else of_nat (128 + n mod 128) # leb128 (n div 128))"

declare leb128.simps [simp del]

lemma u8_low7: "(w AND 0x80 = 0) = (unat w < 128)" "unat (w AND 0x7F) = unat w mod 128" for w :: u8
proof -
  have "(w AND 0x80 = 0) = (\<not> bit w 7)" by (simp add: u8_bits)
  moreover have "bit w 7 \<longleftrightarrow> odd (unat w div 128)" using bit_unsigned_iff [of w 7, where 'a = nat] by (simp add: bit_iff_odd [of "unat w"])
  moreover have "unat w < 256" using unsigned_less [of w, where 'a = nat] by simp
  then have "unat w div 128 = (if unat w < 128 then 0 else 1)" by (auto intro!: div_nat_eqI)
  then have "odd (unat w div 128) \<longleftrightarrow> \<not> unat w < 128" by simp
  ultimately show "(w AND 0x80 = 0) = (unat w < 128)" by blast
  have "w AND 0x7F = take_bit 7 w" by (simp add: take_bit_eq_mask mask_eq_exp_minus_1)
  then have "unat (w AND 0x7F) = take_bit 7 (unat w)" by (simp only: unsigned_take_bit_eq)
  then show "unat (w AND 0x7F) = unat w mod 128" by (simp add: take_bit_eq_mod)
qed

lemma leb128_byte:
  assumes "m < 128"
  shows "(of_nat m :: u8) AND 0x80 = 0" "(of_nat (128 + m) :: u8) AND 0x80 \<noteq> 0"
    "ucast ((of_nat m :: u8) AND 0x7F) = (of_nat m :: u32)" "ucast ((of_nat (128 + m) :: u8) AND 0x7F) = (of_nat m :: u32)"
    "(of_nat m :: u8) AND 0x7F = of_nat m"
proof -
  have u: "unat (of_nat m :: u8) = m" "unat (of_nat (128 + m) :: u8) = 128 + m"
    using assms by (simp_all only: unat_of_nat) simp_all
  show "(of_nat m :: u8) AND 0x80 = 0" "(of_nat (128 + m) :: u8) AND 0x80 \<noteq> 0"
    using assms by (simp_all only: u8_low7 u)
  have "(ucast w :: u32) = of_nat (unat w)" for w :: u8 by simp
  then show "ucast ((of_nat m :: u8) AND 0x7F) = (of_nat m :: u32)" "ucast ((of_nat (128 + m) :: u8) AND 0x7F) = (of_nat m :: u32)"
    using assms by (simp_all only: u8_low7 u) simp_all
  show "(of_nat m :: u8) AND 0x7F = of_nat m"
    using assms by (simp only: word_unat_eq_iff u8_low7 u) simp
qed

lemma of_nat_split: "(of_nat n :: u32) = of_nat (n mod 128) OR push_bit 7 (of_nat (n div 128))"
proof -
  have "n = take_bit 7 n OR push_bit 7 (drop_bit 7 n)" by (rule bit_eqI) (auto simp: bit_simps, metis le_add_diff_inverse not_less)
  then have "(of_nat n :: u32) = of_nat (take_bit 7 n OR push_bit 7 (drop_bit 7 n))" by simp
  then show ?thesis by (simp add: of_nat_or_eq of_nat_push_bit take_bit_eq_mod drop_bit_eq_div)
qed

lemma leb128_loop_leb128:
  assumes "n < 2 ^ (28 - 7 * k)" and "k < 4" and "length pre = start + k + 1"
  shows "leb128_loop (pre @ leb128 n @ rest) start acc k = Inr (acc OR push_bit (7 * k) (of_nat n), k + length (leb128 n))"
  using assms
proof (induction n arbitrary: k acc pre rule: leb128.induct)
  case (1 n)
  show ?case
  proof (cases "n < 128")
    case True
    then have l: "leb128 n = [of_nat n]" by (simp add: leb128.simps [of n])
    then have "ld8 (pre @ leb128 n @ rest) (start + k + 1) = of_nat n" using 1(4) by (simp add: ld8_def nth_default_append)
    then show ?thesis
      using True l 1(3,4) leb128_byte [OF True] by (subst leb128_loop.simps) (simp add: Let_def mult.commute)
  next
    case False
    then have l: "leb128 n = of_nat (128 + n mod 128) # leb128 (n div 128)" by (simp add: leb128.simps [of n])
    have k: "k < 3"
    proof (rule ccontr)
      assume "\<not> k < 3"
      then have "k = 3" using 1(3) by simp
      then show False using 1(2) False by simp
    qed
    then have "(2::nat) ^ (28 - 7 * k) = 2 ^ (28 - 7 * Suc k) * 128"
    proof -
      have "28 - 7 * k = (28 - 7 * Suc k) + 7" using k by simp
      then show ?thesis by (simp only: power_add) simp
    qed
    then have n: "n div 128 < 2 ^ (28 - 7 * Suc k)" using 1(2) by (simp add: less_mult_imp_div_less)
    have b: "ld8 (pre @ leb128 n @ rest) (start + k + 1) = of_nat (128 + n mod 128)" using 1(4) l by (simp add: ld8_def nth_default_append)
    have "leb128_loop (pre @ leb128 n @ rest) start acc k =
        leb128_loop (pre @ leb128 n @ rest) start (acc OR push_bit (k * 7) (of_nat (n mod 128))) (k + 1)"
      using k l 1(4) leb128_byte [of "n mod 128"] b by (subst leb128_loop.simps) (simp add: Let_def)
    also have "pre @ leb128 n @ rest = (pre @ [of_nat (128 + n mod 128)]) @ leb128 (n div 128) @ rest" by (simp add: l)
    also have "leb128_loop \<dots> start (acc OR push_bit (k * 7) (of_nat (n mod 128))) (k + 1) =
        Inr ((acc OR push_bit (k * 7) (of_nat (n mod 128))) OR push_bit (7 * (k + 1)) (of_nat (n div 128)), k + 1 + length (leb128 (n div 128)))"
      using 1(1) [OF False, of "k + 1" "pre @ [of_nat (128 + n mod 128)]"] n k 1(4) by simp
    also have "(acc OR push_bit (k * 7) (of_nat (n mod 128))) OR push_bit (7 * (k + 1)) (of_nat (n div 128)) = acc OR push_bit (7 * k) (of_nat n :: u32)"
      by (subst (3) of_nat_split) (simp add: push_bit_or or.assoc mult.commute push_bit_push_bit add.commute)
    finally show ?thesis by (simp add: l)
  qed
qed

text \<open>An OBU with a size field and without extension header.\<close>

definition obu :: "u8 \<Rightarrow> binary \<Rightarrow> binary" where
  "obu header payload = header # leb128 (length payload) @ payload"

definition obu_ok :: "u8 \<times> binary \<Rightarrow> bool" where
  "obu_ok hp \<longleftrightarrow> fst hp AND 0x02 \<noteq> 0 \<and> fst hp AND 0x04 = 0 \<and> length (snd hp) < 2 ^ 28"

lemma obus_loop_concat:
  assumes "\<forall>hp \<in> set hps. obu_ok hp"
  shows "obus_loop (pre @ concat (map (case_prod obu) hps)) (length pre) = Inr (map (case_prod obu) hps)"
  using assms
proof (induction hps arbitrary: pre)
  case Nil
  then show ?case by (simp add: obus_loop.simps)
next
  case (Cons hp hps)
  obtain h p where hp: "hp = (h, p)" by (cases hp)
  let ?rest = "concat (map (case_prod obu) hps)"
  let ?m = "pre @ obu h p @ ?rest"
  have ok: "h AND 0x02 \<noteq> 0" "h AND 0x04 = 0" "length p < 2 ^ 28" using Cons.prems hp by (simp_all add: obu_ok_def)
  have "ld8 ?m (length pre) = h" "length pre < length ?m" by (simp_all add: ld8_def nth_default_append obu_def)
  moreover have "leb128_loop ?m (length pre) 0 0 = Inr (of_nat (length p), length (leb128 (length p)))"
    using leb128_loop_leb128 [of "length p" 0 "pre @ [h]" "length pre" "p @ ?rest" 0] ok(3) by (simp add: obu_def)
  moreover have "unat (of_nat (length p) :: u32) = length p" using ok(3) by (simp add: unat_of_nat)
  moreover have "length (obu h p) = Suc (length (leb128 (length p)) + length p)" by (simp add: obu_def)
  moreover have "slice (length pre) (length pre + length (obu h p)) ?m = obu h p" by (simp add: slice_def)
  ultimately have "obus_loop ?m (length pre) = map_sum id (Cons (obu h p)) (obus_loop ?m (length (pre @ obu h p)))"
    using ok by (subst obus_loop.simps) (simp add: Let_def add.assoc)
  also have "obus_loop ?m (length (pre @ obu h p)) = Inr (map (case_prod obu) hps)"
    using Cons.IH [of "pre @ obu h p"] Cons.prems by simp
  finally show ?case by (simp add: hp)
qed

section \<open>A receiver of AV1 payloads\<close>

text \<open>The elements of a payload with \<open>W\<close> elements: all but the last are behind their length.\<close>

fun av1_elements :: "nat \<Rightarrow> binary \<Rightarrow> binary list" where
  "av1_elements 0 b = []"
| "av1_elements (Suc 0) b = [b]"
| "av1_elements (Suc (Suc n)) b =
     (case leb128_loop (0 # b) 0 0 0 of
        Inl _ \<Rightarrow> []
      | Inr (len, k) \<Rightarrow> slice k (k + unat len) b # av1_elements (Suc n) (drop (k + unat len) b))"

text \<open>Complete OBUs come out; the fragment that the next packet continues is kept.\<close>

fun av1_receive :: "binary \<Rightarrow> binary list \<Rightarrow> binary list \<times> binary" where
  "av1_receive partial [] = ([], partial)"
| "av1_receive partial (p # ps) =
     (let h = ld8 p 0; es = av1_elements (unat (drop_bit 4 h AND 0x03)) (drop 1 p);
          es = (if h AND 0x80 \<noteq> 0 then (partial @ hd es) # tl es else es);
          (complete, partial) = (if h AND 0x40 \<noteq> 0 then (butlast es, last es) else (es, []));
          (obus, partial) = av1_receive partial ps
      in (complete @ obus, partial))"

definition header_fits :: "nat \<Rightarrow> binary option \<Rightarrow> bool" where
  "header_fits maxFragmentSize h \<longleftrightarrow> 2 \<le> maxFragmentSize \<and> (case h of None \<Rightarrow> True | Some h \<Rightarrow> length h < 128 \<and> length h + 2 \<le> maxFragmentSize)"

definition av1_flags :: "bool \<Rightarrow> bool \<Rightarrow> bool \<Rightarrow> u8" where
  "av1_flags h z y = push_bit 4 (if h then 2 else 1) XOR (if h then 0x08 else 0) XOR (if z then 0x80 else 0) XOR (if y then 0x40 else 0)"

lemma av1_flags:
  "unat (drop_bit 4 (av1_flags h z y) AND 0x03) = (if h then 2 else 1)" "av1_flags h z y AND 0x80 \<noteq> 0 \<longleftrightarrow> z" "av1_flags h z y AND 0x40 \<noteq> 0 \<longleftrightarrow> y"
  by (cases h; cases z; cases y; simp add: av1_flags_def)+

definition metadata :: "binary option \<Rightarrow> binary" where
  "metadata h = (case h of None \<Rightarrow> [] | Some h \<Rightarrow> (of_nat (length h) AND 0x7F) # h)"

lemma av1_elements_payload:
  assumes "header_fits n h"
  shows "av1_elements (if h = None then 1 else 2) (metadata h @ d) = (case h of None \<Rightarrow> [d] | Some h \<Rightarrow> [h, d])"
proof (cases h)
  case None
  then show ?thesis by (simp add: metadata_def)
next
  case (Some s)
  then have s: "length s < 128" using assms by (simp add: header_fits_def)
  then have b: "(of_nat (length s) :: u8) AND 0x7F = of_nat (length s)" by (rule leb128_byte)
  have l: "leb128 (length s) = [of_nat (length s)]" using s by (simp add: leb128.simps [of "length s"])
  then have "leb128_loop (0 # metadata h @ d) 0 0 0 = Inr (of_nat (length s), 1)"
    using leb128_loop_leb128 [of "length s" 0 "[0]" 0 "s @ d" 0] s by (simp add: Some metadata_def b)
  moreover have "unat (of_nat (length s) :: u32) = length s" using s by (simp add: unat_of_nat)
  ultimately show ?thesis by (simp add: Some metadata_def slice_def numeral_2_eq_2)
qed

text \<open>One step of the loop: the payload and what the receiver makes of it.\<close>

lemma obu_loop_step:
  assumes "i < length m" and "header_fits n h"
  defines "k \<equiv> min n (length m - i + 1 + length (metadata h)) - 1 - length (metadata h)"
  shows "obu_loop m n h i z = Option.bind (obu_loop m n None (i + k) True)
      (\<lambda>r. Some (map_sum id (Cons (av1_flags (h \<noteq> None) z (i + k < length m) # metadata h @ take k (drop i m))) r))"
    and "k \<le> length m - i" and "h = None \<longrightarrow> 0 < k" and "Suc (length (metadata h) + k) \<le> n"
proof -
  have n: "1 + length (metadata h) \<le> n" "2 \<le> n" "h = None \<longrightarrow> metadata h = []"
    using assms(2) by (auto simp: header_fits_def metadata_def split: option.splits)
  show "k \<le> length m - i" "h = None \<longrightarrow> 0 < k" "Suc (length (metadata h) + k) \<le> n"
    using n assms(1) by (auto simp: k_def)
  show "obu_loop m n h i z = Option.bind (obu_loop m n None (i + k) True)
      (\<lambda>r. Some (map_sum id (Cons (av1_flags (h \<noteq> None) z (i + k < length m) # metadata h @ take k (drop i m))) r))"
  proof -
    let ?p = "min n (length m - i + 1 + length (metadata h))"
    have p: "\<not> (?p < 1 \<or> h \<noteq> None \<and> ?p < 2)" "\<not> ?p < 1 + length (metadata h)"
      using n assms(1) by (auto simp: min_def)
    have "(case h of None \<Rightarrow> [] | Some h \<Rightarrow> (of_nat (length h) AND 0x7F) # h) = metadata h" by (simp add: metadata_def)
    moreover have "(if h = None then 1 else 2 :: u8) = (if h \<noteq> None then 2 else 1)" by simp
    ultimately show ?thesis
      unfolding k_def av1_flags_def using assms(1) p by (subst obu_loop.simps) (simp only: Let_def if_True if_False)
  qed
qed

lemma av1_receive_step:
  assumes "header_fits n h" and "h \<noteq> None \<longrightarrow> \<not> z" and "z \<or> i = 0"
    and "av1_receive (if y then take (i + k) m else []) ps = (obus, partial)"
  shows "av1_receive (take i m) ((av1_flags (h \<noteq> None) z y # metadata h @ take k (drop i m)) # ps) =
    ((case h of None \<Rightarrow> [] | Some s \<Rightarrow> [s]) @ (if y then [] else [take (i + k) m]) @ obus, partial)"
proof -
  have t: "take i m @ take k (drop i m) = take (i + k) m" by (simp add: take_add)
  show ?thesis
    using av1_elements_payload [OF assms(1), of "take k (drop i m)"] assms(2-) t
    by (cases h; cases z; cases y) (simp_all add: ld8_def av1_flags Let_def)
qed

lemma obu_loop_receive:
  assumes "header_fits n h" and "i < length m" and "h \<noteq> None \<longrightarrow> \<not> z" and "z \<or> i = 0"
  shows "\<exists>ps. obu_loop m n h i z = Some (Inr ps) \<and> ps \<noteq> [] \<and> (\<forall>p \<in> set ps. length p \<le> n) \<and>
    av1_receive (take i m) ps = ((case h of None \<Rightarrow> [] | Some s \<Rightarrow> [s]) @ [m], [])"
  using assms
proof (induction "2 * (length m - i) + (if h = None then 0 else 1)" arbitrary: i h z rule: less_induct)
  case less
  define k where "k = min n (length m - i + 1 + length (metadata h)) - 1 - length (metadata h)"
  note step = obu_loop_step(1) [OF less.prems(2,1), of z, folded k_def] obu_loop_step(2-4) [OF less.prems(2,1), folded k_def]
  let ?p = "av1_flags (h \<noteq> None) z (i + k < length m) # metadata h @ take k (drop i m)"
  have p: "length ?p \<le> n" using step(2,4) by simp
  show ?case
  proof (cases "i + k < length m")
    case True
    have f: "header_fits n None" using less.prems(1) by (simp add: header_fits_def)
    have "2 * (length m - (i + k)) < 2 * (length m - i) + (if h = None then 0 else 1)"
      using step(3) True by auto
    then obtain ps where ps: "obu_loop m n None (i + k) True = Some (Inr ps)" "\<forall>p \<in> set ps. length p \<le> n"
        "av1_receive (take (i + k) m) ps = ([m], [])"
      using less.hyps [of "i + k" None True] f True by auto
    show ?thesis
      using step(1) ps p True av1_receive_step [OF less.prems(1,3,4), of True k m ps "[m]" "[]"] by (simp split: option.split)
  next
    case False
    then have k: "i + k = length m" using step(2) less.prems(2) by simp
    have "obu_loop m n None (length m) True = Some (Inr [])" by (simp add: obu_loop.simps)
    then show ?thesis
      using step(1) p k av1_receive_step [OF less.prems(1,3,4), of False k m "[]" "[]" "[]"] by (simp split: option.split)
  qed
qed

lemma av1_receive_append:
  "av1_receive q a = (x, r) \<Longrightarrow> av1_receive q (a @ b) = (x @ fst (av1_receive r b), snd (av1_receive r b))"
proof (induction a arbitrary: q x)
  case (Cons p a)
  then show ?case by (auto simp: Let_def split: prod.splits if_splits)
qed simp

section \<open>From temporal units to packets and back\<close>

definition is_sequence_header :: "binary \<Rightarrow> bool" where
  "is_sequence_header o' \<longleftrightarrow> drop_bit 3 (ld8 o' 0 AND 0x78) = 1"

text \<open>What the packets of a list of OBUs carry: a sequence header is held back until the next OBU that is not one.\<close>

fun av1_carried :: "binary option \<Rightarrow> binary list \<Rightarrow> binary list \<times> binary option" where
  "av1_carried h [] = ([], h)"
| "av1_carried h (o' # os) =
     (if is_sequence_header o' then av1_carried (Some o') os
      else let (rest, h') = av1_carried None os in ((case h of None \<Rightarrow> [] | Some s \<Rightarrow> [s]) @ o' # rest, h'))"

definition header_ok :: "u16 \<Rightarrow> binary \<Rightarrow> bool" where
  "header_ok n o' \<longleftrightarrow> o' \<noteq> [] \<and> (is_sequence_header o' \<longrightarrow> header_fits (unat n) (Some o'))"

lemma packetizeObus_receive:
  assumes "header_fits (unat n) h" and "\<forall>o' \<in> set os. header_ok n o'"
  shows "\<exists>ps. packetizeObus os n h = Some (Inr (ps, snd (av1_carried h os))) \<and> (\<forall>p \<in> set ps. length p \<le> unat n) \<and>
    av1_receive [] ps = (fst (av1_carried h os), [])"
  using assms
proof (induction os arbitrary: h)
  case Nil
  then show ?case by simp
next
  case (Cons o' os)
  have o': "\<not> length o' < 1" using Cons.prems(2) by (cases o') (auto simp: header_ok_def)
  show ?case
  proof (cases "is_sequence_header o'")
    case True
    then have "packetizeObu o' n h = Some (Inr ([], Some o'))" using o' by (simp add: packetizeObu_def is_sequence_header_def)
    moreover have "header_fits (unat n) (Some o')" using Cons.prems(2) True by (simp add: header_ok_def)
    ultimately show ?thesis using Cons.IH [of "Some o'"] Cons.prems(2) True by (auto simp: id_def)
  next
    case False
    have f: "header_fits (unat n) None" using Cons.prems(1) by (simp add: header_fits_def)
    obtain ps where ps: "obu_loop o' (unat n) h 0 False = Some (Inr ps)" "\<forall>p \<in> set ps. length p \<le> unat n"
        "av1_receive [] ps = ((case h of None \<Rightarrow> [] | Some s \<Rightarrow> [s]) @ [o'], [])"
      using obu_loop_receive [OF Cons.prems(1), of 0 o' False] o' by auto
    have "packetizeObu o' n h = Some (Inr (ps, None))" using o' False ps(1) by (simp add: packetizeObu_def is_sequence_header_def)
    moreover obtain qs where "packetizeObus os n None = Some (Inr (qs, snd (av1_carried None os)))" "\<forall>p \<in> set qs. length p \<le> unat n"
        "av1_receive [] qs = (fst (av1_carried None os), [])"
      using Cons.IH [OF f] Cons.prems(2) by auto
    ultimately show ?thesis
      using False ps(2) av1_receive_append [OF ps(3), of qs] by (auto simp: ball_Un split: prod.split)
  qed
qed



text \<open>An OBU with an extension header loses its first byte: the loop steps over it and takes the unit from the extension header on.\<close>

theorem av1_extension_header_loses_obu_header:
  assumes "h AND 0x02 \<noteq> 0" and "h AND 0x04 \<noteq> 0" and "length p < 2 ^ 28"
  shows "extractTemporalUnitObus ([0x12, 0, h, e] @ leb128 (length p) @ p) = Inr [e # leb128 (length p) @ p]"
proof -
  let ?m = "[0x12, 0, h, e] @ leb128 (length p) @ p"
  have "leb128_loop ?m 3 0 0 = Inr (of_nat (length p), length (leb128 (length p)))"
    using leb128_loop_leb128 [of "length p" 0 "[0x12, 0, h, e]" 3 p 0] assms(3) by simp
  moreover have "unat (of_nat (length p) :: u32) = length p" using assms(3) by (simp add: unat_of_nat)
  moreover have "obus_loop ?m (4 + length (leb128 (length p)) + length p) = Inr []" by (simp add: obus_loop.simps)
  moreover have "ld8 ?m 2 = h" "ld8 ?m 0 = 0x12" "ld8 ?m 1 = 0" by (simp_all add: ld8_def nth_default_Cons numeral_2_eq_2)
  ultimately show ?thesis
    using assms unfolding extractTemporalUnitObus_def
    by (subst obus_loop.simps) (simp add: Let_def slice_def)
qed

end
