(* ===== verification/Sctp.thy ===== *)
theory Sctp
  imports Processors DataChannels
begin

text \<open>
  The SCTP transport: \<open>src/impl/sctptransport.hpp\<close>, \<open>src/impl/sctptransport.cpp\<close>. The usrsctp library is not part of
  the model. The calls into it are appended to the trace \<open>st_calls\<close>, each with the result it gave; the record
  \<open>usrsctp\<close> says what the next call returns, as a function of all calls before it, and how a notification is
  laid out. Nothing is assumed of it. The condition variables only delay a thread: \<open>incoming\<close> is called when it
  would not wait. The receive callback, the buffered amount callback and the messages for the lower transport are the
  trace \<open>st_events\<close>. Amounts of bytes are natural numbers: they fit a \<open>ptrdiff_t\<close>.
\<close>

section \<open>State\<close>

datatype errno = OK | EWOULDBLOCK | ECONNRESET | ENOTCONN | EINVAL | EINPROGRESS | OtherErrno int

datatype pr_policy = PR_NONE | PR_TTL u32 | PR_RTX u32

datatype usrsctp_call =
    SctpBind u16 errno
  | SctpConnect u16 errno
  | SctpSend binary u16 u32 bool pr_policy errno
  | SctpResetStream u16 errno
  | SctpShutdown bool errno
  | SctpConnInput binary

datatype sctp_notification =
    AssocChange bool u16 u16
  | SenderDry
  | StreamReset bool "u16 list"
  | OtherNotification

text \<open>What one call of \<open>usrsctp_recvv\<close> gave: the bytes, whether they belong to a notification, whether they end the record,
  and the stream and payload identifier of the receive info if there is one.\<close>

datatype recvv = RecvError errno | RecvEnd | RecvBytes binary bool bool "(u16 \<times> u32) option"

record usrsctp =
  us_result :: "usrsctp_call list \<Rightarrow> errno"
  us_notification :: "binary \<Rightarrow> nat \<times> sctp_notification"

datatype sctp_event = SctpRecv "Message option" | SctpAmount u16 nat | SctpLower Message

datatype sctp_task = TaskDoRecv | TaskDoFlush | TaskFlushQueue

record SctpTransport =
  st_state :: "State \<times> State list"
  st_maxMessageSize :: nat
  st_localPort :: u16
  st_remotePort :: u16
  st_negotiatedStreamsCount :: "u16 option"
  st_processor :: "sctp_task Processor"
  st_pendingRecvCount :: int
  st_pendingFlushCount :: int
  st_sendQueue :: "Message Queue"
  st_sendShutdown :: bool
  st_bufferedAmount :: "u16 \<rightharpoonup> nat"
  st_written :: bool
  st_writtenOnce :: bool
  st_partialMessage :: binary
  st_partialNotification :: binary
  st_partialStringData :: binary
  st_partialBinaryData :: binary
  st_bytesSent :: u64
  st_bytesReceived :: u64
  st_calls :: "usrsctp_call list"
  st_events :: "sctp_event list"

definition DEFAULT_LOCAL_MAX_MESSAGE_SIZE :: nat where "DEFAULT_LOCAL_MAX_MESSAGE_SIZE = 262144"
definition MAX_SCTP_STREAMS_COUNT :: u16 where "MAX_SCTP_STREAMS_COUNT = 1024"

definition PPID_CONTROL :: u32 where "PPID_CONTROL = 50"
definition PPID_STRING :: u32 where "PPID_STRING = 51"
definition PPID_BINARY_PARTIAL :: u32 where "PPID_BINARY_PARTIAL = 52"
definition PPID_BINARY :: u32 where "PPID_BINARY = 53"
definition PPID_STRING_PARTIAL :: u32 where "PPID_STRING_PARTIAL = 54"
definition PPID_STRING_EMPTY :: u32 where "PPID_STRING_EMPTY = 56"
definition PPID_BINARY_EMPTY :: u32 where "PPID_BINARY_EMPTY = 57"

lemmas ppids = PPID_CONTROL_def PPID_STRING_def PPID_BINARY_PARTIAL_def PPID_BINARY_def PPID_STRING_PARTIAL_def
  PPID_STRING_EMPTY_def PPID_BINARY_EMPTY_def

text \<open>The members after a constructor whose socket calls succeeded.\<close>

definition SctpTransport_init :: "nat option \<Rightarrow> u16 \<Rightarrow> u16 \<Rightarrow> SctpTransport" where
  "SctpTransport_init maxSize localPort remotePort =
     \<lparr>st_state = (Disconnected, []),
      st_maxMessageSize = (case maxSize of Some n \<Rightarrow> n | None \<Rightarrow> DEFAULT_LOCAL_MAX_MESSAGE_SIZE),
      st_localPort = localPort, st_remotePort = remotePort, st_negotiatedStreamsCount = None,
      st_processor = Processor_init 0, st_pendingRecvCount = 0, st_pendingFlushCount = 0,
      st_sendQueue = Queue_init 0 (Some message_size_func), st_sendShutdown = False, st_bufferedAmount = Map.empty,
      st_written = False, st_writtenOnce = False, st_partialMessage = [], st_partialNotification = [],
      st_partialStringData = [], st_partialBinaryData = [], st_bytesSent = 0, st_bytesReceived = 0,
      st_calls = [], st_events = []\<rparr>"

definition st_set_state :: "State \<Rightarrow> SctpTransport \<Rightarrow> SctpTransport" where
  "st_set_state s t = t\<lparr>st_state := changeState s (st_state t)\<rparr>"

definition st_emit :: "sctp_event \<Rightarrow> SctpTransport \<Rightarrow> SctpTransport" where
  "st_emit e t = t\<lparr>st_events := st_events t @ [e]\<rparr>"

definition us_call :: "usrsctp \<Rightarrow> (errno \<Rightarrow> usrsctp_call) \<Rightarrow> SctpTransport \<Rightarrow> errno \<times> SctpTransport" where
  "us_call us c t = (let e = us_result us (st_calls t) in (e, t\<lparr>st_calls := st_calls t @ [c e]\<rparr>))"

definition st_enqueue :: "sctp_task \<Rightarrow> SctpTransport \<Rightarrow> SctpTransport" where
  "st_enqueue k t =
     (case Processor_enqueue k (st_processor t) of Some p \<Rightarrow> t\<lparr>st_processor := p\<rparr> | None \<Rightarrow> t)"

section \<open>Sending\<close>

definition triggerBufferedAmount_sctp :: "u16 \<Rightarrow> nat \<Rightarrow> SctpTransport \<Rightarrow> SctpTransport" where
  "triggerBufferedAmount_sctp streamId amount t = st_emit (SctpAmount streamId amount) t"

definition updateBufferedAmount_sctp :: "u16 \<Rightarrow> int \<Rightarrow> SctpTransport \<Rightarrow> SctpTransport" where
  "updateBufferedAmount_sctp streamId delta t =
     (if delta = 0 then t
      else let second = (case st_bufferedAmount t streamId of Some n \<Rightarrow> n | None \<Rightarrow> 0);
               amount = nat (max (int second + delta) 0);
               t = t\<lparr>st_bufferedAmount := (st_bufferedAmount t)(streamId := if amount = 0 then None else Some amount)\<rparr>
           in triggerBufferedAmount_sctp streamId amount t)"

definition sendReset_sctp :: "usrsctp \<Rightarrow> u16 \<Rightarrow> SctpTransport \<Rightarrow> SctpTransport" where
  "sendReset_sctp us streamId t =
     (if fst (st_state t) \<noteq> Connected then t
      else snd (us_call us (SctpResetStream streamId) (t\<lparr>st_written := False\<rparr>)))"

text \<open>The payload identifier of a message that is sent as data; \<open>None\<close> for a reset.\<close>

definition message_ppid :: "Message \<Rightarrow> u32 option" where
  "message_ppid m =
     (case msg_type m of
        String \<Rightarrow> Some (if msg_data m \<noteq> [] then PPID_STRING else PPID_STRING_EMPTY)
      | Binary \<Rightarrow> Some (if msg_data m \<noteq> [] then PPID_BINARY else PPID_BINARY_EMPTY)
      | Control \<Rightarrow> Some PPID_CONTROL
      | Reset \<Rightarrow> None)"

definition message_policy :: "Reliability \<Rightarrow> pr_policy result" where
  "message_policy r =
     (case rel_maxPacketLifeTime r of
        Some t \<Rightarrow> bind_result (to_uint32 t) (\<lambda>v. Inr (PR_TTL v))
      | None \<Rightarrow>
          (case rel_maxRetransmits r of
             Some n \<Rightarrow> bind_result (to_uint32 (uint n)) (\<lambda>v. Inr (PR_RTX v))
           | None \<Rightarrow>
               (case rel_typeDeprecated r of
                  Rexmit \<Rightarrow>
                    (case rel_rexmit r of
                       RexmitCount n \<Rightarrow> bind_result (to_uint32 n) (\<lambda>v. Inr (PR_RTX v))
                     | RexmitMillis _ \<Rightarrow> Inl (RuntimeError ''bad_variant_access''))
                | Timed \<Rightarrow>
                    (case rel_rexmit r of
                       RexmitMillis t \<Rightarrow> bind_result (to_uint32 t) (\<lambda>v. Inr (PR_TTL v))
                     | RexmitCount _ \<Rightarrow> Inl (RuntimeError ''bad_variant_access''))
                | Reliable \<Rightarrow> Inr PR_NONE)))"

definition trySendMessage_sctp :: "usrsctp \<Rightarrow> Message \<Rightarrow> SctpTransport \<Rightarrow> bool result \<times> SctpTransport" where
  "trySendMessage_sctp us message t =
     (if fst (st_state t) \<noteq> Connected then (Inr False, t)
      else case message_ppid message of
        None \<Rightarrow> (Inr True, sendReset_sctp us (ucast (msg_stream message)) t)
      | Some ppid \<Rightarrow>
        let reliability = (case msg_reliability message of Some r \<Rightarrow> r | None \<Rightarrow> Reliability_default)
        in case message_policy reliability of
             Inl e \<Rightarrow> (Inl e, t)
           | Inr policy \<Rightarrow>
               let data = (if msg_data message \<noteq> [] then msg_data message else [0])
               in case us_call us (SctpSend data (ucast (msg_stream message)) ppid (rel_unordered reliability) policy) t of
                    (e, t) \<Rightarrow>
                      if e = EWOULDBLOCK then (Inr False, t)
                      else if e \<noteq> OK then (Inl (RuntimeError ''Sending failed''), t)
                      else (Inr True,
                            if msg_type message = Binary \<or> msg_type message = String
                            then t\<lparr>st_bytesSent := st_bytesSent t + of_nat (length (msg_data message))\<rparr> else t))"

definition message_size :: "Message \<Rightarrow> int" where
  "message_size m = uint (message_size_func m)"

text \<open>What \<open>trySendQueue\<close> does when the queue is empty.\<close>

definition shutdown_if_stopped :: "usrsctp \<Rightarrow> SctpTransport \<Rightarrow> SctpTransport" where
  "shutdown_if_stopped us t =
     (if \<not> Queue_running (st_sendQueue t) \<and> \<not> st_sendShutdown t then
        case us_call us (SctpShutdown False) (t\<lparr>st_sendShutdown := True\<rparr>) of
          (e, t) \<Rightarrow>
            if e = OK \<or> e = ENOTCONN then t
            else st_emit (SctpRecv None) (st_set_state Disconnected t)
      else t)"

lemma trySendMessage_queue [simp]:
  "st_sendQueue (snd (trySendMessage_sctp us m t)) = st_sendQueue t"
  by (simp add: trySendMessage_sctp_def sendReset_sctp_def us_call_def Let_def split: option.split sum.split)

lemma updateBufferedAmount_queue [simp]: "st_sendQueue (updateBufferedAmount_sctp s d t) = st_sendQueue t"
  by (simp add: updateBufferedAmount_sctp_def triggerBufferedAmount_sctp_def st_emit_def Let_def)

function trySendQueue_sctp :: "usrsctp \<Rightarrow> SctpTransport \<Rightarrow> bool result \<times> SctpTransport" where
  "trySendQueue_sctp us t =
     (case Queue_peek (st_sendQueue t) of
        None \<Rightarrow> (Inr True, shutdown_if_stopped us t)
      | Some message \<Rightarrow>
          case trySendMessage_sctp us message t of
            (Inl e, t) \<Rightarrow> (Inl e, t)
          | (Inr False, t) \<Rightarrow> (Inr False, t)
          | (Inr True, t) \<Rightarrow>
              let t = t\<lparr>st_sendQueue := snd (Queue_pop (st_sendQueue t))\<rparr>
              in case to_uint16 (uint (msg_stream message)) of
                   Inl e \<Rightarrow> (Inl e, t)
                 | Inr streamId \<Rightarrow>
                     trySendQueue_sctp us (updateBufferedAmount_sctp streamId (- message_size message) t))"
  by pat_completeness auto

termination
proof (relation "measure (\<lambda>(us, t). length (mQueue (st_sendQueue t)))", goal_cases)
  case (2 us t message r t' b t'' streamId)
  have "st_sendQueue t' = st_sendQueue t"
    using trySendMessage_queue [of us message t] 2(2) by (metis snd_conv)
  then show ?case using 2 by (auto simp: Queue_peek_def Queue_pop_def split: list.splits)
qed simp

declare trySendQueue_sctp.simps [simp del]

definition st_push :: "Message \<Rightarrow> SctpTransport \<Rightarrow> SctpTransport" where
  "st_push m t = (case Queue_push m (st_sendQueue t) of Some q \<Rightarrow> t\<lparr>st_sendQueue := q\<rparr> | None \<Rightarrow> t)"

text \<open>\<open>send\<close>: the queue has no limit, so \<open>push\<close> does not wait.\<close>

definition SctpTransport_send :: "usrsctp \<Rightarrow> Message option \<Rightarrow> SctpTransport \<Rightarrow> bool result \<times> SctpTransport" where
  "SctpTransport_send us message t =
     (if fst (st_state t) \<noteq> Connected then (Inr False, t)
      else case message of
        None \<Rightarrow> trySendQueue_sctp us t
      | Some message \<Rightarrow>
        if length (msg_data message) > st_maxMessageSize t then (Inl (InvalidArgument ''Message is too large''), t)
        else
          let buffered = (\<lambda>t. let t = st_push message t
                 in case to_uint16 (uint (msg_stream message)) of
                      Inl e \<Rightarrow> (Inl e, t)
                    | Inr streamId \<Rightarrow> (Inr False, updateBufferedAmount_sctp streamId (message_size message) t))
          in case trySendQueue_sctp us t of
               (Inl e, t) \<Rightarrow> (Inl e, t)
             | (Inr False, t) \<Rightarrow> buffered t
             | (Inr True, t) \<Rightarrow>
                 (case trySendMessage_sctp us message t of
                    (Inl e, t) \<Rightarrow> (Inl e, t)
                  | (Inr True, t) \<Rightarrow> (Inr True, t)
                  | (Inr False, t) \<Rightarrow> buffered t))"

definition SctpTransport_flush :: "usrsctp \<Rightarrow> SctpTransport \<Rightarrow> bool \<times> SctpTransport" where
  "SctpTransport_flush us t =
     (if fst (st_state t) \<noteq> Connected then (False, t)
      else case trySendQueue_sctp us t of (Inl e, t) \<Rightarrow> (False, t) | (Inr _, t) \<Rightarrow> (True, t))"

definition closeStream_sctp :: "u32 \<Rightarrow> SctpTransport \<Rightarrow> unit result \<times> SctpTransport" where
  "closeStream_sctp stream t =
     (case to_uint16 (uint stream) of
        Inl e \<Rightarrow> (Inl e, t)
      | Inr s \<Rightarrow> (Inr (), st_enqueue TaskFlushQueue (st_push (make_message_size 0 Reset (ucast s) None) t)))"

definition SctpTransport_close :: "usrsctp \<Rightarrow> SctpTransport \<Rightarrow> SctpTransport" where
  "SctpTransport_close us t =
     (let t = t\<lparr>st_sendQueue := Queue_stop (st_sendQueue t)\<rparr>
      in if fst (st_state t) = Connected then st_enqueue TaskFlushQueue t
         else if fst (st_state t) = Connecting then st_set_state Failed (snd (us_call us (SctpShutdown True) t))
         else t)"

definition SctpTransport_stop :: "usrsctp \<Rightarrow> SctpTransport \<Rightarrow> SctpTransport" where
  "SctpTransport_stop us t = SctpTransport_close us t"

definition doFlush_sctp :: "usrsctp \<Rightarrow> SctpTransport \<Rightarrow> SctpTransport" where
  "doFlush_sctp us t = snd (trySendQueue_sctp us (t\<lparr>st_pendingFlushCount := st_pendingFlushCount t - 1\<rparr>))"

definition enqueueRecv_sctp :: "SctpTransport \<Rightarrow> SctpTransport" where
  "enqueueRecv_sctp t =
     (if st_pendingRecvCount t > 0 then t
      else st_enqueue TaskDoRecv (t\<lparr>st_pendingRecvCount := st_pendingRecvCount t + 1\<rparr>))"

definition enqueueFlush_sctp :: "SctpTransport \<Rightarrow> SctpTransport" where
  "enqueueFlush_sctp t =
     (if st_pendingFlushCount t > 0 then t
      else st_enqueue TaskDoFlush (t\<lparr>st_pendingFlushCount := st_pendingFlushCount t + 1\<rparr>))"

text \<open>\<open>events\<close> are the flags that \<open>usrsctp_get_events\<close> returned: readable, writable.\<close>

definition handleUpcall :: "bool \<times> bool \<Rightarrow> SctpTransport \<Rightarrow> SctpTransport" where
  "handleUpcall events t =
     (let t = (if fst events then enqueueRecv_sctp t else t)
      in if snd events then enqueueFlush_sctp t else t)"

definition SctpTransport_outgoing :: "bool \<Rightarrow> Message \<Rightarrow> SctpTransport \<Rightarrow> bool \<times> SctpTransport" where
  "SctpTransport_outgoing lower message t =
     (let message = message\<lparr>msg_dscp := 10\<rparr> in (lower, st_emit (SctpLower message) t))"

text \<open>\<open>lower\<close> is what \<open>send\<close> of the lower transport returns.\<close>

definition handleWrite :: "bool \<Rightarrow> binary \<Rightarrow> SctpTransport \<Rightarrow> int \<times> SctpTransport" where
  "handleWrite lower data t =
     (case SctpTransport_outgoing lower (make_message data Binary 0 None None) t of
        (sent, t) \<Rightarrow> if \<not> sent then (-1, t) else (0, t\<lparr>st_written := True, st_writtenOnce := True\<rparr>))"

section \<open>Connecting\<close>

definition SctpTransport_connect :: "usrsctp \<Rightarrow> SctpTransport \<Rightarrow> unit result \<times> SctpTransport" where
  "SctpTransport_connect us t =
     (let t = st_set_state Connecting t
      in case us_call us (SctpBind (st_localPort t)) t of
           (e, t) \<Rightarrow>
             if e \<noteq> OK then (Inl (RuntimeError ''Could not bind usrsctp socket''), t)
             else case us_call us (SctpConnect (st_remotePort t)) t of
                    (e, t) \<Rightarrow>
                      if e \<noteq> OK \<and> e \<noteq> EINPROGRESS then (Inl (RuntimeError ''Connection attempt failed''), t)
                      else (Inr (), t))"

definition SctpTransport_start :: "usrsctp \<Rightarrow> SctpTransport \<Rightarrow> unit result \<times> SctpTransport" where
  "SctpTransport_start us t = SctpTransport_connect us t"

definition maxStream_sctp :: "SctpTransport \<Rightarrow> u32" where
  "maxStream_sctp t =
     (let streamsCount = ucast (case st_negotiatedStreamsCount t of Some n \<Rightarrow> n | None \<Rightarrow> MAX_SCTP_STREAMS_COUNT) :: u32
      in if streamsCount > 0 then streamsCount - 1 else 0)"

section \<open>Receiving\<close>

definition st_recv :: "Message \<Rightarrow> SctpTransport \<Rightarrow> SctpTransport" where
  "st_recv m t = st_emit (SctpRecv (Some m)) t"

text \<open>\<open>vector::resize\<close>: cut, or fill with zeros.\<close>

definition resize :: "nat \<Rightarrow> binary \<Rightarrow> binary" where
  "resize n b = take n b @ replicate (n - length b) 0"

definition processData_sctp :: "binary \<Rightarrow> u16 \<Rightarrow> u32 \<Rightarrow> SctpTransport \<Rightarrow> SctpTransport" where
  "processData_sctp data sid ppid t =
     (let n = st_maxMessageSize t; mk = (\<lambda>d ty. make_message d ty (ucast sid) None None)
      in if ppid = PPID_CONTROL then st_recv (mk data Control) t
         else if ppid = PPID_STRING_PARTIAL then t\<lparr>st_partialStringData := resize n (st_partialStringData t @ data)\<rparr>
         else if ppid = PPID_STRING then
           if st_partialStringData t = [] then
             st_recv (mk data String) (t\<lparr>st_bytesReceived := st_bytesReceived t + of_nat (length data)\<rparr>)
           else let d = resize n (st_partialStringData t @ data)
                in st_recv (mk d String)
                     (t\<lparr>st_partialStringData := [], st_bytesReceived := st_bytesReceived t + of_nat (length d)\<rparr>)
         else if ppid = PPID_STRING_EMPTY then
           (st_recv (mk (st_partialStringData t) String) t)\<lparr>st_partialStringData := []\<rparr>
         else if ppid = PPID_BINARY_PARTIAL then t\<lparr>st_partialBinaryData := resize n (st_partialBinaryData t @ data)\<rparr>
         else if ppid = PPID_BINARY then
           if st_partialBinaryData t = [] then
             st_recv (mk data Binary) (t\<lparr>st_bytesReceived := st_bytesReceived t + of_nat (length data)\<rparr>)
           else let d = resize n (st_partialBinaryData t @ data)
                in st_recv (mk d Binary)
                     (t\<lparr>st_partialBinaryData := [], st_bytesReceived := st_bytesReceived t + of_nat (length d)\<rparr>)
         else if ppid = PPID_BINARY_EMPTY then
           (st_recv (mk (st_partialBinaryData t) Binary) t)\<lparr>st_partialBinaryData := []\<rparr>
         else t)"

definition processNotification :: "usrsctp \<Rightarrow> binary \<Rightarrow> SctpTransport \<Rightarrow> SctpTransport" where
  "processNotification us notification t =
     (case us_notification us notification of (sn_length, notify) \<Rightarrow>
        if length notification \<noteq> sn_length then t
        else case notify of
               AssocChange up inbound outbound \<Rightarrow>
                 if up then st_set_state Connected (t\<lparr>st_negotiatedStreamsCount := Some (min inbound outbound)\<rparr>)
                 else if fst (st_state t) = Connected
                 then st_emit (SctpRecv None) (st_set_state Disconnected t)
                 else st_set_state Failed t
             | SenderDry \<Rightarrow> snd (SctpTransport_flush us t)
             | StreamReset incoming streams \<Rightarrow>
                 if incoming then fold (\<lambda>s. st_recv (make_message_size 0 Reset (ucast s) None)) streams t else t
             | OtherNotification \<Rightarrow> t)"

text \<open>The loop of \<open>doRecv\<close> over what the calls of \<open>usrsctp_recvv\<close> return; the end of the list stands for
  \<open>EWOULDBLOCK\<close>. An exception ends the loop and is logged.\<close>

fun recv_loop_sctp :: "usrsctp \<Rightarrow> recvv list \<Rightarrow> SctpTransport \<Rightarrow> SctpTransport" where
  "recv_loop_sctp us [] t = t"
| "recv_loop_sctp us (r # rs) t =
     (if fst (st_state t) = Disconnected \<or> fst (st_state t) = Failed then t
      else case r of
        RecvError e \<Rightarrow> t
      | RecvEnd \<Rightarrow> t
      | RecvBytes buffer notification eor info \<Rightarrow>
          if notification then
            let t = t\<lparr>st_partialNotification := st_partialNotification t @ buffer\<rparr>
            in recv_loop_sctp us rs
                 (if eor then processNotification us (st_partialNotification t) (t\<lparr>st_partialNotification := []\<rparr>) else t)
          else
            let t = t\<lparr>st_partialMessage := take (st_maxMessageSize t) (st_partialMessage t @ buffer)\<rparr>
            in if eor then
                 let message = st_partialMessage t; t = t\<lparr>st_partialMessage := []\<rparr>
                 in case info of
                      None \<Rightarrow> t
                    | Some (sid, ppid) \<Rightarrow> recv_loop_sctp us rs (processData_sctp message sid ppid t)
               else recv_loop_sctp us rs t)"

definition doRecv_sctp :: "usrsctp \<Rightarrow> recvv list \<Rightarrow> SctpTransport \<Rightarrow> SctpTransport" where
  "doRecv_sctp us rs t = recv_loop_sctp us rs (t\<lparr>st_pendingRecvCount := st_pendingRecvCount t - 1\<rparr>)"

definition SctpTransport_incoming :: "Message option \<Rightarrow> SctpTransport \<Rightarrow> SctpTransport" where
  "SctpTransport_incoming message t =
     (if fst (st_state t) = Failed then t
      else case message of
        None \<Rightarrow> st_emit (SctpRecv None) (st_set_state Disconnected t)
      | Some m \<Rightarrow> t\<lparr>st_calls := st_calls t @ [SctpConnInput (msg_data m)]\<rparr>)"

text \<open>The processor runs its next task; none of the tasks enqueues another.\<close>

definition st_process :: "usrsctp \<Rightarrow> recvv list \<Rightarrow> SctpTransport \<Rightarrow> SctpTransport" where
  "st_process us rs t =
     (case Processor_finish (st_processor t) of
        None \<Rightarrow> t
      | Some (k, p) \<Rightarrow>
          (case k of TaskDoRecv \<Rightarrow> doRecv_sctp us rs t | TaskDoFlush \<Rightarrow> doFlush_sctp us t
           | TaskFlushQueue \<Rightarrow> snd (SctpTransport_flush us t))\<lparr>st_processor := p\<rparr>)"

definition clearStats_sctp :: "SctpTransport \<Rightarrow> SctpTransport" where
  "clearStats_sctp t = t\<lparr>st_bytesReceived := 0, st_bytesSent := 0\<rparr>"

section \<open>Messages leave in the order they were accepted\<close>

text \<open>What a call means for the peer: a message or a stream reset that went out.\<close>

fun accomplished :: "usrsctp_call \<Rightarrow> bool" where
  "accomplished (SctpSend _ _ _ _ _ e) = (e = OK)"
| "accomplished (SctpResetStream _ _) = True"
| "accomplished _ = False"

definition sent_calls :: "SctpTransport \<Rightarrow> usrsctp_call list" where
  "sent_calls t = filter accomplished (st_calls t)"

definition message_reliability :: "Message \<Rightarrow> Reliability" where
  "message_reliability m = (case msg_reliability m of Some r \<Rightarrow> r | None \<Rightarrow> Reliability_default)"

fun carried_by :: "Message \<Rightarrow> usrsctp_call \<Rightarrow> bool" where
  "carried_by m (SctpSend data s ppid unordered policy e) \<longleftrightarrow>
     e = OK \<and> s = ucast (msg_stream m) \<and> message_ppid m = Some ppid \<and> data = (if msg_data m \<noteq> [] then msg_data m else [0]) \<and>
     unordered = rel_unordered (message_reliability m) \<and> message_policy (message_reliability m) = Inr policy"
| "carried_by m (SctpResetStream s e) \<longleftrightarrow> message_ppid m = None \<and> s = ucast (msg_stream m)"
| "carried_by m _ = False"

definition sendable :: "Message \<Rightarrow> bool" where
  "sendable m \<longleftrightarrow> unat (msg_stream m) \<le> 65535 \<and> (message_ppid m = None \<or> (\<exists>p. message_policy (message_reliability m) = Inr p)) \<and>
     length (msg_data m) < 2 ^ 63"

definition lib_blocks_only :: "usrsctp \<Rightarrow> bool" where
  "lib_blocks_only us \<longleftrightarrow> (\<forall>calls. us_result us calls = OK \<or> us_result us calls = EWOULDBLOCK)"

definition buffered :: "Message list \<Rightarrow> u16 \<Rightarrow> int" where
  "buffered ms s = sum_list (map message_size (filter (\<lambda>m. ucast (msg_stream m) = s) ms))"

definition amount :: "SctpTransport \<Rightarrow> u16 \<Rightarrow> int" where
  "amount t s = (case st_bufferedAmount t s of Some n \<Rightarrow> int n | None \<Rightarrow> 0)"

lemma buffered_simps [simp]:
  "buffered [] s = 0"
  "buffered (m # ms) s = (if ucast (msg_stream m) = s then message_size m else 0) + buffered ms s"
  "buffered (ms @ ns) s = buffered ms s + buffered ns s"
  by (simp_all add: buffered_def)

lemma message_size_nonneg [simp]: "0 \<le> message_size m"
  by (simp add: message_size_def)

lemma buffered_nonneg [simp]: "0 \<le> buffered ms s"
  by (induction ms) simp_all

lemma amount_update:
  assumes "0 \<le> amount t s + d"
  shows "amount (updateBufferedAmount_sctp s d t) s' = amount t s' + (if s' = s then d else 0)"
  using assms
  by (auto simp: amount_def updateBufferedAmount_sctp_def triggerBufferedAmount_sctp_def st_emit_def Let_def split: option.splits)

lemma update_fields [simp]:
  "st_state (updateBufferedAmount_sctp s d t) = st_state t" "st_calls (updateBufferedAmount_sctp s d t) = st_calls t"
  "st_maxMessageSize (updateBufferedAmount_sctp s d t) = st_maxMessageSize t"
  "st_partialMessage (updateBufferedAmount_sctp s d t) = st_partialMessage t"
  by (simp_all add: updateBufferedAmount_sctp_def triggerBufferedAmount_sctp_def st_emit_def Let_def)

definition send_inv :: "Message list \<Rightarrow> SctpTransport \<Rightarrow> bool" where
  "send_inv req t \<longleftrightarrow>
     fst (st_state t) = Connected \<and> \<not> mStopping (st_sendQueue t) \<and> mLimit (st_sendQueue t) = 0 \<and>
     (\<forall>m \<in> set (mQueue (st_sendQueue t)). sendable m) \<and>
     (\<exists>sent. list_all2 carried_by sent (sent_calls t) \<and> sent @ mQueue (st_sendQueue t) = req) \<and>
     (\<forall>s. amount t s = buffered (mQueue (st_sendQueue t)) s)"

lemma trySendMessage_cases:
  assumes "lib_blocks_only us" and "sendable m" and "fst (st_state t) = Connected"
  shows "\<exists>b t'. trySendMessage_sctp us m t = (Inr b, t') \<and> fst (st_state t') = Connected \<and>
    st_sendQueue t' = st_sendQueue t \<and> st_bufferedAmount t' = st_bufferedAmount t \<and> st_maxMessageSize t' = st_maxMessageSize t \<and>
    (if b then \<exists>c. sent_calls t' = sent_calls t @ [c] \<and> carried_by m c else sent_calls t' = sent_calls t)"
proof (cases "message_ppid m")
  case None
  then show ?thesis
    using assms by (simp add: trySendMessage_sctp_def sendReset_sctp_def us_call_def sent_calls_def Let_def) blast
next
  case (Some ppid)
  then obtain policy where "message_policy (message_reliability m) = Inr policy"
    using assms(2) by (auto simp: sendable_def)
  then show ?thesis
    using assms Some
    by (cases "us_result us (st_calls t) = OK")
      (auto simp: trySendMessage_sctp_def us_call_def sent_calls_def message_reliability_def lib_blocks_only_def Let_def)
qed

lemma to_uint16_stream: "sendable m \<Longrightarrow> to_uint16 (uint (msg_stream m)) = Inr (ucast (msg_stream m))"
proof -
  assume "sendable m"
  moreover have "uint (msg_stream m) = int (unat (msg_stream m))" by simp
  ultimately have "uint (msg_stream m) \<le> 65535" unfolding sendable_def by linarith
  then show ?thesis by (simp only: to_uint16_def ucast_eq) simp
qed

lemma sent_step:
  assumes "lib_blocks_only us" and "send_inv req t" and q: "mQueue (st_sendQueue t) = m # ms"
    and t': "trySendMessage_sctp us m t = (Inr True, t')"
    and "u = updateBufferedAmount_sctp (ucast (msg_stream m)) (- message_size m) (t'\<lparr>st_sendQueue := snd (Queue_pop (st_sendQueue t'))\<rparr>)"
  shows "send_inv req u \<and> mQueue (st_sendQueue u) = ms \<and> st_maxMessageSize u = st_maxMessageSize t"
proof -
  have m: "sendable m" "fst (st_state t) = Connected" using assms(2) q by (simp_all add: send_inv_def)
  obtain c where t'': "fst (st_state t') = Connected" "st_sendQueue t' = st_sendQueue t" "st_bufferedAmount t' = st_bufferedAmount t"
      "st_maxMessageSize t' = st_maxMessageSize t" "sent_calls t' = sent_calls t @ [c]" "carried_by m c"
    using trySendMessage_cases [OF assms(1) m] t' by auto
  have p: "mQueue (st_sendQueue u) = ms" "st_state u = st_state t'" "sent_calls u = sent_calls t'"
    using q t''(2) by (simp_all add: assms(5) Queue_pop_def sent_calls_def)
  obtain sent where sent: "list_all2 carried_by sent (sent_calls t)" "sent @ m # ms = req"
    using assms(2) q by (auto simp: send_inv_def)
  then have "list_all2 carried_by (sent @ [m]) (sent_calls u)" using t''(5,6) p(3) by (simp add: list_all2_appendI)
  moreover have "amount t' s = buffered (m # ms) s" for s
    using assms(2) q t''(3) by (simp add: send_inv_def amount_def)
  then have "amount u s = buffered ms s" for s
    unfolding assms(5) by (subst amount_update) (simp_all add: amount_def)
  moreover have "\<not> mStopping (st_sendQueue u) \<and> mLimit (st_sendQueue u) = 0 \<and> (\<forall>m \<in> set ms. sendable m)"
    using assms(2) q t''(2) by (simp add: assms(5) send_inv_def Queue_pop_def)
  ultimately have "send_inv req u"
    unfolding send_inv_def using p t''(1) sent(2) by (intro conjI exI [of _ "sent @ [m]"]) simp_all
  then show ?thesis using p(1) t''(4) by (simp add: assms(5))
qed

lemma trySendQueue_inv:
  assumes "lib_blocks_only us" and "send_inv req t"
  shows "\<exists>b t'. trySendQueue_sctp us t = (Inr b, t') \<and> send_inv req t' \<and> st_maxMessageSize t' = st_maxMessageSize t \<and>
    (b \<longrightarrow> mQueue (st_sendQueue t') = [])"
  using assms(2)
proof (induction "mQueue (st_sendQueue t)" arbitrary: t)
  case Nil
  then show ?case
    by (subst trySendQueue_sctp.simps) (simp add: Queue_peek_def shutdown_if_stopped_def Queue_running_def send_inv_def, blast)
next
  case (Cons m ms)
  have q: "mQueue (st_sendQueue t) = m # ms" using Cons(2) by simp
  then have m: "sendable m" "fst (st_state t) = Connected" using Cons.prems by (simp_all add: send_inv_def)
  obtain b t' where t': "trySendMessage_sctp us m t = (Inr b, t')" "fst (st_state t') = Connected" "st_sendQueue t' = st_sendQueue t"
      "st_bufferedAmount t' = st_bufferedAmount t" "st_maxMessageSize t' = st_maxMessageSize t" "\<not> b \<longrightarrow> sent_calls t' = sent_calls t"
    using trySendMessage_cases [OF assms(1) m] by auto
  show ?case
  proof (cases b)
    case False
    then have "send_inv req t'" using Cons.prems t' by (simp add: send_inv_def amount_def)
    then show ?thesis using t' q False by (subst trySendQueue_sctp.simps) (simp add: Queue_peek_def, blast)
  next
    case True
    let ?u = "updateBufferedAmount_sctp (ucast (msg_stream m)) (- message_size m) (t'\<lparr>st_sendQueue := snd (Queue_pop (st_sendQueue t'))\<rparr>)"
    have "send_inv req ?u \<and> mQueue (st_sendQueue ?u) = ms \<and> st_maxMessageSize ?u = st_maxMessageSize t"
      by (rule sent_step [OF assms(1) Cons.prems q _ refl]) (use t'(1) True in simp)
    moreover have "trySendQueue_sctp us t = trySendQueue_sctp us ?u"
      using q t'(1) True m(1) by (subst trySendQueue_sctp.simps) (simp add: Queue_peek_def to_uint16_stream Let_def)
    ultimately show ?thesis using Cons(1) [of ?u] by simp
  qed
qed

lemma st_push_inv:
  assumes "send_inv req t" and "sendable m"
  shows "send_inv (req @ [m]) (updateBufferedAmount_sctp (ucast (msg_stream m)) (message_size m) (st_push m t))"
proof -
  have p: "st_push m t = t\<lparr>st_sendQueue := (st_sendQueue t)\<lparr>mAmount := mAmount (st_sendQueue t) + mAmountFunction (st_sendQueue t) m,
      mQueue := mQueue (st_sendQueue t) @ [m]\<rparr>\<rparr>"
    using assms(1) by (simp add: st_push_def Queue_push_def send_inv_def)
  have "amount (st_push m t) s = amount t s" for s by (simp add: p amount_def)
  then show ?thesis
    using assms by (auto simp: send_inv_def amount_update p sent_calls_def)
qed

lemma send_inv_send:
  assumes "lib_blocks_only us" and "send_inv req t" and "sendable m" and "length (msg_data m) \<le> st_maxMessageSize t"
  shows "\<exists>b t'. SctpTransport_send us (Some m) t = (Inr b, t') \<and> send_inv (req @ [m]) t' \<and> st_maxMessageSize t' = st_maxMessageSize t"
proof -
  have c: "fst (st_state t) = Connected" using assms(2) by (simp add: send_inv_def)
  obtain b t1 where t1: "trySendQueue_sctp us t = (Inr b, t1)" "send_inv req t1" "st_maxMessageSize t1 = st_maxMessageSize t"
      "b \<longrightarrow> mQueue (st_sendQueue t1) = []"
    using trySendQueue_inv [OF assms(1,2)] by blast
  have max: "st_maxMessageSize (st_push m u) = st_maxMessageSize u" for u by (simp add: st_push_def split: option.split)
  show ?thesis
  proof (cases b)
    case False
    then show ?thesis
      using c assms(3,4) t1 st_push_inv [OF t1(2) assms(3)] by (simp add: SctpTransport_send_def to_uint16_stream Let_def max) blast
  next
    case True
    obtain b' t2 where t2: "trySendMessage_sctp us m t1 = (Inr b', t2)" "fst (st_state t2) = Connected" "st_sendQueue t2 = st_sendQueue t1"
        "st_bufferedAmount t2 = st_bufferedAmount t1" "st_maxMessageSize t2 = st_maxMessageSize t1"
        "if b' then \<exists>c. sent_calls t2 = sent_calls t1 @ [c] \<and> carried_by m c else sent_calls t2 = sent_calls t1"
      using trySendMessage_cases [OF assms(1,3), of t1] t1(2) by (auto simp: send_inv_def)
    show ?thesis
    proof (cases b')
      case False
      then have "send_inv req t2" using t1(2) t2 by (simp add: send_inv_def amount_def)
      then show ?thesis
        using c assms(3,4) t1 t2 False True st_push_inv [of req t2 m] by (simp add: SctpTransport_send_def to_uint16_stream Let_def max) blast
    next
      case b': True
      obtain sent where "list_all2 carried_by sent (sent_calls t1)" "sent = req"
        using t1(2,4) True by (auto simp: send_inv_def)
      moreover obtain c where "sent_calls t2 = sent_calls t1 @ [c]" "carried_by m c" using t2(6) b' by auto
      ultimately have "list_all2 carried_by (req @ [m]) (sent_calls t2)" by (simp add: list_all2_appendI)
      then have "send_inv (req @ [m]) t2"
        using t1(2,4) t2 True by (simp add: send_inv_def amount_def)
      then show ?thesis using c assms(4) t1 t2 True b' by (simp add: SctpTransport_send_def Let_def) blast
    qed
  qed
qed

text \<open>The calls of a user of the transport and of its processor that send.\<close>

datatype sctp_op = OpSend Message | OpCloseStream u16 | OpFlush | OpDoFlush

fun sctp_exec :: "usrsctp \<Rightarrow> sctp_op \<Rightarrow> SctpTransport \<Rightarrow> SctpTransport" where
  "sctp_exec us (OpSend m) t = snd (SctpTransport_send us (Some m) t)"
| "sctp_exec us (OpCloseStream s) t = snd (closeStream_sctp (ucast s) t)"
| "sctp_exec us OpFlush t = snd (SctpTransport_flush us t)"
| "sctp_exec us OpDoFlush t = doFlush_sctp us t"

fun requested :: "sctp_op \<Rightarrow> Message list" where
  "requested (OpSend m) = [m]"
| "requested (OpCloseStream s) = [make_message_size 0 Reset (ucast s) None]"
| "requested _ = []"

fun op_ok :: "nat \<Rightarrow> sctp_op \<Rightarrow> bool" where
  "op_ok n (OpSend m) = (sendable m \<and> length (msg_data m) \<le> n)"
| "op_ok n _ = True"

lemma stream_widen [simp]:
  fixes s :: u16
  shows "unat (ucast s :: u32) = unat s" and "ucast (ucast s :: u32) = s"
proof -
  have "unat s < 65536" using unsigned_less [of s, where 'a = nat] by simp
  then show "unat (ucast s :: u32) = unat s" and "ucast (ucast s :: u32) = s"
    by (simp_all add: word_unat_eq_iff unsigned_ucast_eq take_bit_word_eq_self take_bit_nat_eq_self)
qed

lemma reset_sendable:
  "sendable (make_message_size 0 Reset (ucast (s :: u16)) None)" "message_size (make_message_size 0 Reset (ucast s) None) = 0"
proof -
  have "unat (ucast s :: u32) \<le> 65535"
    using unsigned_less [of s, where 'a = nat] by simp
  then show "sendable (make_message_size 0 Reset (ucast (s :: u16)) None)"
    by (simp add: sendable_def make_message_size_def Message_init_def message_ppid_def)
  show "message_size (make_message_size 0 Reset (ucast s) None) = 0"
    by (simp add: message_size_def message_size_func_def make_message_size_def Message_init_def)
qed

lemma send_inv_processor [simp]: "send_inv req (st_enqueue k t) = send_inv req t" "st_maxMessageSize (st_enqueue k t) = st_maxMessageSize t"
  by (simp_all add: st_enqueue_def send_inv_def amount_def sent_calls_def split: option.split)

lemma send_inv_exec:
  assumes "lib_blocks_only us" and "send_inv req t" and "op_ok (st_maxMessageSize t) op"
  shows "send_inv (req @ requested op) (sctp_exec us op t) \<and> st_maxMessageSize (sctp_exec us op t) = st_maxMessageSize t"
proof (cases op)
  case (OpSend m)
  then show ?thesis using send_inv_send [OF assms(1,2), of m] assms(3) by auto
next
  case (OpCloseStream s)
  let ?m = "make_message_size 0 Reset (ucast s) None"
  have "to_uint16 (uint (ucast s :: u32)) = Inr s"
    using to_uint16_stream [OF reset_sendable(1), of s] by (simp add: make_message_size_def)
  moreover have "send_inv (req @ [?m]) (st_push ?m t)"
    using st_push_inv [OF assms(2) reset_sendable(1), of s] by (simp add: reset_sendable(2) updateBufferedAmount_sctp_def)
  ultimately show ?thesis using OpCloseStream by (simp add: closeStream_sctp_def) (simp add: st_push_def split: option.split)
next
  case OpFlush
  then show ?thesis
    using trySendQueue_inv [OF assms(1,2)] assms(2) by (auto simp: SctpTransport_flush_def split: sum.splits)
next
  case OpDoFlush
  have "send_inv req (t\<lparr>st_pendingFlushCount := st_pendingFlushCount t - 1\<rparr>)"
    using assms(2) by (simp add: send_inv_def amount_def sent_calls_def)
  then show ?thesis using trySendQueue_inv [OF assms(1), of req "t\<lparr>st_pendingFlushCount := st_pendingFlushCount t - 1\<rparr>"] OpDoFlush
    by (auto simp: doFlush_sctp_def)
qed

lemma send_inv_run:
  assumes "lib_blocks_only us" and "send_inv req t" and "\<forall>op \<in> set ops. op_ok (st_maxMessageSize t) op"
  shows "send_inv (req @ concat (map requested ops)) (fold (sctp_exec us) ops t)"
  using assms(2,3)
proof (induction ops arbitrary: req t)
  case Nil
  then show ?case by simp
next
  case (Cons op ops)
  then show ?case using send_inv_exec [OF assms(1) Cons.prems(1), of op] by (fastforce dest: Cons.IH)
qed

text \<open>C9. the SCTP transport keeps the order of what it is given. Whatever messages are sent, streams closed and flushes run
  on a connected transport, and wherever usrsctp refuses a message because its buffer is full: what has gone out (the
  messages, each with its stream, payload identifier, order flag and retransmission policy, and the stream resets) followed
  by what is still queued is exactly what was requested, in order, so a stream is never reset before its messages; and the buffered amount
  of every stream is the number of bytes of its queued messages.\<close>

theorem sctp_sends_in_order:
  assumes "lib_blocks_only us" and "fst (st_state t) = Connected" and "st_sendQueue t = Queue_init 0 (Some message_size_func)"
    and "st_calls t = []" and "st_bufferedAmount t = Map.empty"
    and "\<forall>op \<in> set ops. op_ok (st_maxMessageSize t) op" and "t' = fold (sctp_exec us) ops t"
  shows "(\<exists>sent. list_all2 carried_by sent (sent_calls t') \<and> sent @ mQueue (st_sendQueue t') = concat (map requested ops)) \<and>
    (\<forall>s. (case st_bufferedAmount t' s of Some n \<Rightarrow> int n | None \<Rightarrow> 0) =
       sum_list (map message_size (filter (\<lambda>m. ucast (msg_stream m) = s) (mQueue (st_sendQueue t')))))"
proof -
  have "send_inv [] t" using assms(2-5) by (simp add: send_inv_def Queue_init_def sent_calls_def amount_def)
  then show ?thesis
    using send_inv_run [OF assms(1), of "[]" t ops] assms(6,7) by (simp add: send_inv_def amount_def buffered_def)
qed

theorem sctp_sends_in_order_witness:
  defines "us \<equiv> \<lparr>us_result = \<lambda>calls. if calls = [] then EWOULDBLOCK else OK, us_notification = \<lambda>_. (0, OtherNotification)\<rparr>"
    and "t \<equiv> (SctpTransport_init None 5000 5000)\<lparr>st_state := (Connected, [])\<rparr>"
    and "m1 \<equiv> make_message [1, 2] Binary 3 None None" and "m2 \<equiv> make_message [] String 3 None None"
  shows "\<exists>sent. list_all2 carried_by sent (sent_calls (fold (sctp_exec us) [OpSend m1, OpCloseStream 3, OpSend m2, OpDoFlush] t)) \<and>
      sent @ mQueue (st_sendQueue (fold (sctp_exec us) [OpSend m1, OpCloseStream 3, OpSend m2, OpDoFlush] t)) =
      [m1, make_message_size 0 Reset 3 None, m2]"
proof -
  have "lib_blocks_only us" by (simp add: lib_blocks_only_def us_def)
  moreover have "sendable m1" "sendable m2"
    by (simp_all add: sendable_def m1_def m2_def message_reliability_def make_message_def Message_init_def message_policy_def
        Reliability_default_def)
  ultimately show ?thesis
    using sctp_sends_in_order [of us t "[OpSend m1, OpCloseStream 3, OpSend m2, OpDoFlush]"]
    by (simp add: t_def SctpTransport_init_def DEFAULT_LOCAL_MAX_MESSAGE_SIZE_def m1_def m2_def make_message_def Message_init_def)
qed

section \<open>What one end sends the other delivers\<close>

text \<open>The reads in which usrsctp hands one record of the peer to the application.\<close>

inductive reads_of :: "usrsctp_call \<Rightarrow> recvv list \<Rightarrow> bool" where
  last: "reads_of (SctpSend d s ppid u p OK) [RecvBytes d False True (Some (s, ppid))]"
| more: "reads_of (SctpSend d s ppid u p OK) rs \<Longrightarrow> reads_of (SctpSend (c @ d) s ppid u p OK) (RecvBytes c False False info # rs)"

definition received :: "Message \<Rightarrow> sctp_event" where
  "received m = SctpRecv (Some (make_message (msg_data m) (msg_type m) (msg_stream m) None None))"

definition st_ready :: "SctpTransport \<Rightarrow> bool" where
  "st_ready t \<longleftrightarrow> fst (st_state t) \<noteq> Disconnected \<and> fst (st_state t) \<noteq> Failed \<and>
     st_partialMessage t = [] \<and> st_partialStringData t = [] \<and> st_partialBinaryData t = []"

lemma recv_record:
  assumes "reads_of (SctpSend d s ppid u p OK) rs" and "fst (st_state t) \<noteq> Disconnected" "fst (st_state t) \<noteq> Failed"
    and "length (st_partialMessage t @ d) \<le> st_maxMessageSize t"
  shows "recv_loop_sctp us (rs @ rest) t =
    recv_loop_sctp us rest (processData_sctp (st_partialMessage t @ d) s ppid (t\<lparr>st_partialMessage := []\<rparr>))"
  using assms
proof (induction "SctpSend d s ppid u p OK" rs arbitrary: d t rule: reads_of.induct)
  case (last d)
  then show ?case by (simp add: Let_def)
next
  case (more d rs c info)
  then show ?case
    using more(2) [of "t\<lparr>st_partialMessage := st_partialMessage t @ c\<rparr>"] by (simp add: Let_def)
qed

lemma processData_message:
  assumes "carried_by m (SctpSend d s ppid u p OK)" and "sendable m" and "st_ready t" and "msg_type m = Control \<longrightarrow> msg_data m \<noteq> []"
  shows "st_ready (processData_sctp d s ppid t) \<and> st_events (processData_sctp d s ppid t) = st_events t @ [received m] \<and>
    st_maxMessageSize (processData_sctp d s ppid t) = st_maxMessageSize t"
proof -
  have "ucast (ucast (msg_stream m) :: u16) = msg_stream m"
    using assms(2) by (simp add: sendable_def word_unat_eq_iff unsigned_ucast_eq unsigned_take_bit_eq take_bit_nat_eq_self)
  then have s: "ucast s = msg_stream m" using assms(1) by simp
  have p: "message_ppid m = Some ppid" "d = (if msg_data m \<noteq> [] then msg_data m else [0])" using assms(1) by simp_all
  consider "msg_type m = String" "msg_data m \<noteq> []" | "msg_type m = String" "msg_data m = []" | "msg_type m = Binary" "msg_data m \<noteq> []"
    | "msg_type m = Binary" "msg_data m = []" | "msg_type m = Control" "msg_data m \<noteq> []"
    using assms(4) p(1) by (cases "msg_type m") (auto simp: message_ppid_def)
  then show ?thesis
    using p assms(3)
    by cases (simp_all add: message_ppid_def processData_sctp_def ppids received_def st_recv_def st_emit_def st_ready_def s)
qed

text \<open>A peer that sent the messages \<open>ms\<close> by the calls \<open>cs\<close>, read in any pieces.\<close>

lemma recv_messages:
  assumes "list_all2 carried_by ms cs" and "list_all2 reads_of cs rss" and "st_ready t"
    and "\<forall>m \<in> set ms. sendable m \<and> length (msg_data m) \<le> st_maxMessageSize t \<and> (msg_type m = Control \<longrightarrow> msg_data m \<noteq> [])"
    and "0 < st_maxMessageSize t"
  shows "st_events (recv_loop_sctp us (concat rss) t) = st_events t @ map received ms \<and> st_ready (recv_loop_sctp us (concat rss) t)"
  using assms
proof (induction ms arbitrary: cs rss t)
  case Nil
  then show ?case by simp
next
  case (Cons m ms)
  obtain c cs' rs rss' where c: "cs = c # cs'" "rss = rs # rss'" "carried_by m c" "list_all2 carried_by ms cs'" "reads_of c rs" "list_all2 reads_of cs' rss'"
    using Cons.prems(1,2) by (auto simp: list_all2_Cons1)
  obtain d s ppid u p where cc: "c = SctpSend d s ppid u p OK" using c(5) by (auto elim: reads_of.cases)
  then have d: "length d \<le> st_maxMessageSize t" using c(3) Cons.prems(4,5) by auto
  have t: "t\<lparr>st_partialMessage := []\<rparr> = t" using Cons.prems(3) by (cases t) (simp add: st_ready_def)
  let ?t = "processData_sctp d s ppid t"
  have "recv_loop_sctp us (concat rss) t = recv_loop_sctp us (concat rss') ?t"
    using recv_record [of d s ppid u p rs t us "concat rss'"] c(2,5) cc d t Cons.prems(3) by (simp add: st_ready_def)
  moreover have "st_ready ?t \<and> st_events ?t = st_events t @ [received m] \<and> st_maxMessageSize ?t = st_maxMessageSize t"
    using processData_message [of m d s ppid u p t] c(3) cc Cons.prems(3,4) by simp
  ultimately show ?case using Cons.IH [OF c(4,6), of ?t] Cons.prems(4,5) by simp
qed

lemma trySendMessage_accepted:
  assumes "\<forall>calls. us_result us calls = OK" and "sendable m" and "fst (st_state t) = Connected"
  shows "\<exists>t'. trySendMessage_sctp us m t = (Inr True, t')"
proof (cases "message_ppid m")
  case None
  then show ?thesis using assms by (simp add: trySendMessage_sctp_def)
next
  case (Some ppid)
  then obtain policy where "message_policy (message_reliability m) = Inr policy"
    using assms(2) by (auto simp: sendable_def)
  then show ?thesis using assms Some by (simp add: trySendMessage_sctp_def us_call_def message_reliability_def Let_def)
qed

lemma trySendQueue_drains:
  assumes "\<forall>calls. us_result us calls = OK" and "send_inv req t"
  shows "\<exists>t'. trySendQueue_sctp us t = (Inr True, t')"
  using assms(2)
proof (induction "mQueue (st_sendQueue t)" arbitrary: t)
  case Nil
  then show ?case by (subst trySendQueue_sctp.simps) (simp add: Queue_peek_def)
next
  case (Cons m ms)
  have us: "lib_blocks_only us" using assms(1) by (simp add: lib_blocks_only_def)
  have q: "mQueue (st_sendQueue t) = m # ms" using Cons(2) by simp
  then have m: "sendable m" "fst (st_state t) = Connected" using Cons.prems by (simp_all add: send_inv_def)
  obtain t' where t': "trySendMessage_sctp us m t = (Inr True, t')" using trySendMessage_accepted [OF assms(1) m] by blast
  let ?u = "updateBufferedAmount_sctp (ucast (msg_stream m)) (- message_size m) (t'\<lparr>st_sendQueue := snd (Queue_pop (st_sendQueue t'))\<rparr>)"
  have "trySendQueue_sctp us t = trySendQueue_sctp us ?u"
    using q t' m(1) by (subst trySendQueue_sctp.simps) (simp add: Queue_peek_def to_uint16_stream Let_def)
  moreover have "send_inv req ?u \<and> mQueue (st_sendQueue ?u) = ms" using sent_step [OF us Cons.prems q t' refl] by simp
  ultimately show ?case using Cons(1) [of ?u] by simp
qed

fun op_sends :: "sctp_op \<Rightarrow> bool" where
  "op_sends (OpCloseStream _) = False"
| "op_sends _ = True"

lemma requested_sendable:
  "\<forall>op \<in> set ops. op_ok n op \<and> op_sends op \<Longrightarrow> m \<in> set (concat (map requested ops)) \<Longrightarrow> sendable m \<and> length (msg_data m) \<le> n"
proof -
  have "op_ok n op \<Longrightarrow> op_sends op \<Longrightarrow> m \<in> set (requested op) \<Longrightarrow> sendable m \<and> length (msg_data m) \<le> n" for op
    by (cases op) auto
  then show "\<forall>op \<in> set ops. op_ok n op \<and> op_sends op \<Longrightarrow> m \<in> set (concat (map requested ops)) \<Longrightarrow> sendable m \<and> length (msg_data m) \<le> n"
    by auto
qed



text \<open>the deprecated partial messages are not put together: the first part is padded with zeros to the size limit, and the
  parts that follow are cut off. A peer that sends a text in two parts is delivered the first part and zeros, for every
  first part below the limit.\<close>

theorem sctp_partial_message_is_padded:
  assumes "st_partialStringData t = []" and "length a < st_maxMessageSize t"
  shows "st_events (processData_sctp b sid PPID_STRING (processData_sctp a sid PPID_STRING_PARTIAL t)) =
    st_events t @ [SctpRecv (Some (make_message (a @ replicate (st_maxMessageSize t - length a) 0) String (ucast sid) None None))]"
proof -
  have "replicate (st_maxMessageSize t - length a) (0 :: u8) \<noteq> []" using assms(2) by simp
  then show ?thesis
    using assms by (simp add: processData_sctp_def ppids resize_def st_recv_def st_emit_def Let_def)
qed

theorem sctp_partial_message_is_padded_witness:
  "st_events (processData_sctp [3] 0 PPID_STRING (processData_sctp [1, 2] 0 PPID_STRING_PARTIAL (SctpTransport_init (Some 4) 0 0))) =
    [SctpRecv (Some (make_message [1, 2, 0, 0] String 0 None None))]"
  using sctp_partial_message_is_padded [of "SctpTransport_init (Some 4) 0 0" "[1, 2]" "[3]" 0]
  by (simp add: SctpTransport_init_def numeral_2_eq_2)

end
