(* ===== verification/SdpText.thy ===== *)
theory SdpText
  imports Utils
begin

text \<open>
  Text and containers that candidates and session descriptions use: the helpers at the head of \<open>src/candidate.cpp\<close> and
  \<open>src/description.cpp\<close>, the extraction of numbers from streams and strings (\<open>stream >> number\<close>, \<open>std::stol\<close>,
  \<open>std::stoul\<close>) with their failures, and \<open>std::map\<close> as an association list in the order of its keys, behind the interface
  \<open>ordered_map\<close>.
\<close>

section \<open>Strings\<close>

definition match_prefix :: "string \<Rightarrow> string \<Rightarrow> bool" where
  "match_prefix str prefix \<longleftrightarrow> length str \<ge> length prefix \<and> take (length prefix) str = prefix"

definition trim_begin :: "string \<Rightarrow> string" where
  "trim_begin str = dropWhile isspace str"

definition trim_end :: "string \<Rightarrow> string" where
  "trim_end str = rev (dropWhile isspace (rev str))"

text \<open>\<open>find(c)\<close> followed by \<open>substr\<close>: what is before and behind the first occurrence, if there is one.\<close>

definition split_at :: "char \<Rightarrow> string \<Rightarrow> (string \<times> string) option" where
  "split_at c s = (if c \<in> set s then Some (takeWhile (\<lambda>d. d \<noteq> c) s, drop 1 (dropWhile (\<lambda>d. d \<noteq> c) s)) else None)"

definition parse_pair :: "string \<Rightarrow> string \<times> string" where
  "parse_pair attr = (case split_at (CHR '':'') attr of Some (key, value) \<Rightarrow> (key, value) | None \<Rightarrow> (attr, []))"

text \<open>\<open>str.find(sub)\<close>: the position of the first occurrence.\<close>

fun find_substring :: "string \<Rightarrow> string \<Rightarrow> nat option" where
  "find_substring sub [] = (if sub = [] then Some 0 else None)"
| "find_substring sub (c # s) = (if match_prefix (c # s) sub then Some 0 else map_option Suc (find_substring sub s))"

definition toupper :: "char \<Rightarrow> char" where
  "toupper c = (let n = of_char c :: nat in if 97 \<le> n \<and> n \<le> 122 then char_of (n - 32) else c)"

section \<open>Numbers\<close>

text \<open>White space, a sign, digits: the sign, the magnitude and the rest of the input.\<close>

definition read_number :: "string \<Rightarrow> (bool \<times> nat \<times> string) option" where
  "read_number s =
     (let s = dropWhile isspace s;
          negative = (s \<noteq> [] \<and> hd s = CHR ''-'');
          s = (if s \<noteq> [] \<and> (hd s = CHR ''-'' \<or> hd s = CHR ''+'') then tl s else s);
          ds = takeWhile isdigit s
      in if ds = [] then None else Some (negative, digits_value ds, dropWhile isdigit s))"

text \<open>\<open>stream >> number\<close> into an unsigned type with values below \<open>bound\<close>, and into an \<open>int\<close>; \<open>None\<close> is the fail bit.\<close>

definition stream_unsigned :: "nat \<Rightarrow> string \<Rightarrow> (nat \<times> string) option" where
  "stream_unsigned bound s =
     (case read_number s of
        None \<Rightarrow> None
      | Some (negative, n, rest) \<Rightarrow>
          if n \<ge> bound then None else Some (if negative then (bound - n) mod bound else n, rest))"

definition stream_int :: "string \<Rightarrow> (int \<times> string) option" where
  "stream_int s =
     (case read_number s of
        None \<Rightarrow> None
      | Some (negative, n, rest) \<Rightarrow>
          if n > (if negative then 2147483648 else 2147483647) then None
          else Some (if negative then - int n else int n, rest))"

definition stol :: "string \<Rightarrow> int result" where
  "stol s =
     (case read_number s of
        None \<Rightarrow> Inl (InvalidArgument ''stol'')
      | Some (negative, n, _) \<Rightarrow>
          if n > (if negative then 9223372036854775808 else 9223372036854775807) then Inl OutOfRange
          else Inr (if negative then - int n else int n))"

definition stoul :: "string \<Rightarrow> u64 result" where
  "stoul s =
     (case read_number s of
        None \<Rightarrow> Inl (InvalidArgument ''stoul'')
      | Some (negative, n, _) \<Rightarrow>
          if n > 18446744073709551615 then Inl OutOfRange
          else Inr (if negative then - of_nat n else of_nat n))"

text \<open>\<open>to_integer\<close>: every failure becomes an invalid argument; the conversion to the type keeps the low bits.\<close>

definition to_integer_int :: "string \<Rightarrow> int result" where
  "to_integer_int s =
     (case stol s of
        Inl _ \<Rightarrow> Inl (InvalidArgument ''Invalid integer in description'')
      | Inr i \<Rightarrow> Inr (sint (word_of_int i :: 32 word)))"

definition to_integer_unsigned :: "string \<Rightarrow> 'a::len word result" where
  "to_integer_unsigned s =
     (case stoul s of
        Inl _ \<Rightarrow> Inl (InvalidArgument ''Invalid integer in description'')
      | Inr w \<Rightarrow> Inr (ucast w))"

section \<open>Ordered maps\<close>

text \<open>What the code relies on in \<open>std::map\<close>: lookups after insertions and removals, and iteration in ascending order of keys.\<close>

locale ordered_map =
  fixes lookup :: "'m \<Rightarrow> 'k::linorder \<Rightarrow> 'v option"
    and insert_or_assign :: "'k \<Rightarrow> 'v \<Rightarrow> 'm \<Rightarrow> 'm"
    and erase :: "'k \<Rightarrow> 'm \<Rightarrow> 'm"
    and entries :: "'m \<Rightarrow> ('k \<times> 'v) list"
    and valid :: "'m \<Rightarrow> bool"
  assumes valid_insert: "valid m \<Longrightarrow> valid (insert_or_assign k v m)"
    and valid_erase: "valid m \<Longrightarrow> valid (erase k m)"
    and lookup_insert: "lookup (insert_or_assign k v m) k' = (if k' = k then Some v else lookup m k')"
    and lookup_erase: "lookup (erase k m) k' = (if k' = k then None else lookup m k')"
    and lookup_entries: "valid m \<Longrightarrow> lookup m k = Some v \<longleftrightarrow> (k, v) \<in> set (entries m)"
    and entries_ascending: "valid m \<Longrightarrow> sorted_wrt (<) (map fst (entries m))"
begin

text \<open>\<open>emplace\<close> and \<open>insert\<close> keep the value of a key that is there.\<close>

definition emplace_new :: "'k \<Rightarrow> 'v \<Rightarrow> 'm \<Rightarrow> 'm" where
  "emplace_new k v m = (if lookup m k = None then insert_or_assign k v m else m)"

lemma valid_emplace: "valid m \<Longrightarrow> valid (emplace_new k v m)"
  by (simp add: emplace_new_def valid_insert)

lemma lookup_emplace: "lookup (emplace_new k v m) k' = (if k' = k \<and> lookup m k = None then Some v else lookup m k')"
  by (auto simp: emplace_new_def lookup_insert)

text \<open>Two maps with the same lookups are iterated in the same order.\<close>

lemma entries_determined:
  assumes "valid m" and "valid m'" and "\<And>k. lookup m k = lookup m' k"
  shows "entries m = entries m'"
proof -
  have "set (entries m) = set (entries m')"
    using assms lookup_entries by (metis (no_types, lifting) pred_equals_eq2 subrelI subset_antisym)
  moreover have "sorted (map fst (entries m))" "distinct (map fst (entries m))" "sorted (map fst (entries m'))" "distinct (map fst (entries m'))"
    using entries_ascending [OF assms(1)] entries_ascending [OF assms(2)] by (simp_all add: strict_sorted_iff)
  ultimately show ?thesis
    by (metis map_sorted_distinct_set_unique distinct_map image_Un sup.idem)
qed

end

fun map_insert :: "'k::linorder \<Rightarrow> 'v \<Rightarrow> ('k \<times> 'v) list \<Rightarrow> ('k \<times> 'v) list" where
  "map_insert k v [] = [(k, v)]"
| "map_insert k v ((k', v') # m) =
     (if k < k' then (k, v) # (k', v') # m else if k = k' then (k, v) # m else (k', v') # map_insert k v m)"

definition map_erase :: "'k \<Rightarrow> ('k \<times> 'v) list \<Rightarrow> ('k \<times> 'v) list" where
  "map_erase k m = filter (\<lambda>(k', v). k' \<noteq> k) m"

definition map_emplace :: "'k::linorder \<Rightarrow> 'v \<Rightarrow> ('k \<times> 'v) list \<Rightarrow> ('k \<times> 'v) list" where
  "map_emplace k v m = (if map_of m k = None then map_insert k v m else m)"

abbreviation ascending :: "('k::linorder \<times> 'v) list \<Rightarrow> bool" where
  "ascending m \<equiv> sorted_wrt (<) (map fst m)"

lemma keys_map_insert: "fst ` set (map_insert k v m) = insert k (fst ` set m)"
proof (induction m)
  case (Cons e m)
  then show ?case by (cases e) (simp add: insert_commute)
qed simp

lemma ascending_map_insert: "ascending m \<Longrightarrow> ascending (map_insert k v m)"
proof (induction m)
  case (Cons e m)
  obtain k' v' where e: "e = (k', v')" by fastforce
  have keys: "fst ` set (map_insert k v m) = insert k (fst ` set m)" by (rule keys_map_insert)
  have m: "ascending m" "\<forall>x \<in> fst ` set m. k' < x" using Cons.prems by (simp_all add: e)
  consider "k < k'" | "k = k'" | "k' < k" using less_linear by blast
  then show ?case
  proof cases
    case 1
    then show ?thesis using m by (auto simp: e)
  next
    case 3
    then have "\<forall>x \<in> fst ` set (map_insert k v m). k' < x" using m(2) unfolding keys by blast
    then show ?thesis using Cons.IH [OF m(1)] 3 by (auto simp: e)
  qed (use m in \<open>simp add: e\<close>)
qed simp

lemma ascending_map_erase: "ascending m \<Longrightarrow> ascending (map_erase k m)"
  by (induction m) (auto simp: map_erase_def)

lemma map_of_map_insert: "map_of (map_insert k v m) k' = (if k' = k then Some v else map_of m k')"
  by (induction m) auto

lemma map_of_map_erase: "map_of (map_erase k m) k' = (if k' = k then None else map_of m k')"
  by (induction m) (auto simp: map_erase_def)

interpretation std_map: ordered_map map_of map_insert map_erase id "\<lambda>m. ascending m"
proof
  show "(map_of m k = Some v) = ((k, v) \<in> set (id m))" if "ascending m" for m :: "('k::linorder \<times> 'v) list" and k v
    using that by (simp add: strict_sorted_iff)
qed (simp_all add: ascending_map_insert ascending_map_erase map_of_map_insert map_of_map_erase)

lemma map_emplace_eq: "map_emplace k v m = std_map.emplace_new k v m"
  by (simp add: map_emplace_def std_map.emplace_new_def)

lemma map_insert_end: "\<forall>k' \<in> fst ` set m. k' < k \<Longrightarrow> map_insert k v m = m @ [(k, v)]"
  by (induction m) auto

section \<open>Facts on text\<close>

lemma match_prefix_simps [simp]:
  "match_prefix str []" "\<not> match_prefix [] (c # p)" "match_prefix (d # str) (c # p) \<longleftrightarrow> d = c \<and> match_prefix str p"
  by (auto simp: match_prefix_def)

lemma match_prefix_append [simp]: "match_prefix (p @ s) p"
  by (simp add: match_prefix_def)

lemma split_at_first: "c \<notin> set k \<Longrightarrow> split_at c (k @ c # v) = Some (k, v)"
  by (simp add: split_at_def span_delim)

lemma split_at_none: "c \<notin> set k \<Longrightarrow> split_at c k = None"
  by (simp add: split_at_def)

lemma parse_pair_pair: "CHR '':'' \<notin> set k \<Longrightarrow> parse_pair (k @ CHR '':'' # v) = (k, v)"
  by (simp add: parse_pair_def split_at_first)

lemma parse_pair_plain: "CHR '':'' \<notin> set k \<Longrightarrow> parse_pair k = (k, [])"
  by (simp add: parse_pair_def split_at_none)

text \<open>Characters that are no white space.\<close>

definition graphic :: "string \<Rightarrow> bool" where
  "graphic s \<longleftrightarrow> (\<forall>c \<in> set s. \<not> isspace c)"

lemma trim_end_graphic: "s = [] \<or> \<not> isspace (last s) \<Longrightarrow> trim_end (s @ w) = (if \<forall>c \<in> set w. isspace c then s else trim_end (s @ w))"
proof (cases "\<forall>c \<in> set w. isspace c")
  case True
  assume s: "s = [] \<or> \<not> isspace (last s)"
  have "dropWhile isspace (rev w @ rev s) = dropWhile isspace (rev s)" using True by (intro dropWhile_append2) simp
  also have "\<dots> = rev s" using s by (cases s rule: rev_cases) auto
  finally show ?thesis using True by (simp add: trim_end_def)
qed auto

lemma isdigit_not_space: "isdigit c \<Longrightarrow> \<not> isspace c \<and> c \<noteq> CHR ''-'' \<and> c \<noteq> CHR ''+''"
  by (auto simp: isdigit_def isspace_def Let_def)

lemma nat_string_digits: "\<forall>c \<in> set (nat_string n). isdigit c" and nat_string_nonempty: "nat_string n \<noteq> []"
proof (induction n rule: nat_string.induct)
  case (1 n)
  { case 1 then show ?case using "1.IH"(1) by (subst nat_string.simps) (auto simp: isdigit_def Let_def) next
    case 2 then show ?case by (subst nat_string.simps) simp }
qed

lemma digits_value_append: "digits_value (a @ [c]) = digits_value a * 10 + (of_char c - 48)"
  by (simp add: digits_value_def)

lemma digits_value_nat_string: "digits_value (nat_string n) = n"
proof (induction n rule: nat_string.induct)
  case (1 n)
  then show ?case
    by (subst nat_string.simps) (auto simp: digits_value_append, simp add: digits_value_def)
qed

text \<open>A printed number is read back, with what follows it.\<close>

lemma read_number_nat:
  assumes "rest = [] \<or> \<not> isdigit (hd rest)" and "\<forall>c \<in> set w. isspace c"
  shows "read_number (w @ nat_string n @ rest) = Some (False, n, rest)"
proof -
  obtain d ds where ds: "nat_string n = d # ds" "isdigit d" using nat_string_nonempty [of n] nat_string_digits [of n] by (cases "nat_string n") auto
  have "dropWhile isspace (w @ nat_string n @ rest) = nat_string n @ rest"
    using assms(2) ds isdigit_not_space by (simp add: dropWhile_append2)
  moreover have "takeWhile isdigit (nat_string n @ rest) = nat_string n" "dropWhile isdigit (nat_string n @ rest) = rest"
    using assms(1) nat_string_digits [of n] by (cases rest; simp add: takeWhile_append2 dropWhile_append2)+
  ultimately show ?thesis
    using ds isdigit_not_space [OF ds(2)] digits_value_nat_string [of n] by (simp add: read_number_def Let_def)
qed

lemmas read_number_here = read_number_nat [of _ "[]", simplified]
lemmas read_number_end = read_number_nat [of "[]" "[]", simplified]

end
