(* ===== verification/Candidates.thy ===== *)
theory Candidates
  imports SdpText
begin

text \<open>
  ICE candidates: \<open>src/candidate.cpp\<close>, \<open>src/include/rtc/candidate.hpp\<close>. The operating system's resolver is the argument
  \<open>getaddrinfo\<close>: for a mode, a transport type, a node and a service, the list of addresses it gives, each with its family
  (\<open>None\<close> for a family the code skips) and its numeric form if \<open>getnameinfo\<close> succeeds; the empty list when it fails.
\<close>

section \<open>Data\<close>

datatype Family = Unresolved | Ipv4 | Ipv6
datatype CandidateType = UnknownType | Host | ServerReflexive | PeerReflexive | Relayed
datatype TransportType = UnknownTransport | Udp | TcpActive | TcpPassive | TcpSo | TcpUnknown
datatype ResolveMode = Simple | Lookup

record Candidate =
  cd_foundation :: string
  cd_component :: u32
  cd_priority :: u32
  cd_typeString :: string
  cd_transportString :: string
  cd_type :: CandidateType
  cd_transportType :: TransportType
  cd_node :: string
  cd_service :: string
  cd_tail :: string
  cd_mid :: "string option"
  cd_family :: Family
  cd_address :: string
  cd_port :: u16

type_synonym resolver = "ResolveMode \<Rightarrow> TransportType \<Rightarrow> string \<Rightarrow> string \<Rightarrow> (Family option \<times> (string \<times> string) option) list"

definition Candidate_init :: Candidate where
  "Candidate_init =
     \<lparr>cd_foundation = ''none'', cd_component = 0, cd_priority = 0, cd_typeString = ''unknown'', cd_transportString = ''unknown'',
      cd_type = UnknownType, cd_transportType = UnknownTransport, cd_node = ''0.0.0.0'', cd_service = ''9'', cd_tail = [],
      cd_mid = None, cd_family = Unresolved, cd_address = [], cd_port = 0\<rparr>"

section \<open>Parsing\<close>

definition TypeMap :: "string \<Rightarrow> CandidateType" where
  "TypeMap s = (if s = ''host'' then Host else if s = ''srflx'' then ServerReflexive else if s = ''prflx'' then PeerReflexive
     else if s = ''relay'' then Relayed else UnknownType)"

definition TcpTypeMap :: "string \<Rightarrow> TransportType" where
  "TcpTypeMap s = (if s = ''active'' then TcpActive else if s = ''passive'' then TcpPassive else if s = ''so'' then TcpSo else TcpUnknown)"

definition erase_prefix :: "string \<Rightarrow> string \<Rightarrow> string" where
  "erase_prefix prefix s = (if match_prefix s prefix then drop (length prefix) s else s)"

definition transport_of :: "string \<Rightarrow> string \<Rightarrow> TransportType" where
  "transport_of transportString tail =
     (if transportString = ''UDP'' \<or> transportString = ''udp'' then Udp
      else if transportString = ''TCP'' \<or> transportString = ''tcp'' then
        let (key, rest) = extract_word tail; (tcptype, _) = extract_word rest
        in if tcptype \<noteq> [] \<and> key = ''tcptype'' then TcpTypeMap tcptype else TcpUnknown
      else UnknownTransport)"

text \<open>An extraction of a word that gives nothing sets the fail bit.\<close>

definition next_word :: "string \<Rightarrow> (string \<times> string) option" where
  "next_word s = (let (w, rest) = extract_word s in if w = [] then None else Some (w, rest))"

definition Candidate_parse :: "string \<Rightarrow> Candidate \<Rightarrow> Candidate result" where
  "Candidate_parse candidate c =
     (let candidate = erase_prefix ''candidate:'' (erase_prefix ''a='' candidate);
          fields =
            Option.bind (next_word candidate) (\<lambda>(foundation, s).
            Option.bind (stream_unsigned (2 ^ 32) s) (\<lambda>(component, s).
            Option.bind (next_word s) (\<lambda>(transportString, s).
            Option.bind (stream_unsigned (2 ^ 32) s) (\<lambda>(priority, s).
            Option.bind (next_word s) (\<lambda>(node, s).
            Option.bind (next_word s) (\<lambda>(service, s).
            Option.bind (next_word s) (\<lambda>(typ, s).
            Option.bind (next_word s) (\<lambda>(typeString, s).
              if typ = ''typ'' then
                let tail = trim_end (trim_begin (takeWhile (\<lambda>c. c \<noteq> LF) s))
                in Some (c\<lparr>cd_foundation := foundation, cd_component := of_nat component, cd_transportString := transportString,
                     cd_priority := of_nat priority, cd_node := node, cd_service := service, cd_typeString := typeString,
                     cd_tail := tail, cd_type := TypeMap typeString, cd_transportType := transport_of transportString tail\<rparr>)
              else None))))))))
      in case fields of None \<Rightarrow> Inl (InvalidArgument ''Invalid candidate format'') | Some c \<Rightarrow> Inr c)"

definition Candidate_of :: "string \<Rightarrow> string \<Rightarrow> Candidate result" where
  "Candidate_of candidate mid =
     bind_result (if candidate \<noteq> [] then Candidate_parse candidate Candidate_init else Inr Candidate_init)
       (\<lambda>c. Inr (if mid \<noteq> [] then c\<lparr>cd_mid := Some mid\<rparr> else c))"

section \<open>Operations\<close>

definition hintMid :: "string \<Rightarrow> Candidate \<Rightarrow> Candidate" where
  "hintMid mid c = (if cd_mid c = None then c\<lparr>cd_mid := Some mid\<rparr> else c)"

definition isResolved :: "Candidate \<Rightarrow> bool" where
  "isResolved c \<longleftrightarrow> cd_family c \<noteq> Unresolved"

text \<open>The loop of \<open>resolve\<close> over the addresses; a service that is no number ends it, with the fields set before.\<close>

fun resolve_loop :: "(Family option \<times> (string \<times> string) option) list \<Rightarrow> Candidate \<Rightarrow> bool option \<times> Candidate" where
  "resolve_loop [] c = (None, c)"
| "resolve_loop ((Some family, Some (node, serv)) # as) c =
     (case stoul serv of
        Inl _ \<Rightarrow> (Some False, c)
      | Inr port \<Rightarrow> (None, c\<lparr>cd_port := ucast port, cd_address := node, cd_family := family\<rparr>))"
| "resolve_loop (_ # as) c = resolve_loop as c"

definition Candidate_resolve :: "resolver \<Rightarrow> ResolveMode \<Rightarrow> Candidate \<Rightarrow> bool \<times> Candidate" where
  "Candidate_resolve getaddrinfo mode c =
     (case resolve_loop (getaddrinfo mode (cd_transportType c) (cd_node c) (cd_service c)) c of
        (Some r, c) \<Rightarrow> (r, c)
      | (None, c) \<Rightarrow> (isResolved c, c))"

definition changeAddress :: "resolver \<Rightarrow> string \<Rightarrow> string \<Rightarrow> Candidate \<Rightarrow> unit result \<times> Candidate" where
  "changeAddress getaddrinfo addr service c =
     (let c = c\<lparr>cd_node := addr, cd_service := service, cd_family := Unresolved, cd_address := [], cd_port := 0\<rparr>
      in case Candidate_resolve getaddrinfo Simple c of
           (ok, c) \<Rightarrow> (if ok then Inr () else Inl (InvalidArgument ''Invalid candidate address''), c))"

definition candidate_string :: "Candidate \<Rightarrow> string" where
  "candidate_string c =
     ''candidate:'' @ cd_foundation c @ '' '' @ nat_string (unat (cd_component c)) @ '' '' @ cd_transportString c @ '' '' @
     nat_string (unat (cd_priority c)) @ '' '' @
     (if isResolved c then cd_address c @ '' '' @ nat_string (unat (cd_port c)) else cd_node c @ '' '' @ cd_service c) @
     '' typ '' @ cd_typeString c @ (if cd_tail c \<noteq> [] then '' '' @ cd_tail c else [])"

definition Candidate_string :: "Candidate \<Rightarrow> string" where
  "Candidate_string c = ''a='' @ candidate_string c"

definition Candidate_mid :: "Candidate \<Rightarrow> string" where
  "Candidate_mid c = (case cd_mid c of Some m \<Rightarrow> m | None \<Rightarrow> ''0'')"

definition Candidate_eq :: "Candidate \<Rightarrow> Candidate \<Rightarrow> bool" where
  "Candidate_eq c other \<longleftrightarrow> cd_foundation c = cd_foundation other \<and> cd_service c = cd_service other \<and> cd_node c = cd_node other"

definition Candidate_ne :: "Candidate \<Rightarrow> Candidate \<Rightarrow> bool" where
  "Candidate_ne c other \<longleftrightarrow> cd_foundation c \<noteq> cd_foundation other"

definition Candidate_address :: "Candidate \<Rightarrow> string option" where
  "Candidate_address c = (if isResolved c then Some (cd_address c) else None)"

definition Candidate_port :: "Candidate \<Rightarrow> u16 option" where
  "Candidate_port c = (if isResolved c then Some (cd_port c) else None)"

section \<open>Parsing what was printed\<close>

definition word_ok :: "string \<Rightarrow> bool" where
  "word_ok s \<longleftrightarrow> s \<noteq> [] \<and> graphic s"

definition tail_ok :: "string \<Rightarrow> bool" where
  "tail_ok s \<longleftrightarrow> s = [] \<or> (\<not> isspace (hd s) \<and> \<not> isspace (last s) \<and> LF \<notin> set s)"

definition candidate_ok :: "Candidate \<Rightarrow> bool" where
  "candidate_ok c \<longleftrightarrow> word_ok (cd_foundation c) \<and> word_ok (cd_transportString c) \<and> word_ok (cd_node c) \<and> word_ok (cd_service c) \<and>
     word_ok (cd_typeString c) \<and> tail_ok (cd_tail c) \<and> cd_type c = TypeMap (cd_typeString c) \<and>
     cd_transportType c = transport_of (cd_transportString c) (cd_tail c) \<and> (isResolved c \<longrightarrow> word_ok (cd_address c))"

text \<open>What a reader knows of a candidate: a resolved one is printed with its address, and has to be resolved again.\<close>

definition printed :: "Candidate \<Rightarrow> Candidate" where
  "printed c = c\<lparr>cd_node := if isResolved c then cd_address c else cd_node c,
     cd_service := if isResolved c then nat_string (unat (cd_port c)) else cd_service c, cd_family := Unresolved, cd_address := [], cd_port := 0\<rparr>"

lemma next_word_word:
  assumes "word_ok w" and "rest = [] \<or> isspace (hd rest)"
  shows "next_word (w @ rest) = Some (w, rest)" and "next_word (CHR '' '' # w @ rest) = Some (w, rest)"
proof -
  have "dropWhile isspace (w @ rest) = w @ rest" using assms(1) by (cases w) (auto simp: word_ok_def graphic_def)
  moreover have "takeWhile (\<lambda>c. \<not> isspace c) (w @ rest) = w" "dropWhile (\<lambda>c. \<not> isspace c) (w @ rest) = rest"
    using assms by (cases rest; simp add: word_ok_def graphic_def takeWhile_append2 dropWhile_append2)+
  ultimately have "extract_word (w @ rest) = (w, rest)" "extract_word (CHR '' '' # w @ rest) = (w, rest)"
    by (simp_all add: extract_word_def isspace_def)
  then show "next_word (w @ rest) = Some (w, rest)" "next_word (CHR '' '' # w @ rest) = Some (w, rest)"
    using assms(1) by (simp_all add: next_word_def word_ok_def)
qed

lemma space [simp]: "isspace (CHR '' '')" "\<not> isdigit (CHR '' '')"
  by (simp_all add: isspace_def isdigit_def)

lemma stream_unsigned_nat:
  assumes "n < bound" and "rest = [] \<or> \<not> isdigit (hd rest)"
  shows "stream_unsigned bound (CHR '' '' # nat_string n @ rest) = Some (n, rest)"
  using assms read_number_nat [of rest "'' ''" n] by (simp add: stream_unsigned_def)

lemma trim_tail:
  assumes "tail_ok t" and "t \<noteq> []"
  shows "trim_end (trim_begin (takeWhile (\<lambda>c. c \<noteq> LF) (CHR '' '' # t))) = t"
proof -
  have line: "takeWhile (\<lambda>c. c \<noteq> LF) (CHR '' '' # t) = CHR '' '' # t" using assms by (auto simp: tail_ok_def takeWhile_eq_all_conv)
  have "dropWhile isspace t = t" using assms by (cases t) (auto simp: tail_ok_def)
  then show ?thesis
    unfolding line using assms trim_end_graphic [of t "[]"] by (simp add: trim_begin_def tail_ok_def)
qed

lemma no_attribute_prefix: "erase_prefix ''a='' (''candidate:'' @ s) = ''candidate:'' @ s" "erase_prefix ''candidate:'' (''candidate:'' @ s) = s"
    "erase_prefix ''a='' (''a='' @ s) = s"
  by (simp_all add: erase_prefix_def)

lemma word_ok_nat_string: "word_ok (nat_string n)"
  using nat_string_digits [of n] nat_string_nonempty [of n] isdigit_not_space by (auto simp: word_ok_def graphic_def)

lemma Candidate_parse_printed:
  assumes "candidate_ok c"
  shows "Candidate_parse (candidate_string c) c0 = Inr ((printed c)\<lparr>cd_mid := cd_mid c0, cd_family := cd_family c0,
    cd_address := cd_address c0, cd_port := cd_port c0\<rparr>)"
proof -
  let ?p = "printed c"
  have node: "word_ok (cd_node ?p)" "word_ok (cd_service ?p)" using assms by (auto simp: candidate_ok_def printed_def word_ok_nat_string)
  let ?tail = "if cd_tail c \<noteq> [] then CHR '' '' # cd_tail c else []"
  have str: "candidate_string c = ''candidate:'' @ cd_foundation c @ CHR '' '' # nat_string (unat (cd_component c)) @ CHR '' '' #
      cd_transportString c @ CHR '' '' # nat_string (unat (cd_priority c)) @ CHR '' '' # cd_node ?p @ CHR '' '' # cd_service ?p @
      CHR '' '' # ''typ'' @ CHR '' '' # cd_typeString c @ ?tail"
    by (simp add: candidate_string_def printed_def)
  have ty: "word_ok ''typ''" by (simp add: word_ok_def graphic_def isspace_def)
  have bound: "unat (cd_component c) < 2 ^ 32" "unat (cd_priority c) < 2 ^ 32" using unsigned_less [of "cd_component c", where 'a = nat] unsigned_less [of "cd_priority c", where 'a = nat] by simp_all
  have tail: "trim_end (trim_begin (takeWhile (\<lambda>c. c \<noteq> LF) ?tail)) = cd_tail c"
    using assms trim_tail by (auto simp: candidate_ok_def trim_begin_def trim_end_def)
  have words: "word_ok (cd_foundation c)" "word_ok (cd_transportString c)" "word_ok (cd_typeString c)" "cd_type c = TypeMap (cd_typeString c)"
      "cd_transportType c = transport_of (cd_transportString c) (cd_tail c)"
    using assms by (simp_all add: candidate_ok_def)
  have t: "?tail = [] \<or> isspace (hd ?tail)" by simp
  show ?thesis
    unfolding Candidate_parse_def str Let_def no_attribute_prefix
    using node words bound ty
    by (simp add: next_word_word next_word_word(2) [OF words(3) t] stream_unsigned_nat tail del: power_Suc append.simps)
      (simp add: printed_def)
qed

lemma Candidate_of_printed:
  assumes "candidate_ok c" and "mid \<noteq> []"
  shows "Candidate_of (candidate_string c) mid = Inr ((printed c)\<lparr>cd_mid := Some mid\<rparr>)"
    and "Candidate_of (Candidate_string c) mid = Inr ((printed c)\<lparr>cd_mid := Some mid\<rparr>)"
proof -
  have "Candidate_parse (Candidate_string c) c0 = Candidate_parse (candidate_string c) c0" for c0
    by (simp add: Candidate_parse_def Candidate_string_def erase_prefix_def candidate_string_def)
  moreover have "Candidate_parse (candidate_string c) Candidate_init = Inr ((printed c)\<lparr>cd_mid := None\<rparr>)"
    using Candidate_parse_printed [OF assms(1), of Candidate_init] by (simp add: Candidate_init_def printed_def)
  moreover have "candidate_string c \<noteq> []" "Candidate_string c \<noteq> []" by (simp_all add: candidate_string_def Candidate_string_def)
  ultimately show "Candidate_of (candidate_string c) mid = Inr ((printed c)\<lparr>cd_mid := Some mid\<rparr>)"
      "Candidate_of (Candidate_string c) mid = Inr ((printed c)\<lparr>cd_mid := Some mid\<rparr>)"
    using assms(2) by (simp_all add: Candidate_of_def)
qed

lemma stoul_nat_string: "n < 2 ^ 64 \<Longrightarrow> stoul (nat_string n) = Inr (of_nat n)"
  by (simp add: stoul_def read_number_end)

lemma stoul_port: "map_sum id ucast (stoul (nat_string (unat (p :: u16)))) = Inr p"
  using unsigned_less [of p, where 'a = nat] by (simp add: stoul_nat_string unsigned_ucast_eq take_bit_word_eq_self)

text \<open>C25. A candidate that is printed as an SDP attribute and parsed by the peer has the same foundation, component, transport, priority,
  type and tail. An unresolved candidate comes back as it was, under the media identifier of the description it is found in. A resolved one is
  printed with its numeric address and port, and a resolver that maps a numeric address to itself gives back its family, address and
  port.\<close>

theorem candidate_roundtrip:
  assumes "candidate_ok c" and "mid \<noteq> []"
  shows "\<exists>c'. Candidate_of (Candidate_string c) mid = Inr c' \<and> cd_mid c' = Some mid \<and>
    (\<not> isResolved c \<and> cd_address c = [] \<and> cd_port c = 0 \<longrightarrow> c' = c\<lparr>cd_mid := Some mid\<rparr>) \<and>
    (isResolved c \<longrightarrow> \<not> isResolved c' \<and>
      (\<forall>getaddrinfo. getaddrinfo Simple (cd_transportType c) (cd_address c) (nat_string (unat (cd_port c))) =
           [(Some (cd_family c), Some (cd_address c, nat_string (unat (cd_port c))))] \<longrightarrow>
         Candidate_resolve getaddrinfo Simple c' =
           (True, c\<lparr>cd_mid := Some mid, cd_node := cd_address c, cd_service := nat_string (unat (cd_port c))\<rparr>)))"
proof -
  have "Candidate_resolve getaddrinfo Simple ((printed c)\<lparr>cd_mid := Some mid\<rparr>) =
      (True, c\<lparr>cd_mid := Some mid, cd_node := cd_address c, cd_service := nat_string (unat (cd_port c))\<rparr>)"
    if "isResolved c" and "getaddrinfo Simple (cd_transportType c) (cd_address c) (nat_string (unat (cd_port c))) =
           [(Some (cd_family c), Some (cd_address c, nat_string (unat (cd_port c))))]" for getaddrinfo
    using that stoul_port [of "cd_port c"] by (auto simp: Candidate_resolve_def printed_def isResolved_def map_sum_Inr_iff)
  then show ?thesis
    using Candidate_of_printed(2) [OF assms] by (auto simp: printed_def isResolved_def)
qed

theorem candidate_roundtrip_witness:
  "\<exists>c c'. isResolved c \<and> Candidate_of (Candidate_string c) ''0'' = Inr c' \<and> \<not> isResolved c' \<and> cd_mid c' = Some ''0''"
proof -
  define c where "c = Candidate_init\<lparr>cd_foundation := ''1'', cd_component := 1, cd_transportString := ''UDP'', cd_transportType := Udp,
    cd_priority := 2122317823, cd_typeString := ''host'', cd_type := Host, cd_family := Ipv4, cd_address := ''10.0.0.1'', cd_port := 5000\<rparr>"
  have "candidate_ok c"
    by (simp add: c_def Candidate_init_def candidate_ok_def word_ok_def graphic_def isspace_def tail_ok_def TypeMap_def transport_of_def)
  moreover have "isResolved c" by (simp add: c_def isResolved_def)
  ultimately show ?thesis using candidate_roundtrip [of c "''0''"] by auto
qed

end
