(* ===== verification/Descriptions.thy ===== *)
theory Descriptions
  imports Candidates
begin

text \<open>
  Session descriptions: \<open>src/description.cpp\<close>, \<open>src/include/rtc/description.hpp\<close>. The class \<open>Entry\<close> is a record, its
  subclasses \<open>Application\<close> and \<open>Media\<close> extend it; \<open>Audio\<close> and \<open>Video\<close> add no members. The entries of a
  description are a list of values: \<open>mApplication\<close> always points to the one application entry of \<open>mEntries\<close>, since the methods
  that add one remove the former one, so it is found in the list. Copies of a description share their entries in the code, here each
  has its own. What is written to an output stream is the list of its lines, which \<open>with_eol\<close> ends. A constructor or parser
  that raises gives \<open>Inl\<close>.
\<close>

section \<open>Data\<close>

datatype DescriptionType = Unspec | Offer | Answer | Pranswer | Rollback
datatype Role = ActPass | Passive | Active
datatype Direction = SendOnly | RecvOnly | SendRecv | Inactive | Unknown
datatype Algorithm = Sha1 | Sha224 | Sha256 | Sha384 | Sha512

record CertificateFingerprint =
  fp_algorithm :: Algorithm
  fp_value :: string

record ExtMap =
  em_id :: int
  em_uri :: string
  em_attributes :: string
  em_direction :: Direction

record RtpMap =
  rm_payloadType :: int
  rm_format :: string
  rm_clockRate :: int
  rm_encParams :: string
  rm_rtcpFbs :: "string list"
  rm_fmtps :: "string list"

record Entry =
  en_attributes :: "string list"
  en_extMaps :: "(int \<times> ExtMap) list"
  en_type :: string
  en_protocol :: string
  en_description :: string
  en_mid :: string
  en_rids :: "string list"
  en_direction :: Direction
  en_isRemoved :: bool

record Application = Entry +
  ap_sctpPort :: "u16 option"
  ap_maxMessageSize :: "u64 option"

record Media = Entry +
  md_bas :: int
  md_orderedPayloadTypes :: "int list"
  md_rtpMaps :: "(int \<times> RtpMap) list"
  md_ssrcs :: "u32 list"
  md_cNameMap :: "(u32 \<times> string) list"

datatype entry = AppEntry Application | MediaEntry Media

record Description =
  de_type :: DescriptionType
  de_role :: Role
  de_username :: string
  de_sessionId :: string
  de_iceOptions :: "string list"
  de_iceUfrag :: "string option"
  de_icePwd :: "string option"
  de_fingerprint :: "CertificateFingerprint option"
  de_attributes :: "string list"
  de_entries :: "entry list"
  de_candidates :: "Candidate list"
  de_ended :: bool

definition with_eol :: "string \<Rightarrow> string list \<Rightarrow> string" where
  "with_eol eol ls = concat (map (\<lambda>l. l @ eol) ls)"

section \<open>Names\<close>

definition stringToType :: "string \<Rightarrow> DescriptionType" where
  "stringToType s = (if s = ''unspec'' then Unspec else if s = ''offer'' then Offer else if s = ''answer'' then Answer
     else if s = ''pranswer'' then Pranswer else if s = ''rollback'' then Rollback else Unspec)"

fun typeToString :: "DescriptionType \<Rightarrow> string" where
  "typeToString Unspec = ''unspec''"
| "typeToString Offer = ''offer''"
| "typeToString Answer = ''answer''"
| "typeToString Pranswer = ''pranswer''"
| "typeToString Rollback = ''rollback''"

fun role_string :: "Role \<Rightarrow> string" where
  "role_string Active = ''active''"
| "role_string Passive = ''passive''"
| "role_string ActPass = ''actpass''"

fun direction_string :: "Direction \<Rightarrow> string" where
  "direction_string RecvOnly = ''recvonly''"
| "direction_string SendOnly = ''sendonly''"
| "direction_string SendRecv = ''sendrecv''"
| "direction_string Inactive = ''inactive''"
| "direction_string Unknown = ''unknown''"

section \<open>Fingerprints\<close>

fun AlgorithmSize :: "Algorithm \<Rightarrow> nat" where
  "AlgorithmSize Sha1 = 20"
| "AlgorithmSize Sha224 = 28"
| "AlgorithmSize Sha256 = 32"
| "AlgorithmSize Sha384 = 48"
| "AlgorithmSize Sha512 = 64"

fun AlgorithmIdentifier :: "Algorithm \<Rightarrow> string" where
  "AlgorithmIdentifier Sha1 = ''sha-1''"
| "AlgorithmIdentifier Sha224 = ''sha-224''"
| "AlgorithmIdentifier Sha256 = ''sha-256''"
| "AlgorithmIdentifier Sha384 = ''sha-256''"
| "AlgorithmIdentifier Sha512 = ''sha-512''"

definition fingerprint_isValid :: "CertificateFingerprint \<Rightarrow> bool" where
  "fingerprint_isValid f \<longleftrightarrow>
     (let expectedSize = AlgorithmSize (fp_algorithm f)
      in \<not> (expectedSize = 0 \<or> length (fp_value f) \<noteq> expectedSize * 3 - 1) \<and>
         list_all (\<lambda>i. if i mod 3 = 2 then fp_value f ! i = CHR '':'' else isxdigit (fp_value f ! i)) [0..<length (fp_value f)])"

section \<open>Extension maps\<close>

text \<open>\<open>substr(0, p)\<close> for a position \<open>p\<close> that may be \<open>npos\<close>.\<close>

definition before :: "char \<Rightarrow> string \<Rightarrow> string" where
  "before c s = (case split_at c s of Some (a, b) \<Rightarrow> a | None \<Rightarrow> s)"

definition ExtMap_parseId :: "string \<Rightarrow> int result" where
  "ExtMap_parseId description = to_integer_int (before (CHR '' '') description)"

definition ExtMap_init :: "int \<Rightarrow> string \<Rightarrow> Direction \<Rightarrow> ExtMap" where
  "ExtMap_init i uri direction = \<lparr>em_id = i, em_uri = uri, em_attributes = [], em_direction = direction\<rparr>"

definition parse_direction :: "string \<Rightarrow> Direction result" where
  "parse_direction s =
     (if s = ''sendonly'' then Inr SendOnly else if s = ''recvonly'' then Inr RecvOnly
      else if s = ''sendrecv'' then Inr SendRecv else if s = ''inactive'' then Inr Inactive
      else Inl (InvalidArgument ''Invalid direction for extmap''))"

definition ExtMap_setDescription :: "string \<Rightarrow> ExtMap \<Rightarrow> ExtMap result" where
  "ExtMap_setDescription description m =
     (case split_at (CHR '' '') description of
        None \<Rightarrow> Inl (InvalidArgument ''Invalid description for extmap'')
      | Some (idAndDirection, uriAndAttributes) \<Rightarrow>
          bind_result
            (case split_at (CHR ''/'') idAndDirection of
               None \<Rightarrow> bind_result (to_integer_int idAndDirection) (\<lambda>i. Inr (m\<lparr>em_id := i\<rparr>))
             | Some (idStr, directionStr) \<Rightarrow>
                 bind_result (to_integer_int idStr) (\<lambda>i.
                 bind_result (parse_direction directionStr) (\<lambda>d. Inr (m\<lparr>em_id := i, em_direction := d\<rparr>))))
            (\<lambda>m. Inr (case split_at (CHR '' '') uriAndAttributes of
                        None \<Rightarrow> m\<lparr>em_uri := uriAndAttributes\<rparr>
                      | Some (uri, attrs) \<Rightarrow> m\<lparr>em_uri := uri, em_attributes := attrs\<rparr>)))"

definition ExtMap_of :: "string \<Rightarrow> ExtMap result" where
  "ExtMap_of description = ExtMap_setDescription description \<lparr>em_id = 0, em_uri = [], em_attributes = [], em_direction = Unknown\<rparr>"

section \<open>Entries\<close>

definition Entry_init :: "string \<Rightarrow> string \<Rightarrow> Direction \<Rightarrow> Entry result" where
  "Entry_init mline mid dir =
     (let fields =
        Option.bind (next_word (if match_prefix mline ''m='' then drop 2 mline else mline)) (\<lambda>(type, s).
        Option.bind (stream_unsigned 65536 s) (\<lambda>(port, s).
        Option.bind (next_word s) (\<lambda>(protocol, s).
          Some \<lparr>en_attributes = [], en_extMaps = [], en_type = type, en_protocol = protocol,
                en_description = takeWhile (\<lambda>c. c \<noteq> LF) (dropWhile isspace s), en_mid = mid, en_rids = [],
                en_direction = dir, en_isRemoved = (port = 0)\<rparr>)))
      in case fields of None \<Rightarrow> Inl (InvalidArgument ''Invalid media description line'') | Some e \<Rightarrow> Inr e)"

definition setDirection :: "Direction \<Rightarrow> 'a Entry_scheme \<Rightarrow> 'a Entry_scheme" where
  "setDirection dir e = e\<lparr>en_direction := dir\<rparr>"

definition markRemoved :: "'a Entry_scheme \<Rightarrow> 'a Entry_scheme" where
  "markRemoved e = e\<lparr>en_isRemoved := True\<rparr>"

definition add_unique :: "string \<Rightarrow> string list \<Rightarrow> string list" where
  "add_unique s l = (if s \<in> set l then l else l @ [s])"

definition remove_attr :: "string \<Rightarrow> string list \<Rightarrow> string list" where
  "remove_attr attr l = filter (\<lambda>a. \<not> (a = attr \<or> fst (parse_pair a) = attr)) l"

definition Entry_addAttribute :: "string \<Rightarrow> 'a Entry_scheme \<Rightarrow> 'a Entry_scheme" where
  "Entry_addAttribute attr e = e\<lparr>en_attributes := add_unique attr (en_attributes e)\<rparr>"

definition Entry_removeAttribute :: "string \<Rightarrow> 'a Entry_scheme \<Rightarrow> 'a Entry_scheme" where
  "Entry_removeAttribute attr e = e\<lparr>en_attributes := remove_attr attr (en_attributes e)\<rparr>"

definition addRid :: "string \<Rightarrow> 'a Entry_scheme \<Rightarrow> 'a Entry_scheme" where
  "addRid rid e = e\<lparr>en_rids := en_rids e @ [rid]\<rparr>"

definition extIds :: "'a Entry_scheme \<Rightarrow> int list" where
  "extIds e = map fst (en_extMaps e)"

definition extMap :: "int \<Rightarrow> 'a Entry_scheme \<Rightarrow> ExtMap result" where
  "extMap i e = (case map_of (en_extMaps e) i of None \<Rightarrow> Inl (InvalidArgument ''extmap not found'') | Some m \<Rightarrow> Inr m)"

definition addExtMap :: "ExtMap \<Rightarrow> 'a Entry_scheme \<Rightarrow> 'a Entry_scheme" where
  "addExtMap m e = e\<lparr>en_extMaps := map_emplace (em_id m) m (en_extMaps e)\<rparr>"

definition removeExtMap :: "int \<Rightarrow> 'a Entry_scheme \<Rightarrow> 'a Entry_scheme" where
  "removeExtMap i e = e\<lparr>en_extMaps := map_erase i (en_extMaps e)\<rparr>"

definition extmap_line :: "ExtMap \<Rightarrow> string" where
  "extmap_line m =
     ''a=extmap:'' @ to_string (em_id m) @ (if em_direction m \<noteq> Unknown then ''/'' @ direction_string (em_direction m) else []) @
     '' '' @ em_uri m @ (if em_attributes m \<noteq> [] then '' '' @ em_attributes m else [])"

definition Entry_generateSdpLines :: "'a Entry_scheme \<Rightarrow> string list" where
  "Entry_generateSdpLines e =
     [''a=mid:'' @ en_mid e] @ map (\<lambda>(_, m). extmap_line m) (en_extMaps e) @
     (if en_direction e \<noteq> Unknown then [''a='' @ direction_string (en_direction e)] else []) @
     map (\<lambda>attr. ''a='' @ attr) (filter (\<lambda>attr. \<not> (en_rids e \<noteq> [] \<and> match_prefix attr ''ssrc:'')) (en_attributes e)) @
     map (\<lambda>rid. ''a=rid:'' @ rid @ '' send'') (en_rids e) @
     (if en_rids e \<noteq> [] then [''a=simulcast:send '' @ implode (en_rids e) (CHR '';'')] else [])"

definition Entry_parseSdpLine :: "string \<Rightarrow> 'a Entry_scheme \<Rightarrow> 'a Entry_scheme result" where
  "Entry_parseSdpLine line e =
     (if match_prefix line ''a='' then
        let attr = drop 2 line; (key, value) = parse_pair attr
        in if key = ''mid'' then Inr (e\<lparr>en_mid := value\<rparr>)
           else if key = ''extmap'' then
             bind_result (ExtMap_parseId value) (\<lambda>i.
               case map_of (en_extMaps e) i of
                 None \<Rightarrow> bind_result (ExtMap_of value) (\<lambda>m. Inr (e\<lparr>en_extMaps := map_insert i m (en_extMaps e)\<rparr>))
               | Some m \<Rightarrow> bind_result (ExtMap_setDescription value m) (\<lambda>m. Inr (e\<lparr>en_extMaps := map_insert i m (en_extMaps e)\<rparr>)))
           else if attr = ''sendonly'' then Inr (e\<lparr>en_direction := SendOnly\<rparr>)
           else if attr = ''recvonly'' then Inr (e\<lparr>en_direction := RecvOnly\<rparr>)
           else if key = ''sendrecv'' then Inr (e\<lparr>en_direction := SendRecv\<rparr>)
           else if key = ''inactive'' then Inr (e\<lparr>en_direction := Inactive\<rparr>)
           else if key = ''bundle-only'' then Inr (e\<lparr>en_isRemoved := False\<rparr>)
           else Inr (e\<lparr>en_attributes := en_attributes e @ [attr]\<rparr>)
      else Inr e)"

section \<open>Application\<close>

definition Application_of :: "string \<Rightarrow> string \<Rightarrow> Application result" where
  "Application_of mline mid = map_sum id (\<lambda>e. Entry.extend e (Application.fields None None)) (Entry_init mline mid SendRecv)"

definition Application_init :: "string \<Rightarrow> Application" where
  "Application_init mid =
     \<lparr>en_attributes = [], en_extMaps = [], en_type = ''application'', en_protocol = ''UDP/DTLS/SCTP'', en_description = ''webrtc-datachannel'',
      en_mid = mid, en_rids = [], en_direction = SendRecv, en_isRemoved = False, ap_sctpPort = None, ap_maxMessageSize = None\<rparr>"

definition Application_reciprocate :: "Application \<Rightarrow> Application" where
  "Application_reciprocate a = a\<lparr>ap_maxMessageSize := None\<rparr>"

definition setSctpPort :: "u16 \<Rightarrow> Application \<Rightarrow> Application" where
  "setSctpPort port a = a\<lparr>ap_sctpPort := Some port\<rparr>"

definition hintSctpPort :: "u16 \<Rightarrow> Application \<Rightarrow> Application" where
  "hintSctpPort port a = a\<lparr>ap_sctpPort := Some (case ap_sctpPort a of Some p \<Rightarrow> p | None \<Rightarrow> port)\<rparr>"

definition setMaxMessageSize :: "u64 \<Rightarrow> Application \<Rightarrow> Application" where
  "setMaxMessageSize n a = a\<lparr>ap_maxMessageSize := Some n\<rparr>"

definition Application_generateSdpLines :: "Application \<Rightarrow> string list" where
  "Application_generateSdpLines a =
     Entry_generateSdpLines a @
     (case ap_sctpPort a of Some p \<Rightarrow> [''a=sctp-port:'' @ nat_string (unat p)] | None \<Rightarrow> []) @
     (case ap_maxMessageSize a of Some n \<Rightarrow> [''a=max-message-size:'' @ nat_string (unat n)] | None \<Rightarrow> [])"

definition Application_parseSdpLine :: "string \<Rightarrow> Application \<Rightarrow> Application result" where
  "Application_parseSdpLine line a =
     (if match_prefix line ''a='' then
        let attr = drop 2 line; (key, value) = parse_pair attr
        in if key = ''sctp-port'' then bind_result (to_integer_unsigned value) (\<lambda>p. Inr (a\<lparr>ap_sctpPort := Some p\<rparr>))
           else if key = ''max-message-size'' then bind_result (to_integer_unsigned value) (\<lambda>n. Inr (a\<lparr>ap_maxMessageSize := Some n\<rparr>))
           else Entry_parseSdpLine line a
      else Entry_parseSdpLine line a)"

section \<open>Formats of a media entry\<close>

text \<open>\<open>substr(p + 1)\<close> for a position \<open>p\<close> that may be \<open>npos\<close>: then it is the whole string.\<close>

definition behind :: "char \<Rightarrow> string \<Rightarrow> string" where
  "behind c s = (case split_at c s of Some (a, b) \<Rightarrow> b | None \<Rightarrow> s)"

definition RtpMap_init :: "int \<Rightarrow> RtpMap" where
  "RtpMap_init payloadType =
     \<lparr>rm_payloadType = payloadType, rm_format = [], rm_clockRate = 0, rm_encParams = [], rm_rtcpFbs = [], rm_fmtps = []\<rparr>"

definition parsePayloadType :: "string \<Rightarrow> int result" where
  "parsePayloadType mline = to_integer_int (before (CHR '' '') mline)"

definition RtpMap_setDescription :: "string \<Rightarrow> RtpMap \<Rightarrow> RtpMap result" where
  "RtpMap_setDescription description m =
     (case split_at (CHR '' '') description of
        None \<Rightarrow> Inl (InvalidArgument ''Invalid format description for rtpmap'')
      | Some (pt, line) \<Rightarrow>
          bind_result (to_integer_int pt) (\<lambda>pt.
            case split_at (CHR ''/'') line of
              None \<Rightarrow> Inl (InvalidArgument ''Invalid format description for rtpmap'')
            | Some (format, line) \<Rightarrow>
                let m = m\<lparr>rm_payloadType := pt, rm_format := format\<rparr>
                in case (case split_at (CHR ''/'') line of None \<Rightarrow> split_at (CHR '' '') line | s \<Rightarrow> s) of
                     None \<Rightarrow> bind_result (to_integer_int line) (\<lambda>rate. Inr (m\<lparr>rm_clockRate := rate\<rparr>))
                   | Some (rate, params) \<Rightarrow>
                       bind_result (to_integer_int rate) (\<lambda>rate. Inr (m\<lparr>rm_clockRate := rate, rm_encParams := params\<rparr>))))"

definition RtpMap_of :: "string \<Rightarrow> RtpMap result" where
  "RtpMap_of description = RtpMap_setDescription description (RtpMap_init 0)"

definition addFeedback :: "string \<Rightarrow> RtpMap \<Rightarrow> RtpMap" where
  "addFeedback fb m = m\<lparr>rm_rtcpFbs := add_unique fb (rm_rtcpFbs m)\<rparr>"

definition removeFeedback :: "string \<Rightarrow> RtpMap \<Rightarrow> RtpMap" where
  "removeFeedback str m = m\<lparr>rm_rtcpFbs := filter (\<lambda>fb. find_substring str fb = None) (rm_rtcpFbs m)\<rparr>"

definition addParameter :: "string \<Rightarrow> RtpMap \<Rightarrow> RtpMap" where
  "addParameter p m = m\<lparr>rm_fmtps := add_unique p (rm_fmtps m)\<rparr>"

definition removeParameter :: "string \<Rightarrow> RtpMap \<Rightarrow> RtpMap" where
  "removeParameter str m = m\<lparr>rm_fmtps := filter (\<lambda>p. find_substring str p = None) (rm_fmtps m)\<rparr>"

section \<open>Media\<close>

lemma read_number_shorter: "read_number s = Some (b, n, rest) \<Longrightarrow> length rest < length s"
proof -
  assume a: "read_number s = Some (b, n, rest)"
  define s1 where "s1 = dropWhile isspace s"
  define s2 where "s2 = (if s1 \<noteq> [] \<and> (hd s1 = CHR ''-'' \<or> hd s1 = CHR ''+'') then tl s1 else s1)"
  have "takeWhile isdigit s2 \<noteq> []" "rest = dropWhile isdigit s2"
    using a by (auto simp: read_number_def Let_def s1_def [symmetric] s2_def [symmetric] split: if_splits)
  moreover have "length (takeWhile isdigit s2) + length (dropWhile isdigit s2) = length s2"
    by (metis length_append takeWhile_dropWhile_id)
  moreover have "length s2 \<le> length s1" by (simp add: s2_def)
  moreover have "length s1 \<le> length s" by (simp add: s1_def length_dropWhile_le)
  ultimately show ?thesis by (cases "takeWhile isdigit s2") auto
qed

lemma stream_int_shorter: "stream_int s = Some (i, rest) \<Longrightarrow> length rest < length s"
  by (auto simp: stream_int_def split: option.splits if_splits dest: read_number_shorter)

function payload_types :: "string \<Rightarrow> int list" where
  "payload_types s = (case stream_int s of None \<Rightarrow> [] | Some (i, rest) \<Rightarrow> i # payload_types rest)"
  by auto
termination by (relation "measure length") (auto dest: stream_int_shorter)

declare payload_types.simps [simp del]

definition Media_of_mline :: "string \<Rightarrow> string \<Rightarrow> Direction \<Rightarrow> Media result" where
  "Media_of_mline mline mid dir =
     map_sum id (\<lambda>e. Entry.extend e (Media.fields (-1) (payload_types (en_description e)) [] [] [])) (Entry_init mline mid dir)"

definition Media_description :: "Media \<Rightarrow> string" where
  "Media_description m = implode (map to_string (md_orderedPayloadTypes m)) (CHR '' '')"

definition hasSSRC :: "u32 \<Rightarrow> Media \<Rightarrow> bool" where
  "hasSSRC ssrc m \<longleftrightarrow> ssrc \<in> set (md_ssrcs m)"

definition ssrc_key :: "u32 \<Rightarrow> string" where
  "ssrc_key ssrc = ''ssrc:'' @ nat_string (unat ssrc)"

definition addSSRC :: "u32 \<Rightarrow> string option \<Rightarrow> string option \<Rightarrow> string option \<Rightarrow> Media \<Rightarrow> Media" where
  "addSSRC ssrc name msid trackId m =
     (let m = (case name of
                 Some name \<Rightarrow> m\<lparr>en_attributes := en_attributes m @ [ssrc_key ssrc @ '' cname:'' @ name],
                                md_cNameMap := map_emplace ssrc name (md_cNameMap m)\<rparr>
               | None \<Rightarrow> m\<lparr>en_attributes := en_attributes m @ [ssrc_key ssrc]\<rparr>);
          m = (case msid of
                 Some msid \<Rightarrow>
                   let track = (case trackId of Some t \<Rightarrow> t | None \<Rightarrow> msid)
                   in m\<lparr>en_attributes := en_attributes m @
                        [ssrc_key ssrc @ '' msid:'' @ msid @ '' '' @ track, ''msid:'' @ msid @ '' '' @ track]\<rparr>
               | None \<Rightarrow> m)
      in m\<lparr>md_ssrcs := md_ssrcs m @ [ssrc]\<rparr>)"

definition removeSSRC :: "u32 \<Rightarrow> Media \<Rightarrow> Media" where
  "removeSSRC ssrc m =
     m\<lparr>en_attributes := filter (\<lambda>a. \<not> match_prefix a (ssrc_key ssrc)) (en_attributes m),
       md_ssrcs := removeAll ssrc (md_ssrcs m)\<rparr>"

definition replaceSSRC :: "u32 \<Rightarrow> u32 \<Rightarrow> string option \<Rightarrow> string option \<Rightarrow> string option \<Rightarrow> Media \<Rightarrow> Media" where
  "replaceSSRC old ssrc name msid trackID m = addSSRC ssrc name msid trackID (removeSSRC old m)"

definition clearSSRCs :: "Media \<Rightarrow> Media" where
  "clearSSRCs m = m\<lparr>en_attributes := filter (\<lambda>a. \<not> match_prefix a ''ssrc:'') (en_attributes m), md_ssrcs := [], md_cNameMap := []\<rparr>"

definition getCNameForSsrc :: "u32 \<Rightarrow> Media \<Rightarrow> string option" where
  "getCNameForSsrc ssrc m = map_of (md_cNameMap m) ssrc"

fun invert_direction :: "Direction \<Rightarrow> Direction" where
  "invert_direction RecvOnly = SendOnly"
| "invert_direction SendOnly = RecvOnly"
| "invert_direction d = d"

definition Media_reciprocate :: "Media \<Rightarrow> Media" where
  "Media_reciprocate m =
     (let r = setDirection (invert_direction (en_direction m)) m;
          r = r\<lparr>en_extMaps := map (\<lambda>(i, x). (i, x\<lparr>em_direction := invert_direction (em_direction x)\<rparr>)) (en_extMaps r)\<rparr>
      in Entry_removeAttribute ''rtcp-rsize'' (clearSSRCs r))"

definition setBitrate :: "int \<Rightarrow> Media \<Rightarrow> Media" where
  "setBitrate bitrate m = m\<lparr>md_bas := bitrate\<rparr>"

definition hasPayloadType :: "int \<Rightarrow> Media \<Rightarrow> bool" where
  "hasPayloadType payloadType m \<longleftrightarrow> map_of (md_rtpMaps m) payloadType \<noteq> None"

definition rtpMap :: "int \<Rightarrow> Media \<Rightarrow> RtpMap result" where
  "rtpMap payloadType m =
     (case map_of (md_rtpMaps m) payloadType of None \<Rightarrow> Inl (InvalidArgument ''rtpmap not found'') | Some r \<Rightarrow> Inr r)"

definition addRtpMap :: "RtpMap \<Rightarrow> Media \<Rightarrow> Media" where
  "addRtpMap r m =
     m\<lparr>md_orderedPayloadTypes := (if rm_payloadType r \<in> set (md_orderedPayloadTypes m) then md_orderedPayloadTypes m
                                   else md_orderedPayloadTypes m @ [rm_payloadType r]),
       md_rtpMaps := map_emplace (rm_payloadType r) r (md_rtpMaps m)\<rparr>"

definition removeRtpMap :: "int \<Rightarrow> Media \<Rightarrow> Media" where
  "removeRtpMap payloadType m =
     (let maps = map_erase payloadType (md_rtpMaps m);
          depends = (\<lambda>(k, r). ''apt='' @ to_string payloadType \<in> set (rm_fmtps r))
      in m\<lparr>md_orderedPayloadTypes :=
             filter (\<lambda>pt. pt \<noteq> payloadType \<and> pt \<notin> set (map fst (filter depends maps))) (md_orderedPayloadTypes m),
           md_rtpMaps := filter (\<lambda>e. \<not> depends e) maps\<rparr>)"

definition removeFormat :: "string \<Rightarrow> Media \<Rightarrow> Media" where
  "removeFormat format m = fold removeRtpMap (map fst (filter (\<lambda>(k, r). rm_format r = format) (md_rtpMaps m))) m"

definition addRtxCodec :: "int \<Rightarrow> int \<Rightarrow> u32 \<Rightarrow> Media \<Rightarrow> Media result" where
  "addRtxCodec payloadType origPayloadType clockRate m =
     bind_result (RtpMap_of (to_string payloadType @ '' RTX/'' @ nat_string (unat clockRate))) (\<lambda>rtp.
       Inr (addRtpMap (rtp\<lparr>rm_fmtps := rm_fmtps rtp @ [''apt='' @ to_string origPayloadType]\<rparr>) m))"

definition rtpmap_lines :: "RtpMap \<Rightarrow> string list" where
  "rtpmap_lines r =
     [''a=rtpmap:'' @ to_string (rm_payloadType r) @ '' '' @ rm_format r @ ''/'' @ to_string (rm_clockRate r) @
        (if rm_encParams r \<noteq> [] then ''/'' @ rm_encParams r else [])] @
     map (\<lambda>val. ''a=rtcp-fb:'' @ to_string (rm_payloadType r) @ '' '' @ val) (rm_rtcpFbs r) @
     map (\<lambda>val. ''a=fmtp:'' @ to_string (rm_payloadType r) @ '' '' @ val) (rm_fmtps r)"

definition Media_generateSdpLines :: "Media \<Rightarrow> string list" where
  "Media_generateSdpLines m =
     (if md_bas m \<ge> 0 then [''b=AS:'' @ to_string (md_bas m)] else []) @
     Entry_generateSdpLines m @ [''a=rtcp-mux''] @ concat (map (\<lambda>(k, r). rtpmap_lines r) (md_rtpMaps m))"

text \<open>The format of a payload type that a line refers to, made on the first reference.\<close>

definition with_rtpmap :: "int \<Rightarrow> (RtpMap \<Rightarrow> RtpMap) \<Rightarrow> Media \<Rightarrow> Media" where
  "with_rtpmap pt f m =
     (let r = (case map_of (md_rtpMaps m) pt of None \<Rightarrow> RtpMap_init pt | Some r \<Rightarrow> r)
      in m\<lparr>md_rtpMaps := map_insert pt (f r) (md_rtpMaps m)\<rparr>)"

definition Media_parseSdpLine :: "string \<Rightarrow> Media \<Rightarrow> Media result" where
  "Media_parseSdpLine line m =
     (if match_prefix line ''a='' then
        let attr = drop 2 line; (key, value) = parse_pair attr
        in if key = ''rtpmap'' then
             bind_result (parsePayloadType value) (\<lambda>pt.
               case map_of (md_rtpMaps m) pt of
                 None \<Rightarrow> bind_result (RtpMap_of value) (\<lambda>r. Inr (m\<lparr>md_rtpMaps := map_insert pt r (md_rtpMaps m)\<rparr>))
               | Some r \<Rightarrow> bind_result (RtpMap_setDescription value r) (\<lambda>r. Inr (m\<lparr>md_rtpMaps := map_insert pt r (md_rtpMaps m)\<rparr>)))
           else if key = ''rtcp-fb'' then
             bind_result (to_integer_int (before (CHR '' '') value)) (\<lambda>pt.
               Inr (with_rtpmap pt (\<lambda>r. r\<lparr>rm_rtcpFbs := rm_rtcpFbs r @ [behind (CHR '' '') value]\<rparr>) m))
           else if key = ''fmtp'' then
             bind_result (to_integer_int (before (CHR '' '') value)) (\<lambda>pt.
               Inr (with_rtpmap pt (\<lambda>r. r\<lparr>rm_fmtps := rm_fmtps r @ [behind (CHR '' '') value]\<rparr>) m))
           else if key = ''rtcp-mux'' then Inr m
           else if key = ''ssrc'' then
             bind_result (to_integer_unsigned value) (\<lambda>ssrc.
               let m = (if \<not> hasSSRC ssrc m then m\<lparr>md_ssrcs := md_ssrcs m @ [ssrc]\<rparr> else m);
                   m = (case find_substring ''cname:'' value of
                          Some p \<Rightarrow> m\<lparr>md_cNameMap := map_emplace ssrc (drop (p + 6) value) (md_cNameMap m)\<rparr>
                        | None \<Rightarrow> m)
               in Inr (m\<lparr>en_attributes := en_attributes m @ [attr]\<rparr>))
           else Entry_parseSdpLine line m
      else if match_prefix line ''b=AS'' then
        bind_result (to_integer_int (behind (CHR '':'') line)) (\<lambda>bas. Inr (m\<lparr>md_bas := bas\<rparr>))
      else Entry_parseSdpLine line m)"

text \<open>
  \<open>Media(sdp)\<close>. Its variable \<open>line\<close> lives across the iterations, and a \<open>getline\<close> on a stream that is at its end leaves it as it
  is: when the text does not end with a line feed, its last line is handled twice.
\<close>

fun fold_result :: "('a \<Rightarrow> 's \<Rightarrow> 's result) \<Rightarrow> 'a list \<Rightarrow> 's \<Rightarrow> 's result" where
  "fold_result f [] s = Inr s"
| "fold_result f (x # xs) s = bind_result (f x s) (fold_result f xs)"

definition nonempty_lines :: "string list \<Rightarrow> string list" where
  "nonempty_lines ls = filter (\<lambda>l. l \<noteq> []) (map trim_end ls)"

definition Media_of_sdp :: "string \<Rightarrow> Media result" where
  "Media_of_sdp sdp =
     (let segments = explode sdp LF;
          again = (if sdp \<noteq> [] \<and> last sdp \<noteq> LF then [last segments] else [])
      in bind_result (Media_of_mline (takeWhile (\<lambda>c. c \<noteq> LF) sdp) [] Unknown) (\<lambda>m.
         bind_result (fold_result Media_parseSdpLine (nonempty_lines (drop 1 segments @ again)) m) (\<lambda>m.
           if en_mid m = [] then Inl (InvalidArgument ''Missing mid in media description'') else Inr m)))"

end
