(* ===== verification/PeerChannels.thy ===== *)
theory PeerChannels
  imports Sctp Descriptions
begin

text \<open>
  The data channels of a peer connection: the part of \<open>src/impl/peerconnection.cpp\<close> that owns the registry of
  channels, assigns streams and routes messages between the channels and the SCTP transport. Channel objects live in the store
  \<open>pc_objects\<close>; a weak pointer is the number of an object and can be locked while the object is in the store. The hash map from
  streams to channels is an association list; the code iterates over it in an order that the language leaves open, the model in the
  order of the list. The calls that an operation of a channel makes into the transport, its events \<open>EvSend\<close> and
  \<open>EvCloseStream\<close>, are carried out by \<open>channel_calls\<close>. An operation that raises returns \<open>Inl\<close> with the
  state it leaves behind; a call that blocks is \<open>None\<close>. A channel raises before it calls the transport or by a call
  that is the last thing it does, except for the acknowledgement of an incoming channel: when that call raises, the channel is
  destroyed.
\<close>

section \<open>State\<close>


datatype pc_event = PcDataChannel nat

record PeerConnection =
  pc_iceRole :: "Role option"
  pc_sctp :: "SctpTransport option"
  pc_remoteMaxMessageSize :: nat
  pc_objects :: "nat \<rightharpoonup> DataChannel"
  pc_nextObject :: nat
  pc_dataChannels :: "(u16 \<times> nat) list"
  pc_unassigned :: "nat list"
  pc_pending :: "nat Queue"
  pc_callback :: bool
  pc_events :: "pc_event list"

record DataChannelInit =
  init_reliability :: Reliability
  init_negotiated :: bool
  init_id :: "u16 option"
  init_protocol :: string

fun channel_calls :: "usrsctp \<Rightarrow> event list \<Rightarrow> SctpTransport \<Rightarrow> unit result \<times> SctpTransport" where
  "channel_calls us [] t = (Inr (), t)"
| "channel_calls us (EvSend m # es) t =
     (case SctpTransport_send us (Some m) t of (Inl e, t) \<Rightarrow> (Inl e, t) | (Inr _, t) \<Rightarrow> channel_calls us es t)"
| "channel_calls us (EvCloseStream s # es) t =
     (case closeStream_sctp (ucast s) t of (Inl e, t) \<Rightarrow> (Inl e, t) | (Inr _, t) \<Rightarrow> channel_calls us es t)"
| "channel_calls us (e # es) t = channel_calls us es t"

text \<open>The effect of an operation that turned channel \<open>n\<close> from \<open>dc\<close> into \<open>dc'\<close>.\<close>

definition update_channel :: "usrsctp \<Rightarrow> nat \<Rightarrow> DataChannel \<Rightarrow> DataChannel \<Rightarrow> PeerConnection \<Rightarrow> unit result \<times> PeerConnection" where
  "update_channel us n dc dc' pc =
     (let pc' = pc\<lparr>pc_objects := (pc_objects pc)(n \<mapsto> dc')\<rparr>
      in case pc_sctp pc of
           None \<Rightarrow> (Inr (), pc')
         | Some t \<Rightarrow> (case channel_calls us (drop (length (dc_events dc)) (dc_events dc')) t of
                         (r, t) \<Rightarrow> (r, pc'\<lparr>pc_sctp := Some t\<rparr>)))"

definition run_channel ::
  "usrsctp \<Rightarrow> nat \<Rightarrow> (DataChannel \<Rightarrow> unit result \<times> DataChannel) \<Rightarrow> PeerConnection \<Rightarrow> unit result \<times> PeerConnection" where
  "run_channel us n f pc =
     (case pc_objects pc n of
        None \<Rightarrow> (Inr (), pc)
      | Some dc \<Rightarrow>
          (case f dc of
             (Inl e, dc') \<Rightarrow> (Inl e, pc\<lparr>pc_objects := (pc_objects pc)(n \<mapsto> dc')\<rparr>)
           | (Inr _, dc') \<Rightarrow> update_channel us n dc dc' pc))"

section \<open>The registry\<close>

text \<open>\<open>findDataChannel\<close>: the channel if it is alive, and whether the stream is registered.\<close>

definition findDataChannel :: "u16 \<Rightarrow> PeerConnection \<Rightarrow> nat option \<times> bool" where
  "findDataChannel stream pc =
     (case map_of (pc_dataChannels pc) stream of
        Some n \<Rightarrow> (if pc_objects pc n \<noteq> None then Some n else None, True)
      | None \<Rightarrow> (None, False))"

definition removeDataChannel :: "u16 \<Rightarrow> PeerConnection \<Rightarrow> bool \<times> PeerConnection" where
  "removeDataChannel stream pc =
     (map_of (pc_dataChannels pc) stream \<noteq> None,
      pc\<lparr>pc_dataChannels := filter (\<lambda>(s, n). s \<noteq> stream) (pc_dataChannels pc)\<rparr>)"

text \<open>\<open>unordered_map::emplace\<close> keeps the entry of a key that is there already.\<close>

definition emplace_channel :: "u16 \<Rightarrow> nat \<Rightarrow> (u16 \<times> nat) list \<Rightarrow> (u16 \<times> nat) list" where
  "emplace_channel stream n m = (if map_of m stream = None then m @ [(stream, n)] else m)"

definition maxDataChannelStream :: "PeerConnection \<Rightarrow> u16" where
  "maxDataChannelStream pc =
     (case pc_sctp pc of Some t \<Rightarrow> ucast (maxStream_sctp t) | None \<Rightarrow> MAX_SCTP_STREAMS_COUNT - 1)"

text \<open>The search for a free stream; \<open>stream += 2\<close> wraps around.\<close>

partial_function (option) free_stream :: "u16 \<Rightarrow> (u16 \<times> nat) list \<Rightarrow> u16 \<Rightarrow> u16 result option" where
  "free_stream maxStream m stream =
     (if stream > maxStream then Some (Inl (RuntimeError ''Too many DataChannels''))
      else if map_of m stream = None then Some (Inr stream)
      else free_stream maxStream m (stream + 2))"

definition local_parity :: "Role \<Rightarrow> u16" where
  "local_parity role = (if role = Active then 0 else 1)"

fun assign_loop :: "u16 \<Rightarrow> u16 \<Rightarrow> nat list \<Rightarrow> PeerConnection \<Rightarrow> (unit result \<times> PeerConnection) option" where
  "assign_loop maxStream parity [] pc = Some (Inr (), pc)"
| "assign_loop maxStream parity (n # ns) pc =
     (case pc_objects pc n of
        None \<Rightarrow> assign_loop maxStream parity ns pc
      | Some dc \<Rightarrow>
          (case free_stream maxStream (pc_dataChannels pc) parity of
             None \<Rightarrow> None
           | Some (Inl e) \<Rightarrow> Some (Inl e, pc)
           | Some (Inr stream) \<Rightarrow>
               (case assignStream stream dc of
                  (Inl e, _) \<Rightarrow> Some (Inl e, pc)
                | (Inr _, dc) \<Rightarrow>
                    assign_loop maxStream parity ns
                      (pc\<lparr>pc_objects := (pc_objects pc)(n \<mapsto> dc),
                          pc_dataChannels := emplace_channel stream n (pc_dataChannels pc)\<rparr>))))"

definition assignDataChannels :: "PeerConnection \<Rightarrow> (unit result \<times> PeerConnection) option" where
  "assignDataChannels pc =
     (case pc_iceRole pc of
        None \<Rightarrow> Some (Inl (LogicError ''Attempted to assign DataChannels without ICE transport''), pc)
      | Some role \<Rightarrow>
          (case assign_loop (maxDataChannelStream pc) (local_parity role) (pc_unassigned pc) pc of
             Some (Inr _, pc) \<Rightarrow> Some (Inr (), pc\<lparr>pc_unassigned := []\<rparr>)
           | r \<Rightarrow> r))"

definition new_channel :: "DataChannel \<Rightarrow> PeerConnection \<Rightarrow> nat \<times> PeerConnection" where
  "new_channel dc pc =
     (pc_nextObject pc, pc\<lparr>pc_objects := (pc_objects pc)(pc_nextObject pc \<mapsto> dc), pc_nextObject := pc_nextObject pc + 1\<rparr>)"

definition sctp_connected :: "PeerConnection \<Rightarrow> bool" where
  "sctp_connected pc \<longleftrightarrow> (case pc_sctp pc of Some t \<Rightarrow> fst (st_state t) = Connected | None \<Rightarrow> False)"

text \<open>The part of \<open>emplaceDataChannel\<close> before SCTP is asked: the channel is created and registered, or put aside.\<close>

definition create_channel :: "string \<Rightarrow> DataChannelInit \<Rightarrow> PeerConnection \<Rightarrow> (nat \<times> PeerConnection) result" where
  "create_channel label init pc =
     bind_result (DataChannel_init (if init_negotiated init then Negotiated else Outgoing) (Some (pc_remoteMaxMessageSize pc)) label
       (init_protocol init) (init_reliability init)) (\<lambda>dc.
     case init_id init of
       Some stream \<Rightarrow>
         if stream > maxDataChannelStream pc then Inl (InvalidArgument ''DataChannel stream id is too high'')
         else (case assignStream stream dc of
                 (Inl e, _) \<Rightarrow> Inl e
               | (Inr _, dc) \<Rightarrow>
                   (case new_channel dc pc of (n, pc) \<Rightarrow>
                      Inr (n, pc\<lparr>pc_dataChannels := emplace_channel stream n (pc_dataChannels pc)\<rparr>)))
     | None \<Rightarrow>
         (case new_channel dc pc of (n, pc) \<Rightarrow> Inr (n, pc\<lparr>pc_unassigned := pc_unassigned pc @ [n]\<rparr>)))"

definition emplaceDataChannel ::
  "usrsctp \<Rightarrow> string \<Rightarrow> DataChannelInit \<Rightarrow> PeerConnection \<Rightarrow> (nat result \<times> PeerConnection) option" where
  "emplaceDataChannel us label init pc =
     (case create_channel label init pc of
        Inl e \<Rightarrow> Some (Inl e, pc)
      | Inr (n, pc) \<Rightarrow>
          if sctp_connected pc then
            (case assignDataChannels pc of
               None \<Rightarrow> None
             | Some (Inl e, pc) \<Rightarrow> Some (Inl e, pc)
             | Some (Inr _, pc) \<Rightarrow> Some (apfst (map_sum id (\<lambda>_. n)) (run_channel us n channel_open pc)))
          else Some (Inr n, pc))"

text \<open>The last pointer to a channel goes away: the destructor closes it.\<close>

definition destroyDataChannel :: "usrsctp \<Rightarrow> nat \<Rightarrow> PeerConnection \<Rightarrow> PeerConnection" where
  "destroyDataChannel us n pc =
     (let pc = snd (run_channel us n (\<lambda>dc. (Inr (), DataChannel_close dc)) pc)
      in pc\<lparr>pc_objects := (pc_objects pc)(n := None)\<rparr>)"

text \<open>\<open>iterateDataChannels\<close>: over the channels that are alive and not closed when it starts; an exception of the function
  is caught.\<close>

definition open_objects :: "PeerConnection \<Rightarrow> nat list" where
  "open_objects pc =
     filter (\<lambda>n. case pc_objects pc n of Some dc \<Rightarrow> \<not> dc_isClosed dc | None \<Rightarrow> False) (map snd (pc_dataChannels pc))"

definition iterateDataChannels ::
  "usrsctp \<Rightarrow> (DataChannel \<Rightarrow> unit result \<times> DataChannel) \<Rightarrow> PeerConnection \<Rightarrow> PeerConnection" where
  "iterateDataChannels us f pc =
     fold (\<lambda>n pc. snd (run_channel us n f pc)) (open_objects pc) pc"

definition openDataChannels :: "usrsctp \<Rightarrow> PeerConnection \<Rightarrow> PeerConnection" where
  "openDataChannels us pc =
     (if pc_sctp pc = None then pc
      else iterateDataChannels us (\<lambda>dc. if \<not> DataChannel_isOpen dc then channel_open dc else (Inr (), dc)) pc)"

definition closeDataChannels :: "usrsctp \<Rightarrow> PeerConnection \<Rightarrow> PeerConnection" where
  "closeDataChannels us pc = iterateDataChannels us (\<lambda>dc. (Inr (), DataChannel_close dc)) pc"

definition remoteCloseDataChannels :: "usrsctp \<Rightarrow> PeerConnection \<Rightarrow> PeerConnection" where
  "remoteCloseDataChannels us pc = iterateDataChannels us (\<lambda>dc. (Inr (), remoteClose dc)) pc"

section \<open>Announcing incoming channels\<close>

definition announce :: "nat \<Rightarrow> PeerConnection \<Rightarrow> PeerConnection" where
  "announce n pc =
     (let pc = pc\<lparr>pc_events := pc_events pc @ [PcDataChannel n]\<rparr>
      in pc\<lparr>pc_objects := (pc_objects pc)(n := map_option triggerOpen (pc_objects pc n))\<rparr>)"

function triggerPendingDataChannels :: "PeerConnection \<Rightarrow> PeerConnection" where
  "triggerPendingDataChannels pc =
     (if pc_callback pc then
        case Queue_pop (pc_pending pc) of
          (None, q) \<Rightarrow> pc
        | (Some n, q) \<Rightarrow> triggerPendingDataChannels (announce n (pc\<lparr>pc_pending := q\<rparr>))
      else pc)"
  by pat_completeness auto
termination
  by (relation "measure (\<lambda>pc. length (mQueue (pc_pending pc)))")
    (auto simp: Queue_pop_def announce_def Let_def split: list.splits)

declare triggerPendingDataChannels.simps [simp del]

definition triggerDataChannel :: "nat \<Rightarrow> PeerConnection \<Rightarrow> PeerConnection" where
  "triggerDataChannel n pc =
     triggerPendingDataChannels
       (case pc_objects pc n of
          None \<Rightarrow> pc
        | Some dc \<Rightarrow>
            (case Queue_push n (pc_pending pc) of
               None \<Rightarrow> pc
             | Some q \<Rightarrow> pc\<lparr>pc_objects := (pc_objects pc)(n \<mapsto> resetOpenCallback dc), pc_pending := q\<rparr>))"

definition onDataChannel :: "bool \<Rightarrow> PeerConnection \<Rightarrow> PeerConnection" where
  "onDataChannel callback pc = triggerPendingDataChannels (pc\<lparr>pc_callback := callback\<rparr>)"

section \<open>Routing\<close>

definition remote_parity :: "Role \<Rightarrow> u16" where
  "remote_parity role = (if role = Active then 1 else 0)"

definition close_stream :: "u32 \<Rightarrow> PeerConnection \<Rightarrow> unit result \<times> PeerConnection" where
  "close_stream stream pc =
     (case pc_sctp pc of
        None \<Rightarrow> (Inr (), pc)
      | Some t \<Rightarrow> (case closeStream_sctp stream t of (r, t) \<Rightarrow> (r, pc\<lparr>pc_sctp := Some t\<rparr>)))"

text \<open>\<open>channel->incoming(message)\<close>. The open callback of an incoming channel is \<open>triggerDataChannel\<close> until the user has
  the channel; \<open>openOnce\<close> calls it once.\<close>

definition deliver :: "usrsctp \<Rightarrow> Message \<Rightarrow> nat \<Rightarrow> PeerConnection \<Rightarrow> (unit result \<times> PeerConnection) option" where
  "deliver us message n pc =
     (case pc_objects pc n of
        None \<Rightarrow> Some (Inr (), pc)
      | Some dc \<Rightarrow>
          (case DataChannel_incoming (Some message) dc of
             None \<Rightarrow> None
           | Some (Inl e, dc') \<Rightarrow> Some (Inl e, pc\<lparr>pc_objects := (pc_objects pc)(n \<mapsto> dc')\<rparr>)
           | Some (Inr _, dc') \<Rightarrow>
               (case update_channel us n dc dc' pc of
                  (Inl e, pc) \<Rightarrow> Some (Inl e, pc)
                | (Inr _, pc) \<Rightarrow>
                    Some (Inr (), if dc_kind dc = Incoming \<and> \<not> dc_isOpen dc \<and> dc_isOpen dc' then triggerDataChannel n pc else pc))))"

definition incoming_channel :: "u16 \<Rightarrow> PeerConnection \<Rightarrow> (nat \<times> PeerConnection) result" where
  "incoming_channel stream pc =
     bind_result (DataChannel_init Incoming (Some (pc_remoteMaxMessageSize pc)) '''' '''' Reliability_default) (\<lambda>dc.
     bind_result (case assignStream stream (dc\<lparr>dc_transport := True\<rparr>) of (Inl e, _) \<Rightarrow> Inl e | (Inr _, dc) \<Rightarrow> Inr dc) (\<lambda>dc.
       case new_channel dc pc of (n, pc) \<Rightarrow>
         Inr (n, pc\<lparr>pc_dataChannels := emplace_channel stream n (pc_dataChannels pc)\<rparr>)))"

text \<open>An open message that raises leaves the new channel without a pointer.\<close>

definition open_incoming :: "usrsctp \<Rightarrow> Message \<Rightarrow> u16 \<Rightarrow> PeerConnection \<Rightarrow> (unit result \<times> PeerConnection) option" where
  "open_incoming us message stream pc =
     (case incoming_channel stream pc of
        Inl e \<Rightarrow> Some (Inl e, pc)
      | Inr (n, pc) \<Rightarrow>
          (case deliver us message n pc of
             Some (Inl e, pc) \<Rightarrow> Some (Inl e, destroyDataChannel us n pc)
           | r \<Rightarrow> r))"

definition forwardMessage :: "usrsctp \<Rightarrow> Message option \<Rightarrow> PeerConnection \<Rightarrow> (unit result \<times> PeerConnection) option" where
  "forwardMessage us message pc =
     (case message of
        None \<Rightarrow> Some (Inr (), remoteCloseDataChannels us pc)
      | Some message \<Rightarrow>
          if pc_iceRole pc = None \<or> pc_sctp pc = None then Some (Inr (), pc)
          else
            let stream = ucast (msg_stream message) :: u16; (channel, found) = findDataChannel stream pc
            in if IsOpenMessage message then
                 if found then
                   (case channel of
                      Some n \<Rightarrow>
                        if \<not> dc_isClosed (the (pc_objects pc n)) then Some (run_channel us n (\<lambda>dc. (Inr (), DataChannel_close dc)) pc)
                        else Some (close_stream (msg_stream message) pc)
                    | None \<Rightarrow> Some (close_stream (msg_stream message) pc))
                 else if stream mod 2 \<noteq> remote_parity (the (pc_iceRole pc)) then Some (close_stream (msg_stream message) pc)
                 else open_incoming us message stream pc
               else if \<not> found then
                 if msg_type message = Reset then Some (Inr (), pc) else Some (close_stream (msg_stream message) pc)
               else let pc = (if msg_type message = Reset then snd (removeDataChannel stream pc) else pc)
                    in (case channel of Some n \<Rightarrow> deliver us message n pc | None \<Rightarrow> Some (Inr (), pc)))"

definition forwardBufferedAmount :: "u16 \<Rightarrow> nat \<Rightarrow> PeerConnection \<Rightarrow> PeerConnection" where
  "forwardBufferedAmount stream amt pc =
     (case fst (findDataChannel stream pc) of
        None \<Rightarrow> pc
      | Some n \<Rightarrow> pc\<lparr>pc_objects := (pc_objects pc)(n := map_option (triggerBufferedAmount amt) (pc_objects pc n))\<rparr>)"

text \<open>What the state callback of the SCTP transport does when it is connected.\<close>

definition on_sctp_connected :: "usrsctp \<Rightarrow> PeerConnection \<Rightarrow> (unit result \<times> PeerConnection) option" where
  "on_sctp_connected us pc =
     (case assignDataChannels pc of
        Some (Inr _, pc) \<Rightarrow> Some (Inr (), openDataChannels us pc)
      | r \<Rightarrow> r)"

section \<open>Operations of a channel keep its stream\<close>

lemma flush_loop_frame: "\<exists>q vs. flush_loop dc = dc\<lparr>dc_recvQueue := q, dc_events := dc_events dc @ map EvMessage vs\<rparr>"
proof (induction dc rule: flush_loop.induct)
  case (1 dc)
  show ?case
  proof (cases "ch_messageCallback dc \<and> mQueue (dc_recvQueue dc) \<noteq> []")
    case True
    then obtain m q where q: "Queue_pop (dc_recvQueue dc) = (Some m, q)"
      by (cases "mQueue (dc_recvQueue dc)") (simp_all add: Queue_pop_def)
    then have r: "(Some (to_variant m), dc\<lparr>dc_recvQueue := q\<rparr>) = DataChannel_receive dc"
      by (simp add: DataChannel_receive_def)
    obtain q' vs where "flush_loop (emit (EvMessage (to_variant m)) (dc\<lparr>dc_recvQueue := q\<rparr>)) =
        dc\<lparr>dc_recvQueue := q', dc_events := (dc_events dc @ [EvMessage (to_variant m)]) @ map EvMessage vs\<rparr>"
      using 1 [OF conjunct1 [OF True] r refl] by (auto simp: emit_def)
    moreover have "flush_loop dc = flush_loop (emit (EvMessage (to_variant m)) (dc\<lparr>dc_recvQueue := q\<rparr>))"
      using True by (subst flush_loop.simps) (simp add: r [symmetric])
    ultimately show ?thesis by (intro exI [of _ q'] exI [of _ "to_variant m # vs"]) simp
  next
    case False
    then have "flush_loop dc = dc"
      by (subst flush_loop.simps) (auto simp: DataChannel_receive_def Queue_pop_def split: list.split)
    then show ?thesis by (intro exI [of _ "dc_recvQueue dc"] exI [of _ "[]"]) simp
  qed
qed

lemma flush_loop_fields [simp]:
  "dc_stream (flush_loop dc) = dc_stream dc" "dc_kind (flush_loop dc) = dc_kind dc" "dc_isOpen (flush_loop dc) = dc_isOpen dc"
  "dc_isClosed (flush_loop dc) = dc_isClosed dc" "dc_label (flush_loop dc) = dc_label dc" "dc_protocol (flush_loop dc) = dc_protocol dc"
  "dc_reliability (flush_loop dc) = dc_reliability dc" "dc_transport (flush_loop dc) = dc_transport dc"
  using flush_loop_frame [of dc] by auto

lemma trigger_stream [simp]:
  "dc_stream (triggerOpen dc) = dc_stream dc" "dc_stream (openOnce dc) = dc_stream dc" "dc_stream (DataChannel_close dc) = dc_stream dc"
  "dc_stream (remoteClose dc) = dc_stream dc" "dc_stream (resetOpenCallback dc) = dc_stream dc" "dc_stream (triggerBufferedAmount a dc) = dc_stream dc"
  "dc_stream (triggerAvailable c dc) = dc_stream dc"
  by (simp_all add: triggerOpen_def flushPendingMessages_def emit_def openOnce_def DataChannel_close_def remoteClose_def resetCallbacks_def
      triggerClosed_def resetOpenCallback_def triggerBufferedAmount_def triggerAvailable_def Let_def split: option.split)

lemma channel_open_stream [simp]: "dc_stream (snd (channel_open dc)) = dc_stream dc"
  by (simp add: channel_open_def DataChannel_open_def OutgoingDataChannel_open_def IncomingDataChannel_open_def emit_def Let_def
      split: ChannelKind.split option.split sum.split)

lemma incoming_stream: "DataChannel_incoming m dc = Some (r, dc') \<Longrightarrow> dc_stream dc' = dc_stream dc"
  by (auto simp: DataChannel_incoming_def processOpenMessage_def IncomingDataChannel_processOpenMessage_def emit_def Let_def
      split: option.splits if_splits MessageType.splits ChannelKind.splits)

section \<open>Operations that leave the registry alone\<close>

definition streams :: "PeerConnection \<Rightarrow> nat \<Rightarrow> u16 option option" where
  "streams pc n = map_option dc_stream (pc_objects pc n)"

definition same_registry :: "PeerConnection \<Rightarrow> PeerConnection \<Rightarrow> bool" where
  "same_registry pc pc' \<longleftrightarrow> pc_dataChannels pc' = pc_dataChannels pc \<and> pc_unassigned pc' = pc_unassigned pc \<and>
     pc_nextObject pc' = pc_nextObject pc \<and> streams pc' = streams pc"

lemma streams_frame [simp]:
  "streams (pc\<lparr>pc_sctp := t\<rparr>) = streams pc" "streams (pc\<lparr>pc_unassigned := u\<rparr>) = streams pc"
  "streams (pc\<lparr>pc_dataChannels := r\<rparr>) = streams pc" "streams (pc\<lparr>pc_nextObject := k\<rparr>) = streams pc"
  "streams (pc\<lparr>pc_objects := (pc_objects pc)(n \<mapsto> dc)\<rparr>) = (streams pc)(n \<mapsto> dc_stream dc)"
  by (simp_all add: streams_def fun_eq_iff)

lemma same_registry_refl [simp]: "same_registry pc pc"
  by (simp add: same_registry_def)

lemma same_registry_trans [trans]: "same_registry a b \<Longrightarrow> same_registry b c \<Longrightarrow> same_registry a c"
  by (simp add: same_registry_def)

lemma same_registry_transport [simp]:
  "same_registry pc (pc\<lparr>pc_sctp := t\<rparr>)" "same_registry pc (pc\<lparr>pc_iceRole := r, pc_sctp := t, pc_remoteMaxMessageSize := k\<rparr>)"
  "same_registry pc (pc\<lparr>pc_callback := b\<rparr>)"
  by (simp_all add: same_registry_def streams_def fun_eq_iff)

lemma streams_update:
  "pc_objects pc n = Some dc \<Longrightarrow> dc_stream dc' = dc_stream dc \<Longrightarrow> streams (pc\<lparr>pc_objects := (pc_objects pc)(n \<mapsto> dc')\<rparr>) = streams pc"
  by (auto simp: streams_def)

lemma update_channel_registry:
  assumes "pc_objects pc n = Some dc" and "dc_stream dc' = dc_stream dc"
  shows "same_registry pc (snd (update_channel us n dc dc' pc))"
  using streams_update [OF assms]
  by (simp add: update_channel_def same_registry_def Let_def split: option.split prod.split)

lemma run_channel_registry:
  assumes "\<And>dc. dc_stream (snd (f dc)) = dc_stream dc"
  shows "same_registry pc (snd (run_channel us n f pc))"
proof (cases "pc_objects pc n")
  case (Some dc)
  have "dc_stream (snd (f dc)) = dc_stream dc" by (rule assms)
  then show ?thesis
    using Some update_channel_registry [OF Some] streams_update [OF Some]
    by (cases "f dc") (auto simp: run_channel_def same_registry_def split: sum.split)
qed (simp add: run_channel_def)

lemma iterate_registry:
  assumes "\<And>dc. dc_stream (snd (f dc)) = dc_stream dc"
  shows "same_registry pc (iterateDataChannels us f pc)"
proof -
  have "same_registry pc (fold (\<lambda>n pc. snd (run_channel us n f pc)) ns pc)" for ns
  proof (induction ns arbitrary: pc)
    case (Cons n ns)
    show ?case using same_registry_trans [OF run_channel_registry [OF assms] Cons.IH] by simp
  qed simp
  then show ?thesis by (simp add: iterateDataChannels_def)
qed

lemma announce_registry: "same_registry pc (announce n (pc\<lparr>pc_pending := q\<rparr>))"
  by (auto simp: announce_def same_registry_def streams_def Let_def fun_eq_iff option.map_comp comp_def)

lemma pending_registry: "same_registry pc (triggerPendingDataChannels pc)"
proof (induction pc rule: triggerPendingDataChannels.induct)
  case (1 pc)
  show ?case
  proof (cases "pc_callback pc \<and> mQueue (pc_pending pc) \<noteq> []")
    case True
    then obtain n q where q: "pc_callback pc" "Queue_pop (pc_pending pc) = (Some n, q)"
      by (cases "mQueue (pc_pending pc)") (auto simp: Queue_pop_def)
    have "same_registry pc (announce n (pc\<lparr>pc_pending := q\<rparr>))" by (rule announce_registry)
    also note 1 [OF q(1) q(2) [symmetric] refl]
    finally show ?thesis using q by (subst triggerPendingDataChannels.simps) simp
  next
    case False
    then have "triggerPendingDataChannels pc = pc"
      by (subst triggerPendingDataChannels.simps) (auto simp: Queue_pop_def split: list.splits)
    then show ?thesis by simp
  qed
qed

lemma trigger_registry: "same_registry pc (triggerDataChannel n pc)"
proof -
  let ?pc = "case pc_objects pc n of None \<Rightarrow> pc | Some dc \<Rightarrow> (case Queue_push n (pc_pending pc) of None \<Rightarrow> pc
    | Some q \<Rightarrow> pc\<lparr>pc_objects := (pc_objects pc)(n \<mapsto> resetOpenCallback dc), pc_pending := q\<rparr>)"
  have "same_registry pc ?pc" by (auto simp: same_registry_def streams_def split: option.split)
  also note pending_registry [of ?pc]
  finally show ?thesis by (simp add: triggerDataChannel_def)
qed

lemma deliver_registry:
  assumes "deliver us m n pc = Some (r, pc')"
  shows "same_registry pc pc'"
proof (cases "pc_objects pc n")
  case (Some dc)
  with assms obtain r' dc' where dc': "DataChannel_incoming (Some m) dc = Some (r', dc')"
    by (auto simp: deliver_def split: option.splits)
  then have s: "dc_stream dc' = dc_stream dc" by (rule incoming_stream)
  have u: "same_registry pc (snd (update_channel us n dc dc' pc))" by (rule update_channel_registry [OF Some s])
  show ?thesis
    using assms Some dc' u streams_update [OF Some s] trigger_registry [of "snd (update_channel us n dc dc' pc)" n]
    by (cases "update_channel us n dc dc' pc")
      (auto simp: deliver_def same_registry_def split: sum.splits if_splits)
qed (use assms in \<open>simp add: deliver_def\<close>)

lemma close_stream_registry: "same_registry pc (snd (close_stream s pc))"
  by (simp add: close_stream_def split: option.split prod.split)

section \<open>The registry invariant\<close>

definition pc_inv :: "PeerConnection \<Rightarrow> bool" where
  "pc_inv pc \<longleftrightarrow> distinct (map fst (pc_dataChannels pc)) \<and> distinct (map snd (pc_dataChannels pc)) \<and>
     (\<forall>(s, n) \<in> set (pc_dataChannels pc). n < pc_nextObject pc \<and> (streams pc n = None \<or> streams pc n = Some (Some s))) \<and>
     (\<forall>n. pc_objects pc n \<noteq> None \<longrightarrow> n < pc_nextObject pc)"

lemma streams_None: "streams pc n = None \<longleftrightarrow> pc_objects pc n = None"
  by (simp add: streams_def)

lemma same_registry_inv: "same_registry pc pc' \<Longrightarrow> pc_inv pc \<Longrightarrow> pc_inv pc'"
  unfolding pc_inv_def by (simp flip: streams_None add: same_registry_def)

lemma pc_inv_init: "pc_inv pc" if "pc_dataChannels pc = []" and "pc_objects pc = Map.empty"
  using that by (simp add: pc_inv_def)

text \<open>A channel without a stream gets one: it was not registered before.\<close>

lemma emplace_inv:
  assumes "pc_inv pc" and "n < k" and "pc_nextObject pc \<le> k" and "n \<notin> snd ` set (pc_dataChannels pc)" and "dc_stream dc = Some s"
  shows "pc_inv (pc\<lparr>pc_objects := (pc_objects pc)(n \<mapsto> dc), pc_nextObject := k,
    pc_dataChannels := emplace_channel s n (pc_dataChannels pc)\<rparr>)"
proof -
  let ?reg = "emplace_channel s n (pc_dataChannels pc)"
  let ?pc = "pc\<lparr>pc_objects := (pc_objects pc)(n \<mapsto> dc), pc_nextObject := k, pc_dataChannels := ?reg\<rparr>"
  have st: "streams ?pc = (streams pc)(n \<mapsto> Some s)"
    using assms(5) by (simp add: streams_def fun_eq_iff)
  have "distinct (map fst ?reg)" "distinct (map snd ?reg)"
    using assms(1,4) by (auto simp: pc_inv_def emplace_channel_def map_of_eq_None_iff)
  moreover have "\<forall>(s', m) \<in> set ?reg. m < k \<and> (streams ?pc m = None \<or> streams ?pc m = Some (Some s'))"
  proof (intro ballI)
    fix e assume e: "e \<in> set ?reg"
    consider "e \<in> set (pc_dataChannels pc)" | "e = (s, n)" using e by (auto simp: emplace_channel_def split: if_splits)
    then show "case e of (s', m) \<Rightarrow> m < k \<and> (streams ?pc m = None \<or> streams ?pc m = Some (Some s'))"
    proof cases
      case 1
      then have "snd e \<noteq> n" using assms(4) by auto
      moreover have "snd e < pc_nextObject pc" "streams pc (snd e) = None \<or> streams pc (snd e) = Some (Some (fst e))"
        using 1 assms(1) by (auto simp: pc_inv_def)
      ultimately show ?thesis unfolding st using assms(3) by (auto split: prod.split)
    qed (simp add: st assms(2,5))
  qed
  moreover have "m < k" if "pc_objects ?pc m \<noteq> None" for m
    using that assms(1,2,3) by (auto simp: pc_inv_def split: if_splits dest: order.strict_trans2)
  ultimately show ?thesis by (simp add: pc_inv_def)
qed

lemma unregistered:
  assumes "pc_inv pc" and "pc_objects pc n = Some dc" and "dc_stream dc = None"
  shows "n \<notin> snd ` set (pc_dataChannels pc)" and "n < pc_nextObject pc"
  using assms by (fastforce simp: pc_inv_def streams_def)+

lemma assignStream_Inr: "assignStream s dc = (Inr u, dc') \<longleftrightarrow> dc_stream dc = None \<and> dc' = dc\<lparr>dc_stream := Some s\<rparr>"
  by (auto simp: assignStream_def)

lemma assign_loop_inv: "assign_loop maxStream parity ns pc = Some (r, pc') \<Longrightarrow> pc_inv pc \<Longrightarrow> pc_inv pc'"
proof (induction ns arbitrary: pc)
  case (Cons n ns)
  show ?case
  proof (cases "\<exists>dc s. pc_objects pc n = Some dc \<and> free_stream maxStream (pc_dataChannels pc) parity = Some (Inr s) \<and> dc_stream dc = None")
    case True
    then obtain dc s where dc: "pc_objects pc n = Some dc" "free_stream maxStream (pc_dataChannels pc) parity = Some (Inr s)" "dc_stream dc = None"
      by blast
    let ?pc = "pc\<lparr>pc_objects := (pc_objects pc)(n \<mapsto> dc\<lparr>dc_stream := Some s\<rparr>), pc_dataChannels := emplace_channel s n (pc_dataChannels pc)\<rparr>"
    have "pc_inv ?pc"
      using emplace_inv [OF Cons.prems(2) unregistered(2) [OF Cons.prems(2) dc(1,3)] order_refl unregistered(1) [OF Cons.prems(2) dc(1,3)], of "dc\<lparr>dc_stream := Some s\<rparr>" s]
      by simp
    then show ?thesis using Cons.prems(1) dc by (intro Cons.IH) (auto simp: assignStream_def)
  next
    case False
    with Cons show ?thesis by (auto simp: assignStream_def split: option.splits sum.splits)
  qed
qed auto

lemma assign_inv: "assignDataChannels pc = Some (r, pc') \<Longrightarrow> pc_inv pc \<Longrightarrow> pc_inv pc'"
proof -
  assume a: "assignDataChannels pc = Some (r, pc')" and inv: "pc_inv pc"
  have *: "pc_inv (x\<lparr>pc_unassigned := y\<rparr>) = pc_inv x" for x y
    by (simp add: pc_inv_def streams_def)
  show "pc_inv pc'"
    using a inv by (auto simp: assignDataChannels_def * split: option.splits sum.splits prod.splits dest: assign_loop_inv)
qed

lemma create_inv: "create_channel label init pc = Inr (n, pc') \<Longrightarrow> pc_inv pc \<Longrightarrow> pc_inv pc'"
proof -
  assume c: "create_channel label init pc = Inr (n, pc')" and inv: "pc_inv pc"
  then obtain dc where dc: "DataChannel_init (if init_negotiated init then Negotiated else Outgoing) (Some (pc_remoteMaxMessageSize pc)) label
       (init_protocol init) (init_reliability init) = Inr dc" "dc_stream dc = None"
    by (auto simp: create_channel_def bind_result_Inr_iff) (auto simp: DataChannel_init_def split: if_splits)
  have fresh: "pc_nextObject pc \<notin> snd ` set (pc_dataChannels pc)" "streams pc (pc_nextObject pc) = None"
    using inv by (fastforce simp: pc_inv_def streams_None)+
  show "pc_inv pc'"
  proof (cases "init_id init")
    case (Some s)
    then show ?thesis
      using c dc emplace_inv [OF inv, of "pc_nextObject pc" "pc_nextObject pc + 1" "dc\<lparr>dc_stream := Some s\<rparr>" s] fresh(1)
      by (auto simp: create_channel_def new_channel_def assignStream_def split: if_splits)
  next
    case None
    then show ?thesis
      using c dc inv fresh by (fastforce simp: create_channel_def new_channel_def pc_inv_def streams_def)
  qed
qed

lemma destroy_inv: "pc_inv pc \<Longrightarrow> pc_inv (destroyDataChannel us n pc)"
proof -
  assume "pc_inv pc"
  then have "pc_inv (snd (run_channel us n (\<lambda>dc. (Inr (), DataChannel_close dc)) pc))"
    by (rule same_registry_inv [OF run_channel_registry, rotated]) simp
  moreover have "pc_inv (pc\<lparr>pc_objects := (pc_objects pc)(n := None)\<rparr>)" if "pc_inv pc" for pc
    using that by (auto simp: pc_inv_def streams_def)
  ultimately show ?thesis by (simp add: destroyDataChannel_def Let_def)
qed

lemma open_incoming_inv:
  assumes "open_incoming us m s pc = Some (r, pc')" and inv: "pc_inv pc"
  shows "pc_inv pc'"
proof (cases "incoming_channel s pc")
  case (Inr np)
  obtain n q where q: "np = (n, q)" by fastforce
  have fresh: "pc_nextObject pc \<notin> snd ` set (pc_dataChannels pc)"
    using inv by (fastforce simp: pc_inv_def)
  have "pc_inv q"
    using Inr emplace_inv [OF inv, of "pc_nextObject pc" "pc_nextObject pc + 1" _ s] fresh
    by (auto simp: q incoming_channel_def bind_result_Inr_iff new_channel_def assignStream_def split: if_splits)
  then show ?thesis
    using assms(1) Inr same_registry_inv [OF deliver_registry [of us m n q]]
    by (auto simp: open_incoming_def q intro: destroy_inv split: option.splits sum.splits)
qed (use assms in \<open>auto simp: open_incoming_def\<close>)

text \<open>The ways in which \<open>forwardMessage\<close> can end.\<close>

lemma forwardMessage_cases:
  assumes "forwardMessage us m pc = Some (r, pc')"
  obtains (same) "pc' = pc" | (remote_close) "pc' = remoteCloseDataChannels us pc" | (reset) s where "pc' = snd (close_stream s pc)"
  | (close) n where "pc' = snd (run_channel us n (\<lambda>dc. (Inr (), DataChannel_close dc)) pc)"
  | (open_channel) msg s where "open_incoming us msg s pc = Some (r, pc')"
  | (deliver) msg n where "deliver us msg n pc = Some (r, pc')"
  | (unregister) s where "pc' = snd (removeDataChannel s pc)"
  | (unregister_deliver) msg n s where "deliver us msg n (snd (removeDataChannel s pc)) = Some (r, pc')"
proof (cases "m = None \<or> pc_iceRole pc = None \<or> pc_sctp pc = None")
  case True
  then show ?thesis using assms that(1,2) by (auto simp: forwardMessage_def split: option.splits)
next
  case False
  then obtain msg role t where m: "m = Some msg" and pc: "pc_iceRole pc = Some role" "pc_sctp pc = Some t" by auto
  let ?stream = "ucast (msg_stream msg) :: u16"
  obtain channel found where f: "findDataChannel ?stream pc = (channel, found)" by fastforce
  have eq: "forwardMessage us m pc = (if IsOpenMessage msg then
           if found then
             (case channel of
                Some n \<Rightarrow>
                  if \<not> dc_isClosed (the (pc_objects pc n)) then Some (run_channel us n (\<lambda>dc. (Inr (), DataChannel_close dc)) pc)
                  else Some (close_stream (msg_stream msg) pc)
              | None \<Rightarrow> Some (close_stream (msg_stream msg) pc))
           else if ?stream mod 2 \<noteq> remote_parity role then Some (close_stream (msg_stream msg) pc)
           else open_incoming us msg ?stream pc
         else if \<not> found then
           if msg_type msg = Reset then Some (Inr (), pc) else Some (close_stream (msg_stream msg) pc)
         else (case channel of Some n \<Rightarrow> deliver us msg n (if msg_type msg = Reset then snd (removeDataChannel ?stream pc) else pc)
               | None \<Rightarrow> Some (Inr (), if msg_type msg = Reset then snd (removeDataChannel ?stream pc) else pc)))"
    unfolding forwardMessage_def m Let_def pc option.sel by (simp add: f split del: if_split)
  show ?thesis
    using assms [unfolded eq] that by (auto split: if_splits option.splits dest!: arg_cong [of "_ :: unit result \<times> PeerConnection" _ snd])
qed

lemma remove_inv: "pc_inv pc \<Longrightarrow> pc_inv (snd (removeDataChannel s pc))"
  by (auto simp: removeDataChannel_def pc_inv_def distinct_map_filter)

lemma forward_inv:
  assumes "forwardMessage us m pc = Some (r, pc')" and "pc_inv pc"
  shows "pc_inv pc'"
  using assms(1)
proof (cases rule: forwardMessage_cases)
  case (open_channel msg s)
  then show ?thesis by (rule open_incoming_inv [OF _ assms(2)])
qed (use assms(2) in \<open>auto simp: remoteCloseDataChannels_def intro: remove_inv same_registry_inv [OF iterate_registry]
    same_registry_inv [OF run_channel_registry] same_registry_inv [OF close_stream_registry] same_registry_inv [OF deliver_registry]\<close>)

section \<open>Reachable states\<close>

text \<open>What can happen to the channels of a connection: calls of the user, messages and notifications of the transport, the
  transports coming and going, channels being destroyed. An operation that raises is a step to the state it leaves.\<close>

inductive pc_step :: "usrsctp \<Rightarrow> PeerConnection \<Rightarrow> PeerConnection \<Rightarrow> bool" for us where
  create: "emplaceDataChannel us label init pc = Some (r, pc') \<Longrightarrow> pc_step us pc pc'"
| receive: "forwardMessage us m pc = Some (r', pc') \<Longrightarrow> pc_step us pc pc'"
| connected: "on_sctp_connected us pc = Some (r', pc') \<Longrightarrow> pc_step us pc pc'"
| close_all: "pc_step us pc (closeDataChannels us pc)"
| remote_close_all: "pc_step us pc (remoteCloseDataChannels us pc)"
| amount: "pc_step us pc (forwardBufferedAmount s a pc)"
| callback: "pc_step us pc (onDataChannel b pc)"
| user_close: "pc_step us pc (snd (run_channel us n (\<lambda>dc. (Inr (), DataChannel_close dc)) pc))"
| user_send: "pc_step us pc (snd (run_channel us n (\<lambda>dc. apfst (map_sum id (\<lambda>_. ())) (DataChannel_outgoing send message dc)) pc))"
| user_receive: "pc_step us pc (snd (run_channel us n (\<lambda>dc. (Inr (), snd (DataChannel_receive dc))) pc))"
| user_onMessage: "pc_step us pc (snd (run_channel us n (\<lambda>dc. (Inr (), onMessage b dc)) pc))"
| destroy: "pc_step us pc (destroyDataChannel us n pc)"
| transports: "pc_step us pc (pc\<lparr>pc_iceRole := role, pc_sctp := t, pc_remoteMaxMessageSize := k\<rparr>)"

inductive pc_reachable :: "usrsctp \<Rightarrow> PeerConnection \<Rightarrow> bool" for us where
  start: "pc_dataChannels pc = [] \<Longrightarrow> pc_objects pc = Map.empty \<Longrightarrow> pc_reachable us pc"
| step: "pc_reachable us pc \<Longrightarrow> pc_step us pc pc' \<Longrightarrow> pc_reachable us pc'"

lemma open_all_registry: "same_registry pc (openDataChannels us pc)"
  by (simp add: openDataChannels_def iterate_registry)

lemma amount_registry: "same_registry pc (forwardBufferedAmount s a pc)"
  by (auto simp: forwardBufferedAmount_def same_registry_def streams_def fun_eq_iff option.map_comp comp_def split: option.split)

lemma callback_registry: "same_registry pc (onDataChannel b pc)"
  unfolding onDataChannel_def by (rule same_registry_trans [OF _ pending_registry]) simp

lemma user_stream [simp]:
  "dc_stream (snd (DataChannel_outgoing send m dc)) = dc_stream dc" "dc_stream (snd (DataChannel_receive dc)) = dc_stream dc"
  "dc_stream (onMessage b dc) = dc_stream dc"
  by (simp_all add: DataChannel_outgoing_def DataChannel_receive_def onMessage_def flushPendingMessages_def emit_def Let_def
      split: option.split prod.split)

lemmas registry_ops = open_all_registry amount_registry callback_registry run_channel_registry iterate_registry close_stream_registry

lemma emplaceDataChannel_inv:
  assumes "emplaceDataChannel us label init pc = Some (r, pc')" and inv: "pc_inv pc"
  shows "pc_inv pc'"
proof (cases "create_channel label init pc")
  case (Inr np)
  obtain n q where q: "np = (n, q)" by fastforce
  have inv_q: "pc_inv q" using create_inv [OF _ inv] Inr by (simp add: q)
  then have "\<And>r x. assignDataChannels q = Some (r, x) \<Longrightarrow> pc_inv x" by (rule assign_inv [rotated])
  moreover have "pc_inv (snd (run_channel us n channel_open x))" if "pc_inv x" for x
    by (rule same_registry_inv [OF run_channel_registry that]) simp
  ultimately show ?thesis
    using assms(1) Inr inv_q
    by (auto simp: emplaceDataChannel_def q split: option.splits sum.splits if_splits dest!: arg_cong [of "apfst _ _" _ snd])
qed (use assms in \<open>simp add: emplaceDataChannel_def\<close>)

lemma pc_step_inv: "pc_step us pc pc' \<Longrightarrow> pc_inv pc \<Longrightarrow> pc_inv pc'"
proof (induction rule: pc_step.induct)
  case (connected pc r pc')
  then show ?case
    by (auto simp: on_sctp_connected_def split: option.splits sum.splits intro: assign_inv
        intro!: same_registry_inv [OF open_all_registry])
qed (auto simp: closeDataChannels_def remoteCloseDataChannels_def
    intro: emplaceDataChannel_inv forward_inv destroy_inv intro!: same_registry_inv [OF registry_ops(2)] same_registry_inv [OF registry_ops(3)]
      same_registry_inv [OF registry_ops(4)] same_registry_inv [OF registry_ops(5)] same_registry_inv [OF same_registry_transport(2)])

lemma pc_reachable_inv: "pc_reachable us pc \<Longrightarrow> pc_inv pc"
  by (induction rule: pc_reachable.induct) (auto intro: pc_inv_init pc_step_inv)

text \<open>C16. In every reachable state of a connection, after any sequence of calls, messages, raised exceptions and destroyed
  channels, the channel to which \<open>findDataChannel\<close> routes a stream has that stream assigned, and no other stream leads to
  it.\<close>

theorem registry_routes_streams:
  assumes "pc_reachable us pc" and "findDataChannel s pc = (Some n, found)"
  shows "(\<exists>dc. pc_objects pc n = Some dc \<and> dc_stream dc = Some s) \<and> (\<forall>s'. fst (findDataChannel s' pc) = Some n \<longleftrightarrow> s' = s)"
proof -
  note inv = pc_reachable_inv [OF assms(1), unfolded pc_inv_def]
  have found: "(s, n) \<in> set (pc_dataChannels pc)" "pc_objects pc n \<noteq> None" if "fst (findDataChannel s pc) = Some n" for s
    using that by (auto simp: findDataChannel_def map_of_SomeD split: option.splits if_splits)
  have f: "fst (findDataChannel s pc) = Some n" using assms(2) by simp
  then have "streams pc n = Some (Some s)" using inv found [OF f] by (auto simp: streams_None)
  then have "\<exists>dc. pc_objects pc n = Some dc \<and> dc_stream dc = Some s" by (auto simp: streams_def)
  moreover have "s' = s" if "fst (findDataChannel s' pc) = Some n" for s'
    using found(1) [OF that] found(1) [OF f] inv inj_onD [of snd "set (pc_dataChannels pc)" "(s', n)" "(s, n)"] by (simp add: distinct_map)
  ultimately show ?thesis using f by blast
qed

text \<open>A connection without channels, and the parameters of a plain channel.\<close>

definition idle_pc :: PeerConnection where
  "idle_pc = \<lparr>pc_iceRole = Some Active, pc_sctp = None, pc_remoteMaxMessageSize = 65536, pc_objects = Map.empty, pc_nextObject = 0,
     pc_dataChannels = [], pc_unassigned = [], pc_pending = Queue_init 0 None, pc_callback = False, pc_events = []\<rparr>"

definition plain_init :: DataChannelInit where
  "plain_init = \<lparr>init_reliability = Reliability_default, init_negotiated = False, init_id = None, init_protocol = []\<rparr>"

theorem registry_routes_streams_witness:
  "\<exists>pc. (\<exists>dc. pc_objects pc 0 = Some dc \<and> dc_stream dc = Some 0) \<and> (\<forall>s'. fst (findDataChannel s' pc) = Some 0 \<longleftrightarrow> s' = 0)"
proof -
  define us :: usrsctp where "us = \<lparr>us_result = \<lambda>_. OK, us_notification = \<lambda>_. (0, OtherNotification)\<rparr>"
  define pc where "pc = snd (the (emplaceDataChannel us ''chat'' (plain_init\<lparr>init_id := Some 0\<rparr>) idle_pc))"
  have pc: "emplaceDataChannel us ''chat'' (plain_init\<lparr>init_id := Some 0\<rparr>) idle_pc = Some (Inr 0, pc)" "findDataChannel 0 pc = (Some 0, True)"
    by (simp_all add: pc_def emplaceDataChannel_def create_channel_def plain_init_def idle_pc_def DataChannel_init_def Reliability_default_def
        maxDataChannelStream_def MAX_SCTP_STREAMS_COUNT_def assignStream_def new_channel_def sctp_connected_def findDataChannel_def emplace_channel_def)
  have "pc_reachable us pc"
    by (rule pc_reachable.step [OF pc_reachable.start pc_step.create [OF pc(1)]]) (simp_all add: idle_pc_def)
  then show ?thesis using registry_routes_streams [OF _ pc(2)] by blast
qed

end
