(* ===== verification/Establishment.thy ===== *)
theory Establishment
  imports PeerChannels
begin

text \<open>
  What the data channels of two connections achieve: every channel that waits gets a stream of its own (\<open>streams_assigned\<close>), a
  channel created on one side appears on the other (\<open>data_channel_establishment\<close>); and what happens when the streams run out
  (\<open>too_many_channels_wedge\<close>).
\<close>

section \<open>Assignment of streams\<close>

text \<open>The streams of one parity, from \<open>start\<close> on.\<close>

definition streams_from :: "nat \<Rightarrow> nat \<Rightarrow> nat set" where
  "streams_from start maxStream = (\<lambda>j. start + 2 * j) ` {..< (maxStream + 2 - start) div 2}"

lemma streams_from_step:
  assumes "start \<le> maxStream"
  shows "streams_from start maxStream = insert start (streams_from (start + 2) maxStream)"
proof -
  have "(maxStream + 2 - start) div 2 = Suc ((maxStream + 2 - (start + 2)) div 2)" using assms by simp
  then show ?thesis
    by (simp only: streams_from_def lessThan_Suc_eq_insert_0 image_insert image_image) (simp add: add.commute)
qed

lemma streams_from_empty: "maxStream < start \<Longrightarrow> streams_from start maxStream = {}"
  by (simp add: streams_from_def)

lemma card_streams_from: "card (streams_from start maxStream) = (maxStream + 2 - start) div 2"
  by (simp add: streams_from_def card_image inj_on_def)

lemma free_stream_result:
  assumes "unat maxStream < 65534"
  shows "(\<exists>s. free_stream maxStream m start = Some (Inr s) \<and> map_of m s = None \<and> s \<le> maxStream \<and> s mod 2 = start mod 2) \<or>
    (free_stream maxStream m start = Some (Inl (RuntimeError ''Too many DataChannels'')) \<and>
     streams_from (unat start) (unat maxStream) \<subseteq> unat ` dom (map_of m))"
proof (induction "unat maxStream + 2 - unat start" arbitrary: start rule: less_induct)
  case less
  show ?case
  proof (cases "start > maxStream \<or> map_of m start = None")
    case True
    then show ?thesis
      by (subst (1 2) free_stream.simps) (auto simp: streams_from_empty word_less_nat_alt word_le_nat_alt)
  next
    case False
    then have le: "unat start \<le> unat maxStream" by (simp add: word_le_nat_alt not_less)
    then have next_start: "unat (start + 2) = unat start + 2"
      using assms by (simp add: unat_word_ariths take_bit_nat_eq_self)
    have "(start + 2) mod 2 = start mod 2"
      by (simp add: word_unat_eq_iff unat_mod next_start)
    moreover have "start \<in> dom (map_of m)" using False by auto
    ultimately show ?thesis
      using less [of "start + 2"] False le next_start streams_from_step [OF le]
      by (subst (1 2) free_stream.simps) auto
  qed
qed

lemma free_stream_room:
  assumes "unat maxStream < 65534" and "parity \<le> 1" and "length m < (unat maxStream + 1) div 2"
  obtains s where "free_stream maxStream m parity = Some (Inr s)" and "map_of m s = None" and "s \<le> maxStream" and "s mod 2 = parity"
proof -
  have p: "unat parity \<le> 1" "parity mod 2 = parity" using assms(2) by (simp_all add: word_le_nat_alt word_unat_eq_iff unat_mod)
  have "card (unat ` dom (map_of m)) \<le> length m"
    by (metis card_image_le card_length dom_map_of_conv_image_fst finite_imageI finite_set image_set length_map order_trans)
  moreover have "(unat maxStream + 1) div 2 \<le> card (streams_from (unat parity) (unat maxStream))"
    using p(1) by (simp add: card_streams_from div_le_mono)
  ultimately have "\<not> streams_from (unat parity) (unat maxStream) \<subseteq> unat ` dom (map_of m)"
    using assms(3) card_mono [of "unat ` dom (map_of m)" "streams_from (unat parity) (unat maxStream)"] by (fastforce simp: finite_dom_map_of)
  then show thesis using free_stream_result [OF assms(1), of m parity] that p(2) by auto
qed

lemma assign_loop_success:
  assumes "pc_inv pc" and "unat maxStream < 65534" and "parity \<le> 1" and "distinct ns"
    and "\<forall>n \<in> set ns. streams pc n = None \<or> streams pc n = Some None"
    and "length (pc_dataChannels pc) + length ns \<le> (unat maxStream + 1) div 2"
  shows "\<exists>pc'. assign_loop maxStream parity ns pc = Some (Inr (), pc') \<and> pc_sctp pc' = pc_sctp pc \<and> pc_iceRole pc' = pc_iceRole pc \<and>
    set (pc_dataChannels pc) \<subseteq> set (pc_dataChannels pc') \<and> (\<forall>n. n \<notin> set ns \<longrightarrow> pc_objects pc' n = pc_objects pc n) \<and>
    (\<forall>n \<in> set ns. \<forall>dc. pc_objects pc n = Some dc \<longrightarrow>
      (\<exists>s. pc_objects pc' n = Some (dc\<lparr>dc_stream := Some s\<rparr>) \<and> (s, n) \<in> set (pc_dataChannels pc') \<and>
           map_of (pc_dataChannels pc) s = None \<and> s \<le> maxStream \<and> s mod 2 = parity))"
  using assms
proof (induction ns arbitrary: pc)
  case (Cons n ns)
  show ?case
  proof (cases "pc_objects pc n")
    case None
    then have skip: "assign_loop maxStream parity (n # ns) pc = assign_loop maxStream parity ns pc" by simp
    have "length (pc_dataChannels pc) + length ns \<le> (unat maxStream + 1) div 2" using Cons.prems(6) by simp
    from Cons.IH [OF Cons.prems(1-3) _ _ this] Cons.prems(4,5) None show ?thesis
      unfolding skip by fastforce
  next
    case (Some dc)
    then have dc: "dc_stream dc = None" using Cons.prems(5) by (auto simp: streams_def)
    obtain s where s: "free_stream maxStream (pc_dataChannels pc) parity = Some (Inr s)" "map_of (pc_dataChannels pc) s = None"
        "s \<le> maxStream" "s mod 2 = parity"
      using free_stream_room [OF Cons.prems(2,3), of "pc_dataChannels pc"] Cons.prems(6) by auto
    let ?pc = "pc\<lparr>pc_objects := (pc_objects pc)(n \<mapsto> dc\<lparr>dc_stream := Some s\<rparr>), pc_dataChannels := emplace_channel s n (pc_dataChannels pc)\<rparr>"
    have reg: "pc_dataChannels ?pc = pc_dataChannels pc @ [(s, n)]" using s(2) by (simp add: emplace_channel_def)
    have step: "assign_loop maxStream parity (n # ns) pc = assign_loop maxStream parity ns ?pc"
      using Some s(1) dc by (simp add: assignStream_def)
    have "pc_inv ?pc"
      using emplace_inv [OF Cons.prems(1) unregistered(2) [OF Cons.prems(1) Some dc] order_refl unregistered(1) [OF Cons.prems(1) Some dc], of "dc\<lparr>dc_stream := Some s\<rparr>" s]
      by simp
    moreover have "\<forall>k \<in> set ns. streams ?pc k = None \<or> streams ?pc k = Some None"
      using Cons.prems(4,5) by (auto simp: streams_def)
    ultimately obtain pc' where pc': "assign_loop maxStream parity ns ?pc = Some (Inr (), pc')" "pc_sctp pc' = pc_sctp pc" "pc_iceRole pc' = pc_iceRole pc"
        "set (pc_dataChannels ?pc) \<subseteq> set (pc_dataChannels pc')" "\<forall>k. k \<notin> set ns \<longrightarrow> pc_objects pc' k = pc_objects ?pc k"
        "\<forall>k \<in> set ns. \<forall>d. pc_objects ?pc k = Some d \<longrightarrow> (\<exists>s. pc_objects pc' k = Some (d\<lparr>dc_stream := Some s\<rparr>) \<and>
           (s, k) \<in> set (pc_dataChannels pc') \<and> map_of (pc_dataChannels ?pc) s = None \<and> s \<le> maxStream \<and> s mod 2 = parity)"
      using Cons.IH [of ?pc] Cons.prems(2,3,4,6) reg by auto
    have old: "map_of (pc_dataChannels pc) s' = None" if "map_of (pc_dataChannels ?pc) s' = None" for s'
      using that reg by (simp add: map_add_None)
    have "\<exists>s. pc_objects pc' k = Some (d\<lparr>dc_stream := Some s\<rparr>) \<and> (s, k) \<in> set (pc_dataChannels pc') \<and>
        map_of (pc_dataChannels pc) s = None \<and> s \<le> maxStream \<and> s mod 2 = parity"
      if "k \<in> set (n # ns)" "pc_objects pc k = Some d" for k d
    proof (cases "k = n")
      case True
      then show ?thesis using that Some Cons.prems(4) pc'(4,5) reg s by (intro exI [of _ s]) auto
    next
      case False
      then have "k \<in> set ns" "pc_objects ?pc k = Some d" using that by auto
      then show ?thesis using pc'(6) old by blast
    qed
    then show ?thesis
      unfolding step using pc'(1-5) reg by (intro exI [of _ pc']) auto
  qed
qed simp

lemma assign_success:
  assumes inv: "pc_inv pc" and "pc_iceRole pc = Some role" and "unat (maxDataChannelStream pc) < 65534"
    and "distinct (pc_unassigned pc)" and "\<forall>n \<in> set (pc_unassigned pc). \<forall>dc. pc_objects pc n = Some dc \<longrightarrow> dc_stream dc = None"
    and "length (pc_dataChannels pc) + length (pc_unassigned pc) \<le> (unat (maxDataChannelStream pc) + 1) div 2"
  shows "\<exists>pc'. assignDataChannels pc = Some (Inr (), pc') \<and> pc_unassigned pc' = [] \<and> pc_sctp pc' = pc_sctp pc \<and> pc_iceRole pc' = pc_iceRole pc \<and>
    (\<forall>n \<in> set (pc_unassigned pc). \<forall>dc. pc_objects pc n = Some dc \<longrightarrow>
      (\<exists>s. pc_objects pc' n = Some (dc\<lparr>dc_stream := Some s\<rparr>) \<and> findDataChannel s pc' = (Some n, True) \<and>
           findDataChannel s pc = (None, False) \<and> s \<le> maxDataChannelStream pc \<and> s mod 2 = local_parity role \<and>
           s mod 2 = remote_parity (if role = Active then Passive else Active)))"
proof -
  have parity: "local_parity role \<le> 1" "local_parity role = remote_parity (if role = Active then Passive else Active)"
    by (simp_all add: local_parity_def remote_parity_def)
  have "\<forall>n \<in> set (pc_unassigned pc). streams pc n = None \<or> streams pc n = Some None"
    using assms(5) by (auto simp: streams_def)
  from assign_loop_success [OF inv assms(3) parity(1) assms(4) this assms(6)] obtain pc' where
    pc': "assign_loop (maxDataChannelStream pc) (local_parity role) (pc_unassigned pc) pc = Some (Inr (), pc')" "pc_sctp pc' = pc_sctp pc" "pc_iceRole pc' = pc_iceRole pc"
      "\<forall>n \<in> set (pc_unassigned pc). \<forall>dc. pc_objects pc n = Some dc \<longrightarrow>
      (\<exists>s. pc_objects pc' n = Some (dc\<lparr>dc_stream := Some s\<rparr>) \<and> (s, n) \<in> set (pc_dataChannels pc') \<and>
           map_of (pc_dataChannels pc) s = None \<and> s \<le> maxDataChannelStream pc \<and> s mod 2 = local_parity role)"
    by blast
  have "pc_inv pc'" by (rule assign_loop_inv [OF pc'(1) inv])
  then have "findDataChannel s (pc'\<lparr>pc_unassigned := []\<rparr>) = (Some n, True)"
    if "(s, n) \<in> set (pc_dataChannels pc')" "pc_objects pc' n = Some dc" for s n dc
    using that by (simp add: findDataChannel_def pc_inv_def)
  moreover have "findDataChannel s pc = (None, False)" if "map_of (pc_dataChannels pc) s = None" for s
    using that by (simp add: findDataChannel_def)
  moreover have "assignDataChannels pc = Some (Inr (), pc'\<lparr>pc_unassigned := []\<rparr>)"
    using assms(2) pc'(1) by (simp add: assignDataChannels_def)
  ultimately show ?thesis
    using pc'(2-4) by (intro exI [of _ "pc'\<lparr>pc_unassigned := []\<rparr>"]) (simp flip: parity(2), metis)
qed



section \<open>Too many channels\<close>

text \<open>A channel that waits for a stream although it has one: \<open>assignDataChannels\<close> gave it one before it raised.\<close>

definition wedged :: "nat \<Rightarrow> PeerConnection \<Rightarrow> bool" where
  "wedged n pc \<longleftrightarrow> n \<in> set (pc_unassigned pc) \<and> (\<exists>s. streams pc n = Some (Some s))"

lemma same_registry_wedged: "same_registry pc pc' \<Longrightarrow> wedged n pc \<Longrightarrow> wedged n pc'"
  by (simp add: same_registry_def wedged_def)

lemma assign_loop_keeps:
  assumes "assign_loop maxStream parity ns pc = Some (r, pc')" and "streams pc n = Some (Some s)"
  shows "streams pc' n = Some (Some s)" and "pc_unassigned pc' = pc_unassigned pc" and "n \<in> set ns \<Longrightarrow> isl r"
proof -
  have "streams pc' n = Some (Some s) \<and> pc_unassigned pc' = pc_unassigned pc \<and> (n \<in> set ns \<longrightarrow> isl r)"
    using assms
  proof (induction ns arbitrary: pc)
    case (Cons k ns)
    show ?case
    proof (cases "\<exists>dc s. pc_objects pc k = Some dc \<and> free_stream maxStream (pc_dataChannels pc) parity = Some (Inr s) \<and> dc_stream dc = None")
      case True
      then obtain dc s' where dc: "pc_objects pc k = Some dc" "free_stream maxStream (pc_dataChannels pc) parity = Some (Inr s')" "dc_stream dc = None"
        by blast
      let ?pc = "pc\<lparr>pc_objects := (pc_objects pc)(k \<mapsto> dc\<lparr>dc_stream := Some s'\<rparr>), pc_dataChannels := emplace_channel s' k (pc_dataChannels pc)\<rparr>"
      have "k \<noteq> n" using dc Cons.prems(2) by (auto simp: streams_def)
      then have "streams ?pc n = Some (Some s)" using Cons.prems(2) by (simp add: streams_def)
      moreover have "assign_loop maxStream parity ns ?pc = Some (r, pc')"
        using Cons.prems(1) dc by (simp add: assignStream_def)
      ultimately show ?thesis using Cons.IH [of ?pc] \<open>k \<noteq> n\<close> by simp
    next
      case False
      then show ?thesis
        using Cons.prems Cons.IH [of pc]
        by (auto simp: assignStream_def streams_def split: option.splits sum.splits if_splits)
    qed
  qed simp
  then show "streams pc' n = Some (Some s)" and "pc_unassigned pc' = pc_unassigned pc" and "n \<in> set ns \<Longrightarrow> isl r" by blast+
qed

lemma assign_wedged:
  assumes "wedged n pc" and "assignDataChannels pc = Some (r, pc')"
  shows "isl r" and "wedged n pc'"
proof -
  obtain s where s: "n \<in> set (pc_unassigned pc)" "streams pc n = Some (Some s)" using assms(1) by (auto simp: wedged_def)
  show "isl r" "wedged n pc'"
    using assms(2) assign_loop_keeps [OF _ s(2)] s
    by (fastforce simp: assignDataChannels_def wedged_def split: option.splits sum.splits prod.splits)+
qed

lemma fresh_alive: "pc_inv pc \<Longrightarrow> wedged n pc \<Longrightarrow> n \<noteq> pc_nextObject pc"
  by (auto simp: pc_inv_def wedged_def streams_def)

lemma create_wedged:
  assumes "create_channel label init pc = Inr (k, pc')" and "pc_inv pc" and "wedged n pc"
  shows "wedged n pc'"
  using assms fresh_alive [OF assms(2,3)]
  by (auto simp: create_channel_def new_channel_def assignStream_def bind_result_Inr_iff wedged_def streams_def
      split: option.splits if_splits)

lemma emplaceDataChannel_wedged:
  assumes "emplaceDataChannel us label init pc = Some (r, pc')" and inv: "pc_inv pc" and w: "wedged n pc"
  shows "wedged n pc'" and "pc_sctp pc = Some t \<Longrightarrow> fst (st_state t) = Connected \<Longrightarrow> isl r"
proof -
  have "wedged n pc' \<and> (sctp_connected pc \<longrightarrow> isl r)"
  proof (cases "create_channel label init pc")
    case (Inr np)
    obtain k q where q: "np = (k, q)" by fastforce
    have wq: "wedged n q" using create_wedged [OF _ inv w] Inr by (simp add: q)
    have "pc_sctp q = pc_sctp pc"
      using Inr
      by (cases "init_id init") (auto simp: q create_channel_def new_channel_def assignStream_def bind_result_Inr_iff split: if_splits)
    then show ?thesis
      using assms(1) Inr wq assign_wedged [OF wq]
      by (fastforce simp: emplaceDataChannel_def sctp_connected_def q split: option.splits sum.splits if_splits)
  qed (use assms in \<open>auto simp: emplaceDataChannel_def\<close>)
  then show "wedged n pc'" and "pc_sctp pc = Some t \<Longrightarrow> fst (st_state t) = Connected \<Longrightarrow> isl r"
    by (auto simp: sctp_connected_def)
qed

lemma destroy_wedged: "wedged n pc \<Longrightarrow> k \<noteq> n \<Longrightarrow> wedged n (destroyDataChannel us k pc)"
proof -
  assume w: "wedged n pc" and "k \<noteq> n"
  have "wedged n (snd (run_channel us k (\<lambda>dc. (Inr (), DataChannel_close dc)) pc))"
    by (rule same_registry_wedged [OF run_channel_registry w]) simp
  then show ?thesis using \<open>k \<noteq> n\<close> by (simp add: destroyDataChannel_def wedged_def streams_def Let_def)
qed

lemma open_incoming_wedged:
  assumes "open_incoming us m s pc = Some (r, pc')" and inv: "pc_inv pc" and w: "wedged n pc"
  shows "wedged n pc'"
proof (cases "incoming_channel s pc")
  case (Inr np)
  obtain k q where q: "np = (k, q)" by fastforce
  have k: "k = pc_nextObject pc" "wedged n q"
    using Inr fresh_alive [OF inv w] w
    by (auto simp: q incoming_channel_def bind_result_Inr_iff new_channel_def assignStream_def wedged_def streams_def split: if_splits)
  then show ?thesis
    using assms(1) Inr same_registry_wedged [OF deliver_registry [of us m k q] k(2)] fresh_alive [OF inv w]
    by (auto simp: open_incoming_def q intro!: destroy_wedged split: option.splits sum.splits)
qed (use assms in \<open>auto simp: open_incoming_def\<close>)

lemma remove_wedged: "wedged n pc \<Longrightarrow> wedged n (snd (removeDataChannel s pc))"
  by (simp add: removeDataChannel_def wedged_def)

lemma forward_wedged:
  assumes "forwardMessage us m pc = Some (r, pc')" and inv: "pc_inv pc" and w: "wedged n pc"
  shows "wedged n pc'"
  using assms(1)
proof (cases rule: forwardMessage_cases)
  case (open_channel msg s)
  then show ?thesis by (rule open_incoming_wedged [OF _ inv w])
next
  case (unregister_deliver msg k s)
  then show ?thesis
    using same_registry_wedged [OF deliver_registry] remove_wedged [OF w] by blast
qed (use w in \<open>auto simp: remoteCloseDataChannels_def intro: remove_wedged same_registry_wedged [OF iterate_registry]
    same_registry_wedged [OF run_channel_registry] same_registry_wedged [OF close_stream_registry] same_registry_wedged [OF deliver_registry]\<close>)

lemma pc_step_wedged:
  "pc_step us pc pc' \<Longrightarrow> pc_inv pc \<Longrightarrow> wedged n pc \<Longrightarrow> pc_objects pc' n \<noteq> None \<Longrightarrow> wedged n pc'"
proof (induction rule: pc_step.induct)
  case (create label init pc r pc')
  then show ?case using emplaceDataChannel_wedged(1) by blast
next
  case (receive m pc r pc')
  then show ?case using forward_wedged by blast
next
  case (connected pc r pc')
  then show ?case
    using assign_wedged [of n pc]
    by (fastforce simp: on_sctp_connected_def split: option.splits sum.splits)
next
  case (destroy pc k)
  then show ?case using destroy_wedged [of n pc k us] by (cases "k = n") (auto simp: destroyDataChannel_def Let_def)
qed (auto simp: closeDataChannels_def remoteCloseDataChannels_def
    intro: same_registry_wedged [OF registry_ops(2)] same_registry_wedged [OF registry_ops(3)]
      same_registry_wedged [OF registry_ops(4)] same_registry_wedged [OF registry_ops(5)] same_registry_wedged [OF same_registry_transport(2)])

text \<open>A run in which channel \<open>n\<close> stays alive.\<close>

inductive pc_run :: "usrsctp \<Rightarrow> nat \<Rightarrow> PeerConnection \<Rightarrow> PeerConnection \<Rightarrow> bool" for us n where
  run_start: "pc_run us n pc pc"
| run_step: "pc_run us n pc pc' \<Longrightarrow> pc_step us pc' pc'' \<Longrightarrow> pc_objects pc'' n \<noteq> None \<Longrightarrow> pc_run us n pc pc''"

lemma pc_run_wedged: "pc_run us n pc pc' \<Longrightarrow> pc_inv pc \<Longrightarrow> wedged n pc \<Longrightarrow> pc_inv pc' \<and> wedged n pc'"
  by (induction rule: pc_run.induct) (auto intro: pc_step_inv pc_step_wedged)

text \<open>C36. \<open>assignDataChannels\<close> that raises because there are too many channels does not take the channels that got a stream
  off the list of waiting channels. As long as one of them lives, every later call raises, whatever happens in between and however many
  streams become free, and every channel created over the connected transport raises too.\<close>

theorem too_many_channels_wedge:
  assumes "pc_reachable us pc" and "assignDataChannels pc = Some (Inl e, pc')" and "n \<in> set (pc_unassigned pc)"
    and "pc_objects pc' n = Some dc" and "dc_stream dc \<noteq> None" and "pc_run us n pc' pc''"
  shows "(\<forall>r q. assignDataChannels pc'' = Some (r, q) \<longrightarrow> isl r) \<and>
    (\<forall>t label init r q. pc_sctp pc'' = Some t \<and> fst (st_state t) = Connected \<and>
       emplaceDataChannel us label init pc'' = Some (r, q) \<longrightarrow> isl r)"
proof -
  have unassigned: "pc_unassigned q = pc_unassigned pc" if "assign_loop a b ns pc = Some (Inl e, q)" for a b ns q
    using that
  proof (induction ns arbitrary: pc)
    case (Cons k ns)
    show ?case
    proof (cases "pc_objects pc k")
      case (Some d)
      then show ?thesis using Cons by (auto split: option.splits sum.splits prod.splits)
    qed (use Cons in simp)
  qed simp
  have "pc_unassigned pc' = pc_unassigned pc"
    using assms(2) by (auto simp: assignDataChannels_def unassigned split: option.splits sum.splits prod.splits)
  then have "wedged n pc'" using assms(3,4,5) by (auto simp: wedged_def streams_def)
  moreover have "pc_inv pc'" by (rule assign_inv [OF assms(2) pc_reachable_inv [OF assms(1)]])
  ultimately have w: "pc_inv pc''" "wedged n pc''" using pc_run_wedged [OF assms(6)] by blast+
  show ?thesis using assign_wedged(1) [OF w(2)] emplaceDataChannel_wedged(2) [OF _ w] by blast
qed

theorem too_many_channels_wedge_witness:
  "\<exists>us pc pc'. pc_unassigned pc = [0, 1] \<and> assignDataChannels pc = Some (Inl (RuntimeError ''Too many DataChannels''), pc') \<and>
     (\<forall>r q. assignDataChannels pc' = Some (r, q) \<longrightarrow> isl r)"
proof -
  define us :: usrsctp where "us = \<lparr>us_result = \<lambda>_. OK, us_notification = \<lambda>_. (0, OtherNotification)\<rparr>"
  define t where "t = (SctpTransport_init None 5000 5000)\<lparr>st_negotiatedStreamsCount := Some 2\<rparr>"
  define pc1 where "pc1 = snd (the (emplaceDataChannel us ''a'' plain_init idle_pc))"
  define pc2 where "pc2 = snd (the (emplaceDataChannel us ''b'' plain_init pc1))"
  define pc where "pc = pc2\<lparr>pc_iceRole := Some Active, pc_sctp := Some t, pc_remoteMaxMessageSize := 65536\<rparr>"
  define pc' where "pc' = snd (the (assignDataChannels pc))"
  note defs = emplaceDataChannel_def create_channel_def plain_init_def idle_pc_def DataChannel_init_def Reliability_default_def
    new_channel_def sctp_connected_def
  have e1: "emplaceDataChannel us ''a'' plain_init idle_pc = Some (Inr 0, pc1)" by (simp add: pc1_def defs)
  have e2: "emplaceDataChannel us ''b'' plain_init pc1 = Some (Inr 1, pc2)" by (simp add: pc2_def pc1_def defs)
  have "pc_reachable us pc"
    unfolding pc_def
    by (rule pc_reachable.step [OF pc_reachable.step [OF pc_reachable.step [OF pc_reachable.start pc_step.create [OF e1]]
      pc_step.create [OF e2]] pc_step.transports]) (simp_all add: idle_pc_def)
  moreover have a: "assignDataChannels pc = Some (Inl (RuntimeError ''Too many DataChannels''), pc')"
    and o: "pc_unassigned pc = [0, 1]" "\<exists>dc. pc_objects pc' 0 = Some dc \<and> dc_stream dc \<noteq> None"
    by (simp_all add: pc'_def pc_def pc2_def pc1_def defs assignDataChannels_def maxDataChannelStream_def t_def maxStream_sctp_def
        SctpTransport_init_def local_parity_def free_stream.simps assignStream_def emplace_channel_def)
  ultimately show ?thesis
    using too_many_channels_wedge [OF _ a, of us 0 _ pc'] pc_run.run_start by (metis list.set_intros(1))
qed

section \<open>Establishment of a channel\<close>

text \<open>A connected transport with an empty queue.\<close>

definition idle_sctp :: "SctpTransport \<Rightarrow> bool" where
  "idle_sctp t \<longleftrightarrow> fst (st_state t) = Connected \<and> mQueue (st_sendQueue t) = [] \<and> \<not> mStopping (st_sendQueue t)"

definition control :: "binary \<Rightarrow> u16 \<Rightarrow> Message" where
  "control data s = make_message data Control (ucast s) None None"

definition sent_control :: "binary \<Rightarrow> u16 \<Rightarrow> usrsctp_call" where
  "sent_control data s = SctpSend data s PPID_CONTROL False PR_NONE OK"

lemma control_simps [simp]:
  "msg_data (control data s) = data" "msg_type (control data s) = Control" "msg_stream (control data s) = ucast s"
  "msg_reliability (control data s) = None" "ucast (msg_stream (control data s)) = s"
  by (simp_all add: control_def make_message_def Message_init_def)

lemma send_control:
  assumes "idle_sctp t" and "us_result us (st_calls t) = OK" and "data \<noteq> []" and "length data \<le> st_maxMessageSize t"
  shows "SctpTransport_send us (Some (control data s)) t = (Inr True, t\<lparr>st_calls := st_calls t @ [sent_control data s]\<rparr>)"
proof -
  have "trySendQueue_sctp us t = (Inr True, t)"
    using assms(1) by (simp add: trySendQueue_sctp.simps [of us t] Queue_peek_def shutdown_if_stopped_def Queue_running_def idle_sctp_def)
  moreover have "trySendMessage_sctp us (control data s) t = (Inr True, t\<lparr>st_calls := st_calls t @ [sent_control data s]\<rparr>)"
    using assms by (simp add: trySendMessage_sctp_def idle_sctp_def message_ppid_def message_policy_def us_call_def
        Reliability_default_def sent_control_def Let_def)
  ultimately show ?thesis using assms(1,4) by (simp add: SctpTransport_send_def idle_sctp_def Let_def)
qed

text \<open>What announcing a channel leaves alone.\<close>

definition channel_view :: "DataChannel \<Rightarrow> string \<times> string \<times> Reliability \<times> u16 option \<times> bool \<times> bool" where
  "channel_view dc = (dc_label dc, dc_protocol dc, dc_reliability dc, dc_stream dc, dc_isOpen dc, dc_isClosed dc)"

definition same_channels :: "PeerConnection \<Rightarrow> PeerConnection \<Rightarrow> bool" where
  "same_channels pc pc' \<longleftrightarrow> pc_sctp pc' = pc_sctp pc \<and> (\<forall>n. map_option channel_view (pc_objects pc' n) = map_option channel_view (pc_objects pc n))"

lemma same_channels_trans [trans]: "same_channels a b \<Longrightarrow> same_channels b c \<Longrightarrow> same_channels a c"
  by (simp add: same_channels_def)

lemma triggerOpen_view [simp]: "channel_view (triggerOpen dc) = channel_view dc"
  by (simp add: channel_view_def triggerOpen_def flushPendingMessages_def emit_def)

lemma pending_channels: "same_channels pc (triggerPendingDataChannels pc)"
proof (induction pc rule: triggerPendingDataChannels.induct)
  case (1 pc)
  show ?case
  proof (cases "pc_callback pc \<and> mQueue (pc_pending pc) \<noteq> []")
    case True
    then obtain n q where q: "pc_callback pc" "Queue_pop (pc_pending pc) = (Some n, q)"
      by (cases "mQueue (pc_pending pc)") (auto simp: Queue_pop_def)
    have "same_channels pc (announce n (pc\<lparr>pc_pending := q\<rparr>))"
      by (auto simp: announce_def same_channels_def Let_def option.map_comp comp_def)
    also note 1 [OF q(1) q(2) [symmetric] refl]
    finally show ?thesis using q by (subst triggerPendingDataChannels.simps) simp
  next
    case False
    then have "triggerPendingDataChannels pc = pc"
      by (subst triggerPendingDataChannels.simps) (auto simp: Queue_pop_def split: list.splits)
    then show ?thesis by (simp add: same_channels_def)
  qed
qed

lemma trigger_channels: "same_channels pc (triggerDataChannel n pc)"
proof -
  let ?pc = "case pc_objects pc n of None \<Rightarrow> pc | Some dc \<Rightarrow> (case Queue_push n (pc_pending pc) of None \<Rightarrow> pc
    | Some q \<Rightarrow> pc\<lparr>pc_objects := (pc_objects pc)(n \<mapsto> resetOpenCallback dc), pc_pending := q\<rparr>)"
  have "same_channels pc ?pc" by (auto simp: same_channels_def resetOpenCallback_def channel_view_def split: option.split)
  also note pending_channels [of ?pc]
  finally show ?thesis by (simp add: triggerDataChannel_def)
qed

lemma open_message_nonempty:
  assumes "open_message_bytes r label protocol = Inr buffer"
  shows "buffer \<noteq> []"
proof -
  obtain ct p where "reliability_parameters r = Inr (ct, p)" "length label \<le> 65535" "length protocol \<le> 65535"
    using open_message_bytes_Inr [OF assms] by blast
  from open_message_bytes_eq [OF this] assms show ?thesis by (auto simp: OpenMessage_enc_def)
qed

text \<open>The side that opens a channel.\<close>

lemma outgoing_opens:
  assumes "pc_inv pc" and "pc_iceRole pc = Some role" and "pc_sctp pc = Some t" and "idle_sctp t"
    and "us_result us (st_calls t) = OK" and "pc_unassigned pc = []" and "unat (maxDataChannelStream pc) < 65534"
    and "length (pc_dataChannels pc) < (unat (maxDataChannelStream pc) + 1) div 2"
    and "\<not> init_negotiated init" and "init_id init = None"
    and r: "rel_maxPacketLifeTime (init_reliability init) = None \<or> rel_maxRetransmits (init_reliability init) = None"
    and b: "open_message_bytes (init_reliability init) label (init_protocol init) = Inr buffer" "length buffer \<le> st_maxMessageSize t"
  shows "\<exists>n s pc' t'. emplaceDataChannel us label init pc = Some (Inr n, pc') \<and> pc_iceRole pc' = Some role \<and> pc_sctp pc' = Some t' \<and>
    st_calls t' = st_calls t @ [sent_control buffer s] \<and> findDataChannel s pc' = (Some n, True) \<and>
    s mod 2 = remote_parity (if role = Active then Passive else Active) \<and>
    (\<exists>dc. pc_objects pc' n = Some dc \<and> dc_kind dc = Outgoing \<and> dc_label dc = label \<and> \<not> dc_isOpen dc \<and> \<not> dc_isClosed dc)"
proof -
  let ?n = "pc_nextObject pc"
  obtain dc where dc: "DataChannel_init Outgoing (Some (pc_remoteMaxMessageSize pc)) label (init_protocol init) (init_reliability init) = Inr dc"
    using r by (auto simp: DataChannel_init_def)
  define q where "q = pc\<lparr>pc_objects := (pc_objects pc)(?n \<mapsto> dc), pc_nextObject := ?n + 1, pc_unassigned := [?n]\<rparr>"
  have created: "create_channel label init pc = Inr (?n, q)"
    using assms(6,9,10) dc by (simp add: create_channel_def new_channel_def q_def)
  have fields: "dc_stream dc = None" "dc_kind dc = Outgoing" "dc_label dc = label" "dc_protocol dc = init_protocol init"
      "dc_reliability dc = init_reliability init" "\<not> dc_isOpen dc" "\<not> dc_isClosed dc" "dc_events dc = []"
    using dc by (auto simp: DataChannel_init_def split: if_splits)
  have q: "pc_inv q" "pc_iceRole q = Some role" "maxDataChannelStream q = maxDataChannelStream pc" "pc_unassigned q = [?n]"
      "pc_objects q ?n = Some dc" "pc_sctp q = Some t" "pc_dataChannels q = pc_dataChannels pc"
    using create_inv [OF created assms(1)] assms(2,3) by (simp_all add: q_def maxDataChannelStream_def)
  obtain q' s where q': "assignDataChannels q = Some (Inr (), q')" "pc_sctp q' = Some t" "pc_iceRole q' = Some role"
      "pc_objects q' ?n = Some (dc\<lparr>dc_stream := Some s\<rparr>)" "findDataChannel s q' = (Some ?n, True)"
      "s mod 2 = remote_parity (if role = Active then Passive else Active)"
    using assign_success [OF q(1,2)] q assms(7,8) fields(1) by auto
  define dc' where "dc' = emit (EvSend (control buffer s)) (dc\<lparr>dc_stream := Some s, dc_transport := True\<rparr>)"
  define t' where "t' = t\<lparr>st_calls := st_calls t @ [sent_control buffer s]\<rparr>"
  have buffer: "buffer \<noteq> []" by (rule open_message_nonempty [OF b(1)])
  have "channel_open (dc\<lparr>dc_stream := Some s\<rparr>) = (Inr (), dc')"
    using b(1) fields by (simp add: channel_open_def OutgoingDataChannel_open_def dc'_def control_def)
  moreover have "channel_calls us (dc_events dc') t = (Inr (), t')"
    using send_control [OF assms(4,5) buffer b(2)] fields(8) by (simp add: dc'_def emit_def t'_def)
  ultimately have "run_channel us ?n channel_open q' = (Inr (), q'\<lparr>pc_objects := (pc_objects q')(?n \<mapsto> dc'), pc_sctp := Some t'\<rparr>)"
    using q'(2,4) fields(8) by (simp add: run_channel_def update_channel_def)
  then have "emplaceDataChannel us label init pc = Some (Inr ?n, q'\<lparr>pc_objects := (pc_objects q')(?n \<mapsto> dc'), pc_sctp := Some t'\<rparr>)"
    using created q(6) q'(1) assms(4) by (simp add: emplaceDataChannel_def sctp_connected_def idle_sctp_def)
  then show ?thesis
    using q'(3-6) fields by (auto simp: t'_def findDataChannel_def dc'_def emit_def split: option.splits)
qed

text \<open>The side that is asked to open a channel.\<close>

lemma incoming_opens:
  assumes "pc_iceRole pc = Some role" and "pc_sctp pc = Some t" and "idle_sctp t" and "us_result us (st_calls t) = OK"
    and "1 \<le> st_maxMessageSize t" and "findDataChannel s pc = (None, False)" and "s mod 2 = remote_parity role"
    and r: "rel_maxPacketLifeTime r = None \<or> rel_maxRetransmits r = None" and b: "open_message_bytes r label protocol = Inr buffer"
  shows "\<exists>n pc' t' dc. forwardMessage us (Some (control buffer s)) pc = Some (Inr (), pc') \<and> pc_sctp pc' = Some t' \<and>
    st_calls t' = st_calls t @ [sent_control [MESSAGE_ACK] s] \<and> pc_objects pc' n = Some dc \<and> dc_label dc = label \<and>
    dc_protocol dc = protocol \<and> effective (dc_reliability dc) = effective r \<and> dc_stream dc = Some s \<and> DataChannel_isOpen dc"
proof -
  let ?n = "pc_nextObject pc"
  obtain ct p where p: "reliability_parameters r = Inr (ct, p)" "length label \<le> 65535" "length protocol \<le> 65535"
    using open_message_bytes_Inr [OF b] by blast
  note buffer = open_message_bytes_eq [OF p, unfolded b]
  obtain dc0 where init: "DataChannel_init Incoming (Some (pc_remoteMaxMessageSize pc)) [] [] Reliability_default = Inr dc0"
    by (simp add: DataChannel_init_def Reliability_default_def)
  define dc where "dc = dc0\<lparr>dc_transport := True, dc_stream := Some s\<rparr>"
  define q where "q = pc\<lparr>pc_objects := (pc_objects pc)(?n \<mapsto> dc), pc_nextObject := ?n + 1,
    pc_dataChannels := emplace_channel s ?n (pc_dataChannels pc)\<rparr>"
  have dc: "dc_transport dc" "dc_stream dc = Some s" "dc_kind dc = Incoming" "\<not> dc_isOpen dc" "\<not> dc_isClosed dc" "dc_events dc = []"
      "\<not> ch_messageCallback dc"
    using init by (auto simp: dc_def DataChannel_init_def split: if_splits)
  have created: "incoming_channel s pc = Inr (?n, q)"
    using init dc(2) by (auto simp: incoming_channel_def new_channel_def assignStream_def q_def dc_def DataChannel_init_def split: if_splits)
  define dc' where "dc' = openOnce (emit (EvSend (control [MESSAGE_ACK] s))
       (dc\<lparr>dc_label := label, dc_protocol := protocol, dc_reliability := reliability_of_open ct p (dc_reliability dc)\<rparr>))"
  have head: "ld8 buffer 0 = MESSAGE_OPEN" "buffer \<noteq> []"
    using buffer by (simp_all add: OpenMessage_enc_def)
  then have open_message: "IsOpenMessage (control buffer s)" by (simp add: IsOpenMessage_def)
  have "IncomingDataChannel_processOpenMessage (control buffer s) dc = (Inr (), dc')"
    unfolding dc'_def control_def [of "[MESSAGE_ACK]"] using buffer by (intro process_open_message_bytes [OF p(2,3) dc(1,2)]) simp
  then have incoming: "DataChannel_incoming (Some (control buffer s)) dc = Some (Inr (), dc')"
    using dc head by (simp add: DataChannel_incoming_def processOpenMessage_def)
  have dc': "dc_events dc' = [EvSend (control [MESSAGE_ACK] s), EvOpen]" "dc_isOpen dc'" "\<not> dc_isClosed dc'" "dc_label dc' = label"
      "dc_protocol dc' = protocol" "dc_reliability dc' = reliability_of_open ct p (dc_reliability dc)" "dc_stream dc' = Some s"
    using dc by (simp_all add: dc'_def openOnce_def triggerOpen_def flushPendingMessages_def flush_loop.simps emit_def)
  define t' where "t' = t\<lparr>st_calls := st_calls t @ [sent_control [MESSAGE_ACK] s]\<rparr>"
  define u where "u = q\<lparr>pc_objects := (pc_objects q)(?n \<mapsto> dc'), pc_sctp := Some t'\<rparr>"
  have "channel_calls us (dc_events dc') t = (Inr (), t')"
    using send_control [OF assms(3,4), of "[MESSAGE_ACK]" s] assms(5) by (simp add: dc'(1) t'_def)
  then have "update_channel us ?n dc dc' q = (Inr (), u)"
    using assms(2) dc(6) by (simp add: update_channel_def q_def u_def)
  then have "deliver us (control buffer s) ?n q = Some (Inr (), triggerDataChannel ?n u)"
    using incoming dc(3,4) dc'(2) by (simp add: deliver_def q_def)
  then have "forwardMessage us (Some (control buffer s)) pc = Some (Inr (), triggerDataChannel ?n u)"
    using assms(1,2,6,7) open_message created by (simp add: forwardMessage_def open_incoming_def Let_def)
  moreover obtain d where d: "pc_objects (triggerDataChannel ?n u) ?n = Some d" "channel_view d = channel_view dc'" "pc_sctp (triggerDataChannel ?n u) = Some t'"
    using trigger_channels [of u ?n] by (auto simp: same_channels_def u_def dest!: spec [of _ ?n])
  ultimately show ?thesis
    using dc' reliability_roundtrip [OF p(1) r, of "dc_reliability dc"]
    by (intro exI [of _ ?n] exI [of _ "triggerDataChannel ?n u"] exI [of _ t'] exI [of _ d])
      (simp add: channel_view_def DataChannel_isOpen_def t'_def)
qed

text \<open>The acknowledgement opens the channel.\<close>

lemma acknowledgement_opens:
  assumes "pc_iceRole pc \<noteq> None" and "pc_sctp pc = Some t" and "findDataChannel s pc = (Some n, True)"
    and "pc_objects pc n = Some dc" and "dc_kind dc = Outgoing" and "\<not> dc_isOpen dc" and "\<not> dc_isClosed dc"
  shows "\<exists>pc' dc'. forwardMessage us (Some (control [MESSAGE_ACK] s)) pc = Some (Inr (), pc') \<and> pc_objects pc' n = Some dc' \<and>
    DataChannel_isOpen dc' \<and> dc_label dc' = dc_label dc \<and> EvOpen \<in> set (dc_events dc')"
proof -
  obtain q vs where flush: "flush_loop (emit EvOpen (dc\<lparr>dc_isOpen := True, ch_openTriggered := True\<rparr>)) =
      dc\<lparr>dc_isOpen := True, ch_openTriggered := True, dc_recvQueue := q, dc_events := dc_events dc @ EvOpen # map EvMessage vs\<rparr>"
    using flush_loop_frame [of "emit EvOpen (dc\<lparr>dc_isOpen := True, ch_openTriggered := True\<rparr>)"] by (auto simp: emit_def)
  then have o: "openOnce dc = dc\<lparr>dc_isOpen := True, ch_openTriggered := True, dc_recvQueue := q, dc_events := dc_events dc @ EvOpen # map EvMessage vs\<rparr>"
    using assms(6) by (simp add: openOnce_def triggerOpen_def flushPendingMessages_def emit_def)
  have silent: "channel_calls us (map EvMessage vs) x = (Inr (), x)" for x
    by (induction vs) simp_all
  have "DataChannel_incoming (Some (control [MESSAGE_ACK] s)) dc = Some (Inr (), openOnce dc)"
    using assms(7) by (simp add: DataChannel_incoming_def dcep_constants)
  then have "deliver us (control [MESSAGE_ACK] s) n pc = Some (Inr (), pc\<lparr>pc_objects := (pc_objects pc)(n \<mapsto> openOnce dc), pc_sctp := Some t\<rparr>)"
    using assms(2,4,5) silent by (simp add: deliver_def update_channel_def o)
  then show ?thesis
    using assms(1-3,7) by (auto simp: forwardMessage_def IsOpenMessage_def dcep_constants Let_def o DataChannel_isOpen_def)
qed

text \<open>A connection that can exchange messages: connected, with nothing queued and streams left.\<close>

definition ready_pc :: "usrsctp \<Rightarrow> PeerConnection \<Rightarrow> bool" where
  "ready_pc us pc \<longleftrightarrow>
     pc_unassigned pc = [] \<and> unat (maxDataChannelStream pc) < 65534 \<and>
     length (pc_dataChannels pc) < (unat (maxDataChannelStream pc) + 1) div 2 \<and>
     (case pc_sctp pc of Some t \<Rightarrow> idle_sctp t \<and> us_result us (st_calls t) = OK \<and> 1 \<le> st_maxMessageSize t | None \<Rightarrow> False)"

text \<open>C2. Establishment of a data channel between two connections. \<open>emplaceDataChannel\<close> on one side assigns a stream and hands
  the open message to usrsctp; the receive path of the other side turns those bytes into the message that \<open>forwardMessage\<close> routes to
  a new channel, which has the same label, protocol, ordering and partial reliability, is open, and has handed the acknowledgement to
  usrsctp on the same stream; \<open>forwardMessage\<close> of the acknowledgement on the first side opens its channel and fires its open
  callback.\<close>

theorem data_channel_establishment:
  assumes "pc_reachable us a" and "ready_pc us a" and "pc_iceRole a = Some role" and "ready_pc us b"
    and "pc_iceRole b = Some (if role = Active then Passive else Active)" and "\<forall>s. findDataChannel s b = (None, False)"
    and "\<not> init_negotiated init" and "init_id init = None"
    and "rel_maxPacketLifeTime (init_reliability init) = None \<or> rel_maxRetransmits (init_reliability init) = None"
    and "open_message_bytes (init_reliability init) label (init_protocol init) = Inr buffer"
    and "length buffer \<le> st_maxMessageSize (the (pc_sctp a))"
  shows "\<exists>n s a' b' a'' m d d'.
    emplaceDataChannel us label init a = Some (Inr n, a') \<and>
    st_calls (the (pc_sctp a')) = st_calls (the (pc_sctp a)) @ [SctpSend buffer s PPID_CONTROL False PR_NONE OK] \<and>
    (\<forall>t. st_events (processData_sctp buffer s PPID_CONTROL t) = st_events t @ [SctpRecv (Some (control buffer s))]) \<and>
    forwardMessage us (Some (control buffer s)) b = Some (Inr (), b') \<and> pc_objects b' m = Some d \<and>
    dc_label d = label \<and> dc_protocol d = init_protocol init \<and> effective (dc_reliability d) = effective (init_reliability init) \<and>
    dc_stream d = Some s \<and> DataChannel_isOpen d \<and>
    st_calls (the (pc_sctp b')) = st_calls (the (pc_sctp b)) @ [SctpSend [MESSAGE_ACK] s PPID_CONTROL False PR_NONE OK] \<and>
    forwardMessage us (Some (control [MESSAGE_ACK] s)) a' = Some (Inr (), a'') \<and> pc_objects a'' n = Some d' \<and>
    dc_label d' = label \<and> DataChannel_isOpen d' \<and> EvOpen \<in> set (dc_events d')"
proof -
  obtain ta where ta: "pc_sctp a = Some ta" "idle_sctp ta" "us_result us (st_calls ta) = OK"
    and a: "pc_unassigned a = []" "unat (maxDataChannelStream a) < 65534" "length (pc_dataChannels a) < (unat (maxDataChannelStream a) + 1) div 2"
    using assms(2) by (auto simp: ready_pc_def split: option.splits)
  obtain tb where tb: "pc_sctp b = Some tb" "idle_sctp tb" "us_result us (st_calls tb) = OK" "1 \<le> st_maxMessageSize tb"
    using assms(4) by (auto simp: ready_pc_def split: option.splits)
  obtain n s a' ta' dc where o: "emplaceDataChannel us label init a = Some (Inr n, a')" "pc_iceRole a' = Some role" "pc_sctp a' = Some ta'"
      "st_calls ta' = st_calls ta @ [sent_control buffer s]" "findDataChannel s a' = (Some n, True)"
      "s mod 2 = remote_parity (if role = Active then Passive else Active)" "pc_objects a' n = Some dc" "dc_kind dc = Outgoing"
      "dc_label dc = label" "\<not> dc_isOpen dc" "\<not> dc_isClosed dc"
    using outgoing_opens [OF pc_reachable_inv [OF assms(1)] assms(3) ta a assms(7-10)] assms(11) ta(1) by auto
  have "findDataChannel s b = (None, False)" using assms(6) by blast
  from incoming_opens [OF assms(5) tb this o(6) assms(9,10)]
  obtain m b' tb' d where i: "forwardMessage us (Some (control buffer s)) b = Some (Inr (), b')" "pc_sctp b' = Some tb'"
      "st_calls tb' = st_calls tb @ [sent_control [MESSAGE_ACK] s]" "pc_objects b' m = Some d" "dc_label d = label"
      "dc_protocol d = init_protocol init" "effective (dc_reliability d) = effective (init_reliability init)" "dc_stream d = Some s"
      "DataChannel_isOpen d"
    by blast
  obtain a'' d' where k: "forwardMessage us (Some (control [MESSAGE_ACK] s)) a' = Some (Inr (), a'')" "pc_objects a'' n = Some d'"
      "DataChannel_isOpen d'" "dc_label d' = label" "EvOpen \<in> set (dc_events d')"
    using acknowledgement_opens [OF _ o(3,5,7,8,10,11), of us] o(2,9) by auto
  have "st_events (processData_sctp buffer s PPID_CONTROL t) = st_events t @ [SctpRecv (Some (control buffer s))]" for t
    by (simp add: processData_sctp_def st_recv_def st_emit_def control_def Let_def)
  then show ?thesis
    using o(1,3,4) i k ta(1) tb(1) unfolding sent_control_def
    by (intro exI [of _ n] exI [of _ s] exI [of _ a'] exI [of _ b'] exI [of _ a''] exI [of _ m] exI [of _ d] exI [of _ d']) simp
qed

theorem data_channel_establishment_witness:
  "\<exists>us a b n s a' b' m d. emplaceDataChannel us ''chat'' plain_init a = Some (Inr n, a') \<and>
    pc_objects b' m = Some d \<and> dc_label d = ''chat'' \<and> dc_stream d = Some s \<and> DataChannel_isOpen d \<and>
    (\<exists>buffer. forwardMessage us (Some (control buffer s)) b = Some (Inr (), b'))"
proof -
  define us :: usrsctp where "us = \<lparr>us_result = \<lambda>_. OK, us_notification = \<lambda>_. (0, OtherNotification)\<rparr>"
  define t where "t = (SctpTransport_init None 5000 5000)\<lparr>st_state := (Connected, [])\<rparr>"
  define a where "a = idle_pc\<lparr>pc_sctp := Some t\<rparr>"
  define b where "b = idle_pc\<lparr>pc_iceRole := Some Passive, pc_sctp := Some t\<rparr>"
  have max: "maxDataChannelStream a = 1023" "maxDataChannelStream b = 1023"
    by (simp_all add: a_def b_def maxDataChannelStream_def t_def maxStream_sctp_def SctpTransport_init_def MAX_SCTP_STREAMS_COUNT_def)
  have ready: "ready_pc us a" "ready_pc us b"
    using max by (simp_all add: ready_pc_def, simp_all add: a_def b_def idle_pc_def idle_sctp_def t_def SctpTransport_init_def us_def
        Queue_init_def DEFAULT_LOCAL_MAX_MESSAGE_SIZE_def)
  have reach: "pc_reachable us a" by (rule pc_reachable.start) (simp_all add: a_def idle_pc_def)
  have role: "pc_iceRole a = Some Active" "pc_iceRole b = Some (if Active = Active then Passive else Active)" by (simp_all add: a_def b_def idle_pc_def)
  have free: "\<forall>s. findDataChannel s b = (None, False)" by (simp add: findDataChannel_def b_def idle_pc_def)
  have init: "\<not> init_negotiated plain_init" "init_id plain_init = None"
      "rel_maxPacketLifeTime (init_reliability plain_init) = None \<or> rel_maxRetransmits (init_reliability plain_init) = None"
    by (simp_all add: plain_init_def Reliability_default_def)
  have "reliability_parameters (init_reliability plain_init) = Inr (CHANNEL_RELIABLE, 0)"
    by (simp add: plain_init_def reliability_parameters_def Reliability_default_def)
  from open_message_bytes_eq [OF this, of "''chat''" "init_protocol plain_init"]
  obtain buffer where buffer: "open_message_bytes (init_reliability plain_init) ''chat'' (init_protocol plain_init) = Inr buffer"
      "length buffer \<le> st_maxMessageSize (the (pc_sctp a))"
    by (auto simp: plain_init_def open_msg.length_enc string_bytes_def a_def t_def SctpTransport_init_def DEFAULT_LOCAL_MAX_MESSAGE_SIZE_def)
  from data_channel_establishment [OF reach ready(1) role(1) ready(2) role(2) free init buffer] show ?thesis by blast
qed

end
