(* ===== verification/Sessions.thy ===== *)
theory Sessions
  imports Descriptions
begin

text \<open>
  The class \<open>Description\<close> of \<open>src/description.cpp\<close> and the codecs of its \<open>Audio\<close> and \<open>Video\<close> entries: building a
  description, printing it and parsing it. The number the parser draws for a session without identifier is its argument
  \<open>random\<close>.
\<close>

section \<open>Audio and video entries\<close>

definition DEFAULT_OPUS_AUDIO_PROFILE :: string where
  "DEFAULT_OPUS_AUDIO_PROFILE = ''minptime=10;maxaveragebitrate=96000;stereo=1;sprop-stereo=1;useinbandfec=1''"

definition DEFAULT_H264_VIDEO_PROFILE :: string where
  "DEFAULT_H264_VIDEO_PROFILE = ''profile-level-id=42e01f;packetization-mode=1;level-asymmetry-allowed=1''"

definition add_format :: "RtpMap \<Rightarrow> string option \<Rightarrow> Media \<Rightarrow> Media" where
  "add_format r profile m = addRtpMap (case profile of Some p \<Rightarrow> r\<lparr>rm_fmtps := rm_fmtps r @ [p]\<rparr> | None \<Rightarrow> r) m"

definition Audio_init :: "string \<Rightarrow> Direction \<Rightarrow> Media result" where
  "Audio_init mid dir = Media_of_mline ''audio 9 UDP/TLS/RTP/SAVPF'' mid dir"

definition addAudioCodec :: "int \<Rightarrow> string \<Rightarrow> string option \<Rightarrow> Media \<Rightarrow> Media result" where
  "addAudioCodec payloadType codec profile m =
     (let codec = (if CHR ''/'' \<notin> set codec then if codec = ''PCMA'' \<or> codec = ''PCMU'' then codec @ ''/8000/1'' else codec @ ''/48000/2''
                   else codec)
      in bind_result (RtpMap_of (to_string payloadType @ '' '' @ codec)) (\<lambda>r. Inr (add_format r profile m)))"

definition addOpusCodec :: "int \<Rightarrow> string option \<Rightarrow> Media \<Rightarrow> Media result" where
  "addOpusCodec payloadType profile m = addAudioCodec payloadType ''opus'' profile m"

definition addPCMACodec :: "int \<Rightarrow> string option \<Rightarrow> Media \<Rightarrow> Media result" where
  "addPCMACodec payloadType profile m = addAudioCodec payloadType ''PCMA'' profile m"

definition addPCMUCodec :: "int \<Rightarrow> string option \<Rightarrow> Media \<Rightarrow> Media result" where
  "addPCMUCodec payloadType profile m = addAudioCodec payloadType ''PCMU'' profile m"

definition addAACCodec :: "int \<Rightarrow> string option \<Rightarrow> Media \<Rightarrow> Media result" where
  "addAACCodec payloadType profile m =
     (case profile of Some p \<Rightarrow> addAudioCodec payloadType ''MP4A-LATM'' (Some p) m
      | None \<Rightarrow> addAudioCodec payloadType ''MP4A-LATM'' (Some ''cpresent=1'') m)"

definition Video_init :: "string \<Rightarrow> Direction \<Rightarrow> Media result" where
  "Video_init mid dir = Media_of_mline ''video 9 UDP/TLS/RTP/SAVPF'' mid dir"

definition addVideoCodec :: "int \<Rightarrow> string \<Rightarrow> string option \<Rightarrow> Media \<Rightarrow> Media result" where
  "addVideoCodec payloadType codec profile m =
     (let codec = (if CHR ''/'' \<notin> set codec then codec @ ''/90000'' else codec)
      in bind_result (RtpMap_of (to_string payloadType @ '' '' @ codec)) (\<lambda>r.
           Inr (add_format (addFeedback ''goog-remb'' (addFeedback ''nack pli'' (addFeedback ''nack'' r))) profile m)))"

definition addH264Codec :: "int \<Rightarrow> string option \<Rightarrow> Media \<Rightarrow> Media result" where
  "addH264Codec payloadType profile m = addVideoCodec payloadType ''H264'' profile m"

definition addH265Codec :: "int \<Rightarrow> string option \<Rightarrow> Media \<Rightarrow> Media result" where
  "addH265Codec payloadType profile m = addVideoCodec payloadType ''H265'' profile m"

definition addVP8Codec :: "int \<Rightarrow> string option \<Rightarrow> Media \<Rightarrow> Media result" where
  "addVP8Codec payloadType profile m = addVideoCodec payloadType ''VP8'' profile m"

definition addVP9Codec :: "int \<Rightarrow> string option \<Rightarrow> Media \<Rightarrow> Media result" where
  "addVP9Codec payloadType profile m = addVideoCodec payloadType ''VP9'' profile m"

definition addAV1Codec :: "int \<Rightarrow> string option \<Rightarrow> Media \<Rightarrow> Media result" where
  "addAV1Codec payloadType profile m = addVideoCodec payloadType ''AV1'' profile m"

section \<open>Entries of a description\<close>

fun entry_mid :: "entry \<Rightarrow> string" where
  "entry_mid (AppEntry a) = en_mid a"
| "entry_mid (MediaEntry m) = en_mid m"

fun entry_isRemoved :: "entry \<Rightarrow> bool" where
  "entry_isRemoved (AppEntry a) = en_isRemoved a"
| "entry_isRemoved (MediaEntry m) = en_isRemoved m"

fun is_application :: "entry \<Rightarrow> bool" where
  "is_application (AppEntry a) = True"
| "is_application (MediaEntry m) = False"

definition entry_lines :: "string \<Rightarrow> u16 \<Rightarrow> string \<Rightarrow> string list \<Rightarrow> 'a Entry_scheme \<Rightarrow> string list" where
  "entry_lines addr port description ls e =
     [''m='' @ en_type e @ '' '' @ (if en_isRemoved e then ''0'' else nat_string (unat port)) @ '' '' @ en_protocol e @ '' '' @ description,
      ''c=IN '' @ addr] @ ls"

fun Entry_generateSdp :: "string \<Rightarrow> u16 \<Rightarrow> entry \<Rightarrow> string list" where
  "Entry_generateSdp addr port (AppEntry a) = entry_lines addr port (en_description a) (Application_generateSdpLines a) a"
| "Entry_generateSdp addr port (MediaEntry m) = entry_lines addr port (Media_description m) (Media_generateSdpLines m) m"

fun entry_parseSdpLine :: "string \<Rightarrow> entry \<Rightarrow> entry result" where
  "entry_parseSdpLine line (AppEntry a) = bind_result (Application_parseSdpLine line a) (\<lambda>a. Inr (AppEntry a))"
| "entry_parseSdpLine line (MediaEntry m) = bind_result (Media_parseSdpLine line m) (\<lambda>m. Inr (MediaEntry m))"

section \<open>Building a description\<close>

definition Description_init :: "Role \<Rightarrow> Description" where
  "Description_init role =
     \<lparr>de_type = Unspec, de_role = role, de_username = [], de_sessionId = [], de_iceOptions = [], de_iceUfrag = None, de_icePwd = None,
      de_fingerprint = None, de_attributes = [], de_entries = [], de_candidates = [], de_ended = False\<rparr>"

definition bundleMid :: "Description \<Rightarrow> string" where
  "bundleMid d = (case find (\<lambda>e. \<not> entry_isRemoved e) (de_entries d) of Some e \<Rightarrow> entry_mid e | None \<Rightarrow> ''0'')"

definition hintType :: "DescriptionType \<Rightarrow> Description \<Rightarrow> Description" where
  "hintType type d = (if de_type d = Unspec then d\<lparr>de_type := type\<rparr> else d)"

definition setFingerprint :: "CertificateFingerprint \<Rightarrow> Description \<Rightarrow> Description result" where
  "setFingerprint f d =
     (if \<not> fingerprint_isValid f then Inl (InvalidArgument ''Invalid fingerprint'')
      else Inr (d\<lparr>de_fingerprint := Some (f\<lparr>fp_value := map toupper (fp_value f)\<rparr>)\<rparr>))"

definition addIceOption :: "string \<Rightarrow> Description \<Rightarrow> Description" where
  "addIceOption option d = d\<lparr>de_iceOptions := add_unique option (de_iceOptions d)\<rparr>"

definition removeIceOption :: "string \<Rightarrow> Description \<Rightarrow> Description" where
  "removeIceOption option d = d\<lparr>de_iceOptions := removeAll option (de_iceOptions d)\<rparr>"

definition Description_addAttribute :: "string \<Rightarrow> Description \<Rightarrow> Description" where
  "Description_addAttribute attr d = d\<lparr>de_attributes := add_unique attr (de_attributes d)\<rparr>"

definition Description_removeAttribute :: "string \<Rightarrow> Description \<Rightarrow> Description" where
  "Description_removeAttribute attr d = d\<lparr>de_attributes := remove_attr attr (de_attributes d)\<rparr>"

definition extractCandidates :: "Description \<Rightarrow> Candidate list \<times> Description" where
  "extractCandidates d = (de_candidates d, d\<lparr>de_candidates := [], de_ended := False\<rparr>)"

definition hasCandidate :: "Candidate \<Rightarrow> Description \<Rightarrow> bool" where
  "hasCandidate candidate d \<longleftrightarrow> list_ex (\<lambda>c. Candidate_eq c candidate) (de_candidates d)"

definition addCandidate :: "Candidate \<Rightarrow> Description \<Rightarrow> Description" where
  "addCandidate candidate d =
     (let candidate = hintMid (bundleMid d) candidate
      in if \<not> hasCandidate candidate d then d\<lparr>de_candidates := de_candidates d @ [candidate]\<rparr> else d)"

definition addCandidates :: "Candidate list \<Rightarrow> Description \<Rightarrow> Description" where
  "addCandidates candidates d = fold addCandidate candidates d"

definition endCandidates :: "Description \<Rightarrow> Description" where
  "endCandidates d = d\<lparr>de_ended := True\<rparr>"

definition removeApplication :: "Description \<Rightarrow> Description" where
  "removeApplication d = d\<lparr>de_entries := filter (\<lambda>e. \<not> is_application e) (de_entries d)\<rparr>"

definition application :: "Description \<Rightarrow> Application option" where
  "application d = (case find is_application (de_entries d) of Some (AppEntry a) \<Rightarrow> Some a | _ \<Rightarrow> None)"

definition hasApplication :: "Description \<Rightarrow> bool" where
  "hasApplication d \<longleftrightarrow> (case application d of Some a \<Rightarrow> \<not> en_isRemoved a | None \<Rightarrow> False)"

definition hasAudioOrVideo :: "Description \<Rightarrow> bool" where
  "hasAudioOrVideo d \<longleftrightarrow> list_ex (\<lambda>e. \<not> is_application e \<and> \<not> entry_isRemoved e) (de_entries d)"

definition hasMid :: "string \<Rightarrow> Description \<Rightarrow> bool" where
  "hasMid mid d \<longleftrightarrow> list_ex (\<lambda>e. entry_mid e = mid) (de_entries d)"

definition addMedia :: "Media \<Rightarrow> Description \<Rightarrow> nat \<times> Description" where
  "addMedia m d = (length (de_entries d), d\<lparr>de_entries := de_entries d @ [MediaEntry m]\<rparr>)"

definition addMedia_application :: "Application \<Rightarrow> Description \<Rightarrow> nat \<times> Description" where
  "addMedia_application a d =
     (let d = removeApplication d; d = d\<lparr>de_entries := de_entries d @ [AppEntry a]\<rparr> in (length (de_entries d) - 1, d))"

definition addApplication :: "string \<Rightarrow> Description \<Rightarrow> nat \<times> Description" where
  "addApplication mid d = addMedia_application (Application_init mid) d"

definition addVideo :: "string \<Rightarrow> Direction \<Rightarrow> Description \<Rightarrow> (nat \<times> Description) result" where
  "addVideo mid dir d = bind_result (Video_init mid dir) (\<lambda>m. Inr (addMedia m d))"

definition addAudio :: "string \<Rightarrow> Direction \<Rightarrow> Description \<Rightarrow> (nat \<times> Description) result" where
  "addAudio mid dir d = bind_result (Audio_init mid dir) (\<lambda>m. Inr (addMedia m d))"

definition clearMedia :: "Description \<Rightarrow> Description" where
  "clearMedia d = d\<lparr>de_entries := []\<rparr>"

definition media :: "int \<Rightarrow> Description \<Rightarrow> entry result" where
  "media index d = (if index < 0 \<or> index \<ge> int (length (de_entries d)) then Inl OutOfRange else Inr (de_entries d ! nat index))"

definition mediaCount :: "Description \<Rightarrow> nat" where
  "mediaCount d = length (de_entries d)"

section \<open>Printing\<close>

fun default_candidate_loop :: "Candidate option \<Rightarrow> Candidate list \<Rightarrow> Candidate option" where
  "default_candidate_loop result [] = result"
| "default_candidate_loop result (c # cs) =
     default_candidate_loop
       (if cd_type c = Host then
          case result of
            None \<Rightarrow> Some c
          | Some r \<Rightarrow>
              if (cd_family r = Ipv6 \<and> cd_family c = Ipv4) \<or> (cd_family r = cd_family c \<and> cd_priority r < cd_priority c)
              then Some c else Some r
        else result) cs"

definition defaultCandidate :: "Description \<Rightarrow> Candidate option" where
  "defaultCandidate d = default_candidate_loop None (de_candidates d)"

definition default_address :: "Description \<Rightarrow> string" where
  "default_address d =
     (case defaultCandidate d of
        Some c \<Rightarrow> if isResolved c then (if cd_family c = Ipv6 then ''IP6'' else ''IP4'') @ '' '' @ cd_address c else ''IP4 0.0.0.0''
      | None \<Rightarrow> ''IP4 0.0.0.0'')"

definition default_port :: "Description \<Rightarrow> u16" where
  "default_port d = (case defaultCandidate d of Some c \<Rightarrow> if isResolved c then cd_port c else 9 | None \<Rightarrow> 9)"

definition header_lines :: "Description \<Rightarrow> string list" where
  "header_lines d = [''v=0'', ''o='' @ de_username d @ '' '' @ de_sessionId d @ '' 0 IN IP4 127.0.0.1'', ''s=-'', ''t=0 0'']"

definition group_line :: "string \<Rightarrow> entry list \<Rightarrow> string list" where
  "group_line name es =
     (let mids = concat (map (\<lambda>e. '' '' @ entry_mid e) es) in if mids \<noteq> [] then [''a=group:'' @ name @ mids] else [])"

definition fingerprint_line :: "Description \<Rightarrow> string list" where
  "fingerprint_line d =
     (case de_fingerprint d of
        Some f \<Rightarrow> [''a=fingerprint:'' @ AlgorithmIdentifier (fp_algorithm f) @ '' '' @ fp_value f]
      | None \<Rightarrow> [])"

definition ice_options_line :: "Description \<Rightarrow> string list" where
  "ice_options_line d = (if de_iceOptions d \<noteq> [] then [''a=ice-options:'' @ implode (de_iceOptions d) (CHR '','')] else [])"

definition transport_lines :: "Description \<Rightarrow> string list" where
  "transport_lines d =
     [''a=setup:'' @ role_string (de_role d)] @
     (case de_iceUfrag d of Some u \<Rightarrow> [''a=ice-ufrag:'' @ u] | None \<Rightarrow> []) @
     (case de_icePwd d of Some p \<Rightarrow> [''a=ice-pwd:'' @ p] | None \<Rightarrow> [])"

definition candidate_lines :: "Description \<Rightarrow> string list" where
  "candidate_lines d = map Candidate_string (de_candidates d) @ (if de_ended d then [''a=end-of-candidates''] else [])"

definition session_lines :: "Description \<Rightarrow> string list" where
  "session_lines d =
     group_line ''BUNDLE'' (filter (\<lambda>e. \<not> entry_isRemoved e) (de_entries d)) @
     group_line ''LS'' (filter (\<lambda>e. \<not> entry_isRemoved e \<and> \<not> is_application e) (de_entries d)) @
     [''a=msid-semantic:WMS *''] @ ice_options_line d @ fingerprint_line d @ map (\<lambda>attr. ''a='' @ attr) (de_attributes d)"

text \<open>The loop over the entries; \<open>first\<close> is still set until the candidates are printed.\<close>

fun entries_lines :: "Description \<Rightarrow> bool \<Rightarrow> entry list \<Rightarrow> string list" where
  "entries_lines d first [] = []"
| "entries_lines d first (e # es) =
     Entry_generateSdp (default_address d) (default_port d) e @ transport_lines d @
     (if \<not> entry_isRemoved e \<and> first then candidate_lines d else []) @
     entries_lines d (first \<and> entry_isRemoved e) es"

definition sdp_lines :: "Description \<Rightarrow> string list" where
  "sdp_lines d = header_lines d @ session_lines d @ entries_lines d True (de_entries d)"

definition generateSdp :: "string \<Rightarrow> Description \<Rightarrow> string" where
  "generateSdp eol d = with_eol eol (sdp_lines d)"

definition generateApplicationSdp :: "string \<Rightarrow> Description \<Rightarrow> string" where
  "generateApplicationSdp eol d =
     with_eol eol
       (header_lines d @ [''a=msid-semantic:WMS *''] @ ice_options_line d @ map (\<lambda>attr. ''a='' @ attr) (de_attributes d) @
        Entry_generateSdp (default_address d) (default_port d)
          (AppEntry (case application d of Some a \<Rightarrow> a | None \<Rightarrow> Application_init ''data'')) @
        transport_lines d @ fingerprint_line d @ candidate_lines d)"

section \<open>Parsing\<close>

definition createEntry :: "string \<Rightarrow> string \<Rightarrow> Direction \<Rightarrow> Description \<Rightarrow> Description result" where
  "createEntry mline mid dir d =
     (if before (CHR '' '') mline = ''application'' then
        let d = removeApplication d
        in bind_result (Application_of mline mid) (\<lambda>a. Inr (d\<lparr>de_entries := de_entries d @ [AppEntry a]\<rparr>))
      else bind_result (Media_of_mline mline mid dir) (\<lambda>m. Inr (d\<lparr>de_entries := de_entries d @ [MediaEntry m]\<rparr>)))"

definition algorithm_of :: "string \<Rightarrow> Algorithm option" where
  "algorithm_of first = find (\<lambda>a. first = AlgorithmIdentifier a) [Sha1, Sha224, Sha256, Sha384, Sha512]"

definition parse_fingerprint :: "string \<Rightarrow> Description \<Rightarrow> Description result" where
  "parse_fingerprint value d =
     (case explode value (CHR '' '') of
        [first, second] \<Rightarrow>
          (case algorithm_of (map tolower first) of
             Some a \<Rightarrow> setFingerprint \<lparr>fp_algorithm = a, fp_value = second\<rparr> d
           | None \<Rightarrow> Inr d)
      | _ \<Rightarrow> Inr d)"

definition parse_role :: "string \<Rightarrow> Role" where
  "parse_role value = (if value = ''active'' then Active else if value = ''passive'' then Passive else ActPass)"

definition current_parseSdpLine :: "string \<Rightarrow> Description \<Rightarrow> Description result" where
  "current_parseSdpLine line d =
     bind_result (entry_parseSdpLine line (last (de_entries d))) (\<lambda>e. Inr (d\<lparr>de_entries := butlast (de_entries d) @ [e]\<rparr>))"

definition parse_attribute :: "string \<Rightarrow> int \<times> Description \<Rightarrow> Description result" where
  "parse_attribute line s =
     (case s of (index, d) \<Rightarrow>
        let attr = drop 2 line; (key, value) = parse_pair attr
        in if key = ''setup'' then Inr (d\<lparr>de_role := parse_role value\<rparr>)
           else if key = ''fingerprint'' then
             if de_fingerprint d = None \<or> index = 0 then parse_fingerprint value d else Inr d
           else if key = ''ice-ufrag'' then
             Inr (if de_iceUfrag d = None \<or> index = 0 then d\<lparr>de_iceUfrag := Some value\<rparr> else d)
           else if key = ''ice-pwd'' then
             Inr (if de_icePwd d = None \<or> index = 0 then d\<lparr>de_icePwd := Some value\<rparr> else d)
           else if key = ''ice-options'' then
             Inr (if de_iceOptions d = [] then d\<lparr>de_iceOptions := explode value (CHR '','')\<rparr> else d)
           else if key = ''candidate'' then
             bind_result (Candidate_of attr (bundleMid d)) (\<lambda>c. Inr (addCandidate c d))
           else if key = ''end-of-candidates'' then Inr (d\<lparr>de_ended := True\<rparr>)
           else if de_entries d \<noteq> [] then current_parseSdpLine line d
           else Inr (d\<lparr>de_attributes := de_attributes d @ [attr]\<rparr>))"

text \<open>\<open>origin >> mUsername >> mSessionId\<close>: an extraction at the end of the line fails and leaves its variable as it is.\<close>

definition parse_origin :: "string \<Rightarrow> Description \<Rightarrow> Description" where
  "parse_origin origin d =
     (case next_word origin of
        None \<Rightarrow> d
      | Some (username, rest) \<Rightarrow>
          (case next_word rest of
             None \<Rightarrow> d\<lparr>de_username := username\<rparr>
           | Some (sessionId, _) \<Rightarrow> d\<lparr>de_username := username, de_sessionId := sessionId\<rparr>))"

definition parse_line :: "string \<Rightarrow> int \<times> Description \<Rightarrow> (int \<times> Description) result" where
  "parse_line line s =
     (case s of (index, d) \<Rightarrow>
        if match_prefix line ''m='' then
          bind_result (createEntry (drop 2 line) (to_string (index + 1)) Unknown d) (\<lambda>d. Inr (index + 1, d))
        else if match_prefix line ''o='' then
          Inr (index, parse_origin (drop 2 line) d)
        else if match_prefix line ''a='' then bind_result (parse_attribute line s) (\<lambda>d. Inr (index, d))
        else if de_entries d \<noteq> [] then bind_result (current_parseSdpLine line d) (\<lambda>d. Inr (index, d))
        else Inr (index, d))"

definition Description_of :: "u32 \<Rightarrow> string \<Rightarrow> DescriptionType \<Rightarrow> Role \<Rightarrow> Description result" where
  "Description_of random sdp type role =
     bind_result (fold_result parse_line (nonempty_lines (explode sdp LF)) (-1, hintType type (Description_init role))) (\<lambda>(_, d).
       let d = (if de_username d = [] then d\<lparr>de_username := ''rtc''\<rparr> else d)
       in Inr (if de_sessionId d = [] then d\<lparr>de_sessionId := nat_string (unat random)\<rparr> else d))"

definition Description_of_typed :: "u32 \<Rightarrow> string \<Rightarrow> string \<Rightarrow> Description result" where
  "Description_of_typed random sdp typeString =
     Description_of random sdp (if typeString \<noteq> [] then stringToType typeString else Unspec) ActPass"

end
