(* ===== verification/Tracks.thy ===== *)
theory Tracks
  imports MediaHandlers DataChannels Descriptions
begin

text \<open>
  Media tracks: \<open>src/impl/track.cpp\<close> and the calls of \<open>src/track.cpp\<close> that forward to it. A track is a channel whose messages
  pass through the chain of its media handlers (theory \<open>MediaHandlers\<close>) on their way to and from the SRTP transport. The field
  \<open>tk_transport\<close> says whether the weak pointer to the transport can be locked; what its \<open>sendMedia\<close> returns is the argument
  \<open>sendMedia\<close>. Callbacks and calls into the transport are appended to the trace \<open>tk_events\<close>. The messages that a chain of handlers
  sends by itself are sent when the chain has run; the code sends them from within the handlers, in the same order. An exception of a handler or of a
  send ends the operation.
\<close>

section \<open>Data\<close>

datatype track_event =
    TkOpen
  | TkClosed
  | TkError string
  | TkAvailable
  | TkMessage message_variant
  | TkFrame binary FrameInfo
  | TkSent Message

text \<open>A track that only sends starts with a callback that discards messages.\<close>

datatype track_callback = NoCallback | Discard | Callback

record Track =
  tk_description :: Media
  tk_handlers :: "MediaHandler list"
  tk_transport :: bool
  tk_isClosed :: bool
  tk_recvQueue :: "Message Queue"
  tk_openTriggered :: bool
  tk_messageCallback :: track_callback
  tk_frameCallback :: bool
  tk_events :: "track_event list"

definition tk_emit :: "track_event \<Rightarrow> Track \<Rightarrow> Track" where
  "tk_emit e t = t\<lparr>tk_events := tk_events t @ [e]\<rparr>"

definition Track_init :: "Media \<Rightarrow> Track" where
  "Track_init desc =
     \<lparr>tk_description = desc, tk_handlers = [], tk_transport = False, tk_isClosed = False,
      tk_recvQueue = Queue_init RECV_QUEUE_LIMIT (Some (\<lambda>m. of_nat (length (msg_data m)))), tk_openTriggered = False,
      tk_messageCallback = (if en_direction desc = SendOnly then Discard else NoCallback), tk_frameCallback = False, tk_events = []\<rparr>"

section \<open>State\<close>

definition Track_mid :: "Track \<Rightarrow> string" where
  "Track_mid t = en_mid (tk_description t)"

definition Track_setDescription :: "Media \<Rightarrow> Track \<Rightarrow> unit result \<times> Track" where
  "Track_setDescription desc t =
     (if en_mid desc \<noteq> en_mid (tk_description t) then (Inl (LogicError ''Media description mid does not match track mid''), t)
      else (Inr (), t\<lparr>tk_description := desc\<rparr>))"

definition Track_setMediaHandler :: "MediaHandler list \<Rightarrow> Track \<Rightarrow> Track" where
  "Track_setMediaHandler handlers t = t\<lparr>tk_handlers := handlers\<rparr>"

definition chainMediaHandler :: "MediaHandler \<Rightarrow> Track \<Rightarrow> Track" where
  "chainMediaHandler handler t =
     (if tk_handlers t \<noteq> [] then t\<lparr>tk_handlers := addToChain handler (tk_handlers t)\<rparr> else Track_setMediaHandler [handler] t)"

definition Track_resetCallbacks :: "Track \<Rightarrow> Track" where
  "Track_resetCallbacks t = t\<lparr>tk_openTriggered := False, tk_messageCallback := NoCallback\<rparr>"

definition Track_close :: "Track \<Rightarrow> Track" where
  "Track_close t =
     (let t = (if \<not> tk_isClosed t then tk_emit TkClosed (t\<lparr>tk_isClosed := True\<rparr>) else t)
      in Track_resetCallbacks (Track_setMediaHandler [] t))"

definition Track_isOpen :: "Track \<Rightarrow> bool" where
  "Track_isOpen t \<longleftrightarrow> \<not> tk_isClosed t \<and> tk_transport t"

definition DEFAULT_MTU :: u64 where "DEFAULT_MTU = 1280"

definition Track_maxMessageSize :: "u64 option \<Rightarrow> u64" where
  "Track_maxMessageSize mtu = (case mtu of Some n \<Rightarrow> n | None \<Rightarrow> DEFAULT_MTU) - 12 - 8 - 40"

section \<open>Receiving\<close>

definition Track_receive :: "Track \<Rightarrow> message_variant option \<times> Track" where
  "Track_receive t = (case Queue_pop (tk_recvQueue t) of (next, q) \<Rightarrow> (map_option to_variant next, t\<lparr>tk_recvQueue := q\<rparr>))"

definition Track_peek :: "Track \<Rightarrow> message_variant option" where
  "Track_peek t = map_option to_variant (Queue_peek (tk_recvQueue t))"

definition Track_availableAmount :: "Track \<Rightarrow> u64" where
  "Track_availableAmount t = Queue_amount (tk_recvQueue t)"

text \<open>A frame goes to the callback for frames, any other message to the callback for messages; without that callback it is lost.\<close>

definition deliver_message :: "Message \<Rightarrow> Track \<Rightarrow> Track" where
  "deliver_message m t =
     (case msg_frameInfo m of
        Some fi \<Rightarrow> if tk_frameCallback t then tk_emit (TkFrame (msg_data m) fi) t else t
      | None \<Rightarrow> if tk_messageCallback t = Callback then tk_emit (TkMessage (to_variant m)) t else t)"

function track_flush_loop :: "Track \<Rightarrow> Track" where
  "track_flush_loop t =
     (if tk_messageCallback t \<noteq> NoCallback \<or> tk_frameCallback t then
        case Queue_pop (tk_recvQueue t) of
          (None, q) \<Rightarrow> t
        | (Some m, q) \<Rightarrow> track_flush_loop (deliver_message m (t\<lparr>tk_recvQueue := q\<rparr>))
      else t)"
  by pat_completeness auto
termination
proof (relation "measure (\<lambda>t. length (mQueue (tk_recvQueue t)))")
  fix t :: Track and x q m
  assume "(x, q) = Queue_pop (tk_recvQueue t)" "x = Some m"
  then have "length (mQueue q) < length (mQueue (tk_recvQueue t))" by (auto simp: Queue_pop_def split: list.splits)
  then show "(deliver_message m (t\<lparr>tk_recvQueue := q\<rparr>), t) \<in> measure (\<lambda>t. length (mQueue (tk_recvQueue t)))"
    by (simp add: deliver_message_def tk_emit_def split: option.splits)
qed simp

declare track_flush_loop.simps [simp del]

definition Track_flushPendingMessages :: "Track \<Rightarrow> Track" where
  "Track_flushPendingMessages t = (if \<not> tk_openTriggered t then t else track_flush_loop t)"

definition Track_triggerOpen :: "Track \<Rightarrow> Track" where
  "Track_triggerOpen t = Track_flushPendingMessages (tk_emit TkOpen (t\<lparr>tk_openTriggered := True\<rparr>))"

definition Track_triggerAvailable :: "nat \<Rightarrow> Track \<Rightarrow> Track" where
  "Track_triggerAvailable count t = Track_flushPendingMessages (if count = 1 then tk_emit TkAvailable t else t)"

definition onFrame :: "bool \<Rightarrow> Track \<Rightarrow> Track" where
  "onFrame callback t = Track_flushPendingMessages (t\<lparr>tk_frameCallback := callback\<rparr>)"

definition Track_onMessage :: "bool \<Rightarrow> Track \<Rightarrow> Track" where
  "Track_onMessage callback t = Track_flushPendingMessages (t\<lparr>tk_messageCallback := if callback then Callback else NoCallback\<rparr>)"

definition Track_open :: "Track \<Rightarrow> Track" where
  "Track_open t =
     (let t = t\<lparr>tk_transport := True\<rparr> in if \<not> tk_isClosed t then Track_triggerOpen t else t)"

section \<open>Sending\<close>

definition transportSend :: "(Message \<Rightarrow> bool) \<Rightarrow> Message \<Rightarrow> Track \<Rightarrow> bool result \<times> Track" where
  "transportSend sendMedia message t =
     (if \<not> tk_transport t then (Inl (RuntimeError ''Track is not open''), t)
      else let message = message\<lparr>msg_dscp := if en_type (tk_description t) = ''audio'' then 46 else 36\<rparr>
           in (Inr (sendMedia message), tk_emit (TkSent message) t))"

text \<open>The result of the last send, \<open>False\<close> when there is none.\<close>

fun transport_send_all :: "(Message \<Rightarrow> bool) \<Rightarrow> bool \<Rightarrow> Message list \<Rightarrow> Track \<Rightarrow> bool result \<times> Track" where
  "transport_send_all sendMedia ret [] t = (Inr ret, t)"
| "transport_send_all sendMedia ret (m # ms) t =
     (case transportSend sendMedia m t of
        (Inl e, t) \<Rightarrow> (Inl e, t)
      | (Inr ret, t) \<Rightarrow> transport_send_all sendMedia ret ms t)"

text \<open>The queue is not full when a message is pushed, so the push does not block.\<close>

fun enqueue_incoming :: "Message list \<Rightarrow> Track \<Rightarrow> Track" where
  "enqueue_incoming [] t = t"
| "enqueue_incoming (m # ms) t =
     (if Queue_full (tk_recvQueue t) then t
      else case Queue_push m (tk_recvQueue t) of
             None \<Rightarrow> t
           | Some q \<Rightarrow> enqueue_incoming ms (Track_triggerAvailable (Queue_size q) (t\<lparr>tk_recvQueue := q\<rparr>)))"

definition Track_incoming :: "(Message \<Rightarrow> bool) \<Rightarrow> Message option \<Rightarrow> Track \<Rightarrow> Track" where
  "Track_incoming sendMedia message t =
     (case message of
        None \<Rightarrow> t
      | Some message \<Rightarrow>
          let dir = en_direction (tk_description t)
          in if (dir = SendOnly \<or> dir = Inactive) \<and> msg_type message \<noteq> Control then t
             else if tk_handlers t = [] then enqueue_incoming [message] t
             else case incomingChain (tk_handlers t) [message] of
                    (Inl e, hs) \<Rightarrow> t\<lparr>tk_handlers := hs\<rparr>
                  | (Inr (messages, sent), hs) \<Rightarrow>
                      (case transport_send_all sendMedia False sent (t\<lparr>tk_handlers := hs\<rparr>) of
                         (Inl e, t) \<Rightarrow> t
                       | (Inr _, t) \<Rightarrow> enqueue_incoming messages t))"

text \<open>\<open>None\<close>: a handler does not end.\<close>

definition Track_outgoing :: "u64 \<Rightarrow> (Message \<Rightarrow> bool) \<Rightarrow> Message \<Rightarrow> Track \<Rightarrow> (bool result \<times> Track) option" where
  "Track_outgoing ntp_time sendMedia message t =
     (if tk_isClosed t then Some (Inl (RuntimeError ''Track is closed''), t)
      else
        let message = (if tk_handlers t = [] \<and> IsRtcp (msg_data message) then message\<lparr>msg_type := Control\<rparr> else message);
            dir = en_direction (tk_description t)
        in if (dir = RecvOnly \<or> dir = Inactive) \<and> msg_type message \<noteq> Control then Some (Inr False, t)
           else if tk_handlers t = [] then Some (transportSend sendMedia message t)
           else case outgoingChain ntp_time (tk_handlers t) [message] of
                  None \<Rightarrow> None
                | Some (Inl e, hs) \<Rightarrow> Some (Inl e, t\<lparr>tk_handlers := hs\<rparr>)
                | Some (Inr (messages, sent), hs) \<Rightarrow>
                    Some (case transport_send_all sendMedia False sent (t\<lparr>tk_handlers := hs\<rparr>) of
                            (Inl e, t) \<Rightarrow> (Inl e, t)
                          | (Inr _, t) \<Rightarrow> transport_send_all sendMedia False messages t))"

definition Track_send :: "u64 \<Rightarrow> (Message \<Rightarrow> bool) \<Rightarrow> message_variant \<Rightarrow> Track \<Rightarrow> (bool result \<times> Track) option" where
  "Track_send ntp_time sendMedia data t = Track_outgoing ntp_time sendMedia (make_message_variant data) t"

definition Track_requestKeyframe :: "(Message \<Rightarrow> bool) \<Rightarrow> Track \<Rightarrow> bool result \<times> Track" where
  "Track_requestKeyframe sendMedia t =
     (if en_type (tk_description t) = ''video'' \<and> tk_handlers t \<noteq> [] then
        case requestKeyframe (tk_handlers t) of
          (b, sent) \<Rightarrow> (case transport_send_all sendMedia False sent t of (Inl e, t) \<Rightarrow> (Inl e, t) | (Inr _, t) \<Rightarrow> (Inr b, t))
      else (Inr False, t))"

definition Track_requestBitrate :: "(Message \<Rightarrow> bool) \<Rightarrow> u32 \<Rightarrow> Track \<Rightarrow> bool result \<times> Track" where
  "Track_requestBitrate sendMedia bitrate t =
     (if tk_handlers t \<noteq> [] then
        case requestBitrate bitrate (tk_handlers t) of
          (b, sent, hs) \<Rightarrow>
            (case transport_send_all sendMedia False sent (t\<lparr>tk_handlers := hs\<rparr>) of
               (Inl e, t) \<Rightarrow> (Inl e, t)
             | (Inr _, t) \<Rightarrow> (Inr b, t))
      else (Inr False, t))"

end
