(* ===== verification/Negotiation.thy ===== *)
theory Negotiation
  imports Sessions PeerChannels Tracks
begin

text \<open>
  The negotiation of a peer connection: the parts of \<open>src/peerconnection.cpp\<close> and \<open>src/impl/peerconnection.cpp\<close> that
  handle descriptions, candidates, tracks and the states of the connection, and \<open>src/impl/icetransport.cpp\<close> (with libjuice) as
  far as they use it. The data channels of the connection are the record of the theory \<open>PeerChannels\<close>, the tracks those of the theory
  \<open>Tracks\<close>; a weak pointer to a track is a number, and a track that was destroyed has no object. What the library libjuice, the
  resolver, the random generator and the certificate give is the record \<open>environment\<close>. What is queued for the processor of
  the connection, callbacks and calls into the ICE agent are appended to the trace \<open>pn_events\<close>. An operation that raises returns
  \<open>Inl\<close> with the state it leaves behind. The callback for tracks is known by what it makes of the description of the track. The code is modelled
  as compiled with media support.
\<close>

section \<open>Data\<close>

datatype PeerState = PsNew | PsConnecting | PsConnected | PsDisconnected | PsFailed | PsClosed
datatype IceState = IsNew | IsChecking | IsConnected | IsCompleted | IsFailed | IsDisconnected | IsClosed
datatype GatheringState = GsNew | GsInProgress | GsComplete
datatype SignalingState = Stable | HaveLocalOffer | HaveRemoteOffer | HaveLocalPranswer | HaveRemotePranswer

record environment =
  env_createAgent :: bool
  env_setAttributes :: "string \<Rightarrow> string \<Rightarrow> bool"
  env_localDescription :: "string option"
  env_setRemoteDescription :: "string \<Rightarrow> bool"
  env_gather :: bool
  env_random :: u32
  env_getaddrinfo :: resolver
  env_fingerprint :: CertificateFingerprint

record IceTransport =
  ice_role :: Role
  ice_mid :: string
  ice_gatheringState :: GatheringState

datatype peer_event =
    PnState PeerState
  | PnIceState IceState
  | PnGatheringState GatheringState
  | PnSignalingState SignalingState
  | PnLocalDescription Description
  | PnLocalCandidate Candidate
  | PnTrack nat
  | PnOpenTracks
  | PnOpenDataChannels
  | PnInitSctp
  | PnRemoteCloseDataChannels
  | PnCloseDataChannels
  | PnCloseTracks
  | PnStopSctp
  | PnInitDtls
  | PnRemoteClose
  | PnAddRemoteCandidate Candidate
  | PnLookup Candidate

record Configuration =
  cf_disableAutoNegotiation :: bool
  cf_disableAutoGathering :: bool
  cf_relayOnly :: bool
  cf_maxMessageSize :: "u64 option"

record Peer =
  pn_config :: Configuration
  pn_state :: PeerState
  pn_iceState :: IceState
  pn_gatheringState :: GatheringState
  pn_signalingState :: SignalingState
  pn_closing :: bool
  pn_ice :: "IceTransport option"
  pn_dtlsConnected :: bool
  pn_localDescription :: "Description option"
  pn_currentLocalDescription :: "Description option"
  pn_remoteDescription :: "Description option"
  pn_channels :: PeerConnection
  pn_tracks :: "(string \<times> nat) list"
  pn_trackLines :: "nat list"
  pn_trackObjects :: "nat \<rightharpoonup> Track"
  pn_nextTrack :: nat
  pn_tracksBySsrc :: "u32 \<rightharpoonup> nat"
  pn_trackCallback :: "(Media \<Rightarrow> Media) option"
  pn_pendingTracks :: "nat list"
  pn_events :: "peer_event list"

definition pn_emit :: "peer_event \<Rightarrow> Peer \<Rightarrow> Peer" where
  "pn_emit e p = p\<lparr>pn_events := pn_events p @ [e]\<rparr>"

definition bind_state :: "'a result \<times> 's \<Rightarrow> ('a \<Rightarrow> 's \<Rightarrow> 'b result \<times> 's) \<Rightarrow> 'b result \<times> 's" where
  "bind_state r f = (case r of (Inl e, s) \<Rightarrow> (Inl e, s) | (Inr x, s) \<Rightarrow> f x s)"

lemma bind_state_simps [simp]: "bind_state (Inl e, s) f = (Inl e, s)" "bind_state (Inr x, s) f = f x s"
  by (simp_all add: bind_state_def)

section \<open>States\<close>

definition changeState_pc :: "PeerState \<Rightarrow> Peer \<Rightarrow> bool \<times> Peer" where
  "changeState_pc newState p =
     (if pn_state p = PsClosed \<or> pn_state p = newState then (False, p) else (True, pn_emit (PnState newState) (p\<lparr>pn_state := newState\<rparr>)))"

definition changeIceState :: "IceState \<Rightarrow> Peer \<Rightarrow> Peer" where
  "changeIceState newState p =
     (if pn_iceState p = newState then p else pn_emit (PnIceState newState) (p\<lparr>pn_iceState := newState\<rparr>))"

definition changeGatheringState :: "GatheringState \<Rightarrow> Peer \<Rightarrow> Peer" where
  "changeGatheringState newState p =
     (if pn_gatheringState p = newState then p else pn_emit (PnGatheringState newState) (p\<lparr>pn_gatheringState := newState\<rparr>))"

definition changeSignalingState :: "SignalingState \<Rightarrow> Peer \<Rightarrow> Peer" where
  "changeSignalingState newState p =
     (if pn_signalingState p = newState then p else pn_emit (PnSignalingState newState) (p\<lparr>pn_signalingState := newState\<rparr>))"

section \<open>Sizes and descriptions\<close>

definition DEFAULT_SCTP_PORT :: u16 where "DEFAULT_SCTP_PORT = 5000"

definition localMaxMessageSize :: "Peer \<Rightarrow> u64" where
  "localMaxMessageSize p = (case cf_maxMessageSize (pn_config p) of Some n \<Rightarrow> n | None \<Rightarrow> of_nat DEFAULT_LOCAL_MAX_MESSAGE_SIZE)"

definition remoteMaxMessageSize :: "Peer \<Rightarrow> u64" where
  "remoteMaxMessageSize p =
     (let remoteMax =
        (case Option.bind (Option.bind (pn_remoteDescription p) application) ap_maxMessageSize of
           Some n \<Rightarrow> if n > 0 then n else - 1
         | None \<Rightarrow> of_nat DEFAULT_REMOTE_MAX_MESSAGE_SIZE)
      in min remoteMax (localMaxMessageSize p))"

text \<open>The role of the ICE transport and the limit for messages, as the data channels see them.\<close>

definition sync_channels :: "Peer \<Rightarrow> Peer" where
  "sync_channels p = p\<lparr>pn_channels := (pn_channels p)\<lparr>pc_iceRole := map_option ice_role (pn_ice p),
     pc_remoteMaxMessageSize := unat (remoteMaxMessageSize p)\<rparr>\<rparr>"

definition has_channels :: "Peer \<Rightarrow> bool" where
  "has_channels p \<longleftrightarrow> pc_dataChannels (pn_channels p) \<noteq> [] \<or> pc_unassigned (pn_channels p) \<noteq> []"

definition rollbackLocalDescription :: "Peer \<Rightarrow> Peer" where
  "rollbackLocalDescription p =
     (case pn_currentLocalDescription p of
        None \<Rightarrow> p
      | Some d \<Rightarrow>
          let existing = (case pn_localDescription p of Some l \<Rightarrow> de_candidates l | None \<Rightarrow> [])
          in p\<lparr>pn_localDescription := Some (addCandidates existing d), pn_currentLocalDescription := None\<rparr>)"

definition endLocalCandidates :: "Peer \<Rightarrow> Peer" where
  "endLocalCandidates p = p\<lparr>pn_localDescription := map_option endCandidates (pn_localDescription p)\<rparr>"

definition localBundleMid :: "Peer \<Rightarrow> string" where
  "localBundleMid p = (case pn_localDescription p of Some d \<Rightarrow> bundleMid d | None \<Rightarrow> ''0'')"

definition validateRemoteDescription :: "Description \<Rightarrow> unit result" where
  "validateRemoteDescription d =
     (if de_iceUfrag d = None then Inl (InvalidArgument ''Remote description has no ICE user fragment'')
      else if de_icePwd d = None then Inl (InvalidArgument ''Remote description has no ICE password'')
      else if de_fingerprint d = None then Inl (InvalidArgument ''Remote description has no valid fingerprint'')
      else if mediaCount d = 0 then Inl (InvalidArgument ''Remote description has no media line'')
      else if \<not> list_ex (\<lambda>e. case e of AppEntry a \<Rightarrow> \<not> en_isRemoved a | MediaEntry m \<Rightarrow> \<not> en_isRemoved m \<or> en_direction m \<noteq> Inactive) (de_entries d)
      then Inl (InvalidArgument ''Remote description has no active media'')
      else Inr ())"

section \<open>The ICE transport\<close>

definition IceTransport_init :: IceTransport where
  "IceTransport_init = \<lparr>ice_role = ActPass, ice_mid = ''0'', ice_gatheringState = GsNew\<rparr>"

definition set_ice :: "IceTransport \<Rightarrow> Peer \<Rightarrow> Peer" where
  "set_ice ice p = sync_channels (p\<lparr>pn_ice := Some ice\<rparr>)"

text \<open>\<open>Inr False\<close>: the connection is closed, there is no transport.\<close>

definition initIceTransport :: "environment \<Rightarrow> Peer \<Rightarrow> bool result \<times> Peer" where
  "initIceTransport env p =
     (if pn_ice p \<noteq> None then (Inr True, p)
      else if \<not> env_createAgent env then (Inl (RuntimeError ''ICE transport initialization failed''), snd (changeState_pc PsFailed p))
      else if pn_closing p \<or> pn_state p = PsClosed then (Inr False, p)
      else (Inr True, set_ice IceTransport_init p))"

definition getLocalDescription :: "environment \<Rightarrow> DescriptionType \<Rightarrow> IceTransport \<Rightarrow> Description result" where
  "getLocalDescription env type ice =
     (case env_localDescription env of
        None \<Rightarrow> Inl (RuntimeError ''Failed to generate local SDP'')
      | Some sdp \<Rightarrow>
          bind_result (Description_of (env_random env) sdp type (if type = Offer then ActPass else ice_role ice)) (\<lambda>d. Inr (addIceOption ''trickle'' d)))"

definition ice_setRemoteDescription :: "environment \<Rightarrow> Description \<Rightarrow> IceTransport \<Rightarrow> unit result \<times> IceTransport" where
  "ice_setRemoteDescription env d ice =
     (if de_type d = Answer \<and> de_role d = ActPass then (Inl (InvalidArgument ''Illegal role actpass in remote answer description''), ice)
      else
        let ice = (if ice_role ice = ActPass then ice\<lparr>ice_role := if de_role d = Active then Passive else Active\<rparr> else ice)
        in if ice_role ice = de_role d then (Inl (InvalidArgument ''Incompatible roles with remote description''), ice)
           else
             let ice = ice\<lparr>ice_mid := bundleMid d\<rparr>
             in if \<not> env_setRemoteDescription env (generateApplicationSdp [CR, LF] d)
                then (Inl (InvalidArgument ''Invalid ICE settings from remote SDP''), ice) else (Inr (), ice))"

definition ice_gatherLocalCandidates :: "environment \<Rightarrow> string \<Rightarrow> Peer \<Rightarrow> unit result \<times> Peer" where
  "ice_gatherLocalCandidates env mid p =
     (case pn_ice p of
        None \<Rightarrow> (Inr (), p)
      | Some ice \<Rightarrow>
          let p = (if ice_gatheringState ice \<noteq> GsInProgress then changeGatheringState GsInProgress p else p);
              p = set_ice (ice\<lparr>ice_mid := mid, ice_gatheringState := GsInProgress\<rparr>) p
          in (if env_gather env then Inr () else Inl (RuntimeError ''Failed to gather local ICE candidates''), p))"

section \<open>Tracks\<close>

definition new_track :: "Media \<Rightarrow> Peer \<Rightarrow> nat \<times> Peer" where
  "new_track m p =
     (let n = pn_nextTrack p
      in (n, p\<lparr>pn_trackObjects := (pn_trackObjects p)(n \<mapsto> Track_init m), pn_nextTrack := n + 1,
               pn_tracks := (if map_of (pn_tracks p) (en_mid m) = None then pn_tracks p @ [(en_mid m, n)] else pn_tracks p),
               pn_trackLines := pn_trackLines p @ [n]\<rparr>))"

definition update_track :: "nat \<Rightarrow> (Track \<Rightarrow> Track) \<Rightarrow> Peer \<Rightarrow> Peer" where
  "update_track n f p = p\<lparr>pn_trackObjects := (pn_trackObjects p)(n := map_option f (pn_trackObjects p n))\<rparr>"

definition close_if_removed :: "nat \<Rightarrow> Peer \<Rightarrow> Peer" where
  "close_if_removed n p = update_track n (\<lambda>t. if en_isRemoved (tk_description t) then Track_close t else t) p"

definition emplaceTrack :: "Media \<Rightarrow> Peer \<Rightarrow> nat result \<times> Peer" where
  "emplaceTrack m p =
     (case map_of (pn_tracks p) (en_mid m) of
        Some n \<Rightarrow>
          (case pn_trackObjects p n of
             Some t \<Rightarrow>
               if \<not> tk_isClosed t then
                 (case Track_setDescription m t of
                    (Inl e, t) \<Rightarrow> (Inl e, p)
                  | (Inr _, t) \<Rightarrow> (Inr n, close_if_removed n (update_track n (\<lambda>_. t) p)))
               else (case new_track m p of (n, p) \<Rightarrow> (Inr n, close_if_removed n p))
           | None \<Rightarrow> (case new_track m p of (n, p) \<Rightarrow> (Inr n, close_if_removed n p)))
      | None \<Rightarrow> (case new_track m p of (n, p) \<Rightarrow> (Inr n, close_if_removed n p)))"

definition destroyTrack :: "nat \<Rightarrow> Peer \<Rightarrow> Peer" where
  "destroyTrack n p = p\<lparr>pn_trackObjects := (pn_trackObjects p)(n := None)\<rparr>"

text \<open>The callback changes the description through \<open>setDescription\<close>, which refuses another identifier.\<close>

definition announce_track :: "(Media \<Rightarrow> Media) \<Rightarrow> nat \<Rightarrow> Peer \<Rightarrow> Peer" where
  "announce_track callback n p =
     pn_emit (PnTrack n) (update_track n (\<lambda>t. snd (Track_setDescription (callback (tk_description t)) t)) p)"

definition triggerPendingTracks :: "Peer \<Rightarrow> Peer" where
  "triggerPendingTracks p =
     (case pn_trackCallback p of
        None \<Rightarrow> p
      | Some callback \<Rightarrow> fold (announce_track callback) (pn_pendingTracks p) (p\<lparr>pn_pendingTracks := []\<rparr>))"

definition triggerTrack :: "nat \<Rightarrow> Peer \<Rightarrow> Peer" where
  "triggerTrack n p =
     (let p = update_track n (\<lambda>t. t\<lparr>tk_openTriggered := False\<rparr>) p
      in triggerPendingTracks (p\<lparr>pn_pendingTracks := pn_pendingTracks p @ [n]\<rparr>))"

definition onTrack :: "(Media \<Rightarrow> Media) option \<Rightarrow> Peer \<Rightarrow> Peer" where
  "onTrack callback p = triggerPendingTracks (p\<lparr>pn_trackCallback := callback\<rparr>)"

definition live_track :: "string \<Rightarrow> Peer \<Rightarrow> nat option" where
  "live_track mid p =
     (case map_of (pn_tracks p) mid of Some n \<Rightarrow> (if pn_trackObjects p n \<noteq> None then Some n else None) | None \<Rightarrow> None)"

definition cache_entry :: "entry \<Rightarrow> Peer \<Rightarrow> Peer" where
  "cache_entry e p =
     (case e of
        AppEntry a \<Rightarrow> p
      | MediaEntry m \<Rightarrow>
          (case live_track (en_mid m) p of
             None \<Rightarrow> p
           | Some n \<Rightarrow> p\<lparr>pn_tracksBySsrc := fold (\<lambda>ssrc c. c(ssrc \<mapsto> n)) (md_ssrcs m) (pn_tracksBySsrc p)\<rparr>))"

definition updateTrackSsrcCache :: "Description \<Rightarrow> Peer \<Rightarrow> Peer" where
  "updateTrackSsrcCache d p = fold cache_entry (de_entries d) p"

section \<open>The local description\<close>

definition local_application :: "Application \<Rightarrow> Peer \<Rightarrow> Application" where
  "local_application a p = setMaxMessageSize (localMaxMessageSize p) (setSctpPort DEFAULT_SCTP_PORT a)"

definition reciprocate_entry :: "entry \<Rightarrow> Description \<times> Peer \<Rightarrow> Description \<times> Peer" where
  "reciprocate_entry e s =
     (case s of (d, p) \<Rightarrow>
        case e of
          AppEntry remoteApp \<Rightarrow>
            if has_channels p then (snd (addMedia_application (local_application (Application_init (en_mid remoteApp)) p) d), p)
            else (snd (addMedia_application (setMaxMessageSize (localMaxMessageSize p) (hintSctpPort DEFAULT_SCTP_PORT (Application_reciprocate remoteApp))) d), p)
        | MediaEntry remoteMedia \<Rightarrow>
            (case map_of (pn_tracks p) (en_mid remoteMedia) of
               Some n \<Rightarrow>
                 (case pn_trackObjects p n of
                    Some t \<Rightarrow> (snd (addMedia (tk_description t) d), p)
                  | None \<Rightarrow> (snd (addMedia (markRemoved (Media_reciprocate remoteMedia)) d), p))
             | None \<Rightarrow>
                 (case new_track (Media_reciprocate remoteMedia) p of (n, p) \<Rightarrow>
                    let p = close_if_removed n (triggerTrack n p)
                    in (case pn_trackObjects p n of
                          Some t \<Rightarrow> (snd (addMedia (tk_description t) d), p)
                        | None \<Rightarrow> (d, p)))))"

text \<open>The loop that looks for an identifier no entry has; \<open>k\<close> bounds its iterations.\<close>

fun free_mid :: "nat \<Rightarrow> nat \<Rightarrow> Description \<Rightarrow> nat" where
  "free_mid 0 m d = m"
| "free_mid (Suc k) m d = (if hasMid (nat_string m) d then free_mid k (m + 1) d else m)"

definition add_local_track :: "Peer \<Rightarrow> nat \<Rightarrow> Description \<Rightarrow> Description" where
  "add_local_track p n d =
     (case pn_trackObjects p n of
        None \<Rightarrow> d
      | Some t \<Rightarrow> if hasMid (Track_mid t) d then d else snd (addMedia (tk_description t) d))"

definition add_local_media :: "Peer \<Rightarrow> Description \<Rightarrow> Description result" where
  "add_local_media p d =
     (let d = fold (add_local_track p) (pn_trackLines p) d;
          d = (if \<not> hasApplication d \<and> has_channels p
               then snd (addMedia_application (local_application (Application_init (nat_string (free_mid (mediaCount d) 0 d))) p) d) else d)
      in if mediaCount d = 0 then Inl (RuntimeError ''No DataChannel or Track to negotiate'') else Inr d)"

definition set_as_local :: "Description \<Rightarrow> Peer \<Rightarrow> Peer" where
  "set_as_local d p =
     (case pn_localDescription p of
        Some l \<Rightarrow>
          (case extractCandidates l of (existing, l) \<Rightarrow>
             p\<lparr>pn_localDescription := Some (addCandidates existing d), pn_currentLocalDescription := Some l\<rparr>)
      | None \<Rightarrow> p\<lparr>pn_localDescription := Some d\<rparr>)"

definition processLocalDescription :: "environment \<Rightarrow> Description \<Rightarrow> Peer \<Rightarrow> unit result \<times> Peer" where
  "processLocalDescription env d p =
     (let d = clearMedia d;
          (d, p) = (case pn_remoteDescription p of
                      Some remote \<Rightarrow>
                        (case fold reciprocate_entry (de_entries remote) (d, p) of (d, p) \<Rightarrow> (d, updateTrackSsrcCache remote p))
                    | None \<Rightarrow> (d, p))
      in bind_state (if de_type d = Offer then add_local_media p d else Inr d, p) (\<lambda>d p.
         bind_state (setFingerprint (env_fingerprint env) d, p) (\<lambda>d p.
           if mediaCount d = 0 then (Inl (LogicError ''Local description has no media line''), p)
           else
             let p = pn_emit (PnLocalDescription d) (set_as_local d (updateTrackSsrcCache d p))
             in (Inr (), if pn_dtlsConnected p then pn_emit PnOpenTracks p else p))))"

definition negotiationNeeded :: "Peer \<Rightarrow> bool" where
  "negotiationNeeded p \<longleftrightarrow>
     (has_channels p \<and> (case pn_localDescription p of None \<Rightarrow> True | Some d \<Rightarrow> \<not> hasApplication d)) \<or>
     list_ex (\<lambda>(mid, n). case pn_trackObjects p n of
                None \<Rightarrow> False
              | Some t \<Rightarrow> (case pn_localDescription p of None \<Rightarrow> True | Some d \<Rightarrow> \<not> hasMid (Track_mid t) d)) (pn_tracks p) \<or>
     (case pn_localDescription p of
        None \<Rightarrow> False
      | Some d \<Rightarrow> list_ex (\<lambda>e. case e of
            AppEntry a \<Rightarrow> False
          | MediaEntry m \<Rightarrow> \<not> en_isRemoved m \<and>
              (case map_of (pn_tracks p) (en_mid m) of
                 None \<Rightarrow> False
               | Some n \<Rightarrow> (case pn_trackObjects p n of None \<Rightarrow> True | Some t \<Rightarrow> tk_isClosed t))) (de_entries d))"

definition processLocalCandidate :: "environment \<Rightarrow> Candidate \<Rightarrow> Peer \<Rightarrow> unit result \<times> Peer" where
  "processLocalCandidate env candidate p =
     (case pn_localDescription p of
        None \<Rightarrow> (Inl (LogicError ''Got a local candidate without local description''), p)
      | Some d \<Rightarrow>
          if cf_relayOnly (pn_config p) \<and> cd_type candidate \<noteq> Relayed then (Inr (), p)
          else
            let candidate = snd (Candidate_resolve (env_getaddrinfo env) Simple candidate)
            in (Inr (), pn_emit (PnLocalCandidate candidate) (p\<lparr>pn_localDescription := Some (addCandidate candidate d)\<rparr>)))"

section \<open>The remote description\<close>

definition processRemoteDescription :: "Description \<Rightarrow> Peer \<Rightarrow> Peer" where
  "processRemoteDescription d p =
     (let p = updateTrackSsrcCache d p;
          existing = (case pn_remoteDescription p of Some r \<Rightarrow> de_candidates r | None \<Rightarrow> []);
          p = sync_channels (p\<lparr>pn_remoteDescription := Some (addCandidates existing d)\<rparr>);
          p = (if hasApplication d then
                 if pc_sctp (pn_channels p) = None \<and> pn_dtlsConnected p then pn_emit PnInitSctp p else p
               else pn_emit PnRemoteCloseDataChannels p)
      in if pn_dtlsConnected p then pn_emit PnOpenTracks p else p)"

definition processRemoteCandidate :: "environment \<Rightarrow> Candidate \<Rightarrow> Peer \<Rightarrow> unit result \<times> Peer" where
  "processRemoteCandidate env candidate p =
     (case pn_remoteDescription p of
        None \<Rightarrow> (Inl (LogicError ''Got a remote candidate without remote description''), p)
      | Some d \<Rightarrow>
          if pn_ice p = None then (Inl (LogicError ''Got a remote candidate without ICE transport''), p)
          else
            let candidate = hintMid (bundleMid d) candidate
            in if hasCandidate candidate d then (Inr (), p)
               else
                 let candidate = snd (Candidate_resolve (env_getaddrinfo env) Simple candidate);
                     p = p\<lparr>pn_remoteDescription := Some (addCandidate candidate d)\<rparr>
                 in (Inr (), pn_emit (if isResolved candidate then PnAddRemoteCandidate candidate else PnLookup candidate) p))"

fun addRemoteCandidates :: "environment \<Rightarrow> Candidate list \<Rightarrow> Peer \<Rightarrow> unit result \<times> Peer" where
  "addRemoteCandidates env [] p = (Inr (), p)"
| "addRemoteCandidates env (c # cs) p = bind_state (processRemoteCandidate env c p) (\<lambda>_. addRemoteCandidates env cs)"

section \<open>Signaling\<close>

text \<open>\<open>Inr None\<close>: the description is ignored with a warning.\<close>

definition local_transition :: "SignalingState \<Rightarrow> DescriptionType \<Rightarrow> SignalingState option result" where
  "local_transition state type =
     (case state of
        Stable \<Rightarrow> if type \<noteq> Offer then Inl (LogicError ''Unexpected local desciption type'') else Inr (Some HaveLocalOffer)
      | HaveRemoteOffer \<Rightarrow> if type \<noteq> Answer \<and> type \<noteq> Pranswer then Inl (LogicError ''Unexpected local description type'') else Inr (Some Stable)
      | HaveLocalPranswer \<Rightarrow> if type \<noteq> Answer \<and> type \<noteq> Pranswer then Inl (LogicError ''Unexpected local description type'') else Inr (Some Stable)
      | _ \<Rightarrow> Inr None)"

definition guess_type :: "SignalingState \<Rightarrow> DescriptionType \<Rightarrow> DescriptionType" where
  "guess_type state type = (if type = Unspec then if state = HaveRemoteOffer then Answer else Offer else type)"

text \<open>\<open>setLocalDescription\<close> up to the new state; \<open>None\<close>: it returned before.\<close>

definition set_local :: "environment \<Rightarrow> DescriptionType \<Rightarrow> (string \<times> string) option \<Rightarrow> Peer \<Rightarrow> SignalingState option result \<times> Peer" where
  "set_local env type init p =
     (let type = guess_type (pn_signalingState p) type
      in case local_transition (pn_signalingState p) type of
           Inl e \<Rightarrow> (Inl e, p)
         | Inr None \<Rightarrow> (Inr None, p)
         | Inr (Some newState) \<Rightarrow>
             bind_state (initIceTransport env p) (\<lambda>ok p.
               if \<not> ok then (Inr None, p)
               else if case init of Some (ufrag, pwd) \<Rightarrow> \<not> env_setAttributes env ufrag pwd | None \<Rightarrow> False
               then (Inl (InvalidArgument ''Invalid ICE attributes''), p)
               else bind_state (getLocalDescription env type (the (pn_ice p)), p) (\<lambda>d p.
                    bind_state (processLocalDescription env d p) (\<lambda>_ p.
                      (Inr (Some newState), changeSignalingState newState p)))))"

lemma bind_state_Inr: "bind_state r f = (Inr y, s') \<Longrightarrow> \<exists>x s. r = (Inr x, s) \<and> f x s = (Inr y, s')"
  by (cases r; cases "fst r") auto

lemma local_transition_offer: "local_transition state Offer = Inr (Some newState) \<Longrightarrow> newState = HaveLocalOffer"
  by (auto simp: local_transition_def split: SignalingState.splits)

lemma set_local_offer: "set_local env Offer init p = (Inr (Some newState), p') \<Longrightarrow> newState = HaveLocalOffer"
  by (auto simp: set_local_def guess_type_def Let_def split: sum.splits option.splits if_splits
      dest!: bind_state_Inr local_transition_offer)

function setLocalDescription :: "environment \<Rightarrow> DescriptionType \<Rightarrow> (string \<times> string) option \<Rightarrow> Peer \<Rightarrow> unit result \<times> Peer" where
  "setLocalDescription env type init p =
     (if type = Rollback then
        (Inr (), if pn_signalingState p = HaveLocalOffer \<or> pn_signalingState p = HaveLocalPranswer
                 then changeSignalingState Stable (rollbackLocalDescription p) else p)
      else
        case set_local env type init p of
          (Inl e, p) \<Rightarrow> (Inl e, p)
        | (Inr None, p) \<Rightarrow> (Inr (), p)
        | (Inr (Some newState), p) \<Rightarrow>
            (case (if \<not> cf_disableAutoNegotiation (pn_config p) \<and> newState = Stable \<and> negotiationNeeded p
                   then setLocalDescription env Offer None p else (Inr (), p)) of
               (Inl e, p) \<Rightarrow> (Inl e, p)
             | (Inr _, p) \<Rightarrow>
                 if pn_gatheringState p = GsNew \<and> \<not> cf_disableAutoGathering (pn_config p)
                 then ice_gatherLocalCandidates env (localBundleMid p) p else (Inr (), p)))"
  by pat_completeness auto
termination
  by (relation "measure (\<lambda>(env, type, init, p). if type = Offer then 0 else 1)") (auto dest: set_local_offer [OF sym])

declare setLocalDescription.simps [simp del]

definition gatherLocalCandidates :: "environment \<Rightarrow> Peer \<Rightarrow> unit result \<times> Peer" where
  "gatherLocalCandidates env p =
     (if pn_ice p = None then (Inl (LogicError ''No IceTransport. Local Description has not been set''), p)
      else if pn_gatheringState p = GsNew then ice_gatherLocalCandidates env (localBundleMid p) p else (Inr (), p))"

text \<open>The new state, the description with its type filled in, and whether the own offer is rolled back.\<close>

definition remote_transition :: "SignalingState \<Rightarrow> Description \<Rightarrow> (SignalingState \<times> Description \<times> bool) result" where
  "remote_transition state d =
     (case state of
        Stable \<Rightarrow>
          let d = hintType Offer d
          in if de_type d \<noteq> Offer then Inl (LogicError ''Unexpected remote description'') else Inr (HaveRemoteOffer, d, False)
      | HaveLocalOffer \<Rightarrow>
          let d = hintType Answer d
          in if de_type d = Offer then Inr (HaveRemoteOffer, d, True)
             else if de_type d \<noteq> Answer \<and> de_type d \<noteq> Pranswer then Inl (LogicError ''Unexpected remote description'')
             else Inr (Stable, d, False)
      | HaveRemotePranswer \<Rightarrow>
          let d = hintType Answer d
          in if de_type d \<noteq> Answer \<and> de_type d \<noteq> Pranswer then Inl (LogicError ''Unexpected remote description'')
             else Inr (Stable, d, False)
      | _ \<Rightarrow> Inl (LogicError ''Unexpected remote description in signaling state''))"

text \<open>\<open>setRemoteDescription\<close> up to the new state; \<open>None\<close>: it returned before.\<close>

definition set_remote :: "environment \<Rightarrow> Description \<Rightarrow> Peer \<Rightarrow> (SignalingState \<times> Candidate list) option result \<times> Peer" where
  "set_remote env d p =
     (case validateRemoteDescription d of
        Inl e \<Rightarrow> (Inl e, p)
      | Inr _ \<Rightarrow>
          (case remote_transition (pn_signalingState p) d of
             Inl e \<Rightarrow> (Inl e, p)
           | Inr (newState, d, rollback) \<Rightarrow>
               let p = (if rollback then changeSignalingState Stable (rollbackLocalDescription p) else p);
                   (remoteCandidates, d) = extractCandidates d
               in bind_state (initIceTransport env p) (\<lambda>ok p.
                    if \<not> ok then (Inr None, p)
                    else case ice_setRemoteDescription env d (the (pn_ice p)) of
                           (Inl e, ice) \<Rightarrow> (Inl e, set_ice ice p)
                         | (Inr _, ice) \<Rightarrow>
                             (Inr (Some (newState, remoteCandidates)), changeSignalingState newState (processRemoteDescription d (set_ice ice p))))))"

definition setRemoteDescription :: "environment \<Rightarrow> Description \<Rightarrow> Peer \<Rightarrow> unit result \<times> Peer" where
  "setRemoteDescription env d p =
     (if de_type d = Rollback then (Inr (), changeSignalingState Stable p)
      else bind_state (set_remote env d p) (\<lambda>r p.
        case r of
          None \<Rightarrow> (Inr (), p)
        | Some (newState, remoteCandidates) \<Rightarrow>
            bind_state (addRemoteCandidates env remoteCandidates p) (\<lambda>_ p.
              if cf_disableAutoNegotiation (pn_config p) then (Inr (), p)
              else if newState = Stable then
                if negotiationNeeded p then setLocalDescription env Offer None p else (Inr (), p)
              else if newState = HaveRemoteOffer then setLocalDescription env Answer None p
              else (Inr (), p))))"

definition addRemoteCandidate :: "environment \<Rightarrow> Candidate \<Rightarrow> Peer \<Rightarrow> unit result \<times> Peer" where
  "addRemoteCandidate env candidate p = processRemoteCandidate env candidate p"

definition addTrack :: "Media \<Rightarrow> Peer \<Rightarrow> nat result \<times> Peer" where
  "addTrack m p = emplaceTrack m p"

text \<open>\<open>None\<close>: the assignment of a stream does not end (theory \<open>PeerChannels\<close>).\<close>

definition createDataChannel ::
  "environment \<Rightarrow> usrsctp \<Rightarrow> string \<Rightarrow> DataChannelInit \<Rightarrow> Peer \<Rightarrow> (nat result \<times> Peer) option" where
  "createDataChannel env us label init p =
     (case emplaceDataChannel us label init (pn_channels p) of
        None \<Rightarrow> None
      | Some (Inl e, pc) \<Rightarrow> Some (Inl e, p\<lparr>pn_channels := pc\<rparr>)
      | Some (Inr n, pc) \<Rightarrow>
          let p = p\<lparr>pn_channels := pc\<rparr>
          in Some (if \<not> cf_disableAutoNegotiation (pn_config p) \<and> pn_signalingState p = Stable \<and> negotiationNeeded p
                   then bind_state (setLocalDescription env Offer None p) (\<lambda>_ p. (Inr n, p)) else (Inr n, p)))"

section \<open>Closing\<close>

definition closeTransports :: "Peer \<Rightarrow> Peer" where
  "closeTransports p =
     (case changeState_pc PsClosed (changeIceState IsClosed p) of
        (False, p) \<Rightarrow> p
      | (True, p) \<Rightarrow> p\<lparr>pn_trackCallback := None, pn_ice := None, pn_dtlsConnected := False,
            pn_channels := (pn_channels p)\<lparr>pc_callback := False, pc_sctp := None, pc_iceRole := None\<rparr>\<rparr>)"

text \<open>\<open>close\<close> and \<open>remoteClose\<close> call each other; the flag \<open>closing\<close> stops the second call of \<open>close\<close>.\<close>

definition remote_close_body :: "Peer \<Rightarrow> Peer" where
  "remote_close_body p = (if pn_state p \<noteq> PsClosed then closeTransports (pn_emit PnCloseTracks (pn_emit PnCloseDataChannels p)) else p)"

definition close_pc :: "Peer \<Rightarrow> Peer" where
  "close_pc p =
     (if pn_closing p then p
      else let p = p\<lparr>pn_closing := True\<rparr>
           in if pc_sctp (pn_channels p) \<noteq> None then pn_emit PnStopSctp p else remote_close_body p)"

definition remoteClose_pc :: "Peer \<Rightarrow> Peer" where
  "remoteClose_pc p = remote_close_body (close_pc p)"

text \<open>What \<open>initIceTransport\<close> installs as the callbacks of the transport.\<close>

definition on_ice_state :: "IceState \<Rightarrow> Peer \<Rightarrow> Peer" where
  "on_ice_state transportState p =
     (case transportState of
        IsChecking \<Rightarrow> snd (changeState_pc PsConnecting (changeIceState IsChecking p))
      | IsConnected \<Rightarrow> pn_emit PnInitDtls (changeIceState IsConnected p)
      | IsCompleted \<Rightarrow> changeIceState IsCompleted p
      | IsFailed \<Rightarrow> pn_emit PnRemoteClose (snd (changeState_pc PsFailed (changeIceState IsFailed p)))
      | IsDisconnected \<Rightarrow> pn_emit PnRemoteClose (snd (changeState_pc PsDisconnected (changeIceState IsDisconnected p)))
      | _ \<Rightarrow> p)"

definition on_gathering_done :: "Peer \<Rightarrow> Peer" where
  "on_gathering_done p =
     (case pn_ice p of
        None \<Rightarrow> p
      | Some ice \<Rightarrow>
          if ice_gatheringState ice = GsComplete then p
          else set_ice (ice\<lparr>ice_gatheringState := GsComplete\<rparr>) (changeGatheringState GsComplete (endLocalCandidates p)))"

end
