(* ===== verification/SdpEntries.thy ===== *)
theory SdpEntries
  imports Sessions
begin

text \<open>
  Entries of a session description that are printed and parsed again: lines of text, numbers, the lines every entry has, those of
  an application and those of a media entry with its formats and sources. The predicates \<open>entry_ok\<close>, \<open>application_ok\<close> and
  \<open>media_ok\<close> say which entries the format can carry.
\<close>

section \<open>Lines\<close>

text \<open>Text that survives the trimming of its line.\<close>

definition text_ok :: "string \<Rightarrow> bool" where
  "text_ok s \<longleftrightarrow> LF \<notin> set s \<and> (s = [] \<or> \<not> isspace (last s))"

lemma word_ok_text: "word_ok s \<Longrightarrow> text_ok s"
  by (auto simp: word_ok_def text_ok_def graphic_def isspace_def)

lemma explode_lines:
  assumes "\<forall>l \<in> set ls. l \<noteq> [] \<and> text_ok l"
  shows "nonempty_lines (explode (with_eol [CR, LF] ls) LF) = ls"
  using assms
proof (induction ls)
  case Nil
  then show ?case by (simp add: with_eol_def nonempty_lines_def explode.simps)
next
  case (Cons l ls)
  have "explode (with_eol [CR, LF] (l # ls)) LF = (l @ [CR]) # explode (with_eol [CR, LF] ls) LF"
    using Cons.prems explode_token(2) [of LF "l @ [CR]" "with_eol [CR, LF] ls"] by (simp add: with_eol_def text_ok_def)
  moreover have "trim_end (l @ [CR]) = l"
    using Cons.prems trim_end_graphic [of l "[CR]"] by (auto simp: text_ok_def isspace_def)
  ultimately show ?case using Cons by (simp add: nonempty_lines_def)
qed

lemma fold_result_append: "fold_result f (xs @ ys) s = bind_result (fold_result f xs s) (fold_result f ys)"
  by (induction xs arbitrary: s) (auto simp: bind_result_def split: sum.splits)

lemma fold_result_cong: "(\<And>x s. x \<in> set xs \<Longrightarrow> f x s = g x s) \<Longrightarrow> fold_result f xs s = fold_result g xs s"
  by (induction xs arbitrary: s) (auto simp: bind_result_def split: sum.splits)

text \<open>A fold whose steps append to one component of the state.\<close>

lemma fold_result_Inr: "(\<And>x s. x \<in> set xs \<Longrightarrow> f x s = Inr (g x s)) \<Longrightarrow> fold_result f xs s = Inr (fold g xs s)"
  by (induction xs arbitrary: s) auto

section \<open>Numbers\<close>

definition int32 :: "int \<Rightarrow> bool" where
  "int32 i \<longleftrightarrow> - 2147483648 \<le> i \<and> i \<le> 2147483647"

lemma read_number_negative:
  assumes "rest = [] \<or> \<not> isdigit (hd rest)" and "\<forall>c \<in> set w. isspace c"
  shows "read_number (w @ CHR ''-'' # nat_string n @ rest) = Some (True, n, rest)"
proof -
  have "dropWhile isspace (w @ CHR ''-'' # nat_string n @ rest) = CHR ''-'' # nat_string n @ rest"
    using assms(2) by (simp add: dropWhile_append2 isspace_def)
  moreover have "takeWhile isdigit (nat_string n @ rest) = nat_string n" "dropWhile isdigit (nat_string n @ rest) = rest"
    using assms(1) nat_string_digits [of n] by (cases rest; simp add: takeWhile_append2 dropWhile_append2)+
  ultimately show ?thesis
    using digits_value_nat_string [of n] nat_string_nonempty [of n] by (simp add: read_number_def Let_def)
qed

lemma read_number_to_string:
  assumes "rest = [] \<or> \<not> isdigit (hd rest)" and "\<forall>c \<in> set w. isspace c"
  shows "read_number (w @ to_string i @ rest) = Some (i < 0, nat \<bar>i\<bar>, rest)"
  using read_number_negative [OF assms, of "nat (- i)"] read_number_nat [OF assms, of "nat i"] by (simp add: to_string_def)

lemma to_integer_int_prefix:
  assumes "int32 i" and "rest = [] \<or> \<not> isdigit (hd rest)"
  shows "to_integer_int (to_string i @ rest) = Inr i"
proof -
  have "read_number (to_string i @ rest) = Some (i < 0, nat \<bar>i\<bar>, rest)" using read_number_to_string [of rest "[]" i] assms(2) by simp
  then have "stol (to_string i @ rest) = Inr i" using assms(1) by (auto simp: stol_def int32_def)
  moreover have "sint (word_of_int i :: 32 word) = i" using assms(1) by (simp add: int32_def sint_sbintrunc' signed_take_bit_int_eq_self)
  ultimately show ?thesis by (simp add: to_integer_int_def)
qed

lemmas to_integer_int_to_string = to_integer_int_prefix [where rest = "[]", simplified]

lemma to_string_chars: "c \<in> set (to_string i) \<Longrightarrow> isdigit c \<or> c = CHR ''-''"
  using nat_string_digits by (auto simp: to_string_def split: if_splits)

lemma to_string_free [simp]: "CHR '' '' \<notin> set (to_string i)" "CHR ''/'' \<notin> set (to_string i)" "CHR '':'' \<notin> set (to_string i)" "LF \<notin> set (to_string i)"
  using to_string_chars by (fastforce simp: isdigit_def)+

lemma to_string_word: "word_ok (to_string i)"
proof -
  have "\<not> isspace (CHR ''-'')" by (simp add: isspace_def)
  moreover have "to_string i \<noteq> []" using nat_string_nonempty by (simp add: to_string_def)
  ultimately show ?thesis using to_string_chars [of _ i] isdigit_not_space unfolding word_ok_def graphic_def by blast
qed

lemma stream_int_to_string:
  assumes "int32 i" and "rest = [] \<or> \<not> isdigit (hd rest)" and "\<forall>c \<in> set w. isspace c"
  shows "stream_int (w @ to_string i @ rest) = Some (i, rest)"
  unfolding stream_int_def read_number_to_string [OF assms(2,3)] using assms(1) by (auto simp: int32_def)

lemma to_integer_unsigned_nat_string:
  assumes "LENGTH('a::len) \<le> 64"
  shows "to_integer_unsigned (nat_string (unat (w :: 'a word))) = Inr w"
proof -
  have "unat w < 2 ^ LENGTH('a)" by (rule unsigned_less)
  also have "\<dots> \<le> 2 ^ 64" using assms by (intro power_increasing) auto
  finally have less: "unat w < 2 ^ 64" .
  have "ucast (of_nat (unat w) :: u64) = w"
    unfolding word_unat_eq_iff using less assms by (simp add: unsigned_ucast_eq unsigned_of_nat take_bit_word_beyond_length_eq)
  then show ?thesis using stoul_nat_string [OF less] by (simp add: to_integer_unsigned_def)
qed

section \<open>Lines of every entry\<close>

abbreviation key :: "string \<Rightarrow> string" where
  "key attr \<equiv> fst (parse_pair attr)"

definition extmap_ok :: "int \<times> ExtMap \<Rightarrow> bool" where
  "extmap_ok e \<longleftrightarrow> (case e of (k, x) \<Rightarrow> em_id x = k \<and> int32 k \<and> word_ok (em_uri x) \<and> text_ok (em_attributes x))"

lemma parse_direction_string: "dir \<noteq> Unknown \<Longrightarrow> parse_direction (direction_string dir) = Inr dir"
  by (cases dir) (simp_all add: parse_direction_def)

lemma word_ok_no_space: "word_ok s \<Longrightarrow> CHR '' '' \<notin> set s"
  by (auto simp: word_ok_def graphic_def)

definition extmap_value :: "ExtMap \<Rightarrow> string" where
  "extmap_value m = drop 9 (extmap_line m)"

lemma extmap_line_value: "extmap_line m = ''a=extmap:'' @ extmap_value m"
  by (simp add: extmap_line_def extmap_value_def)

lemma extmap_value_split:
  "split_at (CHR '' '') (extmap_value m) =
     Some (to_string (em_id m) @ (if em_direction m \<noteq> Unknown then ''/'' @ direction_string (em_direction m) else []),
           em_uri m @ (if em_attributes m \<noteq> [] then '' '' @ em_attributes m else []))"
proof -
  have "CHR '' '' \<notin> set (to_string (em_id m) @ (if em_direction m \<noteq> Unknown then ''/'' @ direction_string (em_direction m) else []))"
    by (cases "em_direction m") simp_all
  from split_at_first [OF this] show ?thesis
    by (simp add: extmap_value_def extmap_line_def)
qed

lemma ExtMap_parseId_value: "extmap_ok (k, x) \<Longrightarrow> ExtMap_parseId (extmap_value x) = Inr k"
  using to_integer_int_prefix [of k] by (simp add: ExtMap_parseId_def before_def extmap_value_split extmap_ok_def isdigit_def)

lemma ExtMap_of_value:
  assumes "extmap_ok (k, x)"
  shows "ExtMap_of (extmap_value x) = Inr x"
proof -
  have x: "int32 (em_id x)" "CHR '' '' \<notin> set (em_uri x)" using assms word_ok_no_space by (auto simp: extmap_ok_def)
  have uri: "split_at (CHR '' '') (em_uri x @ (if em_attributes x \<noteq> [] then '' '' @ em_attributes x else [])) =
      (if em_attributes x \<noteq> [] then Some (em_uri x, em_attributes x) else None)"
    using x(2) by (simp add: split_at_first split_at_none)
  have i: "split_at (CHR ''/'') (to_string (em_id x) @ (if em_direction x \<noteq> Unknown then ''/'' @ direction_string (em_direction x) else [])) =
      (if em_direction x \<noteq> Unknown then Some (to_string (em_id x), direction_string (em_direction x)) else None)"
    by (simp add: split_at_first split_at_none)
  show ?thesis
    unfolding ExtMap_of_def ExtMap_setDescription_def extmap_value_split option.case prod.case uri i
    using x(1) by (cases x) (auto simp: to_integer_int_to_string parse_direction_string)
qed

lemma ascending_snoc: "ascending (m @ (k, v) # xs) \<Longrightarrow> (\<forall>k' \<in> fst ` set m. k' < k) \<and> map_of m k = None"
  by (fastforce simp: sorted_wrt_append map_of_eq_None_iff)

lemma parse_extmaps:
  assumes "\<forall>x \<in> set xs. extmap_ok x" and "ascending (en_extMaps e @ xs)"
  shows "fold_result Entry_parseSdpLine (map (\<lambda>(_, m). extmap_line m) xs) e = Inr (e\<lparr>en_extMaps := en_extMaps e @ xs\<rparr>)"
  using assms
proof (induction xs arbitrary: e)
  case (Cons x xs)
  obtain k v where x: "x = (k, v)" by fastforce
  have "map_of (en_extMaps e) k = None" "map_insert k v (en_extMaps e) = en_extMaps e @ [x]"
    using Cons.prems(2) ascending_snoc [of "en_extMaps e" k v xs] map_insert_end by (auto simp: x)
  moreover have "extmap_ok (k, v)" using Cons.prems(1) by (simp add: x)
  ultimately have "Entry_parseSdpLine (extmap_line v) e = Inr (e\<lparr>en_extMaps := en_extMaps e @ [x]\<rparr>)"
    by (simp add: Entry_parseSdpLine_def extmap_line_value parse_pair_pair [of "''extmap''", simplified] ExtMap_parseId_value ExtMap_of_value)
  then show ?case using Cons.prems Cons.IH [of "e\<lparr>en_extMaps := en_extMaps e @ [x]\<rparr>"] by (simp add: x)
qed simp

definition direction_lines :: "Direction \<Rightarrow> string list" where
  "direction_lines dir = (if dir \<noteq> Unknown then [''a='' @ direction_string dir] else [])"

lemma parse_direction_lines:
  "fold_result Entry_parseSdpLine (direction_lines dir) e = Inr (if dir = Unknown then e else e\<lparr>en_direction := dir\<rparr>)"
  by (cases dir) (simp_all add: direction_lines_def Entry_parseSdpLine_def parse_pair_plain)

text \<open>Attributes that no parser takes for one of its own.\<close>

definition session_keys :: "string list" where
  "session_keys = [''setup'', ''fingerprint'', ''ice-ufrag'', ''ice-pwd'', ''ice-options'', ''candidate'', ''end-of-candidates'']"

definition entry_keys :: "string list" where
  "entry_keys = [''mid'', ''extmap'', ''sendonly'', ''recvonly'', ''sendrecv'', ''inactive'', ''bundle-only'']"

lemma parse_other_attribute:
  assumes "key a \<notin> set entry_keys"
  shows "Entry_parseSdpLine (''a='' @ a) e = Inr (e\<lparr>en_attributes := en_attributes e @ [a]\<rparr>)"
proof -
  have "a \<noteq> ''sendonly''" "a \<noteq> ''recvonly''" using assms by (auto simp: entry_keys_def parse_pair_plain)
  then show ?thesis using assms by (auto simp: Entry_parseSdpLine_def entry_keys_def split_beta)
qed

lemma parse_attributes:
  assumes "\<forall>attr \<in> set as. key attr \<notin> set entry_keys"
  shows "fold_result Entry_parseSdpLine (map (\<lambda>attr. ''a='' @ attr) as) e = Inr (e\<lparr>en_attributes := en_attributes e @ as\<rparr>)"
  using assms
proof (induction as arbitrary: e)
  case (Cons a as)
  then show ?case using parse_other_attribute [of a e] by (simp del: append.simps)
qed simp

text \<open>What the parser reads of the lines of an entry, with lines of its subclass around them.\<close>

definition entry_ok :: "string list \<Rightarrow> 'a Entry_scheme \<Rightarrow> bool" where
  "entry_ok keys e \<longleftrightarrow> word_ok (en_type e) \<and> \<not> match_prefix (en_type e) ''m='' \<and> word_ok (en_protocol e) \<and> word_ok (en_mid e) \<and> en_rids e = [] \<and>
     ascending (en_extMaps e) \<and> (\<forall>x \<in> set (en_extMaps e). extmap_ok x) \<and>
     (\<forall>attr \<in> set (en_attributes e). text_ok attr \<and> key attr \<notin> set (session_keys @ entry_keys @ keys))"

definition common_lines :: "'a Entry_scheme \<Rightarrow> string list" where
  "common_lines e = [''a=mid:'' @ en_mid e] @ map (\<lambda>(_, m). extmap_line m) (en_extMaps e) @ direction_lines (en_direction e)"

lemma Entry_lines: "en_rids e = [] \<Longrightarrow> Entry_generateSdpLines e = common_lines e @ map (\<lambda>attr. ''a='' @ attr) (en_attributes e)"
  by (simp add: Entry_generateSdpLines_def common_lines_def direction_lines_def)

lemma parse_mid: "Entry_parseSdpLine (''a=mid:'' @ mid) e = Inr (e\<lparr>en_mid := mid\<rparr>)"
  by (simp add: Entry_parseSdpLine_def parse_pair_pair [of "''mid''", simplified])

lemma parse_common_lines:
  assumes "entry_ok keys e" and "en_extMaps e0 = []"
  shows "fold_result Entry_parseSdpLine (common_lines e) e0 =
    Inr (e0\<lparr>en_mid := en_mid e, en_extMaps := en_extMaps e,
      en_direction := if en_direction e = Unknown then en_direction e0 else en_direction e\<rparr>)"
proof -
  have "fold_result Entry_parseSdpLine [''a=mid:'' @ en_mid e] e0 = Inr (e0\<lparr>en_mid := en_mid e\<rparr>)"
    by (simp only: fold_result.simps parse_mid bind_result_simps)
  moreover have "fold_result Entry_parseSdpLine (map (\<lambda>(_, m). extmap_line m) (en_extMaps e)) (e0\<lparr>en_mid := en_mid e\<rparr>) =
      Inr (e0\<lparr>en_mid := en_mid e, en_extMaps := en_extMaps e\<rparr>)"
    using assms parse_extmaps [of "en_extMaps e" "e0\<lparr>en_mid := en_mid e\<rparr>"] by (simp add: entry_ok_def)
  ultimately show ?thesis
    unfolding common_lines_def fold_result_append by (cases e0) (simp add: parse_direction_lines)
qed

lemma common_line_key:
  assumes "l \<in> set (common_lines e)"
  shows "\<exists>attr. l = ''a='' @ attr \<and> key attr \<in> set entry_keys"
proof -
  consider "l = ''a=mid:'' @ en_mid e" | x where "l = extmap_line x" | "l \<in> set (direction_lines (en_direction e))"
    using assms by (auto simp: common_lines_def)
  then show ?thesis
  proof cases
    case 1
    then show ?thesis using parse_pair_pair [of "''mid''" "en_mid e"] by (simp add: entry_keys_def)
  next
    case 2
    then show ?thesis using parse_pair_pair [of "''extmap''" "extmap_value x"] by (simp add: entry_keys_def extmap_line_value)
  next
    case 3
    then show ?thesis by (cases "en_direction e") (auto simp: direction_lines_def entry_keys_def parse_pair_plain)
  qed
qed

section \<open>Application entries\<close>

definition application_keys :: "string list" where
  "application_keys = [''sctp-port'', ''max-message-size'']"

definition application_ok :: "Application \<Rightarrow> bool" where
  "application_ok a \<longleftrightarrow> entry_ok application_keys a \<and> en_type a = ''application'' \<and> en_description a \<noteq> [] \<and> tail_ok (en_description a) \<and> en_direction a \<noteq> Unknown"

lemma Application_parse_entry_line:
  "key attr \<notin> set application_keys \<Longrightarrow> Application_parseSdpLine (''a='' @ attr) a = Entry_parseSdpLine (''a='' @ attr) a"
  by (simp add: Application_parseSdpLine_def application_keys_def split_beta)

lemma entry_keys_disjoint: "k \<in> set entry_keys \<Longrightarrow> k \<notin> set application_keys \<and> k \<notin> set session_keys"
  by (auto simp: entry_keys_def application_keys_def session_keys_def)

lemma Application_parse_entry_lines:
  assumes "\<forall>l \<in> set ls. \<exists>attr. l = ''a='' @ attr \<and> key attr \<notin> set application_keys"
  shows "fold_result Application_parseSdpLine ls a = fold_result Entry_parseSdpLine ls a"
  by (rule fold_result_cong) (use assms Application_parse_entry_line in fastforce)

lemma parse_application:
  assumes "application_ok a" and "en_extMaps a0 = []" "en_attributes a0 = []" "ap_sctpPort a0 = None" "ap_maxMessageSize a0 = None"
  shows "fold_result Application_parseSdpLine (Application_generateSdpLines a) a0 =
    Inr (a\<lparr>en_type := en_type a0, en_protocol := en_protocol a0, en_description := en_description a0, en_rids := en_rids a0,
           en_isRemoved := en_isRemoved a0\<rparr>)"
proof -
  have ok: "entry_ok application_keys a" "en_rids a = []" "en_direction a \<noteq> Unknown" using assms(1) unfolding application_ok_def entry_ok_def by blast+
  have common: "fold_result Application_parseSdpLine (common_lines a) a0 = fold_result Entry_parseSdpLine (common_lines a) a0"
    by (rule Application_parse_entry_lines) (use common_line_key entry_keys_disjoint in blast)
  have attrs: "fold_result Application_parseSdpLine (map (\<lambda>attr. ''a='' @ attr) (en_attributes a)) b =
      Inr (b\<lparr>en_attributes := en_attributes b @ en_attributes a\<rparr>)" for b
  proof -
    have "fold_result Application_parseSdpLine (map (\<lambda>attr. ''a='' @ attr) (en_attributes a)) b =
        fold_result Entry_parseSdpLine (map (\<lambda>attr. ''a='' @ attr) (en_attributes a)) b"
      by (rule Application_parse_entry_lines) (use ok(1) in \<open>auto simp: entry_ok_def\<close>)
    then show ?thesis using parse_attributes [of "en_attributes a" b] ok(1) by (simp add: entry_ok_def)
  qed
  have port: "Application_parseSdpLine (''a=sctp-port:'' @ nat_string (unat p)) b = Inr (b\<lparr>ap_sctpPort := Some p\<rparr>)" for p b
    by (simp add: Application_parseSdpLine_def parse_pair_pair [of "''sctp-port''", simplified] to_integer_unsigned_nat_string)
  have max_size: "Application_parseSdpLine (''a=max-message-size:'' @ nat_string (unat n)) b = Inr (b\<lparr>ap_maxMessageSize := Some n\<rparr>)" for n b
    by (simp add: Application_parseSdpLine_def parse_pair_pair [of "''max-message-size''", simplified] to_integer_unsigned_nat_string)
  show ?thesis
    unfolding Application_generateSdpLines_def Entry_lines [OF ok(2)] append_assoc fold_result_append common
      parse_common_lines [OF ok(1) assms(2)] bind_result_simps attrs
    using assms(3-5) ok(3) port max_size
    by (cases a; cases a0) (auto simp del: append.simps split: option.splits)
qed

section \<open>Formats\<close>

definition rtpmap_ok :: "int \<times> RtpMap \<Rightarrow> bool" where
  "rtpmap_ok e \<longleftrightarrow> (case e of (k, r) \<Rightarrow> rm_payloadType r = k \<and> int32 k \<and> CHR ''/'' \<notin> set (rm_format r) \<and> LF \<notin> set (rm_format r) \<and>
     int32 (rm_clockRate r) \<and> text_ok (rm_encParams r) \<and> (\<forall>val \<in> set (rm_rtcpFbs r @ rm_fmtps r). val \<noteq> [] \<and> text_ok val))"

definition rtpmap_value :: "RtpMap \<Rightarrow> string" where
  "rtpmap_value r = to_string (rm_payloadType r) @ CHR '' '' # rm_format r @ CHR ''/'' # to_string (rm_clockRate r) @
     (if rm_encParams r \<noteq> [] then ''/'' @ rm_encParams r else [])"

lemma before_space: "before (CHR '' '') (to_string i @ CHR '' '' # s) = to_string i" "behind (CHR '' '') (to_string i @ CHR '' '' # s) = s"
  by (simp_all add: before_def behind_def split_at_first)

lemma RtpMap_of_value:
  assumes "rtpmap_ok (k, r)"
  shows "parsePayloadType (rtpmap_value r) = Inr k" and "RtpMap_of (rtpmap_value r) = Inr (r\<lparr>rm_rtcpFbs := [], rm_fmtps := []\<rparr>)"
proof -
  have r: "int32 k" "rm_payloadType r = k" "int32 (rm_clockRate r)" "CHR ''/'' \<notin> set (rm_format r)" using assms by (simp_all add: rtpmap_ok_def)
  have rate: "(case split_at (CHR ''/'') (to_string (rm_clockRate r) @ (if rm_encParams r \<noteq> [] then ''/'' @ rm_encParams r else [])) of
        None \<Rightarrow> split_at (CHR '' '') (to_string (rm_clockRate r) @ (if rm_encParams r \<noteq> [] then ''/'' @ rm_encParams r else [])) | Some s \<Rightarrow> Some s) =
      (if rm_encParams r \<noteq> [] then Some (to_string (rm_clockRate r), rm_encParams r) else None)"
    by (simp add: split_at_first split_at_none)
  show "parsePayloadType (rtpmap_value r) = Inr k"
    using r by (simp add: parsePayloadType_def rtpmap_value_def before_space to_integer_int_to_string)
  show "RtpMap_of (rtpmap_value r) = Inr (r\<lparr>rm_rtcpFbs := [], rm_fmtps := []\<rparr>)"
    unfolding RtpMap_of_def RtpMap_setDescription_def rtpmap_value_def split_at_first [OF to_string_free(1)] option.case prod.case
      split_at_first [OF r(4)] rate
    using r by (cases r) (auto simp: to_integer_int_to_string RtpMap_init_def)
qed

lemma map_insert_last: "\<forall>k' \<in> fst ` set m. k' < k \<Longrightarrow> map_insert k v (m @ [(k, v')]) = m @ [(k, v)]"
  by (induction m) auto

lemma map_of_last: "\<forall>k' \<in> fst ` set m. k' < (k :: 'k::linorder) \<Longrightarrow> map_of (m @ [(k, v)]) k = Some v"
proof -
  assume "\<forall>k' \<in> fst ` set m. k' < k"
  then have "map_of m k = None" by (metis map_of_eq_None_iff less_irrefl)
  then show ?thesis by (simp add: map_add_def)
qed

lemma with_rtpmap_last:
  assumes "\<forall>k' \<in> fst ` set ms. k' < k" and "md_rtpMaps m = ms @ [(k, r)]"
  shows "with_rtpmap k f m = m\<lparr>md_rtpMaps := ms @ [(k, f r)]\<rparr>"
  using assms by (simp add: with_rtpmap_def map_of_last map_insert_last del: map_of_append)

lemma parse_feedback:
  assumes "int32 k" and "\<forall>k' \<in> fst ` set ms. k' < k"
  shows "fold_result Media_parseSdpLine (map (\<lambda>val. ''a=rtcp-fb:'' @ to_string k @ '' '' @ val) vs) (m\<lparr>md_rtpMaps := ms @ [(k, r)]\<rparr>) =
    Inr (m\<lparr>md_rtpMaps := ms @ [(k, r\<lparr>rm_rtcpFbs := rm_rtcpFbs r @ vs\<rparr>)]\<rparr>)"
proof (induction vs arbitrary: r)
  case (Cons v vs)
  have "Media_parseSdpLine (''a=rtcp-fb:'' @ to_string k @ '' '' @ v) (m\<lparr>md_rtpMaps := ms @ [(k, r)]\<rparr>) =
      Inr (m\<lparr>md_rtpMaps := ms @ [(k, r\<lparr>rm_rtcpFbs := rm_rtcpFbs r @ [v]\<rparr>)]\<rparr>)"
    using assms by (simp add: Media_parseSdpLine_def parse_pair_pair [of "''rtcp-fb''", simplified] before_space to_integer_int_to_string
      with_rtpmap_last)
  then show ?case using Cons.IH [of "r\<lparr>rm_rtcpFbs := rm_rtcpFbs r @ [v]\<rparr>"] by simp
qed simp

lemma parse_parameters:
  assumes "int32 k" and "\<forall>k' \<in> fst ` set ms. k' < k"
  shows "fold_result Media_parseSdpLine (map (\<lambda>val. ''a=fmtp:'' @ to_string k @ '' '' @ val) vs) (m\<lparr>md_rtpMaps := ms @ [(k, r)]\<rparr>) =
    Inr (m\<lparr>md_rtpMaps := ms @ [(k, r\<lparr>rm_fmtps := rm_fmtps r @ vs\<rparr>)]\<rparr>)"
proof (induction vs arbitrary: r)
  case (Cons v vs)
  have "Media_parseSdpLine (''a=fmtp:'' @ to_string k @ '' '' @ v) (m\<lparr>md_rtpMaps := ms @ [(k, r)]\<rparr>) =
      Inr (m\<lparr>md_rtpMaps := ms @ [(k, r\<lparr>rm_fmtps := rm_fmtps r @ [v]\<rparr>)]\<rparr>)"
    using assms by (simp add: Media_parseSdpLine_def parse_pair_pair [of "''fmtp''", simplified] before_space to_integer_int_to_string
      with_rtpmap_last)
  then show ?case using Cons.IH [of "r\<lparr>rm_fmtps := rm_fmtps r @ [v]\<rparr>"] by simp
qed simp

lemma parse_rtpmap:
  assumes "rtpmap_ok (k, r)" and "\<forall>k' \<in> fst ` set (md_rtpMaps m). k' < k"
  shows "fold_result Media_parseSdpLine (rtpmap_lines r) m = Inr (m\<lparr>md_rtpMaps := md_rtpMaps m @ [(k, r)]\<rparr>)"
proof -
  let ?r = "r\<lparr>rm_rtcpFbs := [], rm_fmtps := []\<rparr>"
  have k: "int32 k" "rm_payloadType r = k" using assms(1) by (simp_all add: rtpmap_ok_def)
  have none: "map_of (md_rtpMaps m) k = None" using assms(2) by (auto simp: map_of_eq_None_iff)
  have line: "''a=rtpmap:'' @ to_string k @ '' '' @ rm_format r @ ''/'' @ to_string (rm_clockRate r) @
      (if rm_encParams r \<noteq> [] then ''/'' @ rm_encParams r else []) = ''a=rtpmap:'' @ rtpmap_value r" by (simp add: rtpmap_value_def k(2))
  have first: "Media_parseSdpLine (''a=rtpmap:'' @ rtpmap_value r) m = Inr (m\<lparr>md_rtpMaps := md_rtpMaps m @ [(k, ?r)]\<rparr>)"
    using none map_insert_end [OF assms(2)]
    by (simp add: Media_parseSdpLine_def parse_pair_pair [of "''rtpmap''", simplified] RtpMap_of_value [OF assms(1)])
  have first': "fold_result Media_parseSdpLine [''a=rtpmap:'' @ rtpmap_value r] m = Inr (m\<lparr>md_rtpMaps := md_rtpMaps m @ [(k, ?r)]\<rparr>)"
    by (simp only: fold_result.simps first bind_result_simps)
  show ?thesis
    unfolding rtpmap_lines_def k(2) line fold_result_append first' bind_result_simps parse_feedback [OF k(1) assms(2)]
      parse_parameters [OF k(1) assms(2)]
    by simp
qed

lemma parse_rtpmaps:
  assumes "\<forall>e \<in> set rs. rtpmap_ok e" and "ascending (md_rtpMaps m @ rs)"
  shows "fold_result Media_parseSdpLine (concat (map (\<lambda>(k, r). rtpmap_lines r) rs)) m = Inr (m\<lparr>md_rtpMaps := md_rtpMaps m @ rs\<rparr>)"
  using assms
proof (induction rs arbitrary: m)
  case (Cons e rs)
  obtain k r where e: "e = (k, r)" by fastforce
  have "fold_result Media_parseSdpLine (rtpmap_lines r) m = Inr (m\<lparr>md_rtpMaps := md_rtpMaps m @ [e]\<rparr>)"
    using Cons.prems ascending_snoc [of "md_rtpMaps m" k r rs] parse_rtpmap [of k r m] by (simp add: e)
  then show ?case using Cons.prems Cons.IH [of "m\<lparr>md_rtpMaps := md_rtpMaps m @ [e]\<rparr>"] by (simp add: e fold_result_append)
qed simp

section \<open>Media entries\<close>

definition media_keys :: "string list" where
  "media_keys = [''rtpmap'', ''rtcp-fb'', ''fmtp'', ''rtcp-mux'']"

text \<open>The sources and their names that the attributes of an entry declare.\<close>

definition declare_ssrc :: "string \<Rightarrow> u32 list \<times> (u32 \<times> string) list \<Rightarrow> u32 list \<times> (u32 \<times> string) list" where
  "declare_ssrc attr s =
     (case (parse_pair attr, s) of ((k, value), (ssrcs, names)) \<Rightarrow>
        if k = ''ssrc'' then
          case to_integer_unsigned value of
            Inl _ \<Rightarrow> (ssrcs, names)
          | Inr ssrc \<Rightarrow>
              (if ssrc \<in> set ssrcs then ssrcs else ssrcs @ [ssrc],
               case find_substring ''cname:'' value of Some p \<Rightarrow> map_emplace ssrc (drop (p + 6) value) names | None \<Rightarrow> names)
        else (ssrcs, names))"

definition declared_ssrcs :: "string list \<Rightarrow> u32 list \<times> (u32 \<times> string) list" where
  "declared_ssrcs as = fold declare_ssrc as ([], [])"

definition ssrc_readable :: "string \<Rightarrow> bool" where
  "ssrc_readable attr \<longleftrightarrow> (case parse_pair attr of (k, value) \<Rightarrow> k = ''ssrc'' \<longrightarrow> \<not> isl (to_integer_unsigned value :: u32 result))"

definition media_ok :: "Media \<Rightarrow> bool" where
  "media_ok m \<longleftrightarrow> entry_ok media_keys m \<and> en_type m \<noteq> ''application'' \<and> md_bas m \<ge> - 1 \<and> int32 (md_bas m) \<and>
     md_orderedPayloadTypes m \<noteq> [] \<and> (\<forall>pt \<in> set (md_orderedPayloadTypes m). int32 pt) \<and>
     ascending (md_rtpMaps m) \<and> (\<forall>e \<in> set (md_rtpMaps m). rtpmap_ok e) \<and>
     (\<forall>attr \<in> set (en_attributes m). ssrc_readable attr) \<and> (md_ssrcs m, md_cNameMap m) = declared_ssrcs (en_attributes m)"

lemma Media_parse_entry_line:
  "key attr \<notin> set media_keys \<Longrightarrow> key attr \<noteq> ''ssrc'' \<Longrightarrow> Media_parseSdpLine (''a='' @ attr) m = Entry_parseSdpLine (''a='' @ attr) m"
  by (simp add: Media_parseSdpLine_def media_keys_def split_beta)

lemma Media_parse_attribute:
  assumes "key attr \<notin> set (entry_keys @ media_keys)" and "ssrc_readable attr"
  shows "Media_parseSdpLine (''a='' @ attr) m =
    Inr (m\<lparr>en_attributes := en_attributes m @ [attr], md_ssrcs := fst (declare_ssrc attr (md_ssrcs m, md_cNameMap m)),
           md_cNameMap := snd (declare_ssrc attr (md_ssrcs m, md_cNameMap m))\<rparr>)"
proof (cases "key attr = ''ssrc''")
  case True
  obtain val where v: "parse_pair attr = (''ssrc'', val)" using True by (cases "parse_pair attr") simp
  obtain ssrc where w: "to_integer_unsigned val = Inr (ssrc :: u32)"
    using assms(2) v by (cases "to_integer_unsigned val :: u32 result") (auto simp: ssrc_readable_def)
  show ?thesis
    by (cases m; cases "find_substring ''cname:'' val") (simp_all add: Media_parseSdpLine_def v w declare_ssrc_def hasSSRC_def)
next
  case False
  have "Media_parseSdpLine (''a='' @ attr) m = Entry_parseSdpLine (''a='' @ attr) m"
    using assms(1) False by (intro Media_parse_entry_line) simp_all
  then show ?thesis
    using parse_other_attribute [of attr m] assms(1) False by (cases m) (simp add: declare_ssrc_def split_beta)
qed

lemma Media_parse_attributes:
  assumes "\<forall>attr \<in> set as. key attr \<notin> set (entry_keys @ media_keys) \<and> ssrc_readable attr"
  shows "fold_result Media_parseSdpLine (map (\<lambda>attr. ''a='' @ attr) as) m =
    Inr (m\<lparr>en_attributes := en_attributes m @ as, md_ssrcs := fst (fold declare_ssrc as (md_ssrcs m, md_cNameMap m)),
           md_cNameMap := snd (fold declare_ssrc as (md_ssrcs m, md_cNameMap m))\<rparr>)"
  using assms
proof (induction as arbitrary: m)
  case (Cons a as)
  then show ?case
    using Media_parse_attribute [of a m] by (simp del: append.simps)
qed simp

lemma Media_parse_other: "\<not> match_prefix l ''a='' \<Longrightarrow> \<not> match_prefix l ''b=AS'' \<Longrightarrow> Media_parseSdpLine l m = Inr m"
  by (simp add: Media_parseSdpLine_def Entry_parseSdpLine_def)

lemma parse_media:
  assumes "media_ok m" and "en_extMaps m0 = []" "en_attributes m0 = []" "md_bas m0 = -1" "md_rtpMaps m0 = []" "md_ssrcs m0 = []"
    "md_cNameMap m0 = []" "en_direction m0 = Unknown" "md_orderedPayloadTypes m0 = md_orderedPayloadTypes m"
  shows "fold_result Media_parseSdpLine (Media_generateSdpLines m) m0 =
    Inr (m\<lparr>en_type := en_type m0, en_protocol := en_protocol m0, en_description := en_description m0, en_rids := en_rids m0,
           en_isRemoved := en_isRemoved m0\<rparr>)"
proof -
  have ok: "entry_ok media_keys m" "en_rids m = []" "int32 (md_bas m)" using assms(1) unfolding media_ok_def entry_ok_def by blast+
  have bas: "fold_result Media_parseSdpLine (if md_bas m \<ge> 0 then [''b=AS:'' @ to_string (md_bas m)] else []) m0 = Inr (m0\<lparr>md_bas := md_bas m\<rparr>)"
  proof (cases "md_bas m \<ge> 0")
    case True
    have "behind (CHR '':'') (''b=AS:'' @ to_string (md_bas m)) = to_string (md_bas m)"
      using split_at_first [of "CHR '':''" "''b=AS''"] by (simp add: behind_def)
    then show ?thesis using True ok(3) by (simp add: Media_parseSdpLine_def to_integer_int_to_string)
  next
    case False
    then have "md_bas m = -1" using assms(1) by (simp add: media_ok_def)
    then show ?thesis using assms(4) by (cases m0) simp
  qed
  have common: "fold_result Media_parseSdpLine (common_lines m) b = fold_result Entry_parseSdpLine (common_lines m) b" for b
  proof (rule fold_result_cong)
    fix l s assume "l \<in> set (common_lines m)"
    then obtain attr where "l = ''a='' @ attr" "key attr \<in> set entry_keys" using common_line_key by blast
    moreover from this have "key attr \<notin> set media_keys" "key attr \<noteq> ''ssrc''" by (auto simp: entry_keys_def media_keys_def)
    ultimately show "Media_parseSdpLine l s = Entry_parseSdpLine l s" using Media_parse_entry_line by metis
  qed
  have attrs: "\<forall>attr \<in> set (en_attributes m). key attr \<notin> set (entry_keys @ media_keys) \<and> ssrc_readable attr"
    using assms(1) by (auto simp: media_ok_def entry_ok_def)
  have mux: "fold_result Media_parseSdpLine [''a=rtcp-mux''] b = Inr b" for b
    by (simp add: Media_parseSdpLine_def parse_pair_plain)
  have maps: "fold_result Media_parseSdpLine (concat (map (\<lambda>(k, r). rtpmap_lines r) (md_rtpMaps m))) b = Inr (b\<lparr>md_rtpMaps := md_rtpMaps m\<rparr>)"
    if "md_rtpMaps b = []" for b
    using that assms(1) parse_rtpmaps [of "md_rtpMaps m" b] by (simp add: media_ok_def)
  have ssrcs: "fold declare_ssrc (en_attributes m) ([], []) = (md_ssrcs m, md_cNameMap m)" using assms(1) by (simp add: media_ok_def declared_ssrcs_def)
  show ?thesis
    unfolding Media_generateSdpLines_def Entry_lines [OF ok(2)] append_assoc fold_result_append bas bind_result_simps common mux
      parse_common_lines [OF ok(1), of "m0\<lparr>md_bas := md_bas m\<rparr>", simplified, OF assms(2)] Media_parse_attributes [OF attrs]
    using assms(2-) ssrcs by (subst maps) (cases m; cases m0; simp)+
qed

end
