(* ===== verification/SdpRoundtrip.thy ===== *)
theory SdpRoundtrip
  imports SdpEntries
begin

text \<open>
  A session description that is printed and parsed again: the peer reads the session that the sender described.
\<close>

section \<open>Media lines\<close>

lemma payload_types_printed:
  assumes "\<forall>pt \<in> set pts. int32 pt"
  shows "payload_types (implode (map to_string pts) (CHR '' '')) = pts"
proof -
  have "payload_types (w @ implode (map to_string pts) (CHR '' '')) = pts" if "\<forall>c \<in> set w. isspace c" for w
    using assms that
  proof (induction pts arbitrary: w)
    case Nil
    then have "dropWhile isspace w = []" by simp
    then have "stream_int w = None" unfolding stream_int_def read_number_def Let_def by (simp del: dropWhile_eq_Nil_conv)
    then show ?case by (subst payload_types.simps) (simp add: implode_def)
  next
    case (Cons p pts)
    let ?rest = "if pts = [] then [] else '' '' @ implode (map to_string pts) (CHR '' '')"
    have "implode (map to_string (p # pts)) (CHR '' '') = to_string p @ ?rest"
      by (cases "pts = []") (simp_all add: implode_Cons, simp add: implode_def)
    moreover have "stream_int (w @ to_string p @ ?rest) = Some (p, ?rest)"
      using Cons.prems by (intro stream_int_to_string) simp_all
    moreover have "payload_types ?rest = pts" using Cons.IH [of "if pts = [] then [] else '' ''"] Cons.prems
      by (cases "pts = []") (simp_all add: implode_def)
    ultimately show ?case by (subst payload_types.simps) simp
  qed
  from this [of "[]"] show ?thesis by simp
qed

lemma Entry_init_line:
  assumes "word_ok t" "\<not> match_prefix t ''m=''" "word_ok p" "tail_ok desc" "desc \<noteq> []" "n < 65536"
  shows "Entry_init (t @ CHR '' '' # nat_string n @ CHR '' '' # p @ CHR '' '' # desc) mid dir =
    Inr \<lparr>en_attributes = [], en_extMaps = [], en_type = t, en_protocol = p, en_description = desc, en_mid = mid, en_rids = [],
         en_direction = dir, en_isRemoved = (n = 0)\<rparr>"
proof -
  have "\<not> match_prefix (t @ CHR '' '' # s) ''m=''" for s
    using assms(1,2) by (cases t; cases "tl t") (auto simp: word_ok_def)
  moreover have "dropWhile isspace (CHR '' '' # desc) = desc" using assms(4,5) by (cases desc) (auto simp: tail_ok_def)
  moreover have "takeWhile (\<lambda>c. c \<noteq> LF) desc = desc" using assms(4) by (auto simp: tail_ok_def takeWhile_eq_all_conv)
  ultimately show ?thesis
    unfolding Entry_init_def Let_def
    using assms by (simp add: next_word_word stream_unsigned_nat del: takeWhile_eq_all_conv)
qed

section \<open>Lines of an entry in the session\<close>

definition entry_line :: "string \<Rightarrow> bool" where
  "entry_line l \<longleftrightarrow> \<not> match_prefix l ''m='' \<and> \<not> match_prefix l ''o='' \<and> (match_prefix l ''a='' \<longrightarrow> key (drop 2 l) \<notin> set session_keys)"

lemma parse_entry_line:
  assumes "entry_line l"
  shows "parse_line l (i, d\<lparr>de_entries := es @ [e]\<rparr>) = bind_result (entry_parseSdpLine l e) (\<lambda>e. Inr (i, d\<lparr>de_entries := es @ [e]\<rparr>))"
  using assms
  by (auto simp: entry_line_def parse_line_def parse_attribute_def session_keys_def split_beta current_parseSdpLine_def bind_result_def
      split: sum.splits)

lemma parse_entry_lines:
  assumes "\<forall>l \<in> set ls. entry_line l"
  shows "fold_result parse_line ls (i, d\<lparr>de_entries := es @ [e]\<rparr>) =
    bind_result (fold_result entry_parseSdpLine ls e) (\<lambda>e. Inr (i, d\<lparr>de_entries := es @ [e]\<rparr>))"
  using assms
proof (induction ls arbitrary: e)
  case (Cons l ls)
  then show ?case by (simp add: parse_entry_line) (simp add: bind_result_def split: sum.splits)
qed simp

lemma fold_entry_parse:
  "fold_result entry_parseSdpLine ls (AppEntry a) = bind_result (fold_result Application_parseSdpLine ls a) (\<lambda>a. Inr (AppEntry a))"
  "fold_result entry_parseSdpLine ls (MediaEntry m) = bind_result (fold_result Media_parseSdpLine ls m) (\<lambda>m. Inr (MediaEntry m))"
  by (induction ls arbitrary: a m) (simp_all add: bind_result_def split: sum.splits)

lemma entry_line_attribute: "key attr \<notin> set session_keys \<Longrightarrow> entry_line (''a='' @ attr)"
  by (simp add: entry_line_def)

lemma entry_line_pair: "CHR '':'' \<notin> set k \<Longrightarrow> k \<notin> set session_keys \<Longrightarrow> entry_line (''a='' @ k @ CHR '':'' # v)"
  by (rule entry_line_attribute) (simp add: parse_pair_pair)

lemma entry_line_common: "l \<in> set (common_lines e) \<Longrightarrow> entry_line l"
  using common_line_key entry_keys_disjoint entry_line_attribute by metis

lemma entry_line_Entry:
  assumes "entry_ok keys e" and "l \<in> set (Entry_generateSdpLines e)"
  shows "entry_line l"
proof -
  have "en_rids e = []" "\<forall>attr \<in> set (en_attributes e). key attr \<notin> set session_keys" using assms(1) by (auto simp: entry_ok_def)
  then show ?thesis using assms(2) entry_line_attribute entry_line_common by (auto simp: Entry_lines)
qed

lemma entry_line_Application: "application_ok a \<Longrightarrow> l \<in> set (Application_generateSdpLines a) \<Longrightarrow> entry_line l"
  using entry_line_Entry [of application_keys a l] entry_line_pair [of "''sctp-port''"] entry_line_pair [of "''max-message-size''"]
  by (auto simp: Application_generateSdpLines_def application_ok_def session_keys_def split: option.splits)

lemma entry_line_rtpmap: "l \<in> set (rtpmap_lines r) \<Longrightarrow> entry_line l"
  using entry_line_pair [of "''rtpmap''"] entry_line_pair [of "''rtcp-fb''"] entry_line_pair [of "''fmtp''"]
  by (auto simp: rtpmap_lines_def session_keys_def)

lemma entry_line_Media:
  assumes "media_ok m" and "l \<in> set (Media_generateSdpLines m)"
  shows "entry_line l"
proof -
  consider "match_prefix l ''b=AS:''" | "l \<in> set (Entry_generateSdpLines m)" | "l = ''a=rtcp-mux''" | r where "l \<in> set (rtpmap_lines r)"
    using assms(2) by (auto simp: Media_generateSdpLines_def split: if_splits)
  then show ?thesis
  proof cases
    case 1
    then obtain s where "l = ''b=AS:'' @ s" by (metis append_take_drop_id match_prefix_def)
    then show ?thesis by (simp add: entry_line_def)
  next
    case 2
    then show ?thesis using assms(1) entry_line_Entry unfolding media_ok_def by blast
  next
    case 3
    then show ?thesis by (simp add: entry_line_def parse_pair_plain session_keys_def)
  next
    case 4
    then show ?thesis by (rule entry_line_rtpmap)
  qed
qed

fun entry_wf :: "entry \<Rightarrow> bool" where
  "entry_wf (AppEntry a) \<longleftrightarrow> application_ok a"
| "entry_wf (MediaEntry m) \<longleftrightarrow> media_ok m"

text \<open>A media entry keeps the rest of its media line beside the payload types; the parser reads it as they are printed.\<close>

fun entry_parsed :: "entry \<Rightarrow> entry" where
  "entry_parsed (AppEntry a) = AppEntry a"
| "entry_parsed (MediaEntry m) = MediaEntry (m\<lparr>en_description := Media_description m\<rparr>)"

lemma before_word: "word_ok t \<Longrightarrow> before (CHR '' '') (t @ CHR '' '' # s) = t"
  by (simp add: before_def split_at_first word_ok_no_space)

lemma Media_description_ok:
  assumes "media_ok m"
  shows "tail_ok (Media_description m)" and "Media_description m \<noteq> []"
proof -
  obtain p ps where m: "md_orderedPayloadTypes m = p # ps" using assms by (cases "md_orderedPayloadTypes m") (auto simp: media_ok_def)
  have "implode (map to_string (p # ps)) (CHR '' '') \<noteq> [] \<and> tail_ok (implode (map to_string (p # ps)) (CHR '' ''))"
  proof (induction ps arbitrary: p)
    case Nil
    have "implode [to_string p] (CHR '' '') = to_string p" by (simp add: implode_def)
    then show ?case using to_string_word [of p] by (simp add: tail_ok_def word_ok_def graphic_def)
  next
    case (Cons q ps)
    moreover have "implode (map to_string (p # q # ps)) (CHR '' '') = to_string p @ CHR '' '' # implode (map to_string (q # ps)) (CHR '' '')"
      by (simp add: implode_Cons)
    ultimately show ?case using to_string_word [of p] by (auto simp: tail_ok_def word_ok_def graphic_def)
  qed
  then show "tail_ok (Media_description m)" "Media_description m \<noteq> []" by (simp_all add: Media_description_def m)
qed

lemma printed_port:
  assumes "(port :: u16) \<noteq> 0"
  obtains n where "n < 65536" "n = 0 \<longleftrightarrow> r" "(if r then ''0'' else nat_string (unat port)) = nat_string n"
proof
  have zero: "nat_string 0 = ''0''" by code_simp
  have port: "unat port < 65536" "unat port \<noteq> 0" using assms unsigned_less [of port, where 'a = nat] by (auto simp: unsigned_eq_0_iff)
  show "(if r then 0 else unat port) < 65536" "(if r then 0 else unat port) = 0 \<longleftrightarrow> r"
    "(if r then ''0'' else nat_string (unat port)) = nat_string (if r then 0 else unat port)" using port by (simp_all add: zero)
qed

lemma entry_line_connection: "entry_line (''c=IN '' @ addr)"
  by (simp add: entry_line_def)

lemma parse_application_entry:
  assumes "application_ok a" and "port \<noteq> 0" and "\<not> list_ex is_application (de_entries d)"
  shows "fold_result parse_line (Entry_generateSdp addr port (AppEntry a)) (i, d) = Inr (i + 1, d\<lparr>de_entries := de_entries d @ [AppEntry a]\<rparr>)"
proof -
  obtain n where n: "n < 65536" "n = 0 \<longleftrightarrow> en_isRemoved a" "(if en_isRemoved a then ''0'' else nat_string (unat port)) = nat_string n"
    using printed_port [OF assms(2)] by blast
  let ?a = "a\<lparr>en_attributes := [], en_extMaps := [], en_mid := to_string (i + 1), en_direction := SendRecv, ap_sctpPort := None, ap_maxMessageSize := None\<rparr>"
  have ok: "word_ok (en_type a)" "\<not> match_prefix (en_type a) ''m=''" "word_ok (en_protocol a)" "tail_ok (en_description a)"
      "en_description a \<noteq> []" "en_type a = ''application''" "en_rids a = []"
    using assms(1) unfolding application_ok_def entry_ok_def by blast+
  have none: "removeApplication d = d" using assms(3) by (cases d) (auto simp: removeApplication_def filter_id_conv list_ex_iff)
  let ?mline = "en_type a @ CHR '' '' # nat_string n @ CHR '' '' # en_protocol a @ CHR '' '' # en_description a"
  have "Application_of ?mline (to_string (i + 1)) = Inr ?a"
    unfolding Application_of_def Entry_init_line [OF ok(1-5) n(1)] using ok(7) n(2)
    by (cases a) (simp add: Entry.extend_def Application.fields_def)
  then have first: "parse_line (''m='' @ ?mline) (i, d) = Inr (i + 1, d\<lparr>de_entries := de_entries d @ [AppEntry ?a]\<rparr>)"
    using ok(6) before_word [OF ok(1)] none by (simp add: parse_line_def createEntry_def)
  have rest: "fold_result Application_parseSdpLine ((''c=IN '' @ addr) # Application_generateSdpLines a) ?a = Inr a"
    using parse_application [OF assms(1), of ?a] by (cases a) (simp add: Application_parseSdpLine_def Entry_parseSdpLine_def)
  have lines: "\<forall>l \<in> set ((''c=IN '' @ addr) # Application_generateSdpLines a). entry_line l"
    using entry_line_connection entry_line_Application [OF assms(1)] by auto
  have split: "Entry_generateSdp addr port (AppEntry a) = (''m='' @ ?mline) # (''c=IN '' @ addr) # Application_generateSdpLines a"
    by (simp add: entry_lines_def n(3) [symmetric])
  show ?thesis
    unfolding split fold_result.simps(2) [of _ "''m='' @ ?mline"] first bind_result_simps parse_entry_lines [OF lines]
      fold_entry_parse rest ..
qed

lemma parse_media_entry:
  assumes "media_ok m" and "port \<noteq> 0"
  shows "fold_result parse_line (Entry_generateSdp addr port (MediaEntry m)) (i, d) =
    Inr (i + 1, d\<lparr>de_entries := de_entries d @ [MediaEntry (m\<lparr>en_description := Media_description m\<rparr>)]\<rparr>)"
proof -
  obtain n where n: "n < 65536" "n = 0 \<longleftrightarrow> en_isRemoved m" "(if en_isRemoved m then ''0'' else nat_string (unat port)) = nat_string n"
    using printed_port [OF assms(2)] by blast
  let ?d = "Media_description m"
  let ?m = "m\<lparr>en_attributes := [], en_extMaps := [], en_description := ?d, en_mid := to_string (i + 1), en_direction := Unknown,
    md_bas := -1, md_rtpMaps := [], md_ssrcs := [], md_cNameMap := []\<rparr>"
  have ok: "word_ok (en_type m)" "\<not> match_prefix (en_type m) ''m=''" "word_ok (en_protocol m)"
      "en_type m \<noteq> ''application''" "en_rids m = []" "\<forall>pt \<in> set (md_orderedPayloadTypes m). int32 pt"
    using assms(1) unfolding media_ok_def entry_ok_def by blast+
  have pts: "payload_types ?d = md_orderedPayloadTypes m" unfolding Media_description_def by (rule payload_types_printed [OF ok(6)])
  let ?mline = "en_type m @ CHR '' '' # nat_string n @ CHR '' '' # en_protocol m @ CHR '' '' # ?d"
  have "Media_of_mline ?mline (to_string (i + 1)) Unknown = Inr ?m"
    unfolding Media_of_mline_def Entry_init_line [OF ok(1-3) Media_description_ok [OF assms(1)] n(1)] using ok(5) pts n(2)
    by (cases m) (simp add: Entry.extend_def Media.fields_def)
  then have first: "parse_line (''m='' @ ?mline) (i, d) = Inr (i + 1, d\<lparr>de_entries := de_entries d @ [MediaEntry ?m]\<rparr>)"
    using ok(4) before_word [OF ok(1)] by (simp add: parse_line_def createEntry_def)
  have rest: "fold_result Media_parseSdpLine ((''c=IN '' @ addr) # Media_generateSdpLines m) ?m = Inr (m\<lparr>en_description := ?d\<rparr>)"
    using parse_media [OF assms(1), of ?m] by (cases m) (simp add: Media_parse_other)
  have lines: "\<forall>l \<in> set ((''c=IN '' @ addr) # Media_generateSdpLines m). entry_line l"
    using entry_line_connection entry_line_Media [OF assms(1)] by auto
  have split: "Entry_generateSdp addr port (MediaEntry m) = (''m='' @ ?mline) # (''c=IN '' @ addr) # Media_generateSdpLines m"
    by (simp add: entry_lines_def n(3) [symmetric])
  show ?thesis
    unfolding split fold_result.simps(2) [of _ "''m='' @ ?mline"] first bind_result_simps parse_entry_lines [OF lines]
      fold_entry_parse rest ..
qed

lemma parse_entry:
  assumes "entry_wf e" and "port \<noteq> 0" and "is_application e \<Longrightarrow> \<not> list_ex is_application (de_entries d)"
  shows "fold_result parse_line (Entry_generateSdp addr port e) (i, d) = Inr (i + 1, d\<lparr>de_entries := de_entries d @ [entry_parsed e]\<rparr>)"
  using assms parse_application_entry parse_media_entry by (cases e) simp_all

section \<open>Transport and candidates\<close>

text \<open>A candidate as the peer has it, under the identifier of the bundle.\<close>

definition received_candidate :: "string \<Rightarrow> Candidate \<Rightarrow> Candidate" where
  "received_candidate mid c = (printed c)\<lparr>cd_mid := Some mid\<rparr>"

lemma parse_line_attribute: "parse_line (''a='' @ attr) (i, d) = bind_result (parse_attribute (''a='' @ attr) (i, d)) (\<lambda>d. Inr (i, d))"
  by (simp add: parse_line_def)

lemma parse_pair_keys [simp]:
  "parse_pair (''setup:'' @ v) = (''setup'', v)" "parse_pair (''ice-ufrag:'' @ v) = (''ice-ufrag'', v)"
  "parse_pair (''ice-pwd:'' @ v) = (''ice-pwd'', v)" "parse_pair (''ice-options:'' @ v) = (''ice-options'', v)"
  "parse_pair (''fingerprint:'' @ v) = (''fingerprint'', v)" "parse_pair (''candidate:'' @ v) = (''candidate'', v)"
  "parse_pair (''group:'' @ v) = (''group'', v)" "parse_pair (''msid-semantic:'' @ v) = (''msid-semantic'', v)"
  "parse_pair ''end-of-candidates'' = (''end-of-candidates'', [])"
  by (simp_all add: parse_pair_def split_at_def)

lemma parse_role_string: "parse_role (role_string r) = r"
  by (cases r) (simp_all add: parse_role_def)

lemma parse_transport_lines:
  assumes "de_iceUfrag s \<in> {None, de_iceUfrag d}" and "de_icePwd s \<in> {None, de_icePwd d}"
  shows "fold_result parse_line (transport_lines d) (i, s) =
    Inr (i, s\<lparr>de_role := de_role d, de_iceUfrag := de_iceUfrag d, de_icePwd := de_icePwd d\<rparr>)"
proof -
  have role: "parse_line (''a=setup:'' @ role_string (de_role d)) (i, s) = Inr (i, s\<lparr>de_role := de_role d\<rparr>)"
    by (simp add: parse_line_def parse_attribute_def parse_role_string parse_pair_keys(1) [simplified])
  have ufrag: "parse_line (''a=ice-ufrag:'' @ u) (i, t) = Inr (i, if de_iceUfrag t = None \<or> i = 0 then t\<lparr>de_iceUfrag := Some u\<rparr> else t)" for u t
    by (simp add: parse_line_def parse_attribute_def parse_pair_keys(2) [simplified])
  have pwd: "parse_line (''a=ice-pwd:'' @ u) (i, t) = Inr (i, if de_icePwd t = None \<or> i = 0 then t\<lparr>de_icePwd := Some u\<rparr> else t)" for u t
    by (simp add: parse_line_def parse_attribute_def parse_pair_keys(3) [simplified])
  have 1: "fold_result parse_line [''a=setup:'' @ role_string (de_role d)] (i, s) = Inr (i, s\<lparr>de_role := de_role d\<rparr>)"
    by (simp only: fold_result.simps role bind_result_simps)
  have 2: "fold_result parse_line (case de_iceUfrag d of Some u \<Rightarrow> [''a=ice-ufrag:'' @ u] | None \<Rightarrow> []) (i, t) = Inr (i, t\<lparr>de_iceUfrag := de_iceUfrag d\<rparr>)"
    if "de_iceUfrag t \<in> {None, de_iceUfrag d}" for t
    using that by (cases t; cases "de_iceUfrag d") (auto simp: ufrag simp del: append.simps)
  have 3: "fold_result parse_line (case de_icePwd d of Some u \<Rightarrow> [''a=ice-pwd:'' @ u] | None \<Rightarrow> []) (i, t) = Inr (i, t\<lparr>de_icePwd := de_icePwd d\<rparr>)"
    if "de_icePwd t \<in> {None, de_icePwd d}" for t
    using that by (cases t; cases "de_icePwd d") (auto simp: pwd simp del: append.simps)
  show ?thesis
    unfolding transport_lines_def fold_result_append 1 bind_result_simps using assms by (simp add: 2 3)
qed

lemma parse_candidate_line:
  assumes "candidate_ok c" and "mid \<noteq> []" and "bundleMid s = mid" and "\<not> list_ex (\<lambda>c'. Candidate_eq c' (received_candidate mid c)) (de_candidates s)"
  shows "parse_line (Candidate_string c) (i, s) = Inr (i, s\<lparr>de_candidates := de_candidates s @ [received_candidate mid c]\<rparr>)"
proof -
  have pair: "parse_pair (candidate_string c) = (''candidate'', drop 10 (candidate_string c))"
    using parse_pair_keys(6) [of "drop 10 (candidate_string c)"] by (simp add: candidate_string_def)
  have "Candidate_of (candidate_string c) mid = Inr (received_candidate mid c)"
    using Candidate_of_printed(1) [OF assms(1,2)] by (simp add: received_candidate_def)
  then show ?thesis
    using assms(3,4) by (simp add: Candidate_string_def parse_line_def parse_attribute_def pair addCandidate_def hintMid_def hasCandidate_def
      received_candidate_def)
qed

definition candidates_differ :: "Candidate list \<Rightarrow> bool" where
  "candidates_differ cs \<longleftrightarrow> sorted_wrt (\<lambda>c c'. \<not> Candidate_eq (printed c) (printed c')) cs"

lemma Candidate_eq_received: "Candidate_eq (received_candidate mid c) (received_candidate mid c') \<longleftrightarrow> Candidate_eq (printed c) (printed c')"
  by (simp add: Candidate_eq_def received_candidate_def)

lemma parse_candidates:
  assumes "\<forall>c \<in> set cs. candidate_ok c" and "mid \<noteq> []" and "bundleMid s = mid"
    and "de_candidates s = map (received_candidate mid) ds" and "candidates_differ (ds @ cs)"
  shows "fold_result parse_line (map Candidate_string cs) (i, s) = Inr (i, s\<lparr>de_candidates := map (received_candidate mid) (ds @ cs)\<rparr>)"
  using assms
proof (induction cs arbitrary: s ds)
  case Nil
  then show ?case by (cases s) simp
next
  case (Cons c cs)
  let ?s = "s\<lparr>de_candidates := de_candidates s @ [received_candidate mid c]\<rparr>"
  have "parse_line (Candidate_string c) (i, s) = Inr (i, ?s)"
    by (rule parse_candidate_line)
      (use Cons.prems in \<open>auto simp: list_ex_iff Candidate_eq_received candidates_differ_def sorted_wrt_append\<close>)
  moreover have "fold_result parse_line (map Candidate_string cs) (i, ?s) = Inr (i, ?s\<lparr>de_candidates := map (received_candidate mid) ((ds @ [c]) @ cs)\<rparr>)"
    by (rule Cons.IH) (use Cons.prems in \<open>auto simp: bundleMid_def\<close>)
  ultimately show ?case by simp
qed

lemma parse_candidate_lines:
  assumes "\<forall>c \<in> set (de_candidates d). candidate_ok c" and "mid \<noteq> []" and "bundleMid s = mid"
    and "de_candidates s = []" and "candidates_differ (de_candidates d)" and "\<not> de_ended s"
  shows "fold_result parse_line (candidate_lines d) (i, s) =
    Inr (i, s\<lparr>de_candidates := map (received_candidate mid) (de_candidates d), de_ended := de_ended d\<rparr>)"
proof -
  have "parse_line ''a=end-of-candidates'' (i, s) = Inr (i, s\<lparr>de_ended := True\<rparr>)" for s
    by (simp add: parse_line_def parse_attribute_def parse_pair_keys(9) [simplified])
  then show ?thesis
    using assms(6) parse_candidates [OF assms(1-3), of "[]" i] assms(4,5) by (cases s) (simp add: candidate_lines_def fold_result_append)
qed

section \<open>All entries\<close>

definition entries_received :: "Description \<Rightarrow> bool \<Rightarrow> entry list \<Rightarrow> Description \<Rightarrow> Description" where
  "entries_received d first es s =
     s\<lparr>de_entries := de_entries s @ map entry_parsed es,
       de_role := if es = [] then de_role s else de_role d,
       de_iceUfrag := if es = [] then de_iceUfrag s else de_iceUfrag d,
       de_icePwd := if es = [] then de_icePwd s else de_icePwd d,
       de_candidates := if first \<and> \<not> list_all entry_isRemoved es then map (received_candidate (bundleMid d)) (de_candidates d) else de_candidates s,
       de_ended := if first \<and> \<not> list_all entry_isRemoved es then de_ended d else de_ended s\<rparr>"

lemma entry_parsed_simps [simp]:
  "entry_isRemoved (entry_parsed e) = entry_isRemoved e" "entry_mid (entry_parsed e) = entry_mid e" "is_application (entry_parsed e) = is_application e"
  by (cases e; simp)+

lemma bundleMid_first:
  assumes "de_entries d = map f pre @ e # es" and "\<And>x. entry_isRemoved (f x) = entry_isRemoved x" and "list_all entry_isRemoved pre" and "\<not> entry_isRemoved e"
  shows "bundleMid d = entry_mid e"
proof -
  have "find (\<lambda>e. \<not> entry_isRemoved e) (map f pre @ e # es) = Some e"
    using assms(2-4) by (induction pre) auto
  then show ?thesis by (simp add: bundleMid_def assms(1))
qed

lemma parse_entries:
  assumes "\<forall>c \<in> set (de_candidates d). candidate_ok c" and "candidates_differ (de_candidates d)" and "default_port d \<noteq> 0"
    and "\<forall>e \<in> set es. entry_wf e \<and> entry_mid e \<noteq> []" and "de_entries d = pre @ es" and "length (filter is_application (pre @ es)) \<le> 1"
    and "de_entries s = map entry_parsed pre" and "first \<longleftrightarrow> list_all entry_isRemoved pre"
    and "first \<Longrightarrow> de_candidates s = [] \<and> \<not> de_ended s"
    and "de_iceUfrag s \<in> {None, de_iceUfrag d}" and "de_icePwd s \<in> {None, de_icePwd d}"
  shows "fold_result parse_line (entries_lines d first es) (i, s) = Inr (i + int (length es), entries_received d first es s)"
  using assms(4-)
proof (induction es arbitrary: pre s first i)
  case Nil
  then show ?case by (cases s) (simp add: entries_received_def)
next
  case (Cons e es)
  let ?s1 = "s\<lparr>de_entries := de_entries s @ [entry_parsed e]\<rparr>"
  let ?s2 = "?s1\<lparr>de_role := de_role d, de_iceUfrag := de_iceUfrag d, de_icePwd := de_icePwd d\<rparr>"
  let ?s3 = "if \<not> entry_isRemoved e \<and> first
    then ?s2\<lparr>de_candidates := map (received_candidate (bundleMid d)) (de_candidates d), de_ended := de_ended d\<rparr> else ?s2"
  have "is_application e \<Longrightarrow> \<not> list_ex is_application (de_entries s)"
    using Cons.prems(3,4) by (auto simp: list_ex_iff filter_empty_conv)
  then have 1: "fold_result parse_line (Entry_generateSdp (default_address d) (default_port d) e) (i, s) = Inr (i + 1, ?s1)"
    using Cons.prems(1) assms(3) by (intro parse_entry) simp_all
  have 2: "fold_result parse_line (transport_lines d) (i + 1, ?s1) = Inr (i + 1, ?s2)"
    using Cons.prems(7,8) by (intro parse_transport_lines) simp_all
  have 3: "fold_result parse_line (if \<not> entry_isRemoved e \<and> first then candidate_lines d else []) (i + 1, ?s2) = Inr (i + 1, ?s3)"
  proof (cases "\<not> entry_isRemoved e \<and> first")
    case True
    have "bundleMid d = entry_mid e" using bundleMid_first [of d id pre e es] Cons.prems(2,5) True by simp
    moreover have "bundleMid ?s2 = entry_mid (entry_parsed e)"
      using bundleMid_first [of ?s2 entry_parsed pre "entry_parsed e" "[]"] Cons.prems(4,5) True by simp
    ultimately show ?thesis
      using True Cons.prems(1,6) parse_candidate_lines [OF assms(1) _ _ _ assms(2), of "bundleMid d" ?s2 "i + 1"] by simp
  qed auto
  have 4: "fold_result parse_line (entries_lines d (first \<and> entry_isRemoved e) es) (i + 1, ?s3) =
      Inr (i + 1 + int (length es), entries_received d (first \<and> entry_isRemoved e) es ?s3)"
    by (rule Cons.IH [of "pre @ [e]"]) (use Cons.prems in auto)
  show ?case
    unfolding entries_lines.simps fold_result_append 1 2 3 4 bind_result_simps
    by (cases s) (simp add: entries_received_def)
qed

end
