(* ===== verification/SdpSession.thy ===== *)
theory SdpSession
  imports SdpRoundtrip
begin

text \<open>
  The session as a whole: its header and session-level attributes, the well-formed descriptions, and the round trip through the text.
\<close>

section \<open>Session-level lines\<close>

lemma parse_session_attributes:
  assumes "\<forall>attr \<in> set as. key attr \<notin> set session_keys" and "de_entries s = []"
  shows "fold_result parse_line (map (\<lambda>attr. ''a='' @ attr) as) (i, s) = Inr (i, s\<lparr>de_attributes := de_attributes s @ as\<rparr>)"
  using assms
proof (induction as arbitrary: s)
  case (Cons a as)
  then have "parse_line (''a='' @ a) (i, s) = Inr (i, s\<lparr>de_attributes := de_attributes s @ [a]\<rparr>)"
    by (simp add: parse_line_def parse_attribute_def session_keys_def split_beta)
  then show ?case using Cons.IH [of "s\<lparr>de_attributes := de_attributes s @ [a]\<rparr>"] Cons.prems by simp
qed simp

lemma parse_header:
  assumes "word_ok (de_username d)" and "word_ok (de_sessionId d)" and "de_entries s = []"
  shows "fold_result parse_line (header_lines d) (i, s) = Inr (i, s\<lparr>de_username := de_username d, de_sessionId := de_sessionId d\<rparr>)"
proof -
  let ?origin = "de_username d @ CHR '' '' # de_sessionId d @ '' 0 IN IP4 127.0.0.1''"
  have origin: "parse_origin ?origin s = s\<lparr>de_username := de_username d, de_sessionId := de_sessionId d\<rparr>"
    using assms(1,2) by (simp add: parse_origin_def next_word_word)
  have "parse_line (''o='' @ ?origin) (i, s) = Inr (i, s\<lparr>de_username := de_username d, de_sessionId := de_sessionId d\<rparr>)"
    by (simp add: parse_line_def origin del: append.simps) (simp add: origin)
  moreover have "parse_line l (i, t) = Inr (i, t)" if "l \<in> {''v=0'', ''s=-'', ''t=0 0''}" "de_entries t = []" for l t
    using that by (auto simp: parse_line_def)
  ultimately show ?thesis using assms(3) by (simp add: header_lines_def)
qed

text \<open>The attributes that printing adds.\<close>

definition group_attribute :: "string \<Rightarrow> entry list \<Rightarrow> string list" where
  "group_attribute name es =
     (let mids = concat (map (\<lambda>e. '' '' @ entry_mid e) es) in if mids \<noteq> [] then [''group:'' @ name @ mids] else [])"

definition announced :: "Description \<Rightarrow> string list" where
  "announced d =
     group_attribute ''BUNDLE'' (filter (\<lambda>e. \<not> entry_isRemoved e) (de_entries d)) @
     group_attribute ''LS'' (filter (\<lambda>e. \<not> entry_isRemoved e \<and> \<not> is_application e) (de_entries d)) @ [''msid-semantic:WMS *'']"

lemma group_line_attribute: "group_line name es = map (\<lambda>attr. ''a='' @ attr) (group_attribute name es)"
  by (simp add: group_line_def group_attribute_def Let_def)

lemma session_lines_announced:
  "session_lines d = map (\<lambda>attr. ''a='' @ attr) (announced d) @ ice_options_line d @ fingerprint_line d @ map (\<lambda>attr. ''a='' @ attr) (de_attributes d)"
  by (simp add: session_lines_def announced_def group_line_attribute)

lemma announced_keys: "\<forall>attr \<in> set (announced d). key attr \<notin> set session_keys"
  using parse_pair_keys(7) parse_pair_keys(8)
  by (auto simp: announced_def group_attribute_def Let_def session_keys_def simp del: parse_pair_keys split: if_splits)

definition options_ok :: "string list \<Rightarrow> bool" where
  "options_ok options \<longleftrightarrow> (\<forall>t \<in> set options. CHR '','' \<notin> set t) \<and> (options = [] \<or> last options \<noteq> []) \<and> text_ok (implode options (CHR '',''))"

lemma parse_ice_options:
  assumes "options_ok (de_iceOptions d)" and "de_iceOptions s = []"
  shows "fold_result parse_line (ice_options_line d) (i, s) = Inr (i, s\<lparr>de_iceOptions := de_iceOptions d\<rparr>)"
proof (cases "de_iceOptions d = []")
  case True
  then show ?thesis using assms(2) by (cases s) (simp add: ice_options_line_def)
next
  case False
  have "explode (implode (de_iceOptions d) (CHR '','')) (CHR '','') = de_iceOptions d"
    using assms(1) False by (intro explode_implode) (auto simp: options_ok_def)
  then have "parse_line (''a=ice-options:'' @ implode (de_iceOptions d) (CHR '','')) (i, s) = Inr (i, s\<lparr>de_iceOptions := de_iceOptions d\<rparr>)"
    using assms(2) by (simp add: parse_line_def parse_attribute_def parse_pair_keys(4) [simplified])
  then show ?thesis using False by (simp add: ice_options_line_def)
qed

definition fingerprint_ok :: "CertificateFingerprint \<Rightarrow> bool" where
  "fingerprint_ok f \<longleftrightarrow> fingerprint_isValid f \<and> map toupper (fp_value f) = fp_value f \<and> fp_algorithm f \<noteq> Sha384"

lemma fingerprint_word:
  assumes "fingerprint_isValid f"
  shows "word_ok (fp_value f)"
proof -
  have len: "length (fp_value f) = AlgorithmSize (fp_algorithm f) * 3 - 1" and "AlgorithmSize (fp_algorithm f) \<ge> 20"
    using assms by (cases "fp_algorithm f"; simp add: fingerprint_isValid_def Let_def)+
  have "\<not> isspace c" if c: "c \<in> set (fp_value f)" for c
  proof -
    obtain k where "k < length (fp_value f)" "c = fp_value f ! k" using c by (auto simp: in_set_conv_nth)
    then have "c = CHR '':'' \<or> isxdigit c" using assms by (auto simp: fingerprint_isValid_def Let_def list_all_iff split: if_splits)
    then show ?thesis by (auto simp: isxdigit_def isdigit_def isspace_def Let_def)
  qed
  then show ?thesis using len \<open>AlgorithmSize (fp_algorithm f) \<ge> 20\<close> by (auto simp: word_ok_def graphic_def)
qed

lemma explode_two:
  assumes "word_ok a" and "word_ok b"
  shows "explode (a @ CHR '' '' # b) (CHR '' '') = [a, b]"
  using assms word_ok_no_space explode_token(2) [of "CHR '' ''" a b] explode_token(1) [of b "CHR '' ''"] by (auto simp: word_ok_def)

lemma identifier_word: "word_ok (AlgorithmIdentifier a)"
  by (cases a) (simp_all add: word_ok_def graphic_def isspace_def)

lemma identifier_lower: "map tolower (AlgorithmIdentifier a) = AlgorithmIdentifier a"
  by (cases a) (simp_all add: tolower_def)

lemma algorithm_of_identifier: "algorithm_of (AlgorithmIdentifier a) = Some (if a = Sha384 then Sha256 else a)"
  by (cases a) (simp_all add: algorithm_of_def)

lemma parse_fingerprint_value:
  "word_ok v \<Longrightarrow> parse_fingerprint (AlgorithmIdentifier a @ CHR '' '' # v) s =
     setFingerprint \<lparr>fp_algorithm = if a = Sha384 then Sha256 else a, fp_value = v\<rparr> s"
  by (simp add: parse_fingerprint_def explode_two identifier_word identifier_lower algorithm_of_identifier)

lemma parse_fingerprint_line:
  assumes "case de_fingerprint d of Some f \<Rightarrow> fingerprint_ok f | None \<Rightarrow> True" and "de_fingerprint s = None"
  shows "fold_result parse_line (fingerprint_line d) (i, s) = Inr (i, s\<lparr>de_fingerprint := de_fingerprint d\<rparr>)"
proof (cases "de_fingerprint d")
  case None
  then show ?thesis using assms(2) by (cases s) (simp add: fingerprint_line_def)
next
  case (Some f)
  then have f: "fingerprint_isValid f" "map toupper (fp_value f) = fp_value f" "fp_algorithm f \<noteq> Sha384" using assms(1) by (simp_all add: fingerprint_ok_def)
  have "parse_line (''a=fingerprint:'' @ AlgorithmIdentifier (fp_algorithm f) @ '' '' @ fp_value f) (i, s) = Inr (i, s\<lparr>de_fingerprint := Some f\<rparr>)"
    using f assms(2) parse_fingerprint_value [OF fingerprint_word [OF f(1)], of "fp_algorithm f" s]
    by (cases f) (simp add: parse_line_def parse_attribute_def parse_pair_keys(5) [simplified] setFingerprint_def)
  then show ?thesis by (simp add: fingerprint_line_def Some)
qed

section \<open>Well-formed descriptions\<close>

definition description_ok :: "Description \<Rightarrow> bool" where
  "description_ok d \<longleftrightarrow> word_ok (de_username d) \<and> word_ok (de_sessionId d) \<and> options_ok (de_iceOptions d) \<and>
     (case de_fingerprint d of Some f \<Rightarrow> fingerprint_ok f | None \<Rightarrow> True) \<and>
     (case de_iceUfrag d of Some u \<Rightarrow> text_ok u | None \<Rightarrow> True) \<and> (case de_icePwd d of Some p \<Rightarrow> text_ok p | None \<Rightarrow> True) \<and>
     (\<forall>attr \<in> set (de_attributes d). text_ok attr \<and> key attr \<notin> set session_keys) \<and>
     (\<forall>e \<in> set (de_entries d). entry_wf e) \<and> length (filter is_application (de_entries d)) \<le> 1 \<and>
     \<not> list_all entry_isRemoved (de_entries d) \<and>
     (\<forall>c \<in> set (de_candidates d). candidate_ok c) \<and> candidates_differ (de_candidates d) \<and> default_port d \<noteq> 0"

definition received_description :: "DescriptionType \<Rightarrow> Description \<Rightarrow> Description" where
  "received_description type d =
     d\<lparr>de_type := type, de_attributes := announced d @ de_attributes d, de_entries := map entry_parsed (de_entries d),
       de_candidates := map (received_candidate (bundleMid d)) (de_candidates d)\<rparr>"

lemma entry_wf_mid: "entry_wf e \<Longrightarrow> word_ok (entry_mid e)"
  by (cases e) (auto simp: application_ok_def media_ok_def entry_ok_def)

lemma hintType_init: "hintType type (Description_init role) = (Description_init role)\<lparr>de_type := type\<rparr>"
  by (simp add: hintType_def Description_init_def)

lemma parse_sdp_lines:
  assumes "description_ok d"
  shows "fold_result parse_line (sdp_lines d) (-1, hintType type (Description_init role)) = Inr (int (length (de_entries d)) - 1, received_description type d)"
proof -
  let ?s0 = "(Description_init role)\<lparr>de_type := type\<rparr>"
  let ?s1 = "?s0\<lparr>de_username := de_username d, de_sessionId := de_sessionId d\<rparr>"
  let ?s2 = "?s1\<lparr>de_attributes := announced d, de_iceOptions := de_iceOptions d, de_fingerprint := de_fingerprint d\<rparr>"
  let ?s3 = "?s2\<lparr>de_attributes := announced d @ de_attributes d\<rparr>"
  have 1: "fold_result parse_line (header_lines d) (-1, ?s0) = Inr (-1, ?s1)"
    using assms by (intro parse_header) (simp_all add: description_ok_def Description_init_def)
  have 2: "fold_result parse_line (map (\<lambda>attr. ''a='' @ attr) (announced d)) (-1, ?s1) = Inr (-1, ?s1\<lparr>de_attributes := announced d\<rparr>)"
    using parse_session_attributes [OF announced_keys, of ?s1 d "-1"] by (simp add: Description_init_def)
  have 3: "fold_result parse_line (ice_options_line d) (-1, ?s1\<lparr>de_attributes := announced d\<rparr>) =
      Inr (-1, ?s1\<lparr>de_attributes := announced d, de_iceOptions := de_iceOptions d\<rparr>)"
    using assms parse_ice_options [of d "?s1\<lparr>de_attributes := announced d\<rparr>" "-1"] by (simp add: description_ok_def Description_init_def)
  have 4: "fold_result parse_line (fingerprint_line d) (-1, ?s1\<lparr>de_attributes := announced d, de_iceOptions := de_iceOptions d\<rparr>) = Inr (-1, ?s2)"
    using assms parse_fingerprint_line [of d "?s1\<lparr>de_attributes := announced d, de_iceOptions := de_iceOptions d\<rparr>" "-1"]
    by (simp add: description_ok_def Description_init_def)
  have 5: "fold_result parse_line (map (\<lambda>attr. ''a='' @ attr) (de_attributes d)) (-1, ?s2) = Inr (-1, ?s3)"
    using assms parse_session_attributes [of "de_attributes d" ?s2 "-1"] by (simp add: description_ok_def Description_init_def)
  have 6: "fold_result parse_line (entries_lines d True (de_entries d)) (-1, ?s3) =
      Inr (-1 + int (length (de_entries d)), entries_received d True (de_entries d) ?s3)"
    using assms entry_wf_mid by (intro parse_entries [where pre = "[]"]) (auto simp: description_ok_def Description_init_def word_ok_def)
  have 7: "entries_received d True (de_entries d) ?s3 = received_description type d"
    using assms by (cases d) (auto simp: entries_received_def received_description_def description_ok_def Description_init_def)
  show ?thesis
    unfolding hintType_init sdp_lines_def session_lines_announced fold_result_append 1 2 3 4 5 6 7 bind_result_simps by simp
qed

section \<open>Every line is a line of text\<close>

definition fit :: "string \<Rightarrow> bool" where
  "fit l \<longleftrightarrow> l \<noteq> [] \<and> text_ok l"

lemma text_ok_simps [simp]:
  "text_ok []" "text_ok (c # s) \<longleftrightarrow> c \<noteq> LF \<and> (if s = [] then \<not> isspace c else text_ok s)"
  by (auto simp: text_ok_def)

lemma text_ok_append_iff [simp]: "text_ok (p @ s) \<longleftrightarrow> (if s = [] then text_ok p else LF \<notin> set p \<and> text_ok s)"
  by (auto simp: text_ok_def)

lemma word_ok_Nil [simp]: "\<not> word_ok []"
  by (simp add: word_ok_def)

lemma word_no_LF: "word_ok s \<Longrightarrow> LF \<notin> set s" and text_no_LF: "text_ok s \<Longrightarrow> LF \<notin> set s"
  by (auto simp: word_ok_def text_ok_def graphic_def isspace_def)

lemmas printable = fit_def word_ok_text word_no_LF text_no_LF isspace_def

lemma fit_attribute: "text_ok attr \<Longrightarrow> fit (''a='' @ attr)"
  by (simp add: printable)

lemma nat_string_text: "text_ok (nat_string n)" "LF \<notin> set (nat_string n)" "text_ok (to_string i)"
  using word_ok_nat_string word_ok_text word_no_LF to_string_word by blast+

lemma fit_candidate:
  assumes "candidate_ok c"
  shows "fit (Candidate_string c)"
proof -
  have "text_ok (cd_tail c)" using assms by (auto simp: candidate_ok_def tail_ok_def text_ok_def)
  then show ?thesis
    using assms nat_string_text by (auto simp: candidate_ok_def Candidate_string_def candidate_string_def printable)
qed

lemma default_address_text:
  assumes "\<forall>c \<in> set (de_candidates d). candidate_ok c"
  shows "text_ok (default_address d)" and "default_address d \<noteq> []"
proof -
  have loop: "default_candidate_loop r cs = Some c \<Longrightarrow> r = Some c \<or> c \<in> set cs" for r cs c
    by (induction cs arbitrary: r) (auto split: if_splits option.splits)
  have "word_ok (cd_address c)" if "defaultCandidate d = Some c" "isResolved c" for c
    using loop [of None "de_candidates d" c] that assms by (auto simp: defaultCandidate_def candidate_ok_def)
  then show "text_ok (default_address d)" "default_address d \<noteq> []"
    using word_ok_text by (auto simp: default_address_def isspace_def split: option.splits)
qed

lemma fit_common:
  assumes "entry_ok keys e" and "l \<in> set (Entry_generateSdpLines e)"
  shows "fit l"
proof -
  have e: "en_rids e = []" "word_ok (en_mid e)" "\<forall>x \<in> set (en_extMaps e). extmap_ok x" "\<forall>attr \<in> set (en_attributes e). text_ok attr"
    using assms(1) unfolding entry_ok_def by blast+
  have "fit (extmap_line x)" if "extmap_ok (k, x)" for k x
    using that by (cases "em_direction x") (auto simp: extmap_ok_def extmap_line_def printable)
  then have "\<forall>(_, x) \<in> set (en_extMaps e). fit (extmap_line x)" using e(3) by auto
  moreover have "fit (''a='' @ direction_string dir)" for dir by (cases dir) (simp_all add: printable)
  moreover have "fit (''a=mid:'' @ en_mid e)" using e(2) by (auto simp: printable)
  ultimately show ?thesis
    using assms(2) e(4) fit_attribute unfolding Entry_lines [OF e(1)] common_lines_def direction_lines_def by (auto split: if_splits)
qed

lemma fit_Application: "application_ok a \<Longrightarrow> l \<in> set (Application_generateSdpLines a) \<Longrightarrow> fit l"
  using fit_common [of application_keys a l] nat_string_text nat_string_nonempty
  by (auto simp: Application_generateSdpLines_def application_ok_def printable split: option.splits)

lemma fit_rtpmap:
  assumes "rtpmap_ok (k, r)" and "l \<in> set (rtpmap_lines r)"
  shows "fit l"
proof -
  have "to_string i \<noteq> []" for i using to_string_word by (metis word_ok_Nil)
  then show ?thesis using assms nat_string_text(3) by (auto simp: rtpmap_ok_def rtpmap_lines_def printable)
qed

lemma fit_Media:
  assumes "media_ok m" and "l \<in> set (Media_generateSdpLines m)"
  shows "fit l"
proof -
  have "fit (''b=AS:'' @ to_string (md_bas m))" using nat_string_text(3) [of "md_bas m"] to_string_word [of "md_bas m"] by (auto simp: printable)
  moreover have "fit ''a=rtcp-mux''" by (simp add: printable)
  moreover have "l \<in> set (Entry_generateSdpLines m) \<Longrightarrow> fit l" using assms(1) fit_common unfolding media_ok_def by blast
  moreover have "\<forall>(k, r) \<in> set (md_rtpMaps m). \<forall>l \<in> set (rtpmap_lines r). fit l" using assms(1) fit_rtpmap by (auto simp: media_ok_def)
  ultimately show ?thesis using assms(2) by (auto simp: Media_generateSdpLines_def split: if_splits)
qed

lemma fit_media_line:
  assumes "entry_ok keys e" and "tail_ok desc" and "desc \<noteq> []" and "text_ok addr" "addr \<noteq> []" and "\<forall>l \<in> set ls. fit l"
  shows "\<forall>l \<in> set (entry_lines addr port desc ls e). fit l"
proof -
  have "LF \<notin> set (en_type e)" "LF \<notin> set (en_protocol e)" using assms(1) word_no_LF by (auto simp: entry_ok_def)
  moreover have "text_ok desc" using assms(2) by (auto simp: tail_ok_def text_ok_def)
  ultimately show ?thesis using assms(3-) nat_string_text(2) by (auto simp: entry_lines_def printable)
qed

lemma fit_entry:
  assumes "entry_wf e" and "text_ok addr" and "addr \<noteq> []" and "l \<in> set (Entry_generateSdp addr port e)"
  shows "fit l"
proof (cases e)
  case (AppEntry a)
  then have a: "application_ok a" "entry_ok application_keys a" "tail_ok (en_description a)" "en_description a \<noteq> []"
    using assms(1) by (auto simp: application_ok_def)
  show ?thesis using fit_media_line [OF a(2-4) assms(2,3)] fit_Application [OF a(1)] assms(4) by (auto simp: AppEntry)
next
  case (MediaEntry m)
  then have m: "media_ok m" "entry_ok media_keys m" using assms(1) by (auto simp: media_ok_def)
  show ?thesis using fit_media_line [OF m(2) Media_description_ok [OF m(1)] assms(2,3)] fit_Media [OF m(1)] assms(4) by (auto simp: MediaEntry)
qed

lemma fit_transport:
  assumes "description_ok d" and "l \<in> set (transport_lines d)"
  shows "fit l"
proof -
  have "fit (''a=setup:'' @ role_string r)" for r by (cases r) (simp_all add: printable)
  then show ?thesis
    using assms by (auto simp: description_ok_def transport_lines_def printable split: option.splits)
qed

lemma fit_candidate_lines: "description_ok d \<Longrightarrow> l \<in> set (candidate_lines d) \<Longrightarrow> fit l"
  using fit_candidate by (auto simp: description_ok_def candidate_lines_def printable split: if_splits)

lemma fit_entries:
  assumes "description_ok d" and "set es \<subseteq> set (de_entries d)" and "l \<in> set (entries_lines d first es)"
  shows "fit l"
  using assms(2,3)
proof (induction es arbitrary: first)
  case (Cons e es)
  have cs: "\<forall>c \<in> set (de_candidates d). candidate_ok c" "entry_wf e" using assms(1) Cons.prems(1) by (auto simp: description_ok_def)
  then show ?case
    using Cons fit_entry [OF cs(2) default_address_text [OF cs(1)]] fit_transport [OF assms(1)] fit_candidate_lines [OF assms(1)]
    by (auto split: if_splits)
qed simp

lemma fit_mids: "\<forall>e \<in> set es. word_ok (entry_mid e) \<Longrightarrow> text_ok (concat (map (\<lambda>e. '' '' @ entry_mid e) es))"
  by (induction es) (auto simp: printable)

lemma fit_session:
  assumes "description_ok d" and "l \<in> set (session_lines d)"
  shows "fit l"
proof -
  have mids: "\<forall>e \<in> set (de_entries d). word_ok (entry_mid e)" using assms(1) entry_wf_mid by (auto simp: description_ok_def)
  have group: "fit l" if "l \<in> set (group_line name es)" "set es \<subseteq> set (de_entries d)" "name = ''BUNDLE'' \<or> name = ''LS''" for name es
    using that fit_mids [of es] mids by (auto simp: group_line_def Let_def printable subset_iff split: if_splits)
  have fp: "fit (''a=fingerprint:'' @ AlgorithmIdentifier a @ '' '' @ v)" if "word_ok v" for a v
    using that word_no_LF [OF identifier_word [of a]] by (auto simp: printable)
  have "fit l" if "l \<in> set (fingerprint_line d)"
    using that assms(1) fingerprint_word fp
    by (auto simp: description_ok_def fingerprint_ok_def fingerprint_line_def simp del: append.simps split: option.splits)
  moreover have "fit l" if "l \<in> set (ice_options_line d)"
    using that assms(1) by (auto simp: description_ok_def options_ok_def ice_options_line_def printable split: if_splits)
  moreover have "fit ''a=msid-semantic:WMS *''" by (simp add: printable)
  moreover have "fit (''a='' @ attr)" if "attr \<in> set (de_attributes d)" for attr
    using that assms(1) fit_attribute by (auto simp: description_ok_def)
  ultimately show ?thesis using assms(2) group unfolding session_lines_def by (auto simp del: append.simps)
qed

lemma fit_sdp_lines:
  assumes "description_ok d"
  shows "\<forall>l \<in> set (sdp_lines d). l \<noteq> [] \<and> text_ok l"
proof -
  have "\<forall>l \<in> set (header_lines d). fit l" using assms by (auto simp: description_ok_def header_lines_def printable)
  then show ?thesis
    using fit_session [OF assms] fit_entries [OF assms subset_refl] by (auto simp: sdp_lines_def fit_def)
qed

lemma Description_of_generateSdp:
  assumes "description_ok d"
  shows "Description_of random (generateSdp [CR, LF] d) type role = Inr (received_description type d)"
proof -
  have "de_username (received_description type d) \<noteq> []" "de_sessionId (received_description type d) \<noteq> []"
    using assms by (auto simp: description_ok_def received_description_def word_ok_def)
  then show ?thesis
    by (simp add: Description_of_def generateSdp_def explode_lines [OF fit_sdp_lines [OF assms]] parse_sdp_lines [OF assms])
qed

end
