(* ===== verification/SdpExchange.thy ===== *)
theory SdpExchange
  imports SdpSession
begin

text \<open>
  What two peers get out of an exchange of descriptions: the properties of the printed text, on top of the round trip of the theory
  \<open>SdpSession\<close>.
\<close>

section \<open>Descriptions stay well-formed\<close>

lemma printed_ok: "candidate_ok c \<Longrightarrow> candidate_ok (received_candidate mid c)"
  by (auto simp: candidate_ok_def received_candidate_def printed_def isResolved_def word_ok_nat_string)

lemma printed_received: "printed (received_candidate mid c) = received_candidate mid c"
  by (simp add: received_candidate_def printed_def isResolved_def)

lemma candidates_differ_received: "candidates_differ (map (received_candidate mid) cs) \<longleftrightarrow> candidates_differ cs"
  by (simp add: candidates_differ_def sorted_wrt_map printed_received Candidate_eq_received)

lemma received_unresolved: "\<forall>c \<in> set (de_candidates (received_description type d)). \<not> isResolved c"
  by (auto simp: received_description_def received_candidate_def printed_def isResolved_def)

lemma default_candidate_in: "default_candidate_loop r cs = Some c \<Longrightarrow> r = Some c \<or> c \<in> set cs"
  by (induction cs arbitrary: r) (auto split: if_splits option.splits)

lemma default_port_received: "default_port (received_description type d) = 9"
proof -
  have "\<not> isResolved c" if "defaultCandidate (received_description type d) = Some c" for c
    using that received_unresolved [of type d] default_candidate_in [of None "de_candidates (received_description type d)" c] by (auto simp: defaultCandidate_def)
  then show ?thesis by (auto simp: default_port_def split: option.splits)
qed

lemma entry_wf_parsed: "entry_wf e \<Longrightarrow> entry_wf (entry_parsed e)"
  by (cases e) (auto simp: media_ok_def entry_ok_def)

lemma entry_parsed_idem: "entry_parsed (entry_parsed e) = entry_parsed e"
  by (cases e) (auto simp: Media_description_def)

lemma text_ok_announced:
  assumes "description_ok d" and "attr \<in> set (announced d)"
  shows "text_ok attr"
proof -
  have "''a='' @ attr \<in> set (session_lines d)" using assms(2) by (auto simp: session_lines_announced)
  then have "text_ok (''a='' @ attr)" using fit_session [OF assms(1)] by (simp add: fit_def del: text_ok_append_iff text_ok_simps)
  then show ?thesis by (cases "attr = []") auto
qed

lemma received_ok:
  assumes "description_ok d"
  shows "description_ok (received_description type d)"
proof -
  have "length (filter is_application (map entry_parsed es)) = length (filter is_application es)" for es
    by (simp add: filter_map comp_def)
  moreover have "list_all entry_isRemoved (map entry_parsed es) = list_all entry_isRemoved es" for es
    by (simp add: list.pred_map comp_def)
  ultimately show ?thesis
    using assms announced_keys [of d] text_ok_announced [OF assms] default_port_received [of type d] entry_wf_parsed printed_ok
    by (auto simp: description_ok_def received_description_def candidates_differ_received)
qed

lemma announced_received: "announced (received_description type d) = announced d"
  by (simp add: announced_def received_description_def group_attribute_def filter_map comp_def)

lemma bundleMid_received: "bundleMid (received_description type d) = bundleMid d"
proof -
  have "find P (map entry_parsed es) = map_option entry_parsed (find P es)" if "\<And>e. P (entry_parsed e) = P e" for P es
    using that by (induction es) auto
  then show ?thesis by (auto simp: bundleMid_def received_description_def split: option.splits)
qed

section \<open>The exchange\<close>

text \<open>C8. The text that \<open>generateSdp\<close> prints for a well-formed description is accepted by the parser, which gives back the session:
  user name, session identifier, role, ICE credentials and options, certificate fingerprint, the end of candidates, every application and media
  entry in order (with its formats, extension maps, sources, bit rate, port, direction and attributes) and every candidate, under the
  identifier of the bundle. Only the session attributes differ: the group and msid-semantic lines that printing adds are read as attributes.\<close>

theorem sdp_roundtrip:
  assumes "description_ok d"
  shows "\<exists>d'. Description_of random (generateSdp [CR, LF] d) type role = Inr d' \<and>
    de_type d' = type \<and> de_role d' = de_role d \<and> de_username d' = de_username d \<and> de_sessionId d' = de_sessionId d \<and>
    de_iceUfrag d' = de_iceUfrag d \<and> de_icePwd d' = de_icePwd d \<and> de_iceOptions d' = de_iceOptions d \<and>
    de_fingerprint d' = de_fingerprint d \<and> de_ended d' = de_ended d \<and> de_entries d' = map entry_parsed (de_entries d) \<and>
    de_candidates d' = map (\<lambda>c. (printed c)\<lparr>cd_mid := Some (bundleMid d)\<rparr>) (de_candidates d) \<and>
    de_attributes d' = announced d @ de_attributes d \<and> description_ok d'"
  using Description_of_generateSdp [OF assms, of random type role] received_ok [OF assms, of type]
  by (simp add: received_description_def received_candidate_def)

text \<open>A session with a data channel and a video track.\<close>

definition sample_media :: Media where
  "sample_media =
     \<lparr>en_attributes = [''ssrc:42 cname:video'', ''msid:stream video''], en_extMaps = [(1, ExtMap_init 1 ''urn:x'' SendOnly)], en_type = ''video'',
      en_protocol = ''UDP/TLS/RTP/SAVPF'', en_description = [], en_mid = ''video'', en_rids = [], en_direction = SendOnly, en_isRemoved = False,
      md_bas = 3000, md_orderedPayloadTypes = [96], md_rtpMaps = [(96, (RtpMap_init 96)\<lparr>rm_format := ''H264'', rm_clockRate := 90000,
        rm_rtcpFbs := [''nack'', ''nack pli''], rm_fmtps := [''packetization-mode=1'']\<rparr>)],
      md_ssrcs = [42], md_cNameMap = [(42, ''video'')]\<rparr>"

definition sample_description :: Description where
  "sample_description = (Description_init ActPass)\<lparr>de_username := ''rtc'', de_sessionId := ''1'', de_iceUfrag := Some ''u'', de_icePwd := Some ''p'',
     de_iceOptions := [''ice2'', ''trickle''], de_entries := [AppEntry ((Application_init ''data'')\<lparr>ap_sctpPort := Some 5000\<rparr>), MediaEntry sample_media]\<rparr>"

lemmas text_defs = word_ok_def graphic_def isspace_def tail_ok_def parse_pair_def split_at_def session_keys_def entry_keys_def media_keys_def
  application_keys_def extmap_ok_def ExtMap_init_def int32_def rtpmap_ok_def RtpMap_init_def

lemma sample_ssrc: "to_integer_unsigned ''42 cname:video'' = Inr (42 :: u32)" "find_substring ''cname:'' ''42 cname:video'' = Some 3"
  by (simp_all add: to_integer_unsigned_def stoul_def read_number_def isspace_def isdigit_def digits_value_def)

lemma sample_media_ok: "media_ok sample_media"
  by (simp add: media_ok_def entry_ok_def sample_media_def text_defs ssrc_readable_def declared_ssrcs_def declare_ssrc_def sample_ssrc map_emplace_def)

lemma sample_description_ok: "description_ok sample_description"
  using sample_media_ok
  by (simp add: description_ok_def sample_description_def Description_init_def Application_init_def application_ok_def entry_ok_def text_defs
    options_ok_def implode_def candidates_differ_def default_port_def defaultCandidate_def)

theorem sdp_roundtrip_witness:
  "description_ok sample_description \<and> (\<exists>d'. Description_of 7 (generateSdp [CR, LF] sample_description) Offer ActPass = Inr d' \<and> de_role d' = ActPass \<and>
    hasMid ''video'' d' \<and> hasApplication d')"
  using sdp_roundtrip [OF sample_description_ok, of 7 Offer ActPass] sample_description_ok
  by (auto simp: sample_description_def sample_media_def hasMid_def hasApplication_def application_def Description_init_def Application_init_def)

section \<open>Relaying a description\<close>

text \<open>A description that is printed and parsed \<open>n\<close> times.\<close>

fun relay :: "nat \<Rightarrow> u32 \<Rightarrow> Description \<Rightarrow> Description result" where
  "relay 0 random d = Inr d"
| "relay (Suc n) random d = bind_result (Description_of random (generateSdp [CR, LF] d) (de_type d) ActPass) (relay n random)"

lemma received_received:
  "received_description (de_type (received_description type d)) (received_description type d) = (received_description type d)\<lparr>de_attributes := announced d @ announced d @ de_attributes d\<rparr>"
  unfolding received_description_def [of _ "received_description type d"] announced_received bundleMid_received
  by (simp add: received_description_def entry_parsed_idem received_candidate_def printed_def isResolved_def)

lemma concat_replicate_comm: "concat (replicate n a) @ a = a @ concat (replicate n a)"
  by (induction n) auto

lemma relay_received:
  "description_ok d \<Longrightarrow> relay (Suc n) random d =
     Inr ((received_description (de_type d) d)\<lparr>de_attributes := concat (replicate (Suc n) (announced d)) @ de_attributes d\<rparr>)"
proof (induction n arbitrary: d)
  case 0
  then show ?case by (simp add: Description_of_generateSdp received_description_def)
next
  case (Suc n)
  let ?r = "received_description (de_type d) d"
  have "relay (Suc (Suc n)) random d = relay (Suc n) random ?r"
    unfolding relay.simps(2) [of "Suc n"] Description_of_generateSdp [OF Suc.prems] by (simp del: relay.simps)
  also have "\<dots> = Inr ((received_description (de_type ?r) ?r)\<lparr>de_attributes := concat (replicate (Suc n) (announced d)) @ announced d @ de_attributes d\<rparr>)"
    using Suc.IH [OF received_ok [OF Suc.prems, of "de_type d"]] by (simp add: announced_received, simp add: received_description_def)
  also have "concat (replicate (Suc n) (announced d)) @ announced d @ de_attributes d = concat (replicate (Suc (Suc n)) (announced d)) @ de_attributes d"
    using concat_replicate_comm [of n "announced d"] by simp
  finally show ?case by (simp add: received_received)
qed

text \<open>Each pass of a description through the text adds the group and msid-semantic lines again: after \<open>n\<close> passes its session
  attributes begin with \<open>n\<close> copies of them, while the entries, credentials and candidates are those after the first pass.\<close>

theorem relay_repeats_groups:
  assumes "description_ok d" and "0 < n"
  shows "\<exists>d'. relay n random d = Inr d' \<and> de_attributes d' = concat (replicate n (announced d)) @ de_attributes d \<and>
    length (announced d) > 0 \<and> de_entries d' = map entry_parsed (de_entries d) \<and>
    de_candidates d' = map (received_candidate (bundleMid d)) (de_candidates d) \<and>
    de_role d' = de_role d \<and> de_fingerprint d' = de_fingerprint d \<and> de_iceUfrag d' = de_iceUfrag d \<and> de_icePwd d' = de_icePwd d"
proof -
  obtain m where n: "n = Suc m" using assms(2) by (cases n) auto
  then show ?thesis using relay_received [OF assms(1), of m random] by (simp add: received_description_def announced_def)
qed

theorem relay_repeats_groups_witness:
  "\<exists>d'. relay 2 7 sample_description = Inr d' \<and> de_attributes d' = announced sample_description @ announced sample_description"
  using relay_repeats_groups [OF sample_description_ok, of 2 7] by (auto simp: numeral_2_eq_2 sample_description_def Description_init_def)

section \<open>A fingerprint the peer refuses\<close>

lemma entries_lines_fingerprint: "entries_lines (d\<lparr>de_fingerprint := x\<rparr>) first es = entries_lines d first es"
  by (induction es arbitrary: first)
    (simp_all add: default_address_def default_port_def defaultCandidate_def transport_lines_def candidate_lines_def)

lemma sdp_lines_fingerprint:
  "sdp_lines d = (header_lines d @ map (\<lambda>attr. ''a='' @ attr) (announced d) @ ice_options_line d) @ fingerprint_line d @
     (map (\<lambda>attr. ''a='' @ attr) (de_attributes d) @ entries_lines d True (de_entries d))"
  "set (sdp_lines d) = set (fingerprint_line d) \<union> set (sdp_lines (d\<lparr>de_fingerprint := None\<rparr>))"
  using entries_lines_fingerprint [of None d]
  by (auto simp: sdp_lines_def session_lines_announced announced_def header_lines_def ice_options_line_def fingerprint_line_def)

text \<open>A certificate fingerprint of SHA-384 is printed under the name of SHA-256; its length is wrong for that algorithm, so the peer's
  parser raises on the description, whatever else is in it.\<close>

theorem sha384_fingerprint_refused:
  assumes "description_ok (d\<lparr>de_fingerprint := None\<rparr>)" and "de_fingerprint d = Some f" and "fp_algorithm f = Sha384" and "fingerprint_isValid f"
  shows "Description_of random (generateSdp [CR, LF] d) type role = Inl (InvalidArgument ''Invalid fingerprint'')"
proof -
  let ?s0 = "(Description_init role)\<lparr>de_type := type\<rparr>"
  let ?s1 = "?s0\<lparr>de_username := de_username d, de_sessionId := de_sessionId d, de_attributes := announced d\<rparr>"
  let ?s2 = "?s1\<lparr>de_iceOptions := de_iceOptions d\<rparr>"
  have d: "word_ok (de_username d)" "word_ok (de_sessionId d)" "options_ok (de_iceOptions d)" using assms(1) by (simp_all add: description_ok_def)
  have val: "word_ok (fp_value f)" "length (fp_value f) = 143" using assms(3,4) fingerprint_word by (auto simp: fingerprint_isValid_def Let_def)
  have invalid: "\<not> fingerprint_isValid \<lparr>fp_algorithm = Sha256, fp_value = fp_value f\<rparr>" using val(2) by (simp add: fingerprint_isValid_def)
  have line: "fit (''a=fingerprint:'' @ AlgorithmIdentifier (fp_algorithm f) @ '' '' @ fp_value f)"
    using val(1) word_no_LF [OF identifier_word] by (auto simp: printable)
  have "\<forall>l \<in> set (sdp_lines d). l \<noteq> [] \<and> text_ok l"
    unfolding sdp_lines_fingerprint(2) [of d] using fit_sdp_lines [OF assms(1)] line by (auto simp: fingerprint_line_def assms(2) fit_def simp del: append.simps)
  moreover have "fold_result parse_line (sdp_lines d) (-1, ?s0) = Inl (InvalidArgument ''Invalid fingerprint'')"
  proof -
    have 1: "fold_result parse_line (header_lines d) (-1, ?s0) = Inr (-1, ?s0\<lparr>de_username := de_username d, de_sessionId := de_sessionId d\<rparr>)"
      using d by (intro parse_header) (simp_all add: Description_init_def)
    have 2: "fold_result parse_line (map (\<lambda>attr. ''a='' @ attr) (announced d)) (-1, ?s0\<lparr>de_username := de_username d, de_sessionId := de_sessionId d\<rparr>) = Inr (-1, ?s1)"
      by (subst parse_session_attributes [OF announced_keys]) (simp_all add: Description_init_def)
    have 3: "fold_result parse_line (ice_options_line d) (-1, ?s1) = Inr (-1, ?s2)"
      using d(3) by (intro parse_ice_options) (simp_all add: Description_init_def)
    have "parse_line (''a=fingerprint:'' @ AlgorithmIdentifier (fp_algorithm f) @ '' '' @ fp_value f) (-1, ?s2) = Inl (InvalidArgument ''Invalid fingerprint'')"
      using assms(3) parse_fingerprint_value [OF val(1), of Sha384 ?s2] invalid
      by (simp add: parse_line_def parse_attribute_def parse_pair_keys(5) [simplified] setFingerprint_def Description_init_def)
    then have 4: "fold_result parse_line (fingerprint_line d) (-1, ?s2) = Inl (InvalidArgument ''Invalid fingerprint'')"
      by (simp add: fingerprint_line_def assms(2))
    show ?thesis unfolding sdp_lines_fingerprint(1) fold_result_append 1 2 3 4 bind_result_simps ..
  qed
  ultimately show ?thesis by (simp add: Description_of_def generateSdp_def explode_lines hintType_init)
qed

theorem sha384_fingerprint_refused_witness:
  "\<exists>f. fingerprint_isValid f \<and> Description_of 7 (generateSdp [CR, LF] (sample_description\<lparr>de_fingerprint := Some f\<rparr>)) Offer ActPass =
     Inl (InvalidArgument ''Invalid fingerprint'')"
proof -
  define f where "f = \<lparr>fp_algorithm = Sha384, fp_value = concat (replicate 47 ''00:'') @ ''00''\<rparr>"
  have "fingerprint_isValid f" by (simp add: f_def) code_simp
  moreover have "sample_description\<lparr>de_fingerprint := None\<rparr> = sample_description" by (simp add: sample_description_def Description_init_def)
  ultimately show ?thesis
    using sha384_fingerprint_refused [of "sample_description\<lparr>de_fingerprint := Some f\<rparr>" f 7 Offer ActPass] sample_description_ok
    by (auto simp: f_def)
qed

section \<open>Sources of a media entry\<close>

text \<open>
  \<open>removeSSRC\<close> drops the attributes that begin with the decimal digits of the source, also those of another source whose number goes on
  behind them.
\<close>

lemma match_prefix_iff: "match_prefix s p \<longleftrightarrow> (\<exists>t. s = p @ t)"
  by (metis append_take_drop_id match_prefix_append match_prefix_def)

lemma addSSRC_attributes:
  "en_attributes (addSSRC ssrc name msid track m) = en_attributes m @
     [ssrc_key ssrc @ (case name of Some n \<Rightarrow> '' cname:'' @ n | None \<Rightarrow> [])] @
     (case msid of Some i \<Rightarrow> let t = (case track of Some t \<Rightarrow> t | None \<Rightarrow> i) in [ssrc_key ssrc @ '' msid:'' @ i @ '' '' @ t, ''msid:'' @ i @ '' '' @ t] | None \<Rightarrow> [])"
  "md_ssrcs (addSSRC ssrc name msid track m) = md_ssrcs m @ [ssrc]"
  by (simp_all add: addSSRC_def Let_def split: option.splits)

text \<open>Removing a source removes the attributes of every source whose decimal number starts with the same digits: after adding the source
  \<open>other\<close> and removing \<open>ssrc\<close>, no \<open>ssrc\<close> attribute of \<open>other\<close> is left to be printed, although \<open>hasSSRC\<close>
  still answers that the entry has it.\<close>

theorem removeSSRC_drops_longer_numbers:
  assumes "match_prefix (nat_string (unat other)) (nat_string (unat ssrc))" and "other \<noteq> ssrc"
  shows "hasSSRC other (removeSSRC ssrc (addSSRC other name msid track m)) \<and>
    (\<forall>attr \<in> set (en_attributes (removeSSRC ssrc (addSSRC other name msid track m))). \<not> match_prefix attr (ssrc_key other))"
  using assms by (auto simp: hasSSRC_def removeSSRC_def addSSRC_attributes ssrc_key_def match_prefix_iff)

theorem removeSSRC_drops_longer_numbers_witness:
  "hasSSRC 123 (removeSSRC 12 (addSSRC 123 (Some ''a'') None None sample_media))"
proof -
  have "nat_string 123 = ''123''" "nat_string 12 = ''12''" by code_simp+
  then show ?thesis using removeSSRC_drops_longer_numbers [of 123 12 "Some ''a''" None None sample_media] by simp
qed

end
