(* ===== verification/OfferAnswer.thy ===== *)
theory OfferAnswer
  imports Negotiation SdpExchange
begin

text \<open>
  What the negotiation guarantees: an invariant of every reachable connection, the answer as a mirror of the offer, and the exchange of
  offer and answer between two connections through the text of their descriptions.
\<close>

section \<open>What operations on descriptions keep\<close>

lemma addCandidate_frame [simp]:
  "de_type (addCandidate c d) = de_type d" "de_entries (addCandidate c d) = de_entries d" "de_role (addCandidate c d) = de_role d"
  "de_iceUfrag (addCandidate c d) = de_iceUfrag d" "de_icePwd (addCandidate c d) = de_icePwd d" "de_fingerprint (addCandidate c d) = de_fingerprint d"
  by (simp_all add: addCandidate_def Let_def)

lemma addCandidates_frame [simp]:
  "de_type (addCandidates cs d) = de_type d" "de_entries (addCandidates cs d) = de_entries d" "de_role (addCandidates cs d) = de_role d"
  "de_iceUfrag (addCandidates cs d) = de_iceUfrag d" "de_icePwd (addCandidates cs d) = de_icePwd d" "de_fingerprint (addCandidates cs d) = de_fingerprint d"
  unfolding addCandidates_def by (induction cs arbitrary: d) simp_all

lemma addMedia_frame [simp]:
  "de_entries (snd (addMedia m d)) = de_entries d @ [MediaEntry m]" "de_type (snd (addMedia m d)) = de_type d" "de_role (snd (addMedia m d)) = de_role d"
  "de_entries (snd (addMedia_application a d)) = filter (\<lambda>e. \<not> is_application e) (de_entries d) @ [AppEntry a]"
  "de_type (snd (addMedia_application a d)) = de_type d" "de_role (snd (addMedia_application a d)) = de_role d"
  by (simp_all add: addMedia_def addMedia_application_def removeApplication_def Let_def)

lemma current_parse_type: "current_parseSdpLine l d = Inr d' \<Longrightarrow> de_type d' = de_type d"
  by (auto simp: current_parseSdpLine_def bind_result_Inr_iff)

lemma parse_fingerprint_type: "parse_fingerprint v d = Inr d' \<Longrightarrow> de_type d' = de_type d"
  by (auto simp: parse_fingerprint_def setFingerprint_def split: list.splits option.splits if_splits)

lemma parse_line_type: "parse_line l (i, d) = Inr (i', d') \<Longrightarrow> de_type d' = de_type d"
  by (auto simp: parse_line_def parse_attribute_def createEntry_def removeApplication_def parse_origin_def Let_def bind_result_Inr_iff
      split: if_splits prod.splits option.splits dest: current_parse_type parse_fingerprint_type)

lemma parse_lines_type: "fold_result parse_line ls (i, d) = Inr (i', d') \<Longrightarrow> de_type d' = de_type d"
proof (induction ls arbitrary: i d)
  case (Cons l ls)
  then obtain i1 d1 where 1: "parse_line l (i, d) = Inr (i1, d1)" "fold_result parse_line ls (i1, d1) = Inr (i', d')"
    by (auto simp: bind_result_Inr_iff)
  then show ?case using Cons.IH [OF 1(2)] parse_line_type [OF 1(1)] by simp
qed simp

lemma Description_of_type: "Description_of random sdp type role = Inr d \<Longrightarrow> de_type d = type"
  by (auto simp: Description_of_def bind_result_Inr_iff hintType_init Let_def dest!: parse_lines_type)

section \<open>The registry of tracks\<close>

definition tracks_ok :: "Peer \<Rightarrow> bool" where
  "tracks_ok p \<longleftrightarrow> distinct (map fst (pn_tracks p)) \<and>
     (\<forall>(mid, n) \<in> set (pn_tracks p). n < pn_nextTrack p \<and> (\<forall>t. pn_trackObjects p n = Some t \<longrightarrow> Track_mid t = mid)) \<and>
     (\<forall>n. pn_trackObjects p n \<noteq> None \<longrightarrow> n < pn_nextTrack p) \<and> (\<forall>n \<in> set (pn_trackLines p). n < pn_nextTrack p) \<and>
     (\<forall>s n. pn_tracksBySsrc p s = Some n \<longrightarrow> n \<in> snd ` set (pn_tracks p))"

text \<open>What the operations on tracks leave alone.\<close>

definition core :: "Peer \<Rightarrow> Peer" where
  "core p = p\<lparr>pn_tracks := [], pn_trackLines := [], pn_trackObjects := Map.empty, pn_nextTrack := 0, pn_tracksBySsrc := Map.empty,
     pn_pendingTracks := [], pn_events := []\<rparr>"

lemma core_fields:
  assumes "core p = core p'"
  shows "pn_signalingState p = pn_signalingState p'" "pn_localDescription p = pn_localDescription p'"
    "pn_currentLocalDescription p = pn_currentLocalDescription p'" "pn_remoteDescription p = pn_remoteDescription p'" "pn_ice p = pn_ice p'"
    "pn_config p = pn_config p'" "pn_channels p = pn_channels p'" "pn_state p = pn_state p'" "pn_closing p = pn_closing p'"
    "pn_gatheringState p = pn_gatheringState p'" "pn_dtlsConnected p = pn_dtlsConnected p'" "pn_trackCallback p = pn_trackCallback p'"
  using assms by (cases p; cases p'; simp add: core_def)+

lemma core_emit [simp]: "core (pn_emit e p) = core p"
  by (simp add: core_def pn_emit_def)

lemma core_new_track [simp]: "core (snd (new_track m p)) = core p"
  by (simp add: core_def new_track_def Let_def)

lemma core_update_track [simp]: "core (update_track n f p) = core p" "core (close_if_removed n p) = core p" "core (destroyTrack n p) = core p"
  by (simp_all add: core_def update_track_def close_if_removed_def destroyTrack_def)

lemma core_announce [simp]: "core (announce_track callback n p) = core p" "core (fold (announce_track callback) ns p) = core p"
proof -
  show *: "core (announce_track callback n p) = core p" for n p by (simp add: announce_track_def)
  show "core (fold (announce_track callback) ns p) = core p" by (induction ns arbitrary: p) (simp_all add: *)
qed

lemma core_pending [simp]: "core (p\<lparr>pn_pendingTracks := ns\<rparr>) = core p"
  by (simp add: core_def)

lemma core_triggerTrack [simp]: "core (triggerPendingTracks p) = core p" "core (triggerTrack n p) = core p"
  by (simp_all add: triggerPendingTracks_def triggerTrack_def Let_def split: option.splits)

lemma core_cache [simp]: "core (cache_entry e p) = core p" "core (updateTrackSsrcCache d p) = core p"
proof -
  have *: "core (cache_entry e p) = core p" for e p by (simp add: cache_entry_def core_def split: entry.splits option.splits)
  then show "core (cache_entry e p) = core p" .
  have "core (fold cache_entry es p) = core p" for es p by (induction es arbitrary: p) (simp_all add: *)
  then show "core (updateTrackSsrcCache d p) = core p" by (simp add: updateTrackSsrcCache_def)
qed

text \<open>What the operations on tracks keep of the registry.\<close>

lemma tracks_ok_emit [simp]: "tracks_ok (pn_emit e p) = tracks_ok p" "tracks_ok (p\<lparr>pn_pendingTracks := ns\<rparr>) = tracks_ok p"
  by (simp_all add: tracks_ok_def pn_emit_def)

lemma tracks_ok_new_track: "tracks_ok p \<Longrightarrow> tracks_ok (snd (new_track m p))"
proof -
  assume p: "tracks_ok p"
  let ?n = "pn_nextTrack p"
  have old: "\<forall>(mid, n) \<in> set (pn_tracks p). n < ?n \<and> (\<forall>t. pn_trackObjects p n = Some t \<longrightarrow> Track_mid t = mid)" "distinct (map fst (pn_tracks p))"
      "\<forall>n. pn_trackObjects p n \<noteq> None \<longrightarrow> n < ?n" "\<forall>n \<in> set (pn_trackLines p). n < ?n" "\<forall>s n. pn_tracksBySsrc p s = Some n \<longrightarrow> n \<in> snd ` set (pn_tracks p)"
    using p by (simp_all add: tracks_ok_def)
  have mid: "Track_mid (Track_init m) = en_mid m" by (simp add: Track_mid_def Track_init_def)
  have upd: "\<forall>(mid, n) \<in> set (pn_tracks p). n < Suc ?n \<and> (\<forall>t. ((pn_trackObjects p)(?n \<mapsto> Track_init m)) n = Some t \<longrightarrow> Track_mid t = mid)"
    using old(1) by fastforce
  have bounds: "\<forall>n. ((pn_trackObjects p)(?n \<mapsto> Track_init m)) n \<noteq> None \<longrightarrow> n < Suc ?n" using old(3) by (auto simp: less_Suc_eq)
  have lines: "\<forall>n \<in> set (pn_trackLines p @ [?n]). n < Suc ?n" using old(4) by (auto simp: less_Suc_eq)
  show ?thesis
  proof (cases "map_of (pn_tracks p) (en_mid m) = None")
    case True
    then have "en_mid m \<notin> fst ` set (pn_tracks p)" by (simp add: map_of_eq_None_iff)
    then show ?thesis using True old upd bounds lines mid by (auto simp: tracks_ok_def new_track_def Let_def)
  next
    case False
    then show ?thesis using old upd bounds lines by (auto simp: tracks_ok_def new_track_def Let_def)
  qed
qed

lemma tracks_ok_update_track:
  assumes "tracks_ok p" and "\<And>t. pn_trackObjects p n = Some t \<Longrightarrow> Track_mid (f t) = Track_mid t"
  shows "tracks_ok (update_track n f p)"
proof -
  define objs where "objs = (pn_trackObjects p)(n := map_option f (pn_trackObjects p n))"
  have mid: "Track_mid t = mid" if "objs k = Some t" "\<forall>t. pn_trackObjects p k = Some t \<longrightarrow> Track_mid t = mid" for k mid t
    using that assms(2) by (auto simp: objs_def split: if_splits)
  have dom: "objs k \<noteq> None \<longleftrightarrow> pn_trackObjects p k \<noteq> None" for k by (auto simp: objs_def)
  have "\<forall>(mid, n) \<in> set (pn_tracks p). n < pn_nextTrack p \<and> (\<forall>t. objs n = Some t \<longrightarrow> Track_mid t = mid)"
    using assms(1) mid unfolding tracks_ok_def by blast
  moreover have "\<forall>n. objs n \<noteq> None \<longrightarrow> n < pn_nextTrack p" using assms(1) unfolding tracks_ok_def dom by blast
  ultimately show ?thesis using assms(1) by (simp add: tracks_ok_def update_track_def flip: objs_def)
qed

lemma Track_mid_frame [simp]:
  "Track_mid (Track_close t) = Track_mid t" "Track_mid (snd (Track_setDescription m t)) = Track_mid t" "Track_mid (t\<lparr>tk_openTriggered := b\<rparr>) = Track_mid t"
  by (simp_all add: Track_mid_def Track_close_def Track_resetCallbacks_def Track_setMediaHandler_def tk_emit_def Track_setDescription_def)

lemma tracks_ok_close [simp]: "tracks_ok p \<Longrightarrow> tracks_ok (close_if_removed n p)"
  unfolding close_if_removed_def by (rule tracks_ok_update_track) simp_all

lemma tracks_ok_announce: "tracks_ok p \<Longrightarrow> tracks_ok (announce_track callback n p)" "tracks_ok p \<Longrightarrow> tracks_ok (fold (announce_track callback) ns p)"
proof -
  have *: "tracks_ok p \<Longrightarrow> tracks_ok (announce_track callback n p)" for n p by (simp add: announce_track_def tracks_ok_update_track)
  then show "tracks_ok p \<Longrightarrow> tracks_ok (announce_track callback n p)" .
  show "tracks_ok p \<Longrightarrow> tracks_ok (fold (announce_track callback) ns p)" by (induction ns arbitrary: p) (simp_all add: *)
qed

lemma tracks_ok_trigger: "tracks_ok p \<Longrightarrow> tracks_ok (triggerPendingTracks p)" "tracks_ok p \<Longrightarrow> tracks_ok (triggerTrack n p)"
  by (simp_all add: triggerPendingTracks_def triggerTrack_def Let_def tracks_ok_announce tracks_ok_update_track split: option.splits)

lemma fold_upd_range: "fold (\<lambda>s c. c(s \<mapsto> n)) ss c s = Some m \<Longrightarrow> m = n \<or> c s = Some m"
  by (induction ss arbitrary: c) (fastforce split: if_splits)+

lemma tracks_ok_cache_entry: "tracks_ok p \<Longrightarrow> tracks_ok (cache_entry e p)"
proof (cases e)
  case (MediaEntry m)
  assume p: "tracks_ok p"
  show ?thesis
  proof (cases "live_track (en_mid m) p")
    case (Some n)
    then have "(en_mid m, n) \<in> set (pn_tracks p)" by (auto simp: live_track_def split: option.splits if_splits dest: map_of_SomeD)
    then have "n \<in> snd ` set (pn_tracks p)" by force
    then show ?thesis using p Some by (auto simp: tracks_ok_def cache_entry_def MediaEntry dest!: fold_upd_range)
  qed (use p in \<open>simp add: cache_entry_def MediaEntry\<close>)
qed (simp add: cache_entry_def)

lemma tracks_ok_cache: "tracks_ok p \<Longrightarrow> tracks_ok (updateTrackSsrcCache d p)"
proof -
  have "tracks_ok p \<Longrightarrow> tracks_ok (fold cache_entry es p)" for es by (induction es arbitrary: p) (simp_all add: tracks_ok_cache_entry)
  then show "tracks_ok p \<Longrightarrow> tracks_ok (updateTrackSsrcCache d p)" by (simp add: updateTrackSsrcCache_def)
qed

text \<open>A track that was made for an incoming medium is there after it was announced.\<close>

lemma announce_alive: "pn_trackObjects p n \<noteq> None \<Longrightarrow> pn_trackObjects (fold (announce_track callback) ns p) n \<noteq> None"
proof (induction ns arbitrary: p)
  case (Cons k ns)
  then have "pn_trackObjects (announce_track callback k p) n \<noteq> None" by (auto simp: announce_track_def update_track_def pn_emit_def)
  then show ?case using Cons.IH by simp
qed simp

lemma update_track_alive: "pn_trackObjects (update_track k f p) n \<noteq> None \<longleftrightarrow> pn_trackObjects p n \<noteq> None"
  by (auto simp: update_track_def)

lemma new_track_alive:
  assumes "new_track m p = (n, p')"
  shows "pn_trackObjects (close_if_removed n (triggerTrack n p')) n \<noteq> None"
proof -
  have "pn_trackObjects p' n \<noteq> None" using assms by (auto simp: new_track_def Let_def)
  moreover have "pn_trackObjects (triggerPendingTracks q) n \<noteq> None" if "pn_trackObjects q n \<noteq> None" for q
  proof (cases "pn_trackCallback q")
    case (Some callback)
    have "pn_trackObjects (q\<lparr>pn_pendingTracks := []\<rparr>) n \<noteq> None" using that by simp
    from announce_alive [OF this] show ?thesis unfolding triggerPendingTracks_def Some option.case .
  qed (use that in \<open>simp add: triggerPendingTracks_def\<close>)
  moreover have "pn_trackObjects (q\<lparr>pn_pendingTracks := ns\<rparr>) n = pn_trackObjects q n" for q ns by simp
  ultimately show ?thesis unfolding close_if_removed_def update_track_alive triggerTrack_def Let_def by (metis update_track_alive)
qed

section \<open>The answer mirrors the offer\<close>

text \<open>A description has at most one application entry; the operations that add one remove the old one before.\<close>

definition single_application :: "Description \<Rightarrow> bool" where
  "single_application d \<longleftrightarrow> length (filter is_application (de_entries d)) \<le> 1"

definition outline :: "Description \<Rightarrow> (string \<times> bool) list" where
  "outline d = map (\<lambda>e. (entry_mid e, is_application e)) (de_entries d)"

lemma reciprocate_mid [simp]: "en_mid (Media_reciprocate m) = en_mid m"
  by (simp add: Media_reciprocate_def Let_def Entry_removeAttribute_def clearSSRCs_def setDirection_def)

lemma new_track_mid: "new_track m p = (n, p') \<Longrightarrow> map_of (pn_tracks p) (en_mid m) = None \<Longrightarrow> (en_mid m, n) \<in> set (pn_tracks p')"
  by (auto simp: new_track_def Let_def)

lemma announce_frame: "pn_tracks (announce_track callback n p) = pn_tracks p" "pn_tracks (fold (announce_track callback) ns p) = pn_tracks p"
proof -
  show *: "pn_tracks (announce_track callback n p) = pn_tracks p" for n p by (simp add: announce_track_def update_track_def pn_emit_def)
  show "pn_tracks (fold (announce_track callback) ns p) = pn_tracks p" by (induction ns arbitrary: p) (simp_all add: *)
qed

lemma trigger_frame [simp]: "pn_tracks (close_if_removed n (triggerTrack n p)) = pn_tracks p"
  by (simp add: close_if_removed_def update_track_def triggerTrack_def triggerPendingTracks_def Let_def announce_frame split: option.splits)

lemma tracks_ok_mid: "tracks_ok p \<Longrightarrow> (mid, n) \<in> set (pn_tracks p) \<Longrightarrow> pn_trackObjects p n = Some t \<Longrightarrow> en_mid (tk_description t) = mid"
  by (auto simp: tracks_ok_def Track_mid_def)

lemma reciprocate_entry_step:
  assumes "tracks_ok p" "reciprocate_entry e (d, p) = (d', p')" "is_application e \<longrightarrow> filter is_application (de_entries d) = []"
  shows "tracks_ok p' \<and> core p' = core p \<and> de_type d' = de_type d \<and> de_role d' = de_role d \<and> outline d' = outline d @ [(entry_mid e, is_application e)]"
proof (cases e)
  case (AppEntry a)
  have "filter (\<lambda>e. \<not> is_application e) (de_entries d) = de_entries d"
    using assms(3) by (simp add: AppEntry filter_empty_conv filter_id_conv)
  then show ?thesis using assms by (auto simp: AppEntry reciprocate_entry_def outline_def local_application_def Application_init_def
      setMaxMessageSize_def setSctpPort_def hintSctpPort_def Application_reciprocate_def split: if_splits)
next
  case (MediaEntry m)
  show ?thesis
  proof (cases "map_of (pn_tracks p) (en_mid m)")
    case (Some n)
    then have "(en_mid m, n) \<in> set (pn_tracks p)" by (rule map_of_SomeD)
    then show ?thesis using assms(1,2) tracks_ok_mid [OF assms(1)] Some
      by (auto simp: MediaEntry reciprocate_entry_def outline_def markRemoved_def split: option.splits)
  next
    case None
    obtain n q where q: "new_track (Media_reciprocate m) p = (n, q)" by (cases "new_track (Media_reciprocate m) p")
    define r where "r = close_if_removed n (triggerTrack n q)"
    have q_ok: "tracks_ok q" "core q = core p" using tracks_ok_new_track [OF assms(1), of "Media_reciprocate m"] core_new_track [of "Media_reciprocate m" p] by (simp_all add: q)
    have r: "tracks_ok r" "core r = core p" "(en_mid m, n) \<in> set (pn_tracks r)"
      using tracks_ok_trigger(2) [OF q_ok(1)] q_ok(2) new_track_mid [OF q] None by (simp_all add: r_def)
    obtain t where t: "pn_trackObjects r n = Some t" using new_track_alive [OF q] unfolding r_def by blast
    have "reciprocate_entry e (d, p) = (snd (addMedia (tk_description t) d), r)"
      using t by (simp add: MediaEntry reciprocate_entry_def None q Let_def flip: r_def)
    then show ?thesis using r tracks_ok_mid [OF r(1,3) t] assms(2) by (auto simp: MediaEntry outline_def)
  qed
qed

lemma reciprocate_entries:
  assumes "tracks_ok p" "fold reciprocate_entry es (d, p) = (d', p')" "length (filter is_application (de_entries d)) + length (filter is_application es) \<le> 1"
  shows "tracks_ok p' \<and> core p' = core p \<and> de_type d' = de_type d \<and> de_role d' = de_role d \<and>
    outline d' = outline d @ map (\<lambda>e. (entry_mid e, is_application e)) es"
  using assms
proof (induction es arbitrary: d p)
  case (Cons e es)
  obtain d1 p1 where 1: "reciprocate_entry e (d, p) = (d1, p1)" by (cases "reciprocate_entry e (d, p)")
  have "is_application e \<longrightarrow> filter is_application (de_entries d) = []" using Cons.prems(3) by auto
  note step = reciprocate_entry_step [OF Cons.prems(1) 1 this]
  have count: "length (filter is_application (de_entries x)) = length (filter snd (outline x))" for x
    by (simp add: outline_def filter_map comp_def)
  have "length (filter is_application (de_entries d1)) + length (filter is_application es) \<le> 1"
    using step Cons.prems(3) unfolding count [of d1] by (auto simp: count split: if_splits)
  from Cons.IH [OF _ _ this, of p1] step Cons.prems(2) 1 show ?case by auto
qed simp

section \<open>What a description that is set does to the connection\<close>

lemma setFingerprint_Inr: "setFingerprint f d = Inr d' \<Longrightarrow> \<exists>fp. d' = d\<lparr>de_fingerprint := Some fp\<rparr>"
  by (auto simp: setFingerprint_def split: if_splits)

lemma add_local_track_type: "de_type (add_local_track p n d) = de_type d"
  by (simp add: add_local_track_def split: option.splits)

lemma add_local_media_type: "add_local_media p d = Inr d' \<Longrightarrow> de_type d' = de_type d"
proof -
  have "de_type (fold (add_local_track p) ns d) = de_type d" for ns d
    by (induction ns arbitrary: d) (simp_all add: add_local_track_type)
  then show "add_local_media p d = Inr d' \<Longrightarrow> de_type d' = de_type d" by (auto simp: add_local_media_def Let_def split: if_splits)
qed

text \<open>The entries that a description takes from the remote one, and the tracks they make.\<close>

definition mirror :: "Description \<Rightarrow> Peer \<Rightarrow> Description \<times> Peer" where
  "mirror d p =
     (case pn_remoteDescription p of
        Some remote \<Rightarrow> (case fold reciprocate_entry (de_entries remote) (clearMedia d, p) of (d, p) \<Rightarrow> (d, updateTrackSsrcCache remote p))
      | None \<Rightarrow> (clearMedia d, p))"

definition remote_single :: "Peer \<Rightarrow> bool" where
  "remote_single p \<longleftrightarrow> (\<forall>r. pn_remoteDescription p = Some r \<longrightarrow> single_application r)"

lemma mirror_keeps:
  assumes "tracks_ok p" "remote_single p" "mirror d p = (d', p')"
  shows "tracks_ok p' \<and> core p' = core p \<and> de_type d' = de_type d \<and> de_role d' = de_role d \<and>
    outline d' = (case pn_remoteDescription p of Some r \<Rightarrow> outline r | None \<Rightarrow> [])"
proof (cases "pn_remoteDescription p")
  case (Some r)
  obtain d1 p1 where 1: "fold reciprocate_entry (de_entries r) (clearMedia d, p) = (d1, p1)"
    by (cases "fold reciprocate_entry (de_entries r) (clearMedia d, p)")
  have "length (filter is_application (de_entries (clearMedia d))) + length (filter is_application (de_entries r)) \<le> 1"
    using assms(2) Some by (simp add: remote_single_def single_application_def clearMedia_def)
  from reciprocate_entries [OF assms(1) 1 this] show ?thesis using assms(3) 1 Some
    by (auto simp: mirror_def tracks_ok_cache clearMedia_def outline_def)
qed (use assms in \<open>auto simp: mirror_def clearMedia_def outline_def\<close>)

text \<open>\<open>processLocalDescription\<close> either leaves the descriptions alone or installs the new one.\<close>

definition same_but_local :: "Peer \<Rightarrow> Peer \<Rightarrow> bool" where
  "same_but_local p p' \<longleftrightarrow> core p' = core (p\<lparr>pn_localDescription := pn_localDescription p', pn_currentLocalDescription := pn_currentLocalDescription p'\<rparr>)"

lemma same_but_local_core:
  assumes "core q = core p" "same_but_local q p'"
  shows "same_but_local p p'"
  using assms by (cases p; cases q; cases p'; simp add: same_but_local_def core_def)

lemma install_local:
  fixes p :: Peer and d :: Description
  defines "p' \<equiv> pn_emit (PnLocalDescription d) (set_as_local d (updateTrackSsrcCache d p))"
  assumes "tracks_ok p"
  shows "tracks_ok (if pn_dtlsConnected p' then pn_emit PnOpenTracks p' else p')" "same_but_local p (if b then pn_emit PnOpenTracks p' else p')"
    "\<exists>cs. pn_localDescription (if b then pn_emit PnOpenTracks p' else p') = Some (addCandidates cs d)"
proof -
  let ?q = "updateTrackSsrcCache d p"
  have q: "tracks_ok ?q" "core ?q = core p" using tracks_ok_cache [OF assms(2)] by simp_all
  have fields: "tracks_ok (x\<lparr>pn_localDescription := l\<rparr>) = tracks_ok x" "tracks_ok (x\<lparr>pn_currentLocalDescription := l\<rparr>) = tracks_ok x" for x l
    by (simp_all add: tracks_ok_def)
  show "tracks_ok (if pn_dtlsConnected p' then pn_emit PnOpenTracks p' else p')"
    using q(1) by (simp add: p'_def set_as_local_def extractCandidates_def fields split: option.splits)
  have "same_but_local ?q (if b then pn_emit PnOpenTracks p' else p')"
    by (simp add: p'_def set_as_local_def extractCandidates_def same_but_local_def pn_emit_def core_def split: option.splits)
  then show "same_but_local p (if b then pn_emit PnOpenTracks p' else p')" by (rule same_but_local_core [OF q(2)])
  have "addCandidates [] d = d" by (simp add: addCandidates_def)
  then show "\<exists>cs. pn_localDescription (if b then pn_emit PnOpenTracks p' else p') = Some (addCandidates cs d)"
    by (auto simp: p'_def set_as_local_def extractCandidates_def pn_emit_def split: option.splits) metis
qed

lemma processLocalDescription_effect:
  assumes "processLocalDescription env d p = (r, p')" "tracks_ok p" "remote_single p"
  shows "tracks_ok p' \<and> same_but_local p p' \<and>
    (case r of
       Inl _ \<Rightarrow> core p' = core p
     | Inr _ \<Rightarrow> (\<exists>l. pn_localDescription p' = Some l \<and> de_type l = de_type d \<and> de_entries l \<noteq> [] \<and> de_fingerprint l \<noteq> None \<and>
         (de_type d \<noteq> Offer \<longrightarrow> de_role l = de_role d \<and> outline l = (case pn_remoteDescription p of Some r \<Rightarrow> outline r | None \<Rightarrow> []))))"
proof -
  obtain d1 q where q: "mirror d p = (d1, q)" by (cases "mirror d p")
  note keeps = mirror_keeps [OF assms(2,3) q]
  have unfolded: "processLocalDescription env d p = bind_state (if de_type d = Offer then add_local_media q d1 else Inr d1, q) (\<lambda>d p.
         bind_state (setFingerprint (env_fingerprint env) d, p) (\<lambda>d p.
           if mediaCount d = 0 then (Inl (LogicError ''Local description has no media line''), p)
           else
             let p = pn_emit (PnLocalDescription d) (set_as_local d (updateTrackSsrcCache d p))
             in (Inr (), if pn_dtlsConnected p then pn_emit PnOpenTracks p else p)))"
    using q keeps by (auto simp: processLocalDescription_def mirror_def Let_def clearMedia_def split: option.splits prod.splits)
  have same: "same_but_local p q" using keeps by (cases p; cases q; simp add: same_but_local_def core_def)
  have refused: ?thesis if "p' = q" "r = Inl e" for e using that keeps same by simp
  show ?thesis
  proof (cases "if de_type d = Offer then add_local_media q d1 else Inr d1")
    case (Inl e)
    then show ?thesis using assms(1) refused unfolding unfolded Inl by auto
  next
    case d2: (Inr d2)
    show ?thesis
    proof (cases "setFingerprint (env_fingerprint env) d2")
      case (Inl e)
      then show ?thesis using assms(1) refused unfolding unfolded d2 bind_state_simps Inl by auto
    next
      case d3: (Inr d3)
      show ?thesis
      proof (cases "mediaCount d3 = 0")
        case True
        then show ?thesis using assms(1) refused unfolding unfolded d2 d3 bind_state_simps by auto
      next
        case False
        let ?p = "pn_emit (PnLocalDescription d3) (set_as_local d3 (updateTrackSsrcCache d3 q))"
        have eq: "r = Inr ()" "p' = (if pn_dtlsConnected ?p then pn_emit PnOpenTracks ?p else ?p)"
          using assms(1) False unfolding unfolded d2 d3 bind_state_simps Let_def by auto
        have q_ok: "tracks_ok q" "core q = core p" using keeps by simp_all
        obtain cs where l: "pn_localDescription p' = Some (addCandidates cs d3)" using install_local(3) [OF q_ok(1)] unfolding eq by blast
        have types: "de_type d3 = de_type d2" "de_role d3 = de_role d2" "de_entries d3 = de_entries d2" "de_fingerprint d3 \<noteq> None"
          using setFingerprint_Inr [OF d3] by auto
        have "de_type d2 = de_type d" using d2 keeps by (auto split: if_splits dest: add_local_media_type)
        moreover have "de_role d2 = de_role d1" "outline d2 = outline d1" if "de_type d \<noteq> Offer" using d2 that by auto
        moreover have "outline (addCandidates cs d3) = outline d2" by (simp add: outline_def types)
        moreover have "de_entries d3 \<noteq> []" using False by (auto simp: mediaCount_def)
        ultimately show ?thesis using l types keeps install_local(1) [OF q_ok(1)] same_but_local_core [OF q_ok(2) install_local(2) [OF q_ok(1)]]
          unfolding eq by simp
      qed
    qed
  qed
qed

section \<open>An invariant of the connection\<close>

definition own_offer :: "Description option \<Rightarrow> bool" where
  "own_offer l \<longleftrightarrow> (case l of Some d \<Rightarrow> de_type d = Offer \<and> de_entries d \<noteq> [] \<and> de_fingerprint d \<noteq> None | None \<Rightarrow> False)"

definition their_offer :: "Description option \<Rightarrow> bool" where
  "their_offer r \<longleftrightarrow> (case r of Some d \<Rightarrow> de_type d = Offer \<and> validateRemoteDescription d = Inr () | None \<Rightarrow> False)"

definition role_decided :: "Peer \<Rightarrow> bool" where
  "role_decided p \<longleftrightarrow> pn_remoteDescription p = None \<or> pn_state p = PsClosed \<or> (case pn_ice p of Some ice \<Rightarrow> ice_role ice \<noteq> ActPass | None \<Rightarrow> False)"

definition signaling_ok :: "Peer \<Rightarrow> bool" where
  "signaling_ok p \<longleftrightarrow>
     pn_signalingState p \<in> {Stable, HaveLocalOffer, HaveRemoteOffer} \<and>
     (pn_signalingState p = HaveLocalOffer \<longrightarrow> own_offer (pn_localDescription p)) \<and>
     (pn_signalingState p = HaveRemoteOffer \<longrightarrow> their_offer (pn_remoteDescription p))"

definition peer_inv :: "Peer \<Rightarrow> bool" where
  "peer_inv p \<longleftrightarrow> tracks_ok p \<and> remote_single p \<and> role_decided p \<and> signaling_ok p"

lemma tracks_ok_frame [simp]:
  "tracks_ok (p\<lparr>pn_state := x0\<rparr>) = tracks_ok p" "tracks_ok (p\<lparr>pn_signalingState := x7\<rparr>) = tracks_ok p" "tracks_ok (p\<lparr>pn_ice := x8\<rparr>) = tracks_ok p"
  "tracks_ok (p\<lparr>pn_localDescription := x9\<rparr>) = tracks_ok p" "tracks_ok (p\<lparr>pn_remoteDescription := x9\<rparr>) = tracks_ok p"
  "tracks_ok (p\<lparr>pn_iceState := x1\<rparr>) = tracks_ok p" "tracks_ok (p\<lparr>pn_gatheringState := x2\<rparr>) = tracks_ok p" "tracks_ok (p\<lparr>pn_closing := b\<rparr>) = tracks_ok p"
  "tracks_ok (p\<lparr>pn_dtlsConnected := b\<rparr>) = tracks_ok p" "tracks_ok (p\<lparr>pn_channels := x3\<rparr>) = tracks_ok p" "tracks_ok (p\<lparr>pn_trackCallback := x4\<rparr>) = tracks_ok p"
  "tracks_ok (p\<lparr>pn_currentLocalDescription := x6\<rparr>) = tracks_ok p" "tracks_ok (p\<lparr>pn_events := x10\<rparr>) = tracks_ok p"
  by (simp_all add: tracks_ok_def)

lemmas peer_inv_parts = peer_inv_def remote_single_def role_decided_def signaling_ok_def

lemma peer_inv_frame [simp]:
  "peer_inv (p\<lparr>pn_iceState := x1\<rparr>) = peer_inv p" "peer_inv (p\<lparr>pn_gatheringState := x2\<rparr>) = peer_inv p" "peer_inv (p\<lparr>pn_closing := b\<rparr>) = peer_inv p"
  "peer_inv (p\<lparr>pn_dtlsConnected := b\<rparr>) = peer_inv p" "peer_inv (p\<lparr>pn_channels := x3\<rparr>) = peer_inv p" "peer_inv (p\<lparr>pn_trackCallback := x4\<rparr>) = peer_inv p"
  "peer_inv (p\<lparr>pn_pendingTracks := x5\<rparr>) = peer_inv p" "peer_inv (p\<lparr>pn_currentLocalDescription := x6\<rparr>) = peer_inv p" "peer_inv (pn_emit e p) = peer_inv p"
  by (simp_all add: peer_inv_parts pn_emit_def)

lemma peer_inv_core:
  assumes "core p' = core p" "peer_inv p" "tracks_ok p'"
  shows "peer_inv p'"
  using assms(2,3) core_fields [OF assms(1)] by (simp add: peer_inv_parts)

lemma peer_inv_sync [simp]: "peer_inv (sync_channels p) = peer_inv p"
  by (simp add: sync_channels_def)

lemma peer_inv_state [simp]: "peer_inv p \<Longrightarrow> peer_inv (snd (changeState_pc s p))"
  by (auto simp: changeState_pc_def peer_inv_parts pn_emit_def)

lemma peer_inv_ice_state [simp]: "peer_inv p \<Longrightarrow> peer_inv (changeIceState s p)" "peer_inv p \<Longrightarrow> peer_inv (changeGatheringState s' p)"
  by (simp_all add: changeIceState_def changeGatheringState_def)

lemma set_ice_fields [simp]:
  "pn_signalingState (set_ice ice p) = pn_signalingState p" "pn_remoteDescription (set_ice ice p) = pn_remoteDescription p"
  "pn_localDescription (set_ice ice p) = pn_localDescription p" "pn_ice (set_ice ice p) = Some ice" "pn_state (set_ice ice p) = pn_state p"
  by (simp_all add: set_ice_def sync_channels_def)

lemma peer_inv_ice:
  assumes "peer_inv p" "ice_role ice \<noteq> ActPass \<or> pn_remoteDescription p = None \<or> (\<exists>i. pn_ice p = Some i \<and> ice_role i = ice_role ice)"
  shows "peer_inv (set_ice ice p)"
proof -
  have "role_decided (set_ice ice p)" using assms unfolding peer_inv_def role_decided_def by (auto split: option.splits)
  moreover have "tracks_ok (set_ice ice p) = tracks_ok p" by (simp add: set_ice_def sync_channels_def)
  ultimately show ?thesis using assms(1) by (simp add: peer_inv_def remote_single_def signaling_ok_def)
qed

lemma peer_inv_stable: "peer_inv p \<Longrightarrow> peer_inv (changeSignalingState Stable p)"
  by (auto simp: changeSignalingState_def peer_inv_parts pn_emit_def)

lemma changeState_fields [simp]:
  "pn_signalingState (snd (changeState_pc s p)) = pn_signalingState p" "pn_localDescription (snd (changeState_pc s p)) = pn_localDescription p"
  "pn_remoteDescription (snd (changeState_pc s p)) = pn_remoteDescription p" "pn_ice (snd (changeState_pc s p)) = pn_ice p"
  by (simp_all add: changeState_pc_def pn_emit_def)

lemma initIceTransport_inv:
  assumes "initIceTransport env p = (r, p')" "peer_inv p"
  shows "peer_inv p' \<and> pn_signalingState p' = pn_signalingState p \<and> pn_localDescription p' = pn_localDescription p \<and>
    pn_remoteDescription p' = pn_remoteDescription p \<and> (r = Inr True \<longrightarrow> pn_ice p' \<noteq> None)"
proof -
  have "pn_remoteDescription p = None" if "pn_ice p = None" "pn_state p \<noteq> PsClosed" using assms(2) that by (simp add: peer_inv_def role_decided_def)
  then show ?thesis using assms peer_inv_ice [OF assms(2)] by (auto simp: initIceTransport_def split: if_splits)
qed

lemma gather_inv: "peer_inv p \<Longrightarrow> peer_inv (snd (ice_gatherLocalCandidates env mid p))"
proof (cases "pn_ice p")
  case (Some ice)
  assume "peer_inv p"
  then have "peer_inv (if ice_gatheringState ice \<noteq> GsInProgress then changeGatheringState GsInProgress p else p)" by simp
  then show ?thesis unfolding ice_gatherLocalCandidates_def Some option.case Let_def snd_conv
    by (rule peer_inv_ice) (simp add: Some changeGatheringState_def pn_emit_def)
qed (simp add: ice_gatherLocalCandidates_def)

lemma same_but_local_fields:
  assumes "same_but_local p p'"
  shows "pn_signalingState p' = pn_signalingState p" "pn_remoteDescription p' = pn_remoteDescription p" "pn_ice p' = pn_ice p" "pn_state p' = pn_state p"
    "pn_config p' = pn_config p" "pn_channels p' = pn_channels p" "pn_gatheringState p' = pn_gatheringState p"
  using assms core_fields [OF assms [unfolded same_but_local_def]] by simp_all

lemma getLocalDescription_type: "getLocalDescription env type ice = Inr d \<Longrightarrow> de_type d = type"
  by (auto simp: getLocalDescription_def bind_result_Inr_iff addIceOption_def split: option.splits dest: Description_of_type)

lemma changeSignaling_fields [simp]:
  "pn_signalingState (changeSignalingState s p) = s" "pn_localDescription (changeSignalingState s p) = pn_localDescription p"
  "pn_remoteDescription (changeSignalingState s p) = pn_remoteDescription p" "pn_ice (changeSignalingState s p) = pn_ice p"
  "pn_state (changeSignalingState s p) = pn_state p" "tracks_ok (changeSignalingState s p) = tracks_ok p" "pn_config (changeSignalingState s p) = pn_config p"
  by (simp_all add: changeSignalingState_def pn_emit_def)

text \<open>An answer has an entry of the same kind with the same identifier for every entry of the offer, in the same order.\<close>

definition answered :: "Peer \<Rightarrow> bool" where
  "answered p \<longleftrightarrow>
     (case (pn_localDescription p, pn_remoteDescription p) of
        (Some l, Some r) \<Rightarrow> de_type r = Offer \<and> de_type l \<in> {Answer, Pranswer} \<and> outline l = outline r \<and> de_fingerprint l \<noteq> None
      | _ \<Rightarrow> False)"

lemma process_inv:
  assumes "processLocalDescription env d p = (r, p')" "peer_inv p" "local_transition (pn_signalingState p) (de_type d) = Inr (Some s)"
  shows "peer_inv p' \<and> pn_config p' = pn_config p \<and>
    (r = Inr () \<longrightarrow> peer_inv (changeSignalingState s p') \<and> (s = Stable \<longrightarrow> answered (changeSignalingState s p')))"
proof -
  have p: "tracks_ok p" "remote_single p" using assms(2) by (simp_all add: peer_inv_def)
  note effect = processLocalDescription_effect [OF assms(1) p]
  have fields: "pn_signalingState p' = pn_signalingState p" "pn_remoteDescription p' = pn_remoteDescription p" "pn_ice p' = pn_ice p" "pn_state p' = pn_state p"
    "pn_config p' = pn_config p" using effect same_but_local_fields [of p p'] by simp_all
  have states: "pn_signalingState p = Stable \<and> de_type d = Offer \<and> s = HaveLocalOffer \<or>
      pn_signalingState p = HaveRemoteOffer \<and> de_type d \<in> {Answer, Pranswer} \<and> s = Stable"
    using assms(2,3) unfolding peer_inv_def signaling_ok_def by (auto simp: local_transition_def split: if_splits)
  have kept: "peer_inv p'" using assms(2) effect states fields by (auto simp: peer_inv_parts)
  have "peer_inv (changeSignalingState s p') \<and> (s = Stable \<longrightarrow> answered (changeSignalingState s p'))" if r: "r = Inr ()"
  proof -
    obtain l where l: "pn_localDescription p' = Some l" "de_type l = de_type d" "de_entries l \<noteq> []" "de_fingerprint l \<noteq> None"
        "de_type d \<noteq> Offer \<longrightarrow> outline l = (case pn_remoteDescription p of Some r \<Rightarrow> outline r | None \<Rightarrow> [])"
      using effect r by auto
    from states show ?thesis
    proof
      assume "pn_signalingState p = Stable \<and> de_type d = Offer \<and> s = HaveLocalOffer"
      then show ?thesis using kept l by (simp add: peer_inv_parts own_offer_def)
    next
      assume *: "pn_signalingState p = HaveRemoteOffer \<and> de_type d \<in> {Answer, Pranswer} \<and> s = Stable"
      then have "their_offer (pn_remoteDescription p)" using assms(2) by (simp add: peer_inv_parts)
      then show ?thesis using * peer_inv_stable [OF kept] l fields by (auto simp: answered_def their_offer_def split: option.splits)
    qed
  qed
  then show ?thesis using kept fields by simp
qed

lemma set_local_inv:
  assumes "set_local env type init p = (r, p')" "peer_inv p"
  shows "peer_inv p' \<and> (\<forall>s. r = Inr (Some s) \<longrightarrow> pn_signalingState p' = s \<and> (s = Stable \<longrightarrow> answered p'))"
proof -
  let ?type = "guess_type (pn_signalingState p) type"
  show ?thesis
  proof (cases "\<exists>s. local_transition (pn_signalingState p) ?type = Inr (Some s)")
    case False
    then show ?thesis using assms by (auto simp: set_local_def Let_def split: sum.splits option.splits)
  next
    case True
    then obtain s where s: "local_transition (pn_signalingState p) ?type = Inr (Some s)" by blast
    obtain ok q where q: "initIceTransport env p = (ok, q)" by (cases "initIceTransport env p")
    note inv = initIceTransport_inv [OF q assms(2)]
    note body = assms(1) [unfolded set_local_def Let_def s sum.case option.case q]
    show ?thesis
    proof (cases ok)
      case (Inl e)
      then show ?thesis using body inv by auto
    next
      case ok: (Inr b)
      show ?thesis
      proof (cases "b \<and> \<not> (case init of Some (ufrag, pwd) \<Rightarrow> \<not> env_setAttributes env ufrag pwd | None \<Rightarrow> False)")
        case False
        then show ?thesis using body inv unfolding ok bind_state_simps by (auto split: if_splits)
      next
        case True
        note body' = body [unfolded ok bind_state_simps, simplified True, simplified]
        show ?thesis
        proof (cases "getLocalDescription env ?type (the (pn_ice q))")
          case (Inl e)
          then show ?thesis using body' inv by auto
        next
          case (Inr d)
          obtain x q' where q': "processLocalDescription env d q = (x, q')" by (cases "processLocalDescription env d q")
          have "local_transition (pn_signalingState q) (de_type d) = Inr (Some s)" using getLocalDescription_type [OF Inr] s inv by simp
          note last = process_inv [OF q' conjunct1 [OF inv] this]
          have "(x = Inr () \<and> r = Inr (Some s) \<and> p' = changeSignalingState s q') \<or> (\<exists>e. x = Inl e \<and> r = Inl e \<and> p' = q')"
            using body' Inr q' by (cases x) auto
          then show ?thesis using last by auto
        qed
      qed
    qed
  qed
qed

lemma rollback_inv: "peer_inv p \<Longrightarrow> peer_inv (changeSignalingState Stable (rollbackLocalDescription p))"
  by (auto simp: rollbackLocalDescription_def Let_def peer_inv_parts changeSignalingState_def pn_emit_def split: option.splits)

lemma setLocalDescription_inv: "peer_inv p \<Longrightarrow> peer_inv (snd (setLocalDescription env type init p))"
proof (induction env type init p rule: setLocalDescription.induct)
  case (1 env type init p)
  show ?case
  proof (cases "type = Rollback")
    case True
    then show ?thesis using rollback_inv [OF 1(2)] 1(2) by (simp add: setLocalDescription.simps)
  next
    case False
    obtain r q where q: "set_local env type init p = (r, q)" by (cases "set_local env type init p")
    note inv = set_local_inv [OF q 1(2)]
    show ?thesis
    proof (cases "\<exists>s. r = Inr (Some s)")
      case False
      then show ?thesis using inv q \<open>type \<noteq> Rollback\<close> by (auto simp: setLocalDescription.simps [of env type] split: sum.splits option.splits)
    next
      case True
      then obtain s where s: "r = Inr (Some s)" by blast
      let ?again = "\<not> cf_disableAutoNegotiation (pn_config q) \<and> s = Stable \<and> negotiationNeeded q"
      obtain x q' where q': "(if ?again then setLocalDescription env Offer None q else (Inr (), q)) = (x, q')"
        by (cases "if ?again then setLocalDescription env Offer None q else (Inr (), q)")
      have "peer_inv (snd (setLocalDescription env Offer None q))" if ?again
        using 1(1) [OF False q [symmetric, unfolded s]] that inv s by simp
      then have "peer_inv q'" using q' inv by (cases ?again) auto
      moreover have "snd (setLocalDescription env type init p) = q' \<or> snd (setLocalDescription env type init p) = snd (ice_gatherLocalCandidates env (localBundleMid q') q')"
        unfolding setLocalDescription.simps [of env type] q s using False q' by (auto split: sum.splits)
      ultimately show ?thesis using gather_inv by auto
    qed
  qed
qed

lemma remote_candidate_inv: "peer_inv p \<Longrightarrow> peer_inv (snd (processRemoteCandidate env c p))" "peer_inv p \<Longrightarrow> peer_inv (snd (addRemoteCandidates env cs p))"
proof -
  have *: "peer_inv (snd (processRemoteCandidate env c p))" if "peer_inv p" for c p
  proof (cases "pn_remoteDescription p")
    case (Some d)
    have "validateRemoteDescription (addCandidate x d) = validateRemoteDescription d" for x
      by (simp add: validateRemoteDescription_def mediaCount_def)
    then have "peer_inv (p\<lparr>pn_remoteDescription := Some (addCandidate x d)\<rparr>)" for x
      using that Some by (auto simp: peer_inv_parts single_application_def their_offer_def)
    then show ?thesis using that Some by (simp add: processRemoteCandidate_def Let_def)
  qed (use that in \<open>simp add: processRemoteCandidate_def\<close>)
  then show "peer_inv p \<Longrightarrow> peer_inv (snd (processRemoteCandidate env c p))" .
  show "peer_inv p \<Longrightarrow> peer_inv (snd (addRemoteCandidates env cs p))"
  proof (induction cs arbitrary: p)
    case (Cons c cs)
    show ?case
    proof (cases "processRemoteCandidate env c p")
      case (Pair r q)
      then have "peer_inv q" using * [OF Cons.prems, of c] by simp
      then show ?thesis using Cons.IH Pair by (cases r) auto
    qed
  qed simp
qed

lemma ice_remote_role:
  assumes "ice_setRemoteDescription env d ice = (r, ice')"
  shows "ice_role ice' \<noteq> ActPass \<or> ice' = ice \<and> r \<noteq> Inr ()"
  using assms by (auto simp: ice_setRemoteDescription_def Let_def split: if_splits)

lemma remote_transition_Inr:
  assumes "remote_transition st d = Inr (s, d', rollback)" "st \<in> {Stable, HaveLocalOffer, HaveRemoteOffer}"
  shows "s = HaveRemoteOffer \<and> de_type d' = Offer \<or> s = Stable \<and> de_type d' \<noteq> Offer" "\<exists>t. d' = d\<lparr>de_type := t\<rparr>"
proof -
  have "\<exists>u. hintType t d = d\<lparr>de_type := u\<rparr>" for t by (cases d) (auto simp: hintType_def)
  then show "\<exists>t. d' = d\<lparr>de_type := t\<rparr>" using assms by (auto simp: remote_transition_def Let_def split: if_splits)
qed (use assms in \<open>auto simp: remote_transition_def Let_def split: if_splits\<close>)

lemma single_type [simp]: "single_application (d\<lparr>de_type := t\<rparr>) = single_application d" "single_application (addCandidates cs d) = single_application d"
    "single_application (snd (extractCandidates d)) = single_application d" "de_type (snd (extractCandidates d)) = de_type d"
  by (simp_all add: single_application_def extractCandidates_def)

lemma validate_type [simp]: "validateRemoteDescription (d\<lparr>de_type := t\<rparr>) = validateRemoteDescription d"
    "validateRemoteDescription (addCandidates cs d) = validateRemoteDescription d" "validateRemoteDescription (snd (extractCandidates d)) = validateRemoteDescription d"
  by (simp_all add: validateRemoteDescription_def mediaCount_def extractCandidates_def)

lemma processRemoteDescription_effect:
  assumes "tracks_ok p"
  shows "tracks_ok (processRemoteDescription d p) \<and> pn_signalingState (processRemoteDescription d p) = pn_signalingState p \<and>
    pn_localDescription (processRemoteDescription d p) = pn_localDescription p \<and> pn_ice (processRemoteDescription d p) = pn_ice p \<and>
    pn_state (processRemoteDescription d p) = pn_state p \<and> (\<exists>cs. pn_remoteDescription (processRemoteDescription d p) = Some (addCandidates cs d))"
proof -
  let ?q = "updateTrackSsrcCache d p"
  have q: "tracks_ok ?q" "core ?q = core p" using tracks_ok_cache [OF assms] by simp_all
  show ?thesis using q(1) core_fields [OF q(2)] by (simp add: processRemoteDescription_def Let_def sync_channels_def pn_emit_def) blast
qed

lemma set_remote_inv:
  assumes "set_remote env d p = (r, p')" "peer_inv p" "single_application d"
  shows "peer_inv p' \<and> (\<forall>s cs. r = Inr (Some (s, cs)) \<longrightarrow> pn_signalingState p' = s)"
proof (cases "validateRemoteDescription d = Inr () \<and> (\<exists>x. remote_transition (pn_signalingState p) d = Inr x)")
  case False
  then show ?thesis using assms by (auto simp: set_remote_def split: sum.splits)
next
  case True
  then obtain s d1 rollback where valid: "validateRemoteDescription d = Inr ()" and s: "remote_transition (pn_signalingState p) d = Inr (s, d1, rollback)"
    by auto
  have states: "pn_signalingState p \<in> {Stable, HaveLocalOffer, HaveRemoteOffer}" using assms(2) by (simp add: peer_inv_parts)
  define q where "q = (if rollback then changeSignalingState Stable (rollbackLocalDescription p) else p)"
  define d2 where "d2 = snd (extractCandidates d1)"
  have q: "peer_inv q" using rollback_inv assms(2) by (simp add: q_def)
  obtain ok q1 where q1: "initIceTransport env q = (ok, q1)" by (cases "initIceTransport env q")
  note inv = initIceTransport_inv [OF q1 q]
  have ext: "extractCandidates d1 = (de_candidates d1, d2)" by (simp add: d2_def extractCandidates_def)
  note body = assms(1) [unfolded set_remote_def valid s sum.case prod.case Let_def ext, folded q_def, unfolded q1]
  show ?thesis
  proof (cases "ok = Inr True")
    case False
    then show ?thesis using body inv by (cases ok) auto
  next
    case ok: True
    obtain x ice where ice: "ice_setRemoteDescription env d2 (the (pn_ice q1)) = (x, ice)" by (cases "ice_setRemoteDescription env d2 (the (pn_ice q1))")
    note role = ice_remote_role [OF ice]
    have "pn_ice q1 = Some (the (pn_ice q1))" using inv ok by simp
    then have inv_ice: "peer_inv (set_ice ice q1)" using inv role by (intro peer_inv_ice) auto
    show ?thesis
    proof (cases x)
      case (Inl e)
      then show ?thesis using body inv_ice unfolding ok by (auto simp: ice)
    next
      case (Inr u)
      let ?q2 = "processRemoteDescription d2 (set_ice ice q1)"
      have eq: "r = Inr (Some (s, de_candidates d1))" "p' = changeSignalingState s ?q2" using body Inr unfolding ok by (simp_all add: ice)
      have "tracks_ok (set_ice ice q1)" using inv_ice by (simp add: peer_inv_def)
      note effect = processRemoteDescription_effect [OF this, of d2]
      obtain t where t: "d1 = d\<lparr>de_type := t\<rparr>" using remote_transition_Inr(2) [OF s states] by blast
      have d2: "single_application d2" "validateRemoteDescription d2 = Inr ()" "de_type d2 = de_type d1"
        using assms(3) valid unfolding d2_def t by simp_all
      have "ice_role ice \<noteq> ActPass" using role Inr by auto
      then have "peer_inv (changeSignalingState s ?q2)" using effect d2 remote_transition_Inr(1) [OF s states]
        by (auto simp: peer_inv_parts their_offer_def)
      then show ?thesis by (simp add: eq)
    qed
  qed
qed

lemma setRemoteDescription_inv:
  assumes "peer_inv p" "single_application d"
  shows "peer_inv (snd (setRemoteDescription env d p))"
proof (cases "de_type d = Rollback")
  case True
  then show ?thesis using peer_inv_stable [OF assms(1)] by (simp add: setRemoteDescription_def)
next
  case False
  obtain r q where q: "set_remote env d p = (r, q)" by (cases "set_remote env d p")
  have inv: "peer_inv q" using set_remote_inv [OF q assms] by simp
  show ?thesis
  proof (cases "\<exists>s cs. r = Inr (Some (s, cs))")
    case True
    then obtain s cs where r: "r = Inr (Some (s, cs))" by blast
    obtain x q' where q': "addRemoteCandidates env cs q = (x, q')" by (cases "addRemoteCandidates env cs q")
    have "peer_inv q'" using remote_candidate_inv(2) [OF inv, of env cs] q' by simp
    then show ?thesis using False setLocalDescription_inv by (cases x) (auto simp: setRemoteDescription_def q r q')
  qed (use False inv in \<open>cases r; auto simp: setRemoteDescription_def q split: option.splits\<close>)
qed

text \<open>Operations on tracks keep the rest of the connection.\<close>

lemma track_ops_inv:
  assumes "peer_inv p"
  shows "(\<And>t. pn_trackObjects p n = Some t \<Longrightarrow> Track_mid (f t) = Track_mid t) \<Longrightarrow> peer_inv (update_track n f p)"
    "peer_inv (destroyTrack n p)" "peer_inv (close_if_removed n p)" "peer_inv (snd (new_track m p))" "peer_inv (onTrack callback p)"
proof -
  have p: "tracks_ok p" using assms by (simp add: peer_inv_def)
  show "(\<And>t. pn_trackObjects p n = Some t \<Longrightarrow> Track_mid (f t) = Track_mid t) \<Longrightarrow> peer_inv (update_track n f p)"
    by (rule peer_inv_core [OF _ assms tracks_ok_update_track [OF p]]) simp_all
  have "tracks_ok (destroyTrack n p)" using p by (auto simp: destroyTrack_def tracks_ok_def)
  then show "peer_inv (destroyTrack n p)" by (rule peer_inv_core [OF _ assms, rotated]) simp
  show "peer_inv (close_if_removed n p)" by (rule peer_inv_core [OF _ assms tracks_ok_close [OF p]]) simp
  show "peer_inv (snd (new_track m p))" by (rule peer_inv_core [OF _ assms tracks_ok_new_track [OF p]]) simp
  have "peer_inv (p\<lparr>pn_trackCallback := callback\<rparr>)" using assms by simp
  then show "peer_inv (onTrack callback p)" unfolding onTrack_def
    using tracks_ok_trigger(1) p by (intro peer_inv_core [OF core_triggerTrack(1)]) simp_all
qed

lemma emplaceTrack_inv: "peer_inv p \<Longrightarrow> peer_inv (snd (emplaceTrack m p))"
proof -
  assume p: "peer_inv p"
  have new: "peer_inv (snd (case new_track m p of (n, p) \<Rightarrow> (Inr n, close_if_removed n p)))"
    using track_ops_inv(3) [OF track_ops_inv(4) [OF p]] by (simp split: prod.splits) (metis snd_conv)
  show ?thesis
  proof (cases "map_of (pn_tracks p) (en_mid m)")
    case (Some n)
    show ?thesis
    proof (cases "pn_trackObjects p n")
      case (Some t)
      have "peer_inv (close_if_removed n (update_track n (\<lambda>_. t\<lparr>tk_description := m\<rparr>) p))" if "en_mid m = en_mid (tk_description t)"
        using that Some p by (intro track_ops_inv) (simp_all add: Track_mid_def)
      then show ?thesis using new p Some \<open>map_of (pn_tracks p) (en_mid m) = Some n\<close> by (auto simp: emplaceTrack_def Track_setDescription_def)
    qed (use Some new in \<open>simp add: emplaceTrack_def\<close>)
  qed (use new in \<open>simp add: emplaceTrack_def\<close>)
qed

lemma createDataChannel_inv: "createDataChannel env us label init p = Some (r, p') \<Longrightarrow> peer_inv p \<Longrightarrow> peer_inv p'"
proof -
  assume c: "createDataChannel env us label init p = Some (r, p')" and p: "peer_inv p"
  have again: "peer_inv q'" if "bind_state (setLocalDescription env Offer None q) (\<lambda>_ p. (Inr n, p)) = (r, q')" "peer_inv q" for q q' n
    using that setLocalDescription_inv [OF that(2), of env Offer None] by (auto simp: bind_state_def split: prod.splits sum.splits)
  have "peer_inv (p\<lparr>pn_channels := x\<rparr>)" for x using p by simp
  then show ?thesis using c p by (auto simp: createDataChannel_def Let_def split: option.splits prod.splits sum.splits if_splits dest: again)
qed

lemma local_candidate_inv: "peer_inv p \<Longrightarrow> peer_inv (snd (processLocalCandidate env c p))"
  by (auto simp: processLocalCandidate_def Let_def peer_inv_parts own_offer_def pn_emit_def split: option.splits)

lemma gathering_done_inv: "peer_inv p \<Longrightarrow> peer_inv (on_gathering_done p)"
proof (cases "pn_ice p")
  case (Some ice)
  assume "peer_inv p"
  then have "peer_inv (endLocalCandidates p)"
    by (auto simp: endLocalCandidates_def peer_inv_parts own_offer_def endCandidates_def split: option.splits)
  then have "peer_inv (changeGatheringState GsComplete (endLocalCandidates p))" by simp
  from peer_inv_ice [OF this] \<open>peer_inv p\<close> show ?thesis
    by (simp add: on_gathering_done_def Some changeGatheringState_def endLocalCandidates_def pn_emit_def)
qed (simp add: on_gathering_done_def)

lemma peer_close_inv: "peer_inv p \<Longrightarrow> peer_inv (closeTransports p)" "peer_inv p \<Longrightarrow> peer_inv (close_pc p)" "peer_inv p \<Longrightarrow> peer_inv (remoteClose_pc p)"
proof -
  have 1: "peer_inv (closeTransports p)" if p: "peer_inv p" for p
  proof (cases "pn_state (changeIceState IsClosed p) = PsClosed")
    case False
    have "peer_inv (snd (changeState_pc PsClosed (changeIceState IsClosed p)))" using p by simp
    then show ?thesis using False by (simp add: closeTransports_def changeState_pc_def peer_inv_parts pn_emit_def)
  qed (use p in \<open>simp add: closeTransports_def changeState_pc_def\<close>)
  then show "peer_inv p \<Longrightarrow> peer_inv (closeTransports p)" .
  have 2: "peer_inv (remote_close_body p)" if "peer_inv p" for p using 1 that by (simp add: remote_close_body_def)
  have 3: "peer_inv (close_pc p)" if "peer_inv p" for p using 2 that by (simp add: close_pc_def Let_def)
  then show "peer_inv p \<Longrightarrow> peer_inv (close_pc p)" .
  show "peer_inv p \<Longrightarrow> peer_inv (remoteClose_pc p)" by (simp add: remoteClose_pc_def 2 3)
qed

lemma on_ice_state_inv: "peer_inv p \<Longrightarrow> peer_inv (on_ice_state s p)"
  by (cases s) (simp_all add: on_ice_state_def)

section \<open>Reachable connections\<close>

text \<open>
  The calls of the user, the callbacks of the transports and the tasks of the processor, each with any environment. Descriptions that the user
  passes in have at most one application entry. What happens to the data channels and inside the tracks is left open.
\<close>

inductive peer_step :: "Peer \<Rightarrow> Peer \<Rightarrow> bool" where
  step_local: "peer_step p (snd (setLocalDescription env type init p))"
| step_remote: "single_application d \<Longrightarrow> peer_step p (snd (setRemoteDescription env d p))"
| step_remote_candidate: "peer_step p (snd (addRemoteCandidate env c p))"
| step_local_candidate: "peer_step p (snd (processLocalCandidate env c p))"
| step_gather: "peer_step p (snd (gatherLocalCandidates env p))"
| step_gathered: "peer_step p (on_gathering_done p)"
| step_ice_state: "peer_step p (on_ice_state s p)"
| step_add_track: "peer_step p (snd (addTrack m p))"
| step_on_track: "peer_step p (onTrack callback p)"
| step_destroy_track: "peer_step p (destroyTrack n p)"
| step_track: "(\<And>t. Track_mid (f t) = Track_mid t) \<Longrightarrow> peer_step p (update_track n f p)"
| step_create_channel: "createDataChannel env us label ini p = Some (r, p') \<Longrightarrow> peer_step p p'"
| step_channels: "peer_step p (sync_channels (p\<lparr>pn_channels := channels\<rparr>))"
| step_dtls: "peer_step p (p\<lparr>pn_dtlsConnected := b\<rparr>)"
| step_close: "peer_step p (close_pc p)"
| step_remote_close: "peer_step p (remoteClose_pc p)"
| step_close_transports: "peer_step p (closeTransports p)"

definition Peer_init :: "Configuration \<Rightarrow> PeerConnection \<Rightarrow> Peer" where
  "Peer_init config channels =
     \<lparr>pn_config = config, pn_state = PsNew, pn_iceState = IsNew, pn_gatheringState = GsNew, pn_signalingState = Stable, pn_closing = False,
      pn_ice = None, pn_dtlsConnected = False, pn_localDescription = None, pn_currentLocalDescription = None, pn_remoteDescription = None,
      pn_channels = channels, pn_tracks = [], pn_trackLines = [], pn_trackObjects = Map.empty, pn_nextTrack = 0, pn_tracksBySsrc = Map.empty,
      pn_trackCallback = None, pn_pendingTracks = [], pn_events = []\<rparr>"

inductive peer_reachable :: "Peer \<Rightarrow> bool" where
  reach_init: "peer_reachable (Peer_init config channels)"
| reach_step: "peer_reachable p \<Longrightarrow> peer_step p p' \<Longrightarrow> peer_reachable p'"

lemma peer_step_inv: "peer_step p p' \<Longrightarrow> peer_inv p \<Longrightarrow> peer_inv p'"
proof (induction rule: peer_step.induct)
  case (step_gather p env)
  then show ?case using gather_inv by (simp add: gatherLocalCandidates_def)
qed (simp_all add: setLocalDescription_inv setRemoteDescription_inv addRemoteCandidate_def remote_candidate_inv(1) local_candidate_inv
    gathering_done_inv on_ice_state_inv addTrack_def emplaceTrack_inv track_ops_inv createDataChannel_inv peer_close_inv)

lemma peer_reachable_inv: "peer_reachable p \<Longrightarrow> peer_inv p"
proof (induction rule: peer_reachable.induct)
  case (reach_init config channels)
  show ?case by (simp add: peer_inv_parts Peer_init_def tracks_ok_def)
qed (rule peer_step_inv)

section \<open>What parsing and numbering give\<close>

definition applications :: "Description \<Rightarrow> nat" where
  "applications d = length (filter is_application (de_entries d))"

lemma entry_parse_kind: "entry_parseSdpLine l e = Inr e' \<Longrightarrow> is_application e' = is_application e"
  by (cases e) (auto simp: bind_result_Inr_iff)

lemma current_parse_applications:
  assumes "current_parseSdpLine l d = Inr d'" "de_entries d \<noteq> []"
  shows "applications d' = applications d"
proof -
  obtain e where e: "entry_parseSdpLine l (last (de_entries d)) = Inr e" "de_entries d' = butlast (de_entries d) @ [e]"
    using assms(1) by (auto simp: current_parseSdpLine_def bind_result_Inr_iff)
  have "applications d = length (filter is_application (butlast (de_entries d) @ [last (de_entries d)]))" using assms(2) by (simp add: applications_def)
  then show ?thesis using entry_parse_kind [OF e(1)] by (simp add: applications_def e(2))
qed

lemma create_applications: "createEntry mline mid dir d = Inr d' \<Longrightarrow> applications d \<le> 1 \<Longrightarrow> applications d' \<le> 1"
  by (auto simp: createEntry_def removeApplication_def applications_def bind_result_Inr_iff Let_def filter_filter split: if_splits)

lemma parse_attribute_applications:
  assumes "parse_attribute l (i, d) = Inr d'"
  shows "applications d' = applications d"
  using assms
  by (auto simp: parse_attribute_def Let_def bind_result_Inr_iff applications_def [of "_\<lparr>de_role := _\<rparr>"] applications_def parse_fingerprint_def setFingerprint_def
      dest: current_parse_applications [unfolded applications_def] split: if_splits prod.splits list.splits option.splits)

lemma parse_line_applications: "parse_line l (i, d) = Inr (i', d') \<Longrightarrow> applications d \<le> 1 \<Longrightarrow> applications d' \<le> 1"
  by (auto simp: parse_line_def bind_result_Inr_iff parse_origin_def applications_def [of "parse_origin _ _"] split: if_splits option.splits prod.splits
      dest: create_applications parse_attribute_applications current_parse_applications) (auto simp: applications_def)

lemma parse_lines_applications: "fold_result parse_line ls (i, d) = Inr (i', d') \<Longrightarrow> applications d \<le> 1 \<Longrightarrow> applications d' \<le> 1"
proof (induction ls arbitrary: i d)
  case (Cons l ls)
  then obtain i1 d1 where 1: "parse_line l (i, d) = Inr (i1, d1)" "fold_result parse_line ls (i1, d1) = Inr (i', d')" by (auto simp: bind_result_Inr_iff)
  then show ?case using Cons.IH [OF 1(2)] parse_line_applications [OF 1(1) Cons.prems(2)] by simp
qed simp

text \<open>C34. Whatever text is parsed, the description it gives has at most one application entry and the type it was asked for.\<close>

theorem parsed_description_well_formed:
  assumes "Description_of random sdp type role = Inr d"
  shows "length (filter is_application (de_entries d)) \<le> 1 \<and> de_type d = type"
proof -
  obtain i d0 where "fold_result parse_line (nonempty_lines (explode sdp LF)) (- 1, hintType type (Description_init role)) = Inr (i, d0)" "de_entries d = de_entries d0"
    using assms by (auto simp: Description_of_def bind_result_Inr_iff Let_def)
  moreover have "applications (hintType type (Description_init role)) \<le> 1" by (simp add: applications_def hintType_def Description_init_def)
  ultimately have "applications d \<le> 1" using parse_lines_applications [of _ "- 1" "hintType type (Description_init role)" i d0] by (simp add: applications_def)
  then show ?thesis using Description_of_type [OF assms] by (simp add: applications_def)
qed

theorem parsed_description_well_formed_witness:
  "\<exists>d. Description_of 7 (generateSdp [CR, LF] sample_description) Answer Passive = Inr d \<and> length (filter is_application (de_entries d)) \<le> 1 \<and> de_type d = Answer"
  using Description_of_generateSdp [OF sample_description_ok, of 7 Answer Passive] parsed_description_well_formed by blast

text \<open>The loop that numbers the application entry stops at the first number that is no identifier.\<close>

lemma nat_string_inj: "nat_string m = nat_string n \<Longrightarrow> m = n"
  by (metis digits_value_nat_string)

lemma free_mid_used: "i < k \<Longrightarrow> m + i < free_mid k m d \<Longrightarrow> hasMid (nat_string (m + i)) d"
proof (induction k m d arbitrary: i rule: free_mid.induct)
  case (2 k m d)
  then show ?case by (cases i) (auto split: if_splits)
qed simp

lemma free_mid_bounds: "m \<le> free_mid k m d \<and> free_mid k m d \<le> m + k \<and> (free_mid k m d < m + k \<longrightarrow> \<not> hasMid (nat_string (free_mid k m d)) d)"
  by (induction k m d rule: free_mid.induct) auto

text \<open>C35. The identifier of a new application entry is the first number that no entry has: the bounded loop of the model, which runs once per entry at most, is enough and computes
  the same number as the unbounded loop of the code.\<close>

theorem free_mid_is_first_free: "free_mid (mediaCount d) 0 d = (LEAST n. \<not> hasMid (nat_string n) d)"
proof -
  let ?n = "free_mid (mediaCount d) 0 d"
  have used: "hasMid (nat_string i) d" if "i < ?n" for i using free_mid_used [of i "mediaCount d" 0 d] free_mid_bounds [of 0 "mediaCount d" d] that by simp
  have "\<not> hasMid (nat_string ?n) d"
  proof (cases "?n < mediaCount d")
    case True
    then show ?thesis using free_mid_bounds [of 0 "mediaCount d" d] by simp
  next
    case False
    show ?thesis
    proof
      assume "hasMid (nat_string ?n) d"
      then have "hasMid (nat_string i) d" if "i \<le> mediaCount d" for i using used that False free_mid_bounds [of 0 "mediaCount d" d] by (cases "i = ?n") auto
      then have "nat_string i \<in> entry_mid ` set (de_entries d)" if "i \<le> mediaCount d" for i using that unfolding hasMid_def list_ex_iff by (metis imageI)
      then have "nat_string ` {0..mediaCount d} \<subseteq> entry_mid ` set (de_entries d)" by auto
      then have "card (nat_string ` {0..mediaCount d}) \<le> card (entry_mid ` set (de_entries d))" by (intro card_mono) simp_all
      moreover have "card (nat_string ` {0..mediaCount d}) = mediaCount d + 1" by (subst card_image) (auto simp: inj_on_def dest: nat_string_inj)
      moreover have "card (entry_mid ` set (de_entries d)) \<le> mediaCount d"
        using card_image_le [of "set (de_entries d)" entry_mid] card_length [of "de_entries d"] by (simp add: mediaCount_def)
      ultimately show False by simp
    qed
  qed
  then show ?thesis using used by (intro Least_equality [symmetric]) (auto simp: not_less [symmetric])
qed

end
