(* ===== verification/Exchanges.thy ===== *)
theory Exchanges
  imports OfferAnswer
begin

text \<open>
  The exchange of an offer and an answer between two connections, through the text of their descriptions.
\<close>

section \<open>What the ICE agent contributes\<close>

text \<open>The text that \<open>ice_generate_sdp\<close> of libjuice prints before a candidate was gathered, for an agent that is not a lite agent.\<close>

definition ice_generate_sdp :: "string \<Rightarrow> string \<Rightarrow> string" where
  "ice_generate_sdp ufrag pwd = with_eol [CR, LF] [''a=ice-ufrag:'' @ ufrag, ''a=ice-pwd:'' @ pwd, ''a=ice-options:ice2,trickle'']"

definition working :: "environment \<Rightarrow> string \<Rightarrow> string \<Rightarrow> bool" where
  "working env ufrag pwd \<longleftrightarrow> env_createAgent env \<and> env_localDescription env = Some (ice_generate_sdp ufrag pwd) \<and>
     env_setRemoteDescription env = (\<lambda>_. True) \<and> env_gather env \<and> fingerprint_ok (env_fingerprint env) \<and> text_ok ufrag \<and> text_ok pwd"

definition ice_session :: "u32 \<Rightarrow> DescriptionType \<Rightarrow> Role \<Rightarrow> string \<Rightarrow> string \<Rightarrow> Description" where
  "ice_session random type role ufrag pwd =
     (Description_init role)\<lparr>de_type := type, de_username := ''rtc'', de_sessionId := nat_string (unat random), de_iceUfrag := Some ufrag,
       de_icePwd := Some pwd, de_iceOptions := [''ice2'', ''trickle'']\<rparr>"

lemma Description_of_ice:
  assumes "text_ok ufrag" "text_ok pwd"
  shows "Description_of random (ice_generate_sdp ufrag pwd) type role = Inr (ice_session random type role ufrag pwd)"
proof -
  have lines: "nonempty_lines (explode (ice_generate_sdp ufrag pwd) LF) = [''a=ice-ufrag:'' @ ufrag, ''a=ice-pwd:'' @ pwd, ''a=ice-options:ice2,trickle'']"
    unfolding ice_generate_sdp_def using assms by (intro explode_lines) (auto simp: isspace_def)
  have ufrag: "parse_line (''a=ice-ufrag:'' @ u) (- 1, t) = Inr (- 1, t\<lparr>de_iceUfrag := Some u\<rparr>)" if "de_iceUfrag t = None" for u t
    using that by (simp add: parse_line_def parse_attribute_def parse_pair_keys(2) [simplified])
  have pwd: "parse_line (''a=ice-pwd:'' @ u) (- 1, t) = Inr (- 1, t\<lparr>de_icePwd := Some u\<rparr>)" if "de_icePwd t = None" for u t
    using that by (simp add: parse_line_def parse_attribute_def parse_pair_keys(3) [simplified])
  have options: "parse_line ''a=ice-options:ice2,trickle'' (- 1, t) = Inr (- 1, t\<lparr>de_iceOptions := [''ice2'', ''trickle'']\<rparr>)" if "de_iceOptions t = []" for t
    using that by (simp add: parse_line_def parse_attribute_def parse_pair_keys(4) [of "''ice2,trickle''", simplified] explode.simps)
  have "fold_result parse_line [''a=ice-ufrag:'' @ ufrag, ''a=ice-pwd:'' @ pwd, ''a=ice-options:ice2,trickle''] (- 1, hintType type (Description_init role)) =
      Inr (- 1, (Description_init role)\<lparr>de_type := type, de_iceUfrag := Some ufrag, de_icePwd := Some pwd, de_iceOptions := [''ice2'', ''trickle'']\<rparr>)"
    unfolding hintType_init by (simp add: ufrag pwd options Description_init_def del: append.simps)
  then show ?thesis unfolding Description_of_def lines by (simp add: ice_session_def Description_init_def)
qed

lemma getLocalDescription_ice:
  assumes "working env ufrag pwd"
  shows "getLocalDescription env type ice = Inr (ice_session (env_random env) type (if type = Offer then ActPass else ice_role ice) ufrag pwd)"
  using assms by (simp add: working_def getLocalDescription_def Description_of_ice addIceOption_def add_unique_def ice_session_def)

section \<open>The descriptions that two connections with data channels make\<close>

definition data_application :: "Peer \<Rightarrow> Application" where
  "data_application p = local_application (Application_init ''0'') p"

definition data_description :: "environment \<Rightarrow> DescriptionType \<Rightarrow> Role \<Rightarrow> string \<Rightarrow> string \<Rightarrow> Peer \<Rightarrow> Description" where
  "data_description env type role ufrag pwd p =
     (ice_session (env_random env) type role ufrag pwd)\<lparr>de_entries := [AppEntry (data_application p)], de_fingerprint := Some (env_fingerprint env)\<rparr>"

lemma setFingerprint_ok: "fingerprint_ok f \<Longrightarrow> setFingerprint f d = Inr (d\<lparr>de_fingerprint := Some f\<rparr>)"
  by (cases f) (simp add: fingerprint_ok_def setFingerprint_def)

lemma data_application_fields [simp]:
  "en_mid (data_application p) = ''0''" "en_isRemoved (data_application p) = False" "ap_sctpPort (data_application p) = Some DEFAULT_SCTP_PORT"
  "ap_maxMessageSize (data_application p) = Some (localMaxMessageSize p)"
  by (simp_all add: data_application_def local_application_def Application_init_def setMaxMessageSize_def setSctpPort_def)

lemma data_description_ok:
  assumes "working env ufrag pwd"
  shows "description_ok (data_description env type role ufrag pwd p)"
proof -
  have "application_ok (data_application p)"
    by (simp add: application_ok_def entry_ok_def data_application_def local_application_def Application_init_def setMaxMessageSize_def setSctpPort_def text_defs)
  then show ?thesis using assms word_ok_nat_string
    by (simp add: description_ok_def data_description_def ice_session_def Description_init_def working_def options_ok_def implode_def text_defs
        candidates_differ_def default_port_def defaultCandidate_def)
qed

text \<open>What a connection makes of the text of such a description.\<close>

lemma data_description_parsed:
  assumes "working env ufrag pwd" "type = Offer \<and> name = ''offer'' \<or> type = Answer \<and> name = ''answer''"
  shows "Description_of_typed random (generateSdp [CR, LF] (data_description env type role ufrag pwd p)) name =
    Inr ((data_description env type role ufrag pwd p)\<lparr>de_attributes := [''group:BUNDLE 0'', ''msid-semantic:WMS *'']\<rparr>)"
proof -
  have type: "stringToType name = type" "name \<noteq> []" using assms(2) by (auto simp: stringToType_def)
  have attributes: "announced (data_description env type role ufrag pwd p) = [''group:BUNDLE 0'', ''msid-semantic:WMS *'']"
    by (simp add: announced_def group_attribute_def data_description_def)
  show ?thesis unfolding Description_of_typed_def using Description_of_generateSdp [OF data_description_ok [OF assms(1)]] type
    by (simp add: received_description_def attributes)
      (simp add: data_description_def ice_session_def Description_init_def data_application_def local_application_def Application_init_def setMaxMessageSize_def setSctpPort_def)
qed

section \<open>The steps of the exchange\<close>

text \<open>A connection without tracks whose transports are not connected.\<close>

definition data_only :: "Peer \<Rightarrow> bool" where
  "data_only p \<longleftrightarrow> pn_tracks p = [] \<and> pn_trackLines p = [] \<and> \<not> pn_dtlsConnected p \<and> \<not> pn_closing p \<and> pn_state p \<noteq> PsClosed"

lemma data_only_frame [simp]:
  "data_only (pn_emit e p) = data_only p" "data_only (changeSignalingState s p) = data_only p" "data_only (changeGatheringState g p) = data_only p"
  "data_only (set_ice ice p) = data_only p" "data_only (sync_channels p) = data_only p"
  by (simp_all add: data_only_def pn_emit_def changeSignalingState_def changeGatheringState_def set_ice_def sync_channels_def)

lemma local_max_frame [simp]:
  "localMaxMessageSize (pn_emit e p) = localMaxMessageSize p" "localMaxMessageSize (changeSignalingState s p) = localMaxMessageSize p"
  "localMaxMessageSize (changeGatheringState g p) = localMaxMessageSize p" "localMaxMessageSize (set_ice ice p) = localMaxMessageSize p"
  by (simp_all add: localMaxMessageSize_def pn_emit_def changeSignalingState_def changeGatheringState_def set_ice_def sync_channels_def)

lemma data_application_cong: "localMaxMessageSize p = localMaxMessageSize q \<Longrightarrow> data_application p = data_application q"
  by (simp add: data_application_def local_application_def)

lemma cache_applications: "list_all is_application (de_entries d) \<Longrightarrow> updateTrackSsrcCache d p = p"
proof -
  have "list_all is_application es \<Longrightarrow> fold cache_entry es p = p" for es
    by (induction es arbitrary: p) (auto simp: cache_entry_def split: entry.splits)
  then show "list_all is_application (de_entries d) \<Longrightarrow> updateTrackSsrcCache d p = p" by (simp add: updateTrackSsrcCache_def)
qed

lemma data_description_simps [simp]:
  "de_entries (data_description env type role ufrag pwd p) = [AppEntry (data_application p)]" "de_type (data_description env type role ufrag pwd p) = type"
  "de_role (data_description env type role ufrag pwd p) = role" "de_candidates (data_description env type role ufrag pwd p) = []"
  "de_fingerprint (data_description env type role ufrag pwd p) = Some (env_fingerprint env)" "de_iceUfrag (data_description env type role ufrag pwd p) = Some ufrag"
  "de_icePwd (data_description env type role ufrag pwd p) = Some pwd"
  by (simp_all add: data_description_def ice_session_def Description_init_def)

lemma process_offer:
  assumes "working env ufrag pwd" "data_only p" "has_channels p" "pn_remoteDescription p = None" "pn_localDescription p = None"
  defines "offer \<equiv> data_description env Offer ActPass ufrag pwd p"
  shows "processLocalDescription env (ice_session (env_random env) Offer ActPass ufrag pwd) p =
    (Inr (), pn_emit (PnLocalDescription offer) (p\<lparr>pn_localDescription := Some offer\<rparr>))"
proof -
  let ?d = "ice_session (env_random env) Offer ActPass ufrag pwd"
  have d: "clearMedia ?d = ?d" "de_type ?d = Offer" "de_entries ?d = []" by (simp_all add: ice_session_def clearMedia_def Description_init_def)
  have zero: "nat_string 0 = ''0''" by code_simp
  have added: "add_local_media p ?d = Inr (?d\<lparr>de_entries := [AppEntry (data_application p)]\<rparr>)"
    using assms(2,3) d(3) by (simp add: add_local_media_def data_only_def hasApplication_def application_def mediaCount_def addMedia_application_def
        removeApplication_def Let_def data_application_def zero)
  have "?d\<lparr>de_entries := [AppEntry (data_application p)], de_fingerprint := Some (env_fingerprint env)\<rparr> = offer" by (simp add: offer_def data_description_def)
  then show ?thesis using assms(1,2,4,5) added d
    by (simp add: processLocalDescription_def working_def setFingerprint_ok mediaCount_def cache_applications offer_def set_as_local_def data_only_def Let_def pn_emit_def)
qed

text \<open>The entry that answers the application of another connection is the same with and without data channels of its own.\<close>

lemma reciprocate_data: "reciprocate_entry (AppEntry (data_application q)) (d, p) = (snd (addMedia_application (data_application p) d), p)"
  by (simp add: reciprocate_entry_def data_application_def local_application_def Application_init_def setMaxMessageSize_def setSctpPort_def hintSctpPort_def
      Application_reciprocate_def)

lemma process_answer:
  fixes role :: Role and p :: Peer
  assumes "working env ufrag pwd" "data_only p" "pn_remoteDescription p = Some r" "de_entries r = [AppEntry (data_application q)]" "pn_localDescription p = None"
  defines "answer \<equiv> data_description env Answer role ufrag pwd p"
  shows "processLocalDescription env (ice_session (env_random env) Answer role ufrag pwd) p =
    (Inr (), pn_emit (PnLocalDescription answer) (p\<lparr>pn_localDescription := Some answer\<rparr>))"
proof -
  let ?d = "ice_session (env_random env) Answer role ufrag pwd"
  have d: "clearMedia ?d = ?d" "de_type ?d = Answer" "de_entries ?d = []" by (simp_all add: ice_session_def clearMedia_def Description_init_def)
  have added: "snd (addMedia_application (data_application p) ?d) = ?d\<lparr>de_entries := [AppEntry (data_application p)]\<rparr>"
    using d(3) by (simp add: addMedia_application_def removeApplication_def Let_def)
  have "?d\<lparr>de_entries := [AppEntry (data_application p)], de_fingerprint := Some (env_fingerprint env)\<rparr> = answer" by (simp add: answer_def data_description_def)
  then show ?thesis using assms(1-5) added d
    by (simp add: processLocalDescription_def reciprocate_data working_def setFingerprint_ok mediaCount_def cache_applications answer_def set_as_local_def
        data_only_def Let_def pn_emit_def)
qed

text \<open>The local description was set and gathering has begun, or is left to the user.\<close>

definition gathering :: "environment \<Rightarrow> Peer \<Rightarrow> Peer" where
  "gathering env p = (if pn_gatheringState p = GsNew \<and> \<not> cf_disableAutoGathering (pn_config p) then snd (ice_gatherLocalCandidates env (localBundleMid p) p) else p)"

lemma gathering_result:
  "working env ufrag pwd \<Longrightarrow> (if pn_gatheringState p = GsNew \<and> \<not> cf_disableAutoGathering (pn_config p)
     then ice_gatherLocalCandidates env (localBundleMid p) p else (Inr (), p)) = (Inr (), gathering env p)"
  by (simp add: gathering_def ice_gatherLocalCandidates_def working_def Let_def split: option.splits)

lemma gathering_fields:
  "pn_signalingState (gathering env p) = pn_signalingState p" "pn_localDescription (gathering env p) = pn_localDescription p"
  "pn_remoteDescription (gathering env p) = pn_remoteDescription p" "map_option ice_role (pn_ice (gathering env p)) = map_option ice_role (pn_ice p)"
  "data_only (gathering env p) = data_only p" "has_channels (gathering env p) = has_channels p" "pn_config (gathering env p) = pn_config p"
  "set (pn_events p) \<subseteq> set (pn_events (gathering env p))" "pn_currentLocalDescription (gathering env p) = pn_currentLocalDescription p"
  by (auto simp: gathering_def ice_gatherLocalCandidates_def Let_def changeGatheringState_def pn_emit_def set_ice_def sync_channels_def data_only_def has_channels_def
      split: option.splits)

lemma negotiation_done:
  "data_only p \<Longrightarrow> pn_localDescription p = Some d \<Longrightarrow> de_entries d = [AppEntry a] \<Longrightarrow> \<not> en_isRemoved a \<Longrightarrow> \<not> negotiationNeeded p"
  by (simp add: negotiationNeeded_def data_only_def hasApplication_def application_def)

text \<open>The data channels know the role of the transport and the limit for messages.\<close>

definition synced :: "Peer \<Rightarrow> bool" where
  "synced p \<longleftrightarrow> pc_iceRole (pn_channels p) = map_option ice_role (pn_ice p) \<and> pc_remoteMaxMessageSize (pn_channels p) = unat (remoteMaxMessageSize p)"

lemma synced_sync [simp]: "synced (sync_channels p)" "synced (set_ice ice p)"
  by (simp_all add: synced_def sync_channels_def set_ice_def remoteMaxMessageSize_def localMaxMessageSize_def)

lemma synced_frame [simp]:
  "synced (pn_emit e p) = synced p" "synced (changeSignalingState s p) = synced p" "synced (p\<lparr>pn_localDescription := l\<rparr>) = synced p"
  by (simp_all add: synced_def pn_emit_def changeSignalingState_def remoteMaxMessageSize_def localMaxMessageSize_def)

lemma synced_gathering: "synced p \<Longrightarrow> synced (gathering env p)"
  by (simp add: gathering_def ice_gatherLocalCandidates_def Let_def split: option.splits)

text \<open>The first offer of a connection.\<close>

lemma offer_step:
  assumes env: "working env ufrag pwd" and p: "data_only p" "has_channels p" "pn_signalingState p = Stable" "pn_ice p = None"
      "pn_remoteDescription p = None" "pn_localDescription p = None" and type: "type \<in> {Offer, Unspec}"
  defines "offer \<equiv> data_description env Offer ActPass ufrag pwd p"
  shows "\<exists>p'. setLocalDescription env type None p = (Inr (), p') \<and> pn_signalingState p' = HaveLocalOffer \<and> pn_localDescription p' = Some offer \<and>
    pn_remoteDescription p' = None \<and> map_option ice_role (pn_ice p') = Some ActPass \<and> data_only p' \<and> has_channels p' \<and> pn_config p' = pn_config p \<and>
    PnLocalDescription offer \<in> set (pn_events p') \<and> pn_currentLocalDescription p' = pn_currentLocalDescription p"
proof -
  define q where "q = set_ice IceTransport_init p"
  have q: "data_only q" "has_channels q" "pn_remoteDescription q = None" "pn_localDescription q = None"
    using p by (simp_all add: q_def) (simp add: has_channels_def set_ice_def sync_channels_def)
  have offer: "data_description env Offer ActPass ufrag pwd q = offer"
    by (simp add: offer_def data_description_def q_def data_application_cong [of "set_ice IceTransport_init p" p])
  define p1 where "p1 = changeSignalingState HaveLocalOffer (pn_emit (PnLocalDescription offer) (q\<lparr>pn_localDescription := Some offer\<rparr>))"
  have "initIceTransport env p = (Inr True, q)" using env p by (simp add: initIceTransport_def working_def q_def data_only_def)
  then have "set_local env type None p = (Inr (Some HaveLocalOffer), p1)"
    using p(3) type getLocalDescription_ice [OF env, of Offer] process_offer [OF env q]
    by (auto simp: set_local_def guess_type_def local_transition_def p1_def offer)
  then have "setLocalDescription env type None p = (Inr (), gathering env p1)"
    using type gathering_result [OF env, of p1] by (auto simp: setLocalDescription.simps [of env type])
  moreover have "pn_signalingState p1 = HaveLocalOffer \<and> pn_localDescription p1 = Some offer \<and> pn_remoteDescription p1 = None \<and>
      map_option ice_role (pn_ice p1) = Some ActPass \<and> data_only p1 \<and> has_channels p1 \<and> pn_config p1 = pn_config p \<and> PnLocalDescription offer \<in> set (pn_events p1) \<and>
      pn_currentLocalDescription p1 = pn_currentLocalDescription p"
    using q by (simp add: p1_def) (simp add: q_def IceTransport_init_def pn_emit_def changeSignalingState_def set_ice_def sync_channels_def has_channels_def data_only_def)
  ultimately show ?thesis using gathering_fields [where env = env and p = p1] by auto
qed

text \<open>A description of the other side that the connection takes.\<close>

definition data_remote :: "Description \<Rightarrow> bool" where
  "data_remote d \<longleftrightarrow> validateRemoteDescription d = Inr () \<and> de_candidates d = [] \<and> \<not> de_ended d \<and> list_all is_application (de_entries d) \<and> hasApplication d \<and>
     \<not> (de_type d = Answer \<and> de_role d = ActPass)"

lemma remote_step:
  assumes env: "working env ufrag pwd" and p: "data_only p" "pn_remoteDescription p = None" "pn_ice p = None \<or> map_option ice_role (pn_ice p) = Some ActPass"
    and d: "data_remote d" "remote_transition (pn_signalingState p) d = Inr (s, d, False)"
  shows "\<exists>p'. set_remote env d p = (Inr (Some (s, [])), p') \<and> pn_signalingState p' = s \<and> pn_localDescription p' = pn_localDescription p \<and>
    pn_remoteDescription p' = Some d \<and> map_option ice_role (pn_ice p') = Some (if de_role d = Active then Passive else Active) \<and> data_only p' \<and>
    has_channels p' = has_channels p \<and> pn_config p' = pn_config p \<and> synced p'"
proof -
  have extracted: "extractCandidates d = ([], d)" using d(1) by (cases d) (simp add: data_remote_def extractCandidates_def)
  define q where "q = (if pn_ice p = None then set_ice IceTransport_init p else p)"
  have init: "initIceTransport env p = (Inr True, q)" using env p by (auto simp: initIceTransport_def working_def q_def data_only_def)
  have role: "ice_role (the (pn_ice q)) = ActPass" using p(3) by (auto simp: q_def IceTransport_init_def)
  have q: "data_only q" "pn_remoteDescription q = None" "pn_localDescription q = pn_localDescription p" "has_channels q = has_channels p" "pn_config q = pn_config p"
    using p by (simp_all add: q_def) (simp_all add: has_channels_def set_ice_def sync_channels_def)
  define ice where "ice = (the (pn_ice q))\<lparr>ice_role := if de_role d = Active then Passive else Active, ice_mid := bundleMid d\<rparr>"
  have ice: "ice_setRemoteDescription env d (the (pn_ice q)) = (Inr (), ice)"
    using env d(1) role by (auto simp: ice_setRemoteDescription_def working_def data_remote_def ice_def Let_def)
  define r where "r = processRemoteDescription d (set_ice ice q)"
  have "addCandidates [] d = d" by (simp add: addCandidates_def)
  then have "r = sync_channels ((set_ice ice q)\<lparr>pn_remoteDescription := Some d\<rparr>)" using d(1) q
    by (simp add: r_def processRemoteDescription_def cache_applications data_remote_def Let_def sync_channels_def data_only_def set_ice_def)
  then have r: "pn_localDescription r = pn_localDescription p" "pn_remoteDescription r = Some d" "pn_ice r = Some ice" "data_only r"
      "has_channels r = has_channels p" "pn_config r = pn_config p" "synced r"
    using q by (simp_all, simp_all add: sync_channels_def set_ice_def data_only_def has_channels_def)
  have "set_remote env d p = (Inr (Some (s, [])), changeSignalingState s r)"
    using d extracted init ice by (simp add: set_remote_def data_remote_def r_def)
  moreover have "has_channels (changeSignalingState s r) = has_channels r" by (simp add: has_channels_def changeSignalingState_def pn_emit_def)
  ultimately show ?thesis using r by (simp add: ice_def)
qed

text \<open>A fresh connection answers an offer.\<close>

lemma set_local_answer:
  assumes env: "working env ufrag pwd" and p: "pn_signalingState p = HaveRemoteOffer" "pn_localDescription p = None" "pn_remoteDescription p = Some d"
      "map_option ice_role (pn_ice p) = Some role" "data_only p" and d: "de_entries d = [AppEntry (data_application q)]"
  defines "answer \<equiv> data_description env Answer role ufrag pwd p"
  shows "set_local env Answer None p =
    (Inr (Some Stable), changeSignalingState Stable (pn_emit (PnLocalDescription answer) (p\<lparr>pn_localDescription := Some answer\<rparr>)))"
proof -
  obtain ice where ice: "pn_ice p = Some ice" "ice_role ice = role" using p(4) by auto
  then have "initIceTransport env p = (Inr True, p)" by (simp add: initIceTransport_def)
  then show ?thesis
    using p(1) ice getLocalDescription_ice [OF env, of Answer ice] process_answer [OF env p(5,3) d p(2), of role]
    by (simp add: set_local_def guess_type_def local_transition_def answer_def)
qed

lemma answer_step:
  assumes env: "working env ufrag pwd" and p: "data_only p" "pn_signalingState p = Stable" "pn_ice p = None" "pn_remoteDescription p = None"
      "pn_localDescription p = None" "\<not> cf_disableAutoNegotiation (pn_config p)"
    and d: "data_remote d" "de_type d = Offer" "de_role d = ActPass" "de_entries d = [AppEntry (data_application q)]"
  defines "answer \<equiv> data_description env Answer Active ufrag pwd p"
  shows "\<exists>p'. setRemoteDescription env d p = (Inr (), p') \<and> pn_signalingState p' = Stable \<and> pn_localDescription p' = Some answer \<and>
    pn_remoteDescription p' = Some d \<and> map_option ice_role (pn_ice p') = Some Active \<and> data_only p' \<and> synced p' \<and> PnLocalDescription answer \<in> set (pn_events p') \<and>
    pn_config p' = pn_config p"
proof -
  have "remote_transition (pn_signalingState p) d = Inr (HaveRemoteOffer, d, False)" using p(2) d(2) by (simp add: remote_transition_def hintType_def)
  from remote_step [OF env p(1,4) _ d(1) this] obtain p1 where p1: "set_remote env d p = (Inr (Some (HaveRemoteOffer, [])), p1)" "pn_signalingState p1 = HaveRemoteOffer"
      "pn_localDescription p1 = None" "pn_remoteDescription p1 = Some d" "map_option ice_role (pn_ice p1) = Some Active" "data_only p1"
      "pn_config p1 = pn_config p" "synced p1"
    using p(3,5) d(3) by auto
  have "data_application p1 = data_application p" using p1(7) by (intro data_application_cong) (simp add: localMaxMessageSize_def)
  then have answer: "data_description env Answer Active ufrag pwd p1 = answer" by (simp add: answer_def data_description_def)
  define p2 where "p2 = changeSignalingState Stable (pn_emit (PnLocalDescription answer) (p1\<lparr>pn_localDescription := Some answer\<rparr>))"
  have "set_local env Answer None p1 = (Inr (Some Stable), p2)"
    using set_local_answer [OF env p1(2-6) d(4)] by (simp add: p2_def answer)
  moreover have p2: "pn_signalingState p2 = Stable" "pn_localDescription p2 = Some answer" "pn_remoteDescription p2 = Some d"
      "map_option ice_role (pn_ice p2) = Some Active" "data_only p2" "synced p2" "PnLocalDescription answer \<in> set (pn_events p2)" "pn_config p2 = pn_config p"
    using p1 by (simp_all add: p2_def) (simp_all add: pn_emit_def changeSignalingState_def data_only_def)
  moreover have "\<not> negotiationNeeded p2" using p2(5,2) by (rule negotiation_done [where a = "data_application p"]) (simp_all add: answer_def)
  ultimately have "setLocalDescription env Answer None p1 = (Inr (), gathering env p2)"
    using gathering_result [OF env, of p2] by (simp add: setLocalDescription.simps [of env Answer])
  then have "setRemoteDescription env d p = (Inr (), gathering env p2)" using p(6) p1 d(2) by (simp add: setRemoteDescription_def)
  then show ?thesis using gathering_fields [where env = env and p = p2] p2 synced_gathering [OF p2(6)] by auto
qed

text \<open>The answer completes the exchange for the side that offered.\<close>

lemma finish_step:
  assumes env: "working env ufrag pwd" and p: "data_only p" "pn_signalingState p = HaveLocalOffer" "map_option ice_role (pn_ice p) = Some ActPass"
      "pn_remoteDescription p = None" "pn_localDescription p = Some l" "de_entries l = [AppEntry a]" "\<not> en_isRemoved a"
    and d: "data_remote d" "de_type d = Answer" "de_role d = Active"
  shows "\<exists>p'. setRemoteDescription env d p = (Inr (), p') \<and> pn_signalingState p' = Stable \<and> pn_localDescription p' = Some l \<and>
    pn_remoteDescription p' = Some d \<and> map_option ice_role (pn_ice p') = Some Passive \<and> data_only p' \<and> synced p' \<and> has_channels p' = has_channels p \<and>
    pn_config p' = pn_config p"
proof -
  have "remote_transition (pn_signalingState p) d = Inr (Stable, d, False)" using p(2) d(2) by (simp add: remote_transition_def hintType_def)
  from remote_step [OF env p(1,4) _ d(1) this] obtain p1 where p1: "set_remote env d p = (Inr (Some (Stable, [])), p1)" "pn_signalingState p1 = Stable"
      "pn_localDescription p1 = Some l" "pn_remoteDescription p1 = Some d" "map_option ice_role (pn_ice p1) = Some Passive" "data_only p1" "has_channels p1 = has_channels p"
      "pn_config p1 = pn_config p" "synced p1"
    using p(3,5) d(3) by auto
  have "\<not> negotiationNeeded p1" using p1 p(6,7) by (intro negotiation_done)
  then have "setRemoteDescription env d p = (Inr (), p1)" using p1 d(2) by (simp add: setRemoteDescription_def)
  then show ?thesis using p1 by auto
qed

section \<open>The exchange\<close>

lemma create_has_channels: "create_channel label ini pc = Inr (n, pc') \<Longrightarrow> pc_dataChannels pc' \<noteq> [] \<or> pc_unassigned pc' \<noteq> []"
  by (cases "init_id ini") (auto simp: create_channel_def new_channel_def emplace_channel_def bind_result_Inr_iff split: if_splits prod.splits sum.splits)

lemma create_before_sctp:
  assumes "\<not> sctp_connected pc" "create_channel label ini pc = Inr (n, pc')"
  shows "emplaceDataChannel us label ini pc = Some (Inr n, pc')"
proof -
  have "pc_sctp pc' = pc_sctp pc" using assms(2)
    by (cases "init_id ini") (auto simp: create_channel_def new_channel_def bind_result_Inr_iff split: if_splits prod.splits sum.splits)
  then show ?thesis using assms by (simp add: emplaceDataChannel_def sctp_connected_def)
qed

lemma data_remote_description:
  assumes "\<not> (type = Answer \<and> role = ActPass)"
  shows "data_remote ((data_description env type role ufrag pwd p)\<lparr>de_attributes := attrs\<rparr>)" "data_remote (data_description env type role ufrag pwd p)"
proof -
  have "de_ended (data_description env type role ufrag pwd p) = False" by (simp add: data_description_def ice_session_def Description_init_def)
  then show "data_remote ((data_description env type role ufrag pwd p)\<lparr>de_attributes := attrs\<rparr>)" "data_remote (data_description env type role ufrag pwd p)"
    using assms by (simp_all add: data_remote_def validateRemoteDescription_def mediaCount_def hasApplication_def application_def)
qed

lemma agreed_limit:
  assumes "pn_remoteDescription p = Some ((data_description env type role ufrag pwd q)\<lparr>de_attributes := attrs\<rparr>)" "localMaxMessageSize q > 0"
  shows "remoteMaxMessageSize p = min (localMaxMessageSize q) (localMaxMessageSize p)"
  using assms by (simp add: remoteMaxMessageSize_def application_def)

lemma offering_side:
  assumes env: "working env ufrag pwd" and auto: "\<not> cf_disableAutoNegotiation cfg"
    and channel: "\<not> sctp_connected ch" "create_channel label ini ch = Inr (n, ch')"
  defines "offer \<equiv> data_description env Offer ActPass ufrag pwd (Peer_init cfg ch)"
  shows "\<exists>a. createDataChannel env us label ini (Peer_init cfg ch) = Some (Inr n, a) \<and> pn_signalingState a = HaveLocalOffer \<and> pn_localDescription a = Some offer \<and>
    pn_remoteDescription a = None \<and> map_option ice_role (pn_ice a) = Some ActPass \<and> data_only a \<and> pn_config a = cfg \<and> PnLocalDescription offer \<in> set (pn_events a) \<and>
    pn_currentLocalDescription a = None"
proof -
  define p where "p = (Peer_init cfg ch)\<lparr>pn_channels := ch'\<rparr>"
  have p: "data_only p" "has_channels p" "pn_signalingState p = Stable" "pn_ice p = None" "pn_remoteDescription p = None" "pn_localDescription p = None" "pn_config p = cfg"
      "pn_currentLocalDescription p = None"
    using create_has_channels [OF channel(2)] by (auto simp: p_def Peer_init_def data_only_def has_channels_def)
  have "data_application p = data_application (Peer_init cfg ch)" by (rule data_application_cong) (simp add: p_def localMaxMessageSize_def)
  then have offer: "data_description env Offer ActPass ufrag pwd p = offer" by (simp add: offer_def data_description_def)
  obtain a where a: "setLocalDescription env Offer None p = (Inr (), a)" "pn_signalingState a = HaveLocalOffer" "pn_localDescription a = Some offer"
      "pn_remoteDescription a = None" "map_option ice_role (pn_ice a) = Some ActPass" "data_only a" "pn_config a = cfg" "PnLocalDescription offer \<in> set (pn_events a)"
      "pn_currentLocalDescription a = None"
    using offer_step [OF env p(1-6), of Offer] p(7,8) offer by auto
  have "negotiationNeeded p" using p by (simp add: negotiationNeeded_def)
  then have "createDataChannel env us label ini (Peer_init cfg ch) = Some (Inr n, a)"
    using auto a(1) p(3,7) create_before_sctp [OF channel, of us] by (simp add: createDataChannel_def p_def) (simp add: Peer_init_def)
  then show ?thesis using a by blast
qed

text \<open>C1. Two connections negotiate through the text of their descriptions. One side creates a data channel; its connection makes an offer by itself. The other
  side parses the printed offer, sets it as its remote description and answers by itself; the first side parses the printed answer and sets it. Every call
  returns normally, both connections end in the state Stable with no further negotiation needed, one end has the role passive and the other active, so that
  they assign streams of different parity; each holds the other's fingerprint and ICE credentials, and both
  limit messages to the smaller of the two configured sizes.\<close>

theorem offer_answer_completes:
  fixes envA envB :: environment and cfgA cfgB :: Configuration and chA chB chA' :: PeerConnection
  assumes envA: "working envA ufragA pwdA" and envB: "working envB ufragB pwdB"
    and auto: "\<not> cf_disableAutoNegotiation cfgA" "\<not> cf_disableAutoNegotiation cfgB"
    and channel: "\<not> sctp_connected chA" "create_channel label ini chA = Inr (n, chA')"
    and limits: "localMaxMessageSize (Peer_init cfgA chA) = limitA" "localMaxMessageSize (Peer_init cfgB chB) = limitB" "limitA > 0" "limitB > 0"
  shows "\<exists>offer answer received_offer received_answer a b a'.
    createDataChannel envA us label ini (Peer_init cfgA chA) = Some (Inr n, a) \<and> PnLocalDescription offer \<in> set (pn_events a) \<and>
    Description_of_typed randomB (generateSdp [CR, LF] offer) ''offer'' = Inr received_offer \<and>
    setRemoteDescription envB received_offer (Peer_init cfgB chB) = (Inr (), b) \<and> PnLocalDescription answer \<in> set (pn_events b) \<and>
    Description_of_typed randomA (generateSdp [CR, LF] answer) ''answer'' = Inr received_answer \<and>
    setRemoteDescription envA received_answer a = (Inr (), a') \<and>
    pn_signalingState a' = Stable \<and> pn_signalingState b = Stable \<and> \<not> negotiationNeeded a' \<and> \<not> negotiationNeeded b \<and>
    pc_iceRole (pn_channels a') = Some Passive \<and> pc_iceRole (pn_channels b) = Some Active \<and>
    de_fingerprint received_answer = Some (env_fingerprint envB) \<and> de_fingerprint received_offer = Some (env_fingerprint envA) \<and>
    (de_iceUfrag received_answer, de_icePwd received_answer) = (Some ufragB, Some pwdB) \<and>
    (de_iceUfrag received_offer, de_icePwd received_offer) = (Some ufragA, Some pwdA) \<and>
    pn_remoteDescription a' = Some received_answer \<and> pn_remoteDescription b = Some received_offer \<and>
    pc_remoteMaxMessageSize (pn_channels a') = unat (min limitA limitB) \<and> pc_remoteMaxMessageSize (pn_channels b) = unat (min limitA limitB)"
proof -
  define p where "p = Peer_init cfgA chA"
  define q where "q = Peer_init cfgB chB"
  have q: "data_only q" "pn_signalingState q = Stable" "pn_ice q = None" "pn_remoteDescription q = None" "pn_localDescription q = None"
      "\<not> cf_disableAutoNegotiation (pn_config q)"
    using auto by (auto simp: q_def Peer_init_def data_only_def)
  define offer where "offer = data_description envA Offer ActPass ufragA pwdA p"
  define answer where "answer = data_description envB Answer Active ufragB pwdB q"
  define offer' where "offer' = offer\<lparr>de_attributes := [''group:BUNDLE 0'', ''msid-semantic:WMS *'']\<rparr>"
  define answer' where "answer' = answer\<lparr>de_attributes := [''group:BUNDLE 0'', ''msid-semantic:WMS *'']\<rparr>"
  have parsed: "Description_of_typed randomB (generateSdp [CR, LF] offer) ''offer'' = Inr offer'"
      "Description_of_typed randomA (generateSdp [CR, LF] answer) ''answer'' = Inr answer'"
    using data_description_parsed [OF envA, of Offer "''offer''"] data_description_parsed [OF envB, of Answer "''answer''"]
    by (simp_all add: offer_def answer_def offer'_def answer'_def)
  have remote: "data_remote offer'" "data_remote answer'"
    unfolding offer'_def answer'_def offer_def answer_def by (simp_all add: data_remote_description)
  obtain a where a: "createDataChannel envA us label ini p = Some (Inr n, a)" "pn_signalingState a = HaveLocalOffer" "pn_localDescription a = Some offer"
      "pn_remoteDescription a = None" "map_option ice_role (pn_ice a) = Some ActPass" "data_only a" "pn_config a = cfgA" "PnLocalDescription offer \<in> set (pn_events a)"
    using offering_side [OF envA auto(1) channel, of us] unfolding offer_def p_def by blast
  obtain b where b: "setRemoteDescription envB offer' q = (Inr (), b)" "pn_signalingState b = Stable" "pn_localDescription b = Some answer"
      "pn_remoteDescription b = Some offer'" "map_option ice_role (pn_ice b) = Some Active" "data_only b" "synced b" "PnLocalDescription answer \<in> set (pn_events b)"
      "pn_config b = pn_config q"
    using answer_step [OF envB q remote(1), of p] unfolding answer_def by (auto simp: offer'_def offer_def)
  obtain a' where a': "setRemoteDescription envA answer' a = (Inr (), a')" "pn_signalingState a' = Stable" "pn_localDescription a' = Some offer"
      "pn_remoteDescription a' = Some answer'" "map_option ice_role (pn_ice a') = Some Passive" "data_only a'" "synced a'" "pn_config a' = cfgA"
    using finish_step [OF envA a(6,2,5,4,3) _ _ remote(2), of "data_application p"] a(7) by (auto simp: answer'_def offer_def answer_def)
  have sizes: "localMaxMessageSize b = limitB" "localMaxMessageSize a' = limitA" "localMaxMessageSize p = limitA" "localMaxMessageSize q = limitB"
    using limits(1,2) a'(8) b(9) by (simp_all add: localMaxMessageSize_def p_def q_def Peer_init_def)
  have limit: "remoteMaxMessageSize b = min limitA limitB" "remoteMaxMessageSize a' = min limitB limitA"
    using agreed_limit [of b] agreed_limit [of a'] b(4) a'(4) sizes limits(3,4) by (simp_all add: offer'_def answer'_def offer_def answer_def)
  have "\<not> negotiationNeeded b" using b(6,3) by (rule negotiation_done [where a = "data_application q"]) (simp_all add: answer_def)
  moreover have "\<not> negotiationNeeded a'" using a'(6,3) by (rule negotiation_done [where a = "data_application p"]) (simp_all add: offer_def)
  moreover have "pc_iceRole (pn_channels a') = Some Passive" "pc_iceRole (pn_channels b) = Some Active"
      "pc_remoteMaxMessageSize (pn_channels a') = unat (min limitA limitB)" "pc_remoteMaxMessageSize (pn_channels b) = unat (min limitA limitB)"
    using a'(5,7) b(5,7) limit by (simp_all add: synced_def min.commute)
  moreover have "de_fingerprint answer' = Some (env_fingerprint envB) \<and> de_fingerprint offer' = Some (env_fingerprint envA) \<and>
      (de_iceUfrag answer', de_icePwd answer') = (Some ufragB, Some pwdB) \<and> (de_iceUfrag offer', de_icePwd offer') = (Some ufragA, Some pwdA)"
    by (simp add: offer'_def answer'_def offer_def answer_def)
  ultimately show ?thesis using parsed a(1,8) b(1,2,4,8) a'(1,2,4) unfolding p_def q_def by blast
qed

text \<open>Two connections with the default configuration; the certificates have the SHA-1 fingerprint of zeros.\<close>

definition sample_environment :: "u32 \<Rightarrow> string \<Rightarrow> environment" where
  "sample_environment random ufrag =
     \<lparr>env_createAgent = True, env_setAttributes = \<lambda>_ _. True, env_localDescription = Some (ice_generate_sdp ufrag ''p''), env_setRemoteDescription = \<lambda>_. True,
      env_gather = True, env_random = random, env_getaddrinfo = \<lambda>_ _ _ _. [],
      env_fingerprint = \<lparr>fp_algorithm = Sha1, fp_value = concat (replicate 19 ''00:'') @ ''00''\<rparr>\<rparr>"

definition sample_configuration :: "bool \<Rightarrow> Configuration" where
  "sample_configuration manual = \<lparr>cf_disableAutoNegotiation = manual, cf_disableAutoGathering = False, cf_relayOnly = False, cf_maxMessageSize = None\<rparr>"

definition sample_channels :: PeerConnection where
  "sample_channels = idle_pc\<lparr>pc_iceRole := None\<rparr>"

lemma sample_working: "working (sample_environment random ''a'') ''a'' ''p''" "working (sample_environment random ''b'') ''b'' ''p''"
proof -
  have "fingerprint_ok \<lparr>fp_algorithm = Sha1, fp_value = concat (replicate 19 ''00:'') @ ''00''\<rparr>" by code_simp
  then show "working (sample_environment random ''a'') ''a'' ''p''" "working (sample_environment random ''b'') ''b'' ''p''"
    by (simp_all add: working_def sample_environment_def isspace_def)
qed

lemma sample_channel: "\<exists>ch'. create_channel ''chat'' plain_init sample_channels = Inr (0, ch')"
  by (simp add: create_channel_def sample_channels_def idle_pc_def plain_init_def Reliability_default_def DataChannel_init_def new_channel_def)

theorem offer_answer_completes_witness:
  "\<exists>a b. (\<exists>received. setRemoteDescription (sample_environment 2 ''b'') received (Peer_init (sample_configuration False) sample_channels) = (Inr (), b)) \<and>
     (\<exists>received a0. setRemoteDescription (sample_environment 1 ''a'') received a0 = (Inr (), a)) \<and>
     pn_signalingState a = Stable \<and> pn_signalingState b = Stable \<and> pc_remoteMaxMessageSize (pn_channels b) = 262144"
proof -
  define us :: usrsctp where "us = \<lparr>us_result = \<lambda>_. OK, us_notification = \<lambda>_. (0, OtherNotification)\<rparr>"
  obtain ch' where ch': "create_channel ''chat'' plain_init sample_channels = Inr (0, ch')" using sample_channel by blast
  have "localMaxMessageSize (Peer_init (sample_configuration False) sample_channels) = 262144"
    by (simp add: localMaxMessageSize_def Peer_init_def sample_configuration_def DEFAULT_LOCAL_MAX_MESSAGE_SIZE_def)
  moreover have "\<not> sctp_connected sample_channels" by (simp add: sctp_connected_def sample_channels_def idle_pc_def)
  moreover have "\<not> cf_disableAutoNegotiation (sample_configuration False)" by (simp add: sample_configuration_def)
  ultimately show ?thesis
    using offer_answer_completes [where cfgA = "sample_configuration False" and cfgB = "sample_configuration False" and chB = sample_channels and limitA = 262144
      and limitB = 262144 and randomA = 3 and randomB = 4 and us = us, OF sample_working(1) [of 1] sample_working(2) [of 2] _ _ _ ch'] by simp blast
qed

section \<open>Properties of every connection\<close>

text \<open>C7. Whatever calls are made on a connection, in whatever order and with whatever results of the ICE agent, its signaling state is one of Stable, HaveLocalOffer and
  HaveRemoteOffer: nothing enters the states for provisional answers. In HaveLocalOffer the local description is an offer with a
  fingerprint and at least one entry; in HaveRemoteOffer the remote description is an offer that passed validation. Once a remote description was taken, the role of an open connection
  is decided.\<close>

theorem signaling_invariant:
  assumes "peer_reachable p"
  shows "pn_signalingState p \<in> {Stable, HaveLocalOffer, HaveRemoteOffer} \<and>
    (pn_signalingState p = HaveLocalOffer \<longrightarrow>
       (\<exists>d. pn_localDescription p = Some d \<and> de_type d = Offer \<and> de_entries d \<noteq> [] \<and> de_fingerprint d \<noteq> None)) \<and>
    (pn_signalingState p = HaveRemoteOffer \<longrightarrow> (\<exists>d. pn_remoteDescription p = Some d \<and> de_type d = Offer \<and> validateRemoteDescription d = Inr ())) \<and>
    (pn_remoteDescription p \<noteq> None \<and> pn_state p \<noteq> PsClosed \<longrightarrow> (\<exists>ice. pn_ice p = Some ice \<and> ice_role ice \<noteq> ActPass))"
  using peer_reachable_inv [OF assms]
  by (auto simp: peer_inv_def signaling_ok_def role_decided_def own_offer_def their_offer_def split: option.splits)

text \<open>A connection that negotiates by hand, with an offer it has not answered.\<close>

lemma sample_remote_offer:
  "\<exists>(p :: Peer) d q. peer_reachable p \<and> pn_signalingState p = HaveRemoteOffer \<and> pn_localDescription p = None \<and> pn_remoteDescription p = Some d \<and>
    map_option ice_role (pn_ice p) = Some Active \<and> data_only p \<and> de_entries d = [AppEntry (data_application q)]"
proof -
  define q where "q = Peer_init (sample_configuration True) sample_channels"
  define d where "d = data_description (sample_environment 1 ''a'') Offer ActPass ''a'' ''p'' q"
  have d: "data_remote d" unfolding d_def by (rule data_remote_description(2)) simp
  have q: "data_only q" "pn_remoteDescription q = None" "pn_ice q = None" "pn_localDescription q = None" "pn_signalingState q = Stable" "cf_disableAutoNegotiation (pn_config q)"
    by (simp_all add: q_def Peer_init_def data_only_def sample_configuration_def)
  have "remote_transition (pn_signalingState q) d = Inr (HaveRemoteOffer, d, False)" by (simp add: q remote_transition_def d_def hintType_def)
  from remote_step [OF sample_working(2) [of 2] q(1,2) _ d this] q obtain p where p: "set_remote (sample_environment 2 ''b'') d q = (Inr (Some (HaveRemoteOffer, [])), p)"
      "pn_signalingState p = HaveRemoteOffer" "pn_localDescription p = None" "pn_remoteDescription p = Some d" "map_option ice_role (pn_ice p) = Some Active"
      "data_only p" "pn_config p = pn_config q"
    by (auto simp: d_def)
  have "setRemoteDescription (sample_environment 2 ''b'') d q = (Inr (), p)" using p(1,7) q(6) by (simp add: setRemoteDescription_def d_def)
  moreover have "single_application d" by (simp add: d_def single_application_def)
  moreover have "peer_reachable q" unfolding q_def by (rule reach_init)
  ultimately have "peer_reachable p" using reach_step [OF _ step_remote, of q d "sample_environment 2 ''b''"] by simp
  moreover have "de_entries d = [AppEntry (data_application q)]" by (simp add: d_def)
  ultimately show ?thesis using p by blast
qed

theorem signaling_invariant_witness:
  "\<exists>p :: Peer. pn_signalingState p = HaveRemoteOffer \<and> (\<exists>d. pn_remoteDescription p = Some d \<and> validateRemoteDescription d = Inr ())"
  using sample_remote_offer signaling_invariant by blast



section \<open>What goes wrong\<close>

text \<open>Rolling back the first offer of a connection returns to Stable but keeps the offer as the local description, because \<open>rollbackLocalDescription\<close> only acts
  when there is an earlier description to restore: the connection then reports that no negotiation is needed, although its data channel was never negotiated.\<close>

theorem rollback_keeps_first_offer:
  assumes "working env ufrag pwd" "\<not> cf_disableAutoNegotiation cfg" "\<not> sctp_connected ch" "create_channel label ini ch = Inr (n, ch')"
  shows "\<exists>a a' offer. createDataChannel env us label ini (Peer_init cfg ch) = Some (Inr n, a) \<and> setLocalDescription env Rollback None a = (Inr (), a') \<and>
    pn_signalingState a' = Stable \<and> pn_localDescription a' = Some offer \<and> de_type offer = Offer \<and> pn_remoteDescription a' = None \<and> \<not> negotiationNeeded a'"
proof -
  obtain a where a: "createDataChannel env us label ini (Peer_init cfg ch) = Some (Inr n, a)" "pn_signalingState a = HaveLocalOffer"
      "pn_localDescription a = Some (data_description env Offer ActPass ufrag pwd (Peer_init cfg ch))" "pn_remoteDescription a = None" "data_only a"
      "pn_currentLocalDescription a = None"
    using offering_side [OF assms, of us] by blast
  let ?a = "changeSignalingState Stable a"
  have "setLocalDescription env Rollback None a = (Inr (), ?a)" using a(2,6) by (simp add: setLocalDescription.simps rollbackLocalDescription_def)
  moreover have "\<not> negotiationNeeded ?a" using a(3,5)
    by (intro negotiation_done [where a = "data_application (Peer_init cfg ch)" and d = "data_description env Offer ActPass ufrag pwd (Peer_init cfg ch)"]) simp_all
  ultimately show ?thesis using a(1,3,4) by simp
qed

theorem rollback_keeps_first_offer_witness:
  "\<exists>a. pn_signalingState a = Stable \<and> pn_localDescription a \<noteq> None \<and> pn_remoteDescription a = None \<and> \<not> negotiationNeeded a"
proof -
  define us :: usrsctp where "us = \<lparr>us_result = \<lambda>_. OK, us_notification = \<lambda>_. (0, OtherNotification)\<rparr>"
  obtain ch' where ch': "create_channel ''chat'' plain_init sample_channels = Inr (0, ch')" using sample_channel by blast
  have "\<not> sctp_connected sample_channels" "\<not> cf_disableAutoNegotiation (sample_configuration False)"
    by (simp_all add: sctp_connected_def sample_channels_def idle_pc_def sample_configuration_def)
  with rollback_keeps_first_offer [OF sample_working(1) [of 1] _ _ ch', of "sample_configuration False" us] show ?thesis by auto
qed

text \<open>A track that is added under the identifier of a track that was closed is not registered: the table of tracks still leads to the closed
  track, and no source of any description is ever routed to the new one.\<close>

theorem readded_track_is_not_registered:
  assumes "peer_reachable p" "map_of (pn_tracks p) (en_mid m) = Some old" "pn_trackObjects p old = Some t" "tk_isClosed t" "addTrack m p = (Inr n, p')"
  shows "n \<noteq> old \<and> pn_trackObjects p' n \<noteq> None \<and> map_of (pn_tracks p') (en_mid m) = Some old \<and>
    (\<forall>d ssrc. pn_tracksBySsrc (updateTrackSsrcCache d p') ssrc \<noteq> Some n)"
proof -
  have ok: "tracks_ok p" using peer_reachable_inv [OF assms(1)] by (simp add: peer_inv_def)
  obtain q where q: "new_track m p = (n, q)" "p' = close_if_removed n q" using assms(2-5) by (auto simp: addTrack_def emplaceTrack_def split: prod.splits)
  then have n: "n = pn_nextTrack p" "pn_tracks p' = pn_tracks p" "pn_trackObjects p' n \<noteq> None"
    using assms(2) by (auto simp: new_track_def Let_def close_if_removed_def update_track_def)
  have "tracks_ok p'" using tracks_ok_new_track [OF ok, of m] tracks_ok_close q by simp
  then have cached: "tracks_ok (updateTrackSsrcCache d p')" for d by (rule tracks_ok_cache)
  have kept: "pn_tracks (updateTrackSsrcCache d p') = pn_tracks p'" for d
  proof -
    have "pn_tracks (cache_entry e x) = pn_tracks x" for e x by (simp add: cache_entry_def split: entry.splits option.splits)
    then have "pn_tracks (fold cache_entry es x) = pn_tracks x" for es x by (induction es arbitrary: x) simp_all
    then show ?thesis by (simp add: updateTrackSsrcCache_def)
  qed
  have fresh: "n \<notin> snd ` set (pn_tracks p)" using ok n(1) by (auto simp: tracks_ok_def)
  have "pn_tracksBySsrc (updateTrackSsrcCache d p') ssrc \<noteq> Some n" for d ssrc
    using cached [of d] fresh n(2) kept [of d] by (auto simp: tracks_ok_def)
  moreover have "old \<in> snd ` set (pn_tracks p)" using map_of_SomeD [OF assms(2)] by force
  ultimately show ?thesis using fresh n assms(2) by auto
qed

theorem readded_track_is_not_registered_witness:
  "\<exists>p' :: Peer. map_of (pn_tracks p') ''video'' = Some 0 \<and> pn_trackObjects p' 1 \<noteq> None \<and> (\<forall>d ssrc. pn_tracksBySsrc (updateTrackSsrcCache d p') ssrc \<noteq> Some 1)"
proof -
  have video: "en_mid sample_media = ''video''" "\<not> en_isRemoved sample_media" by (simp_all add: sample_media_def)
  define p0 where "p0 = Peer_init (sample_configuration True) sample_channels"
  define p1 where "p1 = update_track 0 Track_close (snd (addTrack sample_media p0))"
  have added: "snd (addTrack sample_media p0) = p0\<lparr>pn_trackObjects := [0 \<mapsto> Track_init sample_media], pn_nextTrack := 1, pn_tracks := [(''video'', 0)], pn_trackLines := [0]\<rparr>"
    by (simp add: addTrack_def emplaceTrack_def new_track_def close_if_removed_def update_track_def p0_def Peer_init_def video Let_def fun_eq_iff) (simp add: Track_init_def video)
  have "peer_reachable p0" unfolding p0_def by (rule reach_init)
  then have "peer_reachable (snd (addTrack sample_media p0))" using step_add_track reach_step by blast
  then have "peer_reachable p1" unfolding p1_def using step_track [of Track_close] reach_step by simp
  moreover have "map_of (pn_tracks p1) (en_mid sample_media) = Some 0" "pn_trackObjects p1 0 = Some (Track_close (Track_init sample_media))" "pn_nextTrack p1 = 1"
    by (simp_all add: p1_def added update_track_def video)
  moreover have "tk_isClosed (Track_close (Track_init sample_media))"
    by (simp add: Track_close_def Track_resetCallbacks_def Track_setMediaHandler_def tk_emit_def Track_init_def)
  moreover obtain p' where "addTrack sample_media p1 = (Inr 1, p')"
    using calculation by (cases "addTrack sample_media p1") (auto simp: addTrack_def emplaceTrack_def new_track_def Let_def)
  ultimately show ?thesis using readded_track_is_not_registered [of p1 sample_media 0 _ 1 p'] by (auto simp: video)
qed

end
