(* ===== verification/MediaPath.thy ===== *)
theory MediaPath
  imports Tracks
begin

text \<open>
  Media from track to track: access units that one track sends through its packetizer come out of the depacketizer of the other track
  as frames. What both codecs provide is the interface \<open>track_codec\<close>; the path is proved once in it.
\<close>

section \<open>Sending and receiving\<close>

text \<open>The application writes the time stamp of the next frame into the configuration it shares with the packetizer.\<close>

fun set_timestamp :: "u32 \<Rightarrow> MediaHandler \<Rightarrow> MediaHandler" where
  "set_timestamp ts (Packetizer c) = Packetizer (c\<lparr>cfg_timestamp := ts\<rparr>)"
| "set_timestamp ts (H264Packetizer sep n c) = H264Packetizer sep n (c\<lparr>cfg_timestamp := ts\<rparr>)"
| "set_timestamp ts (H265Packetizer sep n c) = H265Packetizer sep n (c\<lparr>cfg_timestamp := ts\<rparr>)"
| "set_timestamp ts h = h"

fun send_frames :: "u64 \<Rightarrow> (Message \<Rightarrow> bool) \<Rightarrow> (u32 \<times> binary) list \<Rightarrow> Track \<Rightarrow> Track option" where
  "send_frames ntp_time sendMedia [] t = Some t"
| "send_frames ntp_time sendMedia ((ts, data) # fs) t =
     (case Track_send ntp_time sendMedia (VBinary data) (t\<lparr>tk_handlers := map (set_timestamp ts) (tk_handlers t)\<rparr>) of
        Some (Inr _, t) \<Rightarrow> send_frames ntp_time sendMedia fs t
      | _ \<Rightarrow> None)"

definition sent_messages :: "Track \<Rightarrow> Message list" where
  "sent_messages t = List.map_filter (\<lambda>e. case e of TkSent m \<Rightarrow> Some m | _ \<Rightarrow> None) (tk_events t)"

text \<open>The receiving transport makes a new message from the bytes it has decrypted.\<close>

definition on_wire :: "Message \<Rightarrow> Message" where
  "on_wire m = make_message (msg_data m) Binary 0 None None"

definition receive_packets :: "(Message \<Rightarrow> bool) \<Rightarrow> Message list \<Rightarrow> Track \<Rightarrow> Track" where
  "receive_packets sendMedia ps t = fold (\<lambda>p. Track_incoming sendMedia (Some (on_wire p))) ps t"

definition from_config :: "RtpPacketizationConfig \<Rightarrow> Message \<Rightarrow> bool" where
  "from_config c p \<longleftrightarrow> 12 \<le> length (msg_data p) \<and> pkt_timestamp p = cfg_timestamp c \<and> pkt_payloadType p = cfg_payloadType c AND 0x7F"

definition frame_events :: "Message list \<Rightarrow> track_event list" where
  "frame_events ms = concat (map (\<lambda>m. [TkAvailable, TkFrame (msg_data m) (the (msg_frameInfo m))]) ms)"

definition frame_of :: "u8 \<Rightarrow> u32 \<times> binary \<Rightarrow> Message" where
  "frame_of pt f = (case f of (ts, data) \<Rightarrow> make_message data Binary 0 None (Some \<lparr>fi_payloadType = pt, fi_timestamp = ts\<rparr>))"

definition sending :: "Track \<Rightarrow> bool" where
  "sending t \<longleftrightarrow> tk_transport t \<and> \<not> tk_isClosed t \<and> en_direction (tk_description t) \<notin> {RecvOnly, Inactive}"

definition receiving :: "Track \<Rightarrow> bool" where
  "receiving t \<longleftrightarrow> tk_openTriggered t \<and> tk_frameCallback t \<and> mQueue (tk_recvQueue t) = [] \<and> \<not> mStopping (tk_recvQueue t) \<and>
     mLimit (tk_recvQueue t) \<noteq> 0 \<and> en_direction (tk_description t) \<notin> {SendOnly, Inactive}"

section \<open>Packets\<close>

lemma packetize_fragments_from_config:
  assumes "small_extension c" and "packetize_fragments fs c = Inr (ms, c')"
  shows "\<forall>m \<in> set ms. from_config c m"
  using assms
proof (induction fs arbitrary: c ms c')
  case (Cons f fs)
  have "rtpExtHeaderSize c (fs = []) \<le> 4 * 65536" using Cons.prems unfolding small_extension_def by blast
  note p = packetize_eq [OF this, of f]
  let ?c = "c\<lparr>cfg_sequenceNumber := cfg_sequenceNumber c + 1\<rparr>"
  obtain ms' where ms': "packetize_fragments fs ?c = Inr (ms', c')"
    "ms = make_message (packet_bytes c (fs = []) f) Binary 0 None None # ms'"
    using Cons.prems(2) by (auto simp: p packet_bytes_def bind_result_Inr_iff)
  have "\<forall>m \<in> set ms'. from_config ?c m" using Cons.IH [OF _ ms'(1)] Cons.prems(1) by simp
  then show ?case
    by (auto simp: ms'(2) from_config_def packet_bytes_def rtp.dec_enc rtp.length_enc packet_header_fields)
qed simp

lemma outgoing_from_config:
  assumes "small_extension c" and "NalRtpPacketizer_outgoing fragmentsFrom sep n [m] c = Some (Inr (pkts, c'))"
  shows "\<forall>p \<in> set pkts. from_config c p"
  using assms packetize_fragments_from_config [OF assms(1)]
  by (auto split: option.splits sum.splits prod.splits)

lemma buildFrames_data:
  assumes "map msg_data g = map msg_data g'"
  shows "buildFrames packet g = buildFrames packet g'"
proof -
  have "access_unit packet g au = access_unit packet g' au" for au
    using assms
  proof (induction g arbitrary: g' au)
    case (Cons m g)
    then show ?case by (cases g') (auto simp: bind_result_def split: sum.splits)
  qed simp
  then show ?thesis by (simp add: buildFrames_def fun_eq_iff)
qed

definition access_unit_of :: "(binary \<Rightarrow> bool) \<Rightarrow> Separator \<Rightarrow> binary \<Rightarrow> bool" where
  "access_unit_of unit_ok sep d \<longleftrightarrow>
     (\<exists>us. us \<noteq> [] \<and> (\<forall>u \<in> set us. unit_ok u \<and> byte_stream_unit u) \<and> d = concat (map ((@) (start_code sep)) us))"

context fragmentation
begin

lemma packets_of_unit:
  assumes "access_unit_of unit_ok sep (msg_data m)" and "small_extension c"
  shows "\<exists>pkts. NalRtpPacketizer_outgoing fragmentsFrom sep limit [m] c =
      Some (Inr (pkts, c\<lparr>cfg_sequenceNumber := cfg_sequenceNumber c + of_nat (length pkts)\<rparr>)) \<and> (\<forall>p \<in> set pkts. from_config c p) \<and>
    (\<forall>pt ts. buildFrames packet pkts pt ts = Inr [make_message (msg_data m) Binary 0 None (Some \<lparr>fi_payloadType = pt, fi_timestamp = ts\<rparr>)])"
proof -
  obtain us where us: "us \<noteq> []" "\<forall>u \<in> set us. unit_ok u \<and> byte_stream_unit u" "msg_data m = concat (map ((@) (start_code sep)) us)"
    using assms(1) by (auto simp: access_unit_of_def)
  note path = roundtrip [OF us(1,2) assms(2) us(3)]
  obtain pkts where pkts: "NalRtpPacketizer_outgoing fragmentsFrom sep limit [m] c =
      Some (Inr (pkts, c\<lparr>cfg_sequenceNumber := cfg_sequenceNumber c + of_nat (length pkts)\<rparr>))"
    using path by blast
  have "buildFrames packet pkts pt ts = Inr [make_message (msg_data m) Binary 0 None (Some \<lparr>fi_payloadType = pt, fi_timestamp = ts\<rparr>)]" for pt ts
    using path [of pt ts] pkts by auto
  then show ?thesis using pkts outgoing_from_config [OF assms(2) pkts] by blast
qed

end

section \<open>A codec on a track\<close>

text \<open>
  What a pair of packetizer and depacketizer promises: the packets of an access unit carry the time stamp and payload type of the
  configuration and build one frame with the bytes of the unit; the depacketizer collects packets by time stamp; only bytes matter.
\<close>

locale track_codec =
  fixes sender :: "RtpPacketizationConfig \<Rightarrow> MediaHandler"
    and receiver :: "Message list \<Rightarrow> MediaHandler"
    and build :: "Message list \<Rightarrow> u8 \<Rightarrow> u32 \<Rightarrow> Message list result"
    and unit_ok :: "binary \<Rightarrow> bool"
  assumes packetizes: "unit_ok (msg_data m) \<Longrightarrow> small_extension c \<Longrightarrow> \<exists>pkts.
      handler_outgoing ntp [m] (sender c) = Some (Inr (pkts, []), sender (c\<lparr>cfg_sequenceNumber := cfg_sequenceNumber c + of_nat (length pkts)\<rparr>)) \<and>
      (\<forall>p \<in> set pkts. from_config c p) \<and>
      (\<forall>pt ts. build pkts pt ts = Inr [make_message (msg_data m) Binary 0 None (Some \<lparr>fi_payloadType = pt, fi_timestamp = ts\<rparr>)])"
    and timestamp: "set_timestamp ts (sender c) = sender (c\<lparr>cfg_timestamp := ts\<rparr>)"
    and collects: "handler_incoming ms (receiver buffer) =
      (case NalRtpDepacketizer_incoming build ms buffer of (r, buffer) \<Rightarrow> (bind_result r (\<lambda>ms. Inr (ms, [])), receiver buffer))"
    and build_empty: "build [] pt ts = Inr []"
    and build_data: "map msg_data g = map msg_data g' \<Longrightarrow> build g = build g'"
begin

subsection \<open>The sending track\<close>

lemma send_all:
  assumes "tk_transport t"
  shows "\<exists>r ms. transport_send_all sendMedia ret ps t = (Inr r, t\<lparr>tk_events := tk_events t @ map TkSent ms\<rparr>) \<and> map msg_data ms = map msg_data ps"
  using assms
proof (induction ps arbitrary: ret t)
  case Nil
  then show ?case by (intro exI [of _ ret] exI [of _ "[]"]) simp
next
  case (Cons p ps)
  let ?p = "p\<lparr>msg_dscp := if en_type (tk_description t) = ''audio'' then 46 else 36\<rparr>"
  obtain r ms where "transport_send_all sendMedia (sendMedia ?p) ps (tk_emit (TkSent ?p) t) =
      (Inr r, (tk_emit (TkSent ?p) t)\<lparr>tk_events := tk_events (tk_emit (TkSent ?p) t) @ map TkSent ms\<rparr>)" "map msg_data ms = map msg_data ps"
    using Cons.IH [of "tk_emit (TkSent ?p) t" "sendMedia ?p"] Cons.prems by (auto simp: tk_emit_def)
  then show ?case
    using Cons.prems by (intro exI [of _ r] exI [of _ "?p # ms"]) (simp add: transportSend_def tk_emit_def Let_def)
qed

lemma send_frame:
  assumes "sending t" and "tk_handlers t = [sender c]" and "unit_ok data" and "small_extension c"
  shows "\<exists>r ms c'. Track_send ntp sendMedia (VBinary data) (t\<lparr>tk_handlers := map (set_timestamp ts) (tk_handlers t)\<rparr>) =
      Some (Inr r, t\<lparr>tk_handlers := [sender c'], tk_events := tk_events t @ map TkSent ms\<rparr>) \<and>
    small_extension c' \<and> cfg_payloadType c' = cfg_payloadType c \<and> (\<forall>p \<in> set ms. from_config (c\<lparr>cfg_timestamp := ts\<rparr>) p) \<and> ms \<noteq> [] \<and>
    (\<forall>pt ts. build ms pt ts = Inr [make_message data Binary 0 None (Some \<lparr>fi_payloadType = pt, fi_timestamp = ts\<rparr>)])"
proof -
  let ?c = "c\<lparr>cfg_timestamp := ts\<rparr>" and ?m = "make_message_variant (VBinary data)"
  have small: "small_extension ?c"
    using assms(4) by (simp add: small_extension_def rtpExtHeaderSize_def setVideoRotation_def setPlayoutDelay_def)
  have data: "msg_data ?m = data" "msg_type ?m = Binary" by (simp_all add: make_message_variant_def)
  obtain pkts where pkts: "handler_outgoing ntp [?m] (sender ?c) =
        Some (Inr (pkts, []), sender (?c\<lparr>cfg_sequenceNumber := cfg_sequenceNumber ?c + of_nat (length pkts)\<rparr>))"
      "\<forall>p \<in> set pkts. from_config ?c p"
      "\<forall>pt ts. build pkts pt ts = Inr [make_message data Binary 0 None (Some \<lparr>fi_payloadType = pt, fi_timestamp = ts\<rparr>)]"
    using packetizes [of ?m ?c ntp] assms(3) small unfolding data by blast
  let ?c' = "?c\<lparr>cfg_sequenceNumber := cfg_sequenceNumber ?c + of_nat (length pkts)\<rparr>"
  let ?t = "t\<lparr>tk_handlers := [sender ?c']\<rparr>"
  have "tk_transport ?t" using assms(1) by (simp add: sending_def)
  from send_all [OF this, of sendMedia False pkts]
  obtain r ms where ms: "transport_send_all sendMedia False pkts ?t = (Inr r, ?t\<lparr>tk_events := tk_events ?t @ map TkSent ms\<rparr>)"
    "map msg_data ms = map msg_data pkts" by blast
  have "pkts \<noteq> []" using pkts(3) build_empty by auto
  then have "ms \<noteq> []" using ms(2) by auto
  moreover have "build ms = build pkts" using build_data [OF ms(2)] .
  moreover have "\<forall>p \<in> set ms. from_config ?c p"
  proof
    fix p assume "p \<in> set ms"
    then have "msg_data p \<in> set (map msg_data pkts)" unfolding ms(2) [symmetric] by simp
    then show "from_config ?c p" using pkts(2) by (auto simp: from_config_def)
  qed
  moreover have "Track_send ntp sendMedia (VBinary data) (t\<lparr>tk_handlers := map (set_timestamp ts) (tk_handlers t)\<rparr>) =
      Some (Inr r, t\<lparr>tk_handlers := [sender ?c'], tk_events := tk_events t @ map TkSent ms\<rparr>)"
    using assms(1,2) pkts(1) ms(1) data
    by (auto simp: Track_send_def Track_outgoing_def sending_def timestamp Let_def)
  moreover have "small_extension ?c'" using small by simp
  ultimately show ?thesis using pkts(3) by (intro exI [of _ r] exI [of _ ms] exI [of _ ?c']) simp
qed

text \<open>The packets of a sequence of frames are groups, one for each frame.\<close>

definition carries_frames :: "u8 \<Rightarrow> (u32 \<times> binary) list \<Rightarrow> Message list list \<Rightarrow> bool" where
  "carries_frames pt fs gs \<longleftrightarrow> list_all2 (\<lambda>(ts, data) g. g \<noteq> [] \<and>
     (\<forall>p \<in> set g. 12 \<le> length (msg_data p) \<and> pkt_timestamp p = ts \<and> pkt_payloadType p = pt) \<and>
     (\<forall>pt ts. build g pt ts = Inr [make_message data Binary 0 None (Some \<lparr>fi_payloadType = pt, fi_timestamp = ts\<rparr>)])) fs gs"

lemma send_frames_groups:
  assumes "sending t" and "tk_handlers t = [sender c]" and "\<forall>(ts, data) \<in> set fs. unit_ok data" and "small_extension c"
  shows "\<exists>t' gs. send_frames ntp sendMedia fs t = Some t' \<and> tk_events t' = tk_events t @ map TkSent (concat gs) \<and>
    carries_frames (cfg_payloadType c AND 0x7F) fs gs"
  using assms
proof (induction fs arbitrary: t c)
  case Nil
  then show ?case by (intro exI [of _ t] exI [of _ "[]"]) (simp add: carries_frames_def)
next
  case (Cons f fs)
  obtain ts data where f: "f = (ts, data)" by fastforce
  obtain r ms c' where 1: "Track_send ntp sendMedia (VBinary data) (t\<lparr>tk_handlers := map (set_timestamp ts) (tk_handlers t)\<rparr>) =
      Some (Inr r, t\<lparr>tk_handlers := [sender c'], tk_events := tk_events t @ map TkSent ms\<rparr>)"
    "small_extension c'" "cfg_payloadType c' = cfg_payloadType c" "\<forall>p \<in> set ms. from_config (c\<lparr>cfg_timestamp := ts\<rparr>) p" "ms \<noteq> []"
    "\<forall>pt ts. build ms pt ts = Inr [make_message data Binary 0 None (Some \<lparr>fi_payloadType = pt, fi_timestamp = ts\<rparr>)]"
    using send_frame [OF Cons.prems(1,2) _ Cons.prems(4), of data ntp sendMedia ts] Cons.prems(3) f by auto
  let ?t = "t\<lparr>tk_handlers := [sender c'], tk_events := tk_events t @ map TkSent ms\<rparr>"
  obtain t' gs where 2: "send_frames ntp sendMedia fs ?t = Some t'" "tk_events t' = tk_events ?t @ map TkSent (concat gs)"
    "carries_frames (cfg_payloadType c' AND 0x7F) fs gs"
    using Cons.IH [of ?t c'] Cons.prems 1(2) by (auto simp: sending_def)
  show ?case
    using 1 2 by (intro exI [of _ t'] exI [of _ "ms # gs"]) (simp add: f carries_frames_def from_config_def)
qed

subsection \<open>The receiving track\<close>

lemma enqueue_frames:
  assumes "receiving t" and "\<forall>m \<in> set ms. msg_frameInfo m \<noteq> None"
  shows "enqueue_incoming ms t = t\<lparr>tk_events := tk_events t @ frame_events ms\<rparr>"
  using assms
proof (induction ms arbitrary: t)
  case Nil
  then show ?case by (cases t) (simp add: frame_events_def)
next
  case (Cons m ms)
  obtain fi where fi: "msg_frameInfo m = Some fi" using Cons.prems(2) by auto
  let ?q = "(tk_recvQueue t)\<lparr>mAmount := mAmount (tk_recvQueue t) + mAmountFunction (tk_recvQueue t) m, mQueue := [m]\<rparr>"
  have t: "mQueue (tk_recvQueue t) = []" "\<not> mStopping (tk_recvQueue t)" "mLimit (tk_recvQueue t) \<noteq> 0" "tk_openTriggered t" "tk_frameCallback t"
    using Cons.prems(1) by (simp_all add: receiving_def)
  have same: "(tk_recvQueue t)\<lparr>mAmount := mAmount (tk_recvQueue t), mQueue := []\<rparr> = tk_recvQueue t" using t(1) by (cases "tk_recvQueue t") simp
  have "Track_triggerAvailable 1 (t\<lparr>tk_recvQueue := ?q\<rparr>) = t\<lparr>tk_events := tk_events t @ [TkAvailable, TkFrame (msg_data m) fi]\<rparr>"
    using t same fi
    by (cases t) (simp add: Track_triggerAvailable_def Track_flushPendingMessages_def track_flush_loop.simps Queue_pop_def deliver_message_def tk_emit_def)
  then have "enqueue_incoming (m # ms) t = enqueue_incoming ms (t\<lparr>tk_events := tk_events t @ [TkAvailable, TkFrame (msg_data m) fi]\<rparr>)"
    using t by (simp add: Queue_full_def Queue_push_def Queue_size_def)
  also have "\<dots> = t\<lparr>tk_events := tk_events t @ frame_events (m # ms)\<rparr>"
    using Cons.IH [of "t\<lparr>tk_events := tk_events t @ [TkAvailable, TkFrame (msg_data m) fi]\<rparr>"] Cons.prems by (simp add: frame_events_def fi receiving_def)
  finally show ?case .
qed

lemma incoming_packet:
  assumes "receiving t" and "tk_handlers t = [receiver buffer]" and "12 \<le> length (msg_data p)"
    and "drain build (buffer @ [on_wire p]) [] = (Inr frames, buffer')" and "\<forall>m \<in> set frames. msg_frameInfo m \<noteq> None"
  shows "Track_incoming sendMedia (Some (on_wire p)) t = t\<lparr>tk_handlers := [receiver buffer'], tk_events := tk_events t @ frame_events frames\<rparr>"
proof -
  have "NalRtpDepacketizer_incoming build [on_wire p] buffer = (Inr frames, buffer')"
    using assms(3,4) by (simp add: NalRtpDepacketizer_incoming_def on_wire_def)
  moreover have "receiving (t\<lparr>tk_handlers := [receiver buffer']\<rparr>)" using assms(1) by (simp add: receiving_def)
  ultimately show ?thesis
    using assms(1,2) enqueue_frames [OF _ assms(5)] by (simp add: Track_incoming_def collects receiving_def)
qed

lemma wire_packet: "msg_data (on_wire p) = msg_data p"
  by (simp add: on_wire_def)

lemma receive_group:
  assumes "receiving t" and "tk_handlers t = [receiver buffer]" and "ts \<noteq> 0" and "\<forall>p \<in> set buffer. pkt_timestamp p = ts"
    and "\<forall>p \<in> set g. 12 \<le> length (msg_data p) \<and> pkt_timestamp p = ts"
  shows "receive_packets sendMedia g t = t\<lparr>tk_handlers := [receiver (buffer @ map on_wire g)]\<rparr>"
  using assms
proof (induction g arbitrary: t buffer)
  case Nil
  then show ?case by (cases t) (simp add: receive_packets_def)
next
  case (Cons p g)
  have "pkt_timestamp (hd (buffer @ [on_wire p])) = ts" using Cons.prems(4,5) by (cases buffer) (simp_all add: wire_packet)
  then have "separated ([] @ [buffer @ [on_wire p]])"
    using Cons.prems(3-5) by (simp add: wire_packet list_all_iff)
  then have "drain build (buffer @ [on_wire p]) [] = (Inr [], buffer @ [on_wire p])"
    using drain_groups [of "[]" "buffer @ [on_wire p]" build "\<lambda>_. []" "[]"] by simp
  then have step: "Track_incoming sendMedia (Some (on_wire p)) t = t\<lparr>tk_handlers := [receiver (buffer @ [on_wire p])]\<rparr>"
    using incoming_packet [OF Cons.prems(1,2), of p "[]"] Cons.prems(5) by (cases t) (simp add: frame_events_def)
  show ?case
    using Cons.IH [of "t\<lparr>tk_handlers := [receiver (buffer @ [on_wire p])]\<rparr>" "buffer @ [on_wire p]"] Cons.prems
    by (simp add: receive_packets_def step receiving_def wire_packet)
qed

lemma build_wire: "build (map on_wire g) = build g"
  by (rule build_data) (simp add: wire_packet)

lemma receive_groups:
  assumes "carries_frames pt (f # fs) (g # gs)" and "\<forall>f \<in> set (f # fs). fst f \<noteq> 0"
    and "successively (\<lambda>f f'. fst f \<noteq> fst f') (f # fs)" and "receiving t" and "tk_handlers t = [receiver (map on_wire g)]"
  shows "\<exists>buffer. receive_packets sendMedia (concat gs) t =
    t\<lparr>tk_handlers := [receiver buffer], tk_events := tk_events t @ frame_events (map (frame_of pt) (butlast (f # fs)))\<rparr>"
  using assms
proof (induction fs arbitrary: f g gs t)
  case Nil
  then show ?case by (intro exI [of _ "map on_wire g"]) (cases t, simp add: carries_frames_def receive_packets_def frame_events_def)
next
  case (Cons f' fs)
  obtain ts data where f: "f = (ts, data)" by fastforce
  obtain p g' gs' where gs: "gs = (p # g') # gs'" and g': "\<forall>q \<in> set (p # g'). 12 \<le> length (msg_data q) \<and> pkt_timestamp q = fst f'"
    and rest: "carries_frames pt (f' # fs) ((p # g') # gs')"
    using Cons.prems(1) by (auto simp: carries_frames_def list_all2_Cons1 neq_Nil_conv split: prod.splits)
  have g: "g \<noteq> []" "\<forall>q \<in> set g. pkt_timestamp q = ts \<and> pkt_payloadType q = pt"
    "\<forall>pt ts. build g pt ts = Inr [make_message data Binary 0 None (Some \<lparr>fi_payloadType = pt, fi_timestamp = ts\<rparr>)]"
    using Cons.prems(1) by (auto simp: carries_frames_def f)
  have hd: "pkt_timestamp (hd (map on_wire g)) = ts" "pkt_payloadType (hd (map on_wire g)) = pt" using g(1,2) by (simp_all add: hd_map wire_packet)
  have "ts \<noteq> 0" "fst f' \<noteq> 0" "ts \<noteq> fst f'" using Cons.prems(2,3) f by auto
  then have "separated ([map on_wire g] @ [[on_wire p]])" using g(1,2) g' hd by (simp add: list_all_iff wire_packet)
  then have "drain build (map on_wire g @ [on_wire p]) [] = (Inr [frame_of pt f], [on_wire p])"
    using drain_groups [of "[map on_wire g]" "[on_wire p]" build "\<lambda>_. [frame_of pt f]" "[]"] hd g(3) by (simp add: build_wire frame_of_def f)
  then have 1: "Track_incoming sendMedia (Some (on_wire p)) t = t\<lparr>tk_handlers := [receiver [on_wire p]], tk_events := tk_events t @ frame_events [frame_of pt f]\<rparr>"
    using incoming_packet [OF Cons.prems(4,5)] g' by (simp add: frame_of_def f make_message_def)
  let ?t = "t\<lparr>tk_handlers := [receiver [on_wire p]], tk_events := tk_events t @ frame_events [frame_of pt f]\<rparr>"
  have 2: "receive_packets sendMedia g' ?t = ?t\<lparr>tk_handlers := [receiver ([on_wire p] @ map on_wire g')]\<rparr>"
    using Cons.prems(4) g' \<open>fst f' \<noteq> 0\<close> by (intro receive_group [where ts = "fst f'"]) (auto simp: receiving_def wire_packet)
  obtain buffer where 3: "receive_packets sendMedia (concat gs') (?t\<lparr>tk_handlers := [receiver (map on_wire (p # g'))]\<rparr>) =
      ?t\<lparr>tk_handlers := [receiver buffer], tk_events := tk_events ?t @ frame_events (map (frame_of pt) (butlast (f' # fs)))\<rparr>"
    using Cons.IH [OF rest, of "?t\<lparr>tk_handlers := [receiver (map on_wire (p # g'))]\<rparr>"] Cons.prems(2-4) by (auto simp: receiving_def)
  show ?case
    using 1 2 3 by (intro exI [of _ buffer]) (simp add: receive_packets_def gs frame_events_def)
qed

lemma media_path:
  assumes "sending s" and "tk_handlers s = [sender c]" and "small_extension c"
    and "receiving r" and "tk_handlers r = [receiver []]"
    and "\<forall>(ts, data) \<in> set fs. ts \<noteq> 0 \<and> unit_ok data" and "successively (\<lambda>f f'. fst f \<noteq> fst f') fs" and "sent_messages s = []"
  shows "\<exists>s'. send_frames ntp sendMedia fs s = Some s' \<and>
    tk_events (receive_packets sendMedia' (sent_messages s') r) =
      tk_events r @ frame_events (map (frame_of (cfg_payloadType c AND 0x7F)) (butlast fs))"
proof -
  let ?pt = "cfg_payloadType c AND 0x7F"
  obtain s' gs where s': "send_frames ntp sendMedia fs s = Some s'" "tk_events s' = tk_events s @ map TkSent (concat gs)" "carries_frames ?pt fs gs"
    using send_frames_groups [OF assms(1,2) _ assms(3), of fs] assms(6) by fastforce
  have "List.map_filter (\<lambda>e. case e of TkSent m \<Rightarrow> Some m | _ \<Rightarrow> None) (map TkSent ms) = ms" for ms
    by (induction ms) (simp_all add: List.map_filter_simps)
  then have sent: "sent_messages s' = concat gs"
    using assms(8) s'(2) by (simp add: sent_messages_def List.map_filter_def)
  show ?thesis
  proof (cases fs)
    case Nil
    then have "gs = []" using s'(3) by (simp add: carries_frames_def)
    then show ?thesis using s'(1) sent by (simp add: Nil receive_packets_def frame_events_def)
  next
    case (Cons f fs')
    then obtain g gs' where gs: "gs = g # gs'" using s'(3) by (auto simp: carries_frames_def list_all2_Cons1)
    let ?r = "r\<lparr>tk_handlers := [receiver (map on_wire g)]\<rparr>"
    have "receive_packets sendMedia' g r = r\<lparr>tk_handlers := [receiver ([] @ map on_wire g)]\<rparr>"
      using s'(3) assms(4-6) Cons gs by (intro receive_group [where ts = "fst f"]) (auto simp: carries_frames_def)
    moreover obtain buffer where "receive_packets sendMedia' (concat gs') ?r =
        ?r\<lparr>tk_handlers := [receiver buffer], tk_events := tk_events ?r @ frame_events (map (frame_of ?pt) (butlast (f # fs')))\<rparr>"
      using receive_groups [of ?pt f fs' g gs' ?r] s'(3) assms(4,6,7) Cons gs by (fastforce simp: receiving_def)
    ultimately have "tk_events (receive_packets sendMedia' (concat gs) r) = tk_events r @ frame_events (map (frame_of ?pt) (butlast fs))"
      by (simp add: gs Cons receive_packets_def)
    then show ?thesis using s'(1) sent by simp
  qed
qed

end

section \<open>H.264 and H.265\<close>

interpretation h264_track: track_codec "H264Packetizer sep n" "H264Depacketizer sep" "H264_buildFrames sep"
  "access_unit_of (\<lambda>u. sep \<noteq> Length \<and> 4 \<le> unat n \<and> h264_unit u) sep" for sep n
proof
  fix m :: Message and c ntp
  assume "access_unit_of (\<lambda>u. sep \<noteq> Length \<and> 4 \<le> unat n \<and> h264_unit u) sep (msg_data m)" and "small_extension c"
  from h264.packets_of_unit [OF this] show "\<exists>pkts. handler_outgoing ntp [m] (H264Packetizer sep n c) =
      Some (Inr (pkts, []), H264Packetizer sep n (c\<lparr>cfg_sequenceNumber := cfg_sequenceNumber c + of_nat (length pkts)\<rparr>)) \<and>
      (\<forall>p \<in> set pkts. from_config c p) \<and>
      (\<forall>pt ts. H264_buildFrames sep pkts pt ts = Inr [make_message (msg_data m) Binary 0 None (Some \<lparr>fi_payloadType = pt, fi_timestamp = ts\<rparr>)])"
    by (auto simp: handler_outgoing_def H264RtpPacketizer_outgoing_def H264_buildFrames_def simp del: NalRtpPacketizer_outgoing.simps)
next
  show "H264_buildFrames sep [] pt ts = Inr []" for pt ts by (simp add: H264_buildFrames_def buildFrames_def)
  show "H264_buildFrames sep g = H264_buildFrames sep g'" if "map msg_data g = map msg_data g'" for g g'
    using buildFrames_data [OF that] by (simp add: H264_buildFrames_def)
qed (simp_all add: handler_incoming_def H264RtpDepacketizer_incoming_def split: prod.splits)

interpretation h265_track: track_codec "H265Packetizer sep n" "H265Depacketizer sep" "H265_buildFrames sep"
  "access_unit_of (\<lambda>u. sep \<noteq> Length \<and> 6 \<le> unat n \<and> h265_unit u) sep" for sep n
proof
  fix m :: Message and c ntp
  assume "access_unit_of (\<lambda>u. sep \<noteq> Length \<and> 6 \<le> unat n \<and> h265_unit u) sep (msg_data m)" and "small_extension c"
  from h265.packets_of_unit [OF this] show "\<exists>pkts. handler_outgoing ntp [m] (H265Packetizer sep n c) =
      Some (Inr (pkts, []), H265Packetizer sep n (c\<lparr>cfg_sequenceNumber := cfg_sequenceNumber c + of_nat (length pkts)\<rparr>)) \<and>
      (\<forall>p \<in> set pkts. from_config c p) \<and>
      (\<forall>pt ts. H265_buildFrames sep pkts pt ts = Inr [make_message (msg_data m) Binary 0 None (Some \<lparr>fi_payloadType = pt, fi_timestamp = ts\<rparr>)])"
    by (auto simp: handler_outgoing_def H265RtpPacketizer_outgoing_def H265_buildFrames_def simp del: NalRtpPacketizer_outgoing.simps)
next
  show "H265_buildFrames sep [] pt ts = Inr []" for pt ts by (simp add: H265_buildFrames_def buildFrames_def)
  show "H265_buildFrames sep g = H265_buildFrames sep g'" if "map msg_data g = map msg_data g'" for g g'
    using buildFrames_data [OF that] by (simp add: H265_buildFrames_def)
qed (simp_all add: handler_incoming_def H265RtpDepacketizer_incoming_def split: prod.splits)


lemma track_delivers_h265_frames:
  assumes "sending s" and "tk_handlers s = [H265Packetizer sep n c]" and "small_extension c" and "sep \<noteq> Length" and "6 \<le> unat n"
    and "receiving r" and "tk_handlers r = [H265Depacketizer sep []]" and "sent_messages s = []"
    and "\<forall>(ts, data) \<in> set fs. ts \<noteq> 0 \<and> access_unit_of h265_unit sep data" and "successively (\<lambda>f f'. fst f \<noteq> fst f') fs"
  shows "\<exists>s'. send_frames ntp sendMedia fs s = Some s' \<and>
    tk_events (receive_packets sendMedia' (sent_messages s') r) =
      tk_events r @ frame_events (map (frame_of (cfg_payloadType c AND 0x7F)) (butlast fs))"
  using assms by (intro h265_track.media_path) (auto simp: access_unit_of_def)

definition example_track :: "Direction \<Rightarrow> MediaHandler list \<Rightarrow> Track" where
  "example_track dir hs = (Track_init \<lparr>en_attributes = [], en_extMaps = [], en_type = ''video'', en_protocol = ''UDP/TLS/RTP/SAVPF'',
     en_description = [], en_mid = ''video'', en_rids = [], en_direction = dir, en_isRemoved = False, md_bas = -1, md_orderedPayloadTypes = [],
     md_rtpMaps = [], md_ssrcs = [], md_cNameMap = []\<rparr>)\<lparr>tk_handlers := hs, tk_transport := True, tk_openTriggered := True, tk_frameCallback := True\<rparr>"


end
