(* ===== verification/Srtp.thy ===== *)
theory Srtp
  imports MediaPath
begin

text \<open>
  Media over DTLS: \<open>src/impl/dtlssrtptransport.cpp\<close>, with the keys derived as in the build with OpenSSL. The library libsrtp is the argument
  \<open>lib\<close>: a session, the protection of a packet and its removal. What the transport below is given and what the callback for media gets are appended to
  \<open>sr_sent\<close> and \<open>sr_received\<close>. Counters for the log are left out, and messages have less than 2 GiB, so that their size is an \<open>int\<close>.
\<close>

section \<open>Data\<close>

datatype srtp_error = ReplayFail | AuthFail | SrtpError nat

datatype srtp_profile = Aes128CmSha1_80 | Aes128CmSha1_32 | AeadAes128Gcm | AeadAes256Gcm

text \<open>\<open>srtp_add_stream\<close> on a new session, \<open>srtp_protect\<close> and \<open>srtp_unprotect\<close>; the first argument of the latter says whether the packet is a control packet.\<close>

record 'c libsrtp =
  lib_add_stream :: "srtp_profile \<Rightarrow> binary \<Rightarrow> nat + 'c"
  lib_protect :: "bool \<Rightarrow> 'c \<Rightarrow> binary \<Rightarrow> (srtp_error + binary) \<times> 'c"
  lib_unprotect :: "bool \<Rightarrow> 'c \<Rightarrow> binary \<Rightarrow> (srtp_error + binary) \<times> 'c"

text \<open>The sessions are used only when \<open>mInitDone\<close> is set; until then they have no stream (\<open>None\<close>).\<close>

record 'c SrtpTransport =
  sr_isClient :: bool
  sr_initDone :: bool
  sr_in :: "'c option"
  sr_out :: "'c option"
  sr_sent :: "Message list"
  sr_received :: "Message list"

definition SrtpTransport_init :: "bool \<Rightarrow> 'c SrtpTransport" where
  "SrtpTransport_init isClient = \<lparr>sr_isClient = isClient, sr_initDone = False, sr_in = None, sr_out = None, sr_sent = [], sr_received = []\<rparr>"

definition SRTP_AES_128_KEY_LEN :: nat where "SRTP_AES_128_KEY_LEN = 16"
definition SRTP_AES_256_KEY_LEN :: nat where "SRTP_AES_256_KEY_LEN = 32"
definition SRTP_SALT_LEN :: nat where "SRTP_SALT_LEN = 14"
definition SRTP_AEAD_SALT_LEN :: nat where "SRTP_AEAD_SALT_LEN = 12"
definition SRTP_MAX_TRAILER_LEN :: nat where "SRTP_MAX_TRAILER_LEN = 144"

section \<open>Keys\<close>

definition getProfileParamsFromName :: "string \<Rightarrow> (srtp_profile \<times> nat \<times> nat) result" where
  "getProfileParamsFromName name =
     (if name = ''SRTP_AES128_CM_SHA1_80'' then Inr (Aes128CmSha1_80, SRTP_AES_128_KEY_LEN, SRTP_SALT_LEN)
      else if name = ''SRTP_AES128_CM_SHA1_32'' then Inr (Aes128CmSha1_32, SRTP_AES_128_KEY_LEN, SRTP_SALT_LEN)
      else if name = ''SRTP_AEAD_AES_128_GCM'' then Inr (AeadAes128Gcm, SRTP_AES_128_KEY_LEN, SRTP_AEAD_SALT_LEN)
      else if name = ''SRTP_AEAD_AES_256_GCM'' then Inr (AeadAes256Gcm, SRTP_AES_256_KEY_LEN, SRTP_AEAD_SALT_LEN)
      else Inl (LogicError ''Unknown SRTP profile name''))"

text \<open>The exported material is client key, server key, client salt, server salt; a session key is a key followed by its salt.\<close>

definition client_session_key :: "nat \<Rightarrow> nat \<Rightarrow> binary \<Rightarrow> binary" where
  "client_session_key keySize saltSize material = slice 0 keySize material @ slice (2 * keySize) (2 * keySize + saltSize) material"

definition server_session_key :: "nat \<Rightarrow> nat \<Rightarrow> binary \<Rightarrow> binary" where
  "server_session_key keySize saltSize material =
     slice keySize (2 * keySize) material @ slice (2 * keySize + saltSize) (2 * keySize + 2 * saltSize) material"

text \<open>\<open>profile\<close> is the profile the handshake selected, \<open>exported n\<close> the keying material of \<open>n\<close> bytes, \<open>None\<close> when the library fails.\<close>

definition postHandshake ::
  "'c libsrtp \<Rightarrow> string option \<Rightarrow> (nat \<Rightarrow> binary option) \<Rightarrow> 'c SrtpTransport \<Rightarrow> unit result \<times> 'c SrtpTransport" where
  "postHandshake lib profile exported t =
     (if sr_initDone t then (Inr (), t)
      else case profile of
        None \<Rightarrow> (Inl (RuntimeError ''Failed to get SRTP profile''), t)
      | Some name \<Rightarrow>
          (case getProfileParamsFromName name of
             Inl e \<Rightarrow> (Inl e, t)
           | Inr (srtpProfile, keySize, saltSize) \<Rightarrow>
               (case exported ((keySize + saltSize) * 2) of
                  None \<Rightarrow> (Inl (RuntimeError ''Failed to derive SRTP keys''), t)
                | Some material \<Rightarrow>
                    let clientKey = client_session_key keySize saltSize material;
                        serverKey = server_session_key keySize saltSize material
                    in case lib_add_stream lib srtpProfile (if sr_isClient t then serverKey else clientKey) of
                         Inl err \<Rightarrow> (Inl (RuntimeError ''SRTP add inbound stream failed''), t)
                       | Inr inbound \<Rightarrow>
                           let t = t\<lparr>sr_in := Some inbound\<rparr>
                           in case lib_add_stream lib srtpProfile (if sr_isClient t then clientKey else serverKey) of
                                Inl err \<Rightarrow> (Inl (RuntimeError ''SRTP add outbound stream failed''), t)
                              | Inr outbound \<Rightarrow> (Inr (), t\<lparr>sr_out := Some outbound, sr_initDone := True\<rparr>))))"

section \<open>Sending and receiving\<close>

text \<open>\<open>outgoing\<close> is what the transport below returns.\<close>

definition DtlsSrtp_sendMedia :: "'c libsrtp \<Rightarrow> (Message \<Rightarrow> bool) \<Rightarrow> Message option \<Rightarrow> 'c SrtpTransport \<Rightarrow> bool result \<times> 'c SrtpTransport" where
  "DtlsSrtp_sendMedia lib outgoing message t =
     (case message of
        None \<Rightarrow> (Inr False, t)
      | Some message \<Rightarrow>
          if \<not> sr_initDone t then (Inr False, t)
          else
            let n = length (msg_data message)
            in if n < 8 then (Inl (RuntimeError ''RTP/RTCP packet too short''), t)
               else
                 let message = the (make_message_resized (n + SRTP_MAX_TRAILER_LEN) (Some message));
                     rtcp = IsRtcp (msg_data message)
                 in case lib_protect lib rtcp (the (sr_out t)) (take n (msg_data message)) of
                      (Inl err, out) \<Rightarrow>
                        (Inl (RuntimeError (if err = ReplayFail then if rtcp then ''Outgoing SRTCP packet is a replay'' else ''Outgoing SRTP packet is a replay''
                                            else if rtcp then ''SRTCP protect error'' else ''SRTP protect error'')), t\<lparr>sr_out := Some out\<rparr>)
                    | (Inr packet, out) \<Rightarrow>
                        let message = message\<lparr>msg_data := packet\<rparr>;
                            message = (if msg_dscp message = 0 then message\<lparr>msg_dscp := 36\<rparr> else message)
                        in (Inr (outgoing message), t\<lparr>sr_out := Some out, sr_sent := sr_sent t @ [message]\<rparr>))"

text \<open>The packet is decrypted in place; the sender is read from the buffer before it is cut to the size of the packet.\<close>

definition recvMedia :: "'c libsrtp \<Rightarrow> Message \<Rightarrow> 'c SrtpTransport \<Rightarrow> unit result \<times> 'c SrtpTransport" where
  "recvMedia lib message t =
     (if length (msg_data message) < 8 then (Inr (), t)
      else
        let rtcp = IsRtcp (msg_data message)
        in case lib_unprotect lib rtcp (the (sr_in t)) (msg_data message) of
             (Inl err, ctx) \<Rightarrow> (Inr (), t\<lparr>sr_in := Some ctx\<rparr>)
           | (Inr packet, ctx) \<Rightarrow>
               let t = t\<lparr>sr_in := Some ctx\<rparr>;
                   buffer = packet @ drop (length packet) (msg_data message)
               in if length buffer < (if rtcp then 8 else 12) then (Inl OutOfBounds, t)
                  else
                    let message = message\<lparr>msg_data := packet, msg_type := if rtcp then Control else Binary,
                          msg_stream := if rtcp then RtcpSr_senderSSRC (RtcpSr_dec buffer) else RtpHeader_ssrc (RtpHeader_dec buffer)\<rparr>
                    in (Inr (), t\<lparr>sr_received := sr_received t @ [message]\<rparr>))"

definition demuxMessage :: "'c libsrtp \<Rightarrow> Message \<Rightarrow> 'c SrtpTransport \<Rightarrow> bool result \<times> 'c SrtpTransport" where
  "demuxMessage lib message t =
     (if \<not> sr_initDone t then (Inr False, t)
      else if msg_data message = [] then (Inr False, t)
      else
        let value1 = hd (msg_data message)
        in if value1 \<ge> 20 \<and> value1 \<le> 63 then (Inr False, t)
           else if value1 \<ge> 128 \<and> value1 \<le> 191 then
             (case recvMedia lib message t of (Inl e, t) \<Rightarrow> (Inl e, t) | (Inr _, t) \<Rightarrow> (Inr True, t))
           else (Inr True, t))"

section \<open>Both ends derive the same keys\<close>

lemma postHandshake_client:
  assumes "postHandshake lib profile exported (SrtpTransport_init True) = (Inr (), a)"
  obtains p k s material where "Option.bind profile (\<lambda>name. case getProfileParamsFromName name of Inl _ \<Rightarrow> None | Inr x \<Rightarrow> Some x) = Some (p, k, s)"
    "exported ((k + s) * 2) = Some material" "lib_add_stream lib p (server_session_key k s material) = Inr (the (sr_in a))"
    "lib_add_stream lib p (client_session_key k s material) = Inr (the (sr_out a))"
  using assms by (auto simp: postHandshake_def SrtpTransport_init_def Let_def split: option.splits sum.splits prod.splits)

lemma postHandshake_server:
  assumes "postHandshake lib profile exported (SrtpTransport_init False) = (Inr (), b)"
  obtains p k s material where "Option.bind profile (\<lambda>name. case getProfileParamsFromName name of Inl _ \<Rightarrow> None | Inr x \<Rightarrow> Some x) = Some (p, k, s)"
    "exported ((k + s) * 2) = Some material" "lib_add_stream lib p (client_session_key k s material) = Inr (the (sr_in b))"
    "lib_add_stream lib p (server_session_key k s material) = Inr (the (sr_out b))"
  using assms by (auto simp: postHandshake_def SrtpTransport_init_def Let_def split: option.splits sum.splits prod.splits)

lemma postHandshake_fields:
  "postHandshake lib profile exported (SrtpTransport_init isClient) = (Inr (), t) \<Longrightarrow> sr_initDone t \<and> sr_sent t = [] \<and> sr_received t = []"
  by (auto simp: postHandshake_def SrtpTransport_init_def Let_def split: option.splits sum.splits prod.splits)

lemma keys_agree:
  assumes "postHandshake lib profile exported (SrtpTransport_init True) = (Inr (), a)" "postHandshake lib profile exported (SrtpTransport_init False) = (Inr (), b)"
  shows "the (sr_out a) = the (sr_in b)" "the (sr_in a) = the (sr_out b)" "\<exists>p key. lib_add_stream lib p key = Inr (the (sr_out a))"
proof -
  obtain p k s material where a: "Option.bind profile (\<lambda>name. case getProfileParamsFromName name of Inl _ \<Rightarrow> None | Inr x \<Rightarrow> Some x) = Some (p, k, s)"
    "exported ((k + s) * 2) = Some material" "lib_add_stream lib p (server_session_key k s material) = Inr (the (sr_in a))"
    "lib_add_stream lib p (client_session_key k s material) = Inr (the (sr_out a))" by (rule postHandshake_client [OF assms(1)])
  obtain p' k' s' material' where b: "Option.bind profile (\<lambda>name. case getProfileParamsFromName name of Inl _ \<Rightarrow> None | Inr x \<Rightarrow> Some x) = Some (p', k', s')"
    "exported ((k' + s') * 2) = Some material'" "lib_add_stream lib p' (client_session_key k' s' material') = Inr (the (sr_in b))"
    "lib_add_stream lib p' (server_session_key k' s' material') = Inr (the (sr_out b))" by (rule postHandshake_server [OF assms(2)])
  have "p' = p" "k' = k" "s' = s" using a(1) b(1) by simp_all
  then have "material' = material" using a(2) b(2) by simp
  then show "the (sr_out a) = the (sr_in b)" "the (sr_in a) = the (sr_out b)" "\<exists>p key. lib_add_stream lib p key = Inr (the (sr_out a))"
    using a(3,4) b(3,4) \<open>p' = p\<close> \<open>k' = k\<close> \<open>s' = s\<close> by auto
qed

section \<open>Media arrives as it was sent\<close>

text \<open>
  What the code relies on of libsrtp (RFC 3711): two sessions made from the same key are in step; a session protects every packet that has a header, a session in
  step restores the packet and stays in step, and protection leaves the first two bytes alone and does not shorten the packet.
\<close>

definition srtp_inverse :: "'c libsrtp \<Rightarrow> ('c \<Rightarrow> 'c \<Rightarrow> bool) \<Rightarrow> bool" where
  "srtp_inverse lib in_step \<longleftrightarrow>
     (\<forall>profile key c. lib_add_stream lib profile key = Inr c \<longrightarrow> in_step c c) \<and>
     (\<forall>s r rtcp packet. in_step s r \<and> length packet \<ge> (if rtcp then 8 else 12) \<longrightarrow>
        (\<exists>out s' r'. lib_protect lib rtcp s packet = (Inr out, s') \<and> lib_unprotect lib rtcp r out = (Inr packet, r') \<and> in_step s' r' \<and>
           length packet \<le> length out \<and> take 2 out = take 2 packet))"

text \<open>A packet with a complete header of version 2.\<close>

definition media_packet :: "Message \<Rightarrow> bool" where
  "media_packet m \<longleftrightarrow> length (msg_data m) \<ge> (if IsRtcp (msg_data m) then 8 else 12) \<and> 128 \<le> ld8 (msg_data m) 0 \<and> ld8 (msg_data m) 0 \<le> 191"

definition received_media :: "Message \<Rightarrow> Message" where
  "received_media m =
     (if IsRtcp (msg_data m) then make_message (msg_data m) Control (RtcpSr_senderSSRC (RtcpSr_dec (msg_data m))) None None
      else make_message (msg_data m) Binary (RtpHeader_ssrc (RtpHeader_dec (msg_data m))) None None)"

lemma IsRtcp_prefix:
  assumes "take 2 b = take 2 c" "length b \<ge> 8" "length c \<ge> 8"
  shows "IsRtcp b = IsRtcp c" "ld8 b 0 = ld8 c 0"
proof -
  have "ld8 b i = ld8 c i" if "i < 2" for i using ld8_take [OF that, of b] ld8_take [OF that, of c] assms(1) by simp
  then show "IsRtcp b = IsRtcp c" "ld8 b 0 = ld8 c 0" using assms(2,3) by (simp_all add: IsRtcp_def)
qed

lemma resized_data: "take (length b) (poke (replicate (length b + n) 0) 0 (take (min (length b + n) (length b)) b)) = b"
    "take 2 (poke (replicate (length b + n) 0) 0 (take (min (length b + n) (length b)) b)) = take 2 (b @ replicate n 0)"
  by (simp_all add: poke_def)

lemma media_step:
  assumes lib: "srtp_inverse lib in_step" and a: "sr_initDone a" and b: "sr_initDone b" and s: "in_step (the (sr_out a)) (the (sr_in b))" and m: "media_packet m"
  shows "\<exists>x a' b'. DtlsSrtp_sendMedia lib outgoing (Some m) a = (Inr (outgoing x), a') \<and> sr_sent a' = sr_sent a @ [x] \<and> msg_dscp x = 36 \<and> sr_initDone a' \<and>
    demuxMessage lib (on_wire x) b = (Inr True, b') \<and> sr_received b' = sr_received b @ [received_media m] \<and> sr_initDone b' \<and> in_step (the (sr_out a')) (the (sr_in b'))"
proof -
  let ?d = "msg_data m" and ?rtcp = "IsRtcp (msg_data m)"
  have len: "length ?d \<ge> (if ?rtcp then 8 else 12)" "length ?d \<ge> 8" using m by (auto simp: media_packet_def split: if_splits)
  obtain out c c' where p: "lib_protect lib ?rtcp (the (sr_out a)) ?d = (Inr out, c)" "lib_unprotect lib ?rtcp (the (sr_in b)) out = (Inr ?d, c')" "in_step c c'"
      "length ?d \<le> length out" "take 2 out = take 2 ?d"
    using lib s len(1) unfolding srtp_inverse_def by blast
  define big where "big = the (make_message_resized (length ?d + SRTP_MAX_TRAILER_LEN) (Some m))"
  have big: "take (length ?d) (msg_data big) = ?d" "msg_dscp big = 0" "IsRtcp (msg_data big) = ?rtcp"
  proof -
    show "take (length ?d) (msg_data big) = ?d" "msg_dscp big = 0"
      using resized_data(1) [of ?d] by (simp_all add: big_def make_message_resized_def Let_def Message_init_def)
    have "length (msg_data big) = length ?d + SRTP_MAX_TRAILER_LEN" by (simp add: big_def make_message_resized_def Let_def Message_init_def poke_def)
    moreover have "take 2 (msg_data big) = take 2 ?d" using len(2) resized_data(2) [of ?d] by (simp add: big_def make_message_resized_def Let_def Message_init_def)
    ultimately show "IsRtcp (msg_data big) = ?rtcp" using len(2) by (intro IsRtcp_prefix) simp_all
  qed
  define x where "x = big\<lparr>msg_data := out, msg_dscp := 36\<rparr>"
  define a' where "a' = a\<lparr>sr_out := Some c, sr_sent := sr_sent a @ [x]\<rparr>"
  have sent: "DtlsSrtp_sendMedia lib outgoing (Some m) a = (Inr (outgoing x), a')"
    using a len(2) p(1) big by (simp add: DtlsSrtp_sendMedia_def x_def a'_def Let_def flip: big_def)
  have out: "IsRtcp out = ?rtcp" "ld8 out 0 = ld8 ?d 0" "out \<noteq> []" "length out \<ge> 8" using IsRtcp_prefix [OF p(5)] p(4) len(2) by auto
  define b' where "b' = b\<lparr>sr_in := Some c', sr_received := sr_received b @ [received_media m]\<rparr>"
  have sender: "ld32 (?d @ rest) i = ld32 ?d i" if "i + 4 \<le> length ?d" for i rest using that by (simp add: ld32_def ld16_def ld8_append)
  have "recvMedia lib (on_wire x) b = (Inr (), b')"
    using out p(2,4) len
    by (auto simp: sender recvMedia_def on_wire_def x_def b'_def received_media_def make_message_def Message_init_def Let_def RtcpSr_senderSSRC_def RtcpSr_dec_def
        RtpHeader_ssrc_def RtpHeader_dec_def)
  moreover have "hd out = ld8 out 0" using out(3) by (cases out) simp_all
  ultimately have "demuxMessage lib (on_wire x) b = (Inr True, b')"
    using b m out(2,3) by (simp add: demuxMessage_def on_wire_def x_def media_packet_def make_message_def Message_init_def) (auto simp: word_le_nat_alt)
  then show ?thesis using sent a b p(3) by (intro exI [of _ x] exI [of _ a'] exI [of _ b']) (simp add: a'_def b'_def x_def)
qed

text \<open>One end sends messages, the other gets the packets one by one.\<close>

definition send_media :: "'c libsrtp \<Rightarrow> Message list \<Rightarrow> 'c SrtpTransport \<Rightarrow> 'c SrtpTransport" where
  "send_media lib ms t = fold (\<lambda>m t. snd (DtlsSrtp_sendMedia lib (\<lambda>_. True) (Some m) t)) ms t"

definition receive_media :: "'c libsrtp \<Rightarrow> Message list \<Rightarrow> 'c SrtpTransport \<Rightarrow> 'c SrtpTransport" where
  "receive_media lib xs t = fold (\<lambda>x t. snd (demuxMessage lib (on_wire x) t)) xs t"

lemma media_run:
  assumes "srtp_inverse lib in_step" "sr_initDone a" "sr_initDone b" "in_step (the (sr_out a)) (the (sr_in b))" "\<forall>m \<in> set ms. media_packet m"
  shows "\<exists>xs. sr_sent (send_media lib ms a) = sr_sent a @ xs \<and> sr_received (receive_media lib xs b) = sr_received b @ map received_media ms \<and> length xs = length ms"
  using assms(2-5)
proof (induction ms arbitrary: a b)
  case Nil
  then show ?case by (simp add: send_media_def receive_media_def)
next
  case (Cons m ms)
  obtain x a' b' where step: "DtlsSrtp_sendMedia lib (\<lambda>_. True) (Some m) a = (Inr True, a')" "sr_sent a' = sr_sent a @ [x]" "sr_initDone a'"
      "demuxMessage lib (on_wire x) b = (Inr True, b')" "sr_received b' = sr_received b @ [received_media m]" "sr_initDone b'" "in_step (the (sr_out a')) (the (sr_in b'))"
    using media_step [OF assms(1) Cons.prems(1-3), of m "\<lambda>_. True"] Cons.prems(4) by auto
  obtain xs where "sr_sent (send_media lib ms a') = sr_sent a' @ xs" "sr_received (receive_media lib xs b') = sr_received b' @ map received_media ms" "length xs = length ms"
    using Cons.IH [OF step(3,6,7)] Cons.prems(4) by auto
  then show ?case using step by (intro exI [of _ "x # xs"]) (simp add: send_media_def receive_media_def)
qed


text \<open>A library that counts packets and appends the counter as the tag.\<close>

definition counting_lib :: "u8 libsrtp" where
  "counting_lib =
     \<lparr>lib_add_stream = \<lambda>_ key. Inr (hd key),
      lib_protect = \<lambda>_ c packet. (Inr (packet @ [c]), c + 1),
      lib_unprotect = \<lambda>_ c packet. (if last packet = c then Inr (butlast packet) else Inl AuthFail, c + 1)\<rparr>"

lemma counting_inverse: "srtp_inverse counting_lib (=)"
  by (auto simp: srtp_inverse_def counting_lib_def)


section \<open>The mark of a track is lost\<close>

text \<open>The DSCP mark that a track puts on its packets (46 for audio) never reaches the network: \<open>sendMedia\<close> replaces the message by a copy that
  \<open>make_message\<close> makes without the mark, and then, finding none, marks every packet with 36.\<close>

theorem audio_mark_is_lost:
  assumes "en_type (tk_description t) = ''audio''" "tk_transport t"
    and "DtlsSrtp_sendMedia lib outgoing (Some (m\<lparr>msg_dscp := 46\<rparr>)) s = (r, s')"
  shows "transportSend (\<lambda>_. True) m t = (Inr True, tk_emit (TkSent (m\<lparr>msg_dscp := 46\<rparr>)) t) \<and>
    (\<exists>xs. sr_sent s' = sr_sent s @ xs \<and> (\<forall>x \<in> set xs. msg_dscp x = 36))"
proof -
  have "\<exists>xs. sr_sent s' = sr_sent s @ xs \<and> (\<forall>x \<in> set xs. msg_dscp x = 36)"
    using assms(3) by (auto simp: DtlsSrtp_sendMedia_def make_message_resized_def Message_init_def Let_def split: if_splits prod.splits sum.splits)
  then show ?thesis using assms(1,2) by (simp add: transportSend_def)
qed

theorem audio_mark_is_lost_witness:
  "\<exists>s' :: u8 SrtpTransport. map msg_dscp (sr_sent s') = [36]"
proof -
  define media :: Media where "media = \<lparr>en_attributes = [], en_extMaps = [], en_type = ''audio'', en_protocol = ''UDP/TLS/RTP/SAVPF'', en_description = [],
    en_mid = ''a'', en_rids = [], en_direction = SendOnly, en_isRemoved = False, md_bas = -1, md_orderedPayloadTypes = [], md_rtpMaps = [], md_ssrcs = [], md_cNameMap = []\<rparr>"
  define t where "t = (Track_init media)\<lparr>tk_transport := True\<rparr>"
  define s where "s = (SrtpTransport_init True)\<lparr>sr_initDone := True, sr_out := Some (0 :: u8)\<rparr>"
  let ?m = "make_message [128, 200, 0, 1, 0, 0, 0, 7] Binary 0 None None"
  obtain r s' where s': "DtlsSrtp_sendMedia counting_lib (\<lambda>_. True) (Some (?m\<lparr>msg_dscp := 46\<rparr>)) s = (r, s')" by fastforce
  have "length (sr_sent s') = 1" using s'
    by (simp add: DtlsSrtp_sendMedia_def s_def SrtpTransport_init_def make_message_resized_def counting_lib_def Let_def make_message_def Message_init_def) auto
  moreover have "\<exists>xs. sr_sent s' = sr_sent s @ xs \<and> (\<forall>x \<in> set xs. msg_dscp x = 36)"
    using audio_mark_is_lost [of t counting_lib "\<lambda>_. True" ?m s r s'] s' by (simp add: t_def media_def Track_init_def)
  ultimately show ?thesis by (intro exI [of _ s']) (auto simp: s_def SrtpTransport_init_def length_Suc_conv)
qed

end
