(* ===== verification/MediaRouting.thy ===== *)
theory MediaRouting
  imports Exchanges Srtp
begin

text \<open>
  What a peer connection does with its transports and with the media that arrives: the parts of \<open>src/impl/peerconnection.cpp\<close> that check the certificate of the
  other side, react to the states of DTLS and SCTP, open and close tracks, and hand incoming packets to tracks by their SSRC. A read behind the end
  of a packet, which the code does not exclude, is \<open>OutOfBounds\<close>.
\<close>

section \<open>The certificate of the other side\<close>

record Security =
  se_algorithm :: Algorithm
  se_fingerprint :: "string option"

definition Security_init :: Security where
  "Security_init = \<lparr>se_algorithm = Sha256, se_fingerprint = None\<rparr>"

text \<open>The part of \<open>initDtlsTransport\<close> that chooses the algorithm of the fingerprint.\<close>

definition choose_algorithm :: "Peer \<Rightarrow> Security \<Rightarrow> Security" where
  "choose_algorithm p sec =
     (case Option.bind (pn_remoteDescription p) de_fingerprint of Some f \<Rightarrow> sec\<lparr>se_algorithm := fp_algorithm f\<rparr> | None \<Rightarrow> sec)"

definition checkFingerprint :: "bool \<Rightarrow> string \<Rightarrow> Peer \<Rightarrow> Security \<Rightarrow> bool \<times> Security" where
  "checkFingerprint disableFingerprintVerification fingerprint p sec =
     (let sec = sec\<lparr>se_fingerprint := Some fingerprint\<rparr>
      in case Option.bind (pn_remoteDescription p) de_fingerprint of
           None \<Rightarrow> (False, sec)
         | Some f \<Rightarrow>
             if se_algorithm sec \<noteq> fp_algorithm f then (False, sec)
             else if disableFingerprintVerification then (True, sec)
             else (fp_value f = fingerprint, sec))"

definition remoteFingerprint :: "Security \<Rightarrow> CertificateFingerprint option" where
  "remoteFingerprint sec = map_option (\<lambda>f. \<lparr>fp_algorithm = se_algorithm sec, fp_value = f\<rparr>) (se_fingerprint sec)"

section \<open>The transports above ICE\<close>

text \<open>The ports of the SCTP transport that is made; \<open>Inr None\<close>: there is one already.\<close>

definition initSctpTransport :: "bool \<Rightarrow> Peer \<Rightarrow> (u16 \<times> u16) option result \<times> Peer" where
  "initSctpTransport hasDtls p =
     (if pc_sctp (pn_channels p) \<noteq> None then (Inr None, p)
      else
        case (hasDtls, Option.bind (pn_localDescription p) application, Option.bind (pn_remoteDescription p) application) of
          (True, Some l, Some r) \<Rightarrow>
            let port = (\<lambda>a. case ap_sctpPort a of Some n \<Rightarrow> n | None \<Rightarrow> DEFAULT_SCTP_PORT)
            in (Inr (Some (port l, port r)), p)
        | _ \<Rightarrow> (Inl (RuntimeError ''SCTP transport initialization failed''), snd (changeState_pc PsFailed p)))"

definition on_dtls_state :: "State \<Rightarrow> Peer \<Rightarrow> unit result \<times> Peer" where
  "on_dtls_state transportState p =
     (case transportState of
        Connected \<Rightarrow>
          let p = p\<lparr>pn_dtlsConnected := True\<rparr>;
              (r, p) = (if (case pn_remoteDescription p of Some d \<Rightarrow> hasApplication d | None \<Rightarrow> False)
                        then map_prod (map_sum id (\<lambda>_. ())) id (initSctpTransport True p)
                        else (Inr (), snd (changeState_pc PsConnected p)))
          in (case r of Inl e \<Rightarrow> (Inl e, p) | Inr _ \<Rightarrow> (Inr (), pn_emit PnOpenTracks p))
      | Failed \<Rightarrow> (Inr (), pn_emit PnRemoteClose (snd (changeState_pc PsFailed p)))
      | Disconnected \<Rightarrow> (Inr (), pn_emit PnRemoteClose (snd (changeState_pc PsDisconnected p)))
      | _ \<Rightarrow> (Inr (), p))"

text \<open>\<open>None\<close>: the assignment of streams does not end (theory \<open>PeerChannels\<close>).\<close>

definition on_sctp_state :: "State \<Rightarrow> Peer \<Rightarrow> (unit result \<times> Peer) option" where
  "on_sctp_state transportState p =
     (case transportState of
        Connected \<Rightarrow>
          let p = snd (changeState_pc PsConnected p)
          in (case assignDataChannels (pn_channels p) of
                None \<Rightarrow> None
              | Some (Inl e, pc) \<Rightarrow> Some (Inl e, p\<lparr>pn_channels := pc\<rparr>)
              | Some (Inr _, pc) \<Rightarrow> Some (Inr (), pn_emit PnOpenDataChannels (p\<lparr>pn_channels := pc\<rparr>)))
      | Failed \<Rightarrow> Some (Inr (), pn_emit PnRemoteClose (snd (changeState_pc PsFailed p)))
      | Disconnected \<Rightarrow> Some (Inr (), pn_emit PnRemoteClose (snd (changeState_pc PsDisconnected p)))
      | _ \<Rightarrow> Some (Inr (), p))"

section \<open>Opening and closing tracks\<close>

definition iterateTracks :: "(Track \<Rightarrow> Track) \<Rightarrow> Peer \<Rightarrow> Peer" where
  "iterateTracks f p =
     fold (\<lambda>n. update_track n f) (filter (\<lambda>n. case pn_trackObjects p n of Some t \<Rightarrow> \<not> tk_isClosed t | None \<Rightarrow> False) (pn_trackLines p)) p"

fun remote_track :: "Peer \<Rightarrow> entry \<Rightarrow> nat option" where
  "remote_track p (AppEntry a) = None"
| "remote_track p (MediaEntry m) = (if en_isRemoved m then None else live_track (en_mid m) p)"

definition iterateRemoteTracks :: "(Track \<Rightarrow> Track) \<Rightarrow> Peer \<Rightarrow> Peer" where
  "iterateRemoteTracks f p =
     (case pn_remoteDescription p of
        None \<Rightarrow> p
      | Some d \<Rightarrow> fold (\<lambda>n. update_track n f) (List.map_filter (remote_track p) (de_entries d)) p)"

text \<open>\<open>transport\<close>: \<open>None\<close> without DTLS, otherwise whether it carries media.\<close>

definition openTracks :: "bool option \<Rightarrow> Peer \<Rightarrow> Peer" where
  "openTracks transport p =
     (case transport of
        None \<Rightarrow> p
      | Some srtp \<Rightarrow>
          iterateRemoteTracks (\<lambda>t. if Track_isOpen t then t else if srtp then Track_open t else tk_emit (TkError ''The connection has no media transport'') t) p)"

definition closeTracks :: "Peer \<Rightarrow> Peer" where
  "closeTracks p = iterateTracks Track_close p"

section \<open>Incoming media\<close>

definition read_ssrc :: "binary \<Rightarrow> nat \<Rightarrow> u32 result" where
  "read_ssrc buf off = (if off + 4 \<le> length buf then Inr (ntohl (ld32 buf off)) else Inl OutOfBounds)"

text \<open>The sources of \<open>n\<close> report blocks from address \<open>off\<close> on, and of the chunks of a source description from the \<open>i\<close>th on.\<close>

fun report_ssrcs :: "binary \<Rightarrow> nat \<Rightarrow> nat \<Rightarrow> u32 list result" where
  "report_ssrcs buf off 0 = Inr []"
| "report_ssrcs buf off (Suc n) = bind_result (read_ssrc buf off) (\<lambda>s. bind_result (report_ssrcs buf (off + 24) n) (\<lambda>ss. Inr (s # ss)))"

fun chunk_ssrcs :: "binary \<Rightarrow> nat \<Rightarrow> nat \<Rightarrow> nat \<Rightarrow> u32 list result" where
  "chunk_ssrcs buf p i 0 = Inr []"
| "chunk_ssrcs buf p i (Suc n) =
     bind_result (RtcpSdes_getChunk buf (p + 4) i) (\<lambda>c. bind_result (read_ssrc buf c) (\<lambda>s. bind_result (chunk_ssrcs buf p (i + 1) n) (\<lambda>ss. Inr (s # ss))))"

definition packet_ssrcs :: "binary \<Rightarrow> nat \<Rightarrow> u32 list result" where
  "packet_ssrcs buf off =
     (let header = overlay RtcpHeader_dec off buf; pt = RtcpHeader_payloadType header; count = unat (RtcpHeader_reportCount header)
      in if pt = 205 \<or> pt = 206 then bind_result (read_ssrc buf (off + 4)) (\<lambda>s. bind_result (read_ssrc buf (off + 8)) (\<lambda>m. Inr [s, m]))
         else if pt = 200 then bind_result (read_ssrc buf (off + 4)) (\<lambda>s. bind_result (report_ssrcs buf (off + RtcpSr_getReportBlock 0) count) (\<lambda>ss. Inr (s # ss)))
         else if pt = 201 then bind_result (read_ssrc buf (off + 4)) (\<lambda>s. bind_result (report_ssrcs buf (off + RtcpRr_getReportBlock 0) count) (\<lambda>ss. Inr (s # ss)))
         else if pt = 202 then
           bind_result (RtcpSdes_isValid buf off) (\<lambda>valid.
             if \<not> valid then Inr [] else bind_result (RtcpSdes_chunksCount buf off) (\<lambda>n. chunk_ssrcs buf off 0 n))
         else Inr [])"

function compound_ssrcs :: "binary \<Rightarrow> nat \<Rightarrow> u32 list result" where
  "compound_ssrcs buf offset =
     (if 4 + offset \<le> length buf then
        let len = RtcpHeader_lengthInBytes (overlay RtcpHeader_dec offset buf)
        in if len > length buf - offset then Inr []
           else bind_result (packet_ssrcs buf offset) (\<lambda>ss. bind_result (compound_ssrcs buf (offset + len)) (\<lambda>rest. Inr (ss @ rest)))
      else Inr [])"
  by pat_completeness auto
termination
  by (relation "measure (\<lambda>(buf, offset). length buf - offset)") (auto simp: RtcpHeader_lengthInBytes_def)

declare compound_ssrcs.simps [simp del]

definition deliver_track :: "(Message \<Rightarrow> bool) \<Rightarrow> Message \<Rightarrow> nat \<Rightarrow> Peer \<Rightarrow> Peer" where
  "deliver_track sendMedia message n p = update_track n (Track_incoming sendMedia (Some message)) p"

definition deliver_ssrc :: "(Message \<Rightarrow> bool) \<Rightarrow> Message \<Rightarrow> u32 \<Rightarrow> Peer \<Rightarrow> Peer" where
  "deliver_ssrc sendMedia message ssrc p = (case pn_tracksBySsrc p ssrc of Some n \<Rightarrow> deliver_track sendMedia message n p | None \<Rightarrow> p)"

definition dispatchMedia :: "(Message \<Rightarrow> bool) \<Rightarrow> Message \<Rightarrow> Peer \<Rightarrow> unit result \<times> Peer" where
  "dispatchMedia sendMedia message p =
     (if length (pn_trackLines p) = 1 then (Inr (), deliver_track sendMedia message (hd (pn_trackLines p)) p)
      else if msg_type message = Control then
        (case compound_ssrcs (msg_data message) 0 of
           Inl e \<Rightarrow> (Inl e, p)
         | Inr ssrcs \<Rightarrow>
             (Inr (), if ssrcs \<noteq> [] then fold (deliver_ssrc sendMedia message) (sort (remdups ssrcs)) p
                      else deliver_ssrc sendMedia message (msg_stream message) p))
      else (Inr (), deliver_ssrc sendMedia message (msg_stream message) p))"

fun dispatch_all :: "(Message \<Rightarrow> bool) \<Rightarrow> Message list \<Rightarrow> Peer \<Rightarrow> unit result \<times> Peer" where
  "dispatch_all sendMedia [] p = (Inr (), p)"
| "dispatch_all sendMedia (m # ms) p = bind_state (dispatchMedia sendMedia m p) (\<lambda>_. dispatch_all sendMedia ms)"

text \<open>
  The handler of the whole connection comes first; \<open>None\<close>: there is none. What it sends by itself goes through \<open>send\<close> of the transport, that is, as application data of DTLS;
  it is returned beside the new state of the handler.
\<close>

definition forwardMedia ::
  "(Message \<Rightarrow> bool) \<Rightarrow> Message option \<Rightarrow> MediaHandler list option \<Rightarrow> Peer \<Rightarrow> unit result \<times> Message list \<times> MediaHandler list option \<times> Peer" where
  "forwardMedia sendMedia message handler p =
     (case message of
        None \<Rightarrow> (Inr (), [], handler, p)
      | Some message \<Rightarrow>
          (case handler of
             None \<Rightarrow> (case dispatchMedia sendMedia message p of (r, p) \<Rightarrow> (r, [], None, p))
           | Some hs \<Rightarrow>
               (case incomingChain hs [message] of
                  (Inl e, hs) \<Rightarrow> (Inr (), [], Some hs, p)
                | (Inr (messages, sent), hs) \<Rightarrow> (case dispatch_all sendMedia messages p of (r, p) \<Rightarrow> (r, sent, Some hs, p)))))"

section \<open>Who is let in\<close>


section \<open>Packets reach their tracks\<close>

lemma cache_entry_ssrc:
  "pn_tracksBySsrc (cache_entry e p) s =
     (case e of MediaEntry m \<Rightarrow> (case live_track (en_mid m) p of Some n \<Rightarrow> if s \<in> set (md_ssrcs m) then Some n else pn_tracksBySsrc p s | None \<Rightarrow> pn_tracksBySsrc p s)
      | AppEntry a \<Rightarrow> pn_tracksBySsrc p s)"
proof -
  have "fold (\<lambda>s c. c(s \<mapsto> n)) ss c s = (if s \<in> set ss then Some n else c s)" for n ss and c :: "u32 \<rightharpoonup> nat"
    by (induction ss arbitrary: c) auto
  then show ?thesis by (simp add: cache_entry_def split: entry.splits option.splits)
qed

lemma cache_entry_live: "live_track mid (cache_entry e p) = live_track mid p"
proof -
  have "pn_tracks (cache_entry e p) = pn_tracks p" "pn_trackObjects (cache_entry e p) = pn_trackObjects p"
    by (simp_all add: cache_entry_def split: entry.splits option.splits)
  then show ?thesis by (simp add: live_track_def cong: option.case_cong)
qed

lemma cache_lines: "pn_trackLines (updateTrackSsrcCache d p) = pn_trackLines p"
proof -
  have "pn_trackLines (cache_entry e p) = pn_trackLines p" for e p by (simp add: cache_entry_def split: entry.splits option.splits)
  then have "pn_trackLines (fold cache_entry es p) = pn_trackLines p" for es by (induction es arbitrary: p) simp_all
  then show ?thesis by (simp add: updateTrackSsrcCache_def)
qed

lemma cache_fold_ssrc:
  assumes "live_track mid p = Some n" "\<forall>m. MediaEntry m \<in> set es \<and> s \<in> set (md_ssrcs m) \<longrightarrow> en_mid m = mid"
    "pn_tracksBySsrc p s = Some n \<or> (\<exists>m. MediaEntry m \<in> set es \<and> s \<in> set (md_ssrcs m))"
  shows "pn_tracksBySsrc (fold cache_entry es p) s = Some n"
  using assms
proof (induction es arbitrary: p)
  case (Cons e es)
  have "pn_tracksBySsrc (cache_entry e p) s = Some n \<or> (\<exists>m. MediaEntry m \<in> set es \<and> s \<in> set (md_ssrcs m))"
    using Cons.prems by (cases e) (auto simp: cache_entry_ssrc split: option.splits)
  then show ?case using Cons.IH [of "cache_entry e p"] Cons.prems(1,2) by (simp add: cache_entry_live)
qed simp


section \<open>Control packets\<close>

text \<open>A feedback packet alone in its message.\<close>

definition feedback_packet :: "binary \<Rightarrow> bool" where
  "feedback_packet buf \<longleftrightarrow> 12 \<le> length buf \<and> RtcpHeader_lengthInBytes (RtcpHeader_dec buf) = length buf \<and> RtcpHeader_payloadType (RtcpHeader_dec buf) \<in> {205, 206}"

lemma feedback_ssrcs:
  assumes "feedback_packet buf"
  shows "compound_ssrcs buf 0 = Inr [RtcpFbHeader_packetSenderSSRC (RtcpFbHeader_dec buf), RtcpFbHeader_mediaSourceSSRC (RtcpFbHeader_dec buf)]"
proof -
  have "compound_ssrcs buf (length buf) = Inr []" by (subst compound_ssrcs.simps) simp
  moreover have "packet_ssrcs buf 0 = Inr [RtcpFbHeader_packetSenderSSRC (RtcpFbHeader_dec buf), RtcpFbHeader_mediaSourceSSRC (RtcpFbHeader_dec buf)]"
    using assms by (auto simp: feedback_packet_def overlay_def packet_ssrcs_def read_ssrc_def RtcpFbHeader_packetSenderSSRC_def
        RtcpFbHeader_mediaSourceSSRC_def RtcpFbHeader_dec_def Let_def)
  ultimately show ?thesis using assms by (subst compound_ssrcs.simps) (simp add: feedback_packet_def overlay_def Let_def)
qed

text \<open>A feedback packet (a NACK, PLI or REMB) whose sender and whose media source belong to the same track, as for a track that both sends and receives, is handed
  to that track twice, so that for instance the packets it asks for are sent twice.\<close>

theorem feedback_is_handled_twice:
  assumes "feedback_packet (msg_data m)" "msg_type m = Control" "length (pn_trackLines p) \<noteq> 1"
    and "RtcpFbHeader_packetSenderSSRC (RtcpFbHeader_dec (msg_data m)) \<noteq> RtcpFbHeader_mediaSourceSSRC (RtcpFbHeader_dec (msg_data m))"
    and "pn_tracksBySsrc p (RtcpFbHeader_packetSenderSSRC (RtcpFbHeader_dec (msg_data m))) = Some n"
    and "pn_tracksBySsrc p (RtcpFbHeader_mediaSourceSSRC (RtcpFbHeader_dec (msg_data m))) = Some n"
    and "pn_trackObjects p n = Some t"
  shows "\<exists>p'. dispatchMedia sendMedia m p = (Inr (), p') \<and>
    pn_trackObjects p' n = Some (Track_incoming sendMedia (Some m) (Track_incoming sendMedia (Some m) t))"
proof -
  let ?s = "RtcpFbHeader_packetSenderSSRC (RtcpFbHeader_dec (msg_data m))" and ?m = "RtcpFbHeader_mediaSourceSSRC (RtcpFbHeader_dec (msg_data m))"
  have "sort (remdups [?s, ?m]) = [?s, ?m] \<or> sort (remdups [?s, ?m]) = [?m, ?s]" using assms(4) by (auto simp: insort_key.simps)
  then show ?thesis using assms(2,3,5-7) feedback_ssrcs [OF assms(1)]
    by (auto simp: dispatchMedia_def deliver_ssrc_def deliver_track_def update_track_def)
qed

definition two_tracks :: Peer where
  "two_tracks = (Peer_init (sample_configuration True) sample_channels)\<lparr>pn_trackLines := [0, 1], pn_tracks := [(''video'', 0)],
     pn_trackObjects := [0 \<mapsto> Track_init sample_media], pn_nextTrack := 2, pn_tracksBySsrc := [42 \<mapsto> 0, 43 \<mapsto> 0]\<rparr>"

theorem feedback_is_handled_twice_witness:
  "\<exists>m p' t. dispatchMedia (\<lambda>_. True) m two_tracks = (Inr (), p') \<and> pn_trackObjects two_tracks 0 = Some t \<and>
     pn_trackObjects p' 0 = Some (Track_incoming (\<lambda>_. True) (Some m) (Track_incoming (\<lambda>_. True) (Some m) t))"
proof -
  define m where "m = make_message [0x81, 206, 0, 2, 0, 0, 0, 42, 0, 0, 0, 43] Control 42 None None"
  have fb: "feedback_packet (msg_data m)" "RtcpFbHeader_packetSenderSSRC (RtcpFbHeader_dec (msg_data m)) = 42"
      "RtcpFbHeader_mediaSourceSSRC (RtcpFbHeader_dec (msg_data m)) = 43"
    unfolding m_def make_message_def Message_init_def by code_simp+
  have "pn_trackObjects two_tracks 0 = Some (Track_init sample_media)" "length (pn_trackLines two_tracks) \<noteq> 1" "pn_tracksBySsrc two_tracks 42 = Some 0"
      "pn_tracksBySsrc two_tracks 43 = Some 0"
    by (simp_all add: two_tracks_def)
  moreover have "msg_type m = Control" by (simp add: m_def make_message_def Message_init_def)
  ultimately show ?thesis
    using feedback_is_handled_twice [of m two_tracks 0 "Track_init sample_media" "\<lambda>_. True"] fb by (intro exI [of _ m]) auto
qed

text \<open>A decrypted control packet of 8 to 11 bytes that claims to be feedback makes a connection with several tracks read behind the end of the packet: the loop over the
  compound packet checks the length field against the message, but not against the feedback header it then reads.\<close>

theorem short_feedback_overreads:
  assumes "msg_type m = Control" "length (pn_trackLines p) \<noteq> 1" "length (msg_data m) \<in> {8..<12}"
    and "RtcpHeader_payloadType (RtcpHeader_dec (msg_data m)) \<in> {205, 206}" "RtcpHeader_lengthInBytes (RtcpHeader_dec (msg_data m)) \<le> length (msg_data m)"
  shows "dispatchMedia sendMedia m p = (Inl OutOfBounds, p)"
proof -
  have "packet_ssrcs (msg_data m) 0 = Inl OutOfBounds" using assms(3,4) by (auto simp: packet_ssrcs_def overlay_def read_ssrc_def Let_def)
  then have "compound_ssrcs (msg_data m) 0 = Inl OutOfBounds" using assms(3,5) by (subst compound_ssrcs.simps) (simp add: overlay_def Let_def)
  then show ?thesis using assms(1,2) by (simp add: dispatchMedia_def)
qed

theorem short_feedback_overreads_witness:
  "dispatchMedia (\<lambda>_. True) (make_message [0x81, 205, 0, 1, 0, 0, 0, 42] Control 42 None None) two_tracks = (Inl OutOfBounds, two_tracks)"
proof -
  let ?m = "make_message [0x81, 205, 0, 1, 0, 0, 0, 42] Control 42 None None"
  have "RtcpHeader_payloadType (RtcpHeader_dec (msg_data ?m)) = 205" "RtcpHeader_lengthInBytes (RtcpHeader_dec (msg_data ?m)) = 8"
    unfolding make_message_def Message_init_def by code_simp+
  then show ?thesis using short_feedback_overreads [of ?m two_tracks "\<lambda>_. True"] by (simp add: two_tracks_def make_message_def Message_init_def)
qed


end
