(* ===== verification/Urls.thy ===== *)
theory Urls
  imports Candidates "HOL-Library.Sublist"
begin

text \<open>
  URLs of ICE servers and proxies: \<open>src/configuration.cpp\<close>, \<open>include/rtc/configuration.hpp\<close>. The library takes URLs apart with one regular expression, which
  \<open>src/impl/websocket.cpp\<close> repeats. \<open>regex\<close> are the expressions that occur in it and \<open>regex_match\<close> is \<open>std::regex_match\<close>: of the ways to match the whole text, the one
  that a search finds first in which every repetition takes as much as it can and an optional part is taken when it can be. For this expression it is also the one
  in which the parts from left to right are as long as possible.
\<close>

section \<open>Regular expressions\<close>

datatype regex =
    Sym "char \<Rightarrow> bool"
  | Many "char \<Rightarrow> bool"
  | Upto nat "char \<Rightarrow> bool"
  | Seq regex regex
  | Opt regex
  | Group nat regex

type_synonym captures = "nat \<Rightarrow> string option"

definition or_else :: "'r option \<Rightarrow> 'r option \<Rightarrow> 'r option" where
  "or_else a b = (case a of Some x \<Rightarrow> Some x | None \<Rightarrow> b)"

fun many :: "(char \<Rightarrow> bool) \<Rightarrow> string \<Rightarrow> (string \<Rightarrow> 'r option) \<Rightarrow> 'r option" where
  "many P [] k = k []"
| "many P (c # s) k = (if P c then or_else (many P s k) (k (c # s)) else k (c # s))"

fun upto_n :: "nat \<Rightarrow> (char \<Rightarrow> bool) \<Rightarrow> string \<Rightarrow> (string \<Rightarrow> 'r option) \<Rightarrow> 'r option" where
  "upto_n (Suc n) P (c # s) k = (if P c then or_else (upto_n n P s k) (k (c # s)) else k (c # s))"
| "upto_n _ P s k = k s"

text \<open>\<open>k\<close> matches what follows.\<close>

primrec rmatch :: "regex \<Rightarrow> string \<Rightarrow> captures \<Rightarrow> (string \<Rightarrow> captures \<Rightarrow> 'r option) \<Rightarrow> 'r option" where
  "rmatch (Sym P) s cap k = (case s of [] \<Rightarrow> None | c # s \<Rightarrow> if P c then k s cap else None)"
| "rmatch (Many P) s cap k = many P s (\<lambda>s. k s cap)"
| "rmatch (Upto n P) s cap k = upto_n n P s (\<lambda>s. k s cap)"
| "rmatch (Seq a b) s cap k = rmatch a s cap (\<lambda>s cap. rmatch b s cap k)"
| "rmatch (Opt r) s cap k = or_else (rmatch r s cap k) (k s cap)"
| "rmatch (Group i r) s cap k = rmatch r s cap (\<lambda>s' cap. k s' (cap(i \<mapsto> take (length s - length s') s)))"

definition regex_match :: "regex \<Rightarrow> string \<Rightarrow> captures option" where
  "regex_match r s = rmatch r s (\<lambda>_. None) (\<lambda>s cap. if s = [] then Some cap else None)"

section \<open>The expression for URLs\<close>

definition none_of :: "string \<Rightarrow> char \<Rightarrow> bool" where
  "none_of cs c \<longleftrightarrow> c \<notin> set cs"

definition is_char :: "char \<Rightarrow> char \<Rightarrow> bool" where
  "is_char c d \<longleftrightarrow> d = c"

definition scheme_regex :: regex where
  "scheme_regex = Opt (Group 1 (Seq (Group 2 (Seq (Sym (none_of '':.@/?#'')) (Many (none_of '':.@/?#'')))) (Sym (is_char (CHR '':'')))))"

definition userinfo_regex :: regex where
  "userinfo_regex =
     Opt (Group 4 (Seq (Group 5 (Seq (Group 6 (Many (none_of '':@''))) (Opt (Group 7 (Seq (Sym (is_char (CHR '':''))) (Group 8 (Many (none_of ''@''))))))))
       (Sym (is_char (CHR ''@'')))))"

definition host_regex :: regex where
  "host_regex = Group 9 (Seq (Group 10 (Many (none_of '':/?#''))) (Opt (Group 11 (Seq (Sym (is_char (CHR '':''))) (Group 12 (Many (none_of ''/?#'')))))))"

definition tail_regex :: regex where
  "tail_regex = Seq (Group 13 (Many (none_of ''?#'')))
     (Seq (Opt (Group 14 (Seq (Sym (is_char (CHR ''?''))) (Group 15 (Many (none_of ''#''))))))
       (Opt (Group 16 (Seq (Sym (is_char (CHR ''#''))) (Group 17 (Many (\<lambda>c. True)))))))"

definition url_regex :: regex where
  "url_regex = Seq scheme_regex (Seq (Opt (Group 3 (Seq (Upto 2 (is_char (CHR ''/''))) (Seq userinfo_regex host_regex)))) tail_regex)"

text \<open>The parts that are not empty, by their number; \<open>None\<close>: the URL is refused.\<close>

definition parse_url :: "string \<Rightarrow> captures option" where
  "parse_url url =
     (case regex_match url_regex url of
        None \<Rightarrow> None
      | Some m \<Rightarrow>
          let result = (\<lambda>i. case m i of Some s \<Rightarrow> if s \<noteq> [] then Some s else None | None \<Rightarrow> None)
          in if result 10 = None then None else Some result)"

section \<open>Servers\<close>

datatype IceServerType = Stun | Turn

datatype RelayType = TurnUdp | TurnTcp | TurnTls

record IceServer =
  is_hostname :: string
  is_port :: u16
  is_type :: IceServerType
  is_username :: string
  is_password :: string
  is_relayType :: RelayType

datatype ProxyServerType = Http | Socks5

record ProxyServer =
  ps_type :: ProxyServerType
  ps_hostname :: string
  ps_port :: u16
  ps_username :: "string option"
  ps_password :: "string option"

definition value_or :: "'a option \<Rightarrow> 'a \<Rightarrow> 'a" where
  "value_or x d = (case x of Some v \<Rightarrow> v | None \<Rightarrow> d)"

fun contains :: "string \<Rightarrow> string \<Rightarrow> bool" where
  "contains sub [] \<longleftrightarrow> sub = []"
| "contains sub (c # s) \<longleftrightarrow> take (length sub) (c # s) = sub \<or> contains sub s"

definition ice_scheme :: "string \<Rightarrow> (IceServerType \<times> RelayType) result" where
  "ice_scheme scheme =
     (if scheme = ''stun'' \<or> scheme = ''STUN'' then Inr (Stun, TurnUdp)
      else if scheme = ''turn'' \<or> scheme = ''TURN'' then Inr (Turn, TurnUdp)
      else if scheme = ''turns'' \<or> scheme = ''TURNS'' then Inr (Turn, TurnTls)
      else Inl (InvalidArgument (''Unknown ICE server protocol: '' @ scheme)))"

definition relay_of_query :: "string option \<Rightarrow> RelayType \<Rightarrow> RelayType" where
  "relay_of_query query relay =
     (case query of
        None \<Rightarrow> relay
      | Some q \<Rightarrow>
          let relay = (if contains ''transport=udp'' q then TurnUdp else relay);
              relay = (if contains ''transport=tcp'' q then TurnTcp else relay)
          in if contains ''transport=tls'' q then TurnTls else relay)"

definition decode_hostname :: "string \<Rightarrow> string" where
  "decode_hostname hostname =
     (if hd hostname = CHR ''['' \<and> last hostname = CHR '']'' then butlast (tl hostname) else url_decode hostname)"

definition parse_port :: "string \<Rightarrow> string \<Rightarrow> u16 result" where
  "parse_port what service =
     (case stoul service of Inl _ \<Rightarrow> Inl (InvalidArgument (what @ service)) | Inr p \<Rightarrow> Inr (ucast p))"

definition IceServer_url :: "string \<Rightarrow> IceServer result" where
  "IceServer_url url =
     (case parse_url url of
        None \<Rightarrow> Inl (InvalidArgument (''Invalid ICE server URL: '' @ url))
      | Some opt \<Rightarrow>
          (case ice_scheme (value_or (opt 2) ''stun'') of
             Inl e \<Rightarrow> Inl e
           | Inr (type, relay) \<Rightarrow>
               let relay = relay_of_query (opt 15) relay
               in case parse_port ''Invalid ICE server port in URL: '' (value_or (opt 12) (if relay = TurnTls then ''5349'' else ''3478'')) of
                    Inl e \<Rightarrow> Inl e
                  | Inr port \<Rightarrow>
                      Inr \<lparr>is_hostname = decode_hostname (the (opt 10)), is_port = port, is_type = type,
                           is_username = url_decode (value_or (opt 6) []), is_password = url_decode (value_or (opt 8) []), is_relayType = relay\<rparr>))"

text \<open>The other constructors; \<open>relayType\<close> has no initialiser for a STUN server.\<close>

definition IceServer_stun :: "string \<Rightarrow> string \<Rightarrow> RelayType \<Rightarrow> IceServer result" where
  "IceServer_stun hostname service uninitialised =
     map_sum id (\<lambda>port. \<lparr>is_hostname = hostname, is_port = port, is_type = Stun, is_username = [], is_password = [], is_relayType = uninitialised\<rparr>)
       (parse_port ''Invalid ICE server port: '' service)"

definition IceServer_turn :: "string \<Rightarrow> string \<Rightarrow> string \<Rightarrow> string \<Rightarrow> RelayType \<Rightarrow> IceServer result" where
  "IceServer_turn hostname service username password relayType =
     map_sum id (\<lambda>port. \<lparr>is_hostname = hostname, is_port = port, is_type = Turn, is_username = username, is_password = password, is_relayType = relayType\<rparr>)
       (parse_port ''Invalid ICE server port: '' service)"

definition strip_brackets :: "string \<Rightarrow> string" where
  "strip_brackets s = rev (dropWhile (is_char (CHR '']'')) (rev (dropWhile (is_char (CHR ''['')) s)))"

definition ProxyServer_url :: "string \<Rightarrow> ProxyServer result" where
  "ProxyServer_url url =
     (case parse_url url of
        None \<Rightarrow> Inl (InvalidArgument (''Invalid proxy server URL: '' @ url))
      | Some opt \<Rightarrow>
          let scheme = value_or (opt 2) ''http''
          in if \<not> (scheme = ''http'' \<or> scheme = ''HTTP'' \<or> scheme = ''socks5'' \<or> scheme = ''SOCKS5'')
             then Inl (InvalidArgument (''Unknown proxy server protocol: '' @ scheme))
             else let type = (if scheme = ''http'' \<or> scheme = ''HTTP'' then Http else Socks5)
                  in case parse_port ''Invalid proxy server port in URL: '' (value_or (opt 12) (if type = Socks5 then ''1080'' else ''3128'')) of
                       Inl e \<Rightarrow> Inl e
                     | Inr port \<Rightarrow>
                         Inr \<lparr>ps_type = type, ps_hostname = strip_brackets (the (opt 10)), ps_port = port, ps_username = opt 6, ps_password = opt 8\<rparr>)"

section \<open>How the search goes\<close>

lemma or_else_simps [simp]: "or_else (Some x) b = Some x" "or_else None b = b"
  by (simp_all add: or_else_def)

lemma many_greedy:
  "\<forall>c \<in> set u. P c \<Longrightarrow> v = [] \<or> \<not> P (hd v) \<Longrightarrow> k v = Some r \<Longrightarrow> many P (u @ v) k = Some r"
  by (induction u) (cases v; simp)+

lemma many_None:
  "(\<And>u v. s = u @ v \<Longrightarrow> \<forall>c \<in> set u. P c \<Longrightarrow> k v = None) \<Longrightarrow> many P s k = None"
proof (induction s)
  case Nil
  then show ?case by simp
next
  case (Cons c s)
  have "k (c # s) = None" using Cons.prems [of "[]"] by simp
  moreover have "P c \<Longrightarrow> many P s k = None" using Cons.prems [of "c # _"] by (intro Cons.IH) auto
  ultimately show ?case by simp
qed

lemma upto_n_greedy:
  "\<forall>c \<in> set u. P c \<Longrightarrow> length u \<le> n \<Longrightarrow> v = [] \<or> \<not> P (hd v) \<Longrightarrow> k v = Some r \<Longrightarrow> upto_n n P (u @ v) k = Some r"
proof (induction u arbitrary: n)
  case Nil
  then show ?case by (cases n; cases v) simp_all
next
  case (Cons c u)
  then obtain m where "n = Suc m" by (cases n) auto
  then show ?case using Cons by simp
qed

lemma rmatch_None:
  "(\<And>s' cap'. suffix s' s \<Longrightarrow> k s' cap' = None) \<Longrightarrow> rmatch r s cap k = None"
proof (induction r arbitrary: s cap k)
  case (Sym P)
  then show ?case by (auto split: list.splits simp: suffix_Cons)
next
  case (Many P)
  then show ?case by (auto intro!: many_None simp: suffix_def)
next
  case (Upto n P)
  have "upto_n n P s (\<lambda>s. k s cap) = None" using Upto.prems
    by (induction n P s "\<lambda>s. k s cap" rule: upto_n.induct) (auto simp: suffix_Cons)
  then show ?case by simp
next
  case (Seq a b)
  show ?case by (simp, rule Seq.IH(1), rule Seq.IH(2)) (use Seq.prems suffix_order.trans in blast)
next
  case (Opt r)
  then show ?case by simp
next
  case (Group i r)
  then show ?case by simp
qed

definition ends_before :: "string \<Rightarrow> string \<Rightarrow> bool" where
  "ends_before cs s \<longleftrightarrow> s = [] \<or> hd s \<in> set cs"

text \<open>A part that takes all characters up to one of \<open>cs\<close>.\<close>

lemma group_until:
  assumes "\<forall>c \<in> set u. c \<notin> set cs" and "ends_before cs v" and "k v (cap(i \<mapsto> u)) = Some r"
  shows "rmatch (Group i (Many (none_of cs))) (u @ v) cap k = Some r"
  using assms by (auto intro!: many_greedy simp: none_of_def ends_before_def)

text \<open>An optional part that begins with the character \<open>c\<close>, and one that is not there.\<close>

lemma opt_present:
  assumes "\<forall>c \<in> set u. c \<notin> set cs" and "ends_before cs v" and "k v (cap(j \<mapsto> u, i \<mapsto> c # u)) = Some r"
  shows "rmatch (Opt (Group i (Seq (Sym (is_char c)) (Group j (Many (none_of cs)))))) (c # u @ v) cap k = Some r"
proof -
  have "many (none_of cs) (u @ v) (\<lambda>s. k s (cap(j \<mapsto> take (length (u @ v) - length s) (u @ v), i \<mapsto> take (length (c # u @ v) - length s) (c # u @ v)))) = Some r"
    using assms by (intro many_greedy) (auto simp: none_of_def ends_before_def Suc_diff_le)
  then show ?thesis by (simp add: is_char_def)
qed

lemma opt_absent:
  assumes "s = [] \<or> hd s \<noteq> c"
  shows "rmatch (Opt (Group i (Seq (Sym (is_char c)) r))) s cap k = k s cap"
  using assms by (cases s) (simp_all add: is_char_def)

definition opt_part :: "char \<Rightarrow> string option \<Rightarrow> string" where
  "opt_part c p = (case p of None \<Rightarrow> [] | Some s \<Rightarrow> c # s)"

definition opt_caps :: "nat \<Rightarrow> nat \<Rightarrow> char \<Rightarrow> string option \<Rightarrow> captures \<Rightarrow> captures" where
  "opt_caps i j c p cap = (case p of None \<Rightarrow> cap | Some s \<Rightarrow> cap(j \<mapsto> s, i \<mapsto> c # s))"

lemma opt_group:
  assumes "\<forall>s. p = Some s \<longrightarrow> (\<forall>c \<in> set s. c \<notin> set cs) \<and> ends_before cs v" and "p = None \<longrightarrow> v = [] \<or> hd v \<noteq> c"
    and "k v (opt_caps i j c p cap) = Some r"
  shows "rmatch (Opt (Group i (Seq (Sym (is_char c)) (Group j (Many (none_of cs)))))) (opt_part c p @ v) cap k = Some r"
proof (cases p)
  case None
  then show ?thesis using assms by (simp add: opt_part_def opt_caps_def opt_absent del: rmatch.simps)
next
  case (Some s)
  then show ?thesis using assms opt_present [of s cs v k cap j i c r] by (simp add: opt_part_def opt_caps_def del: rmatch.simps)
qed


section \<open>The parts of a URL\<close>

record url_parts =
  up_scheme :: "string option"
  up_slashes :: nat
  up_userinfo :: "(string \<times> string option) option"
  up_host :: string
  up_port :: "string option"
  up_path :: string
  up_query :: "string option"
  up_fragment :: "string option"

definition tail_text :: "url_parts \<Rightarrow> string" where
  "tail_text u = up_path u @ opt_part (CHR ''?'') (up_query u) @ opt_part (CHR ''#'') (up_fragment u)"

definition host_text :: "url_parts \<Rightarrow> string" where
  "host_text u = up_host u @ opt_part (CHR '':'') (up_port u) @ tail_text u"

definition userinfo_text :: "url_parts \<Rightarrow> string" where
  "userinfo_text u = (case up_userinfo u of None \<Rightarrow> [] | Some (user, password) \<Rightarrow> user @ opt_part (CHR '':'') password @ ''@'')"

definition rest_text :: "url_parts \<Rightarrow> string" where
  "rest_text u = replicate (up_slashes u) (CHR ''/'') @ userinfo_text u @ host_text u"

definition url_text :: "url_parts \<Rightarrow> string" where
  "url_text u = (case up_scheme u of None \<Rightarrow> [] | Some scheme \<Rightarrow> scheme @ '':'') @ rest_text u"

definition free_of :: "string \<Rightarrow> string \<Rightarrow> bool" where
  "free_of cs s \<longleftrightarrow> (\<forall>c \<in> set s. c \<notin> set cs)"

text \<open>The URLs that are read as they were put together: no part has a character that ends it. Without a user, no at sign may follow; without a scheme, the text
  before the first special character may not be followed by a colon.\<close>

definition url_tail_ok :: "url_parts \<Rightarrow> bool" where
  "url_tail_ok u \<longleftrightarrow> free_of ''?#'' (up_path u) \<and> (up_path u = [] \<or> hd (up_path u) = CHR ''/'') \<and> (\<forall>q. up_query u = Some q \<longrightarrow> free_of ''#'' q)"

definition host_ok :: "url_parts \<Rightarrow> bool" where
  "host_ok u \<longleftrightarrow> url_tail_ok u \<and> up_host u \<noteq> [] \<and> free_of '':/?#'' (up_host u) \<and> (\<forall>p. up_port u = Some p \<longrightarrow> free_of ''/?#'' p)"

definition userinfo_ok :: "url_parts \<Rightarrow> bool" where
  "userinfo_ok u \<longleftrightarrow>
     (case up_userinfo u of
        None \<Rightarrow> free_of ''@'' (host_text u)
      | Some (user, password) \<Rightarrow>
          free_of '':@'' user \<and> (user = [] \<or> hd user \<noteq> CHR ''/'') \<and> (\<forall>p. password = Some p \<longrightarrow> free_of ''@'' p))"

definition scheme_ok :: "url_parts \<Rightarrow> bool" where
  "scheme_ok u \<longleftrightarrow>
     (case up_scheme u of
        None \<Rightarrow> (case dropWhile (none_of '':.@/?#'') (rest_text u) of [] \<Rightarrow> True | c # _ \<Rightarrow> c \<noteq> CHR '':'')
      | Some scheme \<Rightarrow> scheme \<noteq> [] \<and> free_of '':.@/?#'' scheme)"

definition url_ok :: "url_parts \<Rightarrow> bool" where
  "url_ok u \<longleftrightarrow> host_ok u \<and> userinfo_ok u \<and> scheme_ok u \<and> up_slashes u \<le> 2"

definition whole :: "string \<Rightarrow> captures \<Rightarrow> captures option" where
  "whole s cap = (if s = [] then Some cap else None)"

lemma everything: "(\<lambda>c. True) = none_of []"
  by (simp add: none_of_def fun_eq_iff)

lemma tail_match:
  assumes "url_tail_ok u"
  shows "rmatch tail_regex (tail_text u) cap whole =
    Some (opt_caps 16 17 (CHR ''#'') (up_fragment u) (opt_caps 14 15 (CHR ''?'') (up_query u) (cap(13 \<mapsto> up_path u))))"
proof -
  let ?f = "opt_part (CHR ''#'') (up_fragment u)"
  have "?f = [] \<or> hd ?f = CHR ''#''" by (simp add: opt_part_def split: option.splits)
  then have f: "ends_before ''#'' ?f" "?f = [] \<or> hd ?f \<noteq> CHR ''?''" "ends_before ''?#'' ?f" by (auto simp: ends_before_def)
  have q: "ends_before ''?#'' (opt_part (CHR ''?'') (up_query u) @ ?f)"
    using f(3) by (cases "up_query u") (simp_all add: opt_part_def ends_before_def)
  have fragment: "rmatch (Opt (Group 16 (Seq (Sym (is_char (CHR ''#''))) (Group 17 (Many (none_of [])))))) (?f @ []) cap whole =
      Some (opt_caps 16 17 (CHR ''#'') (up_fragment u) cap)" for cap
    by (rule opt_group) (simp_all add: whole_def ends_before_def)
  show ?thesis unfolding tail_regex_def tail_text_def everything rmatch.simps(4)
    by (rule group_until, use assms in \<open>simp add: url_tail_ok_def free_of_def\<close>, rule q, rule opt_group)
      (use assms f fragment in \<open>simp_all add: url_tail_ok_def free_of_def del: rmatch.simps\<close>)
qed

definition host_caps :: "url_parts \<Rightarrow> captures \<Rightarrow> captures" where
  "host_caps u cap =
     (opt_caps 11 12 (CHR '':'') (up_port u) (cap(10 \<mapsto> up_host u)))(9 \<mapsto> up_host u @ opt_part (CHR '':'') (up_port u))"

lemma tail_begins:
  assumes "url_tail_ok u"
  shows "ends_before ''/?#'' (tail_text u)"
  using assms by (cases "up_path u"; cases "up_query u"; cases "up_fragment u") (auto simp: url_tail_ok_def tail_text_def ends_before_def opt_part_def)

lemma host_match:
  assumes "host_ok u" and "k (tail_text u) (host_caps u cap) = Some r"
  shows "rmatch host_regex (host_text u) cap k = Some r"
proof -
  have t: "ends_before ''/?#'' (tail_text u)" using tail_begins assms(1) by (simp add: host_ok_def)
  then have p: "ends_before '':/?#'' (opt_part (CHR '':'') (up_port u) @ tail_text u)" "tail_text u = [] \<or> hd (tail_text u) \<noteq> CHR '':''"
    by (auto simp: ends_before_def opt_part_def split: option.splits)
  show ?thesis unfolding host_regex_def host_text_def rmatch.simps(4) rmatch.simps(6) [of 9]
    by (rule group_until, use assms in \<open>simp add: host_ok_def free_of_def\<close>, rule p(1), rule opt_group)
      (use assms t p(2) in \<open>simp_all add: host_ok_def free_of_def host_caps_def\<close>)
qed

definition userinfo_caps :: "url_parts \<Rightarrow> captures \<Rightarrow> captures" where
  "userinfo_caps u cap =
     (case up_userinfo u of
        None \<Rightarrow> cap
      | Some (user, password) \<Rightarrow>
          (opt_caps 7 8 (CHR '':'') password (cap(6 \<mapsto> user)))(5 \<mapsto> user @ opt_part (CHR '':'') password, 4 \<mapsto> user @ opt_part (CHR '':'') password @ ''@''))"

lemma userinfo_match:
  assumes "userinfo_ok u" and "k (host_text u) (userinfo_caps u cap) = Some r"
  shows "rmatch userinfo_regex (userinfo_text u @ host_text u) cap k = Some r"
proof (cases "up_userinfo u")
  case None
  then have "CHR ''@'' \<notin> set (host_text u)" using assms(1) by (auto simp: userinfo_ok_def free_of_def)
  then have "rmatch (Group 4 (Seq r' (Sym (is_char (CHR ''@''))))) (host_text u) cap k = None" for r'
    by (simp, intro rmatch_None) (auto simp: is_char_def split: list.splits dest: set_mono_suffix)
  then show ?thesis using assms None by (simp del: rmatch.simps add: userinfo_text_def userinfo_caps_def userinfo_regex_def rmatch.simps(5))
next
  case (Some x)
  obtain user password where x: "x = (user, password)" by fastforce
  have ok: "free_of '':@'' user" "\<forall>p. password = Some p \<longrightarrow> free_of ''@'' p" using assms(1) Some x by (simp_all add: userinfo_ok_def)
  let ?h = "CHR ''@'' # host_text u"
  have p: "ends_before '':@'' (opt_part (CHR '':'') password @ ?h)" by (auto simp: ends_before_def opt_part_def split: option.splits)
  have "rmatch (Group 4 (Seq (Group 5 (Seq (Group 6 (Many (none_of '':@''))) (Opt (Group 7 (Seq (Sym (is_char (CHR '':''))) (Group 8 (Many (none_of ''@'')))))))) (Sym (is_char (CHR ''@'')))))
      (user @ opt_part (CHR '':'') password @ ?h) cap k = Some r"
    unfolding rmatch.simps(4) rmatch.simps(6) [of 4] rmatch.simps(6) [of 5]
    by (rule group_until, use ok in \<open>simp add: free_of_def\<close>, rule p, rule opt_group)
      (use ok assms(2) Some x in \<open>simp_all add: free_of_def ends_before_def is_char_def userinfo_caps_def\<close>)
  then show ?thesis using Some x by (simp del: rmatch.simps add: userinfo_regex_def userinfo_text_def rmatch.simps(5))
qed


definition part_caps :: "url_parts \<Rightarrow> captures \<Rightarrow> captures" where
  "part_caps u cap =
     opt_caps 16 17 (CHR ''#'') (up_fragment u) (opt_caps 14 15 (CHR ''?'') (up_query u)
       ((host_caps u (userinfo_caps u cap))(3 \<mapsto> take (length (rest_text u) - length (tail_text u)) (rest_text u), 13 \<mapsto> up_path u)))"

lemma rest_match:
  assumes "url_ok u"
  shows "rmatch (Seq (Opt (Group 3 (Seq (Upto 2 (is_char (CHR ''/''))) (Seq userinfo_regex host_regex)))) tail_regex) (rest_text u) cap whole = Some (part_caps u cap)"
proof -
  have ok: "host_ok u" "userinfo_ok u" "url_tail_ok u" "up_slashes u \<le> 2" using assms by (auto simp: url_ok_def host_ok_def)
  have "hd (up_host u) \<noteq> CHR ''/''" "up_host u \<noteq> []" using ok(1) by (auto simp: host_ok_def free_of_def)
  then have begins: "\<not> is_char (CHR ''/'') (hd (userinfo_text u @ host_text u))"
    using ok(2) by (auto simp: userinfo_ok_def userinfo_text_def host_text_def is_char_def hd_append opt_part_def split: option.splits if_splits)
  have "rmatch (Group 3 (Seq (Upto 2 (is_char (CHR ''/''))) (Seq userinfo_regex host_regex))) (rest_text u) cap (\<lambda>s cap. rmatch tail_regex s cap whole) = Some (part_caps u cap)"
    unfolding rmatch.simps(3,4,6) rest_text_def [of u, THEN eq_reflection]
    by (rule upto_n_greedy) (use begins ok in \<open>auto intro!: userinfo_match host_match simp: tail_match part_caps_def rest_text_def is_char_def simp del: rmatch.simps\<close>)
  then show ?thesis by (simp del: rmatch.simps add: rmatch.simps(4,5))
qed

lemma scheme_match:
  assumes "scheme_ok u" and "\<And>cap. k (rest_text u) cap = Some (f cap)"
  shows "rmatch scheme_regex (url_text u) cap k =
    Some (f (case up_scheme u of None \<Rightarrow> cap | Some s \<Rightarrow> cap(2 \<mapsto> s, 1 \<mapsto> s @ '':'')))"
proof (cases "up_scheme u")
  case None
  let ?P = "none_of '':.@/?#''" and ?s = "rest_text u"
  have colon: "v = [] \<or> hd v \<noteq> CHR '':''" if "?s = c # w @ v" "?P c" "\<forall>d \<in> set w. ?P d" for c w v
  proof (cases "v = [] \<or> ?P (hd v)")
    case True
    then show ?thesis by (auto simp: none_of_def)
  next
    case False
    then have "dropWhile ?P ?s = v" using that by (cases v) (simp_all add: dropWhile_append2)
    then show ?thesis using assms(1) None False by (cases v) (simp_all add: scheme_ok_def)
  qed
  have "rmatch (Group 1 (Seq (Group 2 (Seq (Sym ?P) (Many ?P))) (Sym (is_char (CHR '':''))))) ?s cap k = None"
  proof (cases ?s)
    case (Cons c w)
    show ?thesis
    proof (cases "?P c")
      case True
      have "v = [] \<or> \<not> is_char (CHR '':'') (hd v)" if "w = x @ v" "\<forall>d \<in> set x. ?P d" for x v
        using colon [of c x v] Cons True that by (simp add: is_char_def)
      then show ?thesis using Cons True by (simp, intro many_None) (fastforce split: list.splits)
    qed (simp add: Cons)
  qed simp
  then show ?thesis using None assms(2) by (simp del: rmatch.simps add: scheme_regex_def url_text_def rmatch.simps(5))
next
  case (Some scheme)
  then obtain c w where c: "scheme = c # w" "none_of '':.@/?#'' c" "\<forall>d \<in> set w. none_of '':.@/?#'' d"
    using assms(1) by (cases scheme) (auto simp: scheme_ok_def free_of_def none_of_def)
  have "rmatch (Group 1 (Seq (Group 2 (Seq (Sym (none_of '':.@/?#'')) (Many (none_of '':.@/?#'')))) (Sym (is_char (CHR '':''))))) (c # w @ CHR '':'' # rest_text u) cap k =
      Some (f (cap(2 \<mapsto> scheme, 1 \<mapsto> scheme @ '':'')))"
    using c assms(2) by (simp, intro many_greedy) (auto simp: none_of_def is_char_def Suc_diff_le)
  then show ?thesis using Some c by (simp del: rmatch.simps add: scheme_regex_def url_text_def rmatch.simps(5))
qed

definition nonempty :: "string option \<Rightarrow> string option" where
  "nonempty p = (case p of Some s \<Rightarrow> if s \<noteq> [] then Some s else None | None \<Rightarrow> None)"

text \<open>A URL that is put together from its parts is taken apart into them: the regular expression recognises every part as long as the parts contain none of the characters
  that end them.\<close>

lemma url_parts_found:
  assumes "url_ok u"
  shows "\<exists>opt. parse_url (url_text u) = Some opt \<and> opt 2 = up_scheme u \<and> opt 6 = nonempty (map_option fst (up_userinfo u)) \<and>
    opt 8 = nonempty (Option.bind (up_userinfo u) snd) \<and> opt 10 = Some (up_host u) \<and> opt 12 = nonempty (up_port u) \<and>
    opt 13 = nonempty (Some (up_path u)) \<and> opt 15 = nonempty (up_query u) \<and> opt 17 = nonempty (up_fragment u)"
proof -
  let ?cap = "case up_scheme u of None \<Rightarrow> \<lambda>_. None | Some s \<Rightarrow> (\<lambda>_. None)(2 \<mapsto> s, 1 \<mapsto> s @ '':'')"
  have "regex_match url_regex (url_text u) = Some (part_caps u ?cap)"
    using scheme_match [of u "\<lambda>s cap. rmatch (Seq (Opt (Group 3 (Seq (Upto 2 (is_char (CHR ''/''))) (Seq userinfo_regex host_regex)))) tail_regex) s cap whole"
        "part_caps u" "\<lambda>_. None"] rest_match [OF assms] assms
    by (simp del: rmatch.simps add: regex_match_def url_regex_def url_ok_def rmatch.simps(4) whole_def [abs_def])
  moreover have "up_host u \<noteq> []" "up_scheme u \<noteq> Some []" using assms by (auto simp: url_ok_def host_ok_def scheme_ok_def)
  ultimately show ?thesis
    by (auto simp: parse_url_def part_caps_def host_caps_def userinfo_caps_def opt_caps_def nonempty_def split: option.splits)
qed


section \<open>URLs of servers\<close>

definition transport_name :: "RelayType \<Rightarrow> string" where
  "transport_name relay = (case relay of TurnUdp \<Rightarrow> ''udp'' | TurnTcp \<Rightarrow> ''tcp'' | TurnTls \<Rightarrow> ''tls'')"

lemma percent_encode_chars: "c \<in> set (percent_encode s) \<Longrightarrow> c = CHR ''%'' \<or> isxdigit c"
proof -
  assume "c \<in> set (percent_encode s)"
  then obtain d where "c = CHR ''%'' \<or> c = hex_digit (of_char d div 16) \<or> c = hex_digit (of_char d mod 16)"
    by (auto simp: percent_encode_def split: if_splits)
  moreover have "of_char d div 16 < (16 :: nat)" by (rule less_mult_imp_div_less) simp
  ultimately show ?thesis using hex_digit(1) [of "of_char d div 16"] hex_digit(1) [of "of_char d mod 16"] by auto
qed

lemma percent_encode_free: "free_of '':@'' (percent_encode s)" "percent_encode s = [] \<or> hd (percent_encode s) \<noteq> CHR ''/''" "free_of ''@'' (percent_encode s)"
  by (auto simp: free_of_def isxdigit_def isdigit_def Let_def dest!: percent_encode_chars) (cases s, simp_all add: percent_encode_def)

lemma digits_free: "free_of ''/?#'' (nat_string n)" "free_of '':/?#@'' (nat_string n)"
  using nat_string_digits [of n] by (auto simp: free_of_def isdigit_def)

lemma relay_of_transport: "relay_of_query (Some (''transport='' @ transport_name relay)) other = relay"
  by (cases relay) (simp_all add: relay_of_query_def transport_name_def)

text \<open>
  C21. The URL of a TURN server gives the server: its user name and password may be any strings, as long as they are percent-encoded in the URL, also with the characters
  that have a meaning in URLs; the host, the port and the transport are those of the URL.
\<close>

theorem turn_url_gives_server:
  assumes "host \<noteq> []" and "free_of '':/?#%'' host" and "hd host \<noteq> CHR ''[''"
  shows "IceServer_url (''turn:'' @ percent_encode user @ '':'' @ percent_encode password @ ''@'' @ host @ '':'' @ nat_string (unat port) @ ''?transport='' @ transport_name relay) =
    Inr \<lparr>is_hostname = host, is_port = port, is_type = Turn, is_username = user, is_password = password, is_relayType = relay\<rparr>"
proof -
  define u where "u = \<lparr>up_scheme = Some ''turn'', up_slashes = 0, up_userinfo = Some (percent_encode user, Some (percent_encode password)),
    up_host = host, up_port = Some (nat_string (unat port)), up_path = [], up_query = Some (''transport='' @ transport_name relay), up_fragment = None\<rparr>"
  have "free_of ''#'' (''transport='' @ transport_name relay)" by (cases relay) (simp_all add: transport_name_def free_of_def)
  then have "url_ok u" using assms percent_encode_free digits_free
    by (auto simp: u_def url_ok_def host_ok_def url_tail_ok_def userinfo_ok_def scheme_ok_def free_of_def)
  moreover have "url_text u = ''turn:'' @ percent_encode user @ '':'' @ percent_encode password @ ''@'' @ host @ '':'' @ nat_string (unat port) @ ''?transport='' @ transport_name relay"
    by (simp add: u_def url_text_def rest_text_def userinfo_text_def host_text_def tail_text_def opt_part_def)
  moreover have "value_or (nonempty (Some s)) [] = s" for s by (simp add: nonempty_def value_or_def)
  moreover have "url_decode (percent_encode s) = s" for s using url_decode_percent_encode [of s "[]"] by simp
  moreover have "decode_hostname host = host" using assms(2,3) url_decode_plain [of host "[]"] by (auto simp: decode_hostname_def free_of_def)
  moreover have "nonempty (Some (nat_string (unat port))) = Some (nat_string (unat port))" using nat_string_nonempty [of "unat port"] by (simp add: nonempty_def)
  moreover have "parse_port what (nat_string (unat port)) = Inr port" for what
    using stoul_port [of port] by (cases "stoul (nat_string (unat port))") (auto simp: parse_port_def)
  moreover have "nonempty (Some (''transport='' @ transport_name relay)) = Some (''transport='' @ transport_name relay)" by (simp add: nonempty_def)
  ultimately show ?thesis
    using url_parts_found [of u] relay_of_transport [of relay TurnUdp]
    by (auto simp: u_def IceServer_url_def ice_scheme_def value_or_def [of "Some _"])
qed

theorem turn_url_gives_server_witness:
  "IceServer_url ''turn:%61%3A:%40@turn.example.org:3479?transport=tcp'' =
     Inr \<lparr>is_hostname = ''turn.example.org'', is_port = 3479, is_type = Turn, is_username = ''a:'', is_password = ''@'', is_relayType = TurnTcp\<rparr>"
proof -
  have "percent_encode ''a:'' = ''%61%3A''" "percent_encode ''@'' = ''%40''" "nat_string (unat (3479 :: u16)) = ''3479''"
    by code_simp+
  moreover have "free_of '':/?#%'' ''turn.example.org''" by (simp add: free_of_def)
  ultimately show ?thesis using turn_url_gives_server [of "''turn.example.org''" "''a:''" "''@''" 3479 TurnTcp] by (simp add: transport_name_def)
qed

text \<open>
  C40. An IPv6 address in brackets is not read as one: the host ends at its first colon, and the rest of the address is read as the port. Either the URL is refused, because the
  rest does not begin with a number, or the server gets a host that is the beginning of the address and a port out of its middle. The code that
  removes the brackets of an address is never reached with one.
\<close>

theorem ipv6_literal_is_cut:
  assumes "free_of '':/?#@]'' a" and "free_of ''/?#@'' b" and "b \<noteq> []"
  shows "IceServer_url (''stun:['' @ a @ '':'' @ b) =
    map_sum id (\<lambda>port. \<lparr>is_hostname = url_decode (''['' @ a), is_port = port, is_type = Stun, is_username = [], is_password = [], is_relayType = TurnUdp\<rparr>)
      (parse_port ''Invalid ICE server port in URL: '' b)"
proof -
  define u where "u = \<lparr>up_scheme = Some ''stun'', up_slashes = 0, up_userinfo = None, up_host = CHR ''['' # a, up_port = Some b, up_path = [], up_query = None, up_fragment = None\<rparr>"
  have "url_ok u" using assms
    by (auto simp: u_def url_ok_def host_ok_def url_tail_ok_def userinfo_ok_def scheme_ok_def free_of_def host_text_def tail_text_def opt_part_def)
  moreover have "url_text u = ''stun:['' @ a @ '':'' @ b"
    by (simp add: u_def url_text_def rest_text_def userinfo_text_def host_text_def tail_text_def opt_part_def)
  moreover have "decode_hostname (CHR ''['' # a) = url_decode (''['' @ a)"
    using assms(1) last_in_set [of a] by (auto simp: decode_hostname_def free_of_def)
  moreover have "value_or (nonempty (Some b)) x = b" for x using assms(3) by (simp add: nonempty_def value_or_def)
  ultimately show ?thesis using url_parts_found [of u]
    by (auto simp: u_def IceServer_url_def ice_scheme_def relay_of_query_def nonempty_def value_or_def split: sum.splits)
qed

theorem ipv6_literal_is_cut_witness:
  "IceServer_url ''stun:[::1]:3478'' = Inl (InvalidArgument ''Invalid ICE server port in URL: :1]:3478'') \<and>
   IceServer_url ''stun:[2001:0db8::1]:3478'' =
     Inr \<lparr>is_hostname = ''[2001'', is_port = 0, is_type = Stun, is_username = [], is_password = [], is_relayType = TurnUdp\<rparr>"
proof -
  have "parse_port ''Invalid ICE server port in URL: '' '':1]:3478'' = Inl (InvalidArgument ''Invalid ICE server port in URL: :1]:3478'')"
    "parse_port ''Invalid ICE server port in URL: '' ''0db8::1]:3478'' = Inr 0"
    by (simp_all add: parse_port_def stoul_def read_number_def isspace_def isdigit_def digits_value_def Let_def)
  then show ?thesis using ipv6_literal_is_cut [of "[]" "'':1]:3478''"] ipv6_literal_is_cut [of "''2001''" "''0db8::1]:3478''"] by (simp add: free_of_def)
qed

text \<open>A host name without a dot that is followed by a port is taken for a scheme: the URL is refused.\<close>

lemma host_is_taken_for_scheme:
  assumes "host \<noteq> []" and "free_of '':.@/?#'' host" and "ice_scheme host = Inl e"
  shows "IceServer_url (host @ '':'' @ nat_string port) = Inl e"
proof -
  define u where "u = \<lparr>up_scheme = Some host, up_slashes = 0, up_userinfo = None, up_host = nat_string port, up_port = None, up_path = [], up_query = None, up_fragment = None\<rparr>"
  have "url_ok u" using assms digits_free [of port] nat_string_nonempty [of port]
    by (auto simp: u_def url_ok_def host_ok_def url_tail_ok_def userinfo_ok_def scheme_ok_def free_of_def host_text_def tail_text_def opt_part_def)
  moreover have "url_text u = host @ '':'' @ nat_string port"
    by (simp add: u_def url_text_def rest_text_def userinfo_text_def host_text_def tail_text_def opt_part_def)
  ultimately show ?thesis using url_parts_found [of u] assms by (auto simp: u_def IceServer_url_def value_or_def)
qed

lemma localhost_is_refused: "IceServer_url ''localhost:3478'' = Inl (InvalidArgument ''Unknown ICE server protocol: localhost'')"
proof -
  have "nat_string 3478 = ''3478''" by code_simp
  then show ?thesis using host_is_taken_for_scheme [of "''localhost''" _ 3478] by (simp add: free_of_def ice_scheme_def)
qed

end
