(* ===== verification/Proxy.thy ===== *)
theory Proxy
  imports Handshakes
begin

text \<open>
  The tunnel through a HTTP proxy, between the TCP transport and what runs over it: \<open>src/impl/httpproxytransport.cpp\<close>. Messages for the transport
  below and for the receive callback are appended to the trace \<open>px_events\<close>; \<open>lower\<close> is whether the transport below is open, as its \<open>send\<close> raises otherwise.
\<close>

datatype proxy_event = PxOut binary | PxRecv "binary option"

record HttpProxyTransport =
  px_state :: "State \<times> State list"
  px_hostname :: string
  px_service :: string
  px_buffer :: binary
  px_events :: "proxy_event list"

definition HttpProxyTransport_init :: "bool \<Rightarrow> string \<Rightarrow> string \<Rightarrow> HttpProxyTransport result" where
  "HttpProxyTransport_init lowerActive hostname service =
     (if \<not> lowerActive then Inl (LogicError ''HTTP proxy transport expects the lower transport to be active'')
      else Inr \<lparr>px_state = (Disconnected, []), px_hostname = hostname, px_service = service, px_buffer = [], px_events = []\<rparr>)"

definition px_emit :: "proxy_event \<Rightarrow> HttpProxyTransport \<Rightarrow> HttpProxyTransport" where
  "px_emit e t = t\<lparr>px_events := px_events t @ [e]\<rparr>"

definition px_set_state :: "State \<Rightarrow> HttpProxyTransport \<Rightarrow> HttpProxyTransport" where
  "px_set_state s t = t\<lparr>px_state := changeState s (px_state t)\<rparr>"

definition px_outgoing :: "bool \<Rightarrow> binary \<Rightarrow> HttpProxyTransport \<Rightarrow> unit result \<times> HttpProxyTransport" where
  "px_outgoing lower data t =
     (if lower then (Inr (), px_emit (PxOut data) t) else (Inl (RuntimeError ''Connection is not open''), t))"

definition proxy_request :: "HttpProxyTransport \<Rightarrow> string" where
  "proxy_request t = ''CONNECT '' @ px_hostname t @ '':'' @ px_service t @ '' HTTP/1.1'' @ CRLF @ ''Host: '' @ px_hostname t @ CRLF @ CRLF"

definition proxy_parseHttpResponse :: "binary \<Rightarrow> nat result" where
  "proxy_parseHttpResponse buffer =
     (case parseHttpLines (bytes_string buffer) of
        None \<Rightarrow> Inr 0
      | Some (len, []) \<Rightarrow> Inl (RuntimeError ''Invalid response from HTTP proxy'')
      | Some (len, status # lines) \<Rightarrow>
          let code = extract_uint (snd (extract_word status))
          in if code \<noteq> 200 then Inl (RuntimeError (''Unexpected response code '' @ to_string (uint code) @ '' from HTTP proxy''))
             else Inr len)"

definition proxy_start :: "bool \<Rightarrow> HttpProxyTransport \<Rightarrow> unit result \<times> HttpProxyTransport" where
  "proxy_start lower t = px_outgoing lower (string_bytes (proxy_request t)) (px_set_state Connecting t)"

definition proxy_send :: "bool \<Rightarrow> binary \<Rightarrow> HttpProxyTransport \<Rightarrow> unit result \<times> HttpProxyTransport" where
  "proxy_send lower data t =
     (if fst (px_state t) \<noteq> Connected then (Inl (RuntimeError ''HTTP proxy connection is not open''), t)
      else px_outgoing lower data t)"

definition proxy_lost :: "HttpProxyTransport \<Rightarrow> HttpProxyTransport" where
  "proxy_lost t =
     (if fst (px_state t) = Connected then px_emit (PxRecv None) (px_set_state Disconnected t) else px_set_state Failed t)"

definition proxy_incoming :: "binary option \<Rightarrow> HttpProxyTransport \<Rightarrow> HttpProxyTransport" where
  "proxy_incoming message t =
     (if fst (px_state t) \<noteq> Connecting \<and> fst (px_state t) \<noteq> Connected then t
      else case message of
             None \<Rightarrow> proxy_lost t
           | Some data \<Rightarrow>
               if fst (px_state t) = Connecting then
                 let t = t\<lparr>px_buffer := px_buffer t @ data\<rparr>
                 in case proxy_parseHttpResponse (px_buffer t) of
                      Inl e \<Rightarrow> proxy_lost t
                    | Inr len \<Rightarrow>
                        if len = 0 then t
                        else let t = (px_set_state Connected t)\<lparr>px_buffer := drop len (px_buffer t)\<rparr>
                             in if px_buffer t \<noteq> [] then (px_emit (PxRecv (Some (px_buffer t))) t)\<lparr>px_buffer := []\<rparr> else t
               else px_emit (PxRecv (Some data)) t)"

section \<open>The tunnel\<close>

definition proxy_received :: "HttpProxyTransport \<Rightarrow> binary option list" where
  "proxy_received t = concat (map (\<lambda>e. case e of PxRecv d \<Rightarrow> [d] | _ \<Rightarrow> []) (px_events t))"

definition received_bytes :: "HttpProxyTransport \<Rightarrow> binary" where
  "received_bytes t = concat (map (\<lambda>d. case d of Some b \<Rightarrow> b | None \<Rightarrow> []) (proxy_received t))"

text \<open>A response that accepts the connection.\<close>

definition proxy_accepts :: "string list \<Rightarrow> bool" where
  "proxy_accepts ls \<longleftrightarrow> ls \<noteq> [] \<and> (\<forall>l \<in> set ls. line_ok l) \<and> extract_uint (snd (extract_word (hd ls))) = 200"

lemma proxy_response_complete:
  assumes "proxy_accepts ls"
  shows "proxy_parseHttpResponse (string_bytes (http_text ls) @ rest) = Inr (length (http_text ls))"
  using assms parseHttpLines_text [of ls "bytes_string rest"]
  by (cases ls) (simp_all add: proxy_accepts_def proxy_parseHttpResponse_def)

lemma proxy_response_prefix:
  assumes "proxy_accepts ls" and "b @ z = string_bytes (http_text ls)" and "z \<noteq> []"
  shows "proxy_parseHttpResponse b = Inr 0"
proof -
  have "bytes_string b @ bytes_string z = http_text ls" using arg_cong [OF assms(2), of bytes_string] by simp
  moreover have "bytes_string z \<noteq> []" using assms(3) by (simp add: bytes_string_def)
  ultimately show ?thesis
    using parseHttpLines_prefix [of ls "bytes_string b" "bytes_string z"] assms(1) by (simp add: proxy_accepts_def proxy_parseHttpResponse_def)
qed

text \<open>What a tunnel has done after it read the bytes \<open>c\<close>, of which the response is the first part.\<close>

definition tunnel_after :: "binary \<Rightarrow> binary \<Rightarrow> HttpProxyTransport \<Rightarrow> bool" where
  "tunnel_after response c t \<longleftrightarrow>
     (if length c < length response then fst (px_state t) = Connecting \<and> px_buffer t = c \<and> proxy_received t = []
      else fst (px_state t) = Connected \<and> px_buffer t = [] \<and> received_bytes t = drop (length response) c \<and> None \<notin> set (proxy_received t))"

lemmas px_ops = px_emit_def px_set_state_def proxy_received_def received_bytes_def

lemma tunnel_step:
  assumes "proxy_accepts ls" and "response = string_bytes (http_text ls)" and "tunnel_after response c t" and "\<exists>z. c @ d @ z = response @ payload"
  shows "tunnel_after response (c @ d) (proxy_incoming (Some d) t)"
proof (cases "length c < length response")
  case False
  then show ?thesis using assms(3) by (auto simp: tunnel_after_def proxy_incoming_def) (auto simp: px_ops)
next
  case True
  then have t: "fst (px_state t) = Connecting" "px_buffer t = c" "proxy_received t = []" using assms(3) by (simp_all add: tunnel_after_def)
  obtain z where z: "c @ d @ z = response @ payload" using assms(4) by blast
  show ?thesis
  proof (cases "length (c @ d) < length response")
    case True
    define y where "y = take (length response - length (c @ d)) z"
    have y: "(c @ d) @ y = response" using arg_cong [OF z, of "take (length response)"] True by (simp add: y_def)
    then have "y \<noteq> []" using True by force
    then have "proxy_parseHttpResponse (c @ d) = Inr 0" using proxy_response_prefix [OF assms(1)] y assms(2) by blast
    then show ?thesis using t True by (auto simp: tunnel_after_def proxy_incoming_def Let_def proxy_received_def)
  next
    case False
    have "take (length response) (c @ d) = response" using arg_cong [OF z, of "take (length response)"] False by simp
    then have eq: "c @ d = response @ drop (length response) (c @ d)" by (metis append_take_drop_id)
    have len: "length response = length (http_text ls)" "0 < length (http_text ls)" using assms(2) by (simp_all add: http_text_def)
    have "proxy_parseHttpResponse (c @ d) = Inr (length response)"
      using proxy_response_complete [OF assms(1), of "drop (length response) (c @ d)"] len unfolding assms(2) [symmetric] eq [symmetric] by simp
    then show ?thesis using t len False by (auto simp: tunnel_after_def proxy_incoming_def Let_def) (auto simp: px_ops)
  qed
qed

lemma tunnel_steps:
  assumes "proxy_accepts ls" and "response = string_bytes (http_text ls)" and "tunnel_after response c t" and "\<exists>z. c @ concat ds @ z = response @ payload"
  shows "tunnel_after response (c @ concat ds) (fold (\<lambda>d. proxy_incoming (Some d)) ds t)"
  using assms(3,4)
proof (induction ds arbitrary: c t)
  case (Cons d ds)
  have "tunnel_after response (c @ d) (proxy_incoming (Some d) t)"
    using tunnel_step [OF assms(1,2) Cons.prems(1)] Cons.prems(2) by fastforce
  from Cons.IH [OF this] Cons.prems(2) show ?case by simp
qed simp

text \<open>
  C20. A tunnel through a HTTP proxy is transparent. The transport sends one CONNECT request for the host and the service. When the proxy accepts with
  any well-formed response of status 200, followed by the bytes of the other end, then however the bytes are cut into reads, also within the response
  and with the end of the response and the first bytes of the other end in one read, the transport ends connected and has passed on exactly the bytes that
  follow the response, in order; nothing stays in its buffer.
\<close>

theorem proxy_tunnel_is_transparent:
  assumes "HttpProxyTransport_init True hostname service = Inr t" and "proxy_accepts ls"
    and "concat chunks = string_bytes (http_text ls) @ payload"
  defines "t' \<equiv> fold (\<lambda>d. proxy_incoming (Some d)) chunks (snd (proxy_start True t))"
  shows "fst (px_state t') = Connected \<and> received_bytes t' = payload \<and> px_buffer t' = [] \<and> None \<notin> set (proxy_received t') \<and>
    px_events (snd (proxy_start True t)) = [PxOut (string_bytes (proxy_request t))]"
proof -
  let ?s = "snd (proxy_start True t)" and ?r = "string_bytes (http_text ls)"
  have s: "px_events ?s = [PxOut (string_bytes (proxy_request t))]" "fst (px_state ?s) = Connecting" "px_buffer ?s = []"
    using assms(1) by (auto simp: HttpProxyTransport_init_def proxy_start_def px_outgoing_def px_ops proxy_request_def)
  have "tunnel_after ?r [] ?s" using s by (simp add: tunnel_after_def proxy_received_def http_text_def)
  from tunnel_steps [OF assms(2) refl this, of chunks payload] assms(3) s(1) show ?thesis by (simp add: t'_def tunnel_after_def)
qed

theorem proxy_tunnel_is_transparent_witness:
  "\<exists>t. HttpProxyTransport_init True ''h'' ''443'' = Inr t \<and>
     received_bytes (fold (\<lambda>d. proxy_incoming (Some d)) [string_bytes ''HTTP/1.1 2'', string_bytes (''00 OK'' @ [CR, LF, CR, LF]) @ [1, 2], [3]] (snd (proxy_start True t))) = [1, 2, 3]"
proof -
  have ok: "proxy_accepts [''HTTP/1.1 200 OK'']"
    by (simp add: proxy_accepts_def line_ok_def extract_uint_def extract_word_def isspace_def isdigit_def digits_value_def)
  obtain t where t: "HttpProxyTransport_init True ''h'' ''443'' = Inr t" by (simp add: HttpProxyTransport_init_def)
  have "concat [string_bytes ''HTTP/1.1 2'', string_bytes (''00 OK'' @ [CR, LF, CR, LF]) @ [1, 2], [3]] = string_bytes (http_text [''HTTP/1.1 200 OK'']) @ [1, 2, 3]"
    by (simp add: http_text_def string_bytes_def)
  from proxy_tunnel_is_transparent [OF t ok this] t show ?thesis by blast
qed

end
