(* ===== verification/Tcp.thy ===== *)
theory Tcp
  imports WebSockets "HOL-Library.AList" "HOL-Library.Sublist"
begin

text \<open>
  The TCP transport below a WebSocket and the service that polls its socket: \<open>src/impl/tcptransport.cpp\<close>,
  \<open>src/impl/tcptransport.hpp\<close>, \<open>src/impl/pollservice.cpp\<close>. The operating system is a parameter: \<open>os i n\<close> is what the
  \<open>i\<close>-th call of \<open>send\<close> returns when it is offered \<open>n\<close> bytes; addresses, new sockets and what was read are arguments. Sizes of
  buffers are natural numbers, as a buffer never has \<open>2 ^ 63\<close> bytes. Calls of the callbacks, of the thread pool and of
  \<open>closesocket\<close> are appended to the trace \<open>tcp_events\<close>. A send buffer that never takes a byte and never blocks
  would keep \<open>trySendMessage\<close> in its loop: the result is \<open>None\<close> there.
\<close>

section \<open>The poll service\<close>

type_synonym socket = nat

datatype PollDirection = PollBoth | PollIn | PollOut

datatype PollEvent = EvNone | EvError | EvTimeout | EvIn | EvOut

record 'cb SocketEntry =
  se_direction :: PollDirection
  se_timeout :: "nat option"
  se_callback :: 'cb
  se_until :: "nat option"

type_synonym 'cb SocketMap = "(socket \<times> 'cb SocketEntry) list"

text \<open>The flags of a \<open>pollfd\<close>.\<close>

record pollfd =
  pfd_fd :: socket
  pfd_events_in :: bool
  pfd_events_out :: bool
  pfd_in :: bool
  pfd_out :: bool
  pfd_err :: bool
  pfd_hup :: bool
  pfd_nval :: bool

definition new_entry :: "nat \<Rightarrow> PollDirection \<Rightarrow> nat option \<Rightarrow> 'cb \<Rightarrow> 'cb SocketEntry" where
  "new_entry now dir timeout cb =
     \<lparr>se_direction = dir, se_timeout = timeout, se_callback = cb, se_until = map_option ((+) now) timeout\<rparr>"

definition PollService_add :: "nat \<Rightarrow> socket \<Rightarrow> PollDirection \<Rightarrow> nat option \<Rightarrow> 'cb \<Rightarrow> 'cb SocketMap \<Rightarrow> 'cb SocketMap" where
  "PollService_add now sock dir timeout cb m = AList.update sock (new_entry now dir timeout cb) m"

definition PollService_remove :: "socket \<Rightarrow> 'cb SocketMap \<Rightarrow> 'cb SocketMap" where
  "PollService_remove sock m = AList.delete sock m"

definition prepare_pfd :: "socket \<times> 'cb SocketEntry \<Rightarrow> pollfd" where
  "prepare_pfd se =
     (case se of (sock, e) \<Rightarrow>
        \<lparr>pfd_fd = sock, pfd_events_in = (se_direction e \<noteq> PollOut), pfd_events_out = (se_direction e \<noteq> PollIn),
         pfd_in = False, pfd_out = False, pfd_err = False, pfd_hup = False, pfd_nval = False\<rparr>)"

definition earlier :: "nat option \<Rightarrow> nat option \<Rightarrow> nat option" where
  "earlier next until = (case until of None \<Rightarrow> next | Some u \<Rightarrow> (case next of None \<Rightarrow> Some u | Some n \<Rightarrow> Some (min n u)))"

definition PollService_prepare :: "'cb SocketMap \<Rightarrow> pollfd list \<times> nat option" where
  "PollService_prepare m = (map prepare_pfd m, fold (\<lambda>(sock, e) next. earlier next (se_until e)) m None)"

text \<open>One round for one socket: the calls of its callback, in order, and the entry that the service keeps.\<close>

definition poll_entry :: "nat \<Rightarrow> pollfd \<Rightarrow> 'cb SocketEntry \<Rightarrow> ('cb \<times> PollEvent) list \<times> 'cb SocketEntry option" where
  "poll_entry now pfd e =
     (if pfd_nval pfd \<or> pfd_err pfd \<or> (pfd_hup pfd \<and> \<not> pfd_events_in pfd) then ([(se_callback e, EvError)], None)
      else if pfd_in pfd \<or> pfd_out pfd \<or> pfd_hup pfd then
        ((if pfd_in pfd \<or> pfd_hup pfd then [(se_callback e, EvIn)] else []) @
         (if pfd_out pfd then [(se_callback e, EvOut)] else []),
         Some (e\<lparr>se_until := map_option ((+) now) (se_timeout e)\<rparr>))
      else case se_until e of
             Some u \<Rightarrow> if u \<le> now then ([(se_callback e, EvTimeout)], None) else ([], Some e)
           | None \<Rightarrow> ([], Some e))"

definition poll_socket :: "nat \<Rightarrow> pollfd \<Rightarrow> 'cb SocketMap \<Rightarrow> ('cb \<times> PollEvent) list \<times> 'cb SocketMap" where
  "poll_socket now pfd m =
     (case map_of m (pfd_fd pfd) of
        None \<Rightarrow> ([], m)
      | Some e \<Rightarrow>
          (case poll_entry now pfd e of
             (calls, None) \<Rightarrow> (calls, PollService_remove (pfd_fd pfd) m)
           | (calls, Some e') \<Rightarrow> (calls, AList.update (pfd_fd pfd) e' m)))"

section \<open>The transport\<close>

datatype send_result = SendLen nat | SendAgain | SendError

type_synonym tcp_os = "nat \<Rightarrow> nat \<Rightarrow> send_result"

datatype tcp_callback = OnConnect | OnProcess

datatype tcp_event =
    TcpBytes binary
  | TcpRecv "binary option"
  | TcpBuffered nat
  | TcpCloseSocket "socket option"
  | TcpResolve
  | TcpAttempt

record 'addr TcpTransport =
  tcp_state :: "State \<times> State list"
  tcp_isActive :: bool
  tcp_hostname :: string
  tcp_service :: string
  tcp_readTimeout :: "nat option"
  tcp_resolved :: "'addr list"
  tcp_sock :: "socket option"
  tcp_sendQueue :: "binary Queue"
  tcp_bufferedAmount :: nat
  tcp_poll :: "tcp_callback SocketEntry option"
  tcp_sends :: nat
  tcp_events :: "tcp_event list"

definition TcpTransport_active :: "string \<Rightarrow> string \<Rightarrow> 'addr TcpTransport" where
  "TcpTransport_active hostname service =
     \<lparr>tcp_state = (Disconnected, []), tcp_isActive = True, tcp_hostname = hostname, tcp_service = service, tcp_readTimeout = None,
      tcp_resolved = [], tcp_sock = None, tcp_sendQueue = Queue_init 0 None, tcp_bufferedAmount = 0, tcp_poll = None,
      tcp_sends = 0, tcp_events = []\<rparr>"

text \<open>A socket that a server accepted; \<open>configured\<close>, \<open>peer\<close> and \<open>name\<close> are what the system calls return.\<close>

definition TcpTransport_passive ::
  "socket \<Rightarrow> bool \<Rightarrow> bool \<Rightarrow> (string \<times> string) option \<Rightarrow> 'addr TcpTransport result" where
  "TcpTransport_passive sock configured peer name =
     (if \<not> configured then Inl (RuntimeError ''Failed to set socket non-blocking mode'')
      else if \<not> peer then Inl (RuntimeError ''getpeername failed'')
      else case name of
             None \<Rightarrow> Inl (RuntimeError ''getnameinfo failed'')
           | Some (node, serv) \<Rightarrow>
               Inr ((TcpTransport_active node serv)\<lparr>tcp_isActive := False, tcp_sock := Some sock\<rparr>))"

definition tcp_emit :: "tcp_event \<Rightarrow> 'addr TcpTransport \<Rightarrow> 'addr TcpTransport" where
  "tcp_emit e t = t\<lparr>tcp_events := tcp_events t @ [e]\<rparr>"

definition tcp_set_state :: "State \<Rightarrow> 'addr TcpTransport \<Rightarrow> 'addr TcpTransport" where
  "tcp_set_state s t = t\<lparr>tcp_state := changeState s (tcp_state t)\<rparr>"

definition setReadTimeout :: "nat \<Rightarrow> 'addr TcpTransport \<Rightarrow> 'addr TcpTransport" where
  "setReadTimeout n t = t\<lparr>tcp_readTimeout := Some n\<rparr>"

definition remoteAddress :: "'addr TcpTransport \<Rightarrow> string" where
  "remoteAddress t = tcp_hostname t @ '':'' @ tcp_service t"

definition setPoll :: "nat \<Rightarrow> PollDirection \<Rightarrow> 'addr TcpTransport \<Rightarrow> 'addr TcpTransport" where
  "setPoll now dir t =
     t\<lparr>tcp_poll := Some (new_entry now dir (if dir = PollIn then tcp_readTimeout t else None) OnProcess)\<rparr>"

definition poll_remove :: "'addr TcpTransport \<Rightarrow> 'addr TcpTransport" where
  "poll_remove t = t\<lparr>tcp_poll := None\<rparr>"

section \<open>Connecting\<close>

definition tcp_connect :: "'addr TcpTransport \<Rightarrow> unit result \<times> 'addr TcpTransport" where
  "tcp_connect t =
     (if fst (tcp_state t) = Connecting then (Inl (LogicError ''TCP connection is already in progress''), t)
      else if fst (tcp_state t) = Connected then (Inl (LogicError ''TCP is already connected''), t)
      else (Inr (), tcp_emit TcpResolve (tcp_set_state Connecting t)))"

definition TcpTransport_start :: "nat \<Rightarrow> 'addr TcpTransport \<Rightarrow> unit result \<times> 'addr TcpTransport" where
  "TcpTransport_start now t =
     (if tcp_sock t = None then tcp_connect t else (Inr (), setPoll now PollIn (tcp_set_state Connected t)))"

text \<open>\<open>None\<close>: the resolver failed.\<close>

definition tcp_resolve :: "'addr list option \<Rightarrow> 'addr TcpTransport \<Rightarrow> 'addr TcpTransport" where
  "tcp_resolve addresses t =
     (let t = t\<lparr>tcp_resolved := []\<rparr>
      in if fst (tcp_state t) \<noteq> Connecting then t
         else case addresses of
                None \<Rightarrow> tcp_set_state Failed t
              | Some as \<Rightarrow> tcp_emit TcpAttempt (t\<lparr>tcp_resolved := as\<rparr>))"

text \<open>What happens to the socket for an address: there is none, it is refused when it is configured or connected, or the
  connection is in progress.\<close>

datatype create_result = NoSocket | Refused socket | InProgress socket

definition createSocket :: "create_result \<Rightarrow> 'addr TcpTransport \<Rightarrow> bool \<times> 'addr TcpTransport" where
  "createSocket r t =
     (case r of
        NoSocket \<Rightarrow> (False, t\<lparr>tcp_sock := None\<rparr>)
      | Refused s \<Rightarrow> (False, tcp_emit (TcpCloseSocket (Some s)) (t\<lparr>tcp_sock := None\<rparr>))
      | InProgress s \<Rightarrow> (True, t\<lparr>tcp_sock := Some s\<rparr>))"

definition tcp_attempt :: "nat \<Rightarrow> ('addr \<Rightarrow> create_result) \<Rightarrow> 'addr TcpTransport \<Rightarrow> 'addr TcpTransport" where
  "tcp_attempt now create t =
     (if fst (tcp_state t) \<noteq> Connecting then t
      else
        let t = (if tcp_sock t = None then (tcp_emit (TcpCloseSocket (tcp_sock t)) t)\<lparr>tcp_sock := None\<rparr> else t)
        in case tcp_resolved t of
             [] \<Rightarrow> tcp_set_state Failed t
           | addr # rest \<Rightarrow>
               (case createSocket (create addr) (t\<lparr>tcp_resolved := rest\<rparr>) of
                  (False, t) \<Rightarrow> tcp_emit TcpAttempt t
                | (True, t) \<Rightarrow> t\<lparr>tcp_poll := Some (new_entry now PollOut (Some 10000) OnConnect)\<rparr>))"

text \<open>The callback while connecting; \<open>err\<close> is what \<open>getsockopt\<close> reports, \<open>None\<close> when it fails.\<close>

definition on_connect :: "nat \<Rightarrow> PollEvent \<Rightarrow> int option \<Rightarrow> 'addr TcpTransport \<Rightarrow> 'addr TcpTransport" where
  "on_connect now event err t =
     (if event = EvError \<or> event = EvTimeout then tcp_emit TcpAttempt (poll_remove t)
      else if event \<noteq> EvOut then t
      else if err = Some 0 then setPoll now PollIn (tcp_set_state Connected t)
      else tcp_emit TcpAttempt (poll_remove t))"

definition tcp_close :: "'addr TcpTransport \<Rightarrow> 'addr TcpTransport" where
  "tcp_close t =
     tcp_set_state Disconnected
       (if tcp_sock t \<noteq> None then (tcp_emit (TcpCloseSocket (tcp_sock t)) (poll_remove t))\<lparr>tcp_sock := None\<rparr> else t)"

section \<open>Sending and receiving\<close>

definition updateBufferedAmount_tcp :: "int \<Rightarrow> 'addr TcpTransport \<Rightarrow> 'addr TcpTransport" where
  "updateBufferedAmount_tcp delta t =
     (if delta = 0 then t
      else let amount = nat (max (int (tcp_bufferedAmount t) + delta) 0)
           in tcp_emit (TcpBuffered amount) (t\<lparr>tcp_bufferedAmount := amount\<rparr>))"

text \<open>The result is whether everything was sent, and what is left of the message.\<close>

partial_function (option) tcp_trySendMessage ::
  "tcp_os \<Rightarrow> binary \<Rightarrow> 'addr TcpTransport \<Rightarrow> ((bool \<times> binary) result \<times> 'addr TcpTransport) option" where
  "tcp_trySendMessage os message t =
     (if message = [] then Some (Inr (True, []), t)
      else case os (tcp_sends t) (length message) of
             SendAgain \<Rightarrow> Some (Inr (False, message), t\<lparr>tcp_sends := tcp_sends t + 1\<rparr>)
           | SendError \<Rightarrow> Some (Inl (RuntimeError ''Connection closed''), t\<lparr>tcp_sends := tcp_sends t + 1\<rparr>)
           | SendLen len \<Rightarrow>
               tcp_trySendMessage os (drop len message)
                 (tcp_emit (TcpBytes (take len message)) (t\<lparr>tcp_sends := tcp_sends t + 1\<rparr>)))"

text \<open>The loop over the queue, whose elements are the second argument.\<close>

fun send_queue :: "tcp_os \<Rightarrow> binary list \<Rightarrow> 'addr TcpTransport \<Rightarrow> (bool result \<times> 'addr TcpTransport) option" where
  "send_queue os [] t = Some (Inr True, t)"
| "send_queue os (message # ms) t =
     Option.bind (tcp_trySendMessage os message t) (\<lambda>(r, t).
       case r of
         Inl e \<Rightarrow> Some (Inl e, t)
       | Inr (sent, rest) \<Rightarrow>
           if \<not> sent then
             Some (Inr False, updateBufferedAmount_tcp (int (length rest) - int (length message))
                                (t\<lparr>tcp_sendQueue := snd (Queue_exchange rest (tcp_sendQueue t))\<rparr>))
           else send_queue os ms (updateBufferedAmount_tcp (- int (length message))
                                    (t\<lparr>tcp_sendQueue := snd (Queue_pop (tcp_sendQueue t))\<rparr>)))"

definition tcp_trySendQueue :: "tcp_os \<Rightarrow> 'addr TcpTransport \<Rightarrow> (bool result \<times> 'addr TcpTransport) option" where
  "tcp_trySendQueue os t = send_queue os (mQueue (tcp_sendQueue t)) t"

text \<open>The queue has no limit, so the push does not block.\<close>

definition tcp_enqueue :: "nat \<Rightarrow> binary \<Rightarrow> 'addr TcpTransport \<Rightarrow> 'addr TcpTransport" where
  "tcp_enqueue now message t =
     (case Queue_push message (tcp_sendQueue t) of
        None \<Rightarrow> t
      | Some q \<Rightarrow> setPoll now PollBoth (updateBufferedAmount_tcp (int (length message)) (t\<lparr>tcp_sendQueue := q\<rparr>)))"

definition tcp_outgoing :: "tcp_os \<Rightarrow> nat \<Rightarrow> binary \<Rightarrow> 'addr TcpTransport \<Rightarrow> (bool result \<times> 'addr TcpTransport) option" where
  "tcp_outgoing os now message t =
     Option.bind (tcp_trySendQueue os t) (\<lambda>(r, t).
       case r of
         Inl e \<Rightarrow> Some (Inl e, t)
       | Inr False \<Rightarrow> Some (Inr False, tcp_enqueue now message t)
       | Inr True \<Rightarrow>
           Option.bind (tcp_trySendMessage os message t) (\<lambda>(r, t).
             case r of
               Inl e \<Rightarrow> Some (Inl e, t)
             | Inr (sent, rest) \<Rightarrow> if sent then Some (Inr True, t) else Some (Inr False, tcp_enqueue now rest t)))"

definition TcpTransport_send ::
  "tcp_os \<Rightarrow> nat \<Rightarrow> binary option \<Rightarrow> 'addr TcpTransport \<Rightarrow> (bool result \<times> 'addr TcpTransport) option" where
  "TcpTransport_send os now message t =
     (if fst (tcp_state t) \<noteq> Connected then Some (Inl (RuntimeError ''Connection is not open''), t)
      else case message of
             None \<Rightarrow> tcp_trySendQueue os t
           | Some m \<Rightarrow> if m = [] then tcp_trySendQueue os t else tcp_outgoing os now m t)"

definition tcp_disconnect :: "'addr TcpTransport \<Rightarrow> 'addr TcpTransport" where
  "tcp_disconnect t = tcp_emit (TcpRecv None) (tcp_set_state Disconnected (poll_remove t))"

text \<open>What the calls of \<open>recv\<close> return, up to the one that is not positive.\<close>

datatype read_end = ReadClosed | ReadAgain | ReadError

definition tcp_process ::
  "tcp_os \<Rightarrow> nat \<Rightarrow> PollEvent \<Rightarrow> binary list \<times> read_end \<Rightarrow> 'addr TcpTransport \<Rightarrow> 'addr TcpTransport option" where
  "tcp_process os now event reads t =
     (case event of
        EvError \<Rightarrow> Some (tcp_disconnect t)
      | EvTimeout \<Rightarrow> Some (setPoll now PollIn (tcp_emit (TcpRecv (Some [])) t))
      | EvOut \<Rightarrow>
          map_option (\<lambda>(r, t). case r of Inl e \<Rightarrow> tcp_disconnect t | Inr flushed \<Rightarrow> if flushed then setPoll now PollIn t else t)
            (tcp_trySendQueue os t)
      | EvIn \<Rightarrow>
          (let t = fold (\<lambda>d. tcp_emit (TcpRecv (Some d))) (fst reads) t
           in Some (if snd reads = ReadAgain then t else tcp_disconnect t))
      | EvNone \<Rightarrow> Some t)"

text \<open>A round of the poll service: it calls the callbacks of the entry of this transport.\<close>

fun run_callbacks ::
  "tcp_os \<Rightarrow> nat \<Rightarrow> int option \<Rightarrow> binary list \<times> read_end \<Rightarrow> (tcp_callback \<times> PollEvent) list \<Rightarrow> 'addr TcpTransport \<Rightarrow> 'addr TcpTransport option" where
  "run_callbacks os now err reads [] t = Some t"
| "run_callbacks os now err reads ((cb, event) # calls) t =
     Option.bind (case cb of OnConnect \<Rightarrow> Some (on_connect now event err t) | OnProcess \<Rightarrow> tcp_process os now event reads t)
       (run_callbacks os now err reads calls)"

definition tcp_poll_round ::
  "tcp_os \<Rightarrow> nat \<Rightarrow> pollfd \<Rightarrow> int option \<Rightarrow> binary list \<times> read_end \<Rightarrow> 'addr TcpTransport \<Rightarrow> 'addr TcpTransport option" where
  "tcp_poll_round os now pfd err reads t =
     (case tcp_poll t of
        None \<Rightarrow> Some t
      | Some e \<Rightarrow>
          (case poll_entry now pfd e of (calls, e') \<Rightarrow> run_callbacks os now err reads calls (t\<lparr>tcp_poll := e'\<rparr>)))"

section \<open>The byte stream\<close>

text \<open>What is documented of \<open>send\<close>: it takes at least one byte and no more than it is offered, or it would block, or the connection is
  broken and stays so.\<close>

definition os_ok :: "tcp_os \<Rightarrow> bool" where
  "os_ok os \<longleftrightarrow> (\<forall>i n. n > 0 \<longrightarrow>
     (case os i n of SendLen k \<Rightarrow> 0 < k \<and> k \<le> n | SendAgain \<Rightarrow> True | SendError \<Rightarrow> \<forall>j \<ge> i. \<forall>m. os j m = SendError))"

definition broken :: "tcp_os \<Rightarrow> 'addr TcpTransport \<Rightarrow> bool" where
  "broken os t \<longleftrightarrow> (\<forall>j \<ge> tcp_sends t. \<forall>m. os j m = SendError)"

definition tcp_written :: "'addr TcpTransport \<Rightarrow> binary" where
  "tcp_written t = concat (map (\<lambda>e. case e of TcpBytes b \<Rightarrow> b | _ \<Rightarrow> []) (tcp_events t))"

definition tcp_waiting :: "'addr TcpTransport \<Rightarrow> binary" where
  "tcp_waiting t = concat (mQueue (tcp_sendQueue t))"

definition tcp_received :: "'addr TcpTransport \<Rightarrow> binary option list" where
  "tcp_received t = concat (map (\<lambda>e. case e of TcpRecv d \<Rightarrow> [d] | _ \<Rightarrow> []) (tcp_events t))"

lemmas tcp_ops = tcp_emit_def tcp_set_state_def setPoll_def poll_remove_def updateBufferedAmount_tcp_def

lemma tcp_written_updates [simp]:
  "tcp_written (t\<lparr>tcp_sends := n\<rparr>) = tcp_written t" "tcp_written (t\<lparr>tcp_sendQueue := q\<rparr>) = tcp_written t"
  "tcp_written (t\<lparr>tcp_poll := p\<rparr>) = tcp_written t"
  "tcp_written (tcp_set_state s t) = tcp_written t" "tcp_written (setPoll now d t) = tcp_written t" "tcp_written (poll_remove t) = tcp_written t"
  "tcp_written (updateBufferedAmount_tcp delta t) = tcp_written t"
  "tcp_written (tcp_emit e t) = tcp_written t @ (case e of TcpBytes b \<Rightarrow> b | _ \<Rightarrow> [])"
  by (simp_all add: tcp_written_def tcp_ops Let_def)

text \<open>What sending may change: the trace, the number of calls, and what waits in the queue.\<close>

definition same_link :: "'addr TcpTransport \<Rightarrow> 'addr TcpTransport \<Rightarrow> bool" where
  "same_link t t' \<longleftrightarrow> tcp_state t' = tcp_state t \<and> tcp_poll t' = tcp_poll t \<and> tcp_readTimeout t' = tcp_readTimeout t \<and>
     tcp_received t' = tcp_received t"

lemma same_link_trans: "same_link t u \<Longrightarrow> same_link u v \<Longrightarrow> same_link t v"
  by (simp add: same_link_def)

lemma trySendMessage_spec:
  assumes "os_ok os"
  shows "\<exists>r t'. tcp_trySendMessage os m t = Some (r, t') \<and> same_link t t' \<and>
    tcp_sendQueue t' = tcp_sendQueue t \<and> tcp_bufferedAmount t' = tcp_bufferedAmount t \<and>
    (case r of
       Inl e \<Rightarrow> broken os t' \<and> (\<exists>rest. tcp_written t' @ rest = tcp_written t @ m)
     | Inr (sent, rest) \<Rightarrow> tcp_written t' @ rest = tcp_written t @ m \<and> (sent \<longleftrightarrow> rest = []))"
proof (induction "length m" arbitrary: m t rule: less_induct)
  case less
  let ?t = "t\<lparr>tcp_sends := tcp_sends t + 1\<rparr>"
  show ?case
  proof (cases "m = []")
    case True
    then show ?thesis by (simp add: tcp_trySendMessage.simps same_link_def)
  next
    case False
    then have ok: "case os (tcp_sends t) (length m) of SendLen k \<Rightarrow> 0 < k \<and> k \<le> length m | SendAgain \<Rightarrow> True
        | SendError \<Rightarrow> \<forall>j \<ge> tcp_sends t. \<forall>m. os j m = SendError"
      using assms by (simp add: os_ok_def)
    show ?thesis
    proof (cases "os (tcp_sends t) (length m)")
      case (SendLen k)
      let ?u = "tcp_emit (TcpBytes (take k m)) ?t"
      have "length (drop k m) < length m" using ok SendLen False by simp
      from less [OF this, of ?u] obtain r t' where r: "tcp_trySendMessage os (drop k m) ?u = Some (r, t')" "same_link ?u t'"
          "tcp_sendQueue t' = tcp_sendQueue ?u" "tcp_bufferedAmount t' = tcp_bufferedAmount ?u"
          "case r of Inl e \<Rightarrow> broken os t' \<and> (\<exists>rest. tcp_written t' @ rest = tcp_written ?u @ drop k m)
             | Inr (sent, rest) \<Rightarrow> tcp_written t' @ rest = tcp_written ?u @ drop k m \<and> (sent \<longleftrightarrow> rest = [])"
        by blast
      have "tcp_trySendMessage os m t = Some (r, t')"
        using False SendLen r(1) by (simp add: tcp_trySendMessage.simps [of os m t])
      moreover have "same_link t ?u" by (simp add: same_link_def tcp_received_def tcp_emit_def)
      moreover have "tcp_sendQueue ?u = tcp_sendQueue t" "tcp_bufferedAmount ?u = tcp_bufferedAmount t"
        by (simp_all add: tcp_emit_def)
      moreover have w: "tcp_written ?u @ drop k m = tcp_written t @ m" by simp
      ultimately show ?thesis using r(2-4) r(5) [unfolded w] same_link_trans [of t ?u t'] by simp
    next
      case SendAgain
      then show ?thesis using False by (simp add: tcp_trySendMessage.simps [of os m t] same_link_def tcp_received_def)
    next
      case SendError
      then show ?thesis using False ok by (simp add: tcp_trySendMessage.simps [of os m t] same_link_def tcp_received_def broken_def)
    qed
  qed
qed

lemma trySendMessage_broken:
  "broken os t \<Longrightarrow> m \<noteq> [] \<Longrightarrow>
     tcp_trySendMessage os m t = Some (Inl (RuntimeError ''Connection closed''), t\<lparr>tcp_sends := tcp_sends t + 1\<rparr>)"
  by (simp add: tcp_trySendMessage.simps [of os m t] broken_def)

text \<open>The queue of a transport: no limit, no empty message, and the buffered amount is the number of bytes that wait.\<close>

definition queue_ok :: "'addr TcpTransport \<Rightarrow> bool" where
  "queue_ok t \<longleftrightarrow> mLimit (tcp_sendQueue t) = 0 \<and> \<not> mStopping (tcp_sendQueue t) \<and> [] \<notin> set (mQueue (tcp_sendQueue t)) \<and>
     tcp_bufferedAmount t = length (tcp_waiting t)"

lemma send_queue_spec:
  assumes "os_ok os" and "mQueue (tcp_sendQueue t) = ms" and "queue_ok t"
  shows "\<exists>r t'. send_queue os ms t = Some (r, t') \<and> same_link t t' \<and> queue_ok t' \<and> (mQueue (tcp_sendQueue t') \<noteq> [] \<longrightarrow> ms \<noteq> []) \<and>
    (case r of
       Inl e \<Rightarrow> broken os t' \<and> (\<exists>rest. tcp_written t' @ rest = tcp_written t @ concat ms)
     | Inr flushed \<Rightarrow> tcp_written t' @ tcp_waiting t' = tcp_written t @ concat ms \<and> (flushed \<longleftrightarrow> mQueue (tcp_sendQueue t') = []))"
  using assms(2,3)
proof (induction ms arbitrary: t)
  case Nil
  then show ?case by (simp add: same_link_def tcp_waiting_def)
next
  case (Cons m ms)
  obtain r u where u: "tcp_trySendMessage os m t = Some (r, u)" "same_link t u" "tcp_sendQueue u = tcp_sendQueue t"
      "tcp_bufferedAmount u = tcp_bufferedAmount t"
      "case r of Inl e \<Rightarrow> broken os u \<and> (\<exists>rest. tcp_written u @ rest = tcp_written t @ m)
         | Inr (sent, rest) \<Rightarrow> tcp_written u @ rest = tcp_written t @ m \<and> (sent \<longleftrightarrow> rest = [])"
    using trySendMessage_spec [OF assms(1), of m t] by blast
  show ?case
  proof (cases r)
    case (Inl e)
    then obtain rest where "tcp_written u @ rest = tcp_written t @ m" using u(5) by auto
    then have "tcp_written u @ (rest @ concat ms) = tcp_written t @ concat (m # ms)" by simp
    then have "\<exists>rest. tcp_written u @ rest = tcp_written t @ concat (m # ms)" by blast
    then show ?thesis using u Inl Cons.prems by (simp add: queue_ok_def tcp_waiting_def)
  next
    case (Inr x)
    obtain sent rest where x: "x = (sent, rest)" by fastforce
    have w: "tcp_written u @ rest = tcp_written t @ m" "sent \<longleftrightarrow> rest = []" using u(5) Inr x by simp_all
    show ?thesis
    proof (cases sent)
      case False
      let ?v = "updateBufferedAmount_tcp (int (length rest) - int (length m)) (u\<lparr>tcp_sendQueue := snd (Queue_exchange rest (tcp_sendQueue u))\<rparr>)"
      have "queue_ok ?v" "mQueue (tcp_sendQueue ?v) = rest # ms"
        using Cons.prems u(3,4) w(2) False
        by (auto simp: queue_ok_def tcp_ops tcp_waiting_def Queue_exchange_def Let_def)
      moreover have "same_link t ?v" using u(2) by (simp add: same_link_def tcp_ops tcp_received_def Let_def)
      ultimately show ?thesis using u Inr x False w by (simp add: tcp_waiting_def)
    next
      case True
      let ?v = "updateBufferedAmount_tcp (- int (length m)) (u\<lparr>tcp_sendQueue := snd (Queue_pop (tcp_sendQueue u))\<rparr>)"
      have v: "queue_ok ?v" "mQueue (tcp_sendQueue ?v) = ms" "tcp_written ?v = tcp_written t @ m"
        using Cons.prems u(3,4) w True by (auto simp: queue_ok_def tcp_ops tcp_waiting_def Queue_pop_def Let_def)[2] (use w True in simp)
      have "same_link t ?v" using u(2) by (simp add: same_link_def tcp_ops tcp_received_def Let_def)
      moreover obtain r' t' where "send_queue os ms ?v = Some (r', t')" "same_link ?v t'" "queue_ok t'"
          "case r' of Inl e \<Rightarrow> broken os t' \<and> (\<exists>rest. tcp_written t' @ rest = tcp_written ?v @ concat ms)
             | Inr flushed \<Rightarrow> tcp_written t' @ tcp_waiting t' = tcp_written ?v @ concat ms \<and> (flushed \<longleftrightarrow> mQueue (tcp_sendQueue t') = [])"
        using Cons.IH [OF v(2,1)] by blast
      ultimately show ?thesis using u(1) Inr x True v(3) same_link_trans [of t ?v t'] by (simp split: sum.splits)
    qed
  qed
qed


lemma send_queue_broken:
  assumes "broken os t" and "ms \<noteq> []" and "[] \<notin> set ms"
  shows "send_queue os ms t = Some (Inl (RuntimeError ''Connection closed''), t\<lparr>tcp_sends := tcp_sends t + 1\<rparr>)"
  using assms by (cases ms) (auto simp: trySendMessage_broken)

text \<open>\<open>handed\<close> are the bytes given to the transport so far. As long as the connection is not broken, each of them was taken by the system or
  waits; while bytes wait, the service polls for output; it wakes an idle transport only when nothing waits.\<close>

definition stream_ok :: "tcp_os \<Rightarrow> binary \<Rightarrow> 'addr TcpTransport \<Rightarrow> bool" where
  "stream_ok os handed t \<longleftrightarrow>
     (tcp_written t @ tcp_waiting t = handed \<or> broken os t \<and> (\<exists>rest. tcp_written t @ rest = handed))"

definition poll_ok :: "'addr TcpTransport \<Rightarrow> bool" where
  "poll_ok t \<longleftrightarrow>
     (fst (tcp_state t) = Connected \<and> mQueue (tcp_sendQueue t) \<noteq> [] \<longrightarrow> (\<exists>e. tcp_poll t = Some e \<and> se_direction e = PollBoth)) \<and>
     (\<forall>e. tcp_poll t = Some e \<longrightarrow> se_callback e = OnProcess \<and> (se_until e \<noteq> None \<longrightarrow> se_timeout e \<noteq> None) \<and>
        (se_timeout e \<noteq> None \<longrightarrow> se_direction e = PollIn))"

definition tcp_inv :: "tcp_os \<Rightarrow> binary \<Rightarrow> 'addr TcpTransport \<Rightarrow> bool" where
  "tcp_inv os handed t \<longleftrightarrow> queue_ok t \<and> stream_ok os handed t \<and> poll_ok t"

lemma tcp_trySendQueue_inv:
  assumes "os_ok os" and "tcp_inv os H t"
  shows "\<exists>r t'. tcp_trySendQueue os t = Some (r, t') \<and> same_link t t' \<and> tcp_inv os H t' \<and>
    (case r of Inl e \<Rightarrow> broken os t' | Inr flushed \<Rightarrow> (flushed \<longleftrightarrow> mQueue (tcp_sendQueue t') = []))"
proof -
  have q: "queue_ok t" using assms(2) by (simp add: tcp_inv_def)
  obtain r t' where r: "tcp_trySendQueue os t = Some (r, t')" "same_link t t'" "queue_ok t'"
      "mQueue (tcp_sendQueue t') \<noteq> [] \<longrightarrow> mQueue (tcp_sendQueue t) \<noteq> []"
      "case r of Inl e \<Rightarrow> broken os t' \<and> (\<exists>rest. tcp_written t' @ rest = tcp_written t @ tcp_waiting t)
         | Inr flushed \<Rightarrow> tcp_written t' @ tcp_waiting t' = tcp_written t @ tcp_waiting t \<and> (flushed \<longleftrightarrow> mQueue (tcp_sendQueue t') = [])"
    using send_queue_spec [OF assms(1) refl q] unfolding tcp_trySendQueue_def tcp_waiting_def by blast
  have "poll_ok t'" using assms(2) r(2,4) by (auto simp: tcp_inv_def poll_ok_def same_link_def)
  moreover have "stream_ok os H t'"
  proof (cases "tcp_written t @ tcp_waiting t = H")
    case True
    then show ?thesis using r(5) by (auto simp: stream_ok_def split: sum.splits)
  next
    case False
    then have b: "broken os t" "\<exists>rest. tcp_written t @ rest = H" using assms(2) by (auto simp: tcp_inv_def stream_ok_def)
    show ?thesis
    proof (cases "mQueue (tcp_sendQueue t) = []")
      case True
      then have "t' = t" using r(1) by (simp add: tcp_trySendQueue_def)
      then show ?thesis using b by (simp add: stream_ok_def)
    next
      case nonempty: False
      then have "t' = t\<lparr>tcp_sends := tcp_sends t + 1\<rparr>"
        using r(1) send_queue_broken [OF b(1) nonempty] q by (simp add: tcp_trySendQueue_def queue_ok_def)
      then show ?thesis using b by (simp add: stream_ok_def broken_def)
    qed
  qed
  ultimately show ?thesis using r(1,2,3,5) by (intro exI [of _ r] exI [of _ t']) (auto simp: tcp_inv_def split: sum.splits)
qed

lemma tcp_enqueue_inv:
  assumes "tcp_inv os H t" and "m \<noteq> []"
    and "tcp_written t @ tcp_waiting t = H \<or> broken os t"
  shows "tcp_inv os (H @ m) (tcp_enqueue now m t)" and "tcp_state (tcp_enqueue now m t) = tcp_state t"
    and "tcp_received (tcp_enqueue now m t) = tcp_received t"
proof -
  let ?q = "(tcp_sendQueue t)\<lparr>mAmount := mAmount (tcp_sendQueue t) + mAmountFunction (tcp_sendQueue t) m, mQueue := mQueue (tcp_sendQueue t) @ [m]\<rparr>"
  have q: "Queue_push m (tcp_sendQueue t) = Some ?q" "queue_ok t"
    using assms(1) by (auto simp: Queue_push_def tcp_inv_def queue_ok_def)
  let ?u = "tcp_enqueue now m t"
  have "queue_ok ?u" using q assms(2)
    by (auto simp: tcp_enqueue_def queue_ok_def tcp_waiting_def tcp_ops Let_def nat_add_distrib)
  moreover have w: "tcp_written ?u = tcp_written t" "tcp_waiting ?u = tcp_waiting t @ m" "tcp_sends ?u = tcp_sends t"
    using q(1) by (simp_all add: tcp_enqueue_def) (simp_all add: tcp_waiting_def tcp_ops Let_def)
  then have "stream_ok os (H @ m) ?u"
    using assms(1,3) by (auto simp: tcp_inv_def stream_ok_def broken_def)
  moreover have "poll_ok ?u" using q(1) by (simp add: tcp_enqueue_def poll_ok_def setPoll_def new_entry_def)
  ultimately show "tcp_inv os (H @ m) ?u" by (simp add: tcp_inv_def)
  show "tcp_state ?u = tcp_state t" "tcp_received ?u = tcp_received t"
    using q(1) by (simp_all add: tcp_enqueue_def tcp_ops Let_def tcp_received_def)
qed


lemma tcp_send_inv:
  assumes "os_ok os" and "tcp_inv os H t" and "fst (tcp_state t) = Connected"
  shows "\<exists>r t'. TcpTransport_send os now (Some m) t = Some (r, t') \<and> tcp_inv os (H @ m) t' \<and> tcp_state t' = tcp_state t \<and>
    tcp_received t' = tcp_received t"
proof -
  obtain r1 t1 where 1: "tcp_trySendQueue os t = Some (r1, t1)" "same_link t t1" "tcp_inv os H t1"
      "case r1 of Inl e \<Rightarrow> broken os t1 | Inr flushed \<Rightarrow> (flushed \<longleftrightarrow> mQueue (tcp_sendQueue t1) = [])"
    using tcp_trySendQueue_inv [OF assms(1,2)] by blast
  have t1: "tcp_state t1 = tcp_state t" "tcp_received t1 = tcp_received t" using 1(2) by (simp_all add: same_link_def)
  show ?thesis
  proof (cases "m = [] \<or> r1 \<noteq> Inr True")
    case True
    have b: "tcp_inv os (H @ m) t1" if "broken os t1" using that 1(3) by (auto simp: tcp_inv_def stream_ok_def)
    have enq: "tcp_inv os (H @ m) (tcp_enqueue now m t1)" "tcp_state (tcp_enqueue now m t1) = tcp_state t1"
      "tcp_received (tcp_enqueue now m t1) = tcp_received t1" if "m \<noteq> []"
      using tcp_enqueue_inv [OF 1(3) that] 1(3) by (auto simp: tcp_inv_def stream_ok_def)
    show ?thesis using True 1 t1 b enq assms(3)
      by (cases "m = []"; cases r1) (auto simp: TcpTransport_send_def tcp_outgoing_def split: bool.splits)
  next
    case False
    then have r1: "m \<noteq> []" "r1 = Inr True" and q: "mQueue (tcp_sendQueue t1) = []" using 1(4) by auto
    then have w: "tcp_waiting t1 = []" by (simp add: tcp_waiting_def)
    obtain r2 t2 where 2: "tcp_trySendMessage os m t1 = Some (r2, t2)" "same_link t1 t2" "tcp_sendQueue t2 = tcp_sendQueue t1"
        "tcp_bufferedAmount t2 = tcp_bufferedAmount t1"
        "case r2 of Inl e \<Rightarrow> broken os t2 \<and> (\<exists>rest. tcp_written t2 @ rest = tcp_written t1 @ m)
           | Inr (sent, rest) \<Rightarrow> tcp_written t2 @ rest = tcp_written t1 @ m \<and> (sent \<longleftrightarrow> rest = [])"
      using trySendMessage_spec [OF assms(1), of m t1] by blast
    have t2: "tcp_state t2 = tcp_state t" "tcp_received t2 = tcp_received t" "queue_ok t2" "poll_ok t2" "tcp_waiting t2 = []"
      using 2(2-4) 1(3) t1 w by (simp_all add: same_link_def tcp_inv_def queue_ok_def poll_ok_def tcp_waiting_def)
    have send: "TcpTransport_send os now (Some m) t =
        (case r2 of Inl e \<Rightarrow> Some (Inl e, t2)
           | Inr (sent, rest) \<Rightarrow> if sent then Some (Inr True, t2) else Some (Inr False, tcp_enqueue now rest t2))"
      using 1(1) 2(1) r1 assms(3) by (simp add: TcpTransport_send_def tcp_outgoing_def)
    show ?thesis
    proof (cases "tcp_written t1 = H")
      case True
      show ?thesis
      proof (cases r2)
        case (Inl e)
        then show ?thesis using send t2 2(5) True by (auto simp: tcp_inv_def stream_ok_def)
      next
        case (Inr x)
        then obtain sent rest where x: "r2 = Inr (sent, rest)" "tcp_written t2 @ rest = H @ m" "sent \<longleftrightarrow> rest = []"
          using 2(5) True by (cases x) auto
        have inv: "tcp_inv os (tcp_written t2) t2" using t2 by (simp add: tcp_inv_def stream_ok_def)
        show ?thesis
        proof (cases sent)
          case True
          then show ?thesis using send x inv t2 by simp
        next
          case False
          then have "rest \<noteq> []" using x(3) by simp
          from tcp_enqueue_inv [OF inv this] t2 x(2) show ?thesis using send x(1) False by simp
        qed
      qed
    next
      case False
      then have b: "broken os t1" "\<exists>rest. tcp_written t1 @ rest = H" using 1(3) w by (auto simp: tcp_inv_def stream_ok_def)
      then have "r2 = Inl (RuntimeError ''Connection closed'')" "t2 = t1\<lparr>tcp_sends := tcp_sends t1 + 1\<rparr>"
        using trySendMessage_broken [OF b(1) r1(1)] 2(1) by simp_all
      moreover from this have "broken os t2" "\<exists>rest. tcp_written t2 @ rest = H @ m" using b by (auto simp: broken_def)
      ultimately show ?thesis using send t2 by (simp add: tcp_inv_def stream_ok_def)
    qed
  qed
qed

lemma tcp_disconnect_inv:
  "queue_ok t \<Longrightarrow> stream_ok os H t \<Longrightarrow> tcp_inv os H (tcp_disconnect t)"
  by (simp add: tcp_inv_def tcp_disconnect_def queue_ok_def stream_ok_def poll_ok_def broken_def tcp_waiting_def)
    (simp add: tcp_ops)

lemma setPoll_inv:
  "queue_ok t \<Longrightarrow> stream_ok os H t \<Longrightarrow> fst (tcp_state t) \<noteq> Connected \<or> mQueue (tcp_sendQueue t) = [] \<Longrightarrow> tcp_inv os H (setPoll now PollIn t)"
  by (auto simp: tcp_inv_def setPoll_def queue_ok_def stream_ok_def poll_ok_def broken_def tcp_waiting_def tcp_written_def new_entry_def)


lemma tcp_process_inv:
  assumes "os_ok os" and "queue_ok t" and "stream_ok os H t"
    and "event = EvError \<or> event = EvTimeout \<and> (fst (tcp_state t) \<noteq> Connected \<or> mQueue (tcp_sendQueue t) = []) \<or> poll_ok t \<and> (event = EvIn \<or> event = EvOut)"
  shows "\<exists>t'. tcp_process os now event reads t = Some t' \<and> tcp_inv os H t' \<and>
    (tcp_state t' \<noteq> tcp_state t \<longrightarrow> fst (tcp_state t') = Disconnected)"
proof -
  have recv: "queue_ok (fold (\<lambda>d. tcp_emit (TcpRecv (Some d))) ds t) = queue_ok t" "stream_ok os H (fold (\<lambda>d. tcp_emit (TcpRecv (Some d))) ds t) = stream_ok os H t"
    "poll_ok (fold (\<lambda>d. tcp_emit (TcpRecv (Some d))) ds t) = poll_ok t" "tcp_state (fold (\<lambda>d. tcp_emit (TcpRecv (Some d))) ds t) = tcp_state t" for ds
    by (induction ds arbitrary: t) (simp_all add: queue_ok_def stream_ok_def poll_ok_def broken_def tcp_waiting_def, simp_all add: tcp_emit_def)
  have dis: "fst (tcp_state (tcp_disconnect u)) = Disconnected" for u :: "'a TcpTransport" by (simp add: tcp_disconnect_def tcp_ops)
  consider (error) "event = EvError" | (timeout) "event = EvTimeout" "fst (tcp_state t) \<noteq> Connected \<or> mQueue (tcp_sendQueue t) = []"
    | (input) "poll_ok t" "event = EvIn" | (out) "poll_ok t" "event = EvOut" using assms(4) by blast
  then show ?thesis
  proof cases
    case error
    then show ?thesis using tcp_disconnect_inv [OF assms(2,3)] by (simp add: tcp_process_def dis)
  next
    case timeout
    have "queue_ok (tcp_emit (TcpRecv (Some [])) t)" "stream_ok os H (tcp_emit (TcpRecv (Some [])) t)"
      using recv [of "[[]]"] assms(2,3) by simp_all
    from setPoll_inv [OF this] timeout show ?thesis by (simp add: tcp_process_def) (simp add: tcp_ops)
  next
    case input
    then show ?thesis using recv assms(2,3) tcp_disconnect_inv [of "fold (\<lambda>d. tcp_emit (TcpRecv (Some d))) (fst reads) t" os H]
      by (auto simp: tcp_process_def tcp_inv_def dis Let_def)
  next
    case out
    then have "tcp_inv os H t" using assms by (simp add: tcp_inv_def)
    from tcp_trySendQueue_inv [OF assms(1) this] obtain r t' where r: "tcp_trySendQueue os t = Some (r, t')" "same_link t t'" "tcp_inv os H t'"
        "case r of Inl e \<Rightarrow> broken os t' | Inr flushed \<Rightarrow> (flushed \<longleftrightarrow> mQueue (tcp_sendQueue t') = [])" by blast
    have t': "queue_ok t'" "stream_ok os H t'" "tcp_state t' = tcp_state t" using r(2,3) by (simp_all add: tcp_inv_def same_link_def)
    show ?thesis using out r t' tcp_disconnect_inv [OF t'(1,2)] setPoll_inv [OF t'(1,2), of now]
      by (auto simp: tcp_process_def dis setPoll_def split: sum.splits)
  qed
qed

lemma poll_round_inv:
  assumes "os_ok os" and "tcp_inv os H t"
  shows "\<exists>t'. tcp_poll_round os now pfd err reads t = Some t' \<and> tcp_inv os H t' \<and> (fst (tcp_state t') = Connected \<longrightarrow> fst (tcp_state t) = Connected)"
proof (cases "tcp_poll t")
  case None
  then show ?thesis using assms(2) by (simp add: tcp_poll_round_def)
next
  case (Some e)
  have t: "queue_ok t" "stream_ok os H t" "poll_ok t" using assms(2) by (simp_all add: tcp_inv_def)
  then have e: "se_callback e = OnProcess" "se_until e \<noteq> None \<longrightarrow> se_direction e = PollIn"
    "fst (tcp_state t) = Connected \<and> mQueue (tcp_sendQueue t) \<noteq> [] \<longrightarrow> se_direction e = PollBoth" using Some by (auto simp: poll_ok_def)
  have upd: "queue_ok (t\<lparr>tcp_poll := p\<rparr>)" "stream_ok os H (t\<lparr>tcp_poll := p\<rparr>)" for p
    using t by (simp_all add: queue_ok_def stream_ok_def broken_def tcp_waiting_def)
  let ?e = "e\<lparr>se_until := map_option ((+) now) (se_timeout e)\<rparr>"
  have pe: "poll_ok (t\<lparr>tcp_poll := Some ?e\<rparr>)" using t(3) Some by (auto simp: poll_ok_def)
  obtain calls e' where p: "poll_entry now pfd e = (calls, e')" by fastforce
  then consider (error) "calls = [(OnProcess, EvError)]" | (timeout) "calls = [(OnProcess, EvTimeout)]" "se_until e \<noteq> None"
    | (io) "calls \<in> {[(OnProcess, EvIn)], [(OnProcess, EvOut)], [(OnProcess, EvIn), (OnProcess, EvOut)]}" "e' = Some ?e"
    | (none) "calls = []" "e' = Some e"
    using e(1) by (auto simp: poll_entry_def split: if_splits option.splits)
  then show ?thesis
  proof cases
    case error
    then show ?thesis using Some p tcp_process_inv [OF assms(1) upd, of EvError e' now reads] by (fastforce simp: tcp_poll_round_def)
  next
    case timeout
    then have "fst (tcp_state t) \<noteq> Connected \<or> mQueue (tcp_sendQueue t) = []" using e by auto
    then show ?thesis using timeout Some p tcp_process_inv [OF assms(1) upd, of EvTimeout e' now reads] by (fastforce simp: tcp_poll_round_def)
  next
    case io
    have step: "\<exists>u'. tcp_process os now ev reads u = Some u' \<and> tcp_inv os H u' \<and> (fst (tcp_state u') = Connected \<longrightarrow> fst (tcp_state u) = Connected)" if "tcp_inv os H u" "ev = EvIn \<or> ev = EvOut" for u :: "'a TcpTransport" and ev
      using tcp_process_inv [OF assms(1), of u H ev now reads] that by (fastforce simp: tcp_inv_def)
    have inv: "tcp_inv os H (t\<lparr>tcp_poll := Some ?e\<rparr>)" using upd pe by (simp add: tcp_inv_def)
    obtain u where u: "tcp_process os now EvIn reads (t\<lparr>tcp_poll := Some ?e\<rparr>) = Some u" "tcp_inv os H u" "fst (tcp_state u) = Connected \<longrightarrow> fst (tcp_state t) = Connected" using step [OF inv, of EvIn] by auto
    obtain v where v: "tcp_process os now EvOut reads u = Some v" "tcp_inv os H v" "fst (tcp_state v) = Connected \<longrightarrow> fst (tcp_state u) = Connected" using step [OF u(2), of EvOut] by blast
    obtain w where "tcp_process os now EvOut reads (t\<lparr>tcp_poll := Some ?e\<rparr>) = Some w" "tcp_inv os H w" "fst (tcp_state w) = Connected \<longrightarrow> fst (tcp_state t) = Connected" using step [OF inv, of EvOut] by auto
    with u v show ?thesis using io Some p by (auto simp: tcp_poll_round_def)
  next
    case none
    have "tcp_inv os H (t\<lparr>tcp_poll := Some e\<rparr>)" using upd t(3) Some by (simp add: tcp_inv_def poll_ok_def)
    then show ?thesis using none Some p assms(2) by (simp add: tcp_poll_round_def)
  qed
qed

section \<open>Histories of calls\<close>

datatype tcp_call = CallSend nat binary | CallPoll nat pollfd "binary list \<times> read_end"

text \<open>The second component are the bytes that \<open>send\<close> was given while the connection was open.\<close>

fun tcp_run :: "tcp_os \<Rightarrow> tcp_call list \<Rightarrow> 'addr TcpTransport \<times> binary \<Rightarrow> ('addr TcpTransport \<times> binary) option" where
  "tcp_run os [] s = Some s"
| "tcp_run os (CallSend now m # cs) (t, H) =
     Option.bind (TcpTransport_send os now (Some m) t) (\<lambda>(r, t').
       tcp_run os cs (t', if fst (tcp_state t) = Connected then H @ m else H))"
| "tcp_run os (CallPoll now pfd reads # cs) (t, H) =
     Option.bind (tcp_poll_round os now pfd None reads t) (\<lambda>t'. tcp_run os cs (t', H))"

lemma tcp_run_inv:
  "os_ok os \<Longrightarrow> tcp_inv os H t \<Longrightarrow> \<exists>t' H'. tcp_run os cs (t, H) = Some (t', H') \<and> tcp_inv os H' t'"
proof (induction cs arbitrary: t H)
  case (Cons c cs)
  show ?case
  proof (cases c)
    case (CallSend now m)
    then show ?thesis using Cons tcp_send_inv [OF Cons.prems, of now m]
      by (cases "fst (tcp_state t) = Connected") (auto simp: TcpTransport_send_def)
  next
    case (CallPoll now pfd reads)
    then show ?thesis using Cons.IH [OF Cons.prems(1)] poll_round_inv [OF Cons.prems, of now pfd None reads] by auto
  qed
qed simp


text \<open>A connection that was just established, and the two ways to get there.\<close>

definition tcp_fresh :: "'addr TcpTransport \<Rightarrow> bool" where
  "tcp_fresh t \<longleftrightarrow> fst (tcp_state t) = Connected \<and> tcp_sendQueue t = Queue_init 0 None \<and> tcp_bufferedAmount t = 0 \<and>
     tcp_written t = [] \<and> tcp_received t = [] \<and> (\<exists>now. tcp_poll t = Some (new_entry now PollIn (tcp_readTimeout t) OnProcess))"

definition tcp_unused :: "'addr TcpTransport \<Rightarrow> bool" where
  "tcp_unused t \<longleftrightarrow> tcp_sendQueue t = Queue_init 0 None \<and> tcp_bufferedAmount t = 0 \<and> tcp_written t = [] \<and> tcp_received t = []"

lemma accepted_is_fresh:
  assumes "TcpTransport_passive sock True True (Some name) = Inr t"
  shows "tcp_fresh (snd (TcpTransport_start now t))"
  using assms by (cases name)
    (auto simp: tcp_fresh_def TcpTransport_passive_def TcpTransport_start_def TcpTransport_active_def tcp_ops tcp_written_def tcp_received_def)

lemma connecting_keeps_unused:
  "tcp_unused t \<Longrightarrow> tcp_unused (tcp_attempt now create t)" "tcp_unused t \<Longrightarrow> tcp_unused (on_connect now ev err t)"
  "tcp_unused t \<Longrightarrow> tcp_unused (tcp_resolve as t)" "tcp_unused t \<Longrightarrow> tcp_unused (snd (tcp_connect t))"
  by (auto simp: tcp_unused_def tcp_attempt_def on_connect_def tcp_resolve_def tcp_connect_def createSocket_def tcp_ops tcp_written_def tcp_received_def Let_def
      split: list.splits create_result.splits option.splits)

lemma connected_is_fresh:
  "tcp_unused t \<Longrightarrow> tcp_fresh (on_connect now EvOut (Some 0) t)"
  by (auto simp: tcp_unused_def tcp_fresh_def on_connect_def tcp_ops tcp_written_def tcp_received_def)

lemma fresh_inv: "tcp_fresh t \<Longrightarrow> tcp_inv os [] t"
  by (auto simp: tcp_fresh_def tcp_inv_def queue_ok_def stream_ok_def poll_ok_def tcp_waiting_def Queue_init_def new_entry_def split: option.splits)


text \<open>A socket that takes two bytes of a send and blocks at every third call.\<close>

definition slow_os :: tcp_os where
  "slow_os i n = (if i mod 3 = 2 then SendAgain else SendLen (min n 2))"

lemma slow_os_ok: "os_ok slow_os" and slow_os_not_broken: "\<not> broken slow_os t"
proof -
  show "os_ok slow_os" by (simp add: os_ok_def slow_os_def)
  have "slow_os (3 * Suc (tcp_sends t)) 1 \<noteq> SendError" by (simp add: slow_os_def)
  then show "\<not> broken slow_os t" unfolding broken_def by (metis le_add2 le_add1 mult_Suc mult_Suc_right order_trans le_SucI numeral_3_eq_3)
qed

definition accepted_example :: "nat TcpTransport" where
  "accepted_example = setPoll 0 PollIn (tcp_set_state Connected ((TcpTransport_active ''h'' ''80'')\<lparr>tcp_isActive := False, tcp_sock := Some 3\<rparr>))"

lemma accepted_example_fresh: "tcp_fresh accepted_example"
  using accepted_is_fresh [of 3 "(''h'', ''80'')" _ 0]
  by (simp add: TcpTransport_passive_def accepted_example_def TcpTransport_start_def)



section \<open>WebSockets over TCP\<close>

definition sends_of :: "tcp_call list \<Rightarrow> binary list" where
  "sends_of calls = concat (map (\<lambda>c. case c of CallSend now m \<Rightarrow> [m] | _ \<Rightarrow> []) calls)"

text \<open>A round in which the socket has data, all of which is read.\<close>

definition reading_round :: "tcp_call \<Rightarrow> bool" where
  "reading_round c \<longleftrightarrow>
     (case c of
        CallSend now m \<Rightarrow> False
      | CallPoll now pfd reads \<Rightarrow>
          pfd_in pfd \<and> \<not> pfd_out pfd \<and> \<not> pfd_err pfd \<and> \<not> pfd_hup pfd \<and> \<not> pfd_nval pfd \<and> snd reads = ReadAgain)"

definition reads_of :: "tcp_call list \<Rightarrow> binary list" where
  "reads_of calls = concat (map (\<lambda>c. case c of CallPoll now pfd reads \<Rightarrow> fst reads | _ \<Rightarrow> []) calls)"

lemma tcp_run_handed:
  assumes "os_ok os" and "tcp_inv os H t" and "tcp_run os calls (t, H) = Some (t', H')" and "fst (tcp_state t') = Connected"
  shows "fst (tcp_state t) = Connected \<and> H' = H @ concat (sends_of calls)"
  using assms(2-)
proof (induction calls arbitrary: t H)
  case Nil
  then show ?case by (simp add: sends_of_def)
next
  case (Cons c cs)
  show ?case
  proof (cases c)
    case (CallSend now m)
    show ?thesis
    proof (cases "fst (tcp_state t) = Connected")
      case True
      then obtain r u where u: "TcpTransport_send os now (Some m) t = Some (r, u)" "tcp_inv os (H @ m) u" "tcp_state u = tcp_state t"
        using tcp_send_inv [OF assms(1) Cons.prems(1)] by blast
      then show ?thesis using Cons.IH [OF u(2)] Cons.prems CallSend True by (simp add: sends_of_def)
    next
      case False
      then show ?thesis using Cons.IH [OF Cons.prems(1)] Cons.prems CallSend by (simp add: TcpTransport_send_def)
    qed
  next
    case (CallPoll now pfd reads)
    then obtain u where u: "tcp_poll_round os now pfd None reads t = Some u" "tcp_inv os H u" "tcp_run os cs (u, H) = Some (t', H')"
        "fst (tcp_state u) = Connected \<longrightarrow> fst (tcp_state t) = Connected"
      using poll_round_inv [OF assms(1) Cons.prems(1), of now pfd None reads] Cons.prems(2) by auto
    have "fst (tcp_state u) = Connected \<and> H' = H @ concat (sends_of cs)" using Cons.IH [OF u(2,3)] Cons.prems(3) by simp
    then show ?thesis using u(4) CallPoll by (simp add: sends_of_def)
  qed
qed

lemma reading_rounds:
  assumes "\<forall>c \<in> set rounds. reading_round c" and "tcp_poll t = Some e" and "se_callback e = OnProcess"
  shows "\<exists>t'. tcp_run os rounds (t, H) = Some (t', H) \<and> tcp_received t' = tcp_received t @ map Some (reads_of rounds)"
  using assms
proof (induction rounds arbitrary: t e)
  case Nil
  then show ?case by (simp add: reads_of_def)
next
  case (Cons c cs)
  then obtain now pfd reads where c: "c = CallPoll now pfd reads" by (cases c) (simp_all add: reading_round_def)
  let ?e = "e\<lparr>se_until := map_option ((+) now) (se_timeout e)\<rparr>"
  let ?u = "fold (\<lambda>d. tcp_emit (TcpRecv (Some d))) (fst reads) (t\<lparr>tcp_poll := Some ?e\<rparr>)"
  have recv: "tcp_received (fold (\<lambda>d. tcp_emit (TcpRecv (Some d))) ds s) = tcp_received s @ map Some ds"
    "tcp_poll (fold (\<lambda>d. tcp_emit (TcpRecv (Some d))) ds s) = tcp_poll s" for ds and s :: "'a TcpTransport"
    by (induction ds arbitrary: s) (simp_all add: tcp_emit_def tcp_received_def)
  have "tcp_poll_round os now pfd None reads t = Some ?u"
    using Cons.prems c by (simp add: tcp_poll_round_def poll_entry_def reading_round_def tcp_process_def Let_def)
  moreover obtain t' where "tcp_run os cs (?u, H) = Some (t', H)" "tcp_received t' = tcp_received ?u @ map Some (reads_of cs)"
    using Cons.IH [of ?u ?e] Cons.prems by (auto simp: recv)
  moreover have "tcp_received ?u = tcp_received t @ map Some (fst reads)" by (simp add: recv) (simp add: tcp_received_def)
  ultimately show ?case using c by (simp add: reads_of_def)
qed

definition ws_outs :: "ws_event list \<Rightarrow> binary list" where
  "ws_outs es = concat (map (\<lambda>e. case e of WsOut d \<Rightarrow> [d] | _ \<Rightarrow> []) es)"

lemma concat_ws_outs: "concat (ws_outs es) = wire_bytes es"
  by (induction es) (simp_all add: ws_outs_def wire_bytes_def split: ws_event.splits)

text \<open>What a WebSocket transport does with what the transport below received.\<close>

definition ws_feed :: "handshake \<Rightarrow> binary option list \<Rightarrow> WsTransport \<Rightarrow> WsTransport" where
  "ws_feed hs ds w = fold (WsTransport_incoming hs) ds w"


lemma trySendMessage_all:
  "tcp_trySendMessage (\<lambda>i n. SendLen n) m t = Some (Inr (True, []), if m = [] then t else tcp_emit (TcpBytes m) (t\<lparr>tcp_sends := tcp_sends t + 1\<rparr>))"
  by (simp add: tcp_trySendMessage.simps)


section \<open>Connecting to one of several addresses\<close>

text \<open>Addresses that refuse at once are skipped in order; the first that does not is connected to, and when all refuse, the transport fails.\<close>

definition refuses :: "create_result \<Rightarrow> bool" where
  "refuses r \<longleftrightarrow> (case r of InProgress s \<Rightarrow> False | _ \<Rightarrow> True)"

lemma attempts_skip:
  "fst (tcp_state t) = Connecting \<Longrightarrow> tcp_resolved t = pre @ as \<Longrightarrow> \<forall>a \<in> set pre. refuses (create a) \<Longrightarrow>
     \<exists>t'. (tcp_attempt now create ^^ length pre) t = t' \<and> fst (tcp_state t') = Connecting \<and> tcp_resolved t' = as"
proof (induction pre arbitrary: t)
  case (Cons a pre)
  have "fst (tcp_state (tcp_attempt now create t)) = Connecting" "tcp_resolved (tcp_attempt now create t) = pre @ as"
    using Cons.prems by (auto simp: tcp_attempt_def createSocket_def refuses_def tcp_ops Let_def split: create_result.splits)
  from Cons.IH [OF this] Cons.prems(3) show ?case by (simp add: funpow_Suc_right del: funpow.simps)
qed simp

lemma attempts_connect:
  assumes "fst (tcp_state t) = Connecting" and "tcp_resolved t = pre @ a # post" and "\<forall>b \<in> set pre. refuses (create b)" and "create a = InProgress s"
    and "t' = (tcp_attempt now create ^^ Suc (length pre)) t"
  shows "tcp_sock t' = Some s \<and> tcp_resolved t' = post \<and> map_option se_callback (tcp_poll t') = Some OnConnect"
  using attempts_skip [OF assms(1-3), of now] assms(4)
  by (auto simp: assms(5) tcp_attempt_def createSocket_def new_entry_def tcp_emit_def Let_def)

lemma attempts_fail:
  assumes "fst (tcp_state t) = Connecting" and "\<forall>b \<in> set (tcp_resolved t). refuses (create b)"
  shows "fst (tcp_state ((tcp_attempt now create ^^ Suc (length (tcp_resolved t))) t)) = Failed"
  using attempts_skip [OF assms(1), of "tcp_resolved t" "[]" create now] assms(2)
  by (auto simp: tcp_attempt_def tcp_ops Let_def)

text \<open>
  A socket that is left behind. When the connection to one address fails or times out while it is in progress, the next attempt does not close the
  socket of the failed one: the test before the call of closesocket is inverted. The transport forgets this socket and, when
  it is closed in the end, closes only the last one.
\<close>

theorem failed_attempt_leaks_socket:
  assumes "fst (tcp_state t) = Connecting" and "tcp_sock t = Some s" and "tcp_resolved t = a # rest" and "create a = InProgress s'" and "s' \<noteq> s"
    and "event = EvError \<or> event = EvTimeout" and "TcpCloseSocket (Some s) \<notin> set (tcp_events t)"
  shows "let t' = tcp_attempt now create (on_connect now event err t); t'' = tcp_close t'
    in tcp_sock t' = Some s' \<and> tcp_sock t'' = None \<and> TcpCloseSocket (Some s') \<in> set (tcp_events t'') \<and> TcpCloseSocket (Some s) \<notin> set (tcp_events t'')"
  using assms by (auto simp: tcp_attempt_def on_connect_def createSocket_def tcp_close_def tcp_ops Let_def)

theorem failed_attempt_leaks_socket_witness:
  "let t = tcp_attempt 0 (\<lambda>a. InProgress a) (tcp_resolve (Some [5, 6]) (snd (tcp_connect (TcpTransport_active ''h'' ''80''))));
       t' = tcp_close (tcp_attempt 9 (\<lambda>a. InProgress a) (on_connect 9 EvTimeout None t))
   in tcp_sock t = Some 5 \<and> tcp_sock t' = None \<and> TcpCloseSocket (Some 5) \<notin> set (tcp_events t')"
proof -
  let ?t = "tcp_attempt 0 (\<lambda>a. InProgress a) (tcp_resolve (Some [5, 6]) (snd (tcp_connect (TcpTransport_active ''h'' ''80''))))"
  have "fst (tcp_state ?t) = Connecting" "tcp_sock ?t = Some 5" "tcp_resolved ?t = [6]" "TcpCloseSocket (Some 5) \<notin> set (tcp_events ?t)"
    by (simp_all add: tcp_attempt_def tcp_resolve_def tcp_connect_def TcpTransport_active_def createSocket_def tcp_ops changeState_def Let_def)
  then show ?thesis
    using failed_attempt_leaks_socket [of ?t 5 6 "[]" "\<lambda>a. InProgress a" 6 EvTimeout 9 None] by (simp add: Let_def)
qed

text \<open>The callback for input and the one for output are both called when both are reported, also when the first has closed the connection: the second one then
  registers the closed connection again.\<close>

lemma poll_registers_closed_connection:
  assumes "fst (tcp_state t) = Connected" and "tcp_poll t = Some e" and "se_callback e = OnProcess" and "pfd_in pfd" and "pfd_out pfd" and "\<not> pfd_err pfd" and "\<not> pfd_nval pfd"
    and "pfd_events_in pfd" and "mQueue (tcp_sendQueue t) = []"
  shows "\<exists>t' e'. tcp_poll_round os now pfd err ([], ReadClosed) t = Some t' \<and> fst (tcp_state t') = Disconnected \<and>
    TcpRecv None \<in> set (tcp_events t') \<and> tcp_poll t' = Some e' \<and> se_direction e' = PollIn"
  using assms by (simp add: tcp_poll_round_def poll_entry_def tcp_process_def tcp_disconnect_def tcp_trySendQueue_def tcp_ops new_entry_def Let_def)

end
