(* ===== verification/WebSocketApi.thy ===== *)
theory WebSocketApi
  imports Urls Proxy Tcp DataChannels
begin

text \<open>
  The WebSocket of the user and the server that accepts connections: \<open>src/impl/websocket.cpp\<close>, \<open>src/websocket.cpp\<close>, \<open>src/impl/websocketserver.cpp\<close>. A WebSocket builds a stack of
  transports: TCP, a tunnel through a proxy when one is configured, TLS for a secure URL, and the WebSocket transport on top; each is started by the state
  callback of the one below. The tunnel and the WebSocket transport are those of the theories \<open>Proxy\<close> and \<open>WebSockets\<close>; of TCP and TLS only the presence
  and the side (client or not) are kept, and their state callbacks are calls of the model. What the calls into the system and the TLS library give is the argument \<open>ws_env\<close>.
  Callbacks of the user, started transports and scheduled timers are appended to the trace \<open>wk_events\<close>.
\<close>

datatype WsState = WsConnecting | WsOpen | WsClosing | WsClosed

record WebSocketConfiguration =
  wc_disableTlsVerification :: bool
  wc_proxyServer :: "ProxyServer option"
  wc_protocols :: "string list"
  wc_connectionTimeout :: "int option"
  wc_pingInterval :: "int option"
  wc_maxOutstandingPings :: "int option"
  wc_certificatePemFile :: "string option"
  wc_keyPemFile :: "string option"
  wc_maxMessageSize :: "nat option"

definition WebSocketConfiguration_default :: WebSocketConfiguration where
  "WebSocketConfiguration_default =
     \<lparr>wc_disableTlsVerification = False, wc_proxyServer = None, wc_protocols = [], wc_connectionTimeout = None, wc_pingInterval = None,
      wc_maxOutstandingPings = None, wc_certificatePemFile = None, wc_keyPemFile = None, wc_maxMessageSize = None\<rparr>"

datatype api_event =
    ApConnecting
  | ApOpen
  | ApClosed
  | ApError string
  | ApAvailable nat
  | ApStartTcp string string
  | ApReadTimeout int
  | ApTimeout int
  | ApStartProxy string string
  | ApStartTls bool
  | ApStartWs WsHandshake
  | ApTearDown bool bool bool

record WebSocket =
  wk_config :: WebSocketConfiguration
  wk_secure :: bool
  wk_hostname :: "string option"
  wk_service :: "string option"
  wk_handshake :: "WsHandshake option"
  wk_state :: WsState
  wk_tcp :: "bool option"
  wk_proxy :: "HttpProxyTransport option"
  wk_tls :: "bool option"
  wk_ws :: "WsTransport option"
  wk_recvQueue :: "Message Queue"
  wk_events :: "api_event list"

record ws_env =
  we_lower :: bool
  we_tls :: bool
  we_sha1 :: "string \<Rightarrow> binary"
  we_random :: binary
  we_mask :: "nat \<Rightarrow> u8"
  we_uninitialised :: u8

definition ap_emit :: "api_event \<Rightarrow> WebSocket \<Rightarrow> WebSocket" where
  "ap_emit e w = w\<lparr>wk_events := wk_events w @ [e]\<rparr>"

text \<open>\<open>certificate\<close>: whether a certificate was given; \<open>loaded\<close> is what reading the PEM files gives.\<close>

definition WebSocket_init :: "WebSocketConfiguration \<Rightarrow> bool \<Rightarrow> unit result \<Rightarrow> WebSocket result" where
  "WebSocket_init config certificate loaded =
     (let cert = (if certificate then Inr True
                  else if wc_certificatePemFile config \<noteq> None \<and> wc_keyPemFile config \<noteq> None then map_sum id (\<lambda>_. True) loaded
                  else if wc_certificatePemFile config \<noteq> None \<or> wc_keyPemFile config \<noteq> None
                  then Inl (InvalidArgument ''Either none or both certificate and key PEM files must be specified'')
                  else Inr False)
      in case cert of
           Inl e \<Rightarrow> Inl e
         | Inr secure \<Rightarrow>
             if \<exists>p. wc_proxyServer config = Some p \<and> ps_type p = Socks5
             then Inl (InvalidArgument ''Proxy server support for WebSocket is not implemented for Socks5'')
             else Inr \<lparr>wk_config = config, wk_secure = secure, wk_hostname = None, wk_service = None, wk_handshake = None, wk_state = WsClosed,
                       wk_tcp = None, wk_proxy = None, wk_tls = None, wk_ws = None,
                       wk_recvQueue = Queue_init RECV_QUEUE_LIMIT (Some message_size_func), wk_events = []\<rparr>)"

section \<open>Closing\<close>

text \<open>The transport of the proxy is not among those that are closed.\<close>

definition closeTransports_ws :: "WebSocket \<Rightarrow> WebSocket" where
  "closeTransports_ws w =
     (if wk_state w = WsClosed then w
      else ap_emit ApClosed (ap_emit (ApTearDown (wk_ws w \<noteq> None) (wk_tls w \<noteq> None) (wk_tcp w \<noteq> None))
             (w\<lparr>wk_state := WsClosed, wk_ws := None, wk_tls := None, wk_tcp := None\<rparr>)))"

text \<open>\<open>close\<close>; in the state Closing, the \<open>remoteClose\<close> that it or the state callback of the transport calls is \<open>closeTransports\<close>.\<close>

definition WebSocket_close :: "WebSocket \<Rightarrow> WebSocket" where
  "WebSocket_close w =
     (if wk_state w = WsConnecting \<or> wk_state w = WsOpen then
        let w = w\<lparr>wk_state := WsClosing\<rparr>
        in case wk_ws w of
             Some t \<Rightarrow>
               let t' = WsTransport_close t; w = w\<lparr>wk_ws := Some t'\<rparr>
               in if fst (ws_state t') = Disconnected \<and> fst (ws_state t) \<noteq> Disconnected then closeTransports_ws w else w
           | None \<Rightarrow> closeTransports_ws w
      else w)"

definition remoteClose_ws :: "WebSocket \<Rightarrow> WebSocket" where
  "remoteClose_ws w = (let w = WebSocket_close w in if wk_state w \<noteq> WsClosed then closeTransports_ws w else w)"

definition triggerError_ws :: "string \<Rightarrow> WebSocket \<Rightarrow> WebSocket" where
  "triggerError_ws what w = ap_emit (ApError what) w"

text \<open>The task that \<open>scheduleConnectionTimeout\<close> schedules.\<close>

definition connection_timeout :: "WebSocket \<Rightarrow> WebSocket" where
  "connection_timeout w =
     (if wk_state w = WsConnecting then remoteClose_ws (triggerError_ws ''Connection timed out'' w) else w)"

section \<open>The stack of transports\<close>

definition init_failed :: "string \<Rightarrow> WebSocket \<Rightarrow> unit result \<times> WebSocket" where
  "init_failed what w = (Inl (RuntimeError what), remoteClose_ws w)"

text \<open>The transport on top; its lower transport, whose side it takes.\<close>

definition ws_lower :: "WebSocket \<Rightarrow> bool option" where
  "ws_lower w =
     (if wk_secure w then wk_tls w else if wc_proxyServer (wk_config w) \<noteq> None then map_option (\<lambda>_. True) (wk_proxy w) else wk_tcp w)"

definition initWsTransport :: "ws_env \<Rightarrow> WebSocket \<Rightarrow> unit result \<times> WebSocket" where
  "initWsTransport env w =
     (if wk_ws w \<noteq> None then (Inr (), w)
      else case ws_lower w of
             None \<Rightarrow> init_failed ''WebSocket transport initialization failed'' w
           | Some client \<Rightarrow>
               let h = (case wk_handshake w of Some h \<Rightarrow> h | None \<Rightarrow> WsHandshake_server);
                   w = w\<lparr>wk_handshake := Some h\<rparr>;
                   t = (WsTransport_init client (wc_maxMessageSize (wk_config w)) (wc_maxOutstandingPings (wk_config w)) (we_uninitialised env) (we_mask env))
                         \<lparr>ws_lowerOpen := we_lower env\<rparr>
               in case WsTransport_start (ws_handshake (we_sha1 env) (we_random env) h) t of
                    (Inl e, t) \<Rightarrow> init_failed ''WebSocket transport initialization failed'' w
                  | (Inr _, t) \<Rightarrow>
                      if wk_state w = WsClosed then (Inr (), w)
                      else (Inr (), ap_emit (ApStartWs h) (w\<lparr>wk_ws := Some t\<rparr>)))"

definition initTlsTransport :: "ws_env \<Rightarrow> WebSocket \<Rightarrow> unit result \<times> WebSocket" where
  "initTlsTransport env w =
     (if wk_tls w \<noteq> None then (Inr (), w)
      else case (if wc_proxyServer (wk_config w) \<noteq> None then map_option (\<lambda>_. True) (wk_proxy w) else wk_tcp w) of
             None \<Rightarrow> init_failed ''TLS transport initialization failed'' w
           | Some client \<Rightarrow>
               if \<not> we_tls env then init_failed ''TLS transport initialization failed'' w
               else if wk_state w = WsClosed then (Inr (), w)
               else (Inr (), ap_emit (ApStartTls (wk_hostname w \<noteq> None \<and> \<not> wc_disableTlsVerification (wk_config w))) (w\<lparr>wk_tls := Some client\<rparr>)))"

definition initProxyTransport :: "ws_env \<Rightarrow> WebSocket \<Rightarrow> unit result \<times> WebSocket" where
  "initProxyTransport env w =
     (if wk_proxy w \<noteq> None then (Inr (), w)
      else case wk_tcp w of
             None \<Rightarrow> init_failed ''Tcp Proxy transport initialization failed'' w
           | Some client \<Rightarrow>
               (case HttpProxyTransport_init client (value_or (wk_hostname w) []) (value_or (wk_service w) []) of
                  Inl e \<Rightarrow> init_failed ''Tcp Proxy transport initialization failed'' w
                | Inr t \<Rightarrow>
                    (case proxy_start (we_lower env) t of
                       (Inl e, t) \<Rightarrow> init_failed ''Tcp Proxy transport initialization failed'' w
                     | (Inr _, t) \<Rightarrow>
                         if wk_state w = WsClosed then (Inr (), w)
                         else (Inr (), ap_emit (ApStartProxy (px_hostname t) (px_service t)) (w\<lparr>wk_proxy := Some t\<rparr>)))))"

text \<open>The state callbacks; what they raise is caught where they are called.\<close>

definition on_tcp_state :: "ws_env \<Rightarrow> State \<Rightarrow> WebSocket \<Rightarrow> WebSocket" where
  "on_tcp_state env s w =
     (case s of
        Connected \<Rightarrow>
          snd (if wc_proxyServer (wk_config w) \<noteq> None then initProxyTransport env w
               else if wk_secure w then initTlsTransport env w else initWsTransport env w)
      | Failed \<Rightarrow> remoteClose_ws (triggerError_ws ''TCP connection failed'' w)
      | Disconnected \<Rightarrow> if wk_state w = WsConnecting then remoteClose_ws w else w
      | _ \<Rightarrow> w)"

definition on_proxy_state :: "ws_env \<Rightarrow> State \<Rightarrow> WebSocket \<Rightarrow> WebSocket" where
  "on_proxy_state env s w =
     (case s of
        Connected \<Rightarrow> snd (if wk_secure w then initTlsTransport env w else initWsTransport env w)
      | Failed \<Rightarrow> remoteClose_ws (triggerError_ws ''Proxy connection failed'' w)
      | Disconnected \<Rightarrow> if wk_state w = WsConnecting then remoteClose_ws w else w
      | _ \<Rightarrow> w)"

definition on_tls_state :: "ws_env \<Rightarrow> State \<Rightarrow> WebSocket \<Rightarrow> WebSocket" where
  "on_tls_state env s w =
     (case s of
        Connected \<Rightarrow> snd (initWsTransport env w)
      | Failed \<Rightarrow> remoteClose_ws (triggerError_ws ''TLS connection failed'' w)
      | Disconnected \<Rightarrow> if wk_state w = WsConnecting then remoteClose_ws w else w
      | _ \<Rightarrow> w)"

definition on_ws_state :: "State \<Rightarrow> WebSocket \<Rightarrow> WebSocket" where
  "on_ws_state s w =
     (case s of
        Connected \<Rightarrow> if wk_state w = WsConnecting then ap_emit ApOpen (w\<lparr>wk_state := WsOpen\<rparr>) else w
      | Failed \<Rightarrow> remoteClose_ws (triggerError_ws ''WebSocket connection failed'' w)
      | Disconnected \<Rightarrow> remoteClose_ws w
      | _ \<Rightarrow> w)"

text \<open>\<open>active\<close>: a transport that connects; one that a server accepted is connected as soon as it is started.\<close>

definition setTcpTransport :: "ws_env \<Rightarrow> bool \<Rightarrow> string \<Rightarrow> string \<Rightarrow> WebSocket \<Rightarrow> unit result \<times> WebSocket" where
  "setTcpTransport env active hostname service w =
     (if wk_tcp w \<noteq> None then init_failed ''TCP transport initialization failed'' w
      else
        let ping = value_or (wc_pingInterval (wk_config w)) 10000;
            w = (if ping > 0 then ap_emit (ApReadTimeout ping) w else w);
            timeout = value_or (wc_connectionTimeout (wk_config w)) 30000;
            w = (if timeout > 0 then ap_emit (ApTimeout timeout) w else w);
            w = ap_emit (ApStartTcp hostname service) (w\<lparr>wk_tcp := Some active\<rparr>);
            w = (if active then w else on_tcp_state env Connected w)
        in (Inr (), if wk_state w = WsClosed then w\<lparr>wk_tcp := None\<rparr> else w))"

text \<open>The parts of a URL that \<open>open\<close> uses: secure, host header, host name, service and path.\<close>

definition ws_target :: "string \<Rightarrow> (bool \<times> string \<times> string \<times> string \<times> string) result" where
  "ws_target url =
     (case parse_url url of
        None \<Rightarrow> Inl (InvalidArgument (''Invalid WebSocket URL: '' @ url))
      | Some m \<Rightarrow>
          let scheme = value_or (m 2) ''ws''
          in if scheme \<noteq> ''ws'' \<and> scheme \<noteq> ''wss'' then Inl (InvalidArgument (''Invalid WebSocket scheme: '' @ scheme))
             else let secure = (scheme \<noteq> ''ws'');
                      hostname = the (m 10);
                      service = value_or (m 12) (if secure then ''443'' else ''80'');
                      host = (case m 12 of None \<Rightarrow> hostname | Some s \<Rightarrow> hostname @ '':'' @ s);
                      path = value_or (m 13) ''/'' @ (case m 15 of None \<Rightarrow> [] | Some q \<Rightarrow> ''?'' @ q)
                  in Inr (secure, host, decode_hostname hostname, service, path))"

definition WebSocket_open :: "ws_env \<Rightarrow> string \<Rightarrow> WebSocket \<Rightarrow> unit result \<times> WebSocket" where
  "WebSocket_open env url w =
     (if wk_state w \<noteq> WsClosed then (Inl (LogicError ''WebSocket must be closed before opening''), w)
      else case ws_target url of
             Inl e \<Rightarrow> (Inl e, w)
           | Inr (secure, host, hostname, service, path) \<Rightarrow>
               let w = w\<lparr>wk_secure := secure, wk_hostname := Some hostname, wk_service := Some service\<rparr>
               in case WsHandshake_client host path (wc_protocols (wk_config w)) of
                    Inl e \<Rightarrow> (Inl e, w)
                  | Inr h \<Rightarrow>
                      let w = ap_emit ApConnecting (w\<lparr>wk_handshake := Some h, wk_state := WsConnecting\<rparr>)
                      in case wc_proxyServer (wk_config w) of
                           Some p \<Rightarrow> setTcpTransport env True (ps_hostname p) (nat_string (unat (ps_port p))) w
                         | None \<Rightarrow> setTcpTransport env True hostname service w)"

section \<open>Messages\<close>

definition WebSocket_maxMessageSize :: "WebSocket \<Rightarrow> nat" where
  "WebSocket_maxMessageSize w = value_or (wc_maxMessageSize (wk_config w)) DEFAULT_WS_MAX_MESSAGE_SIZE"

definition WebSocket_outgoing :: "Message \<Rightarrow> WebSocket \<Rightarrow> unit result \<times> WebSocket" where
  "WebSocket_outgoing message w =
     (case wk_ws w of
        Some t \<Rightarrow>
          if wk_state w \<noteq> WsOpen then (Inl (RuntimeError ''WebSocket is not open''), w)
          else if length (msg_data message) > WebSocket_maxMessageSize w then (Inl (RuntimeError ''Message size exceeds limit''), w)
          else (case WsTransport_send (Some message) t of (r, t) \<Rightarrow> (r, w\<lparr>wk_ws := Some t\<rparr>))
      | None \<Rightarrow> (Inl (RuntimeError ''WebSocket is not open''), w))"

definition WebSocket_send :: "message_variant \<Rightarrow> WebSocket \<Rightarrow> unit result \<times> WebSocket" where
  "WebSocket_send data w = WebSocket_outgoing (make_message_variant data) w"

text \<open>\<open>None\<close>: the queue is full, and the call waits.\<close>

definition WebSocket_incoming :: "Message option \<Rightarrow> WebSocket \<Rightarrow> WebSocket option" where
  "WebSocket_incoming message w =
     (case message of
        None \<Rightarrow> Some (remoteClose_ws w)
      | Some m \<Rightarrow>
          if msg_type m = String \<or> msg_type m = Binary then
            map_option (\<lambda>q. ap_emit (ApAvailable (Queue_size q)) (w\<lparr>wk_recvQueue := q\<rparr>)) (Queue_push m (wk_recvQueue w))
          else Some w)"

definition WebSocket_receive :: "WebSocket \<Rightarrow> message_variant option \<times> WebSocket" where
  "WebSocket_receive w = (case Queue_pop (wk_recvQueue w) of (m, q) \<Rightarrow> (map_option to_variant m, w\<lparr>wk_recvQueue := q\<rparr>))"

definition WebSocket_availableAmount :: "WebSocket \<Rightarrow> u64" where
  "WebSocket_availableAmount w = Queue_amount (wk_recvQueue w)"

definition WebSocket_path :: "WebSocket \<Rightarrow> string option" where
  "WebSocket_path w = (if wk_state w \<noteq> WsConnecting then map_option wh_path (wk_handshake w) else None)"

section \<open>The server\<close>

text \<open>What the loop of the server does with a connection it accepted; \<open>certificate\<close>: whether TLS is enabled.\<close>

definition serve_client :: "ws_env \<Rightarrow> bool \<Rightarrow> int option \<Rightarrow> nat option \<Rightarrow> string \<Rightarrow> string \<Rightarrow> WebSocket result" where
  "serve_client env certificate timeout limit node serv =
     (case WebSocket_init (WebSocketConfiguration_default\<lparr>wc_connectionTimeout := timeout, wc_maxMessageSize := limit\<rparr>) certificate (Inr ()) of
        Inl e \<Rightarrow> Inl e
      | Inr w \<Rightarrow>
          (case setTcpTransport env False node serv (ap_emit ApConnecting (w\<lparr>wk_state := WsConnecting\<rparr>)) of
             (Inl e, w) \<Rightarrow> Inl e
           | (Inr _, w) \<Rightarrow> Inr w))"

section \<open>The life of a connection\<close>

datatype api_call =
    ACopen ws_env string
  | ACclose
  | ACforceClose
  | ACsend message_variant
  | ACreceive
  | ACtimeout
  | ACtcp ws_env State
  | ACproxy ws_env State
  | ACtls ws_env State
  | ACws State
  | ACincoming "Message option"

text \<open>A state callback is called only while the transport is there, as \<open>closeTransports\<close> removes it; that of the proxy stays.\<close>

definition api_exec :: "api_call \<Rightarrow> WebSocket \<Rightarrow> WebSocket option" where
  "api_exec c w =
     (case c of
        ACopen env url \<Rightarrow> Some (snd (WebSocket_open env url w))
      | ACclose \<Rightarrow> Some (WebSocket_close w)
      | ACforceClose \<Rightarrow> Some (remoteClose_ws w)
      | ACsend v \<Rightarrow> Some (snd (WebSocket_send v w))
      | ACreceive \<Rightarrow> Some (snd (WebSocket_receive w))
      | ACtimeout \<Rightarrow> Some (connection_timeout w)
      | ACtcp env s \<Rightarrow> if wk_tcp w = None then None else Some (on_tcp_state env s w)
      | ACproxy env s \<Rightarrow> if wk_proxy w = None then None else Some (on_proxy_state env s w)
      | ACtls env s \<Rightarrow> if wk_tls w = None then None else Some (on_tls_state env s w)
      | ACws s \<Rightarrow> (case wk_ws w of None \<Rightarrow> None | Some t \<Rightarrow> Some (on_ws_state s (w\<lparr>wk_ws := Some (ws_set_state s t)\<rparr>)))
      | ACincoming m \<Rightarrow> if wk_ws w = None then None else WebSocket_incoming m w)"

inductive api_reachable :: "WebSocket \<Rightarrow> bool" where
  created: "WebSocket_init config certificate loaded = Inr w \<Longrightarrow> api_reachable w"
| accepted: "serve_client env certificate timeout limit node serv = Inr w \<Longrightarrow> api_reachable w"
| step: "api_reachable w \<Longrightarrow> api_exec c w = Some w' \<Longrightarrow> api_reachable w'"

text \<open>What a user may rely on: after the start of a connection the open callback comes at most once, then the closed callback exactly once, and nothing of both until the next start.\<close>

fun phase_step :: "api_event \<Rightarrow> WsState option \<Rightarrow> WsState option" where
  "phase_step ApConnecting p = (if p = Some WsClosed then Some WsConnecting else None)"
| "phase_step ApOpen p = (if p = Some WsConnecting then Some WsOpen else None)"
| "phase_step ApClosed p = (if p = Some WsConnecting \<or> p = Some WsOpen then Some WsClosed else None)"
| "phase_step _ p = p"

definition api_phase :: "api_event list \<Rightarrow> WsState option" where
  "api_phase es = fold phase_step es (Some WsClosed)"

definition phase_fits :: "WsState \<Rightarrow> WsState option \<Rightarrow> bool" where
  "phase_fits state phase \<longleftrightarrow>
     (case state of
        WsConnecting \<Rightarrow> phase = Some WsConnecting
      | WsOpen \<Rightarrow> phase = Some WsOpen
      | WsClosing \<Rightarrow> phase = Some WsConnecting \<or> phase = Some WsOpen
      | WsClosed \<Rightarrow> phase = Some WsClosed)"

definition api_inv :: "WebSocket \<Rightarrow> bool" where
  "api_inv w \<longleftrightarrow> phase_fits (wk_state w) (api_phase (wk_events w)) \<and>
     (wk_state w = WsClosed \<longrightarrow> wk_ws w = None \<and> wk_tls w = None \<and> wk_tcp w = None) \<and> (wk_state w = WsOpen \<longrightarrow> wk_ws w \<noteq> None)"

lemma api_phase_append [simp]: "api_phase (es @ fs) = fold phase_step fs (api_phase es)" "api_phase [] = Some WsClosed"
  by (simp_all add: api_phase_def)

definition quiet :: "api_event \<Rightarrow> bool" where
  "quiet e \<longleftrightarrow> e \<noteq> ApConnecting \<and> e \<noteq> ApOpen \<and> e \<noteq> ApClosed"

lemma api_inv_emit [simp]: "quiet e \<Longrightarrow> api_inv (ap_emit e w) = api_inv w"
  by (cases e) (simp_all add: quiet_def api_inv_def ap_emit_def)

lemma quiet_events [simp]: "quiet (ApError s)" "quiet (ApAvailable n)" "quiet (ApStartTcp a b)" "quiet (ApReadTimeout i)" "quiet (ApTimeout i)"
  "quiet (ApStartProxy a b)" "quiet (ApStartTls c)" "quiet (ApStartWs h)"
  by (simp_all add: quiet_def)

lemma closeTransports_inv: "phase_fits (wk_state w) (api_phase (wk_events w)) \<Longrightarrow> (wk_state w = WsClosed \<Longrightarrow> api_inv w) \<Longrightarrow>
    api_inv (closeTransports_ws w) \<and> wk_state (closeTransports_ws w) = WsClosed"
  by (cases "wk_state w") (auto simp: closeTransports_ws_def api_inv_def phase_fits_def ap_emit_def)

lemma close_inv_ws: "api_inv w \<Longrightarrow> api_inv (WebSocket_close w)"
proof -
  assume inv: "api_inv w"
  have c: "api_inv (closeTransports_ws (w\<lparr>wk_state := WsClosing, wk_ws := t\<rparr>))" if "wk_state w = WsConnecting \<or> wk_state w = WsOpen" for t
    using inv that closeTransports_inv [of "w\<lparr>wk_state := WsClosing, wk_ws := t\<rparr>"] by (auto simp: api_inv_def phase_fits_def)
  have "w\<lparr>wk_state := WsClosing\<rparr> = w\<lparr>wk_state := WsClosing, wk_ws := wk_ws w\<rparr>" by simp
  then show ?thesis using inv c [of "wk_ws w"] c
    by (auto simp: WebSocket_close_def Let_def split: option.splits) (auto simp: api_inv_def phase_fits_def)
qed

lemma remoteClose_inv_ws: "api_inv w \<Longrightarrow> api_inv (remoteClose_ws w) \<and> wk_state (remoteClose_ws w) = WsClosed"
  using close_inv_ws [of w] closeTransports_inv [of "WebSocket_close w"] by (auto simp: remoteClose_ws_def Let_def api_inv_def [of "WebSocket_close w"])

lemma init_failed_inv: "api_inv w \<Longrightarrow> api_inv (snd (init_failed what w))"
  using remoteClose_inv_ws [of w] by (simp add: init_failed_def)

lemma api_inv_updates:
  "api_inv w \<Longrightarrow> api_inv (w\<lparr>wk_handshake := h\<rparr>)" "api_inv w \<Longrightarrow> api_inv (w\<lparr>wk_proxy := p\<rparr>)" "api_inv w \<Longrightarrow> api_inv (w\<lparr>wk_recvQueue := q\<rparr>)"
  "api_inv w \<Longrightarrow> wk_state w \<noteq> WsClosed \<Longrightarrow> api_inv (w\<lparr>wk_ws := Some t\<rparr>)" "api_inv w \<Longrightarrow> wk_state w \<noteq> WsClosed \<Longrightarrow> api_inv (w\<lparr>wk_tls := l\<rparr>)"
  "api_inv w \<Longrightarrow> wk_ws w \<noteq> None \<Longrightarrow> api_inv (w\<lparr>wk_ws := Some t\<rparr>)" "api_inv w \<Longrightarrow> wk_state w \<noteq> WsClosed \<Longrightarrow> api_inv (w\<lparr>wk_tcp := c\<rparr>)"
  "api_inv w \<Longrightarrow> api_inv (w\<lparr>wk_secure := s, wk_hostname := a, wk_service := b\<rparr>)" "api_inv w \<Longrightarrow> api_inv (w\<lparr>wk_tcp := None\<rparr>)"
  by (auto simp: api_inv_def)

lemma initWs_inv: "api_inv w \<Longrightarrow> api_inv (snd (initWsTransport env w))"
  by (auto simp: initWsTransport_def Let_def api_inv_updates init_failed_inv split: option.splits prod.splits sum.splits)

lemma initTls_inv: "api_inv w \<Longrightarrow> api_inv (snd (initTlsTransport env w))"
  by (auto simp: initTlsTransport_def Let_def api_inv_updates init_failed_inv split: option.splits)

lemma initProxy_inv: "api_inv w \<Longrightarrow> api_inv (snd (initProxyTransport env w))"
  by (auto simp: initProxyTransport_def Let_def api_inv_updates init_failed_inv split: option.splits prod.splits sum.splits)

lemma on_state_inv:
  "api_inv w \<Longrightarrow> api_inv (on_tcp_state env s w)" "api_inv w \<Longrightarrow> api_inv (on_proxy_state env s w)" "api_inv w \<Longrightarrow> api_inv (on_tls_state env s w)"
  "api_inv w \<Longrightarrow> wk_ws w \<noteq> None \<Longrightarrow> api_inv (on_ws_state s w)"
  using remoteClose_inv_ws initWs_inv initTls_inv initProxy_inv
  by (auto simp: on_tcp_state_def on_proxy_state_def on_tls_state_def on_ws_state_def triggerError_ws_def split: State.splits)
    (auto simp: api_inv_def phase_fits_def ap_emit_def)

lemma setTcp_inv: "api_inv w \<Longrightarrow> wk_state w \<noteq> WsClosed \<Longrightarrow> api_inv (snd (setTcpTransport env active a b w))"
  by (auto simp: setTcpTransport_def Let_def init_failed_inv intro!: api_inv_updates on_state_inv) (simp_all add: ap_emit_def)

lemma open_inv_ws: "api_inv w \<Longrightarrow> api_inv (snd (WebSocket_open env url w))"
proof -
  assume inv: "api_inv w"
  have "api_inv (ap_emit ApConnecting (w\<lparr>wk_secure := s, wk_hostname := a, wk_service := b, wk_handshake := h, wk_state := WsConnecting\<rparr>))"
    if "wk_state w = WsClosed" for s a b h using inv that by (simp add: api_inv_def phase_fits_def ap_emit_def)
  then show ?thesis using inv
    by (auto simp: WebSocket_open_def Let_def api_inv_updates intro!: setTcp_inv split: sum.splits option.splits) (simp_all add: ap_emit_def)
qed

lemma timeout_inv: "api_inv w \<Longrightarrow> api_inv (connection_timeout w)"
  using remoteClose_inv_ws [of "triggerError_ws ''Connection timed out'' w"] by (simp add: connection_timeout_def triggerError_ws_def)

lemma messages_inv:
  "api_inv w \<Longrightarrow> api_inv (snd (WebSocket_send v w))" "api_inv w \<Longrightarrow> api_inv (snd (WebSocket_receive w))"
  "api_inv w \<Longrightarrow> WebSocket_incoming m w = Some w' \<Longrightarrow> api_inv w'"
  using remoteClose_inv_ws [of w]
  by (auto simp: WebSocket_send_def WebSocket_outgoing_def WebSocket_receive_def WebSocket_incoming_def api_inv_updates split: option.splits prod.splits if_splits)

lemma api_exec_inv: "api_inv w \<Longrightarrow> api_exec c w = Some w' \<Longrightarrow> api_inv w'"
proof (cases c)
  case (ACws s)
  assume "api_inv w" "api_exec c w = Some w'"
  then show ?thesis using ACws on_state_inv(4) [OF api_inv_updates(6)] by (auto simp: api_exec_def split: option.splits)
qed (auto simp: api_exec_def open_inv_ws close_inv_ws remoteClose_inv_ws messages_inv timeout_inv on_state_inv split: if_splits)

text \<open>
  C13. The life of a WebSocket, whatever the user calls, whatever the transports report and in whatever order: after the start of a connection the open callback is called at most
  once, then the closed callback exactly once, and neither again before the next start; the state says in which of these phases the connection is. A closed
  WebSocket has no TCP, TLS and WebSocket transport any more, and an open one has a WebSocket transport.
\<close>

theorem websocket_lifecycle:
  assumes "api_reachable w"
  shows "phase_fits (wk_state w) (api_phase (wk_events w)) \<and>
    (wk_state w = WsClosed \<longrightarrow> wk_ws w = None \<and> wk_tls w = None \<and> wk_tcp w = None) \<and> (wk_state w = WsOpen \<longrightarrow> wk_ws w \<noteq> None)"
proof -
  have "api_inv w" using assms
  proof induction
    case (created config certificate loaded w)
    then show ?case by (auto simp: WebSocket_init_def Let_def api_inv_def phase_fits_def split: sum.splits if_splits)
  next
    case (accepted env certificate timeout limit node serv w)
    then obtain w0 where w0: "WebSocket_init (WebSocketConfiguration_default\<lparr>wc_connectionTimeout := timeout, wc_maxMessageSize := limit\<rparr>) certificate (Inr ()) = Inr w0"
        "snd (setTcpTransport env False node serv (ap_emit ApConnecting (w0\<lparr>wk_state := WsConnecting\<rparr>))) = w"
      by (auto simp: serve_client_def split: sum.splits prod.splits)
    then have "api_inv (ap_emit ApConnecting (w0\<lparr>wk_state := WsConnecting\<rparr>))"
      by (auto simp: WebSocket_init_def Let_def api_inv_def phase_fits_def ap_emit_def split: sum.splits if_splits)
    from setTcp_inv [OF this, of env False node serv] w0(2) show ?case by (auto simp: ap_emit_def)
  next
    case (step w c w')
    then show ?case using api_exec_inv by blast
  qed
  then show ?thesis by (simp add: api_inv_def)
qed

definition example_env :: ws_env where
  "example_env = \<lparr>we_lower = True, we_tls = True, we_sha1 = \<lambda>_. [], we_random = replicate 16 0, we_mask = \<lambda>_. 0, we_uninitialised = 0\<rparr>"

definition new_websocket :: "ProxyServer option \<Rightarrow> WebSocket" where
  "new_websocket proxy = \<lparr>wk_config = WebSocketConfiguration_default\<lparr>wc_proxyServer := proxy\<rparr>, wk_secure = False, wk_hostname = None, wk_service = None,
     wk_handshake = None, wk_state = WsClosed, wk_tcp = None, wk_proxy = None, wk_tls = None, wk_ws = None,
     wk_recvQueue = Queue_init RECV_QUEUE_LIMIT (Some message_size_func), wk_events = []\<rparr>"

lemma new_websocket_created: "\<forall>p. proxy = Some p \<longrightarrow> ps_type p = Http \<Longrightarrow>
    WebSocket_init (WebSocketConfiguration_default\<lparr>wc_proxyServer := proxy\<rparr>) False (Inr ()) = Inr (new_websocket proxy)"
  by (auto simp: WebSocket_init_def new_websocket_def WebSocketConfiguration_default_def)

section \<open>Opening\<close>

lemma ws_target_parts:
  assumes "url_ok u" and "up_scheme u = Some (if secure then ''wss'' else ''ws'')" and "free_of ''%['' (up_host u)" and "up_port u \<noteq> Some []"
  shows "ws_target (url_text u) =
    Inr (secure, up_host u @ opt_part (CHR '':'') (up_port u), up_host u, value_or (up_port u) (if secure then ''443'' else ''80''),
         (if up_path u = [] then ''/'' else up_path u) @ (case nonempty (up_query u) of None \<Rightarrow> [] | Some q \<Rightarrow> ''?'' @ q))"
proof -
  obtain opt where opt: "parse_url (url_text u) = Some opt" "opt 2 = up_scheme u" "opt 10 = Some (up_host u)" "opt 12 = nonempty (up_port u)"
      "opt 13 = nonempty (Some (up_path u))" "opt 15 = nonempty (up_query u)"
    using url_parts_found [OF assms(1)] by blast
  have h: "up_host u \<noteq> []" using assms(1) by (auto simp: url_ok_def host_ok_def)
  then have "decode_hostname (up_host u) = up_host u"
    using assms(3) url_decode_plain [of "up_host u" "[]"] hd_in_set [OF h] by (auto simp: decode_hostname_def free_of_def)
  moreover have "nonempty (up_port u) = up_port u" using assms(4) by (auto simp: nonempty_def split: option.splits)
  ultimately show ?thesis using opt assms(2) by (auto simp: ws_target_def value_or_def nonempty_def opt_part_def Let_def split: option.splits)
qed

text \<open>The callbacks by which the stack is built, from the bottom to the top.\<close>

definition build_stack :: "ws_env \<Rightarrow> WebSocket \<Rightarrow> WebSocket" where
  "build_stack env w =
     (let proxy = (wc_proxyServer (wk_config w) \<noteq> None);
          w = on_tcp_state env Connected w;
          w = (if proxy then on_proxy_state env Connected w else w);
          w = (if wk_secure w then on_tls_state env Connected w else w)
      in on_ws_state Connected w)"

definition stack_events :: "WebSocket \<Rightarrow> bool \<Rightarrow> string \<Rightarrow> string \<Rightarrow> WsHandshake \<Rightarrow> api_event list" where
  "stack_events w secure hostname service h =
     (case wc_proxyServer (wk_config w) of
        None \<Rightarrow> [ApStartTcp hostname service]
      | Some p \<Rightarrow> [ApStartTcp (ps_hostname p) (nat_string (unat (ps_port p))), ApStartProxy hostname service]) @
     (if secure then [ApStartTls (\<not> wc_disableTlsVerification (wk_config w))] else []) @ [ApStartWs h, ApOpen]"

definition no_timers :: "api_event list \<Rightarrow> api_event list" where
  "no_timers es = filter (\<lambda>e. case e of ApReadTimeout i \<Rightarrow> False | ApTimeout i \<Rightarrow> False | _ \<Rightarrow> True) es"

definition tcp_timers :: "WebSocket \<Rightarrow> api_event list" where
  "tcp_timers w =
     (let ping = value_or (wc_pingInterval (wk_config w)) 10000; timeout = value_or (wc_connectionTimeout (wk_config w)) 30000
      in (if ping > 0 then [ApReadTimeout ping] else []) @ (if timeout > 0 then [ApTimeout timeout] else []))"

lemma set_tcp_active:
  "wk_tcp w = None \<Longrightarrow> wk_state w \<noteq> WsClosed \<Longrightarrow>
     setTcpTransport env True a b w = (Inr (), w\<lparr>wk_tcp := Some True, wk_events := wk_events w @ tcp_timers w @ [ApStartTcp a b]\<rparr>)"
  by (simp add: setTcpTransport_def tcp_timers_def ap_emit_def Let_def)

lemma init_ws_works:
  assumes "wk_ws w = None" and "ws_lower w = Some True" and "wk_handshake w = Some h" and "we_lower env" and "wk_state w \<noteq> WsClosed"
  obtains t where "initWsTransport env w = (Inr (), ap_emit (ApStartWs h) (w\<lparr>wk_handshake := Some h, wk_ws := Some t\<rparr>))"
    and "ws_events t = [WsOut (hs_request (ws_handshake (we_sha1 env) (we_random env) h))]"
proof -
  let ?t = "(WsTransport_init True (wc_maxMessageSize (wk_config w)) (wc_maxOutstandingPings (wk_config w)) (we_uninitialised env) (we_mask env))\<lparr>ws_lowerOpen := True\<rparr>"
  let ?t' = "ws_emit (WsOut (hs_request (ws_handshake (we_sha1 env) (we_random env) h))) (ws_set_state Connecting ?t)"
  have "WsTransport_start (ws_handshake (we_sha1 env) (we_random env) h) ?t = (Inr (), ?t')"
    by (simp add: WsTransport_start_def ws_outgoing_def ws_set_state_def WsTransport_init_def)
  then have "initWsTransport env w = (Inr (), ap_emit (ApStartWs h) (w\<lparr>wk_handshake := Some h, wk_ws := Some ?t'\<rparr>))"
    using assms by (simp add: initWsTransport_def)
  moreover have "ws_events ?t' = [WsOut (hs_request (ws_handshake (we_sha1 env) (we_random env) h))]"
    by (simp add: ws_emit_def ws_set_state_def WsTransport_init_def)
  ultimately show thesis using that by blast
qed

lemma init_proxy_works:
  assumes "wk_proxy w = None" and "wk_tcp w = Some True" and "wk_hostname w = Some a" and "wk_service w = Some b" and "we_lower env" and "wk_state w \<noteq> WsClosed"
  obtains t where "initProxyTransport env w = (Inr (), ap_emit (ApStartProxy a b) (w\<lparr>wk_proxy := Some t\<rparr>))"
  using assms by (simp add: initProxyTransport_def HttpProxyTransport_init_def proxy_start_def px_outgoing_def px_emit_def px_set_state_def value_or_def)

lemma init_tls_works:
  assumes "wk_tls w = None" and "(if wc_proxyServer (wk_config w) \<noteq> None then map_option (\<lambda>_. True) (wk_proxy w) else wk_tcp w) = Some True" and "we_tls env" and "wk_state w \<noteq> WsClosed"
  shows "initTlsTransport env w = (Inr (), ap_emit (ApStartTls (wk_hostname w \<noteq> None \<and> \<not> wc_disableTlsVerification (wk_config w))) (w\<lparr>wk_tls := Some True\<rparr>))"
  unfolding initTlsTransport_def assms(2) using assms by simp

text \<open>The upper part of the stack, on a transport that is connected.\<close>

lemma upper_stack:
  assumes "wk_ws w = None" and "wk_tls w = None" and "wk_handshake w = Some h" and "wk_hostname w = Some a" and "wk_state w = WsConnecting" and "we_lower env" and "we_tls env"
    and "(if wc_proxyServer (wk_config w) \<noteq> None then map_option (\<lambda>_. True) (wk_proxy w) else wk_tcp w) = Some True"
    and "w' = snd (if wk_secure w then initTlsTransport env w else initWsTransport env w)"
    and "w'' = on_ws_state Connected (if wk_secure w' then on_tls_state env Connected w' else w')"
  shows "wk_state w'' = WsOpen \<and>
    wk_events w'' = wk_events w @ (if wk_secure w then [ApStartTls (\<not> wc_disableTlsVerification (wk_config w))] else []) @ [ApStartWs h, ApOpen] \<and>
    map_option ws_events (wk_ws w'') = Some [WsOut (hs_request (ws_handshake (we_sha1 env) (we_random env) h))]"
proof (cases "wk_secure w")
  case True
  define v where "v = ap_emit (ApStartTls (\<not> wc_disableTlsVerification (wk_config w))) (w\<lparr>wk_tls := Some True\<rparr>)"
  have w': "w' = v" using init_tls_works [OF assms(2,8,7)] assms(4,5,9) True by (simp add: v_def)
  have v: "wk_ws v = None" "ws_lower v = Some True" "wk_handshake v = Some h" "wk_state v = WsConnecting" "wk_secure v"
    using assms(1,3,5) True by (simp_all add: v_def ap_emit_def ws_lower_def)
  obtain t where t: "initWsTransport env v = (Inr (), ap_emit (ApStartWs h) (v\<lparr>wk_handshake := Some h, wk_ws := Some t\<rparr>))"
      "ws_events t = [WsOut (hs_request (ws_handshake (we_sha1 env) (we_random env) h))]"
    using init_ws_works [OF v(1-3) assms(6)] v(4) by auto
  then show ?thesis using True v assms(10) w' by (simp add: on_tls_state_def on_ws_state_def ap_emit_def) (simp add: v_def ap_emit_def)
next
  case False
  then have "ws_lower w = Some True" using assms(8) by (simp add: ws_lower_def)
  from init_ws_works [OF assms(1) this assms(3,6)] assms(5) obtain t where
      "initWsTransport env w = (Inr (), ap_emit (ApStartWs h) (w\<lparr>wk_handshake := Some h, wk_ws := Some t\<rparr>))"
      "ws_events t = [WsOut (hs_request (ws_handshake (we_sha1 env) (we_random env) h))]" by auto
  then show ?thesis using False assms(5,9,10) by (simp add: on_ws_state_def ap_emit_def)
qed



lemma example_target: "ws_target ''ws://a.org/'' = Inr (False, ''a.org'', ''a.org'', ''80'', ''/'')"
proof -
  define u where "u = \<lparr>up_scheme = Some ''ws'', up_slashes = 2, up_userinfo = None, up_host = ''a.org'', up_port = None, up_path = ''/'', up_query = None, up_fragment = None\<rparr>"
  have url: "url_ok u" "url_text u = ''ws://a.org/''" "free_of ''%['' (up_host u)" "up_scheme u = Some (if False then ''wss'' else ''ws'')" "up_port u \<noteq> Some []"
    by (simp_all add: u_def url_ok_def host_ok_def url_tail_ok_def userinfo_ok_def scheme_ok_def free_of_def host_text_def tail_text_def opt_part_def url_text_def rest_text_def
        userinfo_text_def numeral_2_eq_2)
  then show ?thesis using ws_target_parts [OF url(1,4,3,5)] by (simp add: u_def opt_part_def value_or_def nonempty_def)
qed

theorem websocket_lifecycle_witness:
  defines "w \<equiv> snd (WebSocket_open example_env ''ws://a.org/'' (new_websocket None))"
  shows "api_reachable w \<and> api_phase (wk_events w) = Some WsConnecting \<and> api_reachable (remoteClose_ws w) \<and> api_phase (wk_events (remoteClose_ws w)) = Some WsClosed"
proof -
  have "api_reachable (new_websocket None)" using created [OF new_websocket_created [of None]] by simp
  then have r: "api_reachable w" using step [of "new_websocket None" "ACopen example_env ''ws://a.org/''"] by (simp add: api_exec_def w_def)
  then have c: "api_reachable (remoteClose_ws w)" using step [of w ACforceClose] by (simp add: api_exec_def)
  have "wk_state w = WsConnecting" "wk_ws w = None"
    by (simp_all add: w_def WebSocket_open_def example_target WsHandshake_client_def set_tcp_active new_websocket_def WebSocketConfiguration_default_def ap_emit_def)
  moreover from this have "wk_state (remoteClose_ws w) = WsClosed"
    by (simp add: remoteClose_ws_def WebSocket_close_def closeTransports_ws_def ap_emit_def Let_def)
  ultimately show ?thesis using websocket_lifecycle [OF r] websocket_lifecycle [OF c] r c by (simp add: phase_fits_def)
qed

section \<open>Where a connection hangs\<close>

fun api_run :: "api_call list \<Rightarrow> WebSocket \<Rightarrow> WebSocket option" where
  "api_run [] w = Some w"
| "api_run (c # cs) w = Option.bind (api_exec c w) (api_run cs)"

lemma closing_hangs:
  "wk_state w = WsClosing \<Longrightarrow> wk_ws w \<noteq> None \<Longrightarrow> set calls \<subseteq> {ACws Connected, ACtimeout, ACclose} \<Longrightarrow>
     \<exists>w'. api_run calls w = Some w' \<and> wk_state w' = WsClosing \<and> wk_events w' = wk_events w \<and> map_option ws_events (wk_ws w') = map_option ws_events (wk_ws w)"
proof (induction calls arbitrary: w)
  case (Cons c cs)
  then obtain t where t: "wk_ws w = Some t" by blast
  have "\<exists>v. api_exec c w = Some v \<and> wk_state v = WsClosing \<and> wk_ws v \<noteq> None \<and> wk_events v = wk_events w \<and> map_option ws_events (wk_ws v) = map_option ws_events (wk_ws w)"
    using Cons.prems t by (auto simp: api_exec_def on_ws_state_def connection_timeout_def WebSocket_close_def ws_set_state_def)
  then show ?case using Cons.IH Cons.prems(3) by fastforce
qed simp



text \<open>
  C39. A WebSocket that went through a proxy cannot be opened again. Closing it leaves the old tunnel in place; when it is opened again, by any URL, and the connection to the proxy is there,
  no new tunnel is made, as there seems to be one already: nothing is sent to the proxy and no further transport is started, and the WebSocket stays in the state Connecting until
  the timeout reports an error and closes it.
\<close>

theorem proxied_websocket_cannot_reopen:
  assumes "wk_state w \<noteq> WsClosed" and "api_inv w" and "wk_proxy w = Some x" and "wc_proxyServer (wk_config w) = Some p"
    and "ws_target url = Inr (secure, host, hostname, service, path)" and "host \<noteq> []" and "path \<noteq> []"
    and "WebSocket_open env url (remoteClose_ws w) = (r, w1)"
  shows "r = Inr () \<and> wk_state w1 = WsConnecting \<and> on_tcp_state env Connected w1 = w1 \<and>
    (\<exists>es. wk_events (connection_timeout w1) = wk_events w1 @ es \<and> ApError ''Connection timed out'' \<in> set es \<and> ApClosed \<in> set es)"
proof -
  define c where "c = remoteClose_ws w"
  have c: "wk_state c = WsClosed" "wk_tcp c = None" using remoteClose_inv_ws [OF assms(2)] by (auto simp: c_def api_inv_def)
  have kept: "wk_proxy c = Some x" "wc_proxyServer (wk_config c) = Some p" using assms(3,4)
    by (simp_all add: c_def remoteClose_ws_def WebSocket_close_def closeTransports_ws_def ap_emit_def Let_def split: option.splits)
  let ?h = "\<lparr>wh_host = host, wh_path = path, wh_protocols = wc_protocols (wk_config c), wh_key = []\<rparr>"
  define s where "s = ap_emit ApConnecting (c\<lparr>wk_secure := secure, wk_hostname := Some hostname, wk_service := Some service, wk_handshake := Some ?h, wk_state := WsConnecting\<rparr>)"
  have s: "wk_tcp s = None" "wk_state s = WsConnecting" "wk_proxy s = Some x" "wc_proxyServer (wk_config s) = Some p" "wk_ws s = None"
    using c kept remoteClose_inv_ws [OF assms(2)] by (auto simp: s_def ap_emit_def c_def api_inv_def)
  have "WebSocket_open env url c = setTcpTransport env True (ps_hostname p) (nat_string (unat (ps_port p))) s"
    using assms(5-7) c(1) kept(2) by (simp add: WebSocket_open_def WsHandshake_client_def s_def ap_emit_def)
  then have w1: "r = Inr ()" "w1 = s\<lparr>wk_tcp := Some True, wk_events := wk_events s @ tcp_timers s @ [ApStartTcp (ps_hostname p) (nat_string (unat (ps_port p)))]\<rparr>"
    using set_tcp_active [OF s(1)] s(2) assms(8) by (simp_all add: c_def)
  have "on_tcp_state env Connected w1 = w1" using s(3,4) by (simp add: w1(2) on_tcp_state_def initProxyTransport_def)
  then show ?thesis using s(2,5) w1(1)
    by (simp add: w1(2) connection_timeout_def triggerError_ws_def remoteClose_ws_def WebSocket_close_def closeTransports_ws_def ap_emit_def Let_def)
qed

theorem proxied_websocket_cannot_reopen_witness:
  defines "p \<equiv> \<lparr>ps_type = Http, ps_hostname = ''proxy'', ps_port = 3128, ps_username = None, ps_password = None\<rparr>"
  defines "x \<equiv> \<lparr>px_state = (Connected, []), px_hostname = ''a.org'', px_service = ''443'', px_buffer = [], px_events = []\<rparr>"
  defines "w \<equiv> (new_websocket (Some p))\<lparr>wk_state := WsConnecting, wk_tcp := Some True, wk_proxy := Some x, wk_events := [ApConnecting]\<rparr>"
  defines "w1 \<equiv> snd (WebSocket_open example_env ''ws://a.org/'' (remoteClose_ws w))"
  shows "wk_state w1 = WsConnecting \<and> on_tcp_state example_env Connected w1 = w1"
proof -
  have w: "wk_state w \<noteq> WsClosed" "api_inv w" "wk_proxy w = Some x" "wc_proxyServer (wk_config w) = Some p"
    by (simp_all add: w_def new_websocket_def api_inv_def phase_fits_def api_phase_def)
  obtain r v where v: "WebSocket_open example_env ''ws://a.org/'' (remoteClose_ws w) = (r, v)" by fastforce
  show ?thesis using proxied_websocket_cannot_reopen [OF w example_target _ _ v] v by (simp add: w1_def)
qed

end
