(* ===== verification/ThreadPools.thy ===== *)
theory ThreadPools
  imports Prelude "HOL-Library.Multiset"
begin

text \<open>
  The pool of threads that runs tasks at their time: \<open>src/impl/threadpool.hpp\<close>, \<open>src/impl/threadpool.cpp\<close>. Every section of the code that holds the mutex is one action, and any thread may be the
  next to act. The tasks wait in a priority queue: \<open>take\<close> removes one that no waiting task precedes, whichever of several at the same time. A worker that waits for a task may wake
  up at any moment, as a condition variable allows. The clock only moves forward.
\<close>

section \<open>The pool\<close>

text \<open>What a worker is doing: not begun yet, at the head of the loop of \<open>dequeue\<close>, waiting there, running a task, ended.\<close>

datatype 't worker = Starting | Looping | Waiting | Executing 't | Ended

record 't ThreadPool =
  tp_workers :: "'t worker list"
  tp_busyWorkers :: int
  tp_joining :: bool
  tp_tasks :: "(nat \<times> 't) list"
  tp_now :: nat
  tp_started :: "(nat \<times> nat \<times> 't) list"

definition ThreadPool_init :: "'t ThreadPool" where
  "ThreadPool_init = \<lparr>tp_workers = [], tp_busyWorkers = 0, tp_joining = False, tp_tasks = [], tp_now = 0, tp_started = []\<rparr>"

definition pool_spawn :: "nat \<Rightarrow> 't ThreadPool \<Rightarrow> 't ThreadPool" where
  "pool_spawn n p = p\<lparr>tp_workers := tp_workers p @ replicate n Starting\<rparr>"

definition schedule_at :: "nat \<Rightarrow> 't \<Rightarrow> 't ThreadPool \<Rightarrow> 't ThreadPool" where
  "schedule_at time f p = p\<lparr>tp_tasks := tp_tasks p @ [(time, f)]\<rparr>"

definition pool_enqueue :: "'t \<Rightarrow> 't ThreadPool \<Rightarrow> 't ThreadPool" where
  "pool_enqueue f p = schedule_at (tp_now p) f p"

definition schedule_after :: "nat \<Rightarrow> 't \<Rightarrow> 't ThreadPool \<Rightarrow> 't ThreadPool" where
  "schedule_after delay f p = schedule_at (tp_now p + delay) f p"

definition pool_clear :: "'t ThreadPool \<Rightarrow> 't ThreadPool" where
  "pool_clear p = p\<lparr>tp_tasks := []\<rparr>"

definition set_worker :: "nat \<Rightarrow> 't worker \<Rightarrow> 't ThreadPool \<Rightarrow> 't ThreadPool" where
  "set_worker i w p = p\<lparr>tp_workers := (tp_workers p)[i := w]\<rparr>"

definition worker_is :: "nat \<Rightarrow> 't worker \<Rightarrow> 't ThreadPool \<Rightarrow> bool" where
  "worker_is i w p \<longleftrightarrow> i < length (tp_workers p) \<and> tp_workers p ! i = w"

text \<open>The parts of \<open>run\<close> and \<open>dequeue\<close>; \<open>None\<close>: the worker is not at this point.\<close>

definition worker_start :: "nat \<Rightarrow> 't ThreadPool \<Rightarrow> 't ThreadPool option" where
  "worker_start i p =
     (if worker_is i Starting p then Some (set_worker i Looping (p\<lparr>tp_busyWorkers := tp_busyWorkers p + 1\<rparr>)) else None)"

text \<open>\<open>k\<close> is the position of the top of the priority queue.\<close>

definition dequeue_task :: "nat \<Rightarrow> nat \<Rightarrow> 't ThreadPool \<Rightarrow> 't ThreadPool option" where
  "dequeue_task i k p =
     (if worker_is i Looping p \<and> \<not> tp_joining p \<and> k < length (tp_tasks p) \<and> (\<forall>x \<in> set (tp_tasks p). fst (tp_tasks p ! k) \<le> fst x) \<and> fst (tp_tasks p ! k) \<le> tp_now p
      then case tp_tasks p ! k of (time, f) \<Rightarrow>
             Some (set_worker i (Executing f)
               (p\<lparr>tp_tasks := take k (tp_tasks p) @ drop (Suc k) (tp_tasks p), tp_started := tp_started p @ [(tp_now p, time, f)]\<rparr>))
      else None)"

definition dequeue_wait :: "nat \<Rightarrow> 't ThreadPool \<Rightarrow> 't ThreadPool option" where
  "dequeue_wait i p =
     (if worker_is i Looping p \<and> \<not> tp_joining p \<and> (\<forall>x \<in> set (tp_tasks p). tp_now p < fst x)
      then Some (set_worker i Waiting (p\<lparr>tp_busyWorkers := tp_busyWorkers p - 1\<rparr>)) else None)"

definition dequeue_wake :: "nat \<Rightarrow> 't ThreadPool \<Rightarrow> 't ThreadPool option" where
  "dequeue_wake i p =
     (if worker_is i Waiting p then Some (set_worker i Looping (p\<lparr>tp_busyWorkers := tp_busyWorkers p + 1\<rparr>)) else None)"

definition task_done :: "nat \<Rightarrow> 't ThreadPool \<Rightarrow> 't ThreadPool option" where
  "task_done i p =
     (if i < length (tp_workers p) then case tp_workers p ! i of Executing f \<Rightarrow> Some (set_worker i Looping p) | _ \<Rightarrow> None else None)"

definition worker_end :: "nat \<Rightarrow> 't ThreadPool \<Rightarrow> 't ThreadPool option" where
  "worker_end i p =
     (if worker_is i Looping p \<and> tp_joining p then Some (set_worker i Ended (p\<lparr>tp_busyWorkers := tp_busyWorkers p - 1\<rparr>)) else None)"

text \<open>The two parts of \<open>join\<close>: \<open>None\<close> while it waits.\<close>

definition join_workers :: "'t ThreadPool \<Rightarrow> 't ThreadPool option" where
  "join_workers p = (if tp_busyWorkers p = 0 then Some (p\<lparr>tp_joining := True\<rparr>) else None)"

definition join_done :: "'t ThreadPool \<Rightarrow> 't ThreadPool option" where
  "join_done p =
     (if tp_joining p \<and> (\<forall>w \<in> set (tp_workers p). case w of Ended \<Rightarrow> True | _ \<Rightarrow> False)
      then Some (p\<lparr>tp_workers := [], tp_joining := False\<rparr>) else None)"

section \<open>Every interleaving\<close>

datatype 't pool_action =
    PoolSpawn nat
  | PoolSchedule nat 't
  | PoolEnqueue 't
  | PoolAfter nat 't
  | PoolTick nat
  | WorkerStart nat
  | WorkerTake nat nat
  | WorkerWait nat
  | WorkerWake nat
  | WorkerDone nat
  | WorkerEnd nat
  | JoinWorkers
  | JoinDone

fun pool_exec :: "'t pool_action \<Rightarrow> 't ThreadPool \<Rightarrow> 't ThreadPool option" where
  "pool_exec (PoolSpawn n) p = Some (pool_spawn n p)"
| "pool_exec (PoolSchedule time f) p = Some (schedule_at time f p)"
| "pool_exec (PoolEnqueue f) p = Some (pool_enqueue f p)"
| "pool_exec (PoolAfter delay f) p = Some (schedule_after delay f p)"
| "pool_exec (PoolTick n) p = Some (p\<lparr>tp_now := tp_now p + n\<rparr>)"
| "pool_exec (WorkerStart i) p = worker_start i p"
| "pool_exec (WorkerTake i k) p = dequeue_task i k p"
| "pool_exec (WorkerWait i) p = dequeue_wait i p"
| "pool_exec (WorkerWake i) p = dequeue_wake i p"
| "pool_exec (WorkerDone i) p = task_done i p"
| "pool_exec (WorkerEnd i) p = worker_end i p"
| "pool_exec JoinWorkers p = join_workers p"
| "pool_exec JoinDone p = join_done p"

fun pool_run :: "'t pool_action list \<Rightarrow> 't ThreadPool \<Rightarrow> 't ThreadPool option" where
  "pool_run [] p = Some p"
| "pool_run (a # as) p = Option.bind (pool_exec a p) (pool_run as)"

text \<open>The tasks that were given to the pool, with their times; \<open>p\<close> is the pool at the beginning of the actions.\<close>

fun pool_given :: "'t pool_action list \<Rightarrow> 't ThreadPool \<Rightarrow> (nat \<times> 't) list" where
  "pool_given [] p = []"
| "pool_given (a # as) p =
     (case a of PoolSchedule time f \<Rightarrow> [(time, f)] | PoolEnqueue f \<Rightarrow> [(tp_now p, f)] | PoolAfter delay f \<Rightarrow> [(tp_now p + delay, f)] | _ \<Rightarrow> []) @
     (case pool_exec a p of Some p' \<Rightarrow> pool_given as p' | None \<Rightarrow> [])"

definition at_work :: "'t worker \<Rightarrow> bool" where
  "at_work w \<longleftrightarrow> (case w of Looping \<Rightarrow> True | Executing f \<Rightarrow> True | _ \<Rightarrow> False)"

definition running :: "'t worker \<Rightarrow> bool" where
  "running w \<longleftrightarrow> (case w of Executing f \<Rightarrow> True | _ \<Rightarrow> False)"

definition pool_inv :: "(nat \<times> 't) multiset \<Rightarrow> 't ThreadPool \<Rightarrow> bool" where
  "pool_inv given p \<longleftrightarrow>
     tp_busyWorkers p = int (length (filter at_work (tp_workers p))) \<and>
     (tp_joining p \<longrightarrow> (\<forall>w \<in> set (tp_workers p). \<not> running w)) \<and>
     (\<forall>(start, time, f) \<in> set (tp_started p). time \<le> start) \<and>
     mset (map snd (tp_started p)) + mset (tp_tasks p) = given"

lemma filter_update:
  "i < length xs \<Longrightarrow> int (length (filter P (xs[i := y]))) = int (length (filter P xs)) - (if P (xs ! i) then 1 else 0) + (if P y then 1 else 0)"
proof -
  assume i: "i < length xs"
  have "length (filter P xs) = length (filter P (take i xs @ xs ! i # drop (Suc i) xs))" using i by (simp add: Cons_nth_drop_Suc)
  moreover have "xs[i := y] = take i xs @ y # drop (Suc i) xs" using i by (simp add: upd_conv_take_nth_drop)
  ultimately show ?thesis by simp
qed

lemma mset_remove_nth: "k < length xs \<Longrightarrow> mset xs = add_mset (xs ! k) (mset (take k xs @ drop (Suc k) xs))"
  by (metis id_take_nth_drop mset.simps(2) mset_append union_mset_add_mset_right)

lemma pool_exec_inv:
  assumes "pool_inv given p" and "pool_exec a p = Some p'"
  shows "pool_inv (given + mset (case a of PoolSchedule time f \<Rightarrow> [(time, f)] | PoolEnqueue f \<Rightarrow> [(tp_now p, f)] | PoolAfter delay f \<Rightarrow> [(tp_now p + delay, f)] | _ \<Rightarrow> [])) p'"
proof (cases a)
  case (WorkerTake i k)
  then have w: "i < length (tp_workers p)" "tp_workers p ! i = Looping" "\<not> tp_joining p" "k < length (tp_tasks p)" "fst (tp_tasks p ! k) \<le> tp_now p"
    using assms(2) by (auto simp: dequeue_task_def worker_is_def split: if_splits)
  obtain time f where k: "tp_tasks p ! k = (time, f)" by fastforce
  have p': "p' = set_worker i (Executing f) (p\<lparr>tp_tasks := take k (tp_tasks p) @ drop (Suc k) (tp_tasks p), tp_started := tp_started p @ [(tp_now p, time, f)]\<rparr>)"
    using assms(2) WorkerTake k by (auto simp: dequeue_task_def split: if_splits)
  have "mset (tp_tasks p) = add_mset (time, f) (mset (take k (tp_tasks p) @ drop (Suc k) (tp_tasks p)))" using mset_remove_nth [OF w(4)] k by simp
  then show ?thesis using assms(1) w k WorkerTake
    by (auto simp: p' pool_inv_def set_worker_def filter_update at_work_def)
next
  case (WorkerDone i)
  then show ?thesis using assms
    by (auto simp: pool_inv_def task_done_def set_worker_def filter_update at_work_def running_def dest!: set_update_subset_insert [THEN subsetD] split: if_splits worker.splits)
next
  case JoinWorkers
  then show ?thesis using assms
    by (auto simp: pool_inv_def join_workers_def at_work_def running_def filter_empty_conv split: if_splits worker.splits)
next
  case JoinDone
  then have "filter at_work (tp_workers p) = []" using assms(2)
    by (auto simp: join_done_def at_work_def filter_empty_conv split: if_splits worker.splits)
  then show ?thesis using assms JoinDone by (auto simp: pool_inv_def join_done_def split: if_splits)
qed (use assms in \<open>auto simp: pool_inv_def pool_spawn_def schedule_at_def pool_enqueue_def schedule_after_def worker_start_def dequeue_wait_def dequeue_wake_def worker_end_def
    set_worker_def worker_is_def filter_update at_work_def running_def dest!: set_update_subset_insert [THEN subsetD] split: if_splits\<close>)

lemma pool_run_inv:
  "pool_inv given p \<Longrightarrow> pool_run as p = Some p' \<Longrightarrow> pool_inv (given + mset (pool_given as p)) p'"
proof (induction as arbitrary: given p)
  case (Cons a as)
  then obtain q where q: "pool_exec a p = Some q" "pool_run as q = Some p'" by (cases "pool_exec a p") auto
  from Cons.IH [OF pool_exec_inv [OF Cons.prems(1) q(1)] q(2)] q(1) show ?case by (simp add: add.assoc)
qed simp

text \<open>
  C19. The thread pool, under every interleaving of its workers, of calls that give it tasks and of joins: no task starts before its time; every task that was given is started once or still waits; a task that starts has the earliest time of those that wait; the counter of busy workers is the number of workers that are not waiting; and from the moment \<open>join\<close> has seen no busy
  worker, no task runs any more until the workers have ended.
\<close>

theorem pool_runs_tasks_in_time:
  assumes "pool_run as ThreadPool_init = Some p"
  shows "(\<forall>(start, time, f) \<in> set (tp_started p). time \<le> start) \<and>
    mset (map snd (tp_started p)) + mset (tp_tasks p) = mset (pool_given as ThreadPool_init) \<and>
    tp_busyWorkers p = int (length (filter at_work (tp_workers p))) \<and>
    (tp_joining p \<longrightarrow> (\<forall>w \<in> set (tp_workers p). \<not> running w) \<and> dequeue_task i k p = None) \<and>
    (\<forall>q. dequeue_task i k p = Some q \<longrightarrow> (\<exists>time f. tp_started q = tp_started p @ [(tp_now p, time, f)] \<and> (\<forall>x \<in> set (tp_tasks p). time \<le> fst x)))"
proof -
  have "pool_inv {#} ThreadPool_init" by (simp add: pool_inv_def ThreadPool_init_def)
  from pool_run_inv [OF this assms] have inv: "pool_inv (mset (pool_given as ThreadPool_init)) p" by simp
  obtain time f where k: "tp_tasks p ! k = (time, f)" by fastforce
  have "tp_started q = tp_started p @ [(tp_now p, time, f)] \<and> (\<forall>x \<in> set (tp_tasks p). time \<le> fst x)" if "dequeue_task i k p = Some q" for q
    using that k by (auto simp: dequeue_task_def set_worker_def split: if_splits)
  then have "\<forall>q. dequeue_task i k p = Some q \<longrightarrow> (\<exists>time f. tp_started q = tp_started p @ [(tp_now p, time, f)] \<and> (\<forall>x \<in> set (tp_tasks p). time \<le> fst x))"
    by blast
  moreover have "tp_joining p \<Longrightarrow> dequeue_task i k p = None" by (simp add: dequeue_task_def)
  ultimately show ?thesis using inv unfolding pool_inv_def by blast
qed

theorem pool_runs_tasks_in_time_witness:
  "\<exists>p. pool_run [PoolSpawn 2, PoolAfter 5 ''b'', PoolAfter 3 ''a'', WorkerStart 0, WorkerStart 1, WorkerWait 1, PoolTick 6, WorkerTake 0 1, WorkerWake 1, WorkerTake 1 0, WorkerDone 0]
     ThreadPool_init = Some p \<and> tp_started p = [(6, 3, ''a''), (6, 5, ''b'')] \<and> (\<forall>(start, time, f) \<in> set (tp_started p). time \<le> start)"
proof -
  let ?as = "[PoolSpawn 2, PoolAfter 5 ''b'', PoolAfter 3 ''a'', WorkerStart 0, WorkerStart 1, WorkerWait 1, PoolTick 6, WorkerTake 0 1, WorkerWake 1, WorkerTake 1 0, WorkerDone 0]"
  define r where "r = pool_run ?as ThreadPool_init"
  have "r \<noteq> None \<and> tp_started (the r) = [(6, 3, ''a''), (6, 5, ''b'')]" unfolding r_def by code_simp
  then obtain p where p: "r = Some p" "tp_started p = [(6, 3, ''a''), (6, 5, ''b'')]" by auto
  from pool_runs_tasks_in_time [OF p(1) [unfolded r_def]] p(1) [unfolded r_def] p(2) show ?thesis by blast
qed

end
