(* ===== verification/Spec2Isabelle.thy ===== *)
theory Spec2Isabelle
  imports MediaHandlers QuicChannels Handshakes Av1 Establishment MediaRouting WebSocketApi ThreadPools
begin

text \<open>
  \<^bold>\<open>A verification of quic-rtc\<close>

  quic-rtc is libdatachannel, a C++ implementation of WebRTC data channels, media tracks and WebSockets, with a
  QUIC transport put beside the SCTP transport. This development models the parts of \<open>src/src\<close> and
  \<open>src/include/rtc\<close> that carry the library's own logic: session descriptions and their negotiation, data channels and
  their transports, tracks with packetization, media handlers and SRTP, the WebSocket stack down to TCP, and the thread pool.

  \<^bold>\<open>The parts and how they interact\<close>

  A peer connection exchanges session descriptions with its peer: it builds an offer or an answer from its data channels
  and tracks, prints it as text (SDP), parses the text of the other side, and drives the ICE agent with both. When the
  connection is up, DTLS runs over ICE; the fingerprint of the certificate is compared with the one of the remote
  description. Data channels then get streams of the SCTP transport (or of the QUIC transport) and exchange messages
  after an opening exchange (DCEP). A media track hands frames to a chain of media handlers. On the way out, a packetizer splits a
  frame into units, fragments them and puts each fragment behind an RTP header; further handlers of the chain store packets for
  retransmission, count them for sender reports or pace them; DTLS-SRTP encrypts what the track sends. On the way
  in, the connection routes decrypted packets to tracks by their SSRC, handlers answer NACK, PLI and REMB feedback and follow
  sender reports, and a depacketizer reassembles frames. A WebSocket exchanges frames
  over a byte stream after a HTTP handshake. Messages pass between threads through queues, and callbacks run on a
  processor that keeps their order.

  \<^bold>\<open>The theories\<close>

  \<^item> Prelude: bytes, words and byte orders; loads and stores in byte lists; the interface \<open>wire_struct\<close> of a structure
    with a fixed layout on the wire (what it decodes to after it was encoded, what a field update leaves alone),
    interpreted for every header of the next theories.
  \<^item> Rtp (\<open>rtp.cpp\<close>, \<open>rtp.hpp\<close>): \<open>RtpHeader\<close>, \<open>RtpExtensionHeader\<close>, \<open>RtpRtx\<close>. Accessors read and setters write
    the fields in the byte order and at the bit positions of the code.
  \<^item> Rtcp (\<open>rtp.cpp\<close>): sender and receiver reports, PLI, FIR, REMB, NACK. Sdes (\<open>rtp.cpp\<close>): source descriptions.
  \<^item> NalUnit (\<open>nalunit.hpp\<close>, \<open>h265nalunit.hpp\<close> and their sources): headers, the start sequence matcher, fragmentation.
  \<^item> Messages (\<open>message.hpp\<close>, \<open>message.cpp\<close>, \<open>queue.hpp\<close>): messages and the queue, as an instance of the interface \<open>fifo\<close>.
  \<^item> Packetizer, Depacketizer (\<open>rtppacketizer.cpp\<close>, \<open>h264rtppacketizer.cpp\<close>, \<open>h264rtpdepacketizer.cpp\<close> and the H.265
    counterparts): configuration, packetization with its header extensions, splitting, reassembly. The interface
    \<open>fragmentation\<close> states what the fragments of a unit promise; it is interpreted for H.264 and H.265.
  \<^item> Av1 (\<open>av1rtppacketizer.cpp\<close>): the extraction of OBUs, their aggregation and fragmentation.
  \<^item> NackResponder (\<open>rtcpnackresponder.cpp\<close>): the packet storage and the handler that retransmits; the interface
    \<open>packet_store\<close> states what a lookup finds, and is interpreted on the storage with its eviction.
  \<^item> MediaHandlers (\<open>mediahandler.cpp\<close>, \<open>plihandler.cpp\<close>, \<open>rembhandler.cpp\<close>, \<open>rtcpreceivingsession.cpp\<close>,
    \<open>rtcpsrreporter.cpp\<close>, \<open>pacinghandler.cpp\<close>): the other handlers and the chain, as a datatype with one constructor for
    each class.
  \<^item> Tracks (\<open>impl/track.cpp\<close>, \<open>track.cpp\<close>): sending and receiving through the chain, the receive queue and its callbacks.
    MediaPath: from track to track; the interface \<open>track_codec\<close> is what both codecs provide.
  \<^item> Srtp (\<open>impl/dtlssrtptransport.cpp\<close>): key derivation after the handshake, protection of outgoing and demultiplexing of
    incoming packets.
  \<^item> DataChannels (\<open>impl/channel.cpp\<close>, \<open>impl/datachannel.cpp\<close>): channels, DCEP, callbacks as a trace of events.
  \<^item> Processors (\<open>impl/processor.hpp\<close>, \<open>impl/transport.hpp\<close>): the processor, again a \<open>fifo\<close>, and transport states.
  \<^item> Sctp (\<open>impl/sctptransport.cpp\<close>): the send queue, the receive buffers, notifications, resets and the buffered amounts.
  \<^item> Quic, QuicChannels (\<open>impl/quicktransport.cpp\<close>, \<open>impl/quicdatachannel.cpp\<close>): the transport over lsquic, whose calls are
    a trace and whose results are arguments, and the channels over it with their shadowed members.
  \<^item> PeerChannels, Establishment (\<open>impl/peerconnection.cpp\<close>): the registry of data channels, the assignment of streams, and what
    two connections achieve with them.
  \<^item> SdpText (helpers of \<open>candidate.cpp\<close> and \<open>description.cpp\<close>, with the interface \<open>ordered_map\<close> for \<open>std::map\<close>), Candidates
    (\<open>candidate.cpp\<close>), Descriptions and Sessions (\<open>description.cpp\<close>): printing and parsing of candidates, entries and whole
    descriptions. SdpEntries, SdpRoundtrip, SdpSession and SdpExchange: what survives the way through the text.
  \<^item> Negotiation (\<open>peerconnection.cpp\<close>, \<open>impl/peerconnection.cpp\<close>, \<open>impl/icetransport.cpp\<close>): the signaling state machine, the
    local and the remote description, the registry of tracks, candidates, closing. OfferAnswer: the step relation
    \<open>peer_step\<close> over all calls and events, and its invariants. Exchanges: two connections.
  \<^item> MediaRouting (\<open>impl/peerconnection.cpp\<close>): the check of the certificate, the state callbacks of DTLS and SCTP, opening and
    closing tracks, and the dispatch of media by SSRC.
  \<^item> WebSockets (\<open>impl/wstransport.cpp\<close>): frames, reassembly, ping and close, the incoming handler with its error paths.
  \<^item> Utils (\<open>impl/utils.cpp\<close>, \<open>impl/http.cpp\<close>): tokens, URL decoding, base64, lines and headers of HTTP messages.
  \<^item> Handshakes (\<open>impl/wshandshake.cpp\<close>): requests, responses, error pages and their parsers.
  \<^item> Tcp (\<open>impl/tcptransport.cpp\<close>, \<open>impl/pollservice.cpp\<close>): connecting to one of several addresses, the send queue over a socket that
    takes what it likes, reading, and the poll service that drives it. Proxy (\<open>impl/httpproxytransport.cpp\<close>): the tunnel through a HTTP proxy.
  \<^item> Urls (\<open>configuration.cpp\<close>): the regular expression for URLs, with \<open>std::regex_match\<close> as a backtracking search, and the servers of a configuration.
  \<^item> WebSocketApi (\<open>impl/websocket.cpp\<close>, \<open>websocket.cpp\<close>, \<open>impl/websocketserver.cpp\<close>): the WebSocket of the user, its stack of
    transports and their state callbacks; the step function \<open>api_exec\<close> over all calls and callbacks, and its invariant.
  \<^item> ThreadPools (\<open>impl/threadpool.cpp\<close>): workers, tasks with their times and joins, under every interleaving.

  \<^bold>\<open>How the code is modelled\<close>

  A class is a \<open>record\<close> of its members, a method a function from the state and the arguments to the result and the new
  state. A method that raises returns \<open>Inl\<close> with the state it leaves behind. Machine integers are words of their
  width. A pointer into a buffer is an offset; a read behind the end of the buffer is the error \<open>OutOfBounds\<close>.
  Objects that can be destroyed while a registry still names them are numbered, and the registry maps to the number.
  Callbacks and calls into lower layers are appended to traces. Random bytes, the clock, the resolver, the results of lsquic,
  usrsctp, libjuice and libsrtp, the sockets and the SHA-1 function are arguments. The theorems assume of them, where they need it, only
  that libsrtp restores what it protected (\<open>srtp_inverse\<close>), that the calls of the ICE agent succeed (\<open>working\<close>), and that a socket takes at least one
  byte and no more than it is offered, would block, or is broken for ever (\<open>os_ok\<close>); the witnesses instantiate all three.

  Every loop has a termination proof, with four exceptions: the fragmentation loop (\<open>fragments_loop\<close>), the search for
  a free stream (\<open>free_stream\<close>), the loop over OBUs (\<open>obu_loop\<close>) and the loop that hands a message to a socket (\<open>tcp_trySendMessage\<close>) need not end for
  all arguments; they are
  \<open>partial_function\<close>s with the result \<open>None\<close> where they do not end, and the theorems show that they return in all other
  cases. The search for an unused identifier of a track (\<open>free_mid\<close>) is bounded by the number of entries, which is
  shown to be enough: it returns the first unused one.

  \<^bold>\<open>What is shown\<close>

  \<^item> Negotiation: an exchange of offer and answer through their texts completes and leaves both ends Stable with opposite
    roles; the signaling invariant holds after any sequence of calls; the answer mirrors the offer; descriptions and candidates
    survive printing and parsing.
  \<^item> Formats: what is written is what is read, for headers, reports, NACK lists, REMB bit rates, source descriptions,
    DCEP messages, WebSocket frames, HTTP headers, base64; lengths and bounds of what is written.
  \<^item> Media: frames that pass the packetizer and the depacketizer come back, for each codec, also from track to track;
    SRTP delivers in order what was sent; packets reach the track of their source and no other; lost packets are found in
    the storage and sent again by the composed chain; reports are valid compound packets and reach the peer; pacing
    keeps the order and the budget.
  \<^item> Channels and transports: channels get streams of their own and open on both sides; a life cycle in which callbacks fire
    once and messages stay in order, over SCTP from end to end; queues that refine
    a FIFO; the QUIC send queue; WebSocket sessions from the first byte of the request to the last frame, for every
    way the byte stream is cut, also over TCP transports whose sockets take part of what they are offered; the message size limit; tasks of the thread pool that
    start in time, once, and never while it is joined.
  \<^item> WebSockets as the user sees them: a URL is taken apart into its parts and opens the right stack of transports; the open and the closed
    callback are called once for each connection, whatever the transports report.
  \<^item> Where the code does not do what it means to, the theorem states what it does, with a witness.

  \<^bold>\<open>Not modelled\<close>

  Calls into libjuice, libnice, usrsctp, OpenSSL, GnuTLS, Mbed TLS, libsrtp and sockets, and the transports that
  consist of them (DTLS, TLS, the TCP server); certificates; the C API, which maps handles to the objects; logging and the initialisation of the
  libraries; locks (each method is atomic, as its mutex makes it).
\<close>

end
